(* ===== verification/Iron_Prelude.thy ===== *)
theory Iron_Prelude
  imports Main "HOL-Library.Word"
begin

text \<open>
  Shared vocabulary of the development.

  \<^item> Results: a fallible Go function returns \<open>'e + 'a\<close>; \<open>rbind\<close> is the early return
    \<^verbatim>\<open>if err != nil { return err }\<close>, \<open>traverse\<close> the loop that stops at the first error.
  \<^item> Go maps with string keys (\<^verbatim>\<open>map[string]any\<close>, \<^verbatim>\<open>map[string]json.RawMessage\<close>) are
    association lists with \<open>jput\<close>, \<open>jdel\<close> and \<open>jget\<close>; the locale \<open>go_map\<close> states what
    clients rely on and is interpreted on them.
  \<^item> JSON documents are the values of \<open>json\<close>; the \<open>dec_\<close> functions follow
    \<^verbatim>\<open>encoding/json\<close>'s rules for decoding into a zero value (null keeps the zero value, a
    value of another type is an error, struct keys match case-insensitively, the last
    occurrence of a key wins).
  \<^item> The parts of \<^verbatim>\<open>strings\<close> and \<^verbatim>\<open>strconv\<close> the sources call, over byte strings.
\<close>

named_theorems obj_simps \<open>lookups in association-list objects\<close>
named_theorems decode_simps \<open>unfolding of JSON decoders\<close>

section \<open>Results\<close>

fun rbind :: "'e + 'a \<Rightarrow> ('a \<Rightarrow> 'e + 'b) \<Rightarrow> 'e + 'b" where
  "rbind (Inl e) f = Inl e"
| "rbind (Inr x) f = f x"

lemma rbind_eq_Inr_iff: "(rbind r f = Inr y) = (\<exists>x. r = Inr x \<and> f x = Inr y)"
  by (cases r) auto

lemma rbind_eq_Inl_iff: "(rbind r f = Inl e) = (r = Inl e \<or> (\<exists>x. r = Inr x \<and> f x = Inl e))"
  by (cases r) auto

lemma rbind_cong [fundef_cong]:
  "r = r' \<Longrightarrow> (\<And>x. r' = Inr x \<Longrightarrow> f x = g x) \<Longrightarrow> rbind r f = rbind r' g"
  by (cases r') auto

fun traverse :: "('a \<Rightarrow> 'e + 'b) \<Rightarrow> 'a list \<Rightarrow> 'e + 'b list" where
  "traverse f [] = Inr []"
| "traverse f (x # xs) = rbind (f x) (\<lambda>y. rbind (traverse f xs) (\<lambda>ys. Inr (y # ys)))"

lemma traverse_cong [fundef_cong]:
  "xs = ys \<Longrightarrow> (\<And>x. x \<in> set ys \<Longrightarrow> f x = g x) \<Longrightarrow> traverse f xs = traverse g ys"
proof (induction xs arbitrary: ys)
  case Nil
  then show ?case by simp
next
  case (Cons x xs)
  from Cons.prems have "traverse f xs = traverse g xs"
    by (intro Cons.IH) auto
  with Cons.prems show ?case by auto
qed

lemma traverse_Inr_iff: "(traverse f xs = Inr ys) = list_all2 (\<lambda>x y. f x = Inr y) xs ys"
  by (induction xs arbitrary: ys) (auto simp: rbind_eq_Inr_iff list_all2_Cons1)

lemma traverse_map_Inr: "(\<And>x. x \<in> set xs \<Longrightarrow> f (g x) = Inr x) \<Longrightarrow> traverse f (map g xs) = Inr xs"
  by (induction xs) auto

lemma traverse_length: "traverse f xs = Inr ys \<Longrightarrow> length ys = length xs"
  by (simp add: traverse_Inr_iff list_all2_lengthD)

lemma traverse_nth: "traverse f xs = Inr ys \<Longrightarrow> i < length xs \<Longrightarrow> f (xs ! i) = Inr (ys ! i)"
  by (auto simp: traverse_Inr_iff dest: list_all2_nthD)

lemma traverse_Inr_set: "traverse f xs = Inr ys \<Longrightarrow> y \<in> set ys \<Longrightarrow> \<exists>x \<in> set xs. f x = Inr y"
  by (induction xs arbitrary: ys) (auto simp: rbind_eq_Inr_iff)

lemma traverse_Inr_total: "(\<And>x. x \<in> set xs \<Longrightarrow> \<exists>y. f x = Inr y) \<Longrightarrow> \<exists>ys. traverse f xs = Inr ys"
proof (induction xs)
  case (Cons x xs)
  then obtain y ys where "f x = Inr y" "traverse f xs = Inr ys" by fastforce
  then show ?case by simp
qed simp

lemma traverse_Inr_Inr: "traverse Inr xs = Inr xs"
  by (induction xs) auto

section \<open>Go maps with string keys\<close>

type_synonym 'v obj = "(string \<times> 'v) list"

fun jput :: "string \<Rightarrow> 'v \<Rightarrow> 'v obj \<Rightarrow> 'v obj" where
  "jput k v [] = [(k, v)]"
| "jput k v ((k', v') # m) = (if k = k' then (k, v) # m else (k', v') # jput k v m)"

definition jdel :: "string \<Rightarrow> 'v obj \<Rightarrow> 'v obj" where
  "jdel k m = filter (\<lambda>(k', _). k' \<noteq> k) m"

definition jget :: "'v obj \<Rightarrow> string \<Rightarrow> 'v option" where
  "jget m k = map_of m k"

definition obj_ok :: "'v obj \<Rightarrow> bool" where
  "obj_ok m = distinct (map fst m)"

lemma jget_Nil [obj_simps]: "jget [] k = None"
  by (simp add: jget_def)

lemma jget_Cons [obj_simps]: "jget ((k', v) # m) k = (if k = k' then Some v else jget m k)"
  by (simp add: jget_def)

lemma jget_jput [obj_simps]: "jget (jput k v m) k' = (if k' = k then Some v else jget m k')"
  by (induction m) (auto simp: jget_def)

lemma jget_jdel [obj_simps]: "jget (jdel k m) k' = (if k' = k then None else jget m k')"
  by (induction m) (auto simp: jget_def jdel_def)

lemma keys_jput: "set (map fst (jput k v m)) = insert k (set (map fst m))"
proof (induction m)
  case (Cons p m)
  then show ?case by (cases p; cases "k = fst p") (simp_all del: set_map add: insert_commute)
qed simp

lemma keys_jdel: "set (map fst (jdel k m)) = set (map fst m) - {k}"
  by (induction m) (auto simp: jdel_def)

lemma obj_ok_jput: "obj_ok m \<Longrightarrow> obj_ok (jput k v m)"
  by (induction m) (auto simp: obj_ok_def keys_jput simp del: set_map)

lemma obj_ok_jdel: "obj_ok m \<Longrightarrow> obj_ok (jdel k m)"
  by (induction m) (auto simp: obj_ok_def jdel_def)

lemma obj_ok_filter: "obj_ok m \<Longrightarrow> obj_ok (filter P m)"
  by (induction m) (auto simp: obj_ok_def)

lemma jget_None_iff: "jget m k = None \<longleftrightarrow> k \<notin> fst ` set m"
  by (simp add: jget_def map_of_eq_None_iff)

lemma jput_fresh: "jget m k = None \<Longrightarrow> jput k v m = m @ [(k, v)]"
  by (induction m) (auto simp: jget_def split: if_splits)

lemma jdel_fresh: "jget m k = None \<Longrightarrow> jdel k m = m"
  by (force simp: jget_def jdel_def map_of_eq_None_iff filter_id_conv)

lemma jdel_jput_same: "jdel k (jput k v m) = jdel k m"
  by (induction m) (auto simp: jdel_def)

lemma jdel_jput_fresh: "jget m k = None \<Longrightarrow> jdel k (jput k v m) = m"
  by (simp add: jdel_jput_same jdel_fresh)

lemma jdel_jput_other: "k \<noteq> k' \<Longrightarrow> jdel k (jput k' v m) = jput k' v (jdel k m)"
  by (induction m) (auto simp: jdel_def)

lemma jdel_append: "jdel k (m @ m') = jdel k m @ jdel k m'"
  by (simp add: jdel_def)

lemma jget_append [obj_simps]: "jget (m @ m') k = (case jget m k of None \<Rightarrow> jget m' k | Some v \<Rightarrow> Some v)"
  by (auto simp: jget_def map_add_def split: option.splits)

lemma jget_map_snd [obj_simps]: "jget (map (\<lambda>(k, v). (k, f v)) m) k = map_option f (jget m k)"
  by (induction m) (auto simp: jget_def)

text \<open>What the clients of a Go map rely on: reads after writes, and that a key occurs once.\<close>

locale go_map =
  fixes empty :: "'m"
    and put :: "string \<Rightarrow> 'v \<Rightarrow> 'm \<Rightarrow> 'm"
    and del :: "string \<Rightarrow> 'm \<Rightarrow> 'm"
    and get :: "'m \<Rightarrow> string \<Rightarrow> 'v option"
    and ok :: "'m \<Rightarrow> bool"
  assumes get_empty: "get empty k = None"
    and get_put: "get (put k v m) k' = (if k' = k then Some v else get m k')"
    and get_del: "get (del k m) k' = (if k' = k then None else get m k')"
    and ok_empty: "ok empty"
    and ok_put: "ok m \<Longrightarrow> ok (put k v m)"
    and ok_del: "ok m \<Longrightarrow> ok (del k m)"
begin

definition put_all :: "(string \<times> 'v) list \<Rightarrow> 'm \<Rightarrow> 'm" where
  "put_all ps m = foldl (\<lambda>m (k, v). put k v m) m ps"

lemma get_put_all: "get (put_all ps m) k = (case map_of (rev ps) k of None \<Rightarrow> get m k | Some v \<Rightarrow> Some v)"
proof (induction ps arbitrary: m)
  case Nil
  then show ?case by (simp add: put_all_def)
next
  case (Cons p ps)
  obtain k' v where p: "p = (k', v)" by (cases p)
  have "put_all (p # ps) m = put_all ps (put k' v m)"
    by (simp add: put_all_def p)
  then show ?case
    using Cons.IH [of "put k' v m"] by (simp add: p get_put map_add_def split: option.splits)
qed

lemma ok_put_all: "ok m \<Longrightarrow> ok (put_all ps m)"
proof (induction ps arbitrary: m)
  case Nil
  then show ?case by (simp add: put_all_def)
next
  case (Cons p ps)
  obtain k' v where p: "p = (k', v)" by (cases p)
  have "put_all (p # ps) m = put_all ps (put k' v m)"
    by (simp add: put_all_def p)
  then show ?case using Cons by (simp add: ok_put)
qed

end

interpretation jmap: go_map "[] :: 'v obj" jput jdel jget obj_ok
  by unfold_locales (auto simp: obj_simps obj_ok_jput obj_ok_jdel, simp add: obj_ok_def)

text \<open>
  Decoding a JSON object into a Go map: members are stored in order, so the last
  occurrence of a repeated key wins.
\<close>

definition to_map :: "(string \<times> 'v) list \<Rightarrow> 'v obj" where
  "to_map ps = foldl (\<lambda>m (k, v). jput k v m) [] ps"

lemma to_map_put_all: "to_map ps = jmap.put_all ps []"
  by (simp add: to_map_def jmap.put_all_def)

lemma jget_to_map: "jget (to_map ps) k = map_of (rev ps) k"
  by (simp add: to_map_put_all jmap.get_put_all obj_simps split: option.splits)

lemma obj_ok_to_map: "obj_ok (to_map ps)"
  unfolding to_map_put_all by (rule jmap.ok_put_all) (simp add: obj_ok_def)

lemma to_map_foldl_distinct:
  "distinct (map fst (m @ ps)) \<Longrightarrow> foldl (\<lambda>m (k, v). jput k v m) m ps = m @ ps"
proof (induction ps arbitrary: m)
  case Nil
  then show ?case by simp
next
  case (Cons p ps)
  obtain k v where p: "p = (k, v)" by (cases p)
  from Cons.prems p have "jget m k = None" by (auto simp: jget_None_iff)
  then have "jput k v m = m @ [p]" by (simp add: jput_fresh p)
  with Cons.IH [of "m @ [p]"] Cons.prems show ?case by (simp add: p)
qed

lemma to_map_id: "obj_ok ps \<Longrightarrow> to_map ps = ps"
  using to_map_foldl_distinct [of "[]" ps] by (simp add: to_map_def obj_ok_def)

section \<open>Go strings\<close>

text \<open>Go strings are byte strings; \<open>char\<close> is a byte.\<close>

definition HasPrefix :: "string \<Rightarrow> string \<Rightarrow> bool" where
  "HasPrefix s p = (take (length p) s = p)"

definition HasSuffix :: "string \<Rightarrow> string \<Rightarrow> bool" where
  "HasSuffix s p = (length p \<le> length s \<and> drop (length s - length p) s = p)"

definition CutPrefix :: "string \<Rightarrow> string \<Rightarrow> string option" where
  "CutPrefix s p = (if HasPrefix s p then Some (drop (length p) s) else None)"

definition TrimPrefix :: "string \<Rightarrow> string \<Rightarrow> string" where
  "TrimPrefix s p = (if HasPrefix s p then drop (length p) s else s)"

definition TrimSuffix :: "string \<Rightarrow> string \<Rightarrow> string" where
  "TrimSuffix s p = (if HasSuffix s p then take (length s - length p) s else s)"

lemma HasPrefix_append [simp]: "HasPrefix (p @ s) p"
  by (simp add: HasPrefix_def)

lemma CutPrefix_append [simp]: "CutPrefix (p @ s) p = Some s"
  by (simp add: CutPrefix_def)

lemma HasPrefix_iff: "HasPrefix s p \<longleftrightarrow> (\<exists>r. s = p @ r)"
proof
  assume "HasPrefix s p"
  then have "s = p @ drop (length p) s"
    by (metis HasPrefix_def append_take_drop_id)
  then show "\<exists>r. s = p @ r" ..
qed auto

lemma HasSuffix_append [simp]: "HasSuffix (s @ p) p"
  by (simp add: HasSuffix_def)

lemma TrimSuffix_append [simp]: "TrimSuffix (s @ p) p = s"
  by (simp add: TrimSuffix_def)

fun Contains :: "string \<Rightarrow> string \<Rightarrow> bool" where
  "Contains [] p = (p = [])"
| "Contains (c # s) p = (HasPrefix (c # s) p \<or> Contains s p)"

lemma Contains_iff: "Contains s p \<longleftrightarrow> (\<exists>a b. s = a @ p @ b)"
proof (induction s)
  case Nil
  then show ?case by auto
next
  case (Cons c s)
  show ?case
  proof
    assume "Contains (c # s) p"
    then consider r where "c # s = p @ r" | "Contains s p"
      by (auto simp: HasPrefix_iff)
    then show "\<exists>a b. c # s = a @ p @ b"
    proof cases
      case 1
      then have "c # s = [] @ p @ r" by simp
      then show ?thesis by blast
    next
      case 2
      then obtain a b where "s = a @ p @ b" using Cons.IH by blast
      then have "c # s = (c # a) @ p @ b" by simp
      then show ?thesis by blast
    qed
  next
    assume "\<exists>a b. c # s = a @ p @ b"
    then obtain a b where ab: "c # s = a @ p @ b" by blast
    show "Contains (c # s) p"
    proof (cases a)
      case Nil
      with ab have "HasPrefix (c # s) p" by (auto simp: HasPrefix_iff)
      then show ?thesis by simp
    next
      case (Cons c' a')
      with ab have "s = a' @ p @ b" by simp
      then show ?thesis using Cons.IH by auto
    qed
  qed
qed

text \<open>\<^verbatim>\<open>strings.Cut(s, sep)\<close> for a one-byte separator: \<open>None\<close> when it does not occur.\<close>

fun Cut :: "string \<Rightarrow> char \<Rightarrow> (string \<times> string) option" where
  "Cut [] sep = None"
| "Cut (c # s) sep = (if c = sep then Some ([], s) else map_option (\<lambda>(a, b). (c # a, b)) (Cut s sep))"

text \<open>\<^verbatim>\<open>strings.Split(s, sep)\<close> for a one-byte separator.\<close>

fun Split :: "string \<Rightarrow> char \<Rightarrow> string list" where
  "Split [] sep = [[]]"
| "Split (c # s) sep = (if c = sep then [] # Split s sep
     else (case Split s sep of [] \<Rightarrow> [[c]] | w # ws \<Rightarrow> (c # w) # ws))"

text \<open>
  Split at the last occurrence, as \<^verbatim>\<open>i := strings.LastIndex(s, sep)\<close> with
  \<^verbatim>\<open>s[:i], s[i+1:]\<close>; \<open>None\<close> when it does not occur.
\<close>

definition CutLast :: "string \<Rightarrow> char \<Rightarrow> (string \<times> string) option" where
  "CutLast s sep = map_option (\<lambda>(a, b). (rev b, rev a)) (Cut (rev s) sep)"

lemma Cut_Some: "Cut s sep = Some (a, b) \<longleftrightarrow> s = a @ sep # b \<and> sep \<notin> set a"
proof (induction s arbitrary: a)
  case (Cons c s)
  show ?case
  proof (cases "c = sep")
    case True
    then show ?thesis by (cases a) auto
  next
    case False
    then show ?thesis by (cases a) (auto simp: Cons.IH)
  qed
qed simp

lemma Cut_None: "Cut s sep = None \<longleftrightarrow> sep \<notin> set s"
  by (induction s) auto

lemma CutLast_Some: "CutLast s sep = Some (a, b) \<longleftrightarrow> s = a @ sep # b \<and> sep \<notin> set b"
proof -
  have "CutLast s sep = Some (a, b) \<longleftrightarrow> Cut (rev s) sep = Some (rev b, rev a)"
    unfolding CutLast_def by auto
  also have "\<dots> \<longleftrightarrow> rev s = rev b @ sep # rev a \<and> sep \<notin> set b"
    by (simp add: Cut_Some)
  also have "\<dots> \<longleftrightarrow> s = a @ sep # b \<and> sep \<notin> set b"
    using rev_swap [of s "rev b @ sep # rev a"] by simp
  finally show ?thesis .
qed

definition ascii_lower :: "char \<Rightarrow> char" where
  "ascii_lower c = (let n = of_char c :: nat in if 65 \<le> n \<and> n \<le> 90 then char_of (n + 32) else c)"

definition ToLower :: "string \<Rightarrow> string" where
  "ToLower s = map ascii_lower s"

text \<open>
  The number of bytes of the white-space rune (\<^verbatim>\<open>unicode.IsSpace\<close>) a string starts
  with, 0 when it starts with none. UTF-8 lead bytes are never continuation bytes, so
  scanning byte by byte finds the same runes as decoding.
\<close>

definition space_width :: "string \<Rightarrow> nat" where
  "space_width s = (case map of_char (take 3 s) :: nat list of
     [] \<Rightarrow> 0
   | a # r \<Rightarrow>
      if a \<in> {9, 10, 11, 12, 13, 32} then 1
      else (case r of
         [] \<Rightarrow> 0
       | b # r' \<Rightarrow>
          if a = 194 \<and> b \<in> {133, 160} then 2
          else (case r' of
             [] \<Rightarrow> 0
           | c # _ \<Rightarrow>
              if a = 225 \<and> b = 154 \<and> c = 128
               \<or> a = 226 \<and> b = 128 \<and> (128 \<le> c \<and> c \<le> 138 \<or> c = 168 \<or> c = 169 \<or> c = 175)
               \<or> a = 226 \<and> b = 129 \<and> c = 159
               \<or> a = 227 \<and> b = 128 \<and> c = 128
              then 3 else 0)))"

function skip_space :: "string \<Rightarrow> string" where
  "skip_space s = (if s = [] \<or> space_width s = 0 then s else skip_space (drop (space_width s) s))"
  by pat_completeness auto
termination
  by (relation "measure length") auto

declare skip_space.simps [simp del]

fun trim_right :: "string \<Rightarrow> string" where
  "trim_right [] = []"
| "trim_right (c # s) = (if skip_space (c # s) = [] then [] else c # trim_right s)"

definition TrimSpace :: "string \<Rightarrow> string" where
  "TrimSpace s = trim_right (skip_space s)"

text \<open>The longest prefix without white space, and the rest.\<close>

fun take_field :: "string \<Rightarrow> string \<times> string" where
  "take_field [] = ([], [])"
| "take_field (c # s) = (if space_width (c # s) \<noteq> 0 then ([], c # s)
     else (let (w, r) = take_field s in (c # w, r)))"

lemma take_field_length: "length (snd (take_field s)) \<le> length s"
  by (induction s) (auto simp: Let_def split: prod.splits)

lemma take_field_progress: "s \<noteq> [] \<Longrightarrow> space_width s = 0 \<Longrightarrow> length (snd (take_field s)) < length s"
  using take_field_length [of "tl s"] by (cases s) (auto simp: Let_def split: prod.splits)

function Fields :: "string \<Rightarrow> string list" where
  "Fields s = (if s = [] then []
     else if space_width s \<noteq> 0 then Fields (drop (space_width s) s)
     else fst (take_field s) # Fields (snd (take_field s)))"
  by pat_completeness auto
termination
  by (relation "measure length") (auto simp: take_field_progress)

declare Fields.simps [simp del]

section \<open>Numbers as text\<close>

definition digit_val :: "char \<Rightarrow> nat option" where
  "digit_val c = (let n = of_char c :: nat in
     if 48 \<le> n \<and> n \<le> 57 then Some (n - 48)
     else if 97 \<le> n \<and> n \<le> 122 then Some (n - 87)
     else if 65 \<le> n \<and> n \<le> 90 then Some (n - 55)
     else None)"

definition digit_char :: "nat \<Rightarrow> char" where
  "digit_char d = char_of (if d < 10 then d + 48 else d + 87)"

fun parse_digits :: "nat \<Rightarrow> nat \<Rightarrow> string \<Rightarrow> nat option" where
  "parse_digits base acc [] = Some acc"
| "parse_digits base acc (c # s) = (case digit_val c of
     None \<Rightarrow> None
   | Some d \<Rightarrow> if d < base then parse_digits base (acc * base + d) s else None)"

text \<open>\<^verbatim>\<open>strconv.ParseUint(s, base, bits)\<close> for an explicit base; \<open>None\<close> is a syntax or range error.\<close>

definition ParseUint :: "string \<Rightarrow> nat \<Rightarrow> nat \<Rightarrow> nat option" where
  "ParseUint s base bits = (if s = [] then None else
     (case parse_digits base 0 s of
        None \<Rightarrow> None
      | Some n \<Rightarrow> if n < 2 ^ bits then Some n else None))"

text \<open>\<^verbatim>\<open>strconv.Atoi\<close> on a 64-bit platform.\<close>

definition Atoi :: "string \<Rightarrow> int option" where
  "Atoi s = (case s of
     [] \<Rightarrow> None
   | c # r \<Rightarrow>
       if c = CHR ''-'' then (case ParseUint r 10 64 of
            None \<Rightarrow> None | Some n \<Rightarrow> if n \<le> 2 ^ 63 then Some (- int n) else None)
       else (case ParseUint (if c = CHR ''+'' then r else s) 10 64 of
            None \<Rightarrow> None | Some n \<Rightarrow> if n < 2 ^ 63 then Some (int n) else None))"

fun FormatUint :: "nat \<Rightarrow> nat \<Rightarrow> string" where
  "FormatUint base n = (if n < base \<or> base < 2 then [digit_char n]
     else FormatUint base (n div base) @ [digit_char (n mod base)])"

declare FormatUint.simps [simp del]

lemma digit_val_char: "d < 36 \<Longrightarrow> digit_val (digit_char d) = Some d"
  by (simp add: digit_val_def digit_char_def Let_def)

lemma parse_digits_append:
  "parse_digits base acc (s @ t) = (case parse_digits base acc s of
     None \<Rightarrow> None | Some n \<Rightarrow> parse_digits base n t)"
  by (induction s arbitrary: acc) (auto split: option.splits)

lemma FormatUint_not_Nil [simp]: "FormatUint base n \<noteq> []"
  by (subst FormatUint.simps) auto

lemma parse_FormatUint:
  "2 \<le> base \<Longrightarrow> base \<le> 36 \<Longrightarrow> parse_digits base 0 (FormatUint base n) = Some n"
proof (induction base n rule: FormatUint.induct)
  case (1 base n)
  show ?case
  proof (cases "n < base")
    case True
    with "1.prems" show ?thesis
      by (subst FormatUint.simps) (simp add: digit_val_char)
  next
    case False
    with "1" have "parse_digits base 0 (FormatUint base (n div base)) = Some (n div base)" by simp
    moreover have "n mod base < base" using "1.prems" by simp
    moreover from this "1.prems" have "n mod base < 36" by linarith
    ultimately show ?thesis
      using False "1.prems"
      by (subst FormatUint.simps) (simp add: parse_digits_append digit_val_char)
  qed
qed

text \<open>Printing and reading a number agree on every value of the target width.\<close>

lemma ParseUint_FormatUint:
  "2 \<le> base \<Longrightarrow> base \<le> 36 \<Longrightarrow> n < 2 ^ bits \<Longrightarrow> ParseUint (FormatUint base n) base bits = Some n"
  by (simp add: ParseUint_def parse_FormatUint)

lemma ParseUint_bound: "ParseUint s base bits = Some n \<Longrightarrow> n < 2 ^ bits"
  by (auto simp: ParseUint_def split: if_splits option.splits)

section \<open>JSON documents\<close>

text \<open>
  Integers are \<open>JInt\<close>; a number literal with a fraction or an exponent is kept as its
  text (\<open>JFloat\<close>), which no decoder of the development accepts.
\<close>

datatype json =
    JNull
  | JBool bool
  | JInt int
  | JFloat string
  | JStr string
  | JArr "json list"
  | JObj "(string \<times> json) list"

datatype decode_error =
    BadType                    \<comment> \<open>the value does not fit the Go type\<close>
  | NoTarget                   \<comment> \<open>a routing rule without a target\<close>
  | UnknownTarget string       \<comment> \<open>a bare string that names no rule target\<close>
  | UnknownTargetValue         \<comment> \<open>a target object with no known member\<close>
  | UnknownKind string         \<comment> \<open>no protocol is registered under this kind\<close>
  | EmptyProfile               \<comment> \<open>a node profile object without members\<close>

type_synonym 'a decoded = "decode_error + 'a"

text \<open>
  The member a struct field decodes from: the last one whose key matches ignoring the case of ASCII letters. (\<^verbatim>\<open>encoding/json\<close> also folds the two
  non-ASCII letters that fold to \<open>k\<close> and \<open>s\<close>, and merges the objects of a key given twice.) An absent slice and an empty one are the same list.
\<close>

definition jfield :: "(string \<times> json) list \<Rightarrow> string \<Rightarrow> json option" where
  "jfield ob k = map_of (rev (map (\<lambda>(k', v). (ToLower k', v)) ob)) (ToLower k)"

definition dec_field :: "(json \<Rightarrow> 'a decoded) \<Rightarrow> 'a \<Rightarrow> string \<Rightarrow> (string \<times> json) list \<Rightarrow> 'a decoded" where
  "dec_field dec zero k ob = (case jfield ob k of None \<Rightarrow> Inr zero | Some j \<Rightarrow> dec j)"

fun dec_string :: "json \<Rightarrow> string decoded" where
  "dec_string (JStr s) = Inr s"
| "dec_string JNull = Inr []"
| "dec_string _ = Inl BadType"

fun dec_bool :: "json \<Rightarrow> bool decoded" where
  "dec_bool (JBool b) = Inr b"
| "dec_bool JNull = Inr False"
| "dec_bool _ = Inl BadType"

fun dec_uint :: "nat \<Rightarrow> json \<Rightarrow> nat decoded" where
  "dec_uint bits (JInt i) = (if 0 \<le> i \<and> i < 2 ^ bits then Inr (nat i) else Inl BadType)"
| "dec_uint bits JNull = Inr 0"
| "dec_uint bits _ = Inl BadType"

fun dec_int :: "nat \<Rightarrow> json \<Rightarrow> int decoded" where
  "dec_int bits (JInt i) = (if - (2 ^ (bits - 1)) \<le> i \<and> i < 2 ^ (bits - 1) then Inr i else Inl BadType)"
| "dec_int bits JNull = Inr 0"
| "dec_int bits _ = Inl BadType"

fun dec_list :: "(json \<Rightarrow> 'a decoded) \<Rightarrow> json \<Rightarrow> 'a list decoded" where
  "dec_list dec (JArr js) = traverse dec js"
| "dec_list dec JNull = Inr []"
| "dec_list dec _ = Inl BadType"

text \<open>A pointer field: null is the nil pointer.\<close>

fun dec_ptr :: "(json \<Rightarrow> 'a decoded) \<Rightarrow> json \<Rightarrow> 'a option decoded" where
  "dec_ptr dec JNull = Inr None"
| "dec_ptr dec j = rbind (dec j) (\<lambda>x. Inr (Some x))"

text \<open>A struct: the members of an object; null decodes to the zero value.\<close>

fun dec_struct :: "((string \<times> json) list \<Rightarrow> 'a decoded) \<Rightarrow> json \<Rightarrow> 'a decoded" where
  "dec_struct dec (JObj ob) = dec ob"
| "dec_struct dec JNull = dec []"
| "dec_struct dec _ = Inl BadType"

lemma jfield_Nil [simp]: "jfield [] k = None"
  by (simp add: jfield_def)

lemma jfield_append: "jfield (o1 @ o2) k = (case jfield o2 k of None \<Rightarrow> jfield o1 k | Some v \<Rightarrow> Some v)"
  by (auto simp: jfield_def map_add_def split: option.splits)

lemma jfield_single: "jfield [(k', v)] k = (if ToLower k' = ToLower k then Some v else None)"
  by (auto simp: jfield_def)

lemma jfield_Cons: "jfield ((k', v) # o1) k =
   (case jfield o1 k of None \<Rightarrow> (if ToLower k' = ToLower k then Some v else None) | Some w \<Rightarrow> Some w)"
  by (auto simp: jfield_def map_add_def split: option.splits)

lemmas jfield_simps = jfield_append jfield_Cons

text \<open>Members written only when they are not the zero value (the \<^verbatim>\<open>omitempty\<close> tag).\<close>

definition omit_when :: "bool \<Rightarrow> string \<Rightarrow> json \<Rightarrow> (string \<times> json) list" where
  "omit_when is_zero k v = (if is_zero then [] else [(k, v)])"

definition enc_strings :: "string list \<Rightarrow> json" where
  "enc_strings ss = JArr (map JStr ss)"

definition enc_nat :: "nat \<Rightarrow> json" where
  "enc_nat n = JInt (int n)"

definition enc_ptr :: "('a \<Rightarrow> json) \<Rightarrow> 'a option \<Rightarrow> json" where
  "enc_ptr enc x = (case x of None \<Rightarrow> JNull | Some a \<Rightarrow> enc a)"

lemma jfield_omit: "jfield (omit_when b k v) k' = (if b \<or> ToLower k \<noteq> ToLower k' then None else Some v)"
  by (auto simp: omit_when_def jfield_single)

lemma dec_enc_strings [simp]: "dec_list dec_string (enc_strings ss) = Inr ss"
  by (simp add: enc_strings_def traverse_map_Inr)

lemma dec_enc_nat [simp]: "n < 2 ^ bits \<Longrightarrow> dec_uint bits (enc_nat n) = Inr n"
  using of_nat_less_iff [of n "2 ^ bits", where 'a = int] by (simp add: enc_nat_def)

lemma dec_enc_ptr:
  assumes "\<And>a. x = Some a \<Longrightarrow> dec (enc a) = Inr a" "\<And>a. x = Some a \<Longrightarrow> enc a \<noteq> JNull"
  shows "dec_ptr dec (enc_ptr enc x) = Inr x"
proof (cases x)
  case (Some a)
  with assms show ?thesis by (cases "enc a") (auto simp: enc_ptr_def)
qed (simp add: enc_ptr_def)

lemma size_jfield: "jfield ob k = Some v \<Longrightarrow> size v < Suc (size_list (size_prod (\<lambda>_. 0) size) ob)"
proof -
  assume "jfield ob k = Some v"
  then obtain k' where "(k', v) \<in> set ob"
    by (auto simp: jfield_def dest!: map_of_SomeD)
  then show ?thesis
    by (induction ob) auto
qed

lemma size_jget_to_map: "jget (to_map o1) k = Some v \<Longrightarrow> size v < Suc (size_list (size_prod (\<lambda>_. 0) size) o1)"
proof -
  assume "jget (to_map o1) k = Some v"
  then have "(k, v) \<in> set o1"
    by (auto simp: jget_to_map dest!: map_of_SomeD)
  then show ?thesis
    by (induction o1) auto
qed

end
