(* ===== verification/Routing_Model.thy ===== *)
theory Routing_Model
  imports Iron_Prelude
begin

text \<open>
  The user routing model (\<^verbatim>\<open>daemon-go/internal/routing/routing.go\<close>): rule targets, rules whose
  conditions pass through verbatim, named configurations, and their JSON codec; and the
  condition schema served to clients (\<^verbatim>\<open>routing/schema.go\<close>).

  Main results: a decoded rule re-encodes and decodes back to itself, and the re-encoded
  document carries every condition of the original unchanged.
\<close>

section \<open>Targets\<close>

abbreviation TargetDirect :: string where "TargetDirect \<equiv> ''Direct''"
abbreviation TargetBlock :: string where "TargetBlock \<equiv> ''Block''"
abbreviation TargetDefaultProxy :: string where "TargetDefaultProxy \<equiv> ''DefaultProxy''"
abbreviation TargetDpiBypass :: string where "TargetDpiBypass \<equiv> ''DpiBypass''"
abbreviation TargetNode :: string where "TargetNode \<equiv> ''Node''"
abbreviation TargetHijackDns :: string where "TargetHijackDns \<equiv> ''HijackDns''"
abbreviation TargetSniff :: string where "TargetSniff \<equiv> ''Sniff''"
abbreviation TargetResolve :: string where "TargetResolve \<equiv> ''Resolve''"

record sniff_params =
  sn_sniffer :: "string list"
  sn_timeout :: string

record resolve_params =
  rv_server :: string
  rv_strategy :: string

record rule_target =
  rt_kind :: string
  rt_node :: string
  rt_sniff :: "sniff_params option"
  rt_resolve :: "resolve_params option"

definition zero_target :: rule_target where
  "zero_target = \<lparr>rt_kind = [], rt_node = [], rt_sniff = None, rt_resolve = None\<rparr>"

definition IsRoute :: "rule_target \<Rightarrow> bool" where
  "IsRoute t = (rt_kind t \<in> {TargetDirect, TargetBlock, TargetDefaultProxy, TargetDpiBypass, TargetNode})"

text \<open>The kinds spelled as bare strings.\<close>

definition unit_kinds :: "string list" where
  "unit_kinds = [TargetDirect, TargetBlock, TargetDefaultProxy, TargetDpiBypass, TargetHijackDns]"

definition dec_sniff :: "json \<Rightarrow> sniff_params decoded" where
  "dec_sniff = dec_struct (\<lambda>ob.
     rbind (dec_field (dec_list dec_string) [] ''sniffer'' ob) (\<lambda>ss.
     rbind (dec_field dec_string [] ''timeout'' ob) (\<lambda>t.
     Inr \<lparr>sn_sniffer = ss, sn_timeout = t\<rparr>)))"

definition enc_sniff :: "sniff_params \<Rightarrow> json" where
  "enc_sniff s = JObj (omit_when (sn_sniffer s = []) ''sniffer'' (enc_strings (sn_sniffer s)) @
     omit_when (sn_timeout s = []) ''timeout'' (JStr (sn_timeout s)))"

definition dec_resolve :: "json \<Rightarrow> resolve_params decoded" where
  "dec_resolve = dec_struct (\<lambda>ob.
     rbind (dec_field dec_string [] ''server'' ob) (\<lambda>s.
     rbind (dec_field dec_string [] ''strategy'' ob) (\<lambda>t.
     Inr \<lparr>rv_server = s, rv_strategy = t\<rparr>)))"

definition enc_resolve :: "resolve_params \<Rightarrow> json" where
  "enc_resolve r = JObj (omit_when (rv_server r = []) ''server'' (JStr (rv_server r)) @
     omit_when (rv_strategy r = []) ''strategy'' (JStr (rv_strategy r)))"

text \<open>
  \<^verbatim>\<open>RuleTarget.UnmarshalJSON\<close>: a bare string is a unit variant; an object carries one of
  \<^verbatim>\<open>Node\<close>, \<^verbatim>\<open>Sniff\<close>, \<^verbatim>\<open>Resolve\<close>, looked at in this order.
\<close>

definition pick_tagged ::
  "string option \<Rightarrow> sniff_params option \<Rightarrow> resolve_params option \<Rightarrow> rule_target decoded" where
  "pick_tagged n s r = (case n of
     Some u \<Rightarrow> Inr (zero_target\<lparr>rt_kind := TargetNode, rt_node := u\<rparr>)
   | None \<Rightarrow> (case s of
       Some sp \<Rightarrow> Inr (zero_target\<lparr>rt_kind := TargetSniff, rt_sniff := Some sp\<rparr>)
     | None \<Rightarrow> (case r of
         Some rp \<Rightarrow> Inr (zero_target\<lparr>rt_kind := TargetResolve, rt_resolve := Some rp\<rparr>)
       | None \<Rightarrow> Inl UnknownTargetValue)))"

definition dec_tagged :: "(string \<times> json) list \<Rightarrow> rule_target decoded" where
  "dec_tagged ob =
     rbind (dec_field (dec_ptr dec_string) None ''Node'' ob) (\<lambda>n.
     rbind (dec_field (dec_ptr dec_sniff) None ''Sniff'' ob) (\<lambda>s.
     rbind (dec_field (dec_ptr dec_resolve) None ''Resolve'' ob) (\<lambda>r. pick_tagged n s r)))"

definition UnmarshalTarget :: "json \<Rightarrow> rule_target decoded" where
  "UnmarshalTarget j = (case j of
     JStr v \<Rightarrow> if v \<in> set unit_kinds then Inr (zero_target\<lparr>rt_kind := v\<rparr>) else Inl (UnknownTarget v)
   | _ \<Rightarrow> dec_struct dec_tagged j)"

datatype encode_error = UnknownTargetKind string

definition MarshalTarget :: "rule_target \<Rightarrow> encode_error + json" where
  "MarshalTarget t =
    (if rt_kind t \<in> set unit_kinds then Inr (JStr (rt_kind t))
     else if rt_kind t = TargetNode then Inr (JObj [(''Node'', JStr (rt_node t))])
     else if rt_kind t = TargetSniff then
       Inr (JObj [(''Sniff'', enc_sniff (case rt_sniff t of
          Some s \<Rightarrow> s | None \<Rightarrow> \<lparr>sn_sniffer = [], sn_timeout = []\<rparr>))])
     else if rt_kind t = TargetResolve then
       Inr (JObj [(''Resolve'', enc_resolve (case rt_resolve t of
          Some r \<Rightarrow> r | None \<Rightarrow> \<lparr>rv_server = [], rv_strategy = []\<rparr>))])
     else Inl (UnknownTargetKind (rt_kind t)))"

text \<open>The targets a decoder can produce: one payload, matching the kind.\<close>

definition target_ok :: "rule_target \<Rightarrow> bool" where
  "target_ok t =
    (if rt_kind t \<in> set unit_kinds then rt_node t = [] \<and> rt_sniff t = None \<and> rt_resolve t = None
     else if rt_kind t = TargetNode then rt_sniff t = None \<and> rt_resolve t = None
     else if rt_kind t = TargetSniff then rt_node t = [] \<and> rt_sniff t \<noteq> None \<and> rt_resolve t = None
     else rt_kind t = TargetResolve \<and> rt_node t = [] \<and> rt_sniff t = None \<and> rt_resolve t \<noteq> None)"

lemma ToLower_fields [simp]:
  "ToLower ''sniffer'' = ''sniffer''" "ToLower ''timeout'' = ''timeout''"
  "ToLower ''server'' = ''server''" "ToLower ''strategy'' = ''strategy''"
  "ToLower ''Node'' = ''node''" "ToLower ''Sniff'' = ''sniff''" "ToLower ''Resolve'' = ''resolve''"
  by code_simp+

lemma dec_enc_sniff: "dec_sniff (enc_sniff s) = Inr s"
  by (auto simp: dec_sniff_def enc_sniff_def dec_field_def jfield_append jfield_omit)

lemma dec_enc_resolve: "dec_resolve (enc_resolve r) = Inr r"
  by (auto simp: dec_resolve_def enc_resolve_def dec_field_def jfield_append jfield_omit)

lemma dec_ptr_obj: "dec_ptr dec (JObj ob) = rbind (dec (JObj ob)) (\<lambda>x. Inr (Some x))"
  by simp

lemma dec_ptr_sniff [simp]: "dec_ptr dec_sniff (enc_sniff s) = Inr (Some s)"
  using dec_enc_sniff [of s] by (simp add: enc_sniff_def)

lemma dec_ptr_resolve [simp]: "dec_ptr dec_resolve (enc_resolve s) = Inr (Some s)"
  using dec_enc_resolve [of s] by (simp add: enc_resolve_def)

lemma Unmarshal_Marshal_target:
  assumes "target_ok t"
  shows "\<exists>j. MarshalTarget t = Inr j \<and> UnmarshalTarget j = Inr t"
proof -
  have [simp]: "TargetNode \<notin> set unit_kinds" "TargetSniff \<notin> set unit_kinds" "TargetResolve \<notin> set unit_kinds"
    by (auto simp: unit_kinds_def)
  show ?thesis
    using assms
    by (auto simp: target_ok_def MarshalTarget_def UnmarshalTarget_def zero_target_def dec_tagged_def
          pick_tagged_def dec_field_def jfield_Cons split: if_splits)
qed

lemma unit_target_ok: "v \<in> set unit_kinds \<Longrightarrow> target_ok (zero_target\<lparr>rt_kind := v\<rparr>)"
  by (simp add: target_ok_def zero_target_def)

lemma pick_tagged_ok: "pick_tagged n s r = Inr t \<Longrightarrow> target_ok t"
  by (auto simp: pick_tagged_def target_ok_def zero_target_def unit_kinds_def split: option.splits)

lemma dec_tagged_ok: "dec_tagged ob = Inr t \<Longrightarrow> target_ok t"
  unfolding dec_tagged_def rbind_eq_Inr_iff by (blast intro: pick_tagged_ok)

lemma UnmarshalTarget_ok: "UnmarshalTarget j = Inr t \<Longrightarrow> target_ok t"
  by (cases j) (auto simp: UnmarshalTarget_def intro: dec_tagged_ok unit_target_ok split: if_splits)

section \<open>Rules\<close>

datatype rule = Rule (Target: rule_target) (Rules: "rule list") (Conditions: "json obj")

definition IsLogical :: "rule \<Rightarrow> bool" where
  "IsLogical r = (case jget (Conditions r) ''type'' of
     None \<Rightarrow> False
   | Some raw \<Rightarrow> (case dec_string raw of Inl _ \<Rightarrow> False | Inr s \<Rightarrow> s = ''logical''))"

lemma dec_list_cong [fundef_cong]:
  "j = j' \<Longrightarrow> (\<And>js x. j' = JArr js \<Longrightarrow> x \<in> set js \<Longrightarrow> f x = g x) \<Longrightarrow> dec_list f j = dec_list g j'"
  by (cases j') (auto intro: traverse_cong)

lemma size_rules_member:
  "jget (jdel ''target'' (to_map ob)) ''rules'' = Some (JArr js) \<Longrightarrow> x \<in> set js \<Longrightarrow> size x < size (JObj ob)"
  using size_jget_to_map [of ob "''rules''" "JArr js"] size_list_estimation' [of x js "size x" size]
  by (auto simp: obj_simps)

text \<open>\<^verbatim>\<open>Rule.UnmarshalJSON\<close>: split off \<^verbatim>\<open>target\<close> and a non-null \<^verbatim>\<open>rules\<close>, keep the rest.\<close>

function (sequential) UnmarshalRule :: "json \<Rightarrow> rule decoded" where
  "UnmarshalRule (JObj ob) =
     (case jget (to_map ob) ''target'' of
        None \<Rightarrow> Inl NoTarget
      | Some rawTarget \<Rightarrow>
          rbind (UnmarshalTarget rawTarget) (\<lambda>t.
            case jget (jdel ''target'' (to_map ob)) ''rules'' of
              None \<Rightarrow> Inr (Rule t [] (jdel ''target'' (to_map ob)))
            | Some rawRules \<Rightarrow>
                if rawRules = JNull then Inr (Rule t [] (jdel ''target'' (to_map ob)))
                else rbind (dec_list UnmarshalRule rawRules) (\<lambda>rs.
                       Inr (Rule t rs (jdel ''rules'' (jdel ''target'' (to_map ob)))))))"
| "UnmarshalRule JNull = Inl NoTarget"
| "UnmarshalRule _ = Inl BadType"
  by pat_completeness auto
termination
  by (relation "measure size") (auto dest: size_rules_member)

text \<open>\<^verbatim>\<open>Rule.MarshalJSON\<close>.\<close>

fun MarshalRule :: "rule \<Rightarrow> encode_error + json" where
  "MarshalRule (Rule t rs conds) =
     rbind (MarshalTarget t) (\<lambda>tj.
       if rs \<noteq> [] then
         rbind (traverse MarshalRule rs) (\<lambda>rjs. Inr (JObj (jput ''rules'' (JArr rjs) (jput ''target'' tj conds))))
       else Inr (JObj (jput ''target'' tj conds)))"

text \<open>
  The rules a decoder can produce: distinct condition keys, no \<^verbatim>\<open>target\<close> among them, and
  \<^verbatim>\<open>rules\<close> only as an explicit null of a rule without sub-rules.
\<close>

fun rule_ok :: "rule \<Rightarrow> bool" where
  "rule_ok (Rule t rs conds) = (target_ok t \<and> (\<forall>r \<in> set rs. rule_ok r) \<and> obj_ok conds \<and>
     jget conds ''target'' = None \<and>
     (jget conds ''rules'' = None \<or> jget conds ''rules'' = Some JNull \<and> rs = []))"

lemma obj_ok_two_puts: "obj_ok conds \<Longrightarrow> obj_ok (jput k v (jput k' v' conds))"
  by (intro obj_ok_jput)

lemma Unmarshal_Marshal_rule:
  "rule_ok r \<Longrightarrow> \<exists>j. MarshalRule r = Inr j \<and> UnmarshalRule j = Inr r"
proof (induction r)
  case (Rule t rs conds)
  then have ok: "obj_ok conds" "jget conds ''target'' = None" by simp_all
  from Rule.prems obtain tj where tj: "MarshalTarget t = Inr tj" "UnmarshalTarget tj = Inr t"
    using Unmarshal_Marshal_target by auto
  show ?case
  proof (cases "rs = []")
    case True
    have "UnmarshalRule (JObj (jput ''target'' tj conds)) = Inr (Rule t [] conds)"
      using Rule.prems True ok tj
      by (auto simp: to_map_id obj_ok_jput obj_simps jdel_jput_fresh)
    with True tj show ?thesis by simp
  next
    case False
    with Rule.prems have no: "jget conds ''rules'' = None" by auto
    have "\<And>r. r \<in> set rs \<Longrightarrow> \<exists>j. MarshalRule r = Inr j \<and> UnmarshalRule j = Inr r"
      using Rule by simp
    then obtain enc where enc: "\<And>r. r \<in> set rs \<Longrightarrow> MarshalRule r = Inr (enc r) \<and> UnmarshalRule (enc r) = Inr r"
      by metis
    have m: "traverse MarshalRule rs = Inr (map enc rs)"
      using enc by (induction rs) auto
    have u: "traverse UnmarshalRule (map enc rs) = Inr rs"
      by (rule traverse_map_Inr) (simp add: enc)
    have "UnmarshalRule (JObj (jput ''rules'' (JArr (map enc rs)) (jput ''target'' tj conds))) = Inr (Rule t rs conds)"
      using ok no tj(2) u
      by (simp add: to_map_id obj_ok_jput obj_simps jdel_jput_fresh jdel_jput_other)
    with False tj m show ?thesis by simp
  qed
qed

lemma UnmarshalRule_ok: "UnmarshalRule j = Inr r \<Longrightarrow> rule_ok r"
proof (induction j arbitrary: r rule: UnmarshalRule.induct)
  case (1 ob)
  let ?m = "jdel ''target'' (to_map ob)"
  from "1.prems" obtain raw t where raw: "jget (to_map ob) ''target'' = Some raw" and
    t: "UnmarshalTarget raw = Inr t"
    by (auto simp: rbind_eq_Inr_iff split: option.splits)
  have ok: "obj_ok ?m" "jget ?m ''target'' = None" "target_ok t"
    using t by (auto simp: obj_ok_jdel obj_ok_to_map obj_simps dest: UnmarshalTarget_ok)
  show ?case
  proof (cases "jget ?m ''rules''")
    case None
    with "1.prems" raw t ok show ?thesis by auto
  next
    case (Some rr)
    show ?thesis
    proof (cases "rr = JNull")
      case True
      with "1.prems" raw t ok Some show ?thesis by auto
    next
      case False
      with "1.prems" raw t Some obtain rs where
        rs: "dec_list UnmarshalRule rr = Inr rs" and r: "r = Rule t rs (jdel ''rules'' ?m)"
        by (auto simp: rbind_eq_Inr_iff)
      from rs False obtain js where js: "rr = JArr js" by (cases rr) auto
      have "\<forall>r' \<in> set rs. rule_ok r'"
      proof
        fix r' assume "r' \<in> set rs"
        with rs js obtain x where "x \<in> set js" "UnmarshalRule x = Inr r'"
          by (auto dest: traverse_Inr_set)
        with "1.IH" [OF raw t Some False js] show "rule_ok r'" by blast
      qed
      with ok r show ?thesis by (auto simp: obj_ok_jdel obj_simps)
    qed
  qed
qed auto

text \<open>
  Storing a routing rule loses nothing: whatever document a rule was decoded from, the
  rule encodes, and the encoding decodes to the same rule.
\<close>

theorem rule_roundtrip:
  assumes "UnmarshalRule j = Inr r"
  shows "\<exists>j'. MarshalRule r = Inr j' \<and> UnmarshalRule j' = Inr r"
  using assms by (intro Unmarshal_Marshal_rule UnmarshalRule_ok)

theorem rule_roundtrip_witness:
  "\<exists>r j'. UnmarshalRule (JObj [(''domain'', JArr [JStr ''a.b'']), (''target'', JStr ''Direct'')]) = Inr r \<and>
     MarshalRule r = Inr j' \<and> UnmarshalRule j' = Inr r"
proof -
  have "UnmarshalRule (JObj [(''domain'', JArr [JStr ''a.b'']), (''target'', JStr ''Direct'')]) =
      Inr (Rule (zero_target\<lparr>rt_kind := TargetDirect\<rparr>) [] [(''domain'', JArr [JStr ''a.b''])])"
    by code_simp
  from this rule_roundtrip [OF this] show ?thesis by blast
qed

lemma UnmarshalRule_conditions:
  assumes "UnmarshalRule (JObj ob) = Inr r" and "k \<noteq> ''target''" and "k \<noteq> ''rules''"
  shows "jget (Conditions r) k = jget (to_map ob) k"
  using assms by (auto simp: rbind_eq_Inr_iff obj_simps split: option.splits if_splits)

lemma MarshalRule_conditions:
  assumes "MarshalRule r = Inr j" and "k \<noteq> ''target''" and "k \<noteq> ''rules''"
  shows "\<exists>ob. j = JObj ob \<and> jget ob k = jget (Conditions r) k"
  using assms by (cases r) (auto simp: rbind_eq_Inr_iff obj_simps split: if_splits)

text \<open>
  Condition fields pass through verbatim: decoding a rule document and encoding the rule
  keeps the value of every key other than \<^verbatim>\<open>target\<close> and \<^verbatim>\<open>rules\<close>, and adds none.
\<close>

theorem rule_conditions_verbatim:
  assumes "UnmarshalRule (JObj ob) = Inr r" and "k \<noteq> ''target''" and "k \<noteq> ''rules''"
  shows "\<exists>ob'. MarshalRule r = Inr (JObj ob') \<and> jget ob' k = jget (to_map ob) k"
proof -
  from Unmarshal_Marshal_rule [OF UnmarshalRule_ok [OF assms(1)]]
  obtain j where j: "MarshalRule r = Inr j" by blast
  from MarshalRule_conditions [OF this assms(2,3)] UnmarshalRule_conditions [OF assms]
  show ?thesis using j by auto
qed

theorem rule_conditions_verbatim_witness:
  "\<exists>r ob'. UnmarshalRule (JObj [(''port'', JInt 53), (''target'', JStr ''Block'')]) = Inr r \<and>
     MarshalRule r = Inr (JObj ob') \<and> jget ob' ''port'' = Some (JInt 53)"
proof -
  have u: "UnmarshalRule (JObj [(''port'', JInt 53), (''target'', JStr ''Block'')]) =
      Inr (Rule (zero_target\<lparr>rt_kind := TargetBlock\<rparr>) [] [(''port'', JInt 53)])"
    by code_simp
  have "jget (to_map [(''port'', JInt 53), (''target'', JStr ''Block'')]) ''port'' = Some (JInt 53)"
    by code_simp
  with rule_conditions_verbatim [OF u, of "''port''"] u show ?thesis by auto
qed

section \<open>Named configurations\<close>

record rule_set_source =
  rs_tag :: string
  rs_url :: string
  rs_format :: string
  rs_download_detour :: "string option"

record routing_config =
  rc_id :: string
  rc_name :: string
  rc_rule_sets :: "rule_set_source list"
  rc_rules :: "rule list"
  rc_default_target :: rule_target

definition dec_rule_set :: "json \<Rightarrow> rule_set_source decoded" where
  "dec_rule_set = dec_struct (\<lambda>ob.
     rbind (dec_field dec_string [] ''tag'' ob) (\<lambda>t.
     rbind (dec_field dec_string [] ''url'' ob) (\<lambda>u.
     rbind (dec_field dec_string [] ''format'' ob) (\<lambda>f.
     rbind (dec_field (dec_ptr dec_string) None ''download_detour'' ob) (\<lambda>d.
     Inr \<lparr>rs_tag = t, rs_url = u, rs_format = f, rs_download_detour = d\<rparr>)))))"

definition enc_rule_set :: "rule_set_source \<Rightarrow> json" where
  "enc_rule_set s = JObj [(''tag'', JStr (rs_tag s)), (''url'', JStr (rs_url s)),
     (''format'', JStr (rs_format s)), (''download_detour'', enc_ptr JStr (rs_download_detour s))]"

text \<open>
  \<^verbatim>\<open>Config.UnmarshalJSON\<close>; \<open>newid\<close> is the identifier \<^verbatim>\<open>uuid.New\<close> returns, used when the
  document carries none.
\<close>

definition UnmarshalConfig :: "string \<Rightarrow> json \<Rightarrow> routing_config decoded" where
  "UnmarshalConfig newid = dec_struct (\<lambda>ob.
     rbind (dec_field dec_string [] ''id'' ob) (\<lambda>i.
     rbind (dec_field dec_string [] ''name'' ob) (\<lambda>n.
     rbind (dec_field (dec_list dec_rule_set) [] ''rule_sets'' ob) (\<lambda>ss.
     rbind (dec_field (dec_list UnmarshalRule) [] ''rules'' ob) (\<lambda>rs.
     rbind (dec_field UnmarshalTarget zero_target ''default_target'' ob) (\<lambda>t.
     Inr \<lparr>rc_id = (if i = [] then newid else i), rc_name = n, rc_rule_sets = ss, rc_rules = rs,
          rc_default_target = t\<rparr>))))))"

definition MarshalConfig :: "routing_config \<Rightarrow> encode_error + json" where
  "MarshalConfig c =
     rbind (traverse MarshalRule (rc_rules c)) (\<lambda>rs.
     rbind (MarshalTarget (rc_default_target c)) (\<lambda>t.
     Inr (JObj [(''id'', JStr (rc_id c)), (''name'', JStr (rc_name c)),
       (''rule_sets'', JArr (map enc_rule_set (rc_rule_sets c))),
       (''rules'', JArr rs), (''default_target'', t)])))"

definition NewDefault :: "string \<Rightarrow> routing_config" where
  "NewDefault newid = \<lparr>rc_id = newid, rc_name = ''default'', rc_rule_sets = [], rc_rules = [],
     rc_default_target = zero_target\<lparr>rt_kind := TargetDefaultProxy\<rparr>\<rparr>"

definition config_ok :: "routing_config \<Rightarrow> bool" where
  "config_ok c = (rc_id c \<noteq> [] \<and> (\<forall>r \<in> set (rc_rules c). rule_ok r) \<and> target_ok (rc_default_target c))"

lemma ToLower_config_fields [simp]:
  "ToLower ''tag'' = ''tag''" "ToLower ''url'' = ''url''" "ToLower ''format'' = ''format''"
  "ToLower ''download_detour'' = ''download_detour''" "ToLower ''id'' = ''id''"
  "ToLower ''name'' = ''name''" "ToLower ''rule_sets'' = ''rule_sets''"
  "ToLower ''rules'' = ''rules''" "ToLower ''default_target'' = ''default_target''"
  by code_simp+

lemma dec_enc_rule_set: "dec_rule_set (enc_rule_set s) = Inr s"
  by (simp add: dec_rule_set_def enc_rule_set_def dec_field_def jfield_Cons dec_enc_ptr)

lemma config_ok_NewDefault: "newid \<noteq> [] \<Longrightarrow> config_ok (NewDefault newid)"
  by (simp add: config_ok_def NewDefault_def unit_target_ok unit_kinds_def)

lemma Unmarshal_Marshal_rules:
  "\<forall>r \<in> set rs. rule_ok r \<Longrightarrow> \<exists>js. traverse MarshalRule rs = Inr js \<and> traverse UnmarshalRule js = Inr rs"
proof (induction rs)
  case (Cons r rs)
  then obtain j js where "MarshalRule r = Inr j" "UnmarshalRule j = Inr r"
    "traverse MarshalRule rs = Inr js" "traverse UnmarshalRule js = Inr rs"
    using Unmarshal_Marshal_rule [of r] by auto
  then show ?case by auto
qed simp

lemma Unmarshal_Marshal_config:
  assumes "config_ok c"
  shows "\<exists>j. MarshalConfig c = Inr j \<and> j \<noteq> JNull \<and> UnmarshalConfig newid j = Inr c"
proof -
  from assms obtain js where js: "traverse MarshalRule (rc_rules c) = Inr js"
    "traverse UnmarshalRule js = Inr (rc_rules c)"
    using Unmarshal_Marshal_rules [of "rc_rules c"] by (auto simp: config_ok_def)
  from assms obtain t where t: "MarshalTarget (rc_default_target c) = Inr t"
    "UnmarshalTarget t = Inr (rc_default_target c)"
    using Unmarshal_Marshal_target by (auto simp: config_ok_def)
  have ss: "traverse dec_rule_set (map enc_rule_set (rc_rule_sets c)) = Inr (rc_rule_sets c)"
    by (rule traverse_map_Inr) (rule dec_enc_rule_set)
  show ?thesis
    using assms js t ss
    by (simp add: MarshalConfig_def UnmarshalConfig_def dec_field_def jfield_Cons config_ok_def)
qed

section \<open>The condition schema\<close>

record condition_spec =
  cs_key :: string
  cs_kind :: string
  cs_hint :: string
  cs_platforms :: "string list option"

record api_condition_spec =
  acs_key :: string
  acs_kind :: string
  acs_hint :: string
  acs_supported :: bool

record routing_schema =
  sch_conditions :: "api_condition_spec list"
  sch_targets :: "string list"
  sch_rule_set_formats :: "string list"

abbreviation kindStrings :: string where "kindStrings \<equiv> ''strings''"
abbreviation kindPorts :: string where "kindPorts \<equiv> ''ports''"
abbreviation kindNumbers :: string where "kindNumbers \<equiv> ''numbers''"
abbreviation kindBool :: string where "kindBool \<equiv> ''bool''"
abbreviation kindString :: string where "kindString \<equiv> ''string''"
abbreviation kindNumber :: string where "kindNumber \<equiv> ''number''"

definition spec :: "string \<Rightarrow> string \<Rightarrow> string \<Rightarrow> condition_spec" where
  "spec k kd h = \<lparr>cs_key = k, cs_kind = kd, cs_hint = h, cs_platforms = None\<rparr>"

definition spec_on :: "string list \<Rightarrow> string \<Rightarrow> string \<Rightarrow> string \<Rightarrow> condition_spec" where
  "spec_on ps k kd h = \<lparr>cs_key = k, cs_kind = kd, cs_hint = h, cs_platforms = Some ps\<rparr>"

abbreviation desktopOS :: "string list" where "desktopOS \<equiv> [''linux'', ''darwin'', ''windows'']"
abbreviation unixOS :: "string list" where "unixOS \<equiv> [''linux'', ''darwin'']"
abbreviation wifiOS :: "string list" where "wifiOS \<equiv> [''darwin'', ''ios'', ''android'']"
abbreviation mobileOS :: "string list" where "mobileOS \<equiv> [''android'', ''ios'']"
abbreviation androidOS :: "string list" where "androidOS \<equiv> [''android'']"

definition conditions :: "condition_spec list" where
  "conditions = [
    spec ''inbound'' kindStrings ''inbound listener tags'',
    spec ''ip_version'' kindNumber ''4 or 6'',
    spec ''network'' kindStrings ''tcp / udp'',
    spec ''auth_user'' kindStrings ''SOCKS auth users'',
    spec ''protocol'' kindStrings (''sniffed protocol: tls / http / quic / dns / ssh / '' @ [CHR 0xE2, CHR 0x80, CHR 0xA6]),
    spec ''client'' kindStrings ''connection client type'',
    spec ''domain'' kindStrings ''exact domains'',
    spec ''domain_suffix'' kindStrings ''e.g. .youtube.com'',
    spec ''domain_keyword'' kindStrings ''substrings, e.g. google'',
    spec ''domain_regex'' kindStrings ''regular expressions'',
    spec ''source_ip_cidr'' kindStrings ''source CIDRs, e.g. 10.0.0.0/8'',
    spec ''source_ip_is_private'' kindBool ''source address is non-public'',
    spec ''ip_cidr'' kindStrings ''destination CIDRs'',
    spec ''ip_is_private'' kindBool ''destination address is non-public'',
    spec ''source_port'' kindPorts ''source ports, e.g. 12345'',
    spec ''source_port_range'' kindStrings ''ranges, e.g. 1000:2000'',
    spec ''port'' kindPorts ''destination ports, e.g. 80 443'',
    spec ''port_range'' kindStrings ''ranges, e.g. 8000:8080'',
    spec ''clash_mode'' kindString ''rule/global/direct mode tag'',
    spec ''rule_set'' kindStrings ''rule-set tags defined in this config'',
    spec ''rule_set_ip_cidr_match_source'' kindBool ''match rule-set IPs against the SOURCE address'',
    spec ''invert'' kindBool ''negate this rule's conditions'',
    spec_on desktopOS ''process_name'' kindStrings ''process executable name, e.g. firefox'',
    spec_on desktopOS ''process_path'' kindStrings ''full executable path'',
    spec_on desktopOS ''process_path_regex'' kindStrings ''path regular expressions'',
    spec_on unixOS ''user'' kindStrings ''OS user name'',
    spec_on unixOS ''user_id'' kindNumbers ''OS numeric uid'',
    spec_on androidOS ''package_name'' kindStrings ''Android package, e.g. org.mozilla.firefox'',
    spec_on wifiOS ''wifi_ssid'' kindStrings ''current Wi-Fi SSID'',
    spec_on wifiOS ''wifi_bssid'' kindStrings ''current Wi-Fi BSSID'',
    spec_on mobileOS ''network_type'' kindStrings ''wifi / cellular / ethernet / other'',
    spec_on mobileOS ''network_is_expensive'' kindBool ''metered/expensive network'',
    spec_on mobileOS ''network_is_constrained'' kindBool ''constrained network (iOS)'']"

definition SchemaFor :: "string \<Rightarrow> routing_schema" where
  "SchemaFor goos = \<lparr>
     sch_conditions = map (\<lambda>c. \<lparr>acs_key = cs_key c, acs_kind = cs_kind c, acs_hint = cs_hint c,
        acs_supported = (case cs_platforms c of None \<Rightarrow> True | Some ps \<Rightarrow> goos \<in> set ps)\<rparr>) conditions,
     sch_targets = [''DefaultProxy'', ''Direct'', ''Block'', ''Node''],
     sch_rule_set_formats = [''binary'', ''source'']\<rparr>"

end
