(* ===== verification/Proxy_Stream.thy ===== *)
theory Proxy_Stream
  imports Iron_Prelude
begin

text \<open>
  The stream model the V2Ray-family protocols share
  (\<^verbatim>\<open>daemon-go/internal/proxy/stream.go\<close>): the transport and security unions, their stored
  JSON shape, and the blocks they emit into sing-box and xray configurations; and the
  capability facts of the two cores (\<^verbatim>\<open>proxy/capabilities.go\<close>).
\<close>

type_synonym u16 = "16 word"
type_synonym u32 = "32 word"
type_synonym u64 = "64 word"

definition enc_word :: "'a::len word \<Rightarrow> json" where
  "enc_word w = JInt (uint w)"

definition dec_word :: "json \<Rightarrow> 'a::len word decoded" where
  "dec_word j = rbind (dec_uint (LENGTH('a)) j) (\<lambda>n. Inr (of_nat n))"

lemma dec_enc_word [simp]: "dec_word (enc_word w) = Inr w"
  using uint_bounded [of w] by (simp add: dec_word_def enc_word_def)

text \<open>The errors the proxy package reports.\<close>

datatype proxy_error =
    UnnativeTransport string      \<comment> \<open>no native sing-box outbound for this transport\<close>
  | MissingHost
  | MissingPort
  | InvalidPort string
  | RealityRequires string
  | ExtraNotJSON
  | UnsupportedTransport string
  | MissingMethod
  | LegacyMissingEndpoint
  | LegacyMissingCredentials
  | VmessEmpty
  | VmessBase64
  | VmessJSON
  | VmessMissingAdd
  | VmessMissingID
  | VmessPort
  | VmessAid
  | VmessReality
  | UnsupportedProtocol string
  | BadURL
  | NoCore
  | CoreCannotDial string
  | GroupHasNoProfile

section \<open>Security and transport unions\<close>

abbreviation SecurityNone :: string where "SecurityNone \<equiv> ''none''"
abbreviation SecurityTLS :: string where "SecurityTLS \<equiv> ''tls''"
abbreviation SecurityReality :: string where "SecurityReality \<equiv> ''reality''"
abbreviation TransportTCP :: string where "TransportTCP \<equiv> ''tcp''"
abbreviation TransportWs :: string where "TransportWs \<equiv> ''ws''"
abbreviation TransportGrpc :: string where "TransportGrpc \<equiv> ''grpc''"
abbreviation TransportXhttp :: string where "TransportXhttp \<equiv> ''xhttp''"

record tls_params =
  tls_sni :: string
  tls_fp :: string

record reality_params =
  rl_sni :: string
  rl_fp :: string
  rl_pbk :: string
  rl_sid :: string

record security =
  sec_kind :: string
  sec_tls :: "tls_params option"
  sec_reality :: "reality_params option"

record ws_params =
  ws_path :: string
  ws_host :: string

record grpc_params =
  grpc_service_name :: string

text \<open>\<open>xh_extra\<close> is the raw \<^verbatim>\<open>extra\<close> blob; \<open>None\<close> is the absent (empty) blob.\<close>

record xhttp_params =
  xh_path :: string
  xh_host :: string
  xh_mode :: string
  xh_extra :: "json option"

record transport =
  tr_kind :: string
  tr_ws :: "ws_params option"
  tr_grpc :: "grpc_params option"
  tr_xhttp :: "xhttp_params option"

definition plain_security :: "string \<Rightarrow> security" where
  "plain_security k = \<lparr>sec_kind = k, sec_tls = None, sec_reality = None\<rparr>"

definition plain_transport :: "string \<Rightarrow> transport" where
  "plain_transport k = \<lparr>tr_kind = k, tr_ws = None, tr_grpc = None, tr_xhttp = None\<rparr>"

text \<open>\<^verbatim>\<open>Security.SNI\<close>: the TLS or Reality front domain.\<close>

definition security_SNI :: "security \<Rightarrow> string" where
  "security_SNI s =
    (if sec_kind s = SecurityReality then (case sec_reality s of Some r \<Rightarrow> rl_sni r | None \<Rightarrow> [])
     else if sec_kind s = SecurityTLS then (case sec_tls s of Some t \<Rightarrow> tls_sni t | None \<Rightarrow> [])
     else [])"

section \<open>Emitting sing-box blocks\<close>

definition singBoxTLS :: "security \<Rightarrow> json obj option" where
  "singBoxTLS s =
    (if sec_kind s = SecurityReality then
       (case sec_reality s of
          None \<Rightarrow> None
        | Some r \<Rightarrow> Some [
            (''enabled'', JBool True),
            (''server_name'', JStr (rl_sni r)),
            (''utls'', JObj [(''enabled'', JBool True), (''fingerprint'', JStr (rl_fp r))]),
            (''reality'', JObj [(''enabled'', JBool True), (''public_key'', JStr (rl_pbk r)),
                                (''short_id'', JStr (rl_sid r))])])
     else if sec_kind s = SecurityTLS then
       (let tp = (case sec_tls s of Some t \<Rightarrow> t | None \<Rightarrow> \<lparr>tls_sni = [], tls_fp = []\<rparr>);
            tls = [(''enabled'', JBool True)];
            tls = (if tls_sni tp \<noteq> [] then jput ''server_name'' (JStr (tls_sni tp)) tls else tls);
            tls = (if tls_fp tp \<noteq> [] then jput ''utls''
                     (JObj [(''enabled'', JBool True), (''fingerprint'', JStr (tls_fp tp))]) tls else tls)
        in Some tls)
     else None)"

text \<open>\<open>Inr None\<close> is plain TCP, which has no block; \<open>Inl\<close> a transport sing-box cannot dial.\<close>

definition singBoxTransport :: "transport \<Rightarrow> proxy_error + json obj option" where
  "singBoxTransport t =
    (if tr_kind t = TransportTCP then Inr None
     else if tr_kind t = TransportWs then
       (let w = (case tr_ws t of Some w \<Rightarrow> w | None \<Rightarrow> \<lparr>ws_path = [], ws_host = []\<rparr>);
            ws = [(''type'', JStr ''ws'')];
            ws = (if ws_path w \<noteq> [] then jput ''path'' (JStr (ws_path w)) ws else ws);
            ws = (if ws_host w \<noteq> [] then jput ''headers'' (JObj [(''Host'', JStr (ws_host w))]) ws else ws)
        in Inr (Some ws))
     else if tr_kind t = TransportGrpc then
       (let g = (case tr_grpc t of Some g \<Rightarrow> g | None \<Rightarrow> \<lparr>grpc_service_name = []\<rparr>);
            grpc = [(''type'', JStr ''grpc'')];
            grpc = (if grpc_service_name g \<noteq> [] then jput ''service_name'' (JStr (grpc_service_name g)) grpc else grpc)
        in Inr (Some grpc))
     else Inl (UnnativeTransport (tr_kind t)))"

section \<open>Emitting xray blocks\<close>

definition applyXraySecurity :: "security \<Rightarrow> json obj \<Rightarrow> json obj" where
  "applyXraySecurity s stream =
    (if sec_kind s = SecurityReality then
       (case sec_reality s of
          None \<Rightarrow> jput ''security'' (JStr ''none'') stream
        | Some r \<Rightarrow>
            jput ''realitySettings'' (JObj [
              (''serverName'', JStr (rl_sni r)), (''fingerprint'', JStr (rl_fp r)),
              (''publicKey'', JStr (rl_pbk r)), (''shortId'', JStr (rl_sid r)),
              (''show'', JBool False), (''spiderX'', JStr [])])
            (jput ''security'' (JStr ''reality'') stream))
     else if sec_kind s = SecurityTLS then
       (let tp = (case sec_tls s of Some t \<Rightarrow> t | None \<Rightarrow> \<lparr>tls_sni = [], tls_fp = []\<rparr>);
            tls = [(''allowInsecure'', JBool False)];
            tls = (if tls_sni tp \<noteq> [] then jput ''serverName'' (JStr (tls_sni tp)) tls else tls);
            tls = (if tls_fp tp \<noteq> [] then jput ''fingerprint'' (JStr (tls_fp tp)) tls else tls)
        in jput ''tlsSettings'' (JObj tls) (jput ''security'' (JStr ''tls'') stream))
     else jput ''security'' (JStr ''none'') stream)"

definition applyXrayTransport :: "transport \<Rightarrow> json obj \<Rightarrow> json obj" where
  "applyXrayTransport t stream =
    (if tr_kind t = TransportXhttp then
       (let x = (case tr_xhttp t of Some x \<Rightarrow> x
                 | None \<Rightarrow> \<lparr>xh_path = [], xh_host = [], xh_mode = [], xh_extra = None\<rparr>);
            mode = (if xh_mode x = [] then ''auto'' else xh_mode x);
            xhttp = [(''path'', JStr (xh_path x)), (''host'', JStr (xh_host x)), (''mode'', JStr mode)];
            xhttp = (case xh_extra x of None \<Rightarrow> xhttp | Some e \<Rightarrow> jput ''extra'' e xhttp)
        in jput ''xhttpSettings'' (JObj xhttp) (jput ''network'' (JStr ''xhttp'') stream))
     else if tr_kind t = TransportWs then
       (let w = (case tr_ws t of Some w \<Rightarrow> w | None \<Rightarrow> \<lparr>ws_path = [], ws_host = []\<rparr>)
        in jput ''wsSettings'' (JObj [(''path'', JStr (ws_path w)),
             (''headers'', JObj [(''Host'', JStr (ws_host w))])])
           (jput ''network'' (JStr ''ws'') stream))
     else if tr_kind t = TransportGrpc then
       (let g = (case tr_grpc t of Some g \<Rightarrow> g | None \<Rightarrow> \<lparr>grpc_service_name = []\<rparr>)
        in jput ''grpcSettings'' (JObj [(''serviceName'', JStr (grpc_service_name g))])
           (jput ''network'' (JStr ''grpc'') stream))
     else jput ''network'' (JStr ''tcp'') stream)"

lemma singBoxTransport_total:
  "tr_kind t \<in> {TransportTCP, TransportWs, TransportGrpc} \<Longrightarrow> \<exists>b. singBoxTransport t = Inr b"
  by (auto simp: singBoxTransport_def Let_def)

lemma singBoxTransport_xhttp: "tr_kind t = TransportXhttp \<Longrightarrow> singBoxTransport t = Inl (UnnativeTransport TransportXhttp)"
  by (simp add: singBoxTransport_def)

section \<open>The stored shape\<close>

definition enc_security :: "security \<Rightarrow> json" where
  "enc_security s = JObj ((''kind'', JStr (sec_kind s)) #
     (case sec_tls s of None \<Rightarrow> [] | Some t \<Rightarrow> [(''tls'', JObj (
        omit_when (tls_sni t = []) ''sni'' (JStr (tls_sni t)) @ omit_when (tls_fp t = []) ''fp'' (JStr (tls_fp t))))]) @
     (case sec_reality s of None \<Rightarrow> [] | Some r \<Rightarrow> [(''reality'', JObj [(''sni'', JStr (rl_sni r)),
        (''fp'', JStr (rl_fp r)), (''pbk'', JStr (rl_pbk r)), (''sid'', JStr (rl_sid r))])]))"

definition dec_tls_params :: "json \<Rightarrow> tls_params decoded" where
  "dec_tls_params = dec_struct (\<lambda>ob.
     rbind (dec_field dec_string [] ''sni'' ob) (\<lambda>s.
     rbind (dec_field dec_string [] ''fp'' ob) (\<lambda>f. Inr \<lparr>tls_sni = s, tls_fp = f\<rparr>)))"

definition dec_reality_params :: "json \<Rightarrow> reality_params decoded" where
  "dec_reality_params = dec_struct (\<lambda>ob.
     rbind (dec_field dec_string [] ''sni'' ob) (\<lambda>s.
     rbind (dec_field dec_string [] ''fp'' ob) (\<lambda>f.
     rbind (dec_field dec_string [] ''pbk'' ob) (\<lambda>p.
     rbind (dec_field dec_string [] ''sid'' ob) (\<lambda>i.
       Inr \<lparr>rl_sni = s, rl_fp = f, rl_pbk = p, rl_sid = i\<rparr>)))))"

definition dec_security :: "json \<Rightarrow> security decoded" where
  "dec_security = dec_struct (\<lambda>ob.
     rbind (dec_field dec_string [] ''kind'' ob) (\<lambda>k.
     rbind (dec_field (dec_ptr dec_tls_params) None ''tls'' ob) (\<lambda>t.
     rbind (dec_field (dec_ptr dec_reality_params) None ''reality'' ob) (\<lambda>r.
       Inr \<lparr>sec_kind = k, sec_tls = t, sec_reality = r\<rparr>))))"

definition enc_transport :: "transport \<Rightarrow> json" where
  "enc_transport t = JObj ((''kind'', JStr (tr_kind t)) #
     (case tr_ws t of None \<Rightarrow> [] | Some w \<Rightarrow> [(''ws'', JObj ((''path'', JStr (ws_path w)) #
        omit_when (ws_host w = []) ''host'' (JStr (ws_host w))))]) @
     (case tr_grpc t of None \<Rightarrow> [] | Some g \<Rightarrow> [(''grpc'', JObj [(''service_name'', JStr (grpc_service_name g))])]) @
     (case tr_xhttp t of None \<Rightarrow> [] | Some x \<Rightarrow> [(''xhttp'', JObj ((''path'', JStr (xh_path x)) #
        omit_when (xh_host x = []) ''host'' (JStr (xh_host x)) @ (''mode'', JStr (xh_mode x)) #
        (case xh_extra x of None \<Rightarrow> [] | Some e \<Rightarrow> [(''extra'', e)])))]))"

definition dec_ws :: "json \<Rightarrow> ws_params decoded" where
  "dec_ws = dec_struct (\<lambda>ob.
     rbind (dec_field dec_string [] ''path'' ob) (\<lambda>p.
     rbind (dec_field dec_string [] ''host'' ob) (\<lambda>h. Inr \<lparr>ws_path = p, ws_host = h\<rparr>)))"

definition dec_grpc :: "json \<Rightarrow> grpc_params decoded" where
  "dec_grpc = dec_struct (\<lambda>ob.
     rbind (dec_field dec_string [] ''service_name'' ob) (\<lambda>s. Inr \<lparr>grpc_service_name = s\<rparr>))"

text \<open>A raw message field takes any value, null included.\<close>

definition dec_raw :: "json \<Rightarrow> json option decoded" where
  "dec_raw j = Inr (Some j)"

definition dec_xhttp :: "json \<Rightarrow> xhttp_params decoded" where
  "dec_xhttp = dec_struct (\<lambda>ob.
     rbind (dec_field dec_string [] ''path'' ob) (\<lambda>p.
     rbind (dec_field dec_string [] ''host'' ob) (\<lambda>h.
     rbind (dec_field dec_string [] ''mode'' ob) (\<lambda>m.
     rbind (dec_field dec_raw None ''extra'' ob) (\<lambda>e.
       Inr \<lparr>xh_path = p, xh_host = h, xh_mode = m, xh_extra = e\<rparr>)))))"

definition dec_transport :: "json \<Rightarrow> transport decoded" where
  "dec_transport = dec_struct (\<lambda>ob.
     rbind (dec_field dec_string [] ''kind'' ob) (\<lambda>k.
     rbind (dec_field (dec_ptr dec_ws) None ''ws'' ob) (\<lambda>w.
     rbind (dec_field (dec_ptr dec_grpc) None ''grpc'' ob) (\<lambda>g.
     rbind (dec_field (dec_ptr dec_xhttp) None ''xhttp'' ob) (\<lambda>x.
       Inr \<lparr>tr_kind = k, tr_ws = w, tr_grpc = g, tr_xhttp = x\<rparr>)))))"

lemma ToLower_stream_fields [simp]:
  "ToLower ''kind'' = ''kind''" "ToLower ''tls'' = ''tls''" "ToLower ''reality'' = ''reality''"
  "ToLower ''sni'' = ''sni''" "ToLower ''fp'' = ''fp''" "ToLower ''pbk'' = ''pbk''" "ToLower ''sid'' = ''sid''"
  "ToLower ''ws'' = ''ws''" "ToLower ''grpc'' = ''grpc''" "ToLower ''xhttp'' = ''xhttp''"
  "ToLower ''path'' = ''path''" "ToLower ''host'' = ''host''" "ToLower ''mode'' = ''mode''"
  "ToLower ''extra'' = ''extra''" "ToLower ''service_name'' = ''service_name''"
  by code_simp+

lemma dec_enc_security: "dec_security (enc_security s) = Inr s"
proof (cases s)
  case (fields k t r)
  show ?thesis
    by (cases t; cases r) (auto simp: fields dec_security_def enc_security_def dec_tls_params_def
        dec_reality_params_def dec_field_def jfield_Cons jfield_append jfield_omit)
qed

lemma dec_enc_transport: "dec_transport (enc_transport t) = Inr t"
proof (cases t)
  case (fields k w g x)
  have ws: "dec_ws (JObj ((''path'', JStr (ws_path w)) # omit_when (ws_host w = []) ''host'' (JStr (ws_host w)))) = Inr w" for w
    by (auto simp: dec_ws_def dec_field_def jfield_Cons jfield_omit)
  have grpc: "dec_grpc (JObj [(''service_name'', JStr (grpc_service_name g))]) = Inr g" for g
    by (auto simp: dec_grpc_def dec_field_def jfield_Cons)
  have xh: "dec_xhttp (JObj ((''path'', JStr (xh_path x)) #
        omit_when (xh_host x = []) ''host'' (JStr (xh_host x)) @ (''mode'', JStr (xh_mode x)) #
        (case xh_extra x of None \<Rightarrow> [] | Some e \<Rightarrow> [(''extra'', e)]))) = Inr x" for x
    by (cases "xh_extra x") (auto simp: dec_xhttp_def dec_raw_def dec_field_def jfield_Cons jfield_append jfield_omit)
  show ?thesis
    by (cases w; cases g; cases x)
      (auto simp: fields dec_transport_def enc_transport_def dec_field_def jfield_Cons jfield_append ws grpc xh)
qed

section \<open>Core capabilities\<close>

abbreviation CoreXray :: string where "CoreXray \<equiv> ''Xray''"
abbreviation CoreSingBox :: string where "CoreSingBox \<equiv> ''SingBox''"

record core_capabilities =
  CanTUN :: bool
  Transports :: "string list"
  Securities :: "string list"
  Vision :: bool

definition isVisionFlow :: "string \<Rightarrow> bool" where
  "isVisionFlow flow = HasPrefix flow ''xtls-rprx-vision''"

definition coversFlow :: "core_capabilities \<Rightarrow> string \<Rightarrow> bool" where
  "coversFlow c flow = (if isVisionFlow flow then Vision c else True)"

definition hasTransport :: "core_capabilities \<Rightarrow> string \<Rightarrow> bool" where
  "hasTransport c t = (t \<in> set (Transports c))"

definition hasSecurity :: "core_capabilities \<Rightarrow> string \<Rightarrow> bool" where
  "hasSecurity c s = (s \<in> set (Securities c))"

definition singBoxCaps :: core_capabilities where
  "singBoxCaps = \<lparr>CanTUN = True, Transports = [TransportTCP, TransportWs, TransportGrpc],
     Securities = [SecurityNone, SecurityTLS, SecurityReality], Vision = True\<rparr>"

definition xrayCaps :: core_capabilities where
  "xrayCaps = \<lparr>CanTUN = False, Transports = [TransportTCP, TransportWs, TransportGrpc, TransportXhttp],
     Securities = [SecurityNone, SecurityTLS, SecurityReality], Vision = True\<rparr>"

definition CoreCaps :: "string \<Rightarrow> core_capabilities" where
  "CoreCaps core = (if core = CoreSingBox then singBoxCaps
     else if core = CoreXray then xrayCaps
     else \<lparr>CanTUN = False, Transports = [], Securities = [], Vision = False\<rparr>)"

lemmas core_caps_defs = CoreCaps_def singBoxCaps_def xrayCaps_def hasTransport_def hasSecurity_def coversFlow_def

end
