(* ===== verification/Proxy_Protocols.thy ===== *)
theory Proxy_Protocols
  imports Proxy_Stream
begin

text \<open>
  The eight proxy protocols (\<^verbatim>\<open>daemon-go/internal/proxy/<name>.go\<close>): each configuration as a
  record, and its stored JSON body with the decoder. A body decodes back to the configuration
  it was written from; \<open>Proxy_Profiles\<close> adds what the configurations offer to the daemon.
\<close>

section \<open>Configurations\<close>

record vless_config =
  vl_server_name :: string
  vl_uuid :: string
  vl_address :: string
  vl_port :: u16
  vl_encryption :: string
  vl_flow :: string
  vl_security :: security
  vl_transport :: transport

record shadowsocks_config =
  ss_server_name :: string
  ss_address :: string
  ss_port :: u16
  ss_method :: string
  ss_password :: string
  ss_plugin :: string
  ss_plugin_opts :: string

record vmess_config =
  vm_server_name :: string
  vm_uuid :: string
  vm_address :: string
  vm_port :: u16
  vm_alter_id :: int
  vm_cipher :: string
  vm_security :: security
  vm_transport :: transport

record trojan_config =
  tj_server_name :: string
  tj_address :: string
  tj_port :: u16
  tj_password :: string
  tj_security :: security
  tj_transport :: transport

record hysteria2_config =
  h2_server_name :: string
  h2_address :: string
  h2_port :: u16
  h2_password :: string
  h2_sni :: string
  h2_insecure :: bool
  h2_obfs :: string
  h2_obfs_password :: string
  h2_pin_sha256 :: string

record tuic_config =
  tu_server_name :: string
  tu_address :: string
  tu_port :: u16
  tu_uuid :: string
  tu_password :: string
  tu_sni :: string
  tu_congestion_control :: string
  tu_udp_relay_mode :: string
  tu_alpn :: "string list"
  tu_insecure :: bool

record hysteria_config =
  hy_server_name :: string
  hy_address :: string
  hy_port :: u16
  hy_auth :: string
  hy_sni :: string
  hy_insecure :: bool
  hy_up_mbps :: int
  hy_down_mbps :: int
  hy_obfs :: string
  hy_alpn :: string
  hy_protocol :: string

record anytls_config =
  at_server_name :: string
  at_address :: string
  at_port :: u16
  at_password :: string
  at_sni :: string
  at_insecure :: bool

section \<open>Stored bodies\<close>

text \<open>The range of a Go \<^verbatim>\<open>int\<close> on the supported platforms.\<close>

definition int64 :: "int \<Rightarrow> bool" where
  "int64 i = (- (2 ^ 63) \<le> i \<and> i < 2 ^ 63)"

definition enc_vless :: "vless_config \<Rightarrow> json" where
  "enc_vless c = JObj (
     [(''server_name'', JStr (vl_server_name c))] @
     [(''uuid'', JStr (vl_uuid c))] @
     [(''address'', JStr (vl_address c))] @
     [(''port'', enc_word (vl_port c))] @
     [(''encryption'', JStr (vl_encryption c))] @
     omit_when (vl_flow c = []) ''flow'' (JStr (vl_flow c)) @
     [(''security'', enc_security (vl_security c))] @
     [(''transport'', enc_transport (vl_transport c))])"

definition dec_vless :: "json \<Rightarrow> vless_config decoded" where
  "dec_vless = dec_struct (\<lambda>ob.
     rbind (dec_field dec_string [] ''server_name'' ob) (\<lambda>x0.
     rbind (dec_field dec_string [] ''uuid'' ob) (\<lambda>x1.
     rbind (dec_field dec_string [] ''address'' ob) (\<lambda>x2.
     rbind (dec_field dec_word 0 ''port'' ob) (\<lambda>x3.
     rbind (dec_field dec_string [] ''encryption'' ob) (\<lambda>x4.
     rbind (dec_field dec_string [] ''flow'' ob) (\<lambda>x5.
     rbind (dec_field dec_security (plain_security []) ''security'' ob) (\<lambda>x6.
     rbind (dec_field dec_transport (plain_transport []) ''transport'' ob) (\<lambda>x7.
     Inr \<lparr>vl_server_name = x0, vl_uuid = x1, vl_address = x2, vl_port = x3, vl_encryption = x4, vl_flow = x5, vl_security = x6, vl_transport = x7\<rparr>)))))))))"

definition enc_shadowsocks :: "shadowsocks_config \<Rightarrow> json" where
  "enc_shadowsocks c = JObj (
     [(''server_name'', JStr (ss_server_name c))] @
     [(''address'', JStr (ss_address c))] @
     [(''port'', enc_word (ss_port c))] @
     [(''method'', JStr (ss_method c))] @
     [(''password'', JStr (ss_password c))] @
     omit_when (ss_plugin c = []) ''plugin'' (JStr (ss_plugin c)) @
     omit_when (ss_plugin_opts c = []) ''plugin_opts'' (JStr (ss_plugin_opts c)))"

definition dec_shadowsocks :: "json \<Rightarrow> shadowsocks_config decoded" where
  "dec_shadowsocks = dec_struct (\<lambda>ob.
     rbind (dec_field dec_string [] ''server_name'' ob) (\<lambda>x0.
     rbind (dec_field dec_string [] ''address'' ob) (\<lambda>x1.
     rbind (dec_field dec_word 0 ''port'' ob) (\<lambda>x2.
     rbind (dec_field dec_string [] ''method'' ob) (\<lambda>x3.
     rbind (dec_field dec_string [] ''password'' ob) (\<lambda>x4.
     rbind (dec_field dec_string [] ''plugin'' ob) (\<lambda>x5.
     rbind (dec_field dec_string [] ''plugin_opts'' ob) (\<lambda>x6.
     Inr \<lparr>ss_server_name = x0, ss_address = x1, ss_port = x2, ss_method = x3, ss_password = x4, ss_plugin = x5, ss_plugin_opts = x6\<rparr>))))))))"

definition enc_vmess :: "vmess_config \<Rightarrow> json" where
  "enc_vmess c = JObj (
     [(''server_name'', JStr (vm_server_name c))] @
     [(''uuid'', JStr (vm_uuid c))] @
     [(''address'', JStr (vm_address c))] @
     [(''port'', enc_word (vm_port c))] @
     [(''alter_id'', JInt (vm_alter_id c))] @
     [(''cipher'', JStr (vm_cipher c))] @
     [(''security'', enc_security (vm_security c))] @
     [(''transport'', enc_transport (vm_transport c))])"

definition dec_vmess :: "json \<Rightarrow> vmess_config decoded" where
  "dec_vmess = dec_struct (\<lambda>ob.
     rbind (dec_field dec_string [] ''server_name'' ob) (\<lambda>x0.
     rbind (dec_field dec_string [] ''uuid'' ob) (\<lambda>x1.
     rbind (dec_field dec_string [] ''address'' ob) (\<lambda>x2.
     rbind (dec_field dec_word 0 ''port'' ob) (\<lambda>x3.
     rbind (dec_field (dec_int 64) 0 ''alter_id'' ob) (\<lambda>x4.
     rbind (dec_field dec_string [] ''cipher'' ob) (\<lambda>x5.
     rbind (dec_field dec_security (plain_security []) ''security'' ob) (\<lambda>x6.
     rbind (dec_field dec_transport (plain_transport []) ''transport'' ob) (\<lambda>x7.
     Inr \<lparr>vm_server_name = x0, vm_uuid = x1, vm_address = x2, vm_port = x3, vm_alter_id = x4, vm_cipher = x5, vm_security = x6, vm_transport = x7\<rparr>)))))))))"

definition enc_trojan :: "trojan_config \<Rightarrow> json" where
  "enc_trojan c = JObj (
     [(''server_name'', JStr (tj_server_name c))] @
     [(''address'', JStr (tj_address c))] @
     [(''port'', enc_word (tj_port c))] @
     [(''password'', JStr (tj_password c))] @
     [(''security'', enc_security (tj_security c))] @
     [(''transport'', enc_transport (tj_transport c))])"

definition dec_trojan :: "json \<Rightarrow> trojan_config decoded" where
  "dec_trojan = dec_struct (\<lambda>ob.
     rbind (dec_field dec_string [] ''server_name'' ob) (\<lambda>x0.
     rbind (dec_field dec_string [] ''address'' ob) (\<lambda>x1.
     rbind (dec_field dec_word 0 ''port'' ob) (\<lambda>x2.
     rbind (dec_field dec_string [] ''password'' ob) (\<lambda>x3.
     rbind (dec_field dec_security (plain_security []) ''security'' ob) (\<lambda>x4.
     rbind (dec_field dec_transport (plain_transport []) ''transport'' ob) (\<lambda>x5.
     Inr \<lparr>tj_server_name = x0, tj_address = x1, tj_port = x2, tj_password = x3, tj_security = x4, tj_transport = x5\<rparr>)))))))"

definition enc_hysteria2 :: "hysteria2_config \<Rightarrow> json" where
  "enc_hysteria2 c = JObj (
     [(''server_name'', JStr (h2_server_name c))] @
     [(''address'', JStr (h2_address c))] @
     [(''port'', enc_word (h2_port c))] @
     [(''password'', JStr (h2_password c))] @
     omit_when (h2_sni c = []) ''sni'' (JStr (h2_sni c)) @
     omit_when (\<not> h2_insecure c) ''insecure'' (JBool (h2_insecure c)) @
     omit_when (h2_obfs c = []) ''obfs'' (JStr (h2_obfs c)) @
     omit_when (h2_obfs_password c = []) ''obfs_password'' (JStr (h2_obfs_password c)) @
     omit_when (h2_pin_sha256 c = []) ''pin_sha256'' (JStr (h2_pin_sha256 c)))"

definition dec_hysteria2 :: "json \<Rightarrow> hysteria2_config decoded" where
  "dec_hysteria2 = dec_struct (\<lambda>ob.
     rbind (dec_field dec_string [] ''server_name'' ob) (\<lambda>x0.
     rbind (dec_field dec_string [] ''address'' ob) (\<lambda>x1.
     rbind (dec_field dec_word 0 ''port'' ob) (\<lambda>x2.
     rbind (dec_field dec_string [] ''password'' ob) (\<lambda>x3.
     rbind (dec_field dec_string [] ''sni'' ob) (\<lambda>x4.
     rbind (dec_field dec_bool False ''insecure'' ob) (\<lambda>x5.
     rbind (dec_field dec_string [] ''obfs'' ob) (\<lambda>x6.
     rbind (dec_field dec_string [] ''obfs_password'' ob) (\<lambda>x7.
     rbind (dec_field dec_string [] ''pin_sha256'' ob) (\<lambda>x8.
     Inr \<lparr>h2_server_name = x0, h2_address = x1, h2_port = x2, h2_password = x3, h2_sni = x4, h2_insecure = x5, h2_obfs = x6, h2_obfs_password = x7, h2_pin_sha256 = x8\<rparr>))))))))))"

definition enc_tuic :: "tuic_config \<Rightarrow> json" where
  "enc_tuic c = JObj (
     [(''server_name'', JStr (tu_server_name c))] @
     [(''address'', JStr (tu_address c))] @
     [(''port'', enc_word (tu_port c))] @
     [(''uuid'', JStr (tu_uuid c))] @
     [(''password'', JStr (tu_password c))] @
     omit_when (tu_sni c = []) ''sni'' (JStr (tu_sni c)) @
     omit_when (tu_congestion_control c = []) ''congestion_control'' (JStr (tu_congestion_control c)) @
     omit_when (tu_udp_relay_mode c = []) ''udp_relay_mode'' (JStr (tu_udp_relay_mode c)) @
     omit_when (tu_alpn c = []) ''alpn'' (enc_strings (tu_alpn c)) @
     omit_when (\<not> tu_insecure c) ''insecure'' (JBool (tu_insecure c)))"

definition dec_tuic :: "json \<Rightarrow> tuic_config decoded" where
  "dec_tuic = dec_struct (\<lambda>ob.
     rbind (dec_field dec_string [] ''server_name'' ob) (\<lambda>x0.
     rbind (dec_field dec_string [] ''address'' ob) (\<lambda>x1.
     rbind (dec_field dec_word 0 ''port'' ob) (\<lambda>x2.
     rbind (dec_field dec_string [] ''uuid'' ob) (\<lambda>x3.
     rbind (dec_field dec_string [] ''password'' ob) (\<lambda>x4.
     rbind (dec_field dec_string [] ''sni'' ob) (\<lambda>x5.
     rbind (dec_field dec_string [] ''congestion_control'' ob) (\<lambda>x6.
     rbind (dec_field dec_string [] ''udp_relay_mode'' ob) (\<lambda>x7.
     rbind (dec_field (dec_list dec_string) [] ''alpn'' ob) (\<lambda>x8.
     rbind (dec_field dec_bool False ''insecure'' ob) (\<lambda>x9.
     Inr \<lparr>tu_server_name = x0, tu_address = x1, tu_port = x2, tu_uuid = x3, tu_password = x4, tu_sni = x5, tu_congestion_control = x6, tu_udp_relay_mode = x7, tu_alpn = x8, tu_insecure = x9\<rparr>)))))))))))"

definition enc_hysteria :: "hysteria_config \<Rightarrow> json" where
  "enc_hysteria c = JObj (
     [(''server_name'', JStr (hy_server_name c))] @
     [(''address'', JStr (hy_address c))] @
     [(''port'', enc_word (hy_port c))] @
     omit_when (hy_auth c = []) ''auth'' (JStr (hy_auth c)) @
     omit_when (hy_sni c = []) ''sni'' (JStr (hy_sni c)) @
     omit_when (\<not> hy_insecure c) ''insecure'' (JBool (hy_insecure c)) @
     omit_when (hy_up_mbps c = 0) ''up_mbps'' (JInt (hy_up_mbps c)) @
     omit_when (hy_down_mbps c = 0) ''down_mbps'' (JInt (hy_down_mbps c)) @
     omit_when (hy_obfs c = []) ''obfs'' (JStr (hy_obfs c)) @
     omit_when (hy_alpn c = []) ''alpn'' (JStr (hy_alpn c)) @
     omit_when (hy_protocol c = []) ''protocol'' (JStr (hy_protocol c)))"

definition dec_hysteria :: "json \<Rightarrow> hysteria_config decoded" where
  "dec_hysteria = dec_struct (\<lambda>ob.
     rbind (dec_field dec_string [] ''server_name'' ob) (\<lambda>x0.
     rbind (dec_field dec_string [] ''address'' ob) (\<lambda>x1.
     rbind (dec_field dec_word 0 ''port'' ob) (\<lambda>x2.
     rbind (dec_field dec_string [] ''auth'' ob) (\<lambda>x3.
     rbind (dec_field dec_string [] ''sni'' ob) (\<lambda>x4.
     rbind (dec_field dec_bool False ''insecure'' ob) (\<lambda>x5.
     rbind (dec_field (dec_int 64) 0 ''up_mbps'' ob) (\<lambda>x6.
     rbind (dec_field (dec_int 64) 0 ''down_mbps'' ob) (\<lambda>x7.
     rbind (dec_field dec_string [] ''obfs'' ob) (\<lambda>x8.
     rbind (dec_field dec_string [] ''alpn'' ob) (\<lambda>x9.
     rbind (dec_field dec_string [] ''protocol'' ob) (\<lambda>x10.
     Inr \<lparr>hy_server_name = x0, hy_address = x1, hy_port = x2, hy_auth = x3, hy_sni = x4, hy_insecure = x5, hy_up_mbps = x6, hy_down_mbps = x7, hy_obfs = x8, hy_alpn = x9, hy_protocol = x10\<rparr>))))))))))))"

definition enc_anytls :: "anytls_config \<Rightarrow> json" where
  "enc_anytls c = JObj (
     [(''server_name'', JStr (at_server_name c))] @
     [(''address'', JStr (at_address c))] @
     [(''port'', enc_word (at_port c))] @
     [(''password'', JStr (at_password c))] @
     omit_when (at_sni c = []) ''sni'' (JStr (at_sni c)) @
     omit_when (\<not> at_insecure c) ''insecure'' (JBool (at_insecure c)))"

definition dec_anytls :: "json \<Rightarrow> anytls_config decoded" where
  "dec_anytls = dec_struct (\<lambda>ob.
     rbind (dec_field dec_string [] ''server_name'' ob) (\<lambda>x0.
     rbind (dec_field dec_string [] ''address'' ob) (\<lambda>x1.
     rbind (dec_field dec_word 0 ''port'' ob) (\<lambda>x2.
     rbind (dec_field dec_string [] ''password'' ob) (\<lambda>x3.
     rbind (dec_field dec_string [] ''sni'' ob) (\<lambda>x4.
     rbind (dec_field dec_bool False ''insecure'' ob) (\<lambda>x5.
     Inr \<lparr>at_server_name = x0, at_address = x1, at_port = x2, at_password = x3, at_sni = x4, at_insecure = x5\<rparr>)))))))"

lemma ToLower_profile_fields [simp]:
  "ToLower ''address'' = ''address''"
  "ToLower ''alpn'' = ''alpn''"
  "ToLower ''alter_id'' = ''alter_id''"
  "ToLower ''auth'' = ''auth''"
  "ToLower ''cipher'' = ''cipher''"
  "ToLower ''congestion_control'' = ''congestion_control''"
  "ToLower ''down_mbps'' = ''down_mbps''"
  "ToLower ''encryption'' = ''encryption''"
  "ToLower ''flow'' = ''flow''"
  "ToLower ''insecure'' = ''insecure''"
  "ToLower ''method'' = ''method''"
  "ToLower ''obfs'' = ''obfs''"
  "ToLower ''obfs_password'' = ''obfs_password''"
  "ToLower ''password'' = ''password''"
  "ToLower ''pin_sha256'' = ''pin_sha256''"
  "ToLower ''plugin'' = ''plugin''"
  "ToLower ''plugin_opts'' = ''plugin_opts''"
  "ToLower ''port'' = ''port''"
  "ToLower ''protocol'' = ''protocol''"
  "ToLower ''security'' = ''security''"
  "ToLower ''server_name'' = ''server_name''"
  "ToLower ''transport'' = ''transport''"
  "ToLower ''udp_relay_mode'' = ''udp_relay_mode''"
  "ToLower ''up_mbps'' = ''up_mbps''"
  "ToLower ''uuid'' = ''uuid''"
  by code_simp+

lemma dec_opt_string: "(case (if s = [] then None else Some (JStr s)) of None \<Rightarrow> Inr [] | Some j \<Rightarrow> dec_string j) = Inr s"
  by simp

lemma dec_opt_strings:
  "(case (if ss = [] then None else Some (enc_strings ss)) of None \<Rightarrow> Inr [] | Some j \<Rightarrow> dec_list dec_string j) = Inr ss"
  by simp

lemma dec_opt_bool: "(case (if \<not> b then None else Some (JBool b)) of None \<Rightarrow> Inr False | Some j \<Rightarrow> dec_bool j) = Inr b"
  by simp

lemma dec_int64 [simp]: "int64 i \<Longrightarrow> dec_int 64 (JInt i) = Inr i"
  by (simp add: int64_def)

declare dec_int.simps(1) [simp del]

lemma dec_opt_int:
  "int64 i \<Longrightarrow> (case (if i = 0 then None else Some (JInt i)) of None \<Rightarrow> Inr 0 | Some j \<Rightarrow> dec_int 64 j) = Inr i"
  by simp

lemma case_option_id: "(case x of None \<Rightarrow> None | Some w \<Rightarrow> Some w) = x"
  by (cases x) auto

lemmas codec_simps = dec_field_def jfield_append jfield_Cons jfield_omit case_option_id
  dec_opt_string dec_opt_strings dec_opt_bool dec_opt_int dec_enc_security dec_enc_transport

lemma dec_enc_vless: "dec_vless (enc_vless c) = Inr c"
  by (simp add: dec_vless_def enc_vless_def codec_simps)

lemma dec_enc_shadowsocks: "dec_shadowsocks (enc_shadowsocks c) = Inr c"
  by (simp add: dec_shadowsocks_def enc_shadowsocks_def codec_simps)

lemma dec_enc_vmess: "int64 (vm_alter_id c) \<Longrightarrow> dec_vmess (enc_vmess c) = Inr c"
  by (simp add: dec_vmess_def enc_vmess_def codec_simps)

lemma dec_enc_trojan: "dec_trojan (enc_trojan c) = Inr c"
  by (simp add: dec_trojan_def enc_trojan_def codec_simps)

lemma dec_enc_hysteria2: "dec_hysteria2 (enc_hysteria2 c) = Inr c"
  by (simp add: dec_hysteria2_def enc_hysteria2_def codec_simps)

lemma dec_enc_tuic: "dec_tuic (enc_tuic c) = Inr c"
  by (simp add: dec_tuic_def enc_tuic_def codec_simps)

lemma dec_enc_hysteria: "int64 (hy_up_mbps c) \<Longrightarrow> int64 (hy_down_mbps c) \<Longrightarrow> dec_hysteria (enc_hysteria c) = Inr c"
  by (simp add: dec_hysteria_def enc_hysteria_def codec_simps)

lemma dec_enc_anytls: "dec_anytls (enc_anytls c) = Inr c"
  by (simp add: dec_anytls_def enc_anytls_def codec_simps)

end
