(* ===== verification/Proxy_Profiles.thy ===== *)
theory Proxy_Profiles
  imports Proxy_Protocols
begin

text \<open>
  What each protocol offers to the rest of the daemon (the \<^verbatim>\<open>Profile\<close> methods of
  \<^verbatim>\<open>daemon-go/internal/proxy/<name>.go\<close>): accessors, which cores can dial the node, the
  outbound objects for sing-box and xray; and the \<^verbatim>\<open>Profile\<close> union with its registry of
  stored kinds (\<^verbatim>\<open>proxy/profile.go\<close>).

  The locale \<open>profile_impl\<close> states the contract of the interface that core selection and the
  engine rely on: a core that can dial a node has an outbound for it, a sing-box outbound
  carries its tag, an xray outbound carries a stream-settings object. It is interpreted on
  every protocol and on the union.
\<close>

section \<open>Accessors\<close>

record accessors =
  pa_display_name :: string
  pa_kind :: string
  pa_address :: string
  pa_port :: u16
  pa_identity :: string
  pa_transport_label :: string
  pa_security_label :: string
  pa_network :: string

definition vless_accessors :: "vless_config \<Rightarrow> accessors" where
  "vless_accessors c = \<lparr>pa_display_name = vl_server_name c, pa_kind = ''vless'', pa_address = vl_address c,
     pa_port = vl_port c, pa_identity = vl_uuid c, pa_transport_label = tr_kind (vl_transport c),
     pa_security_label = sec_kind (vl_security c), pa_network = ''tcp''\<rparr>"

definition shadowsocks_accessors :: "shadowsocks_config \<Rightarrow> accessors" where
  "shadowsocks_accessors c = \<lparr>pa_display_name = ss_server_name c, pa_kind = ''shadowsocks'', pa_address = ss_address c,
     pa_port = ss_port c, pa_identity = ss_password c, pa_transport_label = [],
     pa_security_label = [], pa_network = ''tcp''\<rparr>"

definition vmess_accessors :: "vmess_config \<Rightarrow> accessors" where
  "vmess_accessors c = \<lparr>pa_display_name = vm_server_name c, pa_kind = ''vmess'', pa_address = vm_address c,
     pa_port = vm_port c, pa_identity = vm_uuid c, pa_transport_label = tr_kind (vm_transport c),
     pa_security_label = sec_kind (vm_security c), pa_network = ''tcp''\<rparr>"

definition trojan_accessors :: "trojan_config \<Rightarrow> accessors" where
  "trojan_accessors c = \<lparr>pa_display_name = tj_server_name c, pa_kind = ''trojan'', pa_address = tj_address c,
     pa_port = tj_port c, pa_identity = tj_password c, pa_transport_label = tr_kind (tj_transport c),
     pa_security_label = sec_kind (tj_security c), pa_network = ''tcp''\<rparr>"

definition hysteria2_accessors :: "hysteria2_config \<Rightarrow> accessors" where
  "hysteria2_accessors c = \<lparr>pa_display_name = h2_server_name c, pa_kind = ''hysteria2'', pa_address = h2_address c,
     pa_port = h2_port c, pa_identity = h2_password c, pa_transport_label = ''quic'',
     pa_security_label = ''tls'', pa_network = ''udp''\<rparr>"

definition tuic_accessors :: "tuic_config \<Rightarrow> accessors" where
  "tuic_accessors c = \<lparr>pa_display_name = tu_server_name c, pa_kind = ''tuic'', pa_address = tu_address c,
     pa_port = tu_port c, pa_identity = tu_uuid c, pa_transport_label = ''quic'',
     pa_security_label = ''tls'', pa_network = ''udp''\<rparr>"

definition hysteria_accessors :: "hysteria_config \<Rightarrow> accessors" where
  "hysteria_accessors c = \<lparr>pa_display_name = hy_server_name c, pa_kind = ''hysteria'', pa_address = hy_address c,
     pa_port = hy_port c, pa_identity = (if hy_auth c \<noteq> [] then hy_auth c else hy_address c), pa_transport_label = ''quic'',
     pa_security_label = ''tls'', pa_network = ''udp''\<rparr>"

definition anytls_accessors :: "anytls_config \<Rightarrow> accessors" where
  "anytls_accessors c = \<lparr>pa_display_name = at_server_name c, pa_kind = ''anytls'', pa_address = at_address c,
     pa_port = at_port c, pa_identity = at_password c, pa_transport_label = [],
     pa_security_label = ''tls'', pa_network = ''tcp''\<rparr>"

text \<open>\<^verbatim>\<open>CamouflageSNI\<close>: \<open>None\<close> is the plain node without a probeable front.\<close>

definition stream_CamouflageSNI :: "security \<Rightarrow> string option" where
  "stream_CamouflageSNI s =
     (if sec_kind s = SecurityReality \<or> sec_kind s = SecurityTLS then Some (security_SNI s) else None)"

section \<open>Which core can dial\<close>

definition vless_dialableBy :: "vless_config \<Rightarrow> string \<Rightarrow> bool" where
  "vless_dialableBy c core = (let caps = CoreCaps core in
     tr_kind (vl_transport c) \<in> set (Transports caps) \<and>
     sec_kind (vl_security c) \<in> set (Securities caps) \<and>
     coversFlow caps (vl_flow c))"

definition shadowsocks_dialableBy :: "shadowsocks_config \<Rightarrow> string \<Rightarrow> bool" where
  "shadowsocks_dialableBy c core =
    (if core = CoreSingBox then True else if core = CoreXray then ss_plugin c = [] else False)"

definition vmess_dialableBy :: "vmess_config \<Rightarrow> string \<Rightarrow> bool" where
  "vmess_dialableBy c core = (let caps = CoreCaps core in
     hasTransport caps (tr_kind (vm_transport c)) \<and> hasSecurity caps (sec_kind (vm_security c)))"

definition trojan_dialableBy :: "trojan_config \<Rightarrow> string \<Rightarrow> bool" where
  "trojan_dialableBy c core = (let caps = CoreCaps core in
     hasTransport caps (tr_kind (tj_transport c)) \<and> hasSecurity caps (sec_kind (tj_security c)))"

definition hysteria2_dialableBy :: "hysteria2_config \<Rightarrow> string \<Rightarrow> bool" where
  "hysteria2_dialableBy c core =
    (if core = CoreSingBox then True
     else if core = CoreXray then \<not> h2_insecure c \<or> h2_pin_sha256 c \<noteq> [] else False)"

definition tuic_dialableBy :: "tuic_config \<Rightarrow> string \<Rightarrow> bool" where
  "tuic_dialableBy c core = (core = CoreSingBox)"

definition hysteria_dialableBy :: "hysteria_config \<Rightarrow> string \<Rightarrow> bool" where
  "hysteria_dialableBy c core = (core = CoreSingBox)"

definition anytls_dialableBy :: "anytls_config \<Rightarrow> string \<Rightarrow> bool" where
  "anytls_dialableBy c core = (core = CoreSingBox)"

section \<open>sing-box outbounds\<close>

text \<open>\<^verbatim>\<open>if s != "" { m[k] = s }\<close>.\<close>

definition put_str :: "string \<Rightarrow> string \<Rightarrow> json obj \<Rightarrow> json obj" where
  "put_str k s m = (if s \<noteq> [] then jput k (JStr s) m else m)"

text \<open>The tail the V2Ray-family outbounds share: the tls block, then the transport block.\<close>

definition stream_blocks :: "security \<Rightarrow> transport \<Rightarrow> json obj \<Rightarrow> proxy_error + json obj" where
  "stream_blocks s t ob =
     (let ob = (case singBoxTLS s of Some tls \<Rightarrow> jput ''tls'' (JObj tls) ob | None \<Rightarrow> ob)
      in rbind (singBoxTransport t) (\<lambda>blk.
           case blk of Some b \<Rightarrow> Inr (jput ''transport'' (JObj b) ob) | None \<Rightarrow> Inr ob))"

definition vless_SingBoxOutbound :: "vless_config \<Rightarrow> string \<Rightarrow> proxy_error + json obj" where
  "vless_SingBoxOutbound c tag =
     (let ob = [(''type'', JStr ''vless''), (''tag'', JStr tag), (''server'', JStr (vl_address c)),
                (''server_port'', enc_word (vl_port c)), (''uuid'', JStr (vl_uuid c))];
          ob = put_str ''flow'' (vl_flow c) ob
      in stream_blocks (vl_security c) (vl_transport c) ob)"

definition shadowsocks_SingBoxOutbound :: "shadowsocks_config \<Rightarrow> string \<Rightarrow> proxy_error + json obj" where
  "shadowsocks_SingBoxOutbound c tag =
     (let ob = [(''type'', JStr ''shadowsocks''), (''tag'', JStr tag), (''server'', JStr (ss_address c)),
                (''server_port'', enc_word (ss_port c)), (''method'', JStr (ss_method c)),
                (''password'', JStr (ss_password c))]
      in Inr (if ss_plugin c \<noteq> [] then
            jput ''plugin_opts'' (JStr (ss_plugin_opts c)) (jput ''plugin'' (JStr (ss_plugin c)) ob)
          else ob))"

definition vmess_cipher :: "vmess_config \<Rightarrow> string" where
  "vmess_cipher c = (if vm_cipher c = [] then ''auto'' else vm_cipher c)"

definition vmess_SingBoxOutbound :: "vmess_config \<Rightarrow> string \<Rightarrow> proxy_error + json obj" where
  "vmess_SingBoxOutbound c tag =
     stream_blocks (vm_security c) (vm_transport c)
       [(''type'', JStr ''vmess''), (''tag'', JStr tag), (''server'', JStr (vm_address c)),
        (''server_port'', enc_word (vm_port c)), (''uuid'', JStr (vm_uuid c)),
        (''alter_id'', JInt (vm_alter_id c)), (''security'', JStr (vmess_cipher c))]"

definition trojan_SingBoxOutbound :: "trojan_config \<Rightarrow> string \<Rightarrow> proxy_error + json obj" where
  "trojan_SingBoxOutbound c tag =
     stream_blocks (tj_security c) (tj_transport c)
       [(''type'', JStr ''trojan''), (''tag'', JStr tag), (''server'', JStr (tj_address c)),
        (''server_port'', enc_word (tj_port c)), (''password'', JStr (tj_password c))]"

definition hysteria2_SingBoxOutbound :: "hysteria2_config \<Rightarrow> string \<Rightarrow> proxy_error + json obj" where
  "hysteria2_SingBoxOutbound c tag =
     (let tls = put_str ''server_name'' (h2_sni c)
            [(''enabled'', JBool True), (''insecure'', JBool (h2_insecure c \<or> h2_pin_sha256 c \<noteq> []))];
          ob = [(''type'', JStr ''hysteria2''), (''tag'', JStr tag), (''server'', JStr (h2_address c)),
                (''server_port'', enc_word (h2_port c)), (''password'', JStr (h2_password c)), (''tls'', JObj tls)]
      in Inr (if h2_obfs c \<noteq> [] then
            jput ''obfs'' (JObj [(''type'', JStr (h2_obfs c)), (''password'', JStr (h2_obfs_password c))]) ob
          else ob))"

definition tuic_SingBoxOutbound :: "tuic_config \<Rightarrow> string \<Rightarrow> proxy_error + json obj" where
  "tuic_SingBoxOutbound c tag =
     (let tls = put_str ''server_name'' (tu_sni c) [(''enabled'', JBool True), (''insecure'', JBool (tu_insecure c))];
          tls = (if tu_alpn c \<noteq> [] then jput ''alpn'' (enc_strings (tu_alpn c)) tls else tls);
          ob = [(''type'', JStr ''tuic''), (''tag'', JStr tag), (''server'', JStr (tu_address c)),
                (''server_port'', enc_word (tu_port c)), (''uuid'', JStr (tu_uuid c)),
                (''password'', JStr (tu_password c)), (''tls'', JObj tls)]
      in Inr (put_str ''udp_relay_mode'' (tu_udp_relay_mode c)
               (put_str ''congestion_control'' (tu_congestion_control c) ob)))"

definition hysteria_SingBoxOutbound :: "hysteria_config \<Rightarrow> string \<Rightarrow> proxy_error + json obj" where
  "hysteria_SingBoxOutbound c tag =
     (let tls = put_str ''server_name'' (hy_sni c) [(''enabled'', JBool True), (''insecure'', JBool (hy_insecure c))];
          tls = (if hy_alpn c \<noteq> [] then jput ''alpn'' (enc_strings [hy_alpn c]) tls else tls);
          ob = [(''type'', JStr ''hysteria''), (''tag'', JStr tag), (''server'', JStr (hy_address c)),
                (''server_port'', enc_word (hy_port c)), (''auth_str'', JStr (hy_auth c)), (''tls'', JObj tls)];
          ob = (if hy_up_mbps c \<noteq> 0 then jput ''up_mbps'' (JInt (hy_up_mbps c)) ob else ob);
          ob = (if hy_down_mbps c \<noteq> 0 then jput ''down_mbps'' (JInt (hy_down_mbps c)) ob else ob)
      in Inr (put_str ''obfs'' (hy_obfs c) ob))"

definition anytls_SingBoxOutbound :: "anytls_config \<Rightarrow> string \<Rightarrow> proxy_error + json obj" where
  "anytls_SingBoxOutbound c tag =
     (let tls = put_str ''server_name'' (at_sni c) [(''enabled'', JBool True)];
          tls = (if at_insecure c then jput ''insecure'' (JBool True) tls else tls)
      in Inr [(''type'', JStr ''anytls''), (''tag'', JStr tag), (''server'', JStr (at_address c)),
              (''server_port'', enc_word (at_port c)), (''password'', JStr (at_password c)), (''tls'', JObj tls)])"

section \<open>xray outbounds\<close>

text \<open>\<open>Inr None\<close> is the \<^verbatim>\<open>ok = false\<close> result: xray cannot dial this node.\<close>

definition xray_stream :: "security \<Rightarrow> transport \<Rightarrow> json" where
  "xray_stream s t = JObj (applyXrayTransport t (applyXraySecurity s []))"

definition vless_XrayOutbound :: "vless_config \<Rightarrow> proxy_error + json obj option" where
  "vless_XrayOutbound c = Inr (Some [
     (''protocol'', JStr ''vless''),
     (''settings'', JObj [(''vnext'', JArr [JObj [
        (''address'', JStr (vl_address c)), (''port'', enc_word (vl_port c)),
        (''users'', JArr [JObj [
           (''id'', JStr (vl_uuid c)),
           (''encryption'', JStr (if vl_encryption c = [] then ''none'' else vl_encryption c)),
           (''flow'', JStr (vl_flow c)), (''level'', JInt 0), (''security'', JStr ''auto'')]])]])]),
     (''streamSettings'', xray_stream (vl_security c) (vl_transport c)),
     (''mux'', JObj [(''enabled'', JBool False), (''concurrency'', JInt (- 1)),
        (''xudpConcurrency'', JInt 8), (''xudpProxyUDP443'', JStr [])])])"

definition shadowsocks_XrayOutbound :: "shadowsocks_config \<Rightarrow> proxy_error + json obj option" where
  "shadowsocks_XrayOutbound c = (if ss_plugin c \<noteq> [] then Inr None else Inr (Some [
     (''protocol'', JStr ''shadowsocks''),
     (''settings'', JObj [(''servers'', JArr [JObj [
        (''address'', JStr (ss_address c)), (''port'', enc_word (ss_port c)),
        (''method'', JStr (ss_method c)), (''password'', JStr (ss_password c))]])]),
     (''streamSettings'', JObj [(''network'', JStr ''tcp'')])]))"

definition vmess_XrayOutbound :: "vmess_config \<Rightarrow> proxy_error + json obj option" where
  "vmess_XrayOutbound c = Inr (Some [
     (''protocol'', JStr ''vmess''),
     (''settings'', JObj [(''vnext'', JArr [JObj [
        (''address'', JStr (vm_address c)), (''port'', enc_word (vm_port c)),
        (''users'', JArr [JObj [
           (''id'', JStr (vm_uuid c)), (''alterId'', JInt (vm_alter_id c)),
           (''security'', JStr (vmess_cipher c)), (''level'', JInt 0)]])]])]),
     (''streamSettings'', xray_stream (vm_security c) (vm_transport c))])"

definition trojan_XrayOutbound :: "trojan_config \<Rightarrow> proxy_error + json obj option" where
  "trojan_XrayOutbound c = Inr (Some [
     (''protocol'', JStr ''trojan''),
     (''settings'', JObj [(''servers'', JArr [JObj [
        (''address'', JStr (tj_address c)), (''port'', enc_word (tj_port c)),
        (''password'', JStr (tj_password c)), (''level'', JInt 0)]])]),
     (''streamSettings'', xray_stream (tj_security c) (tj_transport c))])"

definition hysteria2_XrayOutbound :: "hysteria2_config \<Rightarrow> proxy_error + json obj option" where
  "hysteria2_XrayOutbound c =
    (if \<not> hysteria2_dialableBy c CoreXray then Inr None
     else (let tls = put_str ''pinnedPeerCertSha256'' (h2_pin_sha256 c)
                 [(''serverName'', JStr (if h2_sni c \<noteq> [] then h2_sni c else h2_address c))];
               stream = [(''network'', JStr ''hysteria''), (''security'', JStr ''tls''), (''tlsSettings'', JObj tls),
                  (''hysteriaSettings'', JObj [(''version'', JInt 2), (''auth'', JStr (h2_password c))])];
               stream = (if h2_obfs c \<noteq> [] then
                  jput ''finalmask'' (JObj [(''udp'', JArr [JObj [(''type'', JStr (h2_obfs c)),
                    (''settings'', JObj [(''password'', JStr (h2_obfs_password c))])]])]) stream else stream)
           in Inr (Some [(''protocol'', JStr ''hysteria''),
                (''settings'', JObj [(''address'', JStr (h2_address c)), (''port'', enc_word (h2_port c)), (''version'', JInt 2)]),
                (''streamSettings'', JObj stream)])))"

definition tuic_XrayOutbound :: "tuic_config \<Rightarrow> proxy_error + json obj option" where
  "tuic_XrayOutbound c = Inr None"

definition hysteria_XrayOutbound :: "hysteria_config \<Rightarrow> proxy_error + json obj option" where
  "hysteria_XrayOutbound c = Inr None"

definition anytls_XrayOutbound :: "anytls_config \<Rightarrow> proxy_error + json obj option" where
  "anytls_XrayOutbound c = Inr None"

section \<open>The contract of the interface\<close>

locale profile_impl =
  fixes dialable :: "'c \<Rightarrow> string \<Rightarrow> bool"
    and singbox :: "'c \<Rightarrow> string \<Rightarrow> proxy_error + json obj"
    and xray :: "'c \<Rightarrow> proxy_error + json obj option"
  assumes dialable_cores: "dialable c core \<Longrightarrow> core = CoreSingBox \<or> core = CoreXray"
    and singbox_total: "dialable c CoreSingBox \<Longrightarrow> \<exists>ob. singbox c tag = Inr ob"
    and singbox_tag: "singbox c tag = Inr ob \<Longrightarrow> jget ob ''tag'' = Some (JStr tag)"
    and xray_total: "dialable c CoreXray \<Longrightarrow> \<exists>ob. xray c = Inr (Some ob)"
    and xray_stream_settings: "xray c = Inr (Some ob) \<Longrightarrow> \<exists>st. jget ob ''streamSettings'' = Some (JObj st)"
begin

text \<open>The emitter of a core that can dial the node, tag included.\<close>

lemma dialable_emits:
  assumes "dialable c core"
  shows "core = CoreSingBox \<and> (\<exists>ob. singbox c tag = Inr ob \<and> jget ob ''tag'' = Some (JStr tag)) \<or>
         core = CoreXray \<and> (\<exists>ob st. xray c = Inr (Some ob) \<and> jget ob ''streamSettings'' = Some (JObj st))"
  using dialable_cores [OF assms] singbox_total singbox_tag xray_total xray_stream_settings assms
  by metis

end

lemma stream_blocks_total:
  "tr_kind t \<in> {TransportTCP, TransportWs, TransportGrpc} \<Longrightarrow> \<exists>ob'. stream_blocks s t ob = Inr ob'"
  using singBoxTransport_total [of t] by (auto simp: stream_blocks_def Let_def split: option.splits)

lemma stream_blocks_get:
  "stream_blocks s t ob = Inr ob' \<Longrightarrow> k \<noteq> ''tls'' \<Longrightarrow> k \<noteq> ''transport'' \<Longrightarrow> jget ob' k = jget ob k"
  by (auto simp: stream_blocks_def Let_def rbind_eq_Inr_iff obj_simps split: option.splits)

lemma jget_put_str [obj_simps]: "jget (put_str k s m) k' = (if k' = k \<and> s \<noteq> [] then Some (JStr s) else jget m k')"
  by (auto simp: put_str_def obj_simps)

lemma caps_known_core: "t \<in> set (Transports (CoreCaps core)) \<Longrightarrow> core = CoreSingBox \<or> core = CoreXray"
  by (auto simp: CoreCaps_def split: if_splits)

lemma caps_singbox_transport:
  "t \<in> set (Transports (CoreCaps CoreSingBox)) \<longleftrightarrow> t \<in> {TransportTCP, TransportWs, TransportGrpc}"
  by (simp add: CoreCaps_def singBoxCaps_def)

lemmas outbound_defs =
  vless_dialableBy_def vless_SingBoxOutbound_def vless_XrayOutbound_def
  shadowsocks_dialableBy_def shadowsocks_SingBoxOutbound_def shadowsocks_XrayOutbound_def
  vmess_dialableBy_def vmess_SingBoxOutbound_def vmess_XrayOutbound_def
  trojan_dialableBy_def trojan_SingBoxOutbound_def trojan_XrayOutbound_def
  hysteria2_dialableBy_def hysteria2_SingBoxOutbound_def hysteria2_XrayOutbound_def
  tuic_dialableBy_def tuic_SingBoxOutbound_def tuic_XrayOutbound_def
  hysteria_dialableBy_def hysteria_SingBoxOutbound_def hysteria_XrayOutbound_def
  anytls_dialableBy_def anytls_SingBoxOutbound_def anytls_XrayOutbound_def

interpretation vl_impl: profile_impl vless_dialableBy vless_SingBoxOutbound vless_XrayOutbound
proof unfold_locales
  show "vless_dialableBy c core \<Longrightarrow> core = CoreSingBox \<or> core = CoreXray" for c core
    by (auto simp: vless_dialableBy_def hasTransport_def Let_def dest: caps_known_core)
  show "vless_dialableBy c CoreSingBox \<Longrightarrow> \<exists>ob. vless_SingBoxOutbound c tag = Inr ob" for c tag
    unfolding vless_SingBoxOutbound_def Let_def
    by (rule stream_blocks_total) (simp add: vless_dialableBy_def hasTransport_def Let_def caps_singbox_transport)
  show "vless_SingBoxOutbound c tag = Inr ob \<Longrightarrow> jget ob ''tag'' = Some (JStr tag)" for c tag ob
    unfolding vless_SingBoxOutbound_def Let_def
    by (drule stream_blocks_get [where k = "''tag''"]) (simp_all add: obj_simps)
  show "\<exists>ob. vless_XrayOutbound c = Inr (Some ob)" for c
    by (simp add: vless_XrayOutbound_def)
  show "vless_XrayOutbound c = Inr (Some ob) \<Longrightarrow> \<exists>st. jget ob ''streamSettings'' = Some (JObj st)" for c ob
    by (auto simp: vless_XrayOutbound_def xray_stream_def obj_simps)
qed

interpretation ss_impl: profile_impl shadowsocks_dialableBy shadowsocks_SingBoxOutbound shadowsocks_XrayOutbound
  by unfold_locales (auto simp: outbound_defs core_caps_defs xray_stream_def Let_def obj_simps
    dest: stream_blocks_get intro: stream_blocks_total split: if_splits)

interpretation vm_impl: profile_impl vmess_dialableBy vmess_SingBoxOutbound vmess_XrayOutbound
proof unfold_locales
  show "vmess_dialableBy c core \<Longrightarrow> core = CoreSingBox \<or> core = CoreXray" for c core
    by (auto simp: vmess_dialableBy_def hasTransport_def Let_def dest: caps_known_core)
  show "vmess_dialableBy c CoreSingBox \<Longrightarrow> \<exists>ob. vmess_SingBoxOutbound c tag = Inr ob" for c tag
    unfolding vmess_SingBoxOutbound_def Let_def
    by (rule stream_blocks_total) (simp add: vmess_dialableBy_def hasTransport_def Let_def caps_singbox_transport)
  show "vmess_SingBoxOutbound c tag = Inr ob \<Longrightarrow> jget ob ''tag'' = Some (JStr tag)" for c tag ob
    unfolding vmess_SingBoxOutbound_def Let_def
    by (drule stream_blocks_get [where k = "''tag''"]) (simp_all add: obj_simps)
  show "\<exists>ob. vmess_XrayOutbound c = Inr (Some ob)" for c
    by (simp add: vmess_XrayOutbound_def)
  show "vmess_XrayOutbound c = Inr (Some ob) \<Longrightarrow> \<exists>st. jget ob ''streamSettings'' = Some (JObj st)" for c ob
    by (auto simp: vmess_XrayOutbound_def xray_stream_def obj_simps)
qed

interpretation tj_impl: profile_impl trojan_dialableBy trojan_SingBoxOutbound trojan_XrayOutbound
proof unfold_locales
  show "trojan_dialableBy c core \<Longrightarrow> core = CoreSingBox \<or> core = CoreXray" for c core
    by (auto simp: trojan_dialableBy_def hasTransport_def Let_def dest: caps_known_core)
  show "trojan_dialableBy c CoreSingBox \<Longrightarrow> \<exists>ob. trojan_SingBoxOutbound c tag = Inr ob" for c tag
    unfolding trojan_SingBoxOutbound_def Let_def
    by (rule stream_blocks_total) (simp add: trojan_dialableBy_def hasTransport_def Let_def caps_singbox_transport)
  show "trojan_SingBoxOutbound c tag = Inr ob \<Longrightarrow> jget ob ''tag'' = Some (JStr tag)" for c tag ob
    unfolding trojan_SingBoxOutbound_def Let_def
    by (drule stream_blocks_get [where k = "''tag''"]) (simp_all add: obj_simps)
  show "\<exists>ob. trojan_XrayOutbound c = Inr (Some ob)" for c
    by (simp add: trojan_XrayOutbound_def)
  show "trojan_XrayOutbound c = Inr (Some ob) \<Longrightarrow> \<exists>st. jget ob ''streamSettings'' = Some (JObj st)" for c ob
    by (auto simp: trojan_XrayOutbound_def xray_stream_def obj_simps)
qed

interpretation h2_impl: profile_impl hysteria2_dialableBy hysteria2_SingBoxOutbound hysteria2_XrayOutbound
  by unfold_locales (auto simp: outbound_defs core_caps_defs xray_stream_def Let_def obj_simps
    dest: stream_blocks_get intro: stream_blocks_total split: if_splits)

interpretation tu_impl: profile_impl tuic_dialableBy tuic_SingBoxOutbound tuic_XrayOutbound
  by unfold_locales (auto simp: outbound_defs core_caps_defs xray_stream_def Let_def obj_simps
    dest: stream_blocks_get intro: stream_blocks_total split: if_splits)

interpretation hy_impl: profile_impl hysteria_dialableBy hysteria_SingBoxOutbound hysteria_XrayOutbound
  by unfold_locales (auto simp: outbound_defs core_caps_defs xray_stream_def Let_def obj_simps
    dest: stream_blocks_get intro: stream_blocks_total split: if_splits)

interpretation at_impl: profile_impl anytls_dialableBy anytls_SingBoxOutbound anytls_XrayOutbound
  by unfold_locales (auto simp: outbound_defs core_caps_defs xray_stream_def Let_def obj_simps
    dest: stream_blocks_get intro: stream_blocks_total split: if_splits)

section \<open>The profile union\<close>

datatype profile =
    Vless vless_config
  | Shadowsocks shadowsocks_config
  | Vmess vmess_config
  | Trojan trojan_config
  | Hysteria2 hysteria2_config
  | Tuic tuic_config
  | Hysteria hysteria_config
  | AnyTLS anytls_config

fun profile_accessors :: "profile \<Rightarrow> accessors" where
  "profile_accessors (Vless c) = vless_accessors c"
| "profile_accessors (Shadowsocks c) = shadowsocks_accessors c"
| "profile_accessors (Vmess c) = vmess_accessors c"
| "profile_accessors (Trojan c) = trojan_accessors c"
| "profile_accessors (Hysteria2 c) = hysteria2_accessors c"
| "profile_accessors (Tuic c) = tuic_accessors c"
| "profile_accessors (Hysteria c) = hysteria_accessors c"
| "profile_accessors (AnyTLS c) = anytls_accessors c"

fun CamouflageSNI :: "profile \<Rightarrow> string option" where
  "CamouflageSNI (Vless c) = stream_CamouflageSNI (vl_security c)"
| "CamouflageSNI (Shadowsocks c) = None"
| "CamouflageSNI (Vmess c) = stream_CamouflageSNI (vm_security c)"
| "CamouflageSNI (Trojan c) = stream_CamouflageSNI (tj_security c)"
| "CamouflageSNI (Hysteria2 c) = Some (h2_sni c)"
| "CamouflageSNI (Tuic c) = Some (tu_sni c)"
| "CamouflageSNI (Hysteria c) = Some (hy_sni c)"
| "CamouflageSNI (AnyTLS c) = Some (at_sni c)"

fun dialableBy :: "profile \<Rightarrow> string \<Rightarrow> bool" where
  "dialableBy (Vless c) core = vless_dialableBy c core"
| "dialableBy (Shadowsocks c) core = shadowsocks_dialableBy c core"
| "dialableBy (Vmess c) core = vmess_dialableBy c core"
| "dialableBy (Trojan c) core = trojan_dialableBy c core"
| "dialableBy (Hysteria2 c) core = hysteria2_dialableBy c core"
| "dialableBy (Tuic c) core = tuic_dialableBy c core"
| "dialableBy (Hysteria c) core = hysteria_dialableBy c core"
| "dialableBy (AnyTLS c) core = anytls_dialableBy c core"

fun SingBoxOutbound :: "profile \<Rightarrow> string \<Rightarrow> proxy_error + json obj" where
  "SingBoxOutbound (Vless c) tag = vless_SingBoxOutbound c tag"
| "SingBoxOutbound (Shadowsocks c) tag = shadowsocks_SingBoxOutbound c tag"
| "SingBoxOutbound (Vmess c) tag = vmess_SingBoxOutbound c tag"
| "SingBoxOutbound (Trojan c) tag = trojan_SingBoxOutbound c tag"
| "SingBoxOutbound (Hysteria2 c) tag = hysteria2_SingBoxOutbound c tag"
| "SingBoxOutbound (Tuic c) tag = tuic_SingBoxOutbound c tag"
| "SingBoxOutbound (Hysteria c) tag = hysteria_SingBoxOutbound c tag"
| "SingBoxOutbound (AnyTLS c) tag = anytls_SingBoxOutbound c tag"

fun XrayOutbound :: "profile \<Rightarrow> proxy_error + json obj option" where
  "XrayOutbound (Vless c) = vless_XrayOutbound c"
| "XrayOutbound (Shadowsocks c) = shadowsocks_XrayOutbound c"
| "XrayOutbound (Vmess c) = vmess_XrayOutbound c"
| "XrayOutbound (Trojan c) = trojan_XrayOutbound c"
| "XrayOutbound (Hysteria2 c) = hysteria2_XrayOutbound c"
| "XrayOutbound (Tuic c) = tuic_XrayOutbound c"
| "XrayOutbound (Hysteria c) = hysteria_XrayOutbound c"
| "XrayOutbound (AnyTLS c) = anytls_XrayOutbound c"

text \<open>Only the V2Ray-family protocols expose a stream security to core selection.\<close>

fun streamSecurity :: "profile \<Rightarrow> security option" where
  "streamSecurity (Vless c) = Some (vl_security c)"
| "streamSecurity (Vmess c) = Some (vm_security c)"
| "streamSecurity (Trojan c) = Some (tj_security c)"
| "streamSecurity _ = None"

abbreviation DisplayName :: "profile \<Rightarrow> string" where "DisplayName p \<equiv> pa_display_name (profile_accessors p)"
abbreviation Kind :: "profile \<Rightarrow> string" where "Kind p \<equiv> pa_kind (profile_accessors p)"
abbreviation ServerAddress :: "profile \<Rightarrow> string" where "ServerAddress p \<equiv> pa_address (profile_accessors p)"
abbreviation ServerPort :: "profile \<Rightarrow> u16" where "ServerPort p \<equiv> pa_port (profile_accessors p)"
abbreviation Identity :: "profile \<Rightarrow> string" where "Identity p \<equiv> pa_identity (profile_accessors p)"

lemmas impl_dialable_cores =
  vl_impl.dialable_cores ss_impl.dialable_cores vm_impl.dialable_cores tj_impl.dialable_cores h2_impl.dialable_cores tu_impl.dialable_cores hy_impl.dialable_cores at_impl.dialable_cores

lemmas impl_singbox_total =
  vl_impl.singbox_total ss_impl.singbox_total vm_impl.singbox_total tj_impl.singbox_total h2_impl.singbox_total tu_impl.singbox_total hy_impl.singbox_total at_impl.singbox_total

lemmas impl_singbox_tag =
  vl_impl.singbox_tag ss_impl.singbox_tag vm_impl.singbox_tag tj_impl.singbox_tag h2_impl.singbox_tag tu_impl.singbox_tag hy_impl.singbox_tag at_impl.singbox_tag

lemmas impl_xray_total =
  vl_impl.xray_total ss_impl.xray_total vm_impl.xray_total tj_impl.xray_total h2_impl.xray_total tu_impl.xray_total hy_impl.xray_total at_impl.xray_total

lemmas impl_xray_stream_settings =
  vl_impl.xray_stream_settings ss_impl.xray_stream_settings vm_impl.xray_stream_settings tj_impl.xray_stream_settings h2_impl.xray_stream_settings tu_impl.xray_stream_settings hy_impl.xray_stream_settings at_impl.xray_stream_settings

interpretation any_impl: profile_impl dialableBy SingBoxOutbound XrayOutbound
proof unfold_locales
  show "dialableBy c core \<Longrightarrow> core = CoreSingBox \<or> core = CoreXray" for c core
    by (cases c) (auto dest: impl_dialable_cores)
  show "dialableBy c CoreSingBox \<Longrightarrow> \<exists>ob. SingBoxOutbound c tag = Inr ob" for c tag
    by (cases c) (auto dest: impl_singbox_total)
  show "SingBoxOutbound c tag = Inr ob \<Longrightarrow> jget ob ''tag'' = Some (JStr tag)" for c tag ob
    by (cases c) (auto dest: impl_singbox_tag)
  show "dialableBy c CoreXray \<Longrightarrow> \<exists>ob. XrayOutbound c = Inr (Some ob)" for c
    by (cases c) (auto dest: impl_xray_total)
  show "XrayOutbound c = Inr (Some ob) \<Longrightarrow> \<exists>st. jget ob ''streamSettings'' = Some (JObj st)" for c ob
    by (cases c) (auto dest: impl_xray_stream_settings)
qed

section \<open>The registry of stored kinds\<close>

text \<open>\<^verbatim>\<open>byKind\<close>: the decoder registered for each stored union key.\<close>

definition byKind :: "(string \<times> (json \<Rightarrow> profile decoded)) list" where
  "byKind = [
    (''vless'', \<lambda>raw. rbind (dec_vless raw) (\<lambda>c. Inr (Vless c))),
    (''shadowsocks'', \<lambda>raw. rbind (dec_shadowsocks raw) (\<lambda>c. Inr (Shadowsocks c))),
    (''vmess'', \<lambda>raw. rbind (dec_vmess raw) (\<lambda>c. Inr (Vmess c))),
    (''trojan'', \<lambda>raw. rbind (dec_trojan raw) (\<lambda>c. Inr (Trojan c))),
    (''hysteria2'', \<lambda>raw. rbind (dec_hysteria2 raw) (\<lambda>c. Inr (Hysteria2 c))),
    (''tuic'', \<lambda>raw. rbind (dec_tuic raw) (\<lambda>c. Inr (Tuic c))),
    (''hysteria'', \<lambda>raw. rbind (dec_hysteria raw) (\<lambda>c. Inr (Hysteria c))),
    (''anytls'', \<lambda>raw. rbind (dec_anytls raw) (\<lambda>c. Inr (AnyTLS c)))]"

definition DecodeProfile :: "string \<Rightarrow> json \<Rightarrow> profile decoded" where
  "DecodeProfile kind raw = (case map_of byKind kind of
     None \<Rightarrow> Inl (UnknownKind kind) | Some decode \<Rightarrow> decode raw)"

fun enc_profile_body :: "profile \<Rightarrow> json" where
  "enc_profile_body (Vless c) = enc_vless c"
| "enc_profile_body (Shadowsocks c) = enc_shadowsocks c"
| "enc_profile_body (Vmess c) = enc_vmess c"
| "enc_profile_body (Trojan c) = enc_trojan c"
| "enc_profile_body (Hysteria2 c) = enc_hysteria2 c"
| "enc_profile_body (Tuic c) = enc_tuic c"
| "enc_profile_body (Hysteria c) = enc_hysteria c"
| "enc_profile_body (AnyTLS c) = enc_anytls c"

definition EncodeProfileDoc :: "profile \<Rightarrow> json" where
  "EncodeProfileDoc p = JObj [(Kind p, enc_profile_body p)]"

text \<open>The integer fields of a profile are in range (they are Go \<^verbatim>\<open>int\<close>s).\<close>

fun profile_ok :: "profile \<Rightarrow> bool" where
  "profile_ok (Vmess c) = int64 (vm_alter_id c)"
| "profile_ok (Hysteria c) = (int64 (hy_up_mbps c) \<and> int64 (hy_down_mbps c))"
| "profile_ok _ = True"

lemmas accessors_defs =
  vless_accessors_def shadowsocks_accessors_def vmess_accessors_def trojan_accessors_def hysteria2_accessors_def tuic_accessors_def hysteria_accessors_def anytls_accessors_def

lemma DecodeProfile_Encode: "profile_ok p \<Longrightarrow> DecodeProfile (Kind p) (enc_profile_body p) = Inr p"
  by (cases p) (simp_all add: DecodeProfile_def byKind_def accessors_defs
     dec_enc_vless dec_enc_shadowsocks dec_enc_vmess dec_enc_trojan dec_enc_hysteria2 dec_enc_tuic dec_enc_hysteria dec_enc_anytls)

end
