(* ===== verification/Proxy_Select.thy ===== *)
theory Proxy_Select
  imports Proxy_Profiles
begin

text \<open>
  Per-node core selection (\<^verbatim>\<open>daemon-go/internal/proxy/selection.go\<close>): the cores that can dial a
  node, the six-rule choice among them, and the preference of REALITY nodes for xray.

  Main results: the chosen core can build the node's outbound; a pin is honoured exactly
  when the pinned core can dial; without a pin the six rules collapse to a three-way choice.
\<close>

definition corePriority :: "string list" where
  "corePriority = [CoreSingBox, CoreXray]"

text \<open>\<open>None\<close> is the nil profile of a group node.\<close>

definition EligibleCores :: "profile option \<Rightarrow> string list" where
  "EligibleCores p = (case p of None \<Rightarrow> [] | Some q \<Rightarrow> filter (dialableBy q) corePriority)"

definition selectFromEligible ::
  "string list \<Rightarrow> string \<Rightarrow> string option \<Rightarrow> string option \<Rightarrow> proxy_error + string" where
  "selectFromEligible eligible tunEngine preferred override =
    (if eligible = [] then Inl NoCore
     else case override of
       Some ov \<Rightarrow> if ov \<in> set eligible then Inr ov else Inl (CoreCannotDial ov)
     | None \<Rightarrow>
        if length eligible = 1 then Inr (hd eligible)
        else if (case preferred of None \<Rightarrow> False | Some pc \<Rightarrow> pc \<in> set eligible) then Inr (the preferred)
        else if tunEngine \<in> set eligible then Inr tunEngine
        else Inr (hd eligible))"

definition preferredCore :: "profile \<Rightarrow> string option" where
  "preferredCore p = (case streamSecurity p of
     None \<Rightarrow> None
   | Some s \<Rightarrow> if sec_kind s \<noteq> SecurityReality then None else Some CoreXray)"

definition SelectCore :: "profile option \<Rightarrow> string \<Rightarrow> string option \<Rightarrow> proxy_error + string" where
  "SelectCore p tunEngine override = (case p of
     None \<Rightarrow> Inl GroupHasNoProfile
   | Some q \<Rightarrow> selectFromEligible (EligibleCores p) tunEngine (preferredCore q) override)"

lemma set_EligibleCores: "core \<in> set (EligibleCores (Some p)) \<longleftrightarrow> dialableBy p core"
  using any_impl.dialable_cores [of p core] by (auto simp: EligibleCores_def corePriority_def)

lemma EligibleCores_Nil: "EligibleCores (Some p) = [] \<longleftrightarrow> (\<forall>core. \<not> dialableBy p core)"
  by (metis set_EligibleCores list.set_intros(1) neq_Nil_conv empty_iff empty_set)

lemma selectFromEligible_mem:
  "selectFromEligible eligible tun pref ov = Inr core \<Longrightarrow> core \<in> set eligible"
  by (auto simp: selectFromEligible_def split: if_splits option.splits)

lemma SelectCore_dialable: "SelectCore (Some p) tun ov = Inr core \<Longrightarrow> dialableBy p core"
  by (auto simp: SelectCore_def set_EligibleCores dest: selectFromEligible_mem)

lemma EligibleCores_cases:
  "EligibleCores (Some p) =
     (if dialableBy p CoreSingBox then [CoreSingBox] else []) @ (if dialableBy p CoreXray then [CoreXray] else [])"
  by (simp add: EligibleCores_def corePriority_def)

text \<open>
  The chosen core can dial: whatever the TUN engine and the pin, a successful selection
  names sing-box and the node has a native outbound carrying its tag, or names xray and
  the node has an xray outbound with stream settings to inject the socket options into.
\<close>

theorem select_core_emits:
  assumes "SelectCore (Some p) tunEngine override = Inr core"
  shows "core = CoreSingBox \<and> (\<exists>ob. SingBoxOutbound p tag = Inr ob \<and> jget ob ''tag'' = Some (JStr tag)) \<or>
         core = CoreXray \<and> (\<exists>ob st. XrayOutbound p = Inr (Some ob) \<and> jget ob ''streamSettings'' = Some (JObj st))"
  using SelectCore_dialable [OF assms] by (rule any_impl.dialable_emits)

definition sample_ss :: profile where
  "sample_ss = Shadowsocks \<lparr>ss_server_name = ''n'', ss_address = ''h'', ss_port = 1, ss_method = ''m'',
     ss_password = ''p'', ss_plugin = [], ss_plugin_opts = []\<rparr>"

theorem select_core_emits_witness:
  "SelectCore (Some sample_ss) CoreSingBox (Some CoreXray) = Inr CoreXray \<and>
   (\<exists>ob st. XrayOutbound sample_ss = Inr (Some ob) \<and> jget ob ''streamSettings'' = Some (JObj st))"
proof -
  have s: "SelectCore (Some sample_ss) CoreSingBox (Some CoreXray) = Inr CoreXray" by code_simp
  from select_core_emits [OF this] show ?thesis using s by auto
qed

text \<open>
  A pin wins exactly within the eligible set: a pinned core that can dial is chosen, one
  that cannot is an error even when another core could dial.
\<close>

theorem select_core_override:
  "SelectCore (Some p) tunEngine (Some ov) =
     (if dialableBy p ov then Inr ov
      else if dialableBy p CoreSingBox \<or> dialableBy p CoreXray then Inl (CoreCannotDial ov)
      else Inl NoCore)"
  using set_EligibleCores [of ov p]
  by (auto simp: SelectCore_def selectFromEligible_def EligibleCores_cases split: if_splits)

lemma select_core_default':
  "SelectCore (Some p) CoreSingBox None =
     (if preferredCore p = Some CoreXray \<and> dialableBy p CoreXray then Inr CoreXray
      else if dialableBy p CoreSingBox then Inr CoreSingBox
      else if dialableBy p CoreXray then Inr CoreXray
      else Inl NoCore)"
proof -
  have "preferredCore p = None \<or> preferredCore p = Some CoreXray"
    by (simp add: preferredCore_def split: option.splits)
  then show ?thesis
    by (auto simp: SelectCore_def selectFromEligible_def EligibleCores_cases)
qed

text \<open>
  Without a pin, and with sing-box as the TUN engine (how the daemon calls it), the six
  rules amount to: xray for a REALITY node xray can dial, else sing-box when it can dial,
  else xray when it can, else an error.
\<close>

theorem select_core_default:
  "SelectCore (Some p) CoreSingBox None =
     (if preferredCore p = Some CoreXray \<and> dialableBy p CoreXray then Inr CoreXray
      else if dialableBy p CoreSingBox then Inr CoreSingBox
      else if dialableBy p CoreXray then Inr CoreXray
      else Inl NoCore)"
  by (rule select_core_default')

end
