(* ===== verification/Proxy_Links.thy ===== *)
theory Proxy_Links
  imports Proxy_Select
begin

text \<open>
  Share-link parsing: \<^verbatim>\<open>ParseURL\<close> of \<^verbatim>\<open>daemon-go/internal/proxy/profile.go\<close> and the parser of
  every protocol file. A \<^verbatim>\<open>*url.URL\<close> is a record of what its accessors return.

  Two library routines are arguments of the definitions: \<open>url_parse\<close> (\<^verbatim>\<open>url.Parse\<close>) and
  \<open>json_text\<close>, the value a JSON text holds (\<^verbatim>\<open>json.Valid\<close> is that there is one). Nothing
  is assumed of them. Base64, percent-decoding and number syntax are modelled.

  Main result: every node a share link parses to can be dialled by some core.
\<close>

section \<open>URLs and text encodings\<close>

text \<open>
  \<open>u_user\<close> is the userinfo: the user name and, when the link had a colon, the password.
  \<open>u_query\<close> are the decoded query pairs in order.
\<close>

record url =
  u_scheme :: string
  u_opaque :: string
  u_user :: "(string \<times> string option) option"
  u_host :: string
  u_hostname :: string
  u_port :: string
  u_fragment :: string
  u_escaped_fragment :: string
  u_query :: "(string \<times> string) list"
  u_string :: string

definition query_get :: "url \<Rightarrow> string \<Rightarrow> string" where
  "query_get u k = (case map_of (u_query u) k of None \<Rightarrow> [] | Some v \<Rightarrow> v)"

definition query_has :: "url \<Rightarrow> string \<Rightarrow> bool" where
  "query_has u k = (map_of (u_query u) k \<noteq> None)"

definition hex_val :: "char \<Rightarrow> nat option" where
  "hex_val c = (case digit_val c of None \<Rightarrow> None | Some d \<Rightarrow> if d < 16 then Some d else None)"

fun QueryUnescape :: "string \<Rightarrow> string option" where
  "QueryUnescape [] = Some []"
| "QueryUnescape (c # s) =
    (if c = CHR ''%'' then
       (case s of
          a # b # r \<Rightarrow> (case (hex_val a, hex_val b) of
             (Some h, Some l) \<Rightarrow> map_option (\<lambda>t. char_of (16 * h + l) # t) (QueryUnescape r)
           | _ \<Rightarrow> None)
        | _ \<Rightarrow> None)
     else if c = CHR ''+'' then map_option (\<lambda>t. CHR '' '' # t) (QueryUnescape s)
     else map_option (\<lambda>t. c # t) (QueryUnescape s))"

text \<open>\<^verbatim>\<open>fragmentName\<close>: the fragment read as form pairs, values dropped, keys concatenated.\<close>

definition fragmentName :: "string \<Rightarrow> string" where
  "fragmentName escaped = concat (map (\<lambda>pair.
     let key = (case Cut pair (CHR ''='') of None \<Rightarrow> pair | Some (k, _) \<Rightarrow> k)
     in (case QueryUnescape key of None \<Rightarrow> key | Some d \<Rightarrow> d)) (Split escaped (CHR ''&'')))"

definition std_val :: "char \<Rightarrow> nat option" where
  "std_val c = (let n = of_char c :: nat in
     if 65 \<le> n \<and> n \<le> 90 then Some (n - 65) else if 97 \<le> n \<and> n \<le> 122 then Some (n - 71)
     else if 48 \<le> n \<and> n \<le> 57 then Some (n + 4)
     else if c = CHR ''+'' then Some 62 else if c = CHR ''/'' then Some 63 else None)"

definition url_val :: "char \<Rightarrow> nat option" where
  "url_val c = (if c = CHR ''-'' then Some 62 else if c = CHR ''_'' then Some 63
     else if c = CHR ''+'' \<or> c = CHR ''/'' then None else std_val c)"

text \<open>
  \<^verbatim>\<open>Encoding.DecodeString\<close>: quanta of four characters; a padded encoding ends in a quantum
  completed with \<^verbatim>\<open>=\<close>, a raw one may end in two or three characters. Line breaks are skipped.
\<close>

fun b64_quanta :: "(char \<Rightarrow> nat option) \<Rightarrow> bool \<Rightarrow> string \<Rightarrow> string option" where
  "b64_quanta val padded [] = Some []"
| "b64_quanta val padded [a] = None"
| "b64_quanta val padded [a, b] = (if padded then None else
     (case (val a, val b) of (Some x, Some y) \<Rightarrow> Some [char_of (4 * x + y div 16)] | _ \<Rightarrow> None))"
| "b64_quanta val padded [a, b, c] = (if padded then None else
     (case (val a, val b, val c) of
        (Some x, Some y, Some z) \<Rightarrow> Some [char_of (4 * x + y div 16), char_of (16 * (y mod 16) + z div 4)]
      | _ \<Rightarrow> None))"
| "b64_quanta val padded (a # b # c # d # r) =
    (if padded \<and> r = [] \<and> c = CHR ''='' \<and> d = CHR ''='' then
       (case (val a, val b) of (Some x, Some y) \<Rightarrow> Some [char_of (4 * x + y div 16)] | _ \<Rightarrow> None)
     else if padded \<and> r = [] \<and> d = CHR ''='' then
       (case (val a, val b, val c) of
          (Some x, Some y, Some z) \<Rightarrow> Some [char_of (4 * x + y div 16), char_of (16 * (y mod 16) + z div 4)]
        | _ \<Rightarrow> None)
     else (case (val a, val b, val c, val d) of
          (Some x, Some y, Some z, Some w) \<Rightarrow>
             map_option (\<lambda>t. char_of (4 * x + y div 16) # char_of (16 * (y mod 16) + z div 4) #
               char_of (64 * (z mod 4) + w) # t) (b64_quanta val padded r)
        | _ \<Rightarrow> None))"

definition b64_decode :: "(char \<Rightarrow> nat option) \<Rightarrow> bool \<Rightarrow> string \<Rightarrow> string option" where
  "b64_decode val padded s = b64_quanta val padded (filter (\<lambda>c. c \<noteq> CHR 0x0A \<and> c \<noteq> CHR 0x0D) s)"

text \<open>\<^verbatim>\<open>decodeBase64\<close> and \<^verbatim>\<open>decodeVmessBase64\<close> try the same four variants in the same order.\<close>

definition decodeBase64 :: "string \<Rightarrow> string option" where
  "decodeBase64 s =
    (case b64_decode std_val True s of Some b \<Rightarrow> Some b | None \<Rightarrow>
    (case b64_decode std_val False s of Some b \<Rightarrow> Some b | None \<Rightarrow>
    (case b64_decode url_val True s of Some b \<Rightarrow> Some b | None \<Rightarrow> b64_decode url_val False s)))"

definition decodeVmessBase64 :: "string \<Rightarrow> string option" where
  "decodeVmessBase64 s =
    (case b64_decode std_val True s of Some b \<Rightarrow> Some b | None \<Rightarrow>
    (case b64_decode std_val False s of Some b \<Rightarrow> Some b | None \<Rightarrow>
    (case b64_decode url_val True s of Some b \<Rightarrow> Some b | None \<Rightarrow> b64_decode url_val False s)))"

section \<open>Parts the parsers share\<close>

text \<open>\<^verbatim>\<open>strconv.ParseUint(p, 10, 16)\<close> into a port.\<close>

definition parse_port :: "string \<Rightarrow> proxy_error + u16" where
  "parse_port p = (case ParseUint p 10 16 of None \<Rightarrow> Inl (InvalidPort p) | Some n \<Rightarrow> Inr (of_nat n))"

definition port_or :: "u16 \<Rightarrow> url \<Rightarrow> proxy_error + u16" where
  "port_or dflt u = (if u_port u \<noteq> [] then parse_port (u_port u) else Inr dflt)"

definition name_or :: "string \<Rightarrow> url \<Rightarrow> string" where
  "name_or dflt u = (if u_fragment u \<noteq> [] then fragmentName (u_escaped_fragment u) else dflt)"

definition username :: "url \<Rightarrow> string" where
  "username u = (case u_user u of None \<Rightarrow> [] | Some (n, _) \<Rightarrow> n)"

definition require_host :: "url \<Rightarrow> proxy_error + string" where
  "require_host u = (if u_hostname u = [] then Inl MissingHost else Inr (u_hostname u))"

definition parse_reality :: "url \<Rightarrow> proxy_error + reality_params" where
  "parse_reality u =
    (if \<not> query_has u ''sni'' then Inl (RealityRequires ''sni'')
     else if \<not> query_has u ''fp'' then Inl (RealityRequires ''fp'')
     else if \<not> query_has u ''pbk'' then Inl (RealityRequires ''pbk'')
     else if \<not> query_has u ''sid'' then Inl (RealityRequires ''sid'')
     else Inr \<lparr>rl_sni = query_get u ''sni'', rl_fp = query_get u ''fp'',
               rl_pbk = query_get u ''pbk'', rl_sid = query_get u ''sid''\<rparr>)"

text \<open>The \<^verbatim>\<open>security\<close> switch of the VLESS and Trojan parsers; \<open>dflt\<close> is kept otherwise.\<close>

definition parse_security :: "security \<Rightarrow> url \<Rightarrow> proxy_error + security" where
  "parse_security dflt u =
    (let k = query_get u ''security'' in
     if k = ''reality'' then
       rbind (parse_reality u) (\<lambda>r. Inr \<lparr>sec_kind = SecurityReality, sec_tls = None, sec_reality = Some r\<rparr>)
     else if k = ''tls'' then
       Inr \<lparr>sec_kind = SecurityTLS,
            sec_tls = Some \<lparr>tls_sni = query_get u ''sni'', tls_fp = query_get u ''fp''\<rparr>,
            sec_reality = None\<rparr>
     else Inr dflt)"

text \<open>The \<^verbatim>\<open>type\<close> switch of the VLESS and Trojan parsers.\<close>

definition parse_transport :: "(string \<Rightarrow> json option) \<Rightarrow> url \<Rightarrow> proxy_error + transport" where
  "parse_transport json_text u =
    (let ty = query_get u ''type'' in
     if ty = ''xhttp'' \<or> ty = ''splithttp'' then
       (let params = \<lparr>xh_path = query_get u ''path'', xh_host = query_get u ''host'',
                      xh_mode = query_get u ''mode'', xh_extra = None\<rparr>;
            extra = query_get u ''extra'' in
        if extra \<noteq> [] then
          (case json_text extra of
             None \<Rightarrow> Inl ExtraNotJSON
           | Some j \<Rightarrow> Inr ((plain_transport TransportXhttp)\<lparr>tr_xhttp := Some (params\<lparr>xh_extra := Some j\<rparr>)\<rparr>))
        else Inr ((plain_transport TransportXhttp)\<lparr>tr_xhttp := Some params\<rparr>))
     else if ty = ''ws'' then
       Inr ((plain_transport TransportWs)\<lparr>tr_ws := Some \<lparr>ws_path = query_get u ''path'', ws_host = query_get u ''host''\<rparr>\<rparr>)
     else if ty = ''grpc'' then
       Inr ((plain_transport TransportGrpc)\<lparr>tr_grpc := Some \<lparr>grpc_service_name = query_get u ''serviceName''\<rparr>\<rparr>)
     else if ty = [] \<or> ty = ''tcp'' \<or> ty = ''raw'' then Inr (plain_transport TransportTCP)
     else Inl (UnsupportedTransport ty))"

section \<open>VLESS and Trojan\<close>

definition parseVlessURL :: "(string \<Rightarrow> json option) \<Rightarrow> url \<Rightarrow> proxy_error + vless_config" where
  "parseVlessURL json_text u =
     rbind (require_host u) (\<lambda>address.
     rbind (port_or 443 u) (\<lambda>port.
     rbind (parse_security (plain_security SecurityNone) u) (\<lambda>sec.
     rbind (parse_transport json_text u) (\<lambda>tr.
     Inr \<lparr>vl_server_name = name_or ''New Profile'' u, vl_uuid = username u, vl_address = address, vl_port = port,
          vl_encryption = (if query_get u ''encryption'' \<noteq> [] then query_get u ''encryption'' else ''none''),
          vl_flow = query_get u ''flow'', vl_security = sec, vl_transport = tr\<rparr>))))"

definition parseTrojanURL :: "(string \<Rightarrow> json option) \<Rightarrow> url \<Rightarrow> proxy_error + trojan_config" where
  "parseTrojanURL json_text u =
     rbind (require_host u) (\<lambda>address.
     rbind (port_or 443 u) (\<lambda>port.
     rbind (parse_security \<lparr>sec_kind = SecurityTLS, sec_tls = Some \<lparr>tls_sni = [], tls_fp = []\<rparr>, sec_reality = None\<rparr> u) (\<lambda>sec.
     rbind (parse_transport json_text u) (\<lambda>tr.
     Inr \<lparr>tj_server_name = name_or ''New Trojan'' u, tj_address = address, tj_port = port,
          tj_password = username u, tj_security = sec, tj_transport = tr\<rparr>))))"

section \<open>Shadowsocks\<close>

definition setShadowsocksPort :: "string \<Rightarrow> proxy_error + u16" where
  "setShadowsocksPort p = (if p = [] then Inl MissingPort else parse_port p)"

definition decodeUserinfo :: "string \<Rightarrow> string \<Rightarrow> string \<times> string" where
  "decodeUserinfo name password =
    (if password = [] then
       (case decodeBase64 name of
          Some dec \<Rightarrow> (case Cut dec (CHR '':'') of Some mp \<Rightarrow> mp | None \<Rightarrow> (name, password))
        | None \<Rightarrow> (name, password))
     else (name, password))"

definition legacyBody :: "url \<Rightarrow> string" where
  "legacyBody u = (if u_host u \<noteq> [] then u_host u else u_opaque u)"

text \<open>\<^verbatim>\<open>strings.Trim(s, "[]")\<close>.\<close>

definition trim_brackets :: "string \<Rightarrow> string" where
  "trim_brackets s = (let b = (\<lambda>c. c = CHR ''['' \<or> c = CHR '']'') in
     rev (dropWhile b (rev (dropWhile b s))))"

definition splitHostPort :: "string \<Rightarrow> proxy_error + string \<times> string" where
  "splitHostPort endpoint = (case CutLast endpoint (CHR '':'') of
     None \<Rightarrow> Inl MissingPort
   | Some (h, p) \<Rightarrow> if trim_brackets h = [] then Inl MissingHost else Inr (trim_brackets h, p))"

definition parseShadowsocksLegacy :: "url \<Rightarrow> string \<Rightarrow> proxy_error + shadowsocks_config" where
  "parseShadowsocksLegacy u name =
    (case decodeBase64 (legacyBody u) of
       None \<Rightarrow> Inl MissingHost
     | Some dec \<Rightarrow> (case CutLast dec (CHR ''@'') of
         None \<Rightarrow> Inl LegacyMissingEndpoint
       | Some (cred, endpoint) \<Rightarrow> (case Cut cred (CHR '':'') of
           None \<Rightarrow> Inl LegacyMissingCredentials
         | Some (method, password) \<Rightarrow>
             if method = [] then Inl LegacyMissingCredentials
             else rbind (splitHostPort endpoint) (\<lambda>(host, port).
                  rbind (setShadowsocksPort port) (\<lambda>pt.
                  Inr \<lparr>ss_server_name = name, ss_address = host, ss_port = pt, ss_method = method,
                       ss_password = password, ss_plugin = [], ss_plugin_opts = []\<rparr>)))))"

definition parseShadowsocks :: "url \<Rightarrow> proxy_error + shadowsocks_config" where
  "parseShadowsocks u =
    (let name = name_or ''New Shadowsocks'' u in
     case u_user u of
       None \<Rightarrow> parseShadowsocksLegacy u name
     | Some (user, pass) \<Rightarrow>
         rbind (setShadowsocksPort (u_port u)) (\<lambda>pt.
           let (method, password) = decodeUserinfo user (case pass of None \<Rightarrow> [] | Some p \<Rightarrow> p) in
           if method = [] then Inl MissingMethod
           else Inr \<lparr>ss_server_name = name, ss_address = u_hostname u, ss_port = pt,
                     ss_method = method, ss_password = password, ss_plugin = query_get u ''plugin'',
                     ss_plugin_opts = (if query_get u ''plugin'' \<noteq> [] then query_get u ''plugin_opts'' else [])\<rparr>))"

section \<open>VMess\<close>

record vmess_link =
  lk_ps :: string
  lk_add :: string
  lk_port :: string
  lk_id :: string
  lk_aid :: string
  lk_scy :: string
  lk_net :: string
  lk_host :: string
  lk_path :: string
  lk_tls :: string
  lk_sni :: string
  lk_fp :: string

text \<open>JSON number syntax, which a string must have to decode into a \<^verbatim>\<open>json.Number\<close>.\<close>

fun all_digits :: "string \<Rightarrow> bool" where
  "all_digits s = (s \<noteq> [] \<and> list_all (\<lambda>c. 48 \<le> (of_char c :: nat) \<and> (of_char c :: nat) \<le> 57) s)"

definition valid_exp :: "string \<Rightarrow> bool" where
  "valid_exp s = (case s of [] \<Rightarrow> False
     | c # r \<Rightarrow> if c = CHR ''+'' \<or> c = CHR ''-'' then all_digits r else all_digits s)"

definition isValidNumber :: "string \<Rightarrow> bool" where
  "isValidNumber s0 =
    (let s = (case s0 of c # r \<Rightarrow> if c = CHR ''-'' then r else s0 | [] \<Rightarrow> []);
         digit = (\<lambda>c. 48 \<le> (of_char c :: nat) \<and> (of_char c :: nat) \<le> 57);
         ip = takeWhile digit s; r = dropWhile digit s
     in ip \<noteq> [] \<and> (hd ip = CHR ''0'' \<longrightarrow> length ip = 1) \<and>
        (let (frac_ok, r2) = (case r of c # q \<Rightarrow> if c = CHR ''.'' then
                (takeWhile digit q \<noteq> [], dropWhile digit q) else (True, r) | [] \<Rightarrow> (True, []))
         in frac_ok \<and> (case r2 of [] \<Rightarrow> True | c # q \<Rightarrow> (c = CHR ''e'' \<or> c = CHR ''E'') \<and> valid_exp q)))"

definition int_text :: "int \<Rightarrow> string" where
  "int_text i = (if i < 0 then CHR ''-'' # FormatUint 10 (nat (- i)) else FormatUint 10 (nat i))"

fun dec_number :: "json \<Rightarrow> string decoded" where
  "dec_number (JInt i) = Inr (int_text i)"
| "dec_number (JFloat t) = Inr t"
| "dec_number (JStr s) = (if isValidNumber s then Inr s else Inl BadType)"
| "dec_number JNull = Inr []"
| "dec_number _ = Inl BadType"

definition dec_vmess_link :: "json \<Rightarrow> vmess_link decoded" where
  "dec_vmess_link = dec_struct (\<lambda>ob.
     rbind (dec_field dec_string [] ''v'' ob) (\<lambda>_.
     rbind (dec_field dec_string [] ''ps'' ob) (\<lambda>ps.
     rbind (dec_field dec_string [] ''add'' ob) (\<lambda>add.
     rbind (dec_field dec_number [] ''port'' ob) (\<lambda>port.
     rbind (dec_field dec_string [] ''id'' ob) (\<lambda>i.
     rbind (dec_field dec_number [] ''aid'' ob) (\<lambda>aid.
     rbind (dec_field dec_string [] ''scy'' ob) (\<lambda>scy.
     rbind (dec_field dec_string [] ''net'' ob) (\<lambda>net.
     rbind (dec_field dec_string [] ''type'' ob) (\<lambda>_.
     rbind (dec_field dec_string [] ''host'' ob) (\<lambda>host.
     rbind (dec_field dec_string [] ''path'' ob) (\<lambda>path.
     rbind (dec_field dec_string [] ''tls'' ob) (\<lambda>tls.
     rbind (dec_field dec_string [] ''sni'' ob) (\<lambda>sni.
     rbind (dec_field dec_string [] ''alpn'' ob) (\<lambda>_.
     rbind (dec_field dec_string [] ''fp'' ob) (\<lambda>fp.
     Inr \<lparr>lk_ps = ps, lk_add = add, lk_port = port, lk_id = i, lk_aid = aid, lk_scy = scy, lk_net = net,
          lk_host = host, lk_path = path, lk_tls = tls, lk_sni = sni, lk_fp = fp\<rparr>))))))))))))))))"

definition numToUint16 :: "string \<Rightarrow> u16 option" where
  "numToUint16 n = (let s = TrimSpace n in if s = [] then Some 0 else map_option of_nat (ParseUint s 10 16))"

definition numToInt :: "string \<Rightarrow> int option" where
  "numToInt n = (let s = TrimSpace n in if s = [] then Some 0 else Atoi s)"

definition vmess_transport :: "vmess_link \<Rightarrow> proxy_error + transport" where
  "vmess_transport l =
    (if lk_net l = ''ws'' then Inr ((plain_transport TransportWs)\<lparr>tr_ws := Some \<lparr>ws_path = lk_path l, ws_host = lk_host l\<rparr>\<rparr>)
     else if lk_net l = ''grpc'' then Inr ((plain_transport TransportGrpc)\<lparr>tr_grpc := Some \<lparr>grpc_service_name = lk_path l\<rparr>\<rparr>)
     else if lk_net l = [] \<or> lk_net l = ''tcp'' \<or> lk_net l = ''raw'' then Inr (plain_transport TransportTCP)
     else Inl (UnsupportedTransport (lk_net l)))"

definition vmess_security :: "vmess_link \<Rightarrow> proxy_error + security" where
  "vmess_security l =
    (let sni = (if lk_sni l = [] then lk_host l else lk_sni l) in
     if lk_tls l = ''tls'' then
       Inr \<lparr>sec_kind = SecurityTLS, sec_tls = Some \<lparr>tls_sni = sni, tls_fp = lk_fp l\<rparr>, sec_reality = None\<rparr>
     else if lk_tls l = ''reality'' then Inl VmessReality
     else Inr (plain_security SecurityNone))"

definition vmess_of_link :: "vmess_link \<Rightarrow> proxy_error + vmess_config" where
  "vmess_of_link l =
    (if lk_add l = [] then Inl VmessMissingAdd
     else if lk_id l = [] then Inl VmessMissingID
     else (case numToUint16 (lk_port l) of
        None \<Rightarrow> Inl VmessPort
      | Some port \<Rightarrow> (case numToInt (lk_aid l) of
          None \<Rightarrow> Inl VmessAid
        | Some aid \<Rightarrow>
            rbind (vmess_transport l) (\<lambda>tr.
            rbind (vmess_security l) (\<lambda>sec.
            Inr \<lparr>vm_server_name = (if lk_ps l = [] then ''New Profile'' else lk_ps l), vm_uuid = lk_id l,
                 vm_address = lk_add l, vm_port = (if port \<noteq> 0 then port else 443), vm_alter_id = aid,
                 vm_cipher = (if lk_scy l \<noteq> [] then lk_scy l else ''auto''),
                 vm_security = sec, vm_transport = tr\<rparr>)))))"

definition parseVmessURL :: "(string \<Rightarrow> json option) \<Rightarrow> url \<Rightarrow> proxy_error + vmess_config" where
  "parseVmessURL json_text u =
    (let payload = TrimSpace (if u_opaque u = [] then TrimPrefix (u_string u) ''vmess://'' else u_opaque u) in
     if payload = [] then Inl VmessEmpty
     else (case decodeVmessBase64 payload of
        None \<Rightarrow> Inl VmessBase64
      | Some raw \<Rightarrow> (case json_text raw of
          None \<Rightarrow> Inl VmessJSON
        | Some j \<Rightarrow> (case dec_vmess_link j of Inl _ \<Rightarrow> Inl VmessJSON | Inr l \<Rightarrow> vmess_of_link l))))"

section \<open>The QUIC family and AnyTLS\<close>

definition parseHy2Bool :: "string \<Rightarrow> bool" where
  "parseHy2Bool v = (v = ''1'' \<or> v = ''true'')"

definition parseHysteria2 :: "url \<Rightarrow> proxy_error + hysteria2_config" where
  "parseHysteria2 u =
     rbind (require_host u) (\<lambda>address.
     rbind (port_or 443 u) (\<lambda>port.
     Inr \<lparr>h2_server_name = name_or ''New Hysteria2'' u, h2_address = address, h2_port = port,
          h2_password = (case u_user u of None \<Rightarrow> []
             | Some (n, p) \<Rightarrow> n @ (case p of None \<Rightarrow> [] | Some q \<Rightarrow> CHR '':'' # q)),
          h2_sni = query_get u ''sni'',
          h2_insecure = (parseHy2Bool (query_get u ''insecure'') \<or> parseHy2Bool (query_get u ''allowInsecure'')),
          h2_obfs = query_get u ''obfs'',
          h2_obfs_password = (if query_get u ''obfs'' \<noteq> [] then query_get u ''obfs-password'' else []),
          h2_pin_sha256 = query_get u ''pinSHA256''\<rparr>))"

definition parseInsecure :: "string \<Rightarrow> bool" where
  "parseInsecure v = (let s = ToLower (TrimSpace v) in s = ''1'' \<or> s = ''true'')"

definition parseTUICURL :: "url \<Rightarrow> proxy_error + tuic_config" where
  "parseTUICURL u =
     rbind (require_host u) (\<lambda>address.
     rbind (port_or 443 u) (\<lambda>port.
     Inr \<lparr>tu_server_name = name_or ''New TUIC'' u, tu_address = address, tu_port = port,
          tu_uuid = username u,
          tu_password = (case u_user u of Some (_, Some p) \<Rightarrow> p | _ \<Rightarrow> []),
          tu_sni = query_get u ''sni'', tu_congestion_control = query_get u ''congestion_control'',
          tu_udp_relay_mode = query_get u ''udp_relay_mode'',
          tu_alpn = (if query_get u ''alpn'' \<noteq> [] then
             filter (\<lambda>p. p \<noteq> []) (map TrimSpace (Split (query_get u ''alpn'') (CHR '',''))) else []),
          tu_insecure = (parseInsecure (query_get u ''allow_insecure'') \<or> parseInsecure (query_get u ''insecure''))\<rparr>))"

definition parseHysteriaBool :: "string \<Rightarrow> bool" where
  "parseHysteriaBool s = (s \<in> {''1'', ''true'', ''True'', ''TRUE''})"

definition parseHysteriaInt :: "string \<Rightarrow> int" where
  "parseHysteriaInt s = (if s = [] then 0 else (case Atoi s of None \<Rightarrow> 0 | Some n \<Rightarrow> n))"

definition parseHysteriaURL :: "url \<Rightarrow> proxy_error + hysteria_config" where
  "parseHysteriaURL u =
     rbind (require_host u) (\<lambda>address.
     if u_port u = [] then Inl MissingPort
     else rbind (parse_port (u_port u)) (\<lambda>port.
     Inr \<lparr>hy_server_name = name_or ''New Hysteria'' u, hy_address = address, hy_port = port,
          hy_auth = query_get u ''auth'', hy_sni = query_get u ''peer'',
          hy_insecure = parseHysteriaBool (query_get u ''insecure''),
          hy_up_mbps = parseHysteriaInt (query_get u ''upmbps''),
          hy_down_mbps = parseHysteriaInt (query_get u ''downmbps''),
          hy_obfs = query_get u ''obfs'', hy_alpn = query_get u ''alpn'', hy_protocol = query_get u ''protocol''\<rparr>))"

definition isTruthy :: "string \<Rightarrow> bool" where
  "isTruthy v = (v = ''1'' \<or> v = ''true'')"

definition parseAnyTLSURL :: "url \<Rightarrow> proxy_error + anytls_config" where
  "parseAnyTLSURL u =
     rbind (require_host u) (\<lambda>address.
     rbind (port_or 443 u) (\<lambda>port.
     Inr \<lparr>at_server_name = name_or ''New AnyTLS'' u, at_address = address, at_port = port,
          at_password = username u,
          at_sni = (if query_get u ''sni'' \<noteq> [] then query_get u ''sni'' else query_get u ''servername''),
          at_insecure = (isTruthy (query_get u ''insecure'') \<or> isTruthy (query_get u ''allowInsecure''))\<rparr>))"

section \<open>Dispatch on the scheme\<close>

definition byScheme :: "(string \<Rightarrow> json option) \<Rightarrow> (string \<times> (url \<Rightarrow> proxy_error + profile)) list" where
  "byScheme json_text = [
    (''vless'', \<lambda>u. rbind (parseVlessURL json_text u) (\<lambda>c. Inr (Vless c))),
    (''ss'', \<lambda>u. rbind (parseShadowsocks u) (\<lambda>c. Inr (Shadowsocks c))),
    (''vmess'', \<lambda>u. rbind (parseVmessURL json_text u) (\<lambda>c. Inr (Vmess c))),
    (''trojan'', \<lambda>u. rbind (parseTrojanURL json_text u) (\<lambda>c. Inr (Trojan c))),
    (''hysteria2'', \<lambda>u. rbind (parseHysteria2 u) (\<lambda>c. Inr (Hysteria2 c))),
    (''hy2'', \<lambda>u. rbind (parseHysteria2 u) (\<lambda>c. Inr (Hysteria2 c))),
    (''tuic'', \<lambda>u. rbind (parseTUICURL u) (\<lambda>c. Inr (Tuic c))),
    (''hysteria'', \<lambda>u. rbind (parseHysteriaURL u) (\<lambda>c. Inr (Hysteria c))),
    (''anytls'', \<lambda>u. rbind (parseAnyTLSURL u) (\<lambda>c. Inr (AnyTLS c)))]"

definition ParseURL :: "(string \<Rightarrow> url option) \<Rightarrow> (string \<Rightarrow> json option) \<Rightarrow> string \<Rightarrow> proxy_error + profile" where
  "ParseURL url_parse json_text rawURL = (case url_parse (TrimSpace rawURL) of
     None \<Rightarrow> Inl BadURL
   | Some u \<Rightarrow> (case map_of (byScheme json_text) (u_scheme u) of
       None \<Rightarrow> Inl (UnsupportedProtocol (u_scheme u))
     | Some parse \<Rightarrow> parse u))"

section \<open>What the parsers guarantee\<close>

lemma parse_transport_kind:
  "parse_transport jt u = Inr t \<Longrightarrow> tr_kind t \<in> set (Transports (CoreCaps CoreXray))"
  by (auto simp: parse_transport_def plain_transport_def Let_def core_caps_defs split: if_splits option.splits)

lemma parse_security_kind:
  "parse_security dflt u = Inr s \<Longrightarrow> sec_kind dflt \<in> set (Securities (CoreCaps CoreXray)) \<Longrightarrow>
   sec_kind s \<in> set (Securities (CoreCaps CoreXray))"
  by (auto simp: parse_security_def Let_def rbind_eq_Inr_iff core_caps_defs split: if_splits)

lemma parseVless_dialable: "parseVlessURL jt u = Inr c \<Longrightarrow> vless_dialableBy c CoreXray"
  by (auto simp: parseVlessURL_def rbind_eq_Inr_iff vless_dialableBy_def Let_def plain_security_def
      core_caps_defs dest!: parse_transport_kind parse_security_kind)

lemma parseTrojan_dialable: "parseTrojanURL jt u = Inr c \<Longrightarrow> trojan_dialableBy c CoreXray"
  by (auto simp: parseTrojanURL_def rbind_eq_Inr_iff trojan_dialableBy_def Let_def
      core_caps_defs dest!: parse_transport_kind parse_security_kind)

lemma vmess_transport_kind: "vmess_transport l = Inr t \<Longrightarrow> tr_kind t \<in> {TransportTCP, TransportWs, TransportGrpc}"
  by (auto simp: vmess_transport_def plain_transport_def split: if_splits)

lemma vmess_security_kind: "vmess_security l = Inr s \<Longrightarrow> sec_kind s \<in> {SecurityNone, SecurityTLS}"
  by (auto simp: vmess_security_def plain_security_def Let_def split: if_splits)

lemma vmess_of_link_dialable: "vmess_of_link l = Inr c \<Longrightarrow> vmess_dialableBy c CoreXray"
  by (auto simp: vmess_of_link_def rbind_eq_Inr_iff vmess_dialableBy_def Let_def core_caps_defs
      dest!: vmess_transport_kind vmess_security_kind split: if_splits option.splits)

lemma parseVmess_of_link: "parseVmessURL jt u = Inr c \<Longrightarrow> \<exists>l. vmess_of_link l = Inr c"
  by (auto simp: parseVmessURL_def Let_def split: if_splits option.splits sum.splits)

lemma Atoi_range: "Atoi s = Some i \<Longrightarrow> int64 i"
proof -
  have nn: "int n < 2 ^ 63" if "n < 2 ^ 63" for n
    using that of_nat_less_iff [of n "2 ^ 63", where 'a = int] by simp
  have le: "int n \<le> 2 ^ 63" if "n \<le> 2 ^ 63" for n
    using that of_nat_le_iff [of n "2 ^ 63", where 'a = int] by simp
  assume "Atoi s = Some i"
  then show ?thesis
    using nn le unfolding Atoi_def int64_def
    by (force split: list.splits if_splits option.splits)
qed

lemma vmess_of_link_int64: "vmess_of_link l = Inr c \<Longrightarrow> int64 (vm_alter_id c)"
  by (auto simp: vmess_of_link_def rbind_eq_Inr_iff numToInt_def Let_def int64_def [of 0]
      intro: Atoi_range split: if_splits option.splits)

lemma parseVmess_dialable: "parseVmessURL jt u = Inr c \<Longrightarrow> vmess_dialableBy c CoreXray"
  using parseVmess_of_link vmess_of_link_dialable by blast

lemma parseVmess_int64: "parseVmessURL jt u = Inr c \<Longrightarrow> int64 (vm_alter_id c)"
  using parseVmess_of_link vmess_of_link_int64 by blast

lemma parseHysteriaInt_int64: "int64 (parseHysteriaInt s)"
  by (auto simp: parseHysteriaInt_def int64_def [of 0] intro: Atoi_range split: option.splits)

lemma ParseURL_cases:
  assumes "ParseURL up jt raw = Inr p"
  obtains (vless) c u where "p = Vless c" "parseVlessURL jt u = Inr c"
  | (ss) c where "p = Shadowsocks c"
  | (vmess) c u where "p = Vmess c" "parseVmessURL jt u = Inr c"
  | (trojan) c u where "p = Trojan c" "parseTrojanURL jt u = Inr c"
  | (hy2) c u where "p = Hysteria2 c" "parseHysteria2 u = Inr c"
  | (tuic) c u where "p = Tuic c" "parseTUICURL u = Inr c"
  | (hysteria) c u where "p = Hysteria c" "parseHysteriaURL u = Inr c"
  | (anytls) c u where "p = AnyTLS c" "parseAnyTLSURL u = Inr c"
  using assms
  by (auto simp: ParseURL_def byScheme_def rbind_eq_Inr_iff split: option.splits if_splits)

lemma ParseURL_dialable:
  assumes "ParseURL up jt raw = Inr p"
  shows "dialableBy p CoreSingBox \<or> dialableBy p CoreXray"
  using assms
  by (rule ParseURL_cases) (auto simp: shadowsocks_dialableBy_def hysteria2_dialableBy_def tuic_dialableBy_def
      hysteria_dialableBy_def anytls_dialableBy_def
      dest: parseVless_dialable parseTrojan_dialable parseVmess_dialable)

lemma ParseURL_profile_ok:
  assumes "ParseURL up jt raw = Inr p"
  shows "profile_ok p"
  using assms
  by (rule ParseURL_cases) (auto simp: parseVmess_int64 parseHysteriaURL_def rbind_eq_Inr_iff
      parseHysteriaInt_int64 split: if_splits)

text \<open>
  C29. Every share link that parses gives a node the daemon can dial: core selection with the
  daemon's TUN engine and no pin succeeds on it, for every protocol.
\<close>

theorem share_link_dialable:
  assumes "ParseURL url_parse json_text raw = Inr p"
  shows "\<exists>core. SelectCore (Some p) CoreSingBox None = Inr core \<and> dialableBy p core"
  using ParseURL_dialable [OF assms] by (auto simp: select_core_default')

definition sample_url :: url where
  "sample_url = \<lparr>u_scheme = ''vless'', u_opaque = [], u_user = Some (''id'', None), u_host = ''h'',
     u_hostname = ''h'', u_port = ''8'', u_fragment = [], u_escaped_fragment = [],
     u_query = [(''type'', ''xhttp'')], u_string = []\<rparr>"

lemma sample_port: "parse_port ''8'' = Inr 8"
  by (simp add: parse_port_def ParseUint_def digit_val_def)

lemma sample_vless: "\<exists>c. parseVlessURL jt sample_url = Inr c"
  by (simp add: parseVlessURL_def require_host_def port_or_def sample_url_def sample_port parse_security_def
      parse_transport_def query_get_def plain_security_def plain_transport_def Let_def)

theorem share_link_dialable_witness:
  "\<exists>p core. ParseURL (\<lambda>_. Some sample_url) (\<lambda>_. None) ''vless://x'' = Inr p \<and>
     SelectCore (Some p) CoreSingBox None = Inr core \<and> dialableBy p core"
proof -
  obtain c where "parseVlessURL (\<lambda>_. None) sample_url = Inr c" using sample_vless by blast
  then have "ParseURL (\<lambda>_. Some sample_url) (\<lambda>_. None) ''vless://x'' = Inr (Vless c)"
    by (simp add: ParseURL_def byScheme_def sample_url_def)
  then show ?thesis using share_link_dialable by blast
qed

text \<open>
  Every share link that parses survives storage: the tagged document written for the node
  decodes, under its own kind, to the same node.
\<close>

theorem share_link_storable:
  assumes "ParseURL url_parse json_text raw = Inr p"
  shows "\<exists>body. EncodeProfileDoc p = JObj [(Kind p, body)] \<and> DecodeProfile (Kind p) body = Inr p"
  using DecodeProfile_Encode [OF ParseURL_profile_ok [OF assms]] by (simp add: EncodeProfileDoc_def)

theorem share_link_storable_witness:
  "\<exists>p body. ParseURL (\<lambda>_. Some (sample_url\<lparr>u_scheme := ''hy2''\<rparr>)) (\<lambda>_. None) ''hy2://x'' = Inr p \<and>
     EncodeProfileDoc p = JObj [(Kind p, body)] \<and> DecodeProfile (Kind p) body = Inr p"
proof -
  obtain c where "parseHysteria2 (sample_url\<lparr>u_scheme := ''hy2''\<rparr>) = Inr c"
    by (simp add: parseHysteria2_def require_host_def port_or_def sample_url_def sample_port)
  then have "ParseURL (\<lambda>_. Some (sample_url\<lparr>u_scheme := ''hy2''\<rparr>)) (\<lambda>_. None) ''hy2://x'' = Inr (Hysteria2 c)"
    by (simp add: ParseURL_def byScheme_def sample_url_def)
  then show ?thesis using share_link_storable by blast
qed

lemmas link_parser_defs = parseVlessURL_def parseTrojanURL_def parseHysteria2_def parseTUICURL_def
  parseHysteriaURL_def parseAnyTLSURL_def

lemma require_host_nonempty: "require_host u = Inr h \<Longrightarrow> h \<noteq> []"
  by (auto simp: require_host_def split: if_splits)

lemma parseVmess_address: "parseVmessURL jt u = Inr c \<Longrightarrow> vm_address c \<noteq> []"
  by (drule parseVmess_of_link) (auto simp: vmess_of_link_def rbind_eq_Inr_iff split: if_splits option.splits)

text \<open>
  A share link that parses names a server: the host is never empty, except possibly on a
  Shadowsocks node.
\<close>

theorem share_link_host:
  assumes "ParseURL url_parse json_text raw = Inr p"
  shows "ServerAddress p \<noteq> [] \<or> Kind p = ''shadowsocks''"
  using assms
  by (rule ParseURL_cases) (auto simp: link_parser_defs rbind_eq_Inr_iff accessors_defs parseVmess_address
      dest!: require_host_nonempty split: if_splits)

theorem share_link_host_witness:
  "\<exists>p. ParseURL (\<lambda>_. Some sample_url) (\<lambda>_. None) ''vless://x'' = Inr p \<and>
     (ServerAddress p \<noteq> [] \<or> Kind p = ''shadowsocks'')"
proof -
  obtain c where "parseVlessURL (\<lambda>_. None) sample_url = Inr c" using sample_vless by blast
  then have "ParseURL (\<lambda>_. Some sample_url) (\<lambda>_. None) ''vless://x'' = Inr (Vless c)"
    by (simp add: ParseURL_def byScheme_def sample_url_def)
  then show ?thesis using share_link_host by blast
qed

text \<open>
  Every parser but one refuses a link without a host. A SIP002 Shadowsocks link is the
  exception: with a user name, a port and a method it parses whatever its host is, the
  empty host included.
\<close>

theorem shadowsocks_accepts_any_host:
  assumes "parseShadowsocks u = Inr c" and "u_user u = Some up"
  shows "parseShadowsocks (u\<lparr>u_hostname := h\<rparr>) = Inr (c\<lparr>ss_address := h\<rparr>)"
proof -
  obtain user pass where up: "up = (user, pass)" by (cases up)
  obtain m pw where "decodeUserinfo user (case pass of None \<Rightarrow> [] | Some p \<Rightarrow> p) = (m, pw)"
    by fastforce
  then show ?thesis using assms up
    by (auto simp: parseShadowsocks_def Let_def rbind_eq_Inr_iff name_or_def query_get_def
        split: if_splits)
qed

definition sample_ss_url :: url where
  "sample_ss_url = sample_url\<lparr>u_scheme := ''ss'', u_user := Some (''m'', Some ''p''), u_query := []\<rparr>"

theorem shadowsocks_accepts_any_host_witness:
  "\<exists>c. parseShadowsocks (sample_ss_url\<lparr>u_hostname := []\<rparr>) = Inr (c\<lparr>ss_address := []\<rparr>)"
proof -
  obtain c where "parseShadowsocks sample_ss_url = Inr c"
    by (simp add: parseShadowsocks_def setShadowsocksPort_def decodeUserinfo_def sample_ss_url_def
        sample_url_def sample_port)
  moreover have "u_user sample_ss_url = Some (''m'', Some ''p'')"
    by (simp add: sample_ss_url_def)
  ultimately show ?thesis using shadowsocks_accepts_any_host by blast
qed

end
