(* ===== verification/Store_Profile.thy ===== *)
theory Store_Profile
  imports Routing_Model Proxy_Links
begin

text \<open>
  The user profile of \<^verbatim>\<open>daemon-go/internal/store/profile.go\<close>: its subscriptions, nodes, groups
  and routing configs, the active selections among them, and every mutator.

  A fresh \<^verbatim>\<open>uuid.New()\<close> and the current time are arguments of the operations that draw them.
  A mutator that can fail returns the error and leaves the profile as it was; one that reports
  a value returns it beside the new profile.

  Main results: the invariant \<open>profile_inv\<close> (selections reference existing members, names are
  valid and unique) holds of every profile reached from a fresh one by the mutators and the edits in place of the verbs; subscription URLs stay unique
  but for an edit that takes the URL of another; what each mutator does to the selections.
\<close>

section \<open>Data model\<close>

abbreviation SchemaVersion :: u32 where "SchemaVersion \<equiv> 3"
abbreviation DefaultUpdateIntervalSec :: u32 where "DefaultUpdateIntervalSec \<equiv> 28800"
abbreviation MinUpdateIntervalSec :: u32 where "MinUpdateIntervalSec \<equiv> 600"
abbreviation legacyUpdateIntervalSec :: u32 where "legacyUpdateIntervalSec \<equiv> 86400"

text \<open>Instants are nanoseconds since the epoch.\<close>

record subscription =
  sb_id :: string
  sb_name :: string
  sb_url :: string
  sb_last_updated :: int
  sb_update_interval_sec :: u32
  sb_enabled :: bool
  sb_allow_invalid_certs :: bool
  sb_format :: string
  sb_last_error :: string

record group_probe =
  gp_url :: string
  gp_interval_sec :: u32
  gp_tolerance :: u16

record group_spec =
  gs_name :: string
  gs_members :: "string list"
  gs_all_of_sub :: "string option"
  gs_probe :: group_probe

text \<open>\<open>nd_doc\<close> is the \<^verbatim>\<open>ProfileDoc\<close>, \<open>None\<close> when it holds no profile (a group node).\<close>

record node =
  nd_id :: string
  nd_sub_id :: "string option"
  nd_doc :: "profile option"
  nd_group :: "group_spec option"
  nd_core_override :: "string option"

record user_profile =
  pf_schema_version :: u32
  pf_name :: string
  pf_active_node_id :: "string option"
  pf_subscriptions :: "subscription list"
  pf_nodes :: "node list"
  pf_routing_configs :: "routing_config list"
  pf_active_routing_id :: "string option"

datatype store_error =
    EmptyName
  | NameTooLong
  | BadNameChar
  | GroupNeedsName
  | NoSuchNode string
  | NotAGroup string
  | ProviderGroup string
  | NoSuchGroup string
  | DuplicateURL string
  | DuplicateRoutingName string
  | NoSuchRouting string

section \<open>Names\<close>

definition name_char :: "char \<Rightarrow> bool" where
  "name_char c = (let n = of_char c :: nat in
     97 \<le> n \<and> n \<le> 122 \<or> 65 \<le> n \<and> n \<le> 90 \<or> 48 \<le> n \<and> n \<le> 57 \<or>
     c = CHR ''.'' \<or> c = CHR ''_'' \<or> c = CHR ''-'')"

definition ValidateName :: "string \<Rightarrow> store_error option" where
  "ValidateName name =
    (if name = [] then Some EmptyName
     else if length name > 64 then Some NameTooLong
     else if \<not> list_all name_char name then Some BadNameChar
     else None)"

section \<open>Constructors\<close>

definition NewProfile :: "string \<Rightarrow> string \<Rightarrow> user_profile" where
  "NewProfile newid name = \<lparr>pf_schema_version = SchemaVersion, pf_name = name, pf_active_node_id = None,
     pf_subscriptions = [], pf_nodes = [], pf_routing_configs = [NewDefault newid],
     pf_active_routing_id = Some newid\<rparr>"

text \<open>Nil and empty collections are the same list here, so \<open>normalize\<close> only stamps the version.\<close>

definition normalize :: "user_profile \<Rightarrow> user_profile" where
  "normalize p = p\<lparr>pf_schema_version := SchemaVersion\<rparr>"

definition NewSubscription :: "string \<Rightarrow> int \<Rightarrow> string \<Rightarrow> string \<Rightarrow> subscription" where
  "NewSubscription newid now url name = \<lparr>sb_id = newid, sb_name = name, sb_url = url, sb_last_updated = now,
     sb_update_interval_sec = DefaultUpdateIntervalSec, sb_enabled = True, sb_allow_invalid_certs = False,
     sb_format = ''auto'', sb_last_error = []\<rparr>"

definition migrateSubscriptionIntervals :: "user_profile \<Rightarrow> user_profile" where
  "migrateSubscriptionIntervals p = p\<lparr>pf_subscriptions := map (\<lambda>s.
     if sb_update_interval_sec s = 0 \<or> sb_update_interval_sec s = legacyUpdateIntervalSec
     then s\<lparr>sb_update_interval_sec := DefaultUpdateIntervalSec\<rparr> else s) (pf_subscriptions p)\<rparr>"

definition NewNode :: "string \<Rightarrow> profile \<Rightarrow> string option \<Rightarrow> node" where
  "NewNode newid p subID = \<lparr>nd_id = newid, nd_sub_id = subID, nd_doc = Some p, nd_group = None,
     nd_core_override = None\<rparr>"

definition NewGroupNode :: "string \<Rightarrow> group_spec \<Rightarrow> string option \<Rightarrow> node" where
  "NewGroupNode newid g subID = \<lparr>nd_id = newid, nd_sub_id = subID, nd_doc = None, nd_group = Some g,
     nd_core_override = None\<rparr>"

definition IsGroup :: "node \<Rightarrow> bool" where
  "IsGroup n = (nd_group n \<noteq> None)"

definition node_DisplayName :: "node \<Rightarrow> string" where
  "node_DisplayName n = (case nd_group n of
     Some g \<Rightarrow> gs_name g
   | None \<Rightarrow> (case nd_doc n of None \<Rightarrow> [] | Some p \<Rightarrow> DisplayName p))"

section \<open>Read accessors\<close>

definition FindNodeByName :: "user_profile \<Rightarrow> string \<Rightarrow> node option" where
  "FindNodeByName p name =
    (case find (\<lambda>n. \<not> IsGroup n \<and> node_DisplayName n = name) (pf_nodes p) of
       Some n \<Rightarrow> Some n
     | None \<Rightarrow> find (\<lambda>n. IsGroup n \<and> node_DisplayName n = name) (pf_nodes p))"

definition FindNodeByID :: "user_profile \<Rightarrow> string \<Rightarrow> node option" where
  "FindNodeByID p i = find (\<lambda>n. nd_id n = i) (pf_nodes p)"

definition FindNode :: "user_profile \<Rightarrow> string \<Rightarrow> node option" where
  "FindNode p ref = (case FindNodeByID p ref of Some n \<Rightarrow> Some n | None \<Rightarrow> FindNodeByName p ref)"

definition ActiveNode :: "user_profile \<Rightarrow> node option" where
  "ActiveNode p = (case pf_active_node_id p of None \<Rightarrow> None | Some i \<Rightarrow> FindNodeByID p i)"

definition FindSubscription :: "user_profile \<Rightarrow> string \<Rightarrow> subscription option" where
  "FindSubscription p ref = find (\<lambda>s. sb_id s = ref \<or> sb_name s = ref) (pf_subscriptions p)"

section \<open>Node and subscription mutators\<close>

definition SetActiveNodeIfUnset :: "user_profile \<Rightarrow> user_profile \<times> string" where
  "SetActiveNodeIfUnset p = (case pf_active_node_id p of
     Some _ \<Rightarrow> (p, [])
   | None \<Rightarrow> (case find (\<lambda>n. \<not> IsGroup n) (pf_nodes p) of
       None \<Rightarrow> (p, [])
     | Some n \<Rightarrow> (p\<lparr>pf_active_node_id := Some (nd_id n)\<rparr>, nd_id n)))"

definition AddNode :: "node \<Rightarrow> user_profile \<Rightarrow> user_profile \<times> string" where
  "AddNode n p = (fst (SetActiveNodeIfUnset (p\<lparr>pf_nodes := pf_nodes p @ [n]\<rparr>)), nd_id n)"

definition AddGroup :: "string \<Rightarrow> group_spec \<Rightarrow> user_profile \<Rightarrow> store_error + (user_profile \<times> string)" where
  "AddGroup newid g p =
    (if gs_name g = [] then Inl GroupNeedsName
     else let n = NewGroupNode newid g None in Inr (p\<lparr>pf_nodes := pf_nodes p @ [n]\<rparr>, nd_id n))"

fun replace_group_in :: "string \<Rightarrow> group_spec \<Rightarrow> node list \<Rightarrow> store_error + node list" where
  "replace_group_in i g [] = Inl (NoSuchGroup i)"
| "replace_group_in i g (n # ns) =
    (if nd_id n \<noteq> i then rbind (replace_group_in i g ns) (\<lambda>r. Inr (n # r))
     else if \<not> IsGroup n then Inl (NotAGroup i)
     else if nd_sub_id n \<noteq> None then Inl (ProviderGroup i)
     else Inr (n\<lparr>nd_group := Some g\<rparr> # ns))"

definition ReplaceGroupByID :: "string \<Rightarrow> group_spec \<Rightarrow> user_profile \<Rightarrow> store_error + user_profile" where
  "ReplaceGroupByID i g p =
    (if gs_name g = [] then Inl GroupNeedsName
     else rbind (replace_group_in i g (pf_nodes p)) (\<lambda>ns. Inr (p\<lparr>pf_nodes := ns\<rparr>)))"

definition RemoveNodeByID :: "string \<Rightarrow> user_profile \<Rightarrow> user_profile \<times> bool" where
  "RemoveNodeByID i p =
    (let ns = filter (\<lambda>n. nd_id n \<noteq> i) (pf_nodes p);
         removed = (length ns \<noteq> length (pf_nodes p));
         p' = p\<lparr>pf_nodes := ns\<rparr>
     in (if removed \<and> pf_active_node_id p = Some i then p'\<lparr>pf_active_node_id := None\<rparr> else p', removed))"

definition SetActiveNode :: "string \<Rightarrow> user_profile \<Rightarrow> store_error + user_profile" where
  "SetActiveNode i p = (case FindNodeByID p i of
     None \<Rightarrow> Inl (NoSuchNode i) | Some _ \<Rightarrow> Inr (p\<lparr>pf_active_node_id := Some i\<rparr>))"

definition AddSubscription :: "subscription \<Rightarrow> user_profile \<Rightarrow> store_error + (user_profile \<times> string)" where
  "AddSubscription sub p =
    (if list_ex (\<lambda>s. sb_url s = sb_url sub) (pf_subscriptions p) then Inl (DuplicateURL (sb_url sub))
     else Inr (p\<lparr>pf_subscriptions := pf_subscriptions p @ [sub]\<rparr>, sb_id sub))"

definition ReplaceSubscriptionNodes :: "string \<Rightarrow> node list \<Rightarrow> user_profile \<Rightarrow> user_profile" where
  "ReplaceSubscriptionNodes subID newNodes p =
    (let p1 = p\<lparr>pf_nodes := filter (\<lambda>n. nd_sub_id n \<noteq> Some subID) (pf_nodes p) @ newNodes\<rparr>;
         p2 = (case pf_active_node_id p1 of
                 Some i \<Rightarrow> if FindNodeByID p1 i = None then p1\<lparr>pf_active_node_id := None\<rparr> else p1
               | None \<Rightarrow> p1)
     in fst (SetActiveNodeIfUnset p2))"

definition RemoveSubscription :: "string \<Rightarrow> user_profile \<Rightarrow> user_profile \<times> bool" where
  "RemoveSubscription i p =
    (let subs = filter (\<lambda>s. sb_id s \<noteq> i) (pf_subscriptions p) in
     if length subs = length (pf_subscriptions p) then (p, False)
     else (ReplaceSubscriptionNodes i [] (p\<lparr>pf_subscriptions := subs\<rparr>), True))"

section \<open>Routing mutators\<close>

definition FindRouting :: "user_profile \<Rightarrow> string \<Rightarrow> routing_config option" where
  "FindRouting p ref = find (\<lambda>r. rc_id r = ref \<or> rc_name r = ref) (pf_routing_configs p)"

definition ActiveRouting :: "user_profile \<Rightarrow> routing_config option" where
  "ActiveRouting p = (case pf_active_routing_id p of
     None \<Rightarrow> None | Some i \<Rightarrow> find (\<lambda>r. rc_id r = i) (pf_routing_configs p))"

definition AddRouting :: "string \<Rightarrow> routing_config \<Rightarrow> user_profile \<Rightarrow> store_error + (user_profile \<times> string)" where
  "AddRouting newid rc p = (case ValidateName (rc_name rc) of
     Some e \<Rightarrow> Inl e
   | None \<Rightarrow>
      if list_ex (\<lambda>r. rc_name r = rc_name rc) (pf_routing_configs p) then Inl (DuplicateRoutingName (rc_name rc))
      else let rc' = (if rc_id rc = [] then rc\<lparr>rc_id := newid\<rparr> else rc)
           in Inr (p\<lparr>pf_routing_configs := pf_routing_configs p @ [rc']\<rparr>, rc_id rc'))"

fun replace_first :: "('a \<Rightarrow> bool) \<Rightarrow> 'a \<Rightarrow> 'a list \<Rightarrow> 'a list option" where
  "replace_first P y [] = None"
| "replace_first P y (x # xs) = (if P x then Some (y # xs) else map_option (\<lambda>r. x # r) (replace_first P y xs))"

definition ReplaceRoutingByID :: "string \<Rightarrow> routing_config \<Rightarrow> user_profile \<Rightarrow> store_error + user_profile" where
  "ReplaceRoutingByID i rc p = (case ValidateName (rc_name rc) of
     Some e \<Rightarrow> Inl e
   | None \<Rightarrow>
      if list_ex (\<lambda>r. rc_id r \<noteq> i \<and> rc_name r = rc_name rc) (pf_routing_configs p)
      then Inl (DuplicateRoutingName (rc_name rc))
      else (case replace_first (\<lambda>r. rc_id r = i) (rc\<lparr>rc_id := i\<rparr>) (pf_routing_configs p) of
         None \<Rightarrow> Inl (NoSuchRouting i)
       | Some rs \<Rightarrow> Inr (p\<lparr>pf_routing_configs := rs\<rparr>)))"

definition RemoveRouting :: "string \<Rightarrow> user_profile \<Rightarrow> user_profile \<times> bool" where
  "RemoveRouting i p =
    (let rs = filter (\<lambda>r. rc_id r \<noteq> i) (pf_routing_configs p);
         removed = (length rs \<noteq> length (pf_routing_configs p));
         p' = p\<lparr>pf_routing_configs := rs\<rparr>
     in (if removed \<and> pf_active_routing_id p = Some i then p'\<lparr>pf_active_routing_id := None\<rparr> else p', removed))"

definition SetActiveRouting :: "string \<Rightarrow> user_profile \<Rightarrow> store_error + user_profile" where
  "SetActiveRouting i p =
    (if list_ex (\<lambda>r. rc_id r = i) (pf_routing_configs p) then Inr (p\<lparr>pf_active_routing_id := Some i\<rparr>)
     else Inl (NoSuchRouting i))"

section \<open>Selections\<close>

text \<open>A selection is valid when it names one of the members.\<close>

definition selection_ok :: "string list \<Rightarrow> string option \<Rightarrow> bool" where
  "selection_ok ids sel = (case sel of None \<Rightarrow> True | Some i \<Rightarrow> i \<in> set ids)"

lemma selection_ok_None [simp]: "selection_ok ids None"
  by (simp add: selection_ok_def)

lemma selection_ok_Some [simp]: "selection_ok ids (Some i) \<longleftrightarrow> i \<in> set ids"
  by (simp add: selection_ok_def)

lemma selection_ok_mono: "selection_ok ids sel \<Longrightarrow> set ids \<subseteq> set ids' \<Longrightarrow> selection_ok ids' sel"
  by (cases sel) auto

text \<open>
  The contract nodes and routing configs share: a collection of identified members of which
  one may be selected, with a removal that drops a dangling selection and a selection that
  only accepts a member.
\<close>

locale selectable =
  fixes ids :: "'s \<Rightarrow> string list"
    and active :: "'s \<Rightarrow> string option"
    and remove :: "string \<Rightarrow> 's \<Rightarrow> 's \<times> bool"
    and select :: "string \<Rightarrow> 's \<Rightarrow> 'e + 's"
  assumes remove_ids: "ids (fst (remove i s)) = filter (\<lambda>j. j \<noteq> i) (ids s)"
    and remove_flag: "snd (remove i s) \<longleftrightarrow> i \<in> set (ids s)"
    and remove_active: "active (fst (remove i s)) = (if active s = Some i \<and> i \<in> set (ids s) then None else active s)"
    and select_sound: "select i s = Inr s' \<Longrightarrow> i \<in> set (ids s) \<and> ids s' = ids s \<and> active s' = Some i"
    and select_complete: "i \<in> set (ids s) \<Longrightarrow> \<exists>s'. select i s = Inr s'"
begin

lemma select_iff: "(\<exists>s'. select i s = Inr s') \<longleftrightarrow> i \<in> set (ids s)"
  using select_sound select_complete by blast

lemma select_ok: "select i s = Inr s' \<Longrightarrow> selection_ok (ids s') (active s')"
  using select_sound [of i s s'] by simp

lemma remove_ok: "selection_ok (ids s) (active s) \<Longrightarrow> selection_ok (ids (fst (remove i s))) (active (fst (remove i s)))"
  by (cases "active s") (auto simp: remove_ids remove_active)

lemma remove_not_selected: "selection_ok (ids s) (active s) \<Longrightarrow> active (fst (remove i s)) \<noteq> Some i"
  by (auto simp: remove_active)

lemma remove_gone: "i \<notin> set (ids (fst (remove i s)))"
  by (simp add: remove_ids)

lemma remove_twice: "\<not> snd (remove i (fst (remove i s)))"
  by (simp add: remove_flag remove_ids)

lemma select_after_remove: "select i (fst (remove i s)) \<noteq> Inr s'"
  using select_sound [of i "fst (remove i s)" s'] remove_gone by blast

end

abbreviation node_ids :: "user_profile \<Rightarrow> string list" where "node_ids p \<equiv> map nd_id (pf_nodes p)"
abbreviation routing_ids :: "user_profile \<Rightarrow> string list" where "routing_ids p \<equiv> map rc_id (pf_routing_configs p)"

lemma filter_length_changed: "length (filter P xs) \<noteq> length xs \<longleftrightarrow> (\<exists>x \<in> set xs. \<not> P x)"
  using length_filter_less [of _ xs P] by (metis filter_True less_not_refl)

lemma list_ex_eq: "list_ex (\<lambda>x. f x = a) xs \<longleftrightarrow> a \<in> f ` set xs"
  by (auto simp: list_ex_iff)

lemma find_None_id: "find (\<lambda>x. f x = i) xs = None \<longleftrightarrow> i \<notin> set (map f xs)"
  by (auto simp: find_None_iff)

lemma find_SomeD: "find P xs = Some x \<Longrightarrow> x \<in> set xs \<and> P x"
  by (auto simp: find_Some_iff)

lemma FindNodeByID_None: "FindNodeByID p i = None \<longleftrightarrow> i \<notin> set (node_ids p)"
  by (simp add: FindNodeByID_def find_None_id)

lemma FindNodeByID_Some: "FindNodeByID p i = Some n \<Longrightarrow> n \<in> set (pf_nodes p) \<and> nd_id n = i"
  by (auto simp: FindNodeByID_def dest: find_SomeD)

interpretation node_sel: selectable node_ids pf_active_node_id RemoveNodeByID SetActiveNode
  by unfold_locales
     (auto simp: RemoveNodeByID_def SetActiveNode_def Let_def filter_map o_def filter_length_changed FindNodeByID_None
       dest: FindNodeByID_Some split: option.splits)

interpretation routing_sel: selectable routing_ids pf_active_routing_id RemoveRouting SetActiveRouting
  by unfold_locales
     (auto simp: RemoveRouting_def SetActiveRouting_def Let_def filter_map o_def filter_length_changed list_ex_iff
       split: if_splits)

section \<open>The profile invariant\<close>

definition profile_inv :: "user_profile \<Rightarrow> bool" where
  "profile_inv p =
    (selection_ok (node_ids p) (pf_active_node_id p) \<and>
     selection_ok (routing_ids p) (pf_active_routing_id p) \<and>
     distinct (routing_ids p) \<and>
     distinct (map rc_name (pf_routing_configs p)) \<and>
     (\<forall>r \<in> set (pf_routing_configs p). ValidateName (rc_name r) = None))"

text \<open>Adding a subscription looks for another one with its URL; editing one does not, so this is no part of the invariant.\<close>

definition urls_unique :: "user_profile \<Rightarrow> bool" where
  "urls_unique p = distinct (map sb_url (pf_subscriptions p))"

text \<open>The part that concerns routing and subscriptions only depends on those fields.\<close>

definition routing_inv :: "user_profile \<Rightarrow> bool" where
  "routing_inv p =
    (selection_ok (routing_ids p) (pf_active_routing_id p) \<and> distinct (routing_ids p) \<and>
     distinct (map rc_name (pf_routing_configs p)) \<and>
     (\<forall>r \<in> set (pf_routing_configs p). ValidateName (rc_name r) = None))"

definition same_routing :: "user_profile \<Rightarrow> user_profile \<Rightarrow> bool" where
  "same_routing p q = (pf_routing_configs q = pf_routing_configs p \<and> pf_active_routing_id q = pf_active_routing_id p)"

lemma profile_inv_split:
  "profile_inv p \<longleftrightarrow> selection_ok (node_ids p) (pf_active_node_id p) \<and> routing_inv p"
  by (auto simp: profile_inv_def routing_inv_def)

lemma routing_inv_same: "same_routing p q \<Longrightarrow> routing_inv q = routing_inv p"
  by (simp add: same_routing_def routing_inv_def)

lemma SetActiveNodeIfUnset_fields [simp]:
  "pf_nodes (fst (SetActiveNodeIfUnset p)) = pf_nodes p"
  "pf_subscriptions (fst (SetActiveNodeIfUnset p)) = pf_subscriptions p"
  "same_routing q (fst (SetActiveNodeIfUnset p)) = same_routing q p"
  by (auto simp: SetActiveNodeIfUnset_def same_routing_def split: option.splits)

lemma SetActiveNodeIfUnset_active:
  "pf_active_node_id (fst (SetActiveNodeIfUnset p)) = (case pf_active_node_id p of
     Some i \<Rightarrow> Some i | None \<Rightarrow> map_option nd_id (find (\<lambda>n. \<not> IsGroup n) (pf_nodes p)))"
  by (auto simp: SetActiveNodeIfUnset_def split: option.splits)

lemma SetActiveNodeIfUnset_ok:
  "selection_ok (node_ids p) (pf_active_node_id p) \<Longrightarrow>
   selection_ok (node_ids p) (pf_active_node_id (fst (SetActiveNodeIfUnset p)))"
  by (cases "find (\<lambda>n. \<not> IsGroup n) (pf_nodes p)")
     (auto simp: SetActiveNodeIfUnset_active dest: find_SomeD split: option.splits)

lemma AddNode_inv:
  assumes "profile_inv p"
  shows "profile_inv (fst (AddNode n p))"
proof -
  let ?p = "p\<lparr>pf_nodes := pf_nodes p @ [n]\<rparr>"
  have "selection_ok (node_ids ?p) (pf_active_node_id ?p)"
    using assms by (auto simp: profile_inv_def intro: selection_ok_mono)
  then have "selection_ok (node_ids ?p) (pf_active_node_id (fst (SetActiveNodeIfUnset ?p)))"
    by (rule SetActiveNodeIfUnset_ok)
  moreover have "same_routing p (fst (SetActiveNodeIfUnset ?p))"
    by (subst SetActiveNodeIfUnset_fields) (simp add: same_routing_def)
  ultimately show ?thesis
    using assms routing_inv_same [of p "fst (SetActiveNodeIfUnset ?p)"]
    by (simp add: profile_inv_split AddNode_def)
qed

lemma AddGroup_inv: "profile_inv p \<Longrightarrow> AddGroup newid g p = Inr (p', i) \<Longrightarrow> profile_inv p'"
  by (auto simp: profile_inv_def AddGroup_def Let_def split: if_splits intro: selection_ok_mono)

lemma replace_group_in_ids: "replace_group_in i g ns = Inr ns' \<Longrightarrow> map nd_id ns' = map nd_id ns"
  by (induction ns arbitrary: ns') (auto simp: rbind_eq_Inr_iff split: if_splits)

lemma ReplaceGroupByID_inv: "profile_inv p \<Longrightarrow> ReplaceGroupByID i g p = Inr p' \<Longrightarrow> profile_inv p'"
  by (auto simp: profile_inv_def ReplaceGroupByID_def rbind_eq_Inr_iff replace_group_in_ids split: if_splits)

lemma RemoveNodeByID_same:
  "same_routing p (fst (RemoveNodeByID i p))" "pf_subscriptions (fst (RemoveNodeByID i p)) = pf_subscriptions p"
  by (simp_all add: RemoveNodeByID_def same_routing_def Let_def)

lemma RemoveNodeByID_inv: "profile_inv p \<Longrightarrow> profile_inv (fst (RemoveNodeByID i p))"
  using routing_inv_same [OF RemoveNodeByID_same(1) [of p i]] node_sel.remove_ok [of p i]
  by (simp add: profile_inv_split RemoveNodeByID_same)

lemma SetActiveNode_inv: "profile_inv p \<Longrightarrow> SetActiveNode i p = Inr p' \<Longrightarrow> profile_inv p'"
  using node_sel.select_ok [of i p p']
  by (auto simp: profile_inv_def SetActiveNode_def split: option.splits)

lemma AddSubscription_inv: "profile_inv p \<Longrightarrow> AddSubscription sub p = Inr (p', i) \<Longrightarrow> profile_inv p'"
  by (auto simp: profile_inv_def AddSubscription_def list_ex_eq split: if_splits)

lemma ReplaceSubscriptionNodes_nodes:
  "pf_nodes (ReplaceSubscriptionNodes s ns p) = filter (\<lambda>n. nd_sub_id n \<noteq> Some s) (pf_nodes p) @ ns"
  by (simp add: ReplaceSubscriptionNodes_def Let_def split: option.splits)

lemma ReplaceSubscriptionNodes_same:
  "same_routing p (ReplaceSubscriptionNodes s ns p)"
  "pf_subscriptions (ReplaceSubscriptionNodes s ns p) = pf_subscriptions p"
  by (simp_all add: ReplaceSubscriptionNodes_def Let_def split: option.splits)
     (simp add: same_routing_def)+

lemma ReplaceSubscriptionNodes_active:
  "pf_active_node_id (ReplaceSubscriptionNodes s ns p) =
    (let ns' = filter (\<lambda>n. nd_sub_id n \<noteq> Some s) (pf_nodes p) @ ns in
     case pf_active_node_id p of
       Some i \<Rightarrow> if i \<in> nd_id ` set ns' then Some i else map_option nd_id (find (\<lambda>n. \<not> IsGroup n) ns')
     | None \<Rightarrow> map_option nd_id (find (\<lambda>n. \<not> IsGroup n) ns'))"
  by (auto simp: ReplaceSubscriptionNodes_def Let_def SetActiveNodeIfUnset_active FindNodeByID_None
      split: option.splits)

lemma ReplaceSubscriptionNodes_inv: "profile_inv p \<Longrightarrow> profile_inv (ReplaceSubscriptionNodes s ns p)"
proof -
  have "selection_ok (node_ids (ReplaceSubscriptionNodes s ns p)) (pf_active_node_id (ReplaceSubscriptionNodes s ns p))"
    by (auto simp: selection_ok_def ReplaceSubscriptionNodes_nodes ReplaceSubscriptionNodes_active Let_def
        dest!: find_SomeD split: option.splits if_splits)
  then show "profile_inv p \<Longrightarrow> ?thesis"
    using routing_inv_same [OF ReplaceSubscriptionNodes_same(1) [of p s ns]]
    by (simp add: profile_inv_split ReplaceSubscriptionNodes_same)
qed

lemma RemoveSubscription_inv:
  assumes "profile_inv p"
  shows "profile_inv (fst (RemoveSubscription i p))"
proof -
  have "profile_inv (p\<lparr>pf_subscriptions := filter (\<lambda>s. sb_id s \<noteq> i) (pf_subscriptions p)\<rparr>)"
    using assms by (auto simp: profile_inv_def distinct_map_filter)
  then show ?thesis
    using assms ReplaceSubscriptionNodes_inv by (simp add: RemoveSubscription_def Let_def)
qed

lemma AddRouting_inv:
  assumes "profile_inv p" "AddRouting newid rc p = Inr (p', i)" "i \<notin> set (routing_ids p)"
  shows "profile_inv p'"
  using assms
  by (auto simp: profile_inv_def AddRouting_def Let_def list_ex_eq intro: selection_ok_mono
      split: option.splits if_splits)

lemma replace_first_split:
  "replace_first P y xs = Some ys \<Longrightarrow> \<exists>as x bs. xs = as @ x # bs \<and> ys = as @ y # bs \<and> P x \<and> (\<forall>a \<in> set as. \<not> P a)"
proof (induction xs arbitrary: ys)
  case (Cons x xs)
  show ?case
  proof (cases "P x")
    case True
    with Cons.prems show ?thesis by (intro exI [of _ "[]"]) auto
  next
    case False
    with Cons.prems obtain zs where "replace_first P y xs = Some zs" "ys = x # zs" by auto
    then show ?thesis using Cons.IH [of zs] False by (metis append_Cons set_ConsD)
  qed
qed simp

lemma ReplaceRoutingByID_split:
  assumes "ReplaceRoutingByID i rc p = Inr p'"
  obtains as x bs where "pf_routing_configs p = as @ x # bs" "rc_id x = i"
    "p' = p\<lparr>pf_routing_configs := as @ rc\<lparr>rc_id := i\<rparr> # bs\<rparr>" "ValidateName (rc_name rc) = None"
    "\<forall>r \<in> set (as @ x # bs). rc_id r \<noteq> i \<longrightarrow> rc_name r \<noteq> rc_name rc"
proof -
  from assms obtain rs where rs: "replace_first (\<lambda>r. rc_id r = i) (rc\<lparr>rc_id := i\<rparr>) (pf_routing_configs p) = Some rs"
    "p' = p\<lparr>pf_routing_configs := rs\<rparr>" "ValidateName (rc_name rc) = None"
    "\<forall>r \<in> set (pf_routing_configs p). rc_id r \<noteq> i \<longrightarrow> rc_name r \<noteq> rc_name rc"
    by (auto simp: ReplaceRoutingByID_def list_ex_iff split: option.splits if_splits)
  from replace_first_split [OF rs(1)] show thesis
    using rs(2-4) that by metis
qed

lemma ReplaceRoutingByID_inv:
  assumes "profile_inv p" "ReplaceRoutingByID i rc p = Inr p'"
  shows "profile_inv p'"
proof -
  obtain as x bs where h: "pf_routing_configs p = as @ x # bs" "rc_id x = i"
    "p' = p\<lparr>pf_routing_configs := as @ rc\<lparr>rc_id := i\<rparr> # bs\<rparr>" "ValidateName (rc_name rc) = None"
    "\<forall>r \<in> set (as @ x # bs). rc_id r \<noteq> i \<longrightarrow> rc_name r \<noteq> rc_name rc"
    by (rule ReplaceRoutingByID_split [OF assms(2)])
  have "i \<notin> set (map rc_id (as @ bs))"
    using assms(1) h(1,2) by (simp add: profile_inv_def)
  then have "\<forall>r \<in> set (as @ bs). rc_id r \<noteq> i"
    by auto
  then have "rc_name rc \<notin> set (map rc_name (as @ bs))"
    using h(5) by auto
  then show ?thesis
    using assms(1) h(1-4) by (auto simp: profile_inv_def selection_ok_def split: option.splits)
qed

lemma RemoveRouting_inv: "profile_inv p \<Longrightarrow> profile_inv (fst (RemoveRouting i p))"
  using routing_sel.remove_ok [of p i]
  by (auto simp: profile_inv_def RemoveRouting_def Let_def distinct_map_filter split: if_splits)

lemma SetActiveRouting_inv: "profile_inv p \<Longrightarrow> SetActiveRouting i p = Inr p' \<Longrightarrow> profile_inv p'"
  using routing_sel.select_ok [of i p p']
  by (auto simp: profile_inv_def SetActiveRouting_def split: if_splits)

section \<open>Reachable profiles\<close>

text \<open>
  The mutators as steps, a step for each successful call, and the writes of the daemon through a pointer to a subscription or to a node, which keep the
  id and may change everything else. A config added without an id gets a
  fresh one; one added with an id of its own must not reuse an id (\<^verbatim>\<open>AddRouting\<close> does not check
  it, its caller looks the id up first).
\<close>

text \<open>A write through a pointer into a list, at the first element that matches.\<close>

fun update_first :: "('a \<Rightarrow> bool) \<Rightarrow> ('a \<Rightarrow> 'a) \<Rightarrow> 'a list \<Rightarrow> 'a list" where
  "update_first P f [] = []"
| "update_first P f (x # xs) = (if P x then f x # xs else x # update_first P f xs)"

lemma update_first_map: "(\<And>x. g (f x) = g x) \<Longrightarrow> map g (update_first P f xs) = map g xs"
  by (induction xs) auto

lemma update_first_cases:
  obtains "update_first P f xs = xs" | as x bs where "xs = as @ x # bs" "update_first P f xs = as @ f x # bs"
proof (induction xs arbitrary: thesis)
  case (Cons y ys)
  show ?case
  proof (cases "P y")
    case True
    then show ?thesis using Cons.prems(2) [of "[]" y ys] by simp
  next
    case False
    then show ?thesis
      by (rule_tac Cons.IH) (use Cons.prems(1) Cons.prems(2) [of "y # _"] in auto)
  qed
qed simp

inductive profile_step :: "user_profile \<Rightarrow> user_profile \<Rightarrow> bool" where
  add_node: "profile_step p (fst (AddNode n p))"
| add_group: "AddGroup newid g p = Inr (p', i) \<Longrightarrow> profile_step p p'"
| replace_group: "ReplaceGroupByID i g p = Inr p' \<Longrightarrow> profile_step p p'"
| remove_node: "profile_step p (fst (RemoveNodeByID i p))"
| set_active_node: "SetActiveNode i p = Inr p' \<Longrightarrow> profile_step p p'"
| add_subscription: "AddSubscription sub p = Inr (p', i) \<Longrightarrow> profile_step p p'"
| remove_subscription: "profile_step p (fst (RemoveSubscription i p))"
| replace_subscription_nodes: "profile_step p (ReplaceSubscriptionNodes s ns p)"
| add_routing: "AddRouting newid rc p = Inr (p', i) \<Longrightarrow> i \<notin> set (routing_ids p) \<Longrightarrow> profile_step p p'"
| replace_routing: "ReplaceRoutingByID i rc p = Inr p' \<Longrightarrow> profile_step p p'"
| remove_routing: "profile_step p (fst (RemoveRouting i p))"
| set_active_routing: "SetActiveRouting i p = Inr p' \<Longrightarrow> profile_step p p'"
| edit_subscription: "(\<And>s. sb_id (f s) = sb_id s) \<Longrightarrow> profile_step p (p\<lparr>pf_subscriptions := update_first P f (pf_subscriptions p)\<rparr>)"
| edit_node: "(\<And>n. nd_id (f n) = nd_id n) \<Longrightarrow> profile_step p (p\<lparr>pf_nodes := update_first P f (pf_nodes p)\<rparr>)"
| normalized: "profile_step p (normalize p)"
| migrated: "profile_step p (migrateSubscriptionIntervals p)"

lemmas mutator_inv =
  AddNode_inv AddGroup_inv ReplaceGroupByID_inv RemoveNodeByID_inv SetActiveNode_inv AddSubscription_inv
  RemoveSubscription_inv ReplaceSubscriptionNodes_inv AddRouting_inv ReplaceRoutingByID_inv
  RemoveRouting_inv SetActiveRouting_inv

lemma normalize_inv: "profile_inv (normalize p) = profile_inv p"
  by (simp add: profile_inv_def normalize_def)

lemma migrate_inv: "profile_inv (migrateSubscriptionIntervals p) = profile_inv p"
  by (simp add: profile_inv_def migrateSubscriptionIntervals_def)

lemma edit_inv:
  "profile_inv p \<Longrightarrow> profile_inv (p\<lparr>pf_subscriptions := ss\<rparr>)"
  "profile_inv p \<Longrightarrow> (\<And>n. nd_id (f n) = nd_id n) \<Longrightarrow> profile_inv (p\<lparr>pf_nodes := update_first P f (pf_nodes p)\<rparr>)"
  by (simp_all add: profile_inv_def update_first_map)

lemma profile_step_inv: "profile_step p p' \<Longrightarrow> profile_inv p \<Longrightarrow> profile_inv p'"
  by (induction rule: profile_step.induct) (auto simp: normalize_inv migrate_inv edit_inv intro: mutator_inv)

text \<open>The only way to two subscriptions with one URL: an edit that gives one of them the URL of another.\<close>

definition takes_url :: "user_profile \<Rightarrow> user_profile \<Rightarrow> bool" where
  "takes_url p p' = (\<exists>as s s' bs. pf_subscriptions p = as @ s # bs \<and> pf_subscriptions p' = as @ s' # bs \<and> sb_id s' = sb_id s \<and>
     sb_url s' \<noteq> sb_url s \<and> sb_url s' \<in> sb_url ` set (as @ bs))"

lemma edit_urls:
  assumes "urls_unique p" and "\<And>s. sb_id (f s) = sb_id s" and "p' = p\<lparr>pf_subscriptions := update_first P f (pf_subscriptions p)\<rparr>"
  shows "urls_unique p' \<or> takes_url p p'"
proof (rule update_first_cases [of P f "pf_subscriptions p"])
  fix as s bs assume u: "pf_subscriptions p = as @ s # bs" "update_first P f (pf_subscriptions p) = as @ f s # bs"
  show ?thesis
  proof (cases "sb_url (f s) \<in> sb_url ` set (as @ bs)")
    case True
    moreover have "sb_url s \<notin> sb_url ` set (as @ bs)" using assms(1) u(1) by (auto simp: urls_unique_def)
    ultimately have "sb_url (f s) \<noteq> sb_url s" by metis
    then have "takes_url p p'" unfolding takes_url_def using True u assms(2,3) by (intro exI [of _ as] exI [of _ s] exI [of _ "f s"] exI [of _ bs]) simp
    then show ?thesis ..
  next
    case False
    then show ?thesis using assms(1,3) u by (auto simp: urls_unique_def)
  qed
qed (use assms in \<open>simp add: urls_unique_def\<close>)

lemma profile_step_urls:
  assumes "profile_step p p'" and "urls_unique p"
  shows "urls_unique p' \<or> takes_url p p'"
  using assms
proof (cases rule: profile_step.cases)
  case (edit_subscription f P)
  then show ?thesis using edit_urls [OF assms(2)] by blast
next
  case (remove_subscription i)
  then show ?thesis using assms(2)
    by (auto simp: urls_unique_def RemoveSubscription_def Let_def ReplaceSubscriptionNodes_same(2) distinct_map_filter split: if_splits)
next
  case (add_subscription sub i)
  then show ?thesis using assms(2) by (auto simp: urls_unique_def AddSubscription_def list_ex_eq split: if_splits)
next
  case migrated
  then show ?thesis using assms(2) by (simp add: urls_unique_def migrateSubscriptionIntervals_def o_def if_distrib cong: if_cong)
qed (use assms(2) in \<open>auto simp: urls_unique_def AddNode_def AddGroup_def ReplaceGroupByID_def RemoveNodeByID_same SetActiveNode_def ReplaceSubscriptionNodes_same
    AddRouting_def ReplaceRoutingByID_def RemoveRouting_def SetActiveRouting_def normalize_def rbind_eq_Inr_iff Let_def split: if_splits option.splits\<close>)

inductive profile_reachable :: "user_profile \<Rightarrow> bool" where
  fresh: "profile_reachable (NewProfile newid name)"
| step: "profile_reachable p \<Longrightarrow> profile_step p p' \<Longrightarrow> profile_reachable p'"

lemma NewProfile_inv: "profile_inv (NewProfile newid name)"
  by (simp add: profile_inv_def NewProfile_def NewDefault_def ValidateName_def name_char_def)

text \<open>
  C9. In every profile built from a fresh one by any sequence of mutators and edits in place, the active node and
  the active routing config exist, routing ids and routing names are unique, and every routing name is a valid file name. Subscription URLs that are unique
  stay so at every step but one: an edit that gives a subscription the URL of another.
\<close>

theorem profile_reachable_inv:
  assumes "profile_reachable p"
  shows "profile_inv p \<and> (\<forall>p'. profile_step p p' \<and> urls_unique p \<longrightarrow> urls_unique p' \<or> takes_url p p')"
proof -
  have "profile_inv p" using assms by induction (auto simp: NewProfile_inv intro: profile_step_inv)
  then show ?thesis using profile_step_urls by blast
qed

theorem profile_reachable_inv_witness:
  "profile_inv (fst (RemoveRouting ''r'' (fst (AddNode (NewNode ''n'' sample_ss None) (NewProfile ''r'' ''p'')))))"
proof (rule profile_reachable_inv [THEN conjunct1])
  have "profile_reachable (fst (AddNode (NewNode ''n'' sample_ss None) (NewProfile ''r'' ''p'')))"
    using profile_reachable.fresh profile_step.add_node by (rule profile_reachable.step)
  then show "profile_reachable (fst (RemoveRouting ''r''
      (fst (AddNode (NewNode ''n'' sample_ss None) (NewProfile ''r'' ''p'')))))"
    using profile_step.remove_routing by (rule profile_reachable.step)
qed

text \<open>
  A refresh drops exactly the subscription's nodes and appends the new ones; a selection
  that survives is kept, any other is replaced by the first dialable node, or by none.
\<close>

theorem replace_subscription_nodes_selection:
  "pf_nodes (ReplaceSubscriptionNodes s ns p) = filter (\<lambda>n. nd_sub_id n \<noteq> Some s) (pf_nodes p) @ ns \<and>
   pf_active_node_id (ReplaceSubscriptionNodes s ns p) =
     (if \<exists>i \<in> set (node_ids (ReplaceSubscriptionNodes s ns p)). pf_active_node_id p = Some i
      then pf_active_node_id p
      else map_option nd_id (find (\<lambda>n. \<not> IsGroup n) (pf_nodes (ReplaceSubscriptionNodes s ns p))))"
  by (cases "pf_active_node_id p")
     (simp_all add: ReplaceSubscriptionNodes_nodes ReplaceSubscriptionNodes_active Let_def image_Un)

text \<open>
  Looking a node up by name finds a node whenever one has the name, and never lets a group
  shadow a dialable node of that name.
\<close>

theorem find_node_by_name_prefers_dialable:
  "(FindNodeByName p name = None \<longleftrightarrow> name \<notin> node_DisplayName ` set (pf_nodes p)) \<and>
   (\<forall>n. FindNodeByName p name = Some n \<longrightarrow> n \<in> set (pf_nodes p) \<and> node_DisplayName n = name \<and>
     (IsGroup n \<longrightarrow> (\<forall>m \<in> set (pf_nodes p). node_DisplayName m = name \<longrightarrow> IsGroup m)))"
  by (auto simp: FindNodeByName_def find_None_iff split: option.splits dest: find_SomeD)

theorem find_node_by_name_prefers_dialable_witness:
  "\<exists>n. FindNodeByName (fst (AddNode (NewNode ''n'' sample_ss None) (NewProfile ''r'' ''p''))) ''n'' = Some n \<and>
     \<not> IsGroup n"
proof -
  let ?p = "fst (AddNode (NewNode ''n'' sample_ss None) (NewProfile ''r'' ''p''))"
  have nodes: "pf_nodes ?p = [NewNode ''n'' sample_ss None]"
    by (simp add: AddNode_def NewProfile_def)
  have name: "node_DisplayName (NewNode ''n'' sample_ss None) = ''n''"
    by (simp add: node_DisplayName_def NewNode_def sample_ss_def accessors_defs)
  obtain n where n: "FindNodeByName ?p ''n'' = Some n"
    using find_node_by_name_prefers_dialable [of ?p "''n''"] nodes name by auto
  then have "n = NewNode ''n'' sample_ss None"
    using find_node_by_name_prefers_dialable [of ?p "''n''"] nodes by simp
  then show ?thesis using n by (simp add: IsGroup_def NewNode_def)
qed

lemma find_replaced:
  "\<forall>a \<in> set as. f a \<noteq> i \<Longrightarrow> f x = i \<Longrightarrow> f y = i \<Longrightarrow>
   find (\<lambda>r. f r = j) (as @ y # bs) = (if j = i then Some y else find (\<lambda>r. f r = j) (as @ x # bs))"
  by (induction as) auto

lemma ReplaceRoutingByID_first:
  assumes "ReplaceRoutingByID i rc p = Inr p'"
  shows "\<exists>as x bs. pf_routing_configs p = as @ x # bs \<and> rc_id x = i \<and> (\<forall>a \<in> set as. rc_id a \<noteq> i) \<and>
     p' = p\<lparr>pf_routing_configs := as @ rc\<lparr>rc_id := i\<rparr> # bs\<rparr>"
  using assms by (auto simp: ReplaceRoutingByID_def split: option.splits if_splits dest!: replace_first_split)

text \<open>
  Editing a routing config keeps its slot and its id: the active selection still resolves,
  to the edited config when that was the active one and to the same config otherwise.
\<close>

theorem replace_routing_keeps_selection:
  assumes "ReplaceRoutingByID i rc p = Inr p'"
  shows "routing_ids p' = routing_ids p \<and> pf_active_routing_id p' = pf_active_routing_id p \<and>
     ActiveRouting p' = (if pf_active_routing_id p = Some i then Some (rc\<lparr>rc_id := i\<rparr>) else ActiveRouting p)"
proof -
  obtain as x bs where h: "pf_routing_configs p = as @ x # bs" "rc_id x = i" "\<forall>a \<in> set as. rc_id a \<noteq> i"
    "p' = p\<lparr>pf_routing_configs := as @ rc\<lparr>rc_id := i\<rparr> # bs\<rparr>"
    using ReplaceRoutingByID_first [OF assms] by blast
  have "find (\<lambda>r. rc_id r = j) (as @ rc\<lparr>rc_id := i\<rparr> # bs) =
      (if j = i then Some (rc\<lparr>rc_id := i\<rparr>) else find (\<lambda>r. rc_id r = j) (as @ x # bs))" for j
    by (rule find_replaced [where i = i]) (use h in auto)
  then show ?thesis
    using h by (cases "pf_active_routing_id p") (simp_all add: ActiveRouting_def)
qed

theorem replace_routing_keeps_selection_witness:
  "\<exists>p'. ReplaceRoutingByID ''r'' (NewDefault ''x'') (NewProfile ''r'' ''p'') = Inr p' \<and>
     ActiveRouting p' = Some (NewDefault ''r'')"
proof -
  obtain p' where p': "ReplaceRoutingByID ''r'' (NewDefault ''x'') (NewProfile ''r'' ''p'') = Inr p'"
    by (simp add: ReplaceRoutingByID_def NewDefault_def NewProfile_def ValidateName_def name_char_def)
  then show ?thesis
    using replace_routing_keeps_selection [OF p'] by (simp add: NewProfile_def NewDefault_def)
qed

text \<open>
  Removing a node removes every node with its id and only those, reports whether there was
  one, never leaves the selection dangling, and does not elect a replacement.
\<close>

theorem remove_node_selection:
  "pf_nodes (fst (RemoveNodeByID i p)) = filter (\<lambda>n. nd_id n \<noteq> i) (pf_nodes p) \<and>
   (snd (RemoveNodeByID i p) \<longleftrightarrow> i \<in> set (node_ids p)) \<and>
   pf_active_node_id (fst (RemoveNodeByID i p)) =
     (if pf_active_node_id p = Some i \<and> i \<in> set (node_ids p) then None else pf_active_node_id p)"
  using node_sel.remove_flag [of i p] node_sel.remove_active [of i p]
  by (simp add: RemoveNodeByID_def Let_def)

text \<open>
  The name check that guards file names and routing names accepts the dot-dot name, which
  its comment lists among the rejected ones; no accepted name contains a path separator.
\<close>

theorem validate_name_no_separator:
  "ValidateName ''..'' = None \<and>
   (\<forall>name. ValidateName name = None \<longrightarrow> CHR ''/'' \<notin> set name \<and> CHR 0x5C \<notin> set name \<and> CHR 0x20 \<notin> set name)"
  by (auto simp: ValidateName_def name_char_def list_all_iff split: if_splits)

theorem validate_name_no_separator_witness:
  "ValidateName ''..'' = None \<and> CHR ''/'' \<notin> set ''..''"
  using validate_name_no_separator by blast

end
