(* ===== verification/Store_Codec.thy ===== *)
theory Store_Codec
  imports Store_Profile
begin

text \<open>
  The stored form of a profile: \<^verbatim>\<open>encoding/json\<close> over the structs of
  \<^verbatim>\<open>daemon-go/internal/store/profile.go\<close>, with the tagged \<^verbatim>\<open>ProfileDoc\<close> union.

  Arguments of the definitions: \<open>iter\<close>, the order in which a \<^verbatim>\<open>range\<close> visits a map;
  \<open>fmt_time\<close> and \<open>parse_time\<close>, the text form of an instant; \<open>newid\<close>, the fresh id given to the
  stored routing config at a position when it has none.

  Main result: a stored profile decodes to the profile that was encoded.
\<close>

section \<open>Node documents\<close>

definition MarshalDoc :: "profile option \<Rightarrow> json" where
  "MarshalDoc d = (case d of None \<Rightarrow> JNull | Some p \<Rightarrow> EncodeProfileDoc p)"

definition UnmarshalDoc :: "(json obj \<Rightarrow> json obj) \<Rightarrow> json \<Rightarrow> profile option decoded" where
  "UnmarshalDoc iter j = (case j of
     JNull \<Rightarrow> Inr None
   | JObj ob \<Rightarrow> (case iter (to_map ob) of
       [] \<Rightarrow> Inl EmptyProfile
     | (k, raw) # _ \<Rightarrow> rbind (DecodeProfile k raw) (\<lambda>p. Inr (Some p)))
   | _ \<Rightarrow> Inl BadType)"

definition enc_group_probe :: "group_probe \<Rightarrow> json" where
  "enc_group_probe g = JObj (
     omit_when (gp_url g = []) ''url'' (JStr (gp_url g)) @
     omit_when (gp_interval_sec g = 0) ''interval_sec'' (enc_word (gp_interval_sec g)) @
     omit_when (gp_tolerance g = 0) ''tolerance'' (enc_word (gp_tolerance g)))"

definition dec_group_probe :: "json \<Rightarrow> group_probe decoded" where
  "dec_group_probe = dec_struct (\<lambda>ob.
     rbind (dec_field dec_string [] ''url'' ob) (\<lambda>u.
     rbind (dec_field dec_word 0 ''interval_sec'' ob) (\<lambda>i.
     rbind (dec_field dec_word 0 ''tolerance'' ob) (\<lambda>t.
     Inr \<lparr>gp_url = u, gp_interval_sec = i, gp_tolerance = t\<rparr>))))"

abbreviation zero_probe :: group_probe where
  "zero_probe \<equiv> \<lparr>gp_url = [], gp_interval_sec = 0, gp_tolerance = 0\<rparr>"

definition enc_group_spec :: "group_spec \<Rightarrow> json" where
  "enc_group_spec g = JObj ([(''name'', JStr (gs_name g))] @
     omit_when (gs_members g = []) ''members'' (enc_strings (gs_members g)) @
     omit_when (gs_all_of_sub g = None) ''all_of_sub'' (enc_ptr JStr (gs_all_of_sub g)) @
     [(''probe'', enc_group_probe (gs_probe g))])"

definition dec_group_spec :: "json \<Rightarrow> group_spec decoded" where
  "dec_group_spec = dec_struct (\<lambda>ob.
     rbind (dec_field dec_string [] ''name'' ob) (\<lambda>n.
     rbind (dec_field (dec_list dec_string) [] ''members'' ob) (\<lambda>m.
     rbind (dec_field (dec_ptr dec_string) None ''all_of_sub'' ob) (\<lambda>a.
     rbind (dec_field dec_group_probe zero_probe ''probe'' ob) (\<lambda>p.
     Inr \<lparr>gs_name = n, gs_members = m, gs_all_of_sub = a, gs_probe = p\<rparr>)))))"

definition enc_prefs :: "string option \<Rightarrow> json" where
  "enc_prefs core = JObj [(''core_override'', enc_ptr JStr core)]"

definition dec_prefs :: "json \<Rightarrow> string option decoded" where
  "dec_prefs = dec_struct (dec_field (dec_ptr dec_string) None ''core_override'')"

definition enc_node :: "node \<Rightarrow> json" where
  "enc_node n = JObj ([(''id'', JStr (nd_id n)), (''sub_id'', enc_ptr JStr (nd_sub_id n)),
       (''profile'', MarshalDoc (nd_doc n))] @
     omit_when (nd_group n = None) ''group'' (enc_ptr enc_group_spec (nd_group n)) @
     [(''preferences'', enc_prefs (nd_core_override n))])"

definition dec_node :: "(json obj \<Rightarrow> json obj) \<Rightarrow> json \<Rightarrow> node decoded" where
  "dec_node iter = dec_struct (\<lambda>ob.
     rbind (dec_field dec_string [] ''id'' ob) (\<lambda>i.
     rbind (dec_field (dec_ptr dec_string) None ''sub_id'' ob) (\<lambda>s.
     rbind (dec_field (UnmarshalDoc iter) None ''profile'' ob) (\<lambda>d.
     rbind (dec_field (dec_ptr dec_group_spec) None ''group'' ob) (\<lambda>g.
     rbind (dec_field dec_prefs None ''preferences'' ob) (\<lambda>c.
     Inr \<lparr>nd_id = i, nd_sub_id = s, nd_doc = d, nd_group = g, nd_core_override = c\<rparr>))))))"

section \<open>Subscriptions\<close>

text \<open>The zero \<^verbatim>\<open>time.Time\<close> is the start of year 1.\<close>

definition zero_time :: int where
  "zero_time = - 62135596800000000000"

definition dec_time :: "(string \<Rightarrow> int option) \<Rightarrow> json \<Rightarrow> int decoded" where
  "dec_time parse_time j = (case j of
     JNull \<Rightarrow> Inr zero_time
   | JStr s \<Rightarrow> (case parse_time s of None \<Rightarrow> Inl BadType | Some t \<Rightarrow> Inr t)
   | _ \<Rightarrow> Inl BadType)"

definition enc_subscription :: "(int \<Rightarrow> string) \<Rightarrow> subscription \<Rightarrow> json" where
  "enc_subscription fmt_time s = JObj ([(''id'', JStr (sb_id s)), (''name'', JStr (sb_name s)), (''url'', JStr (sb_url s)),
       (''last_updated'', JStr (fmt_time (sb_last_updated s))),
       (''update_interval_sec'', enc_word (sb_update_interval_sec s)), (''enabled'', JBool (sb_enabled s)),
       (''allow_invalid_certs'', JBool (sb_allow_invalid_certs s))] @
     omit_when (sb_format s = []) ''format'' (JStr (sb_format s)) @
     omit_when (sb_last_error s = []) ''last_error'' (JStr (sb_last_error s)))"

definition dec_subscription :: "(string \<Rightarrow> int option) \<Rightarrow> json \<Rightarrow> subscription decoded" where
  "dec_subscription parse_time = dec_struct (\<lambda>ob.
     rbind (dec_field dec_string [] ''id'' ob) (\<lambda>i.
     rbind (dec_field dec_string [] ''name'' ob) (\<lambda>n.
     rbind (dec_field dec_string [] ''url'' ob) (\<lambda>u.
     rbind (dec_field (dec_time parse_time) zero_time ''last_updated'' ob) (\<lambda>t.
     rbind (dec_field dec_word 0 ''update_interval_sec'' ob) (\<lambda>v.
     rbind (dec_field dec_bool False ''enabled'' ob) (\<lambda>e.
     rbind (dec_field dec_bool False ''allow_invalid_certs'' ob) (\<lambda>a.
     rbind (dec_field dec_string [] ''format'' ob) (\<lambda>f.
     rbind (dec_field dec_string [] ''last_error'' ob) (\<lambda>er.
     Inr \<lparr>sb_id = i, sb_name = n, sb_url = u, sb_last_updated = t, sb_update_interval_sec = v,
          sb_enabled = e, sb_allow_invalid_certs = a, sb_format = f, sb_last_error = er\<rparr>))))))))))"

section \<open>The profile document\<close>

definition MarshalProfile :: "(int \<Rightarrow> string) \<Rightarrow> user_profile \<Rightarrow> encode_error + json" where
  "MarshalProfile fmt_time p =
     rbind (traverse MarshalConfig (pf_routing_configs p)) (\<lambda>rs.
     Inr (JObj [(''schema_version'', enc_word (pf_schema_version p)), (''name'', JStr (pf_name p)),
       (''active_node_id'', enc_ptr JStr (pf_active_node_id p)),
       (''subscriptions'', JArr (map (enc_subscription fmt_time) (pf_subscriptions p))),
       (''nodes'', JArr (map enc_node (pf_nodes p))),
       (''routing_configs'', JArr rs),
       (''active_routing_id'', enc_ptr JStr (pf_active_routing_id p))]))"

text \<open>The config at position \<open>k\<close> draws \<open>newid k\<close> when it needs an id.\<close>

fun dec_configs :: "(nat \<Rightarrow> string) \<Rightarrow> json \<Rightarrow> routing_config list decoded" where
  "dec_configs newid (JArr js) = traverse (\<lambda>(k, j). UnmarshalConfig (newid k) j) (enumerate 0 js)"
| "dec_configs newid JNull = Inr []"
| "dec_configs newid _ = Inl BadType"

definition UnmarshalProfile ::
  "(json obj \<Rightarrow> json obj) \<Rightarrow> (string \<Rightarrow> int option) \<Rightarrow> (nat \<Rightarrow> string) \<Rightarrow> json \<Rightarrow> user_profile decoded" where
  "UnmarshalProfile iter parse_time newid = dec_struct (\<lambda>ob.
     rbind (dec_field dec_word 0 ''schema_version'' ob) (\<lambda>v.
     rbind (dec_field dec_string [] ''name'' ob) (\<lambda>n.
     rbind (dec_field (dec_ptr dec_string) None ''active_node_id'' ob) (\<lambda>an.
     rbind (dec_field (dec_list (dec_subscription parse_time)) [] ''subscriptions'' ob) (\<lambda>ss.
     rbind (dec_field (dec_list (dec_node iter)) [] ''nodes'' ob) (\<lambda>ns.
     rbind (dec_field (dec_configs newid) [] ''routing_configs'' ob) (\<lambda>rs.
     rbind (dec_field (dec_ptr dec_string) None ''active_routing_id'' ob) (\<lambda>ar.
     Inr \<lparr>pf_schema_version = v, pf_name = n, pf_active_node_id = an, pf_subscriptions = ss, pf_nodes = ns,
          pf_routing_configs = rs, pf_active_routing_id = ar\<rparr>))))))))"

section \<open>Round trips\<close>

lemma ToLower_store_fields [simp]:
  "ToLower ''interval_sec'' = ''interval_sec''" "ToLower ''tolerance'' = ''tolerance''"
  "ToLower ''members'' = ''members''" "ToLower ''all_of_sub'' = ''all_of_sub''" "ToLower ''probe'' = ''probe''"
  "ToLower ''core_override'' = ''core_override''" "ToLower ''sub_id'' = ''sub_id''" "ToLower ''profile'' = ''profile''"
  "ToLower ''group'' = ''group''" "ToLower ''preferences'' = ''preferences''"
  "ToLower ''last_updated'' = ''last_updated''" "ToLower ''update_interval_sec'' = ''update_interval_sec''"
  "ToLower ''enabled'' = ''enabled''" "ToLower ''allow_invalid_certs'' = ''allow_invalid_certs''"
  "ToLower ''last_error'' = ''last_error''" "ToLower ''schema_version'' = ''schema_version''"
  "ToLower ''active_node_id'' = ''active_node_id''" "ToLower ''subscriptions'' = ''subscriptions''"
  "ToLower ''nodes'' = ''nodes''" "ToLower ''routing_configs'' = ''routing_configs''"
  "ToLower ''active_routing_id'' = ''active_routing_id''"
  by code_simp+

lemma dec_enc_string_ptr [simp]: "dec_ptr dec_string (enc_ptr JStr x) = Inr x"
  by (rule dec_enc_ptr) simp_all

lemma dec_enc_group_probe: "dec_group_probe (enc_group_probe g) = Inr g"
  by (simp add: dec_group_probe_def enc_group_probe_def codec_simps)

lemma dec_enc_group_spec: "dec_group_spec (enc_group_spec g) = Inr g"
  by (simp add: dec_group_spec_def enc_group_spec_def codec_simps dec_enc_group_probe)

lemma dec_enc_prefs: "dec_prefs (enc_prefs c) = Inr c"
  by (simp add: dec_prefs_def enc_prefs_def codec_simps)

text \<open>A map iteration visits every entry once, in some order.\<close>

definition visits :: "(json obj \<Rightarrow> json obj) \<Rightarrow> bool" where
  "visits iter = (\<forall>m. set (iter m) = set m \<and> length (iter m) = length m)"

lemma visits_single:
  assumes "visits iter"
  shows "iter [x] = [x]"
proof -
  have "set (iter [x]) = {x}" "length (iter [x]) = Suc 0"
    using assms by (simp_all add: visits_def)
  then show ?thesis by (cases "iter [x]") auto
qed

lemma to_map_single: "to_map [(k, v)] = [(k, v)]"
  by (rule to_map_id) (simp add: obj_ok_def)

lemma Unmarshal_Marshal_doc:
  assumes "visits iter" "\<forall>p. d = Some p \<longrightarrow> profile_ok p"
  shows "UnmarshalDoc iter (MarshalDoc d) = Inr d"
  using assms
  by (cases d) (simp_all add: UnmarshalDoc_def MarshalDoc_def EncodeProfileDoc_def to_map_single visits_single
      DecodeProfile_Encode)

definition node_storable :: "node \<Rightarrow> bool" where
  "node_storable n = (case nd_doc n of None \<Rightarrow> True | Some p \<Rightarrow> profile_ok p)"

lemma dec_enc_group_ptr: "dec_ptr dec_group_spec (enc_ptr enc_group_spec g) = Inr g"
  by (rule dec_enc_ptr) (simp_all add: dec_enc_group_spec, simp add: enc_group_spec_def)

lemma dec_enc_node: "visits iter \<Longrightarrow> node_storable n \<Longrightarrow> dec_node iter (enc_node n) = Inr n"
  by (simp add: dec_node_def enc_node_def codec_simps Unmarshal_Marshal_doc dec_enc_group_ptr dec_enc_prefs
      node_storable_def split: option.splits)

lemma dec_enc_subscription:
  "parse_time (fmt_time (sb_last_updated s)) = Some (sb_last_updated s) \<Longrightarrow>
   dec_subscription parse_time (enc_subscription fmt_time s) = Inr s"
  by (simp add: dec_subscription_def enc_subscription_def codec_simps dec_time_def)

definition profile_storable :: "user_profile \<Rightarrow> bool" where
  "profile_storable p = ((\<forall>n \<in> set (pf_nodes p). node_storable n) \<and> (\<forall>c \<in> set (pf_routing_configs p). config_ok c))"

lemma Unmarshal_Marshal_configs:
  assumes "\<forall>c \<in> set cs. config_ok c"
  shows "\<exists>js. traverse MarshalConfig cs = Inr js \<and>
     traverse (\<lambda>(k, j). UnmarshalConfig (newid k) j) (enumerate m js) = Inr cs"
  using assms
proof (induction cs arbitrary: m)
  case (Cons c cs)
  obtain j where j: "MarshalConfig c = Inr j" "UnmarshalConfig (newid m) j = Inr c"
    using Unmarshal_Marshal_config [of c "newid m"] Cons.prems by auto
  obtain js where "traverse MarshalConfig cs = Inr js"
    "traverse (\<lambda>(k, j). UnmarshalConfig (newid k) j) (enumerate (Suc m) js) = Inr cs"
    using Cons.IH [of "Suc m"] Cons.prems by auto
  with j show ?case by simp
qed simp

lemma Unmarshal_Marshal_profile:
  assumes "visits iter" "profile_storable p"
    and "\<forall>s \<in> set (pf_subscriptions p). parse_time (fmt_time (sb_last_updated s)) = Some (sb_last_updated s)"
  shows "\<exists>j. MarshalProfile fmt_time p = Inr j \<and> UnmarshalProfile iter parse_time newid j = Inr p \<and>
     dec_struct (dec_field dec_word 0 ''schema_version'') j = Inr (pf_schema_version p)"
proof -
  obtain js where js: "traverse MarshalConfig (pf_routing_configs p) = Inr js"
    "traverse (\<lambda>(k, j). UnmarshalConfig (newid k) j) (enumerate 0 js) = Inr (pf_routing_configs p)"
    using Unmarshal_Marshal_configs [of "pf_routing_configs p" newid 0] assms(2) by (auto simp: profile_storable_def)
  have "traverse (dec_subscription parse_time) (map (enc_subscription fmt_time) (pf_subscriptions p)) = Inr (pf_subscriptions p)"
    by (rule traverse_map_Inr) (use assms(3) in \<open>simp add: dec_enc_subscription\<close>)
  moreover have "traverse (dec_node iter) (map enc_node (pf_nodes p)) = Inr (pf_nodes p)"
    by (rule traverse_map_Inr) (use assms(1,2) in \<open>simp add: dec_enc_node profile_storable_def\<close>)
  ultimately show ?thesis
    using js by (simp add: MarshalProfile_def UnmarshalProfile_def codec_simps)
qed

end
