(* ===== verification/Store_Settings.thy ===== *)
theory Store_Settings
  imports Store_Files
begin

text \<open>
  The daemon settings (\<^verbatim>\<open>daemon-go/internal/api/settings.go\<close>, \<^verbatim>\<open>daemon-go/internal/store/settings.go\<close>):
  the document, its defaults per operating system, validation, and decoding over the defaults.

  Decoding here is \<^verbatim>\<open>json.Unmarshal\<close> into a value that already holds the defaults: members are
  applied in order to the current value, an absent or null member keeps it, and an array
  element is decoded over the element that stood at its place.

  Arguments: \<open>goos\<close> (\<^verbatim>\<open>runtime.GOOS\<close>), \<open>addr_ok\<close> and \<open>prefix_ok\<close> (\<^verbatim>\<open>netip.ParseAddr\<close> and
  \<^verbatim>\<open>netip.ParsePrefix\<close> succeed), \<open>url_parse\<close> (\<^verbatim>\<open>url.Parse\<close>).
\<close>

section \<open>The document\<close>

record dns_server =
  ds_type :: string
  ds_address :: string

record dns_settings =
  dn_servers :: "dns_server list"
  dn_strategy :: string
  dn_via_tunnel :: bool

record lan_bypass =
  lb_enabled :: bool
  lb_cidrs :: "string list"

record tun_settings =
  tn_mtu :: int
  tn_stack :: string
  tn_strict_route :: bool

record probe_settings =
  pr_url :: string
  pr_budget_secs :: int

record settings =
  st_log_level :: string
  st_ip_version :: string
  st_dns :: dns_settings
  st_lan_bypass :: lan_bypass
  st_restore_on_start :: bool
  st_subscription_user_agent :: string
  st_socks_port :: int
  st_tun :: tun_settings
  st_latency_probe :: probe_settings
  st_auto_update :: bool
  st_update_via_tunnel :: bool
  st_update_via_direct :: bool

definition defaultRestoreOnStart :: "string \<Rightarrow> bool" where
  "defaultRestoreOnStart goos = (goos \<noteq> ''windows'')"

definition defaultIPVersion :: "string \<Rightarrow> string" where
  "defaultIPVersion goos = (if goos = ''windows'' then ''v4'' else ''both'')"

definition DefaultSettings :: "string \<Rightarrow> settings" where
  "DefaultSettings goos = \<lparr>
     st_log_level = ''info'', st_ip_version = defaultIPVersion goos,
     st_dns = \<lparr>dn_servers = [\<lparr>ds_type = ''tls'', ds_address = ''8.8.8.8''\<rparr>], dn_strategy = ''prefer_ipv4'',
               dn_via_tunnel = False\<rparr>,
     st_lan_bypass = \<lparr>lb_enabled = True, lb_cidrs = [''169.254.0.0/16'', ''fc00::/7'', ''fe80::/10'']\<rparr>,
     st_restore_on_start = defaultRestoreOnStart goos, st_subscription_user_agent = ''v2rayN/6.23'',
     st_socks_port = 10808,
     st_tun = \<lparr>tn_mtu = 1500, tn_stack = ''mixed'', tn_strict_route = True\<rparr>,
     st_latency_probe = \<lparr>pr_url = ''https://www.gstatic.com/generate_204'', pr_budget_secs = 45\<rparr>,
     st_auto_update = True, st_update_via_tunnel = True, st_update_via_direct = True\<rparr>"

section \<open>Validation\<close>

datatype settings_error =
    BadLogLevel string
  | BadIPVersion string
  | BadDNSStrategy string
  | NoDNSServer
  | BadDNSType string
  | BadDNSAddress string
  | BadCIDR string
  | NoUserAgent
  | BadSocksPort int
  | BadMTU int
  | BadStack string
  | BadProbeURL string
  | BadProbeBudget int

fun check_servers :: "(string \<Rightarrow> bool) \<Rightarrow> dns_server list \<Rightarrow> settings_error option" where
  "check_servers addr_ok [] = None"
| "check_servers addr_ok (s # ss) =
    (if ds_type s \<notin> {''udp'', ''tls'', ''https''} then Some (BadDNSType (ds_type s))
     else if \<not> addr_ok (ds_address s) then Some (BadDNSAddress (ds_address s))
     else check_servers addr_ok ss)"

fun check_cidrs :: "(string \<Rightarrow> bool) \<Rightarrow> string list \<Rightarrow> settings_error option" where
  "check_cidrs prefix_ok [] = None"
| "check_cidrs prefix_ok (c # cs) = (if \<not> prefix_ok c then Some (BadCIDR c) else check_cidrs prefix_ok cs)"

definition probe_url_ok :: "(string \<Rightarrow> url option) \<Rightarrow> string \<Rightarrow> bool" where
  "probe_url_ok url_parse s = (case url_parse s of
     None \<Rightarrow> False | Some u \<Rightarrow> (u_scheme u = ''http'' \<or> u_scheme u = ''https'') \<and> u_host u \<noteq> [])"

definition ValidateSettings ::
  "(string \<Rightarrow> bool) \<Rightarrow> (string \<Rightarrow> bool) \<Rightarrow> (string \<Rightarrow> url option) \<Rightarrow> settings \<Rightarrow> settings_error option" where
  "ValidateSettings addr_ok prefix_ok url_parse s =
    (if st_log_level s \<notin> {''error'', ''warn'', ''info'', ''debug''} then Some (BadLogLevel (st_log_level s))
     else if st_ip_version s \<notin> {''v4'', ''v6'', ''both''} then Some (BadIPVersion (st_ip_version s))
     else if dn_strategy (st_dns s) \<notin> {[], ''prefer_ipv4'', ''prefer_ipv6'', ''ipv4_only'', ''ipv6_only''}
     then Some (BadDNSStrategy (dn_strategy (st_dns s)))
     else if dn_servers (st_dns s) = [] then Some NoDNSServer
     else case check_servers addr_ok (dn_servers (st_dns s)) of Some e \<Rightarrow> Some e | None \<Rightarrow>
     (case check_cidrs prefix_ok (lb_cidrs (st_lan_bypass s)) of Some e \<Rightarrow> Some e | None \<Rightarrow>
     if st_subscription_user_agent s = [] then Some NoUserAgent
     else if st_socks_port s < 1 \<or> st_socks_port s > 65535 then Some (BadSocksPort (st_socks_port s))
     else if tn_mtu (st_tun s) < 576 \<or> tn_mtu (st_tun s) > 65535 then Some (BadMTU (tn_mtu (st_tun s)))
     else if tn_stack (st_tun s) \<notin> {''system'', ''gvisor'', ''mixed''} then Some (BadStack (tn_stack (st_tun s)))
     else if \<not> probe_url_ok url_parse (pr_url (st_latency_probe s)) then Some (BadProbeURL (pr_url (st_latency_probe s)))
     else if pr_budget_secs (st_latency_probe s) < 5 \<or> pr_budget_secs (st_latency_probe s) > 300
     then Some (BadProbeBudget (pr_budget_secs (st_latency_probe s)))
     else None))"

section \<open>Decoding over a value\<close>

fun over_string :: "string \<Rightarrow> json \<Rightarrow> string decoded" where
  "over_string cur (JStr s) = Inr s"
| "over_string cur JNull = Inr cur"
| "over_string cur _ = Inl BadType"

fun over_bool :: "bool \<Rightarrow> json \<Rightarrow> bool decoded" where
  "over_bool cur (JBool b) = Inr b"
| "over_bool cur JNull = Inr cur"
| "over_bool cur _ = Inl BadType"

fun over_int :: "int \<Rightarrow> json \<Rightarrow> int decoded" where
  "over_int cur (JInt i) = (if int64 i then Inr i else Inl BadType)"
| "over_int cur JNull = Inr cur"
| "over_int cur _ = Inl BadType"

text \<open>The members of an object applied in order to the current value.\<close>

fun over_members :: "(string \<Rightarrow> json \<Rightarrow> 'a \<Rightarrow> 'a decoded) \<Rightarrow> 'a \<Rightarrow> (string \<times> json) list \<Rightarrow> 'a decoded" where
  "over_members upd cur [] = Inr cur"
| "over_members upd cur ((k, v) # ms) = rbind (upd (ToLower k) v cur) (\<lambda>c. over_members upd c ms)"

definition over_struct :: "(string \<Rightarrow> json \<Rightarrow> 'a \<Rightarrow> 'a decoded) \<Rightarrow> 'a \<Rightarrow> json \<Rightarrow> 'a decoded" where
  "over_struct upd cur j = (case j of JObj ob \<Rightarrow> over_members upd cur ob | JNull \<Rightarrow> Inr cur | _ \<Rightarrow> Inl BadType)"

text \<open>An array decoded into a slice: element \<open>i\<close> over the old element \<open>i\<close>, or over the zero value.\<close>

fun over_elems :: "('a \<Rightarrow> json \<Rightarrow> 'a decoded) \<Rightarrow> 'a \<Rightarrow> 'a list \<Rightarrow> json list \<Rightarrow> 'a list decoded" where
  "over_elems dec zero old [] = Inr []"
| "over_elems dec zero old (j # js) =
    rbind (dec (case old of [] \<Rightarrow> zero | x # _ \<Rightarrow> x) j) (\<lambda>y.
    rbind (over_elems dec zero (case old of [] \<Rightarrow> [] | _ # r \<Rightarrow> r) js) (\<lambda>ys. Inr (y # ys)))"

definition over_slice :: "('a \<Rightarrow> json \<Rightarrow> 'a decoded) \<Rightarrow> 'a \<Rightarrow> 'a list \<Rightarrow> json \<Rightarrow> 'a list decoded" where
  "over_slice dec zero old j = (case j of JArr js \<Rightarrow> over_elems dec zero old js | JNull \<Rightarrow> Inr [] | _ \<Rightarrow> Inl BadType)"

definition set_field :: "('f \<Rightarrow> json \<Rightarrow> 'f decoded) \<Rightarrow> 'f \<Rightarrow> ('f \<Rightarrow> 'a) \<Rightarrow> json \<Rightarrow> 'a decoded" where
  "set_field dec cur put v = rbind (dec cur v) (\<lambda>x. Inr (put x))"

definition over_dns_server :: "dns_server \<Rightarrow> json \<Rightarrow> dns_server decoded" where
  "over_dns_server = over_struct (\<lambda>k v s.
     if k = ''type'' then set_field over_string (ds_type s) (\<lambda>x. s\<lparr>ds_type := x\<rparr>) v
     else if k = ''address'' then set_field over_string (ds_address s) (\<lambda>x. s\<lparr>ds_address := x\<rparr>) v
     else Inr s)"

definition over_dns :: "dns_settings \<Rightarrow> json \<Rightarrow> dns_settings decoded" where
  "over_dns = over_struct (\<lambda>k v s.
     if k = ''servers'' then
       set_field (over_slice over_dns_server \<lparr>ds_type = [], ds_address = []\<rparr>) (dn_servers s) (\<lambda>x. s\<lparr>dn_servers := x\<rparr>) v
     else if k = ''strategy'' then set_field over_string (dn_strategy s) (\<lambda>x. s\<lparr>dn_strategy := x\<rparr>) v
     else if k = ''via_tunnel'' then set_field over_bool (dn_via_tunnel s) (\<lambda>x. s\<lparr>dn_via_tunnel := x\<rparr>) v
     else Inr s)"

definition over_lan :: "lan_bypass \<Rightarrow> json \<Rightarrow> lan_bypass decoded" where
  "over_lan = over_struct (\<lambda>k v s.
     if k = ''enabled'' then set_field over_bool (lb_enabled s) (\<lambda>x. s\<lparr>lb_enabled := x\<rparr>) v
     else if k = ''cidrs'' then set_field (over_slice over_string []) (lb_cidrs s) (\<lambda>x. s\<lparr>lb_cidrs := x\<rparr>) v
     else Inr s)"

definition over_tun :: "tun_settings \<Rightarrow> json \<Rightarrow> tun_settings decoded" where
  "over_tun = over_struct (\<lambda>k v s.
     if k = ''mtu'' then set_field over_int (tn_mtu s) (\<lambda>x. s\<lparr>tn_mtu := x\<rparr>) v
     else if k = ''stack'' then set_field over_string (tn_stack s) (\<lambda>x. s\<lparr>tn_stack := x\<rparr>) v
     else if k = ''strict_route'' then set_field over_bool (tn_strict_route s) (\<lambda>x. s\<lparr>tn_strict_route := x\<rparr>) v
     else Inr s)"

definition over_probe :: "probe_settings \<Rightarrow> json \<Rightarrow> probe_settings decoded" where
  "over_probe = over_struct (\<lambda>k v s.
     if k = ''url'' then set_field over_string (pr_url s) (\<lambda>x. s\<lparr>pr_url := x\<rparr>) v
     else if k = ''budget_secs'' then set_field over_int (pr_budget_secs s) (\<lambda>x. s\<lparr>pr_budget_secs := x\<rparr>) v
     else Inr s)"

definition upd_settings :: "string \<Rightarrow> json \<Rightarrow> settings \<Rightarrow> settings decoded" where
  "upd_settings k v s =
    (if k = ''log_level'' then set_field over_string (st_log_level s) (\<lambda>x. s\<lparr>st_log_level := x\<rparr>) v
     else if k = ''ip_version'' then set_field over_string (st_ip_version s) (\<lambda>x. s\<lparr>st_ip_version := x\<rparr>) v
     else if k = ''dns'' then set_field over_dns (st_dns s) (\<lambda>x. s\<lparr>st_dns := x\<rparr>) v
     else if k = ''lan_bypass'' then set_field over_lan (st_lan_bypass s) (\<lambda>x. s\<lparr>st_lan_bypass := x\<rparr>) v
     else if k = ''restore_on_start'' then set_field over_bool (st_restore_on_start s) (\<lambda>x. s\<lparr>st_restore_on_start := x\<rparr>) v
     else if k = ''subscription_user_agent'' then
       set_field over_string (st_subscription_user_agent s) (\<lambda>x. s\<lparr>st_subscription_user_agent := x\<rparr>) v
     else if k = ''socks_port'' then set_field over_int (st_socks_port s) (\<lambda>x. s\<lparr>st_socks_port := x\<rparr>) v
     else if k = ''tun'' then set_field over_tun (st_tun s) (\<lambda>x. s\<lparr>st_tun := x\<rparr>) v
     else if k = ''latency_probe'' then set_field over_probe (st_latency_probe s) (\<lambda>x. s\<lparr>st_latency_probe := x\<rparr>) v
     else if k = ''auto_update'' then set_field over_bool (st_auto_update s) (\<lambda>x. s\<lparr>st_auto_update := x\<rparr>) v
     else if k = ''update_via_tunnel'' then set_field over_bool (st_update_via_tunnel s) (\<lambda>x. s\<lparr>st_update_via_tunnel := x\<rparr>) v
     else if k = ''update_via_direct'' then set_field over_bool (st_update_via_direct s) (\<lambda>x. s\<lparr>st_update_via_direct := x\<rparr>) v
     else Inr s)"

definition over_settings :: "settings \<Rightarrow> json \<Rightarrow> settings decoded" where
  "over_settings = over_struct upd_settings"

text \<open>\<^verbatim>\<open>Settings.UnmarshalJSON\<close>: the update flags are preset before the members are applied.\<close>

definition UnmarshalSettings :: "settings \<Rightarrow> json \<Rightarrow> settings decoded" where
  "UnmarshalSettings cur = over_settings
     (cur\<lparr>st_auto_update := True, st_update_via_tunnel := True, st_update_via_direct := True\<rparr>)"

definition enc_dns_server :: "dns_server \<Rightarrow> json" where
  "enc_dns_server s = JObj [(''type'', JStr (ds_type s)), (''address'', JStr (ds_address s))]"

definition MarshalSettings :: "settings \<Rightarrow> json" where
  "MarshalSettings s = JObj [
     (''log_level'', JStr (st_log_level s)), (''ip_version'', JStr (st_ip_version s)),
     (''dns'', JObj [(''servers'', JArr (map enc_dns_server (dn_servers (st_dns s)))),
        (''strategy'', JStr (dn_strategy (st_dns s))), (''via_tunnel'', JBool (dn_via_tunnel (st_dns s)))]),
     (''lan_bypass'', JObj [(''enabled'', JBool (lb_enabled (st_lan_bypass s))),
        (''cidrs'', enc_strings (lb_cidrs (st_lan_bypass s)))]),
     (''restore_on_start'', JBool (st_restore_on_start s)),
     (''subscription_user_agent'', JStr (st_subscription_user_agent s)),
     (''socks_port'', JInt (st_socks_port s)),
     (''tun'', JObj [(''mtu'', JInt (tn_mtu (st_tun s))), (''stack'', JStr (tn_stack (st_tun s))),
        (''strict_route'', JBool (tn_strict_route (st_tun s)))]),
     (''latency_probe'', JObj [(''url'', JStr (pr_url (st_latency_probe s))),
        (''budget_secs'', JInt (pr_budget_secs (st_latency_probe s)))]),
     (''auto_update'', JBool (st_auto_update s)), (''update_via_tunnel'', JBool (st_update_via_tunnel s)),
     (''update_via_direct'', JBool (st_update_via_direct s))]"

section \<open>The settings file\<close>

definition LoadSettings ::
  "(string \<Rightarrow> bool) \<Rightarrow> (string \<Rightarrow> bool) \<Rightarrow> (string \<Rightarrow> url option) \<Rightarrow> string \<Rightarrow> entry option \<Rightarrow>
   (file_error + settings_error) + settings" where
  "LoadSettings addr_ok prefix_ok url_parse goos file = (case read_file file of
     Inl NotExist \<Rightarrow> Inr (DefaultSettings goos)
   | Inl e \<Rightarrow> Inl (Inl e)
   | Inr raw \<Rightarrow> (case UnmarshalSettings (DefaultSettings goos) raw of
       Inl e \<Rightarrow> Inl (Inl (DecodeFailed e))
     | Inr s \<Rightarrow> (case ValidateSettings addr_ok prefix_ok url_parse s of
         Some e \<Rightarrow> Inl (Inr e) | None \<Rightarrow> Inr s)))"

definition SaveSettings ::
  "(string \<Rightarrow> bool) \<Rightarrow> (string \<Rightarrow> bool) \<Rightarrow> (string \<Rightarrow> url option) \<Rightarrow> bool \<Rightarrow> settings \<Rightarrow> entry option \<Rightarrow>
   (file_error + settings_error) + entry" where
  "SaveSettings addr_ok prefix_ok url_parse io s file = (case ValidateSettings addr_ok prefix_ok url_parse s of
     Some e \<Rightarrow> Inl (Inr e)
   | None \<Rightarrow> (case atomicWrite io file (MarshalSettings s) of Inl e \<Rightarrow> Inl (Inl e) | Inr f \<Rightarrow> Inr f))"

section \<open>Round trip and validity\<close>

lemma ToLower_settings_fields [simp]:
  "ToLower ''type'' = ''type''" "ToLower ''servers'' = ''servers''" "ToLower ''via_tunnel'' = ''via_tunnel''"
  "ToLower ''cidrs'' = ''cidrs''" "ToLower ''mtu'' = ''mtu''" "ToLower ''stack'' = ''stack''"
  "ToLower ''strict_route'' = ''strict_route''" "ToLower ''budget_secs'' = ''budget_secs''"
  "ToLower ''log_level'' = ''log_level''" "ToLower ''ip_version'' = ''ip_version''" "ToLower ''dns'' = ''dns''"
  "ToLower ''lan_bypass'' = ''lan_bypass''" "ToLower ''restore_on_start'' = ''restore_on_start''"
  "ToLower ''subscription_user_agent'' = ''subscription_user_agent''" "ToLower ''socks_port'' = ''socks_port''"
  "ToLower ''latency_probe'' = ''latency_probe''" "ToLower ''auto_update'' = ''auto_update''"
  "ToLower ''update_via_tunnel'' = ''update_via_tunnel''" "ToLower ''update_via_direct'' = ''update_via_direct''"
  by code_simp+

lemma over_elems_map: "(\<And>c x. x \<in> set xs \<Longrightarrow> dec c (enc x) = Inr x) \<Longrightarrow> over_elems dec zero old (map enc xs) = Inr xs"
  by (induction xs arbitrary: old) auto

lemma over_enc_dns_server: "over_dns_server c (enc_dns_server s) = Inr s"
  by (simp add: over_dns_server_def over_struct_def enc_dns_server_def set_field_def)

lemma over_enc_dns:
  "over_dns c (JObj [(''servers'', JArr (map enc_dns_server (dn_servers d))), (''strategy'', JStr (dn_strategy d)),
     (''via_tunnel'', JBool (dn_via_tunnel d))]) = Inr d"
  by (simp add: over_dns_def over_struct_def set_field_def over_slice_def over_elems_map over_enc_dns_server)

lemma over_enc_lan: "over_lan c (JObj [(''enabled'', JBool (lb_enabled l)), (''cidrs'', enc_strings (lb_cidrs l))]) = Inr l"
  by (simp add: over_lan_def over_struct_def set_field_def over_slice_def enc_strings_def over_elems_map)

lemma over_enc_tun:
  "int64 (tn_mtu t) \<Longrightarrow> over_tun c (JObj [(''mtu'', JInt (tn_mtu t)), (''stack'', JStr (tn_stack t)),
     (''strict_route'', JBool (tn_strict_route t))]) = Inr t"
  by (simp add: over_tun_def over_struct_def set_field_def)

lemma over_enc_probe:
  "int64 (pr_budget_secs t) \<Longrightarrow> over_probe c (JObj [(''url'', JStr (pr_url t)), (''budget_secs'', JInt (pr_budget_secs t))]) = Inr t"
  by (simp add: over_probe_def over_struct_def set_field_def)

definition settings_in_range :: "settings \<Rightarrow> bool" where
  "settings_in_range s = (int64 (st_socks_port s) \<and> int64 (tn_mtu (st_tun s)) \<and> int64 (pr_budget_secs (st_latency_probe s)))"

lemma Unmarshal_Marshal_settings: "settings_in_range s \<Longrightarrow> UnmarshalSettings c (MarshalSettings s) = Inr s"
  by (simp add: UnmarshalSettings_def MarshalSettings_def over_settings_def over_struct_def upd_settings_def set_field_def
      over_enc_dns over_enc_lan over_enc_tun over_enc_probe settings_in_range_def)

lemma ValidateSettings_facts:
  assumes "ValidateSettings addr_ok prefix_ok url_parse s = None"
  shows "1 \<le> st_socks_port s" "st_socks_port s \<le> 65535" "576 \<le> tn_mtu (st_tun s)" "tn_mtu (st_tun s) \<le> 65535"
    "5 \<le> pr_budget_secs (st_latency_probe s)" "pr_budget_secs (st_latency_probe s) \<le> 300"
    "dn_servers (st_dns s) \<noteq> []" "check_servers addr_ok (dn_servers (st_dns s)) = None"
    "check_cidrs prefix_ok (lb_cidrs (st_lan_bypass s)) = None" "st_ip_version s \<in> {''v4'', ''v6'', ''both''}"
    "dn_strategy (st_dns s) \<in> {[], ''prefer_ipv4'', ''prefer_ipv6'', ''ipv4_only'', ''ipv6_only''}"
  using assms unfolding ValidateSettings_def by (simp_all split: if_split_asm option.split_asm)

lemma ValidateSettings_range: "ValidateSettings addr_ok prefix_ok url_parse s = None \<Longrightarrow> settings_in_range s"
  using ValidateSettings_facts(1-6) [of addr_ok prefix_ok url_parse s] by (simp add: settings_in_range_def int64_def)

text \<open>
  Settings that were saved load unchanged, whatever the operating system's defaults are.
\<close>

theorem settings_roundtrip:
  assumes "SaveSettings addr_ok prefix_ok url_parse io s file = Inr f"
  shows "LoadSettings addr_ok prefix_ok url_parse goos (Some f) = Inr s"
proof -
  have v: "ValidateSettings addr_ok prefix_ok url_parse s = None"
    using assms by (auto simp: SaveSettings_def split: option.splits)
  then have "f = EFile (Some (MarshalSettings s))"
    using assms by (auto simp: SaveSettings_def split: sum.splits dest!: atomicWrite_Inr)
  with v show ?thesis
    using Unmarshal_Marshal_settings [OF ValidateSettings_range [OF v]] by (simp add: LoadSettings_def read_file_def)
qed

definition sample_url_parse :: "string \<Rightarrow> url option" where
  "sample_url_parse _ = Some \<lparr>u_scheme = ''https'', u_opaque = [], u_user = None, u_host = ''h'', u_hostname = ''h'',
     u_port = [], u_fragment = [], u_escaped_fragment = [], u_query = [], u_string = []\<rparr>"

lemma DefaultSettings_valid:
  assumes "addr_ok ''8.8.8.8''" "prefix_ok ''169.254.0.0/16''" "prefix_ok ''fc00::/7''" "prefix_ok ''fe80::/10''"
    "probe_url_ok url_parse ''https://www.gstatic.com/generate_204''"
  shows "ValidateSettings addr_ok prefix_ok url_parse (DefaultSettings goos) = None"
  using assms by (simp add: ValidateSettings_def DefaultSettings_def defaultIPVersion_def)

lemma sample_url_ok: "probe_url_ok sample_url_parse s"
  by (simp add: probe_url_ok_def sample_url_parse_def)

theorem settings_roundtrip_witness:
  "\<exists>f. SaveSettings (\<lambda>_. True) (\<lambda>_. True) sample_url_parse True (DefaultSettings ''linux'') None = Inr f \<and>
     LoadSettings (\<lambda>_. True) (\<lambda>_. True) sample_url_parse ''windows'' (Some f) = Inr (DefaultSettings ''linux'')"
proof -
  obtain f where "SaveSettings (\<lambda>_. True) (\<lambda>_. True) sample_url_parse True (DefaultSettings ''linux'') None = Inr f"
    by (simp add: SaveSettings_def DefaultSettings_valid sample_url_ok atomicWrite_def)
  then show ?thesis using settings_roundtrip by blast
qed

text \<open>
  Loaded settings are always valid ones: the defaults pass the daemon's own check, given that
  the default address, prefixes and probe URL parse, and a stored document is checked.
\<close>

theorem load_settings_valid:
  assumes "addr_ok ''8.8.8.8''" "prefix_ok ''169.254.0.0/16''" "prefix_ok ''fc00::/7''" "prefix_ok ''fe80::/10''"
    and "probe_url_ok url_parse ''https://www.gstatic.com/generate_204''"
    and "LoadSettings addr_ok prefix_ok url_parse goos e = Inr s"
  shows "ValidateSettings addr_ok prefix_ok url_parse s = None"
  using assms(6) DefaultSettings_valid [where addr_ok = addr_ok and prefix_ok = prefix_ok and url_parse = url_parse
      and goos = goos] assms(1-5)
  by (auto simp: LoadSettings_def split: sum.splits file_error.splits option.splits)

theorem load_settings_valid_witness:
  "ValidateSettings (\<lambda>_. True) (\<lambda>_. True) sample_url_parse (DefaultSettings ''windows'') = None"
  by (rule load_settings_valid [where goos = "''windows''" and e = None])
     (simp_all add: sample_url_ok LoadSettings_def read_file_def)

lemma over_members_keep:
  assumes "over_members upd cur ob = Inr s" "\<forall>k \<in> fst ` set ob. ToLower k \<noteq> key"
    and "\<And>k v c c'. upd k v c = Inr c' \<Longrightarrow> k \<noteq> key \<Longrightarrow> f c' = f c"
  shows "f s = f cur"
  using assms(1,2)
proof (induction ob arbitrary: cur)
  case (Cons m ob)
  obtain k v where m: "m = (k, v)" by (cases m)
  with Cons.prems obtain c where "upd (ToLower k) v cur = Inr c" "over_members upd c ob = Inr s"
    by (auto simp: rbind_eq_Inr_iff)
  then show ?case using Cons.IH [of c] Cons.prems(2) assms(3) m by auto
qed simp

lemma upd_settings_keep:
  assumes "upd_settings k v c = Inr c'"
  shows "k \<noteq> ''auto_update'' \<Longrightarrow> st_auto_update c' = st_auto_update c"
    "k \<noteq> ''update_via_tunnel'' \<Longrightarrow> st_update_via_tunnel c' = st_update_via_tunnel c"
    "k \<noteq> ''update_via_direct'' \<Longrightarrow> st_update_via_direct c' = st_update_via_direct c"
    "k \<noteq> ''ip_version'' \<Longrightarrow> st_ip_version c' = st_ip_version c"
    "k \<noteq> ''restore_on_start'' \<Longrightarrow> st_restore_on_start c' = st_restore_on_start c"
  using assms by (auto simp: upd_settings_def set_field_def rbind_eq_Inr_iff split: if_split_asm)

lemma over_settings_keep:
  assumes "over_settings cur (JObj ob) = Inr s" "\<forall>k \<in> fst ` set ob. ToLower k \<noteq> key"
    and "\<And>k v c c'. upd_settings k v c = Inr c' \<Longrightarrow> k \<noteq> key \<Longrightarrow> f c' = f c"
  shows "f s = f cur"
  using assms by (auto simp: over_settings_def over_struct_def intro: over_members_keep)

text \<open>
  A document that does not mention a switch decodes to its default: the three update
  switches to on, whatever the value decoded over holds (an upgraded daemon never persists them
  as off for an old client), the address family and restore-on-start to what the value holds.
\<close>

theorem settings_missing_keys:
  assumes "UnmarshalSettings cur (JObj ob) = Inr s"
  shows "(''auto_update'' \<notin> ToLower ` fst ` set ob \<longrightarrow> st_auto_update s) \<and>
    (''update_via_tunnel'' \<notin> ToLower ` fst ` set ob \<longrightarrow> st_update_via_tunnel s) \<and>
    (''update_via_direct'' \<notin> ToLower ` fst ` set ob \<longrightarrow> st_update_via_direct s) \<and>
    (''ip_version'' \<notin> ToLower ` fst ` set ob \<longrightarrow> st_ip_version s = st_ip_version cur) \<and>
    (''restore_on_start'' \<notin> ToLower ` fst ` set ob \<longrightarrow> st_restore_on_start s = st_restore_on_start cur)"
proof -
  have keep: "f s = f (cur\<lparr>st_auto_update := True, st_update_via_tunnel := True, st_update_via_direct := True\<rparr>)"
    if "key \<notin> ToLower ` fst ` set ob" "\<And>k v c c'. upd_settings k v c = Inr c' \<Longrightarrow> k \<noteq> key \<Longrightarrow> f c' = f c"
    for key and f :: "settings \<Rightarrow> 'b"
  proof (rule over_settings_keep [of _ ob s key])
    show "over_settings (cur\<lparr>st_auto_update := True, st_update_via_tunnel := True, st_update_via_direct := True\<rparr>) (JObj ob) = Inr s"
      using assms by (simp add: UnmarshalSettings_def)
    show "\<forall>k \<in> fst ` set ob. ToLower k \<noteq> key"
      using that(1) by blast
  qed (rule that(2))
  show ?thesis
    using keep [of "''auto_update''" st_auto_update] keep [of "''update_via_tunnel''" st_update_via_tunnel]
      keep [of "''update_via_direct''" st_update_via_direct] keep [of "''ip_version''" st_ip_version]
      keep [of "''restore_on_start''" st_restore_on_start]
    by (simp add: upd_settings_keep)
qed

theorem settings_missing_keys_witness:
  "\<exists>s. UnmarshalSettings ((DefaultSettings ''linux'')\<lparr>st_auto_update := False\<rparr>) (JObj [(''log_level'', JStr ''warn'')]) = Inr s \<and>
     st_auto_update s"
proof -
  obtain s where "UnmarshalSettings ((DefaultSettings ''linux'')\<lparr>st_auto_update := False\<rparr>) (JObj [(''log_level'', JStr ''warn'')]) = Inr s"
    by (simp add: UnmarshalSettings_def over_settings_def over_struct_def upd_settings_def set_field_def)
  then show ?thesis using settings_missing_keys by fastforce
qed

end
