(* ===== verification/Engine_Session.thy ===== *)
theory Engine_Session
  imports Store_Settings
begin

text \<open>
  One activation's node set (\<^verbatim>\<open>SessionPlan\<close> of \<^verbatim>\<open>daemon-go/internal/engine/plan.go\<close>) and the engine
  settings (\<^verbatim>\<open>daemon-go/internal/engine/tunables.go\<close>): selector members, the lookups between tags and
  display names, validation, the effective DNS strategy.

  A group's interval is kept in seconds: its only producer multiplies whole seconds.
\<close>

section \<open>Data\<close>

abbreviation SelectorTag :: string where "SelectorTag \<equiv> ''proxy''"

record named_node =
  nn_id :: string
  nn_name :: string
  nn_profile :: profile

record group_plan =
  gr_id :: string
  gr_name :: string
  gr_members :: "string list"
  gr_probe_url :: string
  gr_interval :: nat
  gr_tolerance :: u16

text \<open>\<open>tb_lan_bypass\<close> is \<open>None\<close> for the nil slice, which means the default list.\<close>

record tunables =
  tb_log_level :: string
  tb_ip_version :: string
  tb_dns_strategy :: string
  tb_dns :: "dns_server list"
  tb_dns_via_tunnel :: bool
  tb_lan_bypass :: "string list option"
  tb_tun_mtu :: int
  tb_tun_stack :: string
  tb_strict_route :: bool

record session_plan =
  sp_natives :: "named_node list"
  sp_xray_nodes :: "named_node list"
  sp_active_tag :: string
  sp_routing :: "routing_config option"
  sp_cache_path :: string
  sp_tunables :: "tunables option"
  sp_groups :: "group_plan list"

datatype plan_error =
    NoNodes
  | ActiveNotInPlan string
  | DuplicateNodeID string
  | GroupHasNoMembers string
  | GroupMemberNotEmbedded string string
  | NativeOutbound string proxy_error
  | XrayFailed proxy_error
  | XrayCannotDial string
  | XrayNeedsNode
  | DpiBypassUnsupported
  | TargetNotEmbedded string
  | NotARouteTarget string
  | IndexOutOfRange

section \<open>Members\<close>

definition nodeTags :: "session_plan \<Rightarrow> string list" where
  "nodeTags p = map nn_id (sp_natives p) @ map nn_id (sp_xray_nodes p)"

definition memberTags :: "session_plan \<Rightarrow> string list" where
  "memberTags p = nodeTags p @ map gr_id (sp_groups p)"

definition IsMember :: "session_plan \<Rightarrow> string \<Rightarrow> bool" where
  "IsMember p tag = (tag \<in> set (memberTags p))"

definition MemberTagForName :: "session_plan \<Rightarrow> string \<Rightarrow> string option" where
  "MemberTagForName p name =
    (case find (\<lambda>n. nn_name n = name) (sp_natives p) of Some n \<Rightarrow> Some (nn_id n) | None \<Rightarrow>
    (case find (\<lambda>n. nn_name n = name) (sp_xray_nodes p) of Some n \<Rightarrow> Some (nn_id n) | None \<Rightarrow>
     map_option gr_id (find (\<lambda>g. gr_name g = name) (sp_groups p))))"

definition DisplayNameForTag :: "session_plan \<Rightarrow> string \<Rightarrow> string option" where
  "DisplayNameForTag p tag =
    (case find (\<lambda>n. nn_id n = tag) (sp_natives p) of Some n \<Rightarrow> Some (nn_name n) | None \<Rightarrow>
    (case find (\<lambda>n. nn_id n = tag) (sp_xray_nodes p) of Some n \<Rightarrow> Some (nn_name n) | None \<Rightarrow>
     map_option gr_name (find (\<lambda>g. gr_id g = tag) (sp_groups p))))"

section \<open>Validation\<close>

fun first_duplicate :: "string list \<Rightarrow> string list \<Rightarrow> string option" where
  "first_duplicate seen [] = None"
| "first_duplicate seen (t # ts) = (if t \<in> set seen then Some t else first_duplicate (t # seen) ts)"

fun check_groups :: "string list \<Rightarrow> group_plan list \<Rightarrow> plan_error option" where
  "check_groups nodes [] = None"
| "check_groups nodes (g # gs) =
    (if gr_members g = [] then Some (GroupHasNoMembers (gr_name g))
     else case find (\<lambda>m. m \<notin> set nodes) (gr_members g) of
        Some m \<Rightarrow> Some (GroupMemberNotEmbedded (gr_name g) m)
      | None \<Rightarrow> check_groups nodes gs)"

definition validate :: "session_plan \<Rightarrow> plan_error option" where
  "validate p = (let members = memberTags p in
     if members = [] then Some NoNodes
     else if sp_active_tag p \<notin> set members then Some (ActiveNotInPlan (sp_active_tag p))
     else case first_duplicate [] members of
        Some t \<Rightarrow> Some (DuplicateNodeID t)
      | None \<Rightarrow> check_groups (nodeTags p) (sp_groups p))"

text \<open>What validation establishes, as a proposition.\<close>

definition plan_ok :: "session_plan \<Rightarrow> bool" where
  "plan_ok p =
    (sp_active_tag p \<in> set (memberTags p) \<and> distinct (memberTags p) \<and>
     (\<forall>g \<in> set (sp_groups p). gr_members g \<noteq> [] \<and> set (gr_members g) \<subseteq> set (nodeTags p)))"

lemma first_duplicate_None: "first_duplicate seen ts = None \<longleftrightarrow> distinct ts \<and> set ts \<inter> set seen = {}"
  by (induction ts arbitrary: seen) auto

lemma check_groups_None:
  "check_groups nodes gs = None \<longleftrightarrow> (\<forall>g \<in> set gs. gr_members g \<noteq> [] \<and> set (gr_members g) \<subseteq> set nodes)"
  by (induction gs) (auto simp: find_None_iff split: option.splits dest: find_SomeD)

lemma validate_None: "validate p = None \<longleftrightarrow> plan_ok p"
proof (cases "first_duplicate [] (memberTags p)")
  case None
  then have "distinct (memberTags p)" using first_duplicate_None by blast
  with None show ?thesis by (auto simp: validate_def plan_ok_def Let_def check_groups_None)
next
  case (Some t)
  then have "\<not> distinct (memberTags p)" using first_duplicate_None [of "[]" "memberTags p"] by auto
  with Some show ?thesis by (simp add: validate_def plan_ok_def Let_def)
qed

section \<open>Tunables\<close>

definition DefaultTunables :: tunables where
  "DefaultTunables = \<lparr>tb_log_level = ''info'', tb_ip_version = ''both'', tb_dns_strategy = ''prefer_ipv4'',
     tb_dns = [\<lparr>ds_type = ''tls'', ds_address = ''8.8.8.8''\<rparr>], tb_dns_via_tunnel = False,
     tb_lan_bypass = Some [''169.254.0.0/16'', ''fc00::/7'', ''fe80::/10''], tb_tun_mtu = 1500,
     tb_tun_stack = ''mixed'', tb_strict_route = True\<rparr>"

definition plan_tunables :: "session_plan \<Rightarrow> tunables" where
  "plan_tunables p = (case sp_tunables p of None \<Rightarrow> DefaultTunables | Some t \<Rightarrow> t)"

definition dnsStrategy :: "string \<Rightarrow> string \<Rightarrow> string" where
  "dnsStrategy strategy ipVersion =
    (if ipVersion = ''v4'' then ''ipv4_only''
     else if ipVersion = ''v6'' then ''ipv6_only''
     else if strategy \<in> {''prefer_ipv4'', ''prefer_ipv6'', ''ipv4_only'', ''ipv6_only''} then strategy
     else ''prefer_ipv4'')"

definition tunAddresses :: "string \<Rightarrow> string list" where
  "tunAddresses ipVersion =
    (if ipVersion = ''v4'' then [''172.18.0.1/30'']
     else if ipVersion = ''v6'' then [''fdfe:dcba:9876::1/126'']
     else [''172.18.0.1/30'', ''fdfe:dcba:9876::1/126''])"

definition dnsTag :: "nat \<Rightarrow> string" where
  "dnsTag i = (if i = 0 then ''dns-primary'' else ''dns-'' @ FormatUint 10 i)"

section \<open>Properties\<close>

text \<open>The address families a DNS strategy may hand to an application.\<close>

datatype family = V4 | V6

definition strategy_families :: "string \<Rightarrow> family list" where
  "strategy_families s = (if s = ''ipv4_only'' then [V4] else if s = ''ipv6_only'' then [V6] else [V4, V6])"

definition address_family :: "string \<Rightarrow> family" where
  "address_family cidr = (if CHR '':'' \<in> set cidr then V6 else V4)"

text \<open>
  DNS never hands an application an address of a family the TUN does not carry, whatever
  strategy and address family are stored (a hand-edited value included); a dual-stack TUN
  honours a known stored strategy.
\<close>

theorem dns_family_carried:
  "set (strategy_families (dnsStrategy strategy ipVersion)) \<subseteq> address_family ` set (tunAddresses ipVersion) \<and>
   dnsStrategy strategy ipVersion \<in> {''prefer_ipv4'', ''prefer_ipv6'', ''ipv4_only'', ''ipv6_only''} \<and>
   (ipVersion = ''both'' \<longrightarrow> strategy \<in> {''prefer_ipv4'', ''prefer_ipv6'', ''ipv4_only'', ''ipv6_only''} \<longrightarrow>
     dnsStrategy strategy ipVersion = strategy)"
  by (simp add: dnsStrategy_def tunAddresses_def strategy_families_def address_family_def)

theorem dns_family_carried_witness:
  "set (strategy_families (dnsStrategy ''prefer_ipv6'' ''v4'')) \<subseteq> {V4} \<and>
   dnsStrategy ''prefer_ipv6'' ''both'' = ''prefer_ipv6''"
  using dns_family_carried [of "''prefer_ipv6''" "''both''"] dns_family_carried [of "''prefer_ipv6''" "''v4''"]
  by (simp add: tunAddresses_def address_family_def)

text \<open>The members as one table from tag to name; both lookups are lookups in it.\<close>

definition member_table :: "session_plan \<Rightarrow> (string \<times> string) list" where
  "member_table p = map (\<lambda>n. (nn_id n, nn_name n)) (sp_natives p) @ map (\<lambda>n. (nn_id n, nn_name n)) (sp_xray_nodes p) @
     map (\<lambda>g. (gr_id g, gr_name g)) (sp_groups p)"

lemma find_map_of: "map_option g (find (\<lambda>x. f x = k) xs) = map_of (map (\<lambda>x. (f x, g x)) xs) k"
  by (induction xs) auto

lemma find_chain: "(case find P xs of Some x \<Rightarrow> Some (g x) | None \<Rightarrow> d) =
   (case map_option g (find P xs) of Some y \<Rightarrow> Some y | None \<Rightarrow> d)"
  by (simp split: option.splits)

lemma DisplayNameForTag_table: "DisplayNameForTag p tag = map_of (member_table p) tag"
  by (auto simp: DisplayNameForTag_def member_table_def find_chain find_map_of map_add_def split: option.splits)

lemma MemberTagForName_table: "MemberTagForName p name = map_of (map (\<lambda>(t, n). (n, t)) (member_table p)) name"
  by (auto simp: MemberTagForName_def member_table_def find_chain find_map_of map_add_def o_def split: option.splits)

lemma member_table_tags: "map fst (member_table p) = memberTags p"
  by (simp add: member_table_def memberTags_def nodeTags_def o_def)

text \<open>
  Tags and names agree in a valid plan: a display name resolves to a member whose display
  name it is, exactly the members have a display name, and a member's name resolves (to it
  or to another member of the same name).
\<close>

theorem member_names_consistent:
  assumes "validate p = None"
  shows "(MemberTagForName p name = Some tag \<longrightarrow> DisplayNameForTag p tag = Some name \<and> IsMember p tag) \<and>
     (DisplayNameForTag p tag \<noteq> None \<longleftrightarrow> IsMember p tag) \<and>
     (DisplayNameForTag p tag = Some name \<longrightarrow> MemberTagForName p name \<noteq> None)"
proof -
  have dist: "distinct (map fst (member_table p))"
    using assms by (simp add: validate_None plan_ok_def member_table_tags)
  have dom: "DisplayNameForTag p t \<noteq> None \<longleftrightarrow> IsMember p t" for t
    by (simp add: DisplayNameForTag_table map_of_eq_None_iff IsMember_def flip: member_table_tags)
  have "DisplayNameForTag p tag = Some name" if "MemberTagForName p name = Some tag"
    using that dist by (auto simp: MemberTagForName_table DisplayNameForTag_table dest!: map_of_SomeD)
  moreover have "MemberTagForName p name \<noteq> None" if "DisplayNameForTag p tag = Some name"
  proof -
    have "(name, tag) \<in> set (map (\<lambda>(t, n). (n, t)) (member_table p))"
      using that by (force simp: DisplayNameForTag_table dest!: map_of_SomeD)
    from weak_map_of_SomeI [OF this] show ?thesis
      by (auto simp: MemberTagForName_table)
  qed
  ultimately show ?thesis using dom by auto
qed

definition sample_plan :: session_plan where
  "sample_plan = \<lparr>sp_natives = [\<lparr>nn_id = ''a'', nn_name = ''A'', nn_profile = sample_ss\<rparr>],
     sp_xray_nodes = [\<lparr>nn_id = ''b'', nn_name = ''B'', nn_profile = sample_ss\<rparr>], sp_active_tag = ''g'',
     sp_routing = None, sp_cache_path = [], sp_tunables = None,
     sp_groups = [\<lparr>gr_id = ''g'', gr_name = ''Auto'', gr_members = [''a'', ''b''], gr_probe_url = [], gr_interval = 0,
        gr_tolerance = 0\<rparr>]\<rparr>"

lemma sample_plan_valid: "validate sample_plan = None"
  by (simp add: validate_None plan_ok_def memberTags_def nodeTags_def sample_plan_def)

theorem member_names_consistent_witness:
  "MemberTagForName sample_plan ''Auto'' = Some ''g'' \<and> DisplayNameForTag sample_plan ''g'' = Some ''Auto''"
proof -
  have "MemberTagForName sample_plan ''Auto'' = Some ''g''"
    by (simp add: MemberTagForName_def sample_plan_def)
  then show ?thesis using member_names_consistent [OF sample_plan_valid, of "''Auto''" "''g''"] by blast
qed

end
