(* ===== verification/Engine_Route.thy ===== *)
theory Engine_Route
  imports Engine_Session
begin

text \<open>
  Compilation of a user routing config into the sing-box route block
  (\<^verbatim>\<open>daemon-go/internal/engine/route.go\<close>).

  Main results: the block compiles exactly when every route target of the config resolves in
  the plan; what it names is embedded; under the TUN the DNS hijack comes before the
  private-direct rule and both come before every user rule.
\<close>

section \<open>Targets and rules\<close>

definition resolveTarget :: "session_plan \<Rightarrow> rule_target \<Rightarrow> plan_error + string" where
  "resolveTarget p t =
    (if rt_kind t = TargetDirect then Inr ''direct''
     else if rt_kind t = TargetBlock then Inr ''block''
     else if rt_kind t = TargetDefaultProxy then Inr SelectorTag
     else if rt_kind t = TargetDpiBypass then Inl DpiBypassUnsupported
     else if rt_kind t = TargetNode then
       (if list_ex (\<lambda>n. nn_id n = rt_node t) (sp_natives p) then Inr (rt_node t)
        else if list_ex (\<lambda>n. nn_id n = rt_node t) (sp_xray_nodes p) then Inr (rt_node t)
        else if list_ex (\<lambda>g. gr_id g = rt_node t) (sp_groups p) then Inr (rt_node t)
        else Inl (TargetNotEmbedded (rt_node t)))
     else Inl (NotARouteTarget (rt_kind t)))"

definition conditionsOf :: "rule \<Rightarrow> json obj" where
  "conditionsOf r = filter (\<lambda>(_, v). v \<noteq> JNull) (Conditions r)"

fun compileMatchRule :: "rule \<Rightarrow> json" where
  "compileMatchRule (Rule t rs conds) =
    (let out = conditionsOf (Rule t rs conds) in
     JObj (if IsLogical (Rule t rs conds) then jput ''rules'' (JArr (map compileMatchRule rs)) out else out))"

definition put_if :: "bool \<Rightarrow> string \<Rightarrow> json \<Rightarrow> json obj \<Rightarrow> json obj" where
  "put_if b k v ob = (if b then jput k v ob else ob)"

definition compileRule :: "session_plan \<Rightarrow> rule \<Rightarrow> plan_error + json obj" where
  "compileRule p r =
    (let out = conditionsOf r;
         out = (if IsLogical r then jput ''rules'' (JArr (map compileMatchRule (Rules r))) out else out);
         t = Target r
     in if rt_kind t = TargetHijackDns then Inr (jput ''action'' (JStr ''hijack-dns'') out)
        else if rt_kind t = TargetSniff then
          (let out = jput ''action'' (JStr ''sniff'') out in
           case rt_sniff t of
             None \<Rightarrow> Inr out
           | Some s \<Rightarrow> Inr (put_if (sn_timeout s \<noteq> []) ''timeout'' (JStr (sn_timeout s))
                        (put_if (sn_sniffer s \<noteq> []) ''sniffer'' (enc_strings (sn_sniffer s)) out)))
        else if rt_kind t = TargetResolve then
          (let out = jput ''action'' (JStr ''resolve'') out in
           case rt_resolve t of
             None \<Rightarrow> Inr out
           | Some v \<Rightarrow> Inr (put_if (rv_strategy v \<noteq> []) ''strategy'' (JStr (rv_strategy v))
                        (put_if (rv_server v \<noteq> []) ''server'' (JStr (rv_server v)) out)))
        else rbind (resolveTarget p t) (\<lambda>tag. Inr (jput ''outbound'' (JStr tag) out)))"

section \<open>The route block\<close>

definition privateDirectCIDRs :: "string list" where
  "privateDirectCIDRs = [''10.0.0.0/8'', ''172.16.0.0/12'', ''192.168.0.0/16'']"

definition sniff_rule :: json where
  "sniff_rule = JObj [(''action'', JStr ''sniff'')]"

definition hijack_rule :: json where
  "hijack_rule = JObj [(''protocol'', JArr [JStr ''dns'']), (''action'', JStr ''hijack-dns'')]"

definition private_direct_rule :: json where
  "private_direct_rule = JObj [(''ip_cidr'', enc_strings privateDirectCIDRs), (''outbound'', JStr ''direct'')]"

definition rule_set_block :: "rule_set_source \<Rightarrow> json" where
  "rule_set_block rs =
    (let set = [(''type'', JStr ''remote''), (''tag'', JStr (rs_tag rs)), (''format'', JStr (rs_format rs)),
                (''url'', JStr (rs_url rs))]
     in JObj (case rs_download_detour rs of
          None \<Rightarrow> set
        | Some d \<Rightarrow> put_if (d \<noteq> []) ''http_client'' (JObj [(''detour'', JStr d)]) set))"

definition routeBlock :: "session_plan \<Rightarrow> bool \<Rightarrow> string \<Rightarrow> plan_error + json obj" where
  "routeBlock p tun domainResolver =
     rbind (case sp_routing p of None \<Rightarrow> Inr SelectorTag | Some rc \<Rightarrow> resolveTarget p (rc_default_target rc)) (\<lambda>final.
     rbind (case sp_routing p of None \<Rightarrow> Inr [] | Some rc \<Rightarrow> traverse (compileRule p) (rc_rules rc)) (\<lambda>user.
       let rules = [sniff_rule] @ (if tun then [hijack_rule, private_direct_rule] else []) @ map JObj user;
           route = [(''default_domain_resolver'', JStr domainResolver), (''final'', JStr final),
                    (''rules'', JArr rules), (''find_process'', JBool True)];
           route = put_if tun ''auto_detect_interface'' (JBool True) route
       in Inr (case sp_routing p of
            None \<Rightarrow> route
          | Some rc \<Rightarrow> put_if (rc_rule_sets rc \<noteq> []) ''rule_set'' (JArr (map rule_set_block (rc_rule_sets rc))) route)))"

section \<open>When the block compiles\<close>

text \<open>The tags of the outbounds a plan emits.\<close>

definition plan_tags :: "session_plan \<Rightarrow> string list" where
  "plan_tags p = SelectorTag # memberTags p @ [''direct'', ''block'']"

definition target_resolves :: "session_plan \<Rightarrow> rule_target \<Rightarrow> bool" where
  "target_resolves p t = (rt_kind t \<in> {TargetDirect, TargetBlock, TargetDefaultProxy} \<or>
     rt_kind t = TargetNode \<and> IsMember p (rt_node t))"

definition rule_resolves :: "session_plan \<Rightarrow> rule \<Rightarrow> bool" where
  "rule_resolves p r = (rt_kind (Target r) \<in> {TargetHijackDns, TargetSniff, TargetResolve} \<or> target_resolves p (Target r))"

definition routing_resolves :: "session_plan \<Rightarrow> bool" where
  "routing_resolves p = (case sp_routing p of None \<Rightarrow> True
     | Some rc \<Rightarrow> target_resolves p (rc_default_target rc) \<and> list_all (rule_resolves p) (rc_rules rc))"

lemma resolveTarget_Inr: "resolveTarget p t = Inr tag \<Longrightarrow> tag \<in> set (plan_tags p)"
  by (auto simp: resolveTarget_def plan_tags_def memberTags_def nodeTags_def list_ex_eq split: if_splits)

lemma resolveTarget_iff: "(\<exists>tag. resolveTarget p t = Inr tag) \<longleftrightarrow> target_resolves p t"
  by (auto simp: resolveTarget_def target_resolves_def IsMember_def memberTags_def nodeTags_def list_ex_eq)

lemma compileRule_route:
  "rt_kind (Target r) \<notin> {TargetHijackDns, TargetSniff, TargetResolve} \<Longrightarrow> compileRule p r = Inr ob \<Longrightarrow>
   \<exists>tag. jget ob ''outbound'' = Some (JStr tag) \<and> tag \<in> set (plan_tags p)"
  by (auto simp: compileRule_def Let_def rbind_eq_Inr_iff obj_simps dest: resolveTarget_Inr)

lemma compileRule_iff: "(\<exists>ob. compileRule p r = Inr ob) \<longleftrightarrow> rule_resolves p r"
proof (cases "rt_kind (Target r) \<in> {TargetHijackDns, TargetSniff, TargetResolve}")
  case True
  then show ?thesis by (auto simp: compileRule_def rule_resolves_def Let_def split: option.splits)
next
  case False
  then have "(\<exists>ob. compileRule p r = Inr ob) \<longleftrightarrow> (\<exists>tag. resolveTarget p (Target r) = Inr tag)"
    by (auto simp: compileRule_def Let_def rbind_eq_Inr_iff)
  with False show ?thesis by (auto simp: resolveTarget_iff rule_resolves_def)
qed

lemma traverse_total_iff: "(\<exists>ys. traverse f xs = Inr ys) \<longleftrightarrow> (\<forall>x \<in> set xs. \<exists>y. f x = Inr y)"
proof (induction xs)
  case (Cons x xs)
  then show ?case by (cases "f x") (auto simp: rbind_eq_Inr_iff)
qed simp

lemma jget_put_if: "jget (put_if b k v ob) k' = (if b \<and> k' = k then Some v else jget ob k')"
  by (auto simp: put_if_def obj_simps)

lemma routeBlock_Inr:
  assumes "routeBlock p tun dr = Inr route"
  obtains final user where
    "(case sp_routing p of None \<Rightarrow> Inr SelectorTag | Some rc \<Rightarrow> resolveTarget p (rc_default_target rc)) = Inr final"
    "(case sp_routing p of None \<Rightarrow> Inr [] | Some rc \<Rightarrow> traverse (compileRule p) (rc_rules rc)) = Inr user"
    "jget route ''final'' = Some (JStr final)"
    "jget route ''rules'' = Some (JArr ([sniff_rule] @ (if tun then [hijack_rule, private_direct_rule] else []) @ map JObj user))"
    "jget route ''default_domain_resolver'' = Some (JStr dr)"
  using assms
  by (auto simp: routeBlock_def rbind_eq_Inr_iff Let_def jget_put_if obj_simps split: option.splits)

lemma routeBlock_iff: "(\<exists>route. routeBlock p tun dr = Inr route) \<longleftrightarrow> routing_resolves p"
proof (cases "sp_routing p")
  case None
  then show ?thesis by (simp add: routeBlock_def routing_resolves_def Let_def)
next
  case (Some rc)
  have "(\<exists>route. routeBlock p tun dr = Inr route) \<longleftrightarrow>
      (\<exists>tag. resolveTarget p (rc_default_target rc) = Inr tag) \<and> (\<exists>us. traverse (compileRule p) (rc_rules rc) = Inr us)"
    using Some by (auto simp: routeBlock_def rbind_eq_Inr_iff Let_def)
  also have "\<dots> \<longleftrightarrow> routing_resolves p"
    using Some by (simp add: resolveTarget_iff traverse_total_iff compileRule_iff routing_resolves_def list_all_iff)
  finally show ?thesis .
qed

text \<open>
  A routing config compiles exactly when its default target and the target of every
  top-level rule is an action or resolves in the plan; targets of nested rules do not matter.
\<close>

theorem route_compiles_iff:
  "(\<exists>route. routeBlock p tun dr = Inr route) \<longleftrightarrow> routing_resolves p"
  by (rule routeBlock_iff)

lemma compileRule_outbound:
  assumes "compileRule p r = Inr ob" "jget (Conditions r) ''outbound'' = None" "jget ob ''outbound'' = Some v"
  shows "\<exists>tag \<in> set (plan_tags p). v = JStr tag"
proof (cases "rt_kind (Target r) \<in> {TargetHijackDns, TargetSniff, TargetResolve}")
  case True
  have "jget (conditionsOf r) ''outbound'' = None"
    using assms(2) by (auto simp: conditionsOf_def jget_None_iff)
  with True assms(1) have "jget ob ''outbound'' = None"
    by (auto simp: compileRule_def Let_def obj_simps jget_put_if split: option.splits if_splits)
  with assms(3) show ?thesis by simp
qed (use compileRule_route assms in fastforce)

text \<open>
  The compiled block refers only to outbounds of the plan: its final, and the outbound of
  every rule, unless a stored condition itself is named \<^verbatim>\<open>outbound\<close>.
\<close>

theorem route_references_embedded:
  assumes "routeBlock p tun dr = Inr route"
    and "\<forall>rc r. sp_routing p = Some rc \<longrightarrow> r \<in> set (rc_rules rc) \<longrightarrow> jget (Conditions r) ''outbound'' = None"
  shows "\<exists>final rules. jget route ''final'' = Some (JStr final) \<and> final \<in> set (plan_tags p) \<and>
     jget route ''rules'' = Some (JArr rules) \<and>
     (\<forall>ob v. JObj ob \<in> set rules \<longrightarrow> jget ob ''outbound'' = Some v \<longrightarrow> (\<exists>tag \<in> set (plan_tags p). v = JStr tag))"
proof -
  obtain final user where h:
    "(case sp_routing p of None \<Rightarrow> Inr SelectorTag | Some rc \<Rightarrow> resolveTarget p (rc_default_target rc)) = Inr final"
    "(case sp_routing p of None \<Rightarrow> Inr [] | Some rc \<Rightarrow> traverse (compileRule p) (rc_rules rc)) = Inr user"
    "jget route ''final'' = Some (JStr final)"
    "jget route ''rules'' = Some (JArr ([sniff_rule] @ (if tun then [hijack_rule, private_direct_rule] else []) @ map JObj user))"
    using routeBlock_Inr [OF assms(1)] by metis
  have "final \<in> set (plan_tags p)"
    using h(1) by (cases "sp_routing p") (auto simp: plan_tags_def dest: resolveTarget_Inr)
  moreover have "\<exists>tag \<in> set (plan_tags p). v = JStr tag" if mem: "ob \<in> set user" and out: "jget ob ''outbound'' = Some v" for ob v
  proof (cases "sp_routing p")
    case (Some rc)
    then obtain r where "r \<in> set (rc_rules rc)" "compileRule p r = Inr ob"
      using h(2) mem traverse_Inr_set [of "compileRule p" "rc_rules rc" user ob] by auto
    then show ?thesis using compileRule_outbound assms(2) Some out by blast
  qed (use h(2) mem in simp)
  moreover have "jget ob ''outbound'' = Some v \<Longrightarrow> v = JStr ''direct''"
    if "JObj ob \<in> {sniff_rule, hijack_rule, private_direct_rule}" for ob v
    using that by (auto simp: sniff_rule_def hijack_rule_def private_direct_rule_def obj_simps)
  ultimately show ?thesis
    using h(3,4) by (intro exI [of _ final] exI [of _ "[sniff_rule] @ (if tun then [hijack_rule, private_direct_rule] else []) @ map JObj user"])
      (auto simp: plan_tags_def split: if_splits)
qed

definition sample_routing :: routing_config where
  "sample_routing = (NewDefault ''r'')\<lparr>rc_rules :=
     [Rule (zero_target\<lparr>rt_kind := TargetNode, rt_node := ''b''\<rparr>) [] [(''domain'', JStr ''x''), (''port'', JNull)]]\<rparr>"

lemma sample_routing_resolves: "routing_resolves (sample_plan\<lparr>sp_routing := Some sample_routing\<rparr>)"
  by (simp add: routing_resolves_def sample_routing_def NewDefault_def target_resolves_def rule_resolves_def
      IsMember_def memberTags_def nodeTags_def sample_plan_def zero_target_def)

theorem route_references_embedded_witness:
  "\<exists>route final. routeBlock (sample_plan\<lparr>sp_routing := Some sample_routing\<rparr>) True ''dns-primary'' = Inr route \<and>
     jget route ''final'' = Some (JStr final) \<and> final \<in> set (plan_tags (sample_plan\<lparr>sp_routing := Some sample_routing\<rparr>))"
proof -
  let ?p = "sample_plan\<lparr>sp_routing := Some sample_routing\<rparr>"
  obtain route where r: "routeBlock ?p True ''dns-primary'' = Inr route"
    using routeBlock_iff sample_routing_resolves by blast
  have "\<forall>rc r. sp_routing ?p = Some rc \<longrightarrow> r \<in> set (rc_rules rc) \<longrightarrow> jget (Conditions r) ''outbound'' = None"
    by (simp add: sample_routing_def obj_simps)
  from route_references_embedded [OF r this] r show ?thesis by blast
qed

text \<open>
  C5. Under the TUN no routing config can let a DNS query leak to a resolver on the local
  network: the rule list starts with sniffing, then the DNS hijack, then the private-direct
  rule, and only then come the user's rules, one for each, in order.
\<close>

theorem dns_hijack_precedes_direct:
  assumes "routeBlock p True dr = Inr route"
  shows "\<exists>user. jget route ''rules'' = Some (JArr (sniff_rule # hijack_rule # private_direct_rule # map JObj user)) \<and>
     length user = (case sp_routing p of None \<Rightarrow> 0 | Some rc \<Rightarrow> length (rc_rules rc)) \<and>
     (\<forall>rc i. sp_routing p = Some rc \<longrightarrow> i < length (rc_rules rc) \<longrightarrow> compileRule p (rc_rules rc ! i) = Inr (user ! i))"
proof -
  obtain final user where h:
    "(case sp_routing p of None \<Rightarrow> Inr [] | Some rc \<Rightarrow> traverse (compileRule p) (rc_rules rc)) = Inr user"
    "jget route ''rules'' = Some (JArr ([sniff_rule] @ (if True then [hijack_rule, private_direct_rule] else []) @ map JObj user))"
    using routeBlock_Inr [OF assms] by metis
  have "length user = (case sp_routing p of None \<Rightarrow> 0 | Some rc \<Rightarrow> length (rc_rules rc))"
    using h(1) by (auto split: option.splits dest: traverse_length)
  moreover have "compileRule p (rc_rules rc ! i) = Inr (user ! i)"
    if "sp_routing p = Some rc" "i < length (rc_rules rc)" for rc i
    using h(1) that by (simp add: traverse_nth)
  ultimately show ?thesis using h(2) by auto
qed

theorem dns_hijack_precedes_direct_witness:
  "\<exists>route user. routeBlock sample_plan True ''dns-primary'' = Inr route \<and>
     jget route ''rules'' = Some (JArr (sniff_rule # hijack_rule # private_direct_rule # map JObj user))"
proof -
  obtain route where r: "routeBlock sample_plan True ''dns-primary'' = Inr route"
    using routeBlock_iff [of sample_plan] by (auto simp: routing_resolves_def sample_plan_def)
  from dns_hijack_precedes_direct [OF this] r show ?thesis by blast
qed

lemma jget_conditionsOf:
  "obj_ok (Conditions r) \<Longrightarrow> jget (conditionsOf r) k =
   (case jget (Conditions r) k of None \<Rightarrow> None | Some v \<Rightarrow> if v = JNull then None else Some v)"
  unfolding conditionsOf_def
proof (induction "Conditions r" arbitrary: r)
  case (Cons m ms)
  obtain k' v where "m = (k', v)" by (cases m)
  then show ?case
    using Cons.hyps(1) [of "Rule (Target r) (Rules r) ms"] Cons.hyps(2) [symmetric] Cons.prems
    by (auto simp: jget_def obj_ok_def map_of_eq_None_iff [symmetric] split: option.splits)
qed (simp add: jget_def)

definition compiler_keys :: "string list" where
  "compiler_keys = [''rules'', ''action'', ''sniffer'', ''timeout'', ''server'', ''strategy'', ''outbound'']"

lemma compileRule_other_key:
  "compileRule p r = Inr ob \<Longrightarrow> k \<notin> set compiler_keys \<Longrightarrow> jget ob k = jget (conditionsOf r) k"
  by (auto simp: compileRule_def Let_def compiler_keys_def rbind_eq_Inr_iff obj_simps jget_put_if
      split: option.splits if_splits)

text \<open>
  Conditions reach the core verbatim: outside the keys the compiler itself writes, a compiled
  rule has exactly the stored conditions that are not null.
\<close>

theorem conditions_compiled_verbatim:
  assumes "compileRule p r = Inr ob" "obj_ok (Conditions r)" "k \<notin> set compiler_keys"
  shows "jget ob k = (case jget (Conditions r) k of None \<Rightarrow> None | Some v \<Rightarrow> if v = JNull then None else Some v)"
  using compileRule_other_key [OF assms(1,3)] jget_conditionsOf [OF assms(2)] by simp

theorem conditions_compiled_verbatim_witness:
  "\<exists>ob. compileRule sample_plan (hd (rc_rules sample_routing)) = Inr ob \<and> jget ob ''domain'' = Some (JStr ''x'') \<and>
     jget ob ''port'' = None"
proof -
  let ?r = "hd (rc_rules sample_routing)"
  have "rule_resolves sample_plan ?r"
    by (simp add: sample_routing_def rule_resolves_def target_resolves_def IsMember_def memberTags_def nodeTags_def
        sample_plan_def)
  then obtain ob where ob: "compileRule sample_plan ?r = Inr ob"
    using compileRule_iff by blast
  have ok: "obj_ok (Conditions ?r)"
    by (simp add: sample_routing_def obj_ok_def)
  show ?thesis
    using conditions_compiled_verbatim [OF ob ok, of "''domain''"] conditions_compiled_verbatim [OF ob ok, of "''port''"] ob
    by (simp add: compiler_keys_def sample_routing_def obj_simps)
qed

end
