(* ===== verification/Engine_Plan.thy ===== *)
theory Engine_Plan
  imports Engine_Route
begin

text \<open>
  Compilation of a session plan into the two core configs: the xray client config
  (\<^verbatim>\<open>daemon-go/internal/engine/compile.go\<close>) and the sing-box config with its TUN or SOCKS inbound
  (\<^verbatim>\<open>daemon-go/internal/engine/plan.go\<close>). A config is the JSON document that is marshalled.

  Arguments: \<open>goos\<close>, \<open>env\<close> (the value of \<^verbatim>\<open>IRON_LINK_XRAY_LOGLEVEL\<close>), \<open>resolve\<close> (the host-mask CIDRs
  of a server address, from the address parser or the system resolver) and \<open>iter\<close> (the order in
  which a map of hosts is visited).

  Main results: a valid plan of dialable nodes whose routing resolves always compiles, and the
  outbounds it emits are the ones its selector, groups and rules refer to; every socket of the
  xray core carries the mark that keeps it out of the TUN.
\<close>

section \<open>The xray client config\<close>

definition AutoRedirectOutputMark :: int where
  "AutoRedirectOutputMark = 0x2024"

definition xrayLogLevel :: "string \<Rightarrow> string" where
  "xrayLogLevel env = (if env \<noteq> [] then env else ''warning'')"

text \<open>One node's outbound, tagged and with the socket options injected into its stream settings.\<close>

definition xray_node_outbound :: "string \<Rightarrow> profile \<Rightarrow> plan_error + json" where
  "xray_node_outbound i p = (case XrayOutbound p of
     Inl e \<Rightarrow> Inl (XrayFailed e)
   | Inr None \<Rightarrow> Inl (XrayCannotDial (Kind p))
   | Inr (Some ob) \<Rightarrow>
      (let ob = jput ''tag'' (JStr i) ob;
           stream = (case jget ob ''streamSettings'' of Some (JObj st) \<Rightarrow> st | _ \<Rightarrow> []);
           stream = jput ''sockopt'' (JObj [(''mark'', JInt AutoRedirectOutputMark), (''domainStrategy'', JStr ''UseIP'')]) stream
       in Inr (JObj (jput ''streamSettings'' (JObj stream) ob))))"

definition xray_direct_outbound :: json where
  "xray_direct_outbound = JObj [(''tag'', JStr ''direct''), (''protocol'', JStr ''freedom''),
     (''settings'', JObj [(''targetStrategy'', JStr ''UseIP'')]),
     (''streamSettings'', JObj [(''sockopt'', JObj [(''mark'', JInt AutoRedirectOutputMark)])])]"

definition xray_node_rule :: "string \<Rightarrow> json" where
  "xray_node_rule i = JObj [(''inboundTag'', JArr [JStr i]), (''outboundTag'', JStr i)]"

definition xray_dns_rule :: json where
  "xray_dns_rule = JObj [(''inboundTag'', JArr [JStr ''dns-internal'']), (''outboundTag'', JStr ''direct'')]"

definition compileXrayClientNodes :: "string \<Rightarrow> (string \<times> profile) list \<Rightarrow> string \<Rightarrow> plan_error + json obj" where
  "compileXrayClientNodes env nodes stubListen =
    (if nodes = [] then Inl XrayNeedsNode
     else rbind (traverse (\<lambda>(i, p). xray_node_outbound i p) nodes) (\<lambda>obs.
       Inr [(''log'', JObj [(''loglevel'', JStr (xrayLogLevel env))]),
            (''dns'', JObj [(''queryStrategy'', JStr ''UseIPv4''), (''servers'', JArr [JStr ''1.1.1.1'', JStr ''8.8.8.8'']),
                (''tag'', JStr ''dns-internal'')]),
            (''inbounds'', JArr [JObj [(''listen'', JStr stubListen), (''protocol'', JStr ''socks''),
                (''settings'', JObj [(''udp'', JBool False)])]]),
            (''outbounds'', JArr (obs @ [xray_direct_outbound])),
            (''routing'', JObj [(''domainStrategy'', JStr ''AsIs''),
                (''rules'', JArr (xray_dns_rule # map (\<lambda>(i, _). xray_node_rule i) nodes))])]))"

abbreviation singleNodeTag :: string where "singleNodeTag \<equiv> ''proxy''"

definition CompileXrayClient :: "string \<Rightarrow> profile \<Rightarrow> string \<Rightarrow> plan_error + json obj" where
  "CompileXrayClient env p stubListen = compileXrayClientNodes env [(singleNodeTag, p)] stubListen"

definition xrayConfig :: "string \<Rightarrow> session_plan \<Rightarrow> string \<Rightarrow> plan_error + json obj" where
  "xrayConfig env p stubListen =
    (if sp_xray_nodes p \<noteq> [] then
       compileXrayClientNodes env (map (\<lambda>n. (nn_id n, nn_profile n)) (sp_xray_nodes p)) stubListen
     else Inr [(''log'', JObj [(''loglevel'', JStr ''warning'')]),
        (''inbounds'', JArr [JObj [(''listen'', JStr stubListen), (''protocol'', JStr ''socks''),
            (''settings'', JObj [(''udp'', JBool False)])]]),
        (''outbounds'', JArr [JObj [(''protocol'', JStr ''freedom''), (''tag'', JStr ''direct''),
            (''streamSettings'', JObj [(''sockopt'', JObj [(''mark'', JInt AutoRedirectOutputMark)])])]])])"

section \<open>The sing-box config\<close>

text \<open>\<^verbatim>\<open>Duration.String\<close> on whole seconds.\<close>

definition duration_text :: "nat \<Rightarrow> string" where
  "duration_text secs =
    (let h = secs div 3600; m = secs div 60 mod 60; s = FormatUint 10 (secs mod 60) @ ''s'' in
     if secs = 0 then ''0s''
     else if h > 0 then FormatUint 10 h @ ''h'' @ FormatUint 10 m @ ''m'' @ s
     else if m > 0 then FormatUint 10 m @ ''m'' @ s
     else s)"

definition OutboundType :: string where
  "OutboundType = ''xray-reality''"

definition selector_outbound :: "session_plan \<Rightarrow> json obj" where
  "selector_outbound p = [(''type'', JStr ''selector''), (''tag'', JStr SelectorTag),
     (''outbounds'', enc_strings (memberTags p)), (''default'', JStr (sp_active_tag p)),
     (''interrupt_exist_connections'', JBool True)]"

definition urltest_outbound :: "group_plan \<Rightarrow> json obj" where
  "urltest_outbound g =
    (let ob = [(''type'', JStr ''urltest''), (''tag'', JStr (gr_id g)), (''outbounds'', enc_strings (gr_members g)),
               (''interrupt_exist_connections'', JBool True)];
         ob = put_if (gr_probe_url g \<noteq> []) ''url'' (JStr (gr_probe_url g)) ob;
         ob = put_if (gr_interval g > 0) ''interval'' (JStr (duration_text (gr_interval g))) ob;
         ob = put_if (gr_interval g > 30 * 60) ''idle_timeout'' (JStr (duration_text (gr_interval g))) ob
     in put_if (gr_tolerance g > 0) ''tolerance'' (enc_word (gr_tolerance g)) ob)"

definition native_outbound :: "named_node \<Rightarrow> plan_error + json obj" where
  "native_outbound n = (case SingBoxOutbound (nn_profile n) (nn_id n) of
     Inl e \<Rightarrow> Inl (NativeOutbound (nn_name n) e) | Inr ob \<Rightarrow> Inr ob)"

definition xray_member :: "named_node \<Rightarrow> json obj" where
  "xray_member n = [(''type'', JStr OutboundType), (''tag'', JStr (nn_id n)), (''node_id'', JStr (nn_id n))]"

definition planOutbounds :: "session_plan \<Rightarrow> plan_error + json obj list" where
  "planOutbounds p = rbind (traverse native_outbound (sp_natives p)) (\<lambda>natives.
     Inr ([selector_outbound p] @ natives @ map xray_member (sp_xray_nodes p) @ map urltest_outbound (sp_groups p) @
       [[(''type'', JStr ''direct''), (''tag'', JStr ''direct'')], [(''type'', JStr ''block''), (''tag'', JStr ''block'')]]))"

text \<open>\<^verbatim>\<open>t.DNS[0]\<close> panics on an empty list.\<close>

definition planDNS :: "tunables \<Rightarrow> plan_error + (json obj \<times> string)" where
  "planDNS t =
    (let server = (\<lambda>(i, up). JObj (put_if (tb_dns_via_tunnel t) ''detour'' (JStr SelectorTag)
           [(''tag'', JStr (dnsTag i)), (''type'', JStr (ds_type up)), (''server'', JStr (ds_address up))]));
         servers = map server (enumerate 0 (tb_dns t));
         block = (\<lambda>ss. [(''strategy'', JStr (dnsStrategy (tb_dns_strategy t) (tb_ip_version t))), (''servers'', JArr ss)])
     in if tb_dns_via_tunnel t then
          (case tb_dns t of
             [] \<Rightarrow> Inl IndexOutOfRange
           | up # _ \<Rightarrow> Inr (block (servers @ [JObj [(''tag'', JStr ''dns-bootstrap''), (''type'', JStr (ds_type up)),
                 (''server'', JStr (ds_address up))]]), ''dns-bootstrap''))
        else Inr (block servers, dnsTag 0))"

definition serverExcludes :: "(string list \<Rightarrow> string list) \<Rightarrow> (string \<Rightarrow> string list) \<Rightarrow> session_plan \<Rightarrow> string list" where
  "serverExcludes iter resolve p =
    (let hosts = remdups (filter (\<lambda>h. h \<noteq> []) (map (\<lambda>n. ServerAddress (nn_profile n)) (sp_natives p @ sp_xray_nodes p)))
     in rev (foldl (\<lambda>out cidr. if cidr \<in> set out then out else cidr # out) [] (concat (map resolve (iter hosts)))))"

definition tun_inbound ::
  "string \<Rightarrow> (string list \<Rightarrow> string list) \<Rightarrow> (string \<Rightarrow> string list) \<Rightarrow> session_plan \<Rightarrow> string \<Rightarrow> json obj" where
  "tun_inbound goos iter resolve p tunName =
    (let t = plan_tunables p;
         inbound = [(''type'', JStr ''tun''), (''tag'', JStr ''tun-in''), (''address'', enc_strings (tunAddresses (tb_ip_version t))),
           (''mtu'', JInt (tb_tun_mtu t)), (''auto_route'', JBool True), (''strict_route'', JBool (tb_strict_route t)),
           (''stack'', JStr (tb_tun_stack t))];
         inbound = put_if (goos = ''linux'') ''auto_redirect'' (JBool True) inbound;
         lan = (case tb_lan_bypass t of Some l \<Rightarrow> l | None \<Rightarrow> the (tb_lan_bypass DefaultTunables));
         excludes = lan @ (if goos \<noteq> ''linux'' then serverExcludes iter resolve p else []);
         inbound = put_if (excludes \<noteq> []) ''route_exclude_address'' (enc_strings excludes) inbound
     in put_if (tunName \<noteq> []) ''interface_name'' (JStr tunName) inbound)"

definition applyCache :: "session_plan \<Rightarrow> json obj \<Rightarrow> json obj" where
  "applyCache p cfg = put_if (sp_cache_path p \<noteq> []) ''experimental''
     (JObj [(''cache_file'', JObj [(''enabled'', JBool True), (''path'', JStr (sp_cache_path p))])]) cfg"

text \<open>The part the two session shapes share; they differ in the inbound and in the stub's name.\<close>

definition plan_configs :: "string \<Rightarrow> session_plan \<Rightarrow> bool \<Rightarrow> json obj \<Rightarrow> string \<Rightarrow> plan_error + (json obj \<times> json obj)" where
  "plan_configs env p tun inbound stub = (case validate p of
     Some e \<Rightarrow> Inl e
   | None \<Rightarrow>
      rbind (planOutbounds p) (\<lambda>outbounds.
      rbind (planDNS (plan_tunables p)) (\<lambda>(dns, domainResolver).
      rbind (routeBlock p tun domainResolver) (\<lambda>route.
      rbind (xrayConfig env p stub) (\<lambda>xray.
        let cfg = [(''log'', JObj [(''level'', JStr (tb_log_level (plan_tunables p)))]), (''dns'', JObj dns),
                   (''inbounds'', JArr [JObj inbound]), (''outbounds'', JArr (map JObj outbounds)), (''route'', JObj route)]
        in Inr (applyCache p cfg, xray))))))"

definition PlanTUNConfigs ::
  "string \<Rightarrow> string \<Rightarrow> (string list \<Rightarrow> string list) \<Rightarrow> (string \<Rightarrow> string list) \<Rightarrow> session_plan \<Rightarrow> string \<Rightarrow>
   plan_error + (json obj \<times> json obj)" where
  "PlanTUNConfigs goos env iter resolve p tunName =
     plan_configs env p True (tun_inbound goos iter resolve p tunName) ''@il-xray-plan-tun''"

definition PlanSocksConfigs :: "string \<Rightarrow> session_plan \<Rightarrow> string \<Rightarrow> int \<Rightarrow> plan_error + (json obj \<times> json obj)" where
  "PlanSocksConfigs env p host port = plan_configs env p False
     [(''type'', JStr ''socks''), (''tag'', JStr ''socks-in''), (''listen'', JStr host), (''listen_port'', JInt port)]
     ''@il-xray-plan-socks''"

section \<open>Outbounds\<close>

lemma native_outbound_tag: "native_outbound n = Inr ob \<Longrightarrow> jget ob ''tag'' = Some (JStr (nn_id n))"
  by (auto simp: native_outbound_def dest: any_impl.singbox_tag split: sum.splits)

lemma native_outbound_total: "dialableBy (nn_profile n) CoreSingBox \<Longrightarrow> \<exists>ob. native_outbound n = Inr ob"
  using any_impl.singbox_total [of "nn_profile n" "nn_id n"] by (auto simp: native_outbound_def)

lemma native_tags:
  "traverse native_outbound ns = Inr obs \<Longrightarrow> map (\<lambda>ob. jget ob ''tag'') obs = map (\<lambda>n. Some (JStr (nn_id n))) ns"
  by (induction ns arbitrary: obs) (auto simp: rbind_eq_Inr_iff native_outbound_tag)

lemma urltest_tag: "jget (urltest_outbound g) ''tag'' = Some (JStr (gr_id g))"
  by (simp add: urltest_outbound_def Let_def jget_put_if obj_simps)

lemma planOutbounds_tags:
  assumes "planOutbounds p = Inr obs"
  shows "map (\<lambda>ob. jget ob ''tag'') obs = map (\<lambda>t. Some (JStr t)) (plan_tags p)"
  using assms native_tags
  by (auto simp: planOutbounds_def rbind_eq_Inr_iff plan_tags_def memberTags_def nodeTags_def selector_outbound_def
      xray_member_def urltest_tag obj_simps o_def)

text \<open>What an emitted outbound names: the members of a selector or urltest, the selector's default, and the outbound it dials through.\<close>

definition outbound_refs :: "json obj \<Rightarrow> json list" where
  "outbound_refs ob = (case jget ob ''outbounds'' of Some (JArr rs) \<Rightarrow> rs | _ \<Rightarrow> []) @
     (case jget ob ''default'' of Some r \<Rightarrow> [r] | None \<Rightarrow> []) @ (case jget ob ''detour'' of Some r \<Rightarrow> [r] | None \<Rightarrow> [])"

lemma stream_refs: "stream_blocks s t ob = Inr ob' \<Longrightarrow> outbound_refs ob' = outbound_refs ob"
  by (simp add: outbound_refs_def stream_blocks_get)

lemma singbox_refs: "SingBoxOutbound c tag = Inr ob \<Longrightarrow> outbound_refs ob = []"
  by (cases c)
     (auto simp: outbound_defs Let_def dest!: stream_refs, simp_all add: outbound_refs_def obj_simps jget_put_if put_str_def split: option.splits if_splits)

lemma native_refs: "traverse native_outbound ns = Inr obs \<Longrightarrow> map outbound_refs obs = map (\<lambda>_. []) ns"
  by (induction ns arbitrary: obs) (auto simp: rbind_eq_Inr_iff native_outbound_def singbox_refs split: sum.splits)

lemma urltest_refs: "outbound_refs (urltest_outbound g) = map JStr (gr_members g)"
  by (simp add: urltest_outbound_def outbound_refs_def enc_strings_def Let_def jget_put_if obj_simps)

lemma pairs_eqI: "map (fst \<circ> f) xs = map (fst \<circ> g) ys \<Longrightarrow> map (snd \<circ> f) xs = map (snd \<circ> g) ys \<Longrightarrow> map f xs = map g ys"
  by (induction xs arbitrary: ys) (auto simp: prod_eq_iff Cons_eq_map_conv map_eq_Cons_conv)

lemma planOutbounds_refs:
  assumes "planOutbounds p = Inr obs"
  shows "map outbound_refs obs = map (map JStr) ((memberTags p @ [sp_active_tag p]) # map (\<lambda>_. []) (nodeTags p) @ map gr_members (sp_groups p) @ [[], []])"
proof -
  obtain natives where "traverse native_outbound (sp_natives p) = Inr natives"
      "obs = [selector_outbound p] @ natives @ map xray_member (sp_xray_nodes p) @ map urltest_outbound (sp_groups p) @
        [[(''type'', JStr ''direct''), (''tag'', JStr ''direct'')], [(''type'', JStr ''block''), (''tag'', JStr ''block'')]]"
    using assms by (auto simp: planOutbounds_def rbind_eq_Inr_iff)
  with native_refs [OF this(1)] show ?thesis
    by (simp add: urltest_refs nodeTags_def o_def) (simp add: outbound_refs_def selector_outbound_def xray_member_def enc_strings_def obj_simps)
qed

lemma plan_configs_Inr:
  assumes "plan_configs env p tun inbound stub = Inr (sb, xr)"
  shows "validate p = None \<and> (\<exists>obs dns resolver route. planOutbounds p = Inr obs \<and>
     planDNS (plan_tunables p) = Inr (dns, resolver) \<and> routeBlock p tun resolver = Inr route \<and> xrayConfig env p stub = Inr xr \<and>
     jget sb ''outbounds'' = Some (JArr (map JObj obs)) \<and> jget sb ''dns'' = Some (JObj dns) \<and>
     jget sb ''route'' = Some (JObj route) \<and> jget sb ''inbounds'' = Some (JArr [JObj inbound]))"
proof (cases "validate p")
  case None
  with assms obtain obs dns resolver route where
    "planOutbounds p = Inr obs" "planDNS (plan_tunables p) = Inr (dns, resolver)" "routeBlock p tun resolver = Inr route"
    "xrayConfig env p stub = Inr xr" "sb = applyCache p [(''log'', JObj [(''level'', JStr (tb_log_level (plan_tunables p)))]),
       (''dns'', JObj dns), (''inbounds'', JArr [JObj inbound]), (''outbounds'', JArr (map JObj obs)), (''route'', JObj route)]"
    by (auto simp: plan_configs_def rbind_eq_Inr_iff Let_def)
  with None show ?thesis by (simp add: applyCache_def jget_put_if obj_simps)
qed (use assms in \<open>simp add: plan_configs_def\<close>)

text \<open>
  C6. A compiled TUN config is closed. Its outbounds are the selector, the plan's nodes and groups in order, direct and block. The emitted selector lists
  exactly the plan's members and defaults to the active one; each emitted group lists exactly the members of its group in the plan, which are nodes, never
  a group or the selector; no other outbound names any. Whatever an emitted outbound names is the tag of an emitted outbound, and member tags are distinct.
\<close>

theorem plan_outbounds_closed:
  assumes "PlanTUNConfigs goos env iter resolve p tunName = Inr (sb, xr)"
  shows "\<exists>obs. jget sb ''outbounds'' = Some (JArr (map JObj obs)) \<and>
     map (\<lambda>ob. (jget ob ''tag'', outbound_refs ob)) obs = map (\<lambda>(t, rs). (Some (JStr t), map JStr rs))
       ([(SelectorTag, memberTags p @ [sp_active_tag p])] @ map (\<lambda>t. (t, [])) (nodeTags p) @
        map (\<lambda>g. (gr_id g, gr_members g)) (sp_groups p) @ [(''direct'', []), (''block'', [])]) \<and>
     (\<forall>ob \<in> set obs. \<forall>r \<in> set (outbound_refs ob). \<exists>ob' \<in> set obs. jget ob' ''tag'' = Some r) \<and>
     sp_active_tag p \<in> set (memberTags p) \<and> distinct (memberTags p) \<and>
     (\<forall>g \<in> set (sp_groups p). gr_members g \<noteq> [] \<and> set (gr_members g) \<subseteq> set (nodeTags p))"
proof -
  obtain obs where obs: "validate p = None" "planOutbounds p = Inr obs" "jget sb ''outbounds'' = Some (JArr (map JObj obs))"
    using plan_configs_Inr [OF assms [unfolded PlanTUNConfigs_def]] by blast
  have ok: "sp_active_tag p \<in> set (memberTags p)" "distinct (memberTags p)"
      "\<forall>g \<in> set (sp_groups p). gr_members g \<noteq> [] \<and> set (gr_members g) \<subseteq> set (nodeTags p)"
    using obs(1) by (simp_all add: validate_None plan_ok_def)
  note tags = planOutbounds_tags [OF obs(2)] and refs = planOutbounds_refs [OF obs(2)]
  have both: "map (\<lambda>ob. (jget ob ''tag'', outbound_refs ob)) obs = map (\<lambda>(t, rs). (Some (JStr t), map JStr rs))
       ([(SelectorTag, memberTags p @ [sp_active_tag p])] @ map (\<lambda>t. (t, [])) (nodeTags p) @
        map (\<lambda>g. (gr_id g, gr_members g)) (sp_groups p) @ [(''direct'', []), (''block'', [])])"
    by (rule pairs_eqI) (simp_all add: o_def case_prod_unfold tags [unfolded o_def] refs plan_tags_def memberTags_def)
  have "\<exists>ob' \<in> set obs. jget ob' ''tag'' = Some r" if "ob \<in> set obs" "r \<in> set (outbound_refs ob)" for ob r
  proof -
    have "outbound_refs ob \<in> set (map outbound_refs obs)" using that(1) by simp
    then obtain rs where rs: "outbound_refs ob = map JStr rs"
        "rs \<in> set ((memberTags p @ [sp_active_tag p]) # map (\<lambda>_. []) (nodeTags p) @ map gr_members (sp_groups p) @ [[], []])"
      unfolding refs by (metis (no_types) imageE list.set_map)
    have "set (nodeTags p) \<subseteq> set (memberTags p)" by (auto simp: memberTags_def)
    with rs(2) ok(1,3) have "set rs \<subseteq> set (memberTags p)" by (elim set_ConsD [elim_format]) auto
    with rs(1) that(2) have "r \<in> JStr ` set (plan_tags p)" by (auto simp: plan_tags_def)
    then have "Some r \<in> set (map (\<lambda>ob. jget ob ''tag'') obs)" unfolding tags by auto
    then show ?thesis by auto
  qed
  with obs(3) both ok show ?thesis by blast
qed

section \<open>Plans that compile\<close>

definition plan_dialable :: "session_plan \<Rightarrow> bool" where
  "plan_dialable p = ((\<forall>n \<in> set (sp_natives p). dialableBy (nn_profile n) CoreSingBox) \<and>
     (\<forall>n \<in> set (sp_xray_nodes p). dialableBy (nn_profile n) CoreXray))"

lemma xray_node_outbound_total: "dialableBy p CoreXray \<Longrightarrow> \<exists>j. xray_node_outbound i p = Inr j"
  using any_impl.xray_total [of p] by (auto simp: xray_node_outbound_def Let_def)

lemma xrayConfig_total:
  assumes "\<forall>n \<in> set (sp_xray_nodes p). dialableBy (nn_profile n) CoreXray"
  shows "\<exists>x. xrayConfig env p stub = Inr x"
proof -
  let ?ns = "map (\<lambda>n. (nn_id n, nn_profile n)) (sp_xray_nodes p)"
  have "\<exists>obs. traverse (\<lambda>(i, p). xray_node_outbound i p) ?ns = Inr obs"
    using assms by (intro traverse_Inr_total) (auto intro: xray_node_outbound_total)
  then show ?thesis
    by (auto simp: xrayConfig_def compileXrayClientNodes_def)
qed

lemma planDNS_total: "tb_dns t \<noteq> [] \<Longrightarrow> \<exists>r. planDNS t = Inr r"
  by (cases "tb_dns t") (auto simp: planDNS_def Let_def)

lemma plan_configs_total:
  assumes "validate p = None" "plan_dialable p" "routing_resolves p" "tb_dns (plan_tunables p) \<noteq> []"
  shows "\<exists>c. plan_configs env p tun inbound stub = Inr c"
proof -
  obtain natives where "traverse native_outbound (sp_natives p) = Inr natives"
    using traverse_Inr_total [of "sp_natives p" native_outbound] native_outbound_total assms(2)
    by (auto simp: plan_dialable_def)
  then obtain obs where obs: "planOutbounds p = Inr obs" by (simp add: planOutbounds_def)
  obtain dns resolver where dns: "planDNS (plan_tunables p) = Inr (dns, resolver)"
    using planDNS_total [OF assms(4)] by auto
  obtain route where route: "routeBlock p tun resolver = Inr route"
    using routeBlock_iff assms(3) by blast
  obtain x where "xrayConfig env p stub = Inr x"
    using xrayConfig_total assms(2) plan_dialable_def by blast
  with obs dns route assms(1) show ?thesis by (simp add: plan_configs_def Let_def)
qed

text \<open>
  C7. Activation cannot fail in the compiler: a valid plan whose members their core can dial,
  whose routing resolves and that has a DNS server compiles, as a TUN session and as a SOCKS
  session.
\<close>

theorem plan_compiles:
  assumes "validate p = None" "plan_dialable p" "routing_resolves p" "tb_dns (plan_tunables p) \<noteq> []"
  shows "(\<exists>c. PlanTUNConfigs goos env iter resolve p tunName = Inr c) \<and> (\<exists>c. PlanSocksConfigs env p host port = Inr c)"
  using plan_configs_total [OF assms] by (simp add: PlanTUNConfigs_def PlanSocksConfigs_def)

lemma sample_plan_compilable:
  "plan_dialable sample_plan" "routing_resolves sample_plan" "tb_dns (plan_tunables sample_plan) \<noteq> []"
  by (simp_all add: plan_dialable_def sample_plan_def sample_ss_def shadowsocks_dialableBy_def routing_resolves_def
      plan_tunables_def DefaultTunables_def)

theorem plan_compiles_witness:
  "(\<exists>c. PlanTUNConfigs ''linux'' [] (\<lambda>hs. hs) (\<lambda>_. []) sample_plan ''iltun0'' = Inr c) \<and>
   (\<exists>c. PlanSocksConfigs [] sample_plan ''127.0.0.1'' 10808 = Inr c)"
  by (rule plan_compiles [OF sample_plan_valid sample_plan_compilable])

theorem plan_outbounds_closed_witness:
  "\<exists>sb xr obs. PlanTUNConfigs ''linux'' [] (\<lambda>hs. hs) (\<lambda>_. []) sample_plan ''iltun0'' = Inr (sb, xr) \<and>
     jget sb ''outbounds'' = Some (JArr (map JObj obs)) \<and> map outbound_refs obs =
       map (map JStr) [[''a'', ''b'', ''g'', ''g''], [], [], [''a'', ''b''], [], []]"
proof -
  obtain sb xr where "PlanTUNConfigs ''linux'' [] (\<lambda>hs. hs) (\<lambda>_. []) sample_plan ''iltun0'' = Inr (sb, xr)"
    using plan_configs_total [OF sample_plan_valid sample_plan_compilable] unfolding PlanTUNConfigs_def by (metis surj_pair)
  moreover from plan_outbounds_closed [OF this] obtain obs where obs: "jget sb ''outbounds'' = Some (JArr (map JObj obs))"
      "map (\<lambda>ob. (jget ob ''tag'', outbound_refs ob)) obs = map (\<lambda>(t, rs). (Some (JStr t), map JStr rs))
       ([(SelectorTag, memberTags sample_plan @ [sp_active_tag sample_plan])] @ map (\<lambda>t. (t, [])) (nodeTags sample_plan) @
        map (\<lambda>g. (gr_id g, gr_members g)) (sp_groups sample_plan) @ [(''direct'', []), (''block'', [])])" by blast
  moreover from arg_cong [OF obs(2), of "map snd"] have "map outbound_refs obs = map (map JStr) [[''a'', ''b'', ''g'', ''g''], [], [], [''a'', ''b''], [], []]"
    by (simp add: o_def sample_plan_def memberTags_def nodeTags_def)
  ultimately show ?thesis by blast
qed

section \<open>Own traffic\<close>

text \<open>The socket mark of an xray outbound.\<close>

definition outbound_mark :: "json \<Rightarrow> json option" where
  "outbound_mark j = (case j of
     JObj ob \<Rightarrow> (case jget ob ''streamSettings'' of
       Some (JObj st) \<Rightarrow> (case jget st ''sockopt'' of Some (JObj so) \<Rightarrow> jget so ''mark'' | _ \<Rightarrow> None)
     | _ \<Rightarrow> None)
   | _ \<Rightarrow> None)"

definition outbound_tag :: "json \<Rightarrow> json option" where
  "outbound_tag j = (case j of JObj ob \<Rightarrow> jget ob ''tag'' | _ \<Rightarrow> None)"

lemma xray_node_outbound_marked:
  "xray_node_outbound i p = Inr j \<Longrightarrow> outbound_mark j = Some (JInt AutoRedirectOutputMark) \<and> outbound_tag j = Some (JStr i)"
  by (auto simp: xray_node_outbound_def Let_def outbound_mark_def outbound_tag_def obj_simps split: sum.splits option.splits)

lemma xray_outbounds_marked:
  "traverse (\<lambda>(i, p). xray_node_outbound i p) nodes = Inr obs \<Longrightarrow>
   (\<forall>j \<in> set obs. outbound_mark j = Some (JInt AutoRedirectOutputMark)) \<and>
   map outbound_tag obs = map (\<lambda>(i, _). Some (JStr i)) nodes"
  by (induction nodes arbitrary: obs) (auto simp: rbind_eq_Inr_iff dest!: xray_node_outbound_marked)

lemma compileXray_Inr:
  assumes "compileXrayClientNodes env nodes stub = Inr cfg"
  obtains obs where "nodes \<noteq> []" "traverse (\<lambda>(i, p). xray_node_outbound i p) nodes = Inr obs"
    "jget cfg ''outbounds'' = Some (JArr (obs @ [xray_direct_outbound]))"
    "jget cfg ''routing'' = Some (JObj [(''domainStrategy'', JStr ''AsIs''),
       (''rules'', JArr (xray_dns_rule # map (\<lambda>(i, _). xray_node_rule i) nodes))])"
  using assms by (auto simp: compileXrayClientNodes_def rbind_eq_Inr_iff obj_simps split: if_splits)

text \<open>
  C8. In a compiled xray config every outbound, the nodes' and the direct one, carries the mark
  that keeps its sockets out of the TUN; the first node is the default outbound; and the first
  routing rule sends the core's own DNS to the direct outbound, never to a node.
\<close>

theorem xray_outbounds_exempt:
  assumes "compileXrayClientNodes env nodes stub = Inr cfg"
  shows "\<exists>obs. jget cfg ''outbounds'' = Some (JArr obs) \<and>
     (\<forall>j \<in> set obs. outbound_mark j = Some (JInt AutoRedirectOutputMark)) \<and>
     map outbound_tag obs = map (\<lambda>i. Some (JStr i)) (map fst nodes @ [''direct'']) \<and>
     (\<exists>rules ds. jget cfg ''routing'' = Some (JObj [ds, (''rules'', JArr rules)]) \<and>
        rules = xray_dns_rule # map xray_node_rule (map fst nodes))"
proof -
  obtain obs where h: "nodes \<noteq> []" "traverse (\<lambda>(i, p). xray_node_outbound i p) nodes = Inr obs"
    "jget cfg ''outbounds'' = Some (JArr (obs @ [xray_direct_outbound]))"
    "jget cfg ''routing'' = Some (JObj [(''domainStrategy'', JStr ''AsIs''),
       (''rules'', JArr (xray_dns_rule # map (\<lambda>(i, _). xray_node_rule i) nodes))])"
    by (rule compileXray_Inr [OF assms])
  have "outbound_mark xray_direct_outbound = Some (JInt AutoRedirectOutputMark)"
    "outbound_tag xray_direct_outbound = Some (JStr ''direct'')"
    by (simp_all add: xray_direct_outbound_def outbound_mark_def outbound_tag_def obj_simps)
  then show ?thesis
    using xray_outbounds_marked [OF h(2)] h(3,4)
    by (intro exI [of _ "obs @ [xray_direct_outbound]"]) (auto simp: case_prod_unfold o_def)
qed

theorem xray_outbounds_exempt_witness:
  "\<exists>cfg obs. compileXrayClientNodes [] [(''b'', sample_ss)] ''@stub'' = Inr cfg \<and> jget cfg ''outbounds'' = Some (JArr obs) \<and>
     (\<forall>j \<in> set obs. outbound_mark j = Some (JInt AutoRedirectOutputMark))"
proof -
  obtain j where "xray_node_outbound ''b'' sample_ss = Inr j"
    using xray_node_outbound_total by (fastforce simp: sample_ss_def shadowsocks_dialableBy_def)
  then obtain cfg where "compileXrayClientNodes [] [(''b'', sample_ss)] ''@stub'' = Inr cfg"
    by (simp add: compileXrayClientNodes_def)
  then show ?thesis using xray_outbounds_exempt by blast
qed

lemma dnsTag_primary [simp]: "dnsTag 0 = ''dns-primary''"
  by (simp add: dnsTag_def)

text \<open>
  Node domains never resolve through the proxy: the resolver the route names is a DNS server
  of the block, and that server has no detour, also when queries are sent through the tunnel.
\<close>

theorem bootstrap_resolver_direct:
  assumes "planDNS t = Inr (dns, resolver)" "tb_dns t \<noteq> []"
  shows "\<exists>servers ob. jget dns ''servers'' = Some (JArr servers) \<and> JObj ob \<in> set servers \<and>
     jget ob ''tag'' = Some (JStr resolver) \<and> jget ob ''detour'' = None"
proof (cases "tb_dns t")
  case (Cons up ups)
  show ?thesis
  proof (cases "tb_dns_via_tunnel t")
    case True
    then show ?thesis using assms(1) Cons
      by (intro exI [of _ "case jget dns ''servers'' of Some (JArr ss) \<Rightarrow> ss"]
          exI [of _ "[(''tag'', JStr ''dns-bootstrap''), (''type'', JStr (ds_type up)), (''server'', JStr (ds_address up))]"])
        (auto simp: planDNS_def Let_def obj_simps)
  next
    case False
    then show ?thesis using assms(1) Cons
      by (intro exI [of _ "case jget dns ''servers'' of Some (JArr ss) \<Rightarrow> ss"]
          exI [of _ "[(''tag'', JStr (dnsTag 0)), (''type'', JStr (ds_type up)), (''server'', JStr (ds_address up))]"])
        (auto simp: planDNS_def Let_def obj_simps put_if_def)
  qed
qed (use assms in simp)

theorem bootstrap_resolver_direct_witness:
  "\<exists>dns resolver servers ob. planDNS (DefaultTunables\<lparr>tb_dns_via_tunnel := True\<rparr>) = Inr (dns, resolver) \<and>
     jget dns ''servers'' = Some (JArr servers) \<and> JObj ob \<in> set servers \<and>
     jget ob ''tag'' = Some (JStr resolver) \<and> jget ob ''detour'' = None"
proof -
  let ?t = "DefaultTunables\<lparr>tb_dns_via_tunnel := True\<rparr>"
  have ne: "tb_dns ?t \<noteq> []" by (simp add: DefaultTunables_def)
  then obtain dns resolver where "planDNS ?t = Inr (dns, resolver)"
    using planDNS_total by (metis surj_pair)
  from bootstrap_resolver_direct [OF this ne] this show ?thesis by blast
qed

end
