(* ===== verification/Manager_Plan.thy ===== *)
theory Manager_Plan
  imports Engine_Plan
begin

text \<open>
  From a stored profile to a session plan (\<^verbatim>\<open>buildPlan\<close> and \<^verbatim>\<open>prepareActivation\<close> of
  \<^verbatim>\<open>daemon-go/cmd/iron-link-daemon/manager.go\<close>, \<^verbatim>\<open>resolveGroupMemberIDs\<close> of \<^verbatim>\<open>manager_store.go\<close>,
  \<^verbatim>\<open>tunablesFromSettings\<close> and \<^verbatim>\<open>engineRelevantChanged\<close> of \<^verbatim>\<open>manager_settings.go\<close>).

  A warning records which target fell back and why; its message text is not modelled.

  Main result: whatever plan \<open>buildPlan\<close> returns for a profile with unique node ids is valid, made of
  nodes their core can dial, and has a routing that resolves; so it compiles.
\<close>

section \<open>Embedding the nodes\<close>

datatype manager_error =
    StoreError file_error
  | SettingsError "file_error + settings_error"
  | NoProfileNamed
  | NodeNotFound string string
  | NoActiveNode string
  | RoutingNotFound string string
  | ActiveNotDialable proxy_error
  | ActiveXrayFailed string proxy_error
  | ActiveXrayCannotDial string string
  | GroupWithoutMembers string
  | NotElevated
  | PlanError plan_error

text \<open>
  The loop over the profile's nodes; \<open>nats\<close> and \<open>xrs\<close> collect the native and the xray members.
  Selection only succeeds on a node that has a profile.
\<close>

fun embed_nodes ::
  "string \<Rightarrow> node list \<Rightarrow> named_node list \<Rightarrow> named_node list \<Rightarrow> manager_error + (named_node list \<times> named_node list)" where
  "embed_nodes activeID [] nats xrs = Inr (nats, xrs)"
| "embed_nodes activeID (n # ns) nats xrs =
    (if IsGroup n then embed_nodes activeID ns nats xrs
     else let isActive = (nd_id n = activeID); p = the (nd_doc n);
              named = \<lparr>nn_id = nd_id n, nn_name = node_DisplayName n, nn_profile = p\<rparr> in
       case SelectCore (nd_doc n) CoreSingBox (nd_core_override n) of
         Inl e \<Rightarrow> if isActive then Inl (ActiveNotDialable e) else embed_nodes activeID ns nats xrs
       | Inr core \<Rightarrow>
           if core = CoreSingBox then embed_nodes activeID ns (nats @ [named]) xrs
           else (case XrayOutbound p of
               Inl e \<Rightarrow> if isActive then Inl (ActiveXrayFailed (node_DisplayName n) e) else embed_nodes activeID ns nats xrs
             | Inr None \<Rightarrow> if isActive then Inl (ActiveXrayCannotDial (node_DisplayName n) (Kind p))
                           else embed_nodes activeID ns nats xrs
             | Inr (Some _) \<Rightarrow> embed_nodes activeID ns nats (if isActive then named # xrs else xrs @ [named])))"

section \<open>Groups\<close>

definition resolveGroupMemberIDs :: "user_profile \<Rightarrow> group_spec \<Rightarrow> string list" where
  "resolveGroupMemberIDs p g = (case gs_all_of_sub g of
     Some sub \<Rightarrow> map nd_id (filter (\<lambda>n. \<not> IsGroup n \<and> nd_sub_id n = Some sub) (pf_nodes p))
   | None \<Rightarrow> filter (\<lambda>i. case FindNodeByID p i of None \<Rightarrow> False | Some n \<Rightarrow> \<not> IsGroup n) (gs_members g))"

definition routing_targets :: "routing_config \<Rightarrow> rule_target list" where
  "routing_targets rc = rc_default_target rc # map Target (rc_rules rc)"

text \<open>The active group, then every group a target names, each once.\<close>

definition add_target_group :: "user_profile \<Rightarrow> node list \<Rightarrow> rule_target \<Rightarrow> node list" where
  "add_target_group p groups t =
    (if rt_kind t \<noteq> TargetNode then groups
     else case FindNodeByID p (rt_node t) of
       None \<Rightarrow> groups
     | Some g \<Rightarrow> if IsGroup g \<and> nd_id g \<notin> nd_id ` set groups then groups @ [g] else groups)"

definition groups_in_play :: "user_profile \<Rightarrow> node \<Rightarrow> routing_config option \<Rightarrow> node list" where
  "groups_in_play p active rc =
     foldl (add_target_group p) (if IsGroup active then [active] else [])
       (case rc of None \<Rightarrow> [] | Some c \<Rightarrow> routing_targets c)"

fun lower_groups :: "user_profile \<Rightarrow> (string \<Rightarrow> bool) \<Rightarrow> string \<Rightarrow> node list \<Rightarrow> manager_error + group_plan list" where
  "lower_groups p embedded activeID [] = Inr []"
| "lower_groups p embedded activeID (g # gs) =
    (let spec = the (nd_group g); members = filter embedded (resolveGroupMemberIDs p spec) in
     if members = [] \<and> nd_id g = activeID then Inl (GroupWithoutMembers (node_DisplayName g))
     else if members = [] then lower_groups p embedded activeID gs
     else rbind (lower_groups p embedded activeID gs) (\<lambda>r.
       Inr (\<lparr>gr_id = nd_id g, gr_name = node_DisplayName g, gr_members = members, gr_probe_url = gp_url (gs_probe spec),
             gr_interval = unat (gp_interval_sec (gs_probe spec)), gr_tolerance = gp_tolerance (gs_probe spec)\<rparr> # r)))"

section \<open>Unresolvable targets\<close>

datatype fallback_reason = NoLongerExists | NoDialableMembers | CannotBeDialed

text \<open>Position 0 is the default target, position \<open>i\<close> the rule \<open>i\<close>.\<close>

datatype routing_warning = FellBack nat string fallback_reason

definition falls_back :: "session_plan \<Rightarrow> rule_target \<Rightarrow> bool" where
  "falls_back plan t = (rt_kind t = TargetNode \<and> \<not> IsMember plan (rt_node t))"

definition fallback_target :: "session_plan \<Rightarrow> rule_target \<Rightarrow> rule_target" where
  "fallback_target plan t = (if falls_back plan t then zero_target\<lparr>rt_kind := TargetDefaultProxy\<rparr> else t)"

definition fallback_warning :: "user_profile \<Rightarrow> nat \<Rightarrow> rule_target \<Rightarrow> routing_warning" where
  "fallback_warning p i t = FellBack i (rt_node t) (case FindNodeByID p (rt_node t) of
     None \<Rightarrow> NoLongerExists | Some n \<Rightarrow> if IsGroup n then NoDialableMembers else CannotBeDialed)"

definition fallback_routing :: "session_plan \<Rightarrow> routing_config \<Rightarrow> routing_config" where
  "fallback_routing plan rc = rc\<lparr>rc_default_target := fallback_target plan (rc_default_target rc),
     rc_rules := map (\<lambda>r. Rule (fallback_target plan (Target r)) (Rules r) (Conditions r)) (rc_rules rc)\<rparr>"

definition fallback_warnings :: "user_profile \<Rightarrow> session_plan \<Rightarrow> routing_config \<Rightarrow> routing_warning list" where
  "fallback_warnings p plan rc = map (\<lambda>(i, t). fallback_warning p i t)
     (filter (\<lambda>(_, t). falls_back plan t) (enumerate 0 (routing_targets rc)))"

definition buildPlan ::
  "user_profile \<Rightarrow> node \<Rightarrow> routing_config option \<Rightarrow> manager_error + (session_plan \<times> routing_warning list)" where
  "buildPlan prof active rc =
     rbind (embed_nodes (nd_id active) (pf_nodes prof) [] []) (\<lambda>(nats, xrs).
       let plan = \<lparr>sp_natives = nats, sp_xray_nodes = xrs, sp_active_tag = nd_id active, sp_routing = rc,
                   sp_cache_path = [], sp_tunables = None, sp_groups = []\<rparr> in
       rbind (lower_groups prof (IsMember plan) (nd_id active) (groups_in_play prof active rc)) (\<lambda>lowered.
         let plan = plan\<lparr>sp_groups := lowered\<rparr> in
         case rc of
           None \<Rightarrow> Inr (plan, [])
         | Some c \<Rightarrow> Inr (plan\<lparr>sp_routing := Some (fallback_routing plan c)\<rparr>, fallback_warnings prof plan c)))"

section \<open>Preparing an activation\<close>

definition tunablesFromSettings :: "settings \<Rightarrow> tunables" where
  "tunablesFromSettings s = \<lparr>tb_log_level = st_log_level s, tb_ip_version = st_ip_version s,
     tb_dns_strategy = dn_strategy (st_dns s), tb_dns = dn_servers (st_dns s), tb_dns_via_tunnel = dn_via_tunnel (st_dns s),
     tb_lan_bypass = Some (if lb_enabled (st_lan_bypass s) then lb_cidrs (st_lan_bypass s) else []),
     tb_tun_mtu = tn_mtu (st_tun s), tb_tun_stack = tn_stack (st_tun s), tb_strict_route = tn_strict_route (st_tun s)\<rparr>"

definition engineRelevantChanged :: "settings \<Rightarrow> settings \<Rightarrow> bool" where
  "engineRelevantChanged a b =
    (let neutral = (\<lambda>s. s\<lparr>st_restore_on_start := False, st_subscription_user_agent := [],
           st_latency_probe := \<lparr>pr_url = [], pr_budget_secs = 0\<rparr>, st_auto_update := False,
           st_update_via_tunnel := False, st_update_via_direct := False\<rparr>)
     in neutral a \<noteq> neutral b)"

definition tunInterfaceName :: "string \<Rightarrow> string" where
  "tunInterfaceName goos = (if goos = ''darwin'' then [] else ''tun777'')"

record activate_request =
  rq_profile :: "string option"
  rq_node :: "string option"
  rq_routing :: "string option"
  rq_tun :: "bool option"

record activation =
  ac_profile_name :: string
  ac_node_name :: string
  ac_node_id :: string
  ac_routing :: "routing_config option"
  ac_tun :: bool
  ac_plan :: session_plan
  ac_warnings :: "routing_warning list"
  ac_sb_cfg :: "json obj"
  ac_xray_cfg :: "json obj"

text \<open>
  What \<^verbatim>\<open>prepareActivation\<close> reads from the store and the host: the active profile's name, the
  profile loader, the settings, the config directory, and whether the process may open a TUN.
\<close>

record activation_env =
  en_active_profile :: "file_error + string"
  en_load_profile :: "string \<Rightarrow> file_error + user_profile"
  en_settings :: "(file_error + settings_error) + settings"
  en_cache_path :: string
  en_goos :: string
  en_xray_log :: string
  en_elevated :: bool
  en_iter :: "string list \<Rightarrow> string list"
  en_resolve :: "string \<Rightarrow> string list"

definition request_profile :: "activation_env \<Rightarrow> activate_request \<Rightarrow> manager_error + string" where
  "request_profile env req = (case rq_profile req of
     Some (c # cs) \<Rightarrow> Inr (c # cs)
   | _ \<Rightarrow> (case en_active_profile env of
       Inl e \<Rightarrow> Inl (StoreError e)
     | Inr name \<Rightarrow> if name = [] then Inl NoProfileNamed else Inr name))"

definition request_node :: "user_profile \<Rightarrow> string \<Rightarrow> activate_request \<Rightarrow> manager_error + node" where
  "request_node prof profileName req = (case rq_node req of
     Some (c # cs) \<Rightarrow> (case FindNode prof (c # cs) of
       None \<Rightarrow> Inl (NodeNotFound (c # cs) profileName) | Some n \<Rightarrow> Inr n)
   | _ \<Rightarrow> (case ActiveNode prof of None \<Rightarrow> Inl (NoActiveNode profileName) | Some n \<Rightarrow> Inr n))"

definition request_routing :: "user_profile \<Rightarrow> string \<Rightarrow> activate_request \<Rightarrow> manager_error + routing_config option" where
  "request_routing prof profileName req = (case rq_routing req of
     Some (c # cs) \<Rightarrow> (case FindRouting prof (c # cs) of
       None \<Rightarrow> Inl (RoutingNotFound (c # cs) profileName) | Some rc \<Rightarrow> Inr (Some rc))
   | _ \<Rightarrow> Inr (ActiveRouting prof))"

definition compile_plan :: "activation_env \<Rightarrow> bool \<Rightarrow> session_plan \<Rightarrow> int \<Rightarrow> manager_error + (json obj \<times> json obj)" where
  "compile_plan env tun plan socksPort =
    (if tun \<and> \<not> en_elevated env then Inl NotElevated
     else (case (if tun then PlanTUNConfigs (en_goos env) (en_xray_log env) (en_iter env) (en_resolve env) plan
                       (tunInterfaceName (en_goos env))
                 else PlanSocksConfigs (en_xray_log env) plan ''127.0.0.1'' socksPort) of
        Inl e \<Rightarrow> Inl (PlanError e) | Inr c \<Rightarrow> Inr c))"

definition prepareActivation :: "activation_env \<Rightarrow> activate_request \<Rightarrow> manager_error + activation" where
  "prepareActivation env req =
     rbind (request_profile env req) (\<lambda>profileName.
     rbind (case en_load_profile env profileName of Inl e \<Rightarrow> Inl (StoreError e) | Inr p \<Rightarrow> Inr p) (\<lambda>prof.
     rbind (request_node prof profileName req) (\<lambda>node.
     rbind (request_routing prof profileName req) (\<lambda>routing.
     rbind (buildPlan prof node routing) (\<lambda>(plan, warnings).
     rbind (case en_settings env of Inl e \<Rightarrow> Inl (SettingsError e) | Inr s \<Rightarrow> Inr s) (\<lambda>settings.
       let plan = plan\<lparr>sp_cache_path := en_cache_path env, sp_tunables := Some (tunablesFromSettings settings)\<rparr>;
           tun = (rq_tun req = Some True) in
       rbind (compile_plan env tun plan (st_socks_port settings)) (\<lambda>(sb, xr).
         Inr \<lparr>ac_profile_name = profileName, ac_node_name = node_DisplayName node, ac_node_id = nd_id node,
              ac_routing = routing, ac_tun = tun, ac_plan = plan, ac_warnings = warnings,
              ac_sb_cfg = sb, ac_xray_cfg = xr\<rparr>)))))))"

section \<open>What the embedding loop collects\<close>

lemma SelectCore_profile: "SelectCore d tun ov = Inr core \<Longrightarrow> \<exists>p. d = Some p"
  by (cases d) (simp_all add: SelectCore_def)

lemma SelectCore_not_singbox:
  "SelectCore (Some p) tun ov = Inr core \<Longrightarrow> core \<noteq> CoreSingBox \<Longrightarrow> dialableBy p CoreXray"
  using SelectCore_dialable any_impl.dialable_cores by blast

text \<open>
  The four outcomes of a loop step: skipped, native, first or last xray member. Induction over
  successful runs of the loop.
\<close>

lemma embed_nodes_induct [consumes 1, case_names Nil Skip Native Xray]:
  assumes "embed_nodes a ns nats xrs = Inr (N, X)"
    and "\<And>nats xrs. P [] nats xrs nats xrs"
    and "\<And>n ns nats xrs N X. IsGroup n \<or> nd_id n \<noteq> a \<Longrightarrow> P ns nats xrs N X \<Longrightarrow> P (n # ns) nats xrs N X"
    and "\<And>n ns nats xrs N X m. \<not> IsGroup n \<Longrightarrow> nn_id m = nd_id n \<Longrightarrow> dialableBy (nn_profile m) CoreSingBox \<Longrightarrow>
      P ns (nats @ [m]) xrs N X \<Longrightarrow> P (n # ns) nats xrs N X"
    and "\<And>n ns nats xrs N X m. \<not> IsGroup n \<Longrightarrow> nn_id m = nd_id n \<Longrightarrow> dialableBy (nn_profile m) CoreXray \<Longrightarrow>
      P ns nats (if nd_id n = a then m # xrs else xrs @ [m]) N X \<Longrightarrow> P (n # ns) nats xrs N X"
  shows "P ns nats xrs N X"
  using assms(1)
proof (induction ns arbitrary: nats xrs)
  case Nil
  then show ?case using assms(2) by simp
next
  case (Cons n ns)
  show ?case
  proof (cases "IsGroup n")
    case True
    then show ?thesis using Cons assms(3) by simp
  next
    case ng: False
    let ?m = "\<lparr>nn_id = nd_id n, nn_name = node_DisplayName n, nn_profile = the (nd_doc n)\<rparr>"
    show ?thesis
    proof (cases "SelectCore (nd_doc n) CoreSingBox (nd_core_override n)")
      case (Inl e)
      then show ?thesis using Cons ng assms(3) by (auto simp: Let_def split: if_splits)
    next
      case (Inr core)
      then obtain q where q: "nd_doc n = Some q" using SelectCore_profile by blast
      show ?thesis
      proof (cases "core = CoreSingBox")
        case True
        then have "dialableBy (nn_profile ?m) CoreSingBox" using Inr q SelectCore_dialable by fastforce
        moreover have "embed_nodes a ns (nats @ [?m]) xrs = Inr (N, X)"
          using Cons.prems ng Inr True by (simp add: Let_def)
        ultimately show ?thesis using Cons.IH assms(4) [OF ng, of ?m] by simp
      next
        case False
        then have dx: "dialableBy (nn_profile ?m) CoreXray" using Inr q SelectCore_not_singbox by fastforce
        then obtain ob where "XrayOutbound (the (nd_doc n)) = Inr (Some ob)"
          using any_impl.xray_total [of "nn_profile ?m"] by auto
        then have "embed_nodes a ns nats (if nd_id n = a then ?m # xrs else xrs @ [?m]) = Inr (N, X)"
          using Cons.prems ng Inr False by (simp add: Let_def)
        then show ?thesis using Cons.IH assms(5) [OF ng _ dx] by simp
      qed
    qed
  qed
qed

lemma set_first_or_last: "set (if b then x # xs else xs @ [x]) = insert x (set xs)"
  by simp

lemma embed_nodes_dialable:
  assumes "embed_nodes a ns nats xrs = Inr (N, X)"
  shows "(\<forall>m \<in> set nats. dialableBy (nn_profile m) CoreSingBox) \<Longrightarrow> (\<forall>m \<in> set xrs. dialableBy (nn_profile m) CoreXray) \<Longrightarrow>
    (\<forall>m \<in> set N. dialableBy (nn_profile m) CoreSingBox) \<and> (\<forall>m \<in> set X. dialableBy (nn_profile m) CoreXray)"
  using assms
proof (induction rule: embed_nodes_induct)
  case (Xray n ns nats xrs N X m)
  then show ?case unfolding set_first_or_last by blast
next
  case (Native n ns nats xrs N X m)
  have "\<forall>m' \<in> set (nats @ [m]). dialableBy (nn_profile m') CoreSingBox"
    using Native.prems(1) Native.hyps(3) by auto
  then show ?case by (rule Native.IH) (rule Native.prems(2))
qed simp_all

abbreviation member_ids :: "named_node list \<Rightarrow> named_node list \<Rightarrow> string list" where
  "member_ids N X \<equiv> map nn_id N @ map nn_id X"

lemma embed_nodes_subset:
  assumes "embed_nodes a ns nats xrs = Inr (N, X)"
  shows "set (member_ids N X) \<subseteq> set (member_ids nats xrs) \<union> set (map nd_id (filter (\<lambda>n. \<not> IsGroup n) ns))"
  using assms
proof (induction rule: embed_nodes_induct)
  case (Skip n ns nats xrs N X)
  then show ?case by (simp, blast)
next
  case (Xray n ns nats xrs N X m)
  have "set (member_ids nats (if nd_id n = a then m # xrs else xrs @ [m])) = insert (nd_id n) (set (member_ids nats xrs))"
    using Xray.hyps(2) by simp
  with Xray show ?case by simp
qed simp_all

lemma embed_nodes_distinct:
  assumes "embed_nodes a ns nats xrs = Inr (N, X)"
  shows "distinct (member_ids nats xrs @ map nd_id ns) \<Longrightarrow> distinct (member_ids N X)"
  using assms
proof (induction rule: embed_nodes_induct)
  case (Native n ns nats xrs N X m)
  then have "distinct (member_ids (nats @ [m]) xrs @ map nd_id ns)" by auto
  with Native show ?case by blast
next
  case (Xray n ns nats xrs N X m)
  then have "distinct (member_ids nats (if nd_id n = a then m # xrs else xrs @ [m]) @ map nd_id ns)" by auto
  with Xray show ?case by blast
qed simp_all

lemma embed_nodes_active:
  assumes "embed_nodes a ns nats xrs = Inr (N, X)"
  shows "a \<in> set (map nd_id (filter (\<lambda>n. \<not> IsGroup n) ns)) \<or> a \<in> set (member_ids nats xrs) \<Longrightarrow> a \<in> set (member_ids N X)"
  using assms
proof (induction rule: embed_nodes_induct)
  case (Skip n ns nats xrs N X)
  then show ?case by (auto split: if_splits)
next
  case (Native n ns nats xrs N X m)
  have "a \<in> set (map nd_id (filter (\<lambda>n. \<not> IsGroup n) ns)) \<or> a \<in> set (member_ids (nats @ [m]) xrs)"
    using Native.prems Native.hyps by auto
  then show ?case by (rule Native.IH)
next
  case (Xray n ns nats xrs N X m)
  have "a \<in> set (map nd_id (filter (\<lambda>n. \<not> IsGroup n) ns)) \<or>
      a \<in> set (member_ids nats (if nd_id n = a then m # xrs else xrs @ [m]))"
    using Xray.prems Xray.hyps by auto
  then show ?case by (rule Xray.IH)
qed simp

lemma embed_nodes_default:
  assumes "embed_nodes a ns nats xrs = Inr (N, X)"
  shows "(a \<in> nn_id ` set xrs \<longrightarrow> nn_id (hd xrs) = a) \<Longrightarrow> a \<in> nn_id ` set X \<Longrightarrow> nn_id (hd X) = a"
  using assms
proof (induction rule: embed_nodes_induct)
  case (Xray n ns nats xrs N X m)
  have "a \<in> nn_id ` set (if nd_id n = a then m # xrs else xrs @ [m]) \<longrightarrow>
      nn_id (hd (if nd_id n = a then m # xrs else xrs @ [m])) = a"
  proof (cases "nd_id n = a")
    case False
    show ?thesis
    proof
      assume "a \<in> nn_id ` set (if nd_id n = a then m # xrs else xrs @ [m])"
      then have "a \<in> nn_id ` set xrs" using False Xray.hyps(2) by auto
      then have "xrs \<noteq> []" "nn_id (hd xrs) = a" using Xray.prems(1) by auto
      with False show "nn_id (hd (if nd_id n = a then m # xrs else xrs @ [m])) = a" by simp
    qed
  qed (simp add: Xray.hyps(2))
  then show ?case by (rule Xray.IH) (rule Xray.prems(2))
qed simp_all

section \<open>Groups of a plan\<close>

lemma add_target_group_inv:
  assumes "set groups \<subseteq> {n \<in> set (pf_nodes p). IsGroup n}" "distinct (map nd_id groups)"
  shows "set (add_target_group p groups t) \<subseteq> {n \<in> set (pf_nodes p). IsGroup n} \<and>
    distinct (map nd_id (add_target_group p groups t)) \<and> set groups \<subseteq> set (add_target_group p groups t)"
  using assms FindNodeByID_Some [of p "rt_node t"] by (auto simp: add_target_group_def split: option.splits)

lemma foldl_groups_inv:
  assumes "set groups \<subseteq> {n \<in> set (pf_nodes p). IsGroup n}" "distinct (map nd_id groups)"
  shows "set (foldl (add_target_group p) groups ts) \<subseteq> {n \<in> set (pf_nodes p). IsGroup n} \<and>
    distinct (map nd_id (foldl (add_target_group p) groups ts)) \<and> set groups \<subseteq> set (foldl (add_target_group p) groups ts)"
  using assms
proof (induction ts arbitrary: groups)
  case (Cons t ts)
  from add_target_group_inv [OF Cons.prems, of t] Cons.IH [of "add_target_group p groups t"]
  show ?case by auto
qed simp

lemma groups_in_play_inv:
  assumes "active \<in> set (pf_nodes p)"
  shows "set (groups_in_play p active rc) \<subseteq> {n \<in> set (pf_nodes p). IsGroup n}"
    "distinct (map nd_id (groups_in_play p active rc))"
    "IsGroup active \<Longrightarrow> active \<in> set (groups_in_play p active rc)"
  using foldl_groups_inv [of "if IsGroup active then [active] else []" p
      "case rc of None \<Rightarrow> [] | Some c \<Rightarrow> routing_targets c"] assms
  by (auto simp: groups_in_play_def split: if_splits)

lemma lower_groups_inv:
  assumes "lower_groups p embedded a gs = Inr L" "distinct (map nd_id gs)"
  shows "distinct (map gr_id L) \<and> set (map gr_id L) \<subseteq> set (map nd_id gs) \<and>
    (\<forall>g \<in> set L. gr_members g \<noteq> [] \<and> (\<forall>m \<in> set (gr_members g). embedded m)) \<and>
    (a \<in> set (map nd_id gs) \<longrightarrow> a \<in> set (map gr_id L))"
  using assms
proof (induction gs arbitrary: L)
  case (Cons g gs)
  let ?members = "filter embedded (resolveGroupMemberIDs p (the (nd_group g)))"
  show ?case
  proof (cases "?members = []")
    case True
    then have "nd_id g \<noteq> a" "lower_groups p embedded a gs = Inr L"
      using Cons.prems(1) by (auto simp: Let_def split: if_splits)
    with Cons.IH [of L] Cons.prems(2) show ?thesis by auto
  next
    case False
    then obtain r gp where h: "lower_groups p embedded a gs = Inr r" "L = gp # r" "gr_id gp = nd_id g" "gr_members gp = ?members"
      using Cons.prems(1) by (auto simp: Let_def rbind_eq_Inr_iff split: if_splits)
    have ih: "distinct (map gr_id r)" "set (map gr_id r) \<subseteq> set (map nd_id gs)"
      "\<forall>g \<in> set r. gr_members g \<noteq> [] \<and> (\<forall>m \<in> set (gr_members g). embedded m)"
      "a \<in> set (map nd_id gs) \<longrightarrow> a \<in> set (map gr_id r)"
      using Cons.IH [OF h(1)] Cons.prems(2) by simp_all
    have "nd_id g \<notin> set (map gr_id r)" using ih(2) Cons.prems(2) by auto
    moreover have "gr_members gp \<noteq> [] \<and> (\<forall>m \<in> set (gr_members gp). embedded m)"
      using False h(4) by simp
    ultimately show ?thesis using ih h(2,3) by (simp del: set_map) blast
  qed
qed simp

section \<open>The plan is sound\<close>

lemma member_tags_groups: "memberTags (plan\<lparr>sp_groups := gs\<rparr>) = nodeTags plan @ map gr_id gs"
  by (simp add: memberTags_def nodeTags_def)

lemma buildPlan_Inr:
  assumes "buildPlan prof active rc = Inr (plan, ws)"
  obtains N X L where "embed_nodes (nd_id active) (pf_nodes prof) [] [] = Inr (N, X)"
    "lower_groups prof (\<lambda>t. t \<in> set (member_ids N X)) (nd_id active) (groups_in_play prof active rc) = Inr L"
    "sp_natives plan = N" "sp_xray_nodes plan = X" "sp_groups plan = L" "sp_active_tag plan = nd_id active"
    "sp_routing plan = map_option (fallback_routing plan) rc"
    "ws = (case rc of None \<Rightarrow> [] | Some c \<Rightarrow> fallback_warnings prof plan c)"
proof -
  obtain N X where e: "embed_nodes (nd_id active) (pf_nodes prof) [] [] = Inr (N, X)"
    using assms by (auto simp: buildPlan_def rbind_eq_Inr_iff)
  define base where "base = \<lparr>sp_natives = N, sp_xray_nodes = X, sp_active_tag = nd_id active, sp_routing = rc,
     sp_cache_path = [], sp_tunables = None, sp_groups = []\<rparr>"
  have mem: "IsMember base = (\<lambda>t. t \<in> set (member_ids N X))"
    by (auto simp: IsMember_def memberTags_def nodeTags_def base_def fun_eq_iff)
  have step: "rbind (lower_groups prof (IsMember base) (nd_id active) (groups_in_play prof active rc)) (\<lambda>L.
      case rc of None \<Rightarrow> Inr (base\<lparr>sp_groups := L\<rparr>, [])
       | Some c \<Rightarrow> Inr ((base\<lparr>sp_groups := L\<rparr>)\<lparr>sp_routing := Some (fallback_routing (base\<lparr>sp_groups := L\<rparr>) c)\<rparr>,
           fallback_warnings prof (base\<lparr>sp_groups := L\<rparr>) c)) = Inr (plan, ws)"
    using assms unfolding buildPlan_def e rbind.simps prod.case Let_def base_def .
  obtain L where l: "lower_groups prof (\<lambda>t. t \<in> set (member_ids N X)) (nd_id active) (groups_in_play prof active rc) = Inr L"
    and r: "(case rc of None \<Rightarrow> Inr (base\<lparr>sp_groups := L\<rparr>, [])
       | Some c \<Rightarrow> Inr ((base\<lparr>sp_groups := L\<rparr>)\<lparr>sp_routing := Some (fallback_routing (base\<lparr>sp_groups := L\<rparr>) c)\<rparr>,
           fallback_warnings prof (base\<lparr>sp_groups := L\<rparr>) c)) = (Inr (plan, ws) :: manager_error + _)"
    using step unfolding rbind_eq_Inr_iff mem by blast
  have cong: "IsMember p' = IsMember (base\<lparr>sp_groups := L\<rparr>) \<Longrightarrow> fallback_routing p' = fallback_routing (base\<lparr>sp_groups := L\<rparr>) \<and>
      fallback_warnings prof p' = fallback_warnings prof (base\<lparr>sp_groups := L\<rparr>)" for p'
    by (simp add: fallback_routing_def fallback_warnings_def fallback_target_def falls_back_def fun_eq_iff)
  have "IsMember plan = IsMember (base\<lparr>sp_groups := L\<rparr>)"
    using r by (cases rc) (auto simp: IsMember_def memberTags_def nodeTags_def fun_eq_iff)
  from cong [OF this] show thesis
    using r by (intro that [OF e l]; cases rc) (auto simp: base_def)
qed

lemma distinct_ids_same: "distinct (node_ids p) \<Longrightarrow> m \<in> set (pf_nodes p) \<Longrightarrow> n \<in> set (pf_nodes p) \<Longrightarrow> nd_id m = nd_id n \<Longrightarrow> m = n"
  by (simp add: distinct_map inj_on_def)

lemma buildPlan_plan_ok:
  assumes "distinct (node_ids prof)" "active \<in> set (pf_nodes prof)" "buildPlan prof active rc = Inr (plan, ws)"
  shows "plan_ok plan"
proof -
  obtain N X L where h: "embed_nodes (nd_id active) (pf_nodes prof) [] [] = Inr (N, X)"
    "lower_groups prof (\<lambda>t. t \<in> set (member_ids N X)) (nd_id active) (groups_in_play prof active rc) = Inr L"
    "sp_natives plan = N" "sp_xray_nodes plan = X" "sp_groups plan = L" "sp_active_tag plan = nd_id active"
    by (rule buildPlan_Inr [OF assms(3)])
  note grp = groups_in_play_inv [OF assms(2), of rc]
  have low: "distinct (map gr_id L)" "set (map gr_id L) \<subseteq> set (map nd_id (groups_in_play prof active rc))"
    "\<forall>g \<in> set L. gr_members g \<noteq> [] \<and> (\<forall>m \<in> set (gr_members g). m \<in> set (member_ids N X))"
    "nd_id active \<in> set (map nd_id (groups_in_play prof active rc)) \<longrightarrow> nd_id active \<in> set (map gr_id L)"
    using lower_groups_inv [OF h(2) grp(2)] by blast+
  have tags: "nodeTags plan = member_ids N X" "memberTags plan = member_ids N X @ map gr_id L"
    using h(3-5) by (simp_all add: memberTags_def nodeTags_def)
  have sub: "set (member_ids N X) \<subseteq> nd_id ` {n \<in> set (pf_nodes prof). \<not> IsGroup n}"
    using embed_nodes_subset [OF h(1)] by auto
  have "set (map gr_id L) \<subseteq> nd_id ` {n \<in> set (pf_nodes prof). IsGroup n}"
    using low(2) grp(1) by auto
  then have disj: "set (member_ids N X) \<inter> set (map gr_id L) = {}"
    using sub distinct_ids_same [OF assms(1)] by blast
  have "distinct (member_ids N X)"
    using embed_nodes_distinct [OF h(1)] assms(1) by simp
  with low(1) disj have "distinct (memberTags plan)"
    unfolding tags distinct_append by blast
  moreover have "nd_id active \<in> set (memberTags plan)"
  proof (cases "IsGroup active")
    case True
    then show ?thesis using grp(3) low(4) by (simp add: tags)
  next
    case False
    then show ?thesis using embed_nodes_active [OF h(1)] assms(2) by (auto simp: tags)
  qed
  moreover have "\<forall>g \<in> set (sp_groups plan). gr_members g \<noteq> [] \<and> set (gr_members g) \<subseteq> set (nodeTags plan)"
    using low(3) h(5) tags(1) by auto
  ultimately show ?thesis by (simp add: plan_ok_def h(6))
qed

lemma buildPlan_members:
  assumes "active \<in> set (pf_nodes prof)" "buildPlan prof active rc = Inr (plan, ws)"
  shows "set (memberTags plan) \<subseteq> nd_id ` set (pf_nodes prof)"
proof -
  obtain N X L where h: "embed_nodes (nd_id active) (pf_nodes prof) [] [] = Inr (N, X)"
    "lower_groups prof (\<lambda>t. t \<in> set (member_ids N X)) (nd_id active) (groups_in_play prof active rc) = Inr L"
    "sp_natives plan = N" "sp_xray_nodes plan = X" "sp_groups plan = L"
    by (rule buildPlan_Inr [OF assms(2)])
  note grp = groups_in_play_inv [OF assms(1), of rc]
  have "set (map gr_id L) \<subseteq> set (map nd_id (groups_in_play prof active rc))"
    using lower_groups_inv [OF h(2) grp(2)] by blast
  also have "\<dots> \<subseteq> nd_id ` set (pf_nodes prof)"
    using grp(1) by auto
  finally have "set (map gr_id L) \<subseteq> nd_id ` set (pf_nodes prof)" .
  moreover have "set (member_ids N X) \<subseteq> nd_id ` set (pf_nodes prof)"
    using embed_nodes_subset [OF h(1)] by auto
  ultimately show ?thesis
    unfolding memberTags_def nodeTags_def h(3-5) set_append by simp
qed

lemma buildPlan_dialable:
  assumes "buildPlan prof active rc = Inr (plan, ws)"
  shows "plan_dialable plan"
proof -
  obtain N X where h: "embed_nodes (nd_id active) (pf_nodes prof) [] [] = Inr (N, X)" "sp_natives plan = N" "sp_xray_nodes plan = X"
    by (rule buildPlan_Inr [OF assms])
  show ?thesis
    using embed_nodes_dialable [OF h(1)] unfolding plan_dialable_def h(2,3) by auto
qed

lemma buildPlan_default:
  assumes "buildPlan prof active rc = Inr (plan, ws)" "nd_id active \<in> set (map nn_id (sp_xray_nodes plan))"
  shows "nn_id (hd (sp_xray_nodes plan)) = nd_id active"
proof -
  obtain N X where h: "embed_nodes (nd_id active) (pf_nodes prof) [] [] = Inr (N, X)" "sp_xray_nodes plan = X"
    by (rule buildPlan_Inr [OF assms(1)])
  show ?thesis
    unfolding h(2) by (rule embed_nodes_default [OF h(1)]) (use assms(2) h(2) in auto)
qed

text \<open>The targets a session can carry out; DPI bypass is not one of them yet.\<close>

definition target_supported :: "rule_target \<Rightarrow> bool" where
  "target_supported t = (rt_kind t \<in> {TargetDirect, TargetBlock, TargetDefaultProxy, TargetNode})"

definition routing_supported :: "routing_config \<Rightarrow> bool" where
  "routing_supported rc = (target_supported (rc_default_target rc) \<and>
     list_all (\<lambda>r. rt_kind (Target r) \<in> {TargetHijackDns, TargetSniff, TargetResolve} \<or> target_supported (Target r)) (rc_rules rc))"

lemma fallback_target_resolves: "target_resolves plan (fallback_target plan t) = target_supported t"
  by (auto simp: target_supported_def target_resolves_def fallback_target_def falls_back_def)

lemma fallback_action: "rt_kind t \<in> {TargetHijackDns, TargetSniff, TargetResolve} \<Longrightarrow> fallback_target plan t = t"
  by (auto simp: fallback_target_def falls_back_def)

lemma fallback_rule_resolves:
  "rule_resolves plan (Rule (fallback_target plan t) rs cs) \<longleftrightarrow> rt_kind t \<in> {TargetHijackDns, TargetSniff, TargetResolve} \<or> target_supported t"
proof (cases "rt_kind t \<in> {TargetHijackDns, TargetSniff, TargetResolve}")
  case True
  then show ?thesis by (simp add: rule_resolves_def fallback_action)
next
  case False
  then have "rt_kind (fallback_target plan t) \<notin> {TargetHijackDns, TargetSniff, TargetResolve}"
    by (auto simp: fallback_target_def falls_back_def)
  with False show ?thesis by (auto simp: rule_resolves_def fallback_target_resolves)
qed

lemma buildPlan_routing:
  assumes "buildPlan prof active rc = Inr (plan, ws)"
  shows "routing_resolves plan \<longleftrightarrow> (\<forall>c. rc = Some c \<longrightarrow> routing_supported c)"
proof (rule buildPlan_Inr [OF assms(1)])
  assume r: "sp_routing plan = map_option (fallback_routing plan) rc"
  show ?thesis
    by (cases rc)
       (simp_all add: r routing_resolves_def fallback_routing_def routing_supported_def fallback_target_resolves list_all_iff fallback_rule_resolves)
qed

text \<open>
  C1. Whatever plan the daemon builds is fit to run: for a profile with unique node ids and an
  active node of it, the plan validates, selects the active node, embeds only nodes their core
  can dial, and puts an active xray node first. Its routing resolves, whatever nodes and groups the stored config names, exactly when that config asks
  only for supported targets: the store also accepts a DPI bypass, with which a plan is built that the compiler then rejects.
\<close>

theorem build_plan_sound:
  assumes "distinct (node_ids prof)" "active \<in> set (pf_nodes prof)" "buildPlan prof active rc = Inr (plan, ws)"
  shows "validate plan = None \<and> sp_active_tag plan = nd_id active \<and> plan_dialable plan \<and>
    (nd_id active \<in> set (map nn_id (sp_xray_nodes plan)) \<longrightarrow> nn_id (hd (sp_xray_nodes plan)) = nd_id active) \<and>
    (routing_resolves plan \<longleftrightarrow> (\<forall>c. rc = Some c \<longrightarrow> routing_supported c))"
proof -
  have "sp_active_tag plan = nd_id active"
    by (rule buildPlan_Inr [OF assms(3)])
  then show ?thesis
    using buildPlan_plan_ok [OF assms] buildPlan_dialable [OF assms(3)] buildPlan_default [OF assms(3)]
      buildPlan_routing [OF assms(3)] by (simp add: validate_None)
qed

definition sample_profile :: user_profile where
  "sample_profile = (NewProfile ''r'' ''main'')\<lparr>pf_nodes := [NewNode ''a'' sample_ss None,
     NewGroupNode ''g'' \<lparr>gs_name = ''Auto'', gs_members = [''a'', ''gone''], gs_all_of_sub = None, gs_probe = zero_probe\<rparr> None]\<rparr>"

lemma sample_select: "SelectCore (Some sample_ss) CoreSingBox None = Inr CoreSingBox"
  by code_simp

lemma sample_build:
  "\<exists>plan ws. buildPlan sample_profile (NewGroupNode ''g'' \<lparr>gs_name = ''Auto'', gs_members = [''a'', ''gone''],
     gs_all_of_sub = None, gs_probe = zero_probe\<rparr> None) (Some sample_routing) = Inr (plan, ws)"
  by (simp add: buildPlan_def sample_profile_def NewNode_def NewGroupNode_def IsGroup_def Let_def sample_select
      groups_in_play_def routing_targets_def sample_routing_def NewDefault_def add_target_group_def FindNodeByID_def
      resolveGroupMemberIDs_def IsMember_def memberTags_def nodeTags_def)

theorem build_plan_sound_witness:
  "\<exists>plan ws. buildPlan sample_profile (NewGroupNode ''g'' \<lparr>gs_name = ''Auto'', gs_members = [''a'', ''gone''],
     gs_all_of_sub = None, gs_probe = zero_probe\<rparr> None) (Some sample_routing) = Inr (plan, ws) \<and>
     validate plan = None \<and> routing_resolves plan"
proof -
  let ?g = "NewGroupNode ''g'' \<lparr>gs_name = ''Auto'', gs_members = [''a'', ''gone''], gs_all_of_sub = None, gs_probe = zero_probe\<rparr> None"
  obtain plan ws where b: "buildPlan sample_profile ?g (Some sample_routing) = Inr (plan, ws)"
    using sample_build by blast
  have "distinct (node_ids sample_profile)" "?g \<in> set (pf_nodes sample_profile)"
    by (simp_all add: sample_profile_def NewNode_def NewGroupNode_def)
  moreover have "routing_supported sample_routing"
    by (simp add: routing_supported_def target_supported_def sample_routing_def NewDefault_def)
  ultimately show ?thesis using build_plan_sound [OF _ _ b] b by blast
qed

lemma routing_targets_fallback:
  "routing_targets (fallback_routing plan c) = map (fallback_target plan) (routing_targets c)"
  by (simp add: routing_targets_def fallback_routing_def o_def)

lemma fallback_warnings_iff:
  "FellBack i n r \<in> set (fallback_warnings p plan c) \<longleftrightarrow>
   i < length (routing_targets c) \<and> falls_back plan (routing_targets c ! i) \<and>
   FellBack i n r = fallback_warning p i (routing_targets c ! i)"
proof -
  have "FellBack i n r = fallback_warning p j t \<Longrightarrow> i = j" for j t
    by (simp add: fallback_warning_def)
  then show ?thesis
    by (auto simp: fallback_warnings_def in_set_enumerate_eq image_iff)
qed

text \<open>
  No target falls back silently: for the stored config, the target at each position is either
  compiled as stored, or it names a node that is no member of the plan, is compiled as the
  default proxy, and the warnings name its position and node; every warning is of this kind.
\<close>

theorem fallback_reported:
  assumes "buildPlan prof active (Some c) = Inr (plan, ws)" "i < length (routing_targets c)"
  shows "\<exists>c'. sp_routing plan = Some c' \<and>
    (if rt_kind (routing_targets c ! i) = TargetNode \<and> \<not> IsMember plan (rt_node (routing_targets c ! i))
     then routing_targets c' ! i = zero_target\<lparr>rt_kind := TargetDefaultProxy\<rparr> \<and>
          (\<exists>r. FellBack i (rt_node (routing_targets c ! i)) r \<in> set ws)
     else routing_targets c' ! i = routing_targets c ! i \<and> (\<forall>n r. FellBack i n r \<notin> set ws))"
proof -
  obtain h: "sp_routing plan = Some (fallback_routing plan c)" "ws = fallback_warnings prof plan c"
    by (rule buildPlan_Inr [OF assms(1)]) simp
  show ?thesis
    using assms(2)
    by (auto simp: h routing_targets_fallback fallback_warnings_iff fallback_target_def falls_back_def fallback_warning_def)
qed

section \<open>Preparing an activation\<close>

lemma find_mem: "find P xs = Some x \<Longrightarrow> x \<in> set xs"
  by (drule find_SomeD) simp

lemma request_node_mem: "request_node prof name req = Inr n \<Longrightarrow> n \<in> set (pf_nodes prof)"
  by (auto simp: request_node_def FindNode_def FindNodeByID_def FindNodeByName_def ActiveNode_def
      split: option.splits list.splits dest: find_mem)

lemma request_routing_mem: "request_routing prof name req = Inr (Some c) \<Longrightarrow> c \<in> set (pf_routing_configs prof)"
  by (auto simp: request_routing_def FindRouting_def ActiveRouting_def split: option.splits list.splits dest: find_mem)

lemma compile_plan_total:
  assumes "validate plan = None" "plan_dialable plan" "routing_resolves plan" "tb_dns (plan_tunables plan) \<noteq> []"
  shows "compile_plan env tun plan port \<noteq> Inl (PlanError e)"
proof -
  obtain c where "(if tun then PlanTUNConfigs (en_goos env) (en_xray_log env) (en_iter env) (en_resolve env) plan
         (tunInterfaceName (en_goos env)) else PlanSocksConfigs (en_xray_log env) plan ''127.0.0.1'' port) = Inr c"
    using plan_configs_total [OF assms] unfolding PlanTUNConfigs_def PlanSocksConfigs_def by (metis (full_types))
  then show ?thesis by (simp add: compile_plan_def)
qed

definition profile_activatable :: "user_profile \<Rightarrow> bool" where
  "profile_activatable p = (distinct (node_ids p) \<and> (\<forall>c \<in> set (pf_routing_configs p). routing_supported c))"

lemma plan_fields_irrelevant:
  "validate (plan\<lparr>sp_cache_path := c, sp_tunables := t\<rparr>) = validate plan"
  "plan_dialable (plan\<lparr>sp_cache_path := c, sp_tunables := t\<rparr>) = plan_dialable plan"
  "routing_resolves (plan\<lparr>sp_cache_path := c, sp_tunables := t\<rparr>) = routing_resolves plan"
proof -
  let ?p = "plan\<lparr>sp_cache_path := c, sp_tunables := t\<rparr>"
  have tags: "nodeTags ?p = nodeTags plan" "memberTags ?p = memberTags plan"
    by (simp_all add: memberTags_def nodeTags_def)
  show "validate ?p = validate plan" "plan_dialable ?p = plan_dialable plan"
    by (simp_all add: validate_def Let_def tags plan_dialable_def cong: option.case_cong)
  have "IsMember ?p = IsMember plan" by (simp add: IsMember_def tags fun_eq_iff)
  then have "target_resolves ?p = target_resolves plan" by (simp add: target_resolves_def fun_eq_iff)
  moreover from this have "rule_resolves ?p = rule_resolves plan" by (simp add: rule_resolves_def fun_eq_iff)
  ultimately show "routing_resolves ?p = routing_resolves plan"
    by (simp add: routing_resolves_def cong: option.case_cong)
qed

lemma no_plan_error:
  "request_profile env req \<noteq> Inl (PlanError e)" "request_node p n req \<noteq> Inl (PlanError e)"
  "request_routing p n req \<noteq> Inl (PlanError e)"
  by (auto simp: request_profile_def request_node_def request_routing_def split: option.splits list.splits sum.splits if_splits)

lemma embed_nodes_no_plan_error: "embed_nodes a ns nats xrs \<noteq> Inl (PlanError e)"
  by (induction ns arbitrary: nats xrs) (simp_all add: Let_def split: sum.split option.split)

lemma lower_groups_no_plan_error: "lower_groups p emb a gs \<noteq> Inl (PlanError e)"
  by (induction gs) (auto simp: Let_def rbind_eq_Inl_iff)

lemma buildPlan_no_plan_error: "buildPlan prof active rc \<noteq> Inl (PlanError e)"
  by (auto simp: buildPlan_def rbind_eq_Inl_iff Let_def embed_nodes_no_plan_error lower_groups_no_plan_error split: option.splits)

lemma prepared_plan_compiles:
  assumes "profile_activatable prof" "dn_servers (st_dns s) \<noteq> []" "node \<in> set (pf_nodes prof)"
    "\<forall>c. rc = Some c \<longrightarrow> c \<in> set (pf_routing_configs prof)" "buildPlan prof node rc = Inr (plan, ws)"
  shows "compile_plan env tun (plan\<lparr>sp_cache_path := cache, sp_tunables := Some (tunablesFromSettings s)\<rparr>) port \<noteq> Inl (PlanError e)"
proof (rule compile_plan_total)
  have "plan_ok plan" using buildPlan_plan_ok assms(1,3,5) by (auto simp: profile_activatable_def)
  then show "validate (plan\<lparr>sp_cache_path := cache, sp_tunables := Some (tunablesFromSettings s)\<rparr>) = None"
    by (simp only: plan_fields_irrelevant validate_None)
  show "plan_dialable (plan\<lparr>sp_cache_path := cache, sp_tunables := Some (tunablesFromSettings s)\<rparr>)"
    using buildPlan_dialable [OF assms(5)] by (simp only: plan_fields_irrelevant)
  show "routing_resolves (plan\<lparr>sp_cache_path := cache, sp_tunables := Some (tunablesFromSettings s)\<rparr>)"
    unfolding plan_fields_irrelevant by (rule buildPlan_routing [OF assms(5), THEN iffD2]) (use assms(1,4) in \<open>auto simp: profile_activatable_def\<close>)
  show "tb_dns (plan_tunables (plan\<lparr>sp_cache_path := cache, sp_tunables := Some (tunablesFromSettings s)\<rparr>)) \<noteq> []"
    using assms(2) by (simp add: plan_tunables_def tunablesFromSettings_def)
qed

text \<open>
  C2. Activation never fails in the compiler: when the stored profiles have unique node ids and
  ask for no unsupported target and the settings have a DNS server, every error of preparing
  an activation is one of resolving names, of the store, of an undialable active node or of
  missing privilege.
\<close>

theorem prepare_activation_compiles:
  assumes "\<forall>name p. en_load_profile env name = Inr p \<longrightarrow> profile_activatable p"
    and "\<forall>s. en_settings env = Inr s \<longrightarrow> dn_servers (st_dns s) \<noteq> []"
  shows "prepareActivation env req \<noteq> Inl (PlanError e)"
proof
  assume fail: "prepareActivation env req = Inl (PlanError e)"
  obtain name where n: "request_profile env req = Inr name"
    using fail no_plan_error(1) by (cases "request_profile env req") (auto simp: prepareActivation_def)
  obtain prof where p: "en_load_profile env name = Inr prof"
    using fail n by (cases "en_load_profile env name") (auto simp: prepareActivation_def)
  obtain node where d: "request_node prof name req = Inr node"
    using fail n p no_plan_error(2) by (cases "request_node prof name req") (auto simp: prepareActivation_def)
  obtain rc where r: "request_routing prof name req = Inr rc"
    using fail n p d no_plan_error(3) by (cases "request_routing prof name req") (auto simp: prepareActivation_def)
  obtain plan ws where b: "buildPlan prof node rc = Inr (plan, ws)"
    using fail n p d r buildPlan_no_plan_error by (cases "buildPlan prof node rc") (auto simp: prepareActivation_def)
  obtain s where s: "en_settings env = Inr s"
    using fail n p d r b by (cases "en_settings env") (auto simp: prepareActivation_def)
  have "compile_plan env (rq_tun req = Some True) (plan\<lparr>sp_cache_path := en_cache_path env,
      sp_tunables := Some (tunablesFromSettings s)\<rparr>) (st_socks_port s) = Inl (PlanError e)"
    using fail n p d r b s by (simp add: prepareActivation_def Let_def rbind_eq_Inl_iff split: prod.splits)
  moreover have "profile_activatable prof" "dn_servers (st_dns s) \<noteq> []" "\<forall>c. rc = Some c \<longrightarrow> c \<in> set (pf_routing_configs prof)"
    using assms p s r request_routing_mem by blast+
  from prepared_plan_compiles [OF this(1,2) request_node_mem [OF d] this(3) b]
  have "compile_plan env (rq_tun req = Some True) (plan\<lparr>sp_cache_path := en_cache_path env,
      sp_tunables := Some (tunablesFromSettings s)\<rparr>) (st_socks_port s) \<noteq> Inl (PlanError e)" .
  ultimately show False by contradiction
qed

definition sample_env :: activation_env where
  "sample_env = \<lparr>en_active_profile = Inr ''main'', en_load_profile = (\<lambda>_. Inr sample_profile),
     en_settings = Inr (DefaultSettings ''linux''), en_cache_path = ''cache.db'', en_goos = ''linux'', en_xray_log = [],
     en_elevated = True, en_iter = (\<lambda>hs. hs), en_resolve = (\<lambda>_. [])\<rparr>"

theorem prepare_activation_compiles_witness:
  "\<forall>e. prepareActivation sample_env \<lparr>rq_profile = None, rq_node = Some ''a'', rq_routing = None, rq_tun = Some True\<rparr>
     \<noteq> Inl (PlanError e)"
proof
  fix e
  have "profile_activatable sample_profile"
    by (simp add: profile_activatable_def sample_profile_def NewNode_def NewGroupNode_def NewProfile_def NewDefault_def
        routing_supported_def target_supported_def)
  moreover have "dn_servers (st_dns (DefaultSettings ''linux'')) \<noteq> []"
    by (simp add: DefaultSettings_def)
  ultimately show "prepareActivation sample_env \<lparr>rq_profile = None, rq_node = Some ''a'', rq_routing = None, rq_tun = Some True\<rparr>
      \<noteq> Inl (PlanError e)"
    by (intro prepare_activation_compiles) (simp_all add: sample_env_def)
qed

theorem fallback_reported_witness:
  "\<exists>plan ws r. buildPlan sample_profile (NewGroupNode ''g'' \<lparr>gs_name = ''Auto'', gs_members = [''a'', ''gone''],
     gs_all_of_sub = None, gs_probe = zero_probe\<rparr> None) (Some sample_routing) = Inr (plan, ws) \<and> FellBack 1 ''b'' r \<in> set ws"
proof -
  let ?g = "NewGroupNode ''g'' \<lparr>gs_name = ''Auto'', gs_members = [''a'', ''gone''], gs_all_of_sub = None, gs_probe = zero_probe\<rparr> None"
  obtain plan ws where b: "buildPlan sample_profile ?g (Some sample_routing) = Inr (plan, ws)"
    using sample_build by blast
  have "set (memberTags plan) \<subseteq> nd_id ` set (pf_nodes sample_profile)"
    by (rule buildPlan_members [OF _ b]) (simp add: sample_profile_def)
  then have "\<not> IsMember plan ''b''"
    by (auto simp: IsMember_def sample_profile_def NewNode_def NewGroupNode_def)
  then show ?thesis
    using fallback_reported [OF b, of 1] b by (auto simp: routing_targets_def sample_routing_def)
qed

end
