(* ===== verification/Manager_Session.thy ===== *)
theory Manager_Session
  imports Manager_Plan "HOL-Library.Multiset"
begin

text \<open>
  The life cycle of the running session (\<^verbatim>\<open>daemon-go/cmd/iron-link-daemon/manager.go\<close>), the settings
  verbs (\<^verbatim>\<open>manager_settings.go\<close>) and the reconnect after a profile change (\<^verbatim>\<open>sessionReconnectLocked\<close>,
  \<^verbatim>\<open>reconnectSession\<close>, \<^verbatim>\<open>relabelPlanLocked\<close>, \<^verbatim>\<open>planMembersEqual\<close> of \<^verbatim>\<open>manager_subscriptions.go\<close>).

  What the cores and the disk answer during one call is its argument \<open>outcomes\<close>; the session pointer
  \<^verbatim>\<open>m.sess\<close> is the number of the activation that created it. State broadcasts are recorded in
  \<open>mg_events\<close>; log lines are left out.

  An activation is prepared without the lock and started under it, so other calls can run in between:
  \<open>session_step\<close> keeps the prepared ones as pending, and every locked section is one step.

  Main results: in every reachable state a running session has an active context that names a member of
  its valid plan (so the unguarded dereferences of \<^verbatim>\<open>m.active\<close> are safe); a reconnect never replaces a
  session newer than the one it was decided for; a restart restores the activation that was recorded.
\<close>

section \<open>State\<close>

record daemon_env =
  dv_json_iter :: "json obj \<Rightarrow> json obj"
  dv_parse_time :: "string \<Rightarrow> int option"
  dv_newid :: "nat \<Rightarrow> string"
  dv_addr_ok :: "string \<Rightarrow> bool"
  dv_prefix_ok :: "string \<Rightarrow> bool"
  dv_url_parse :: "string \<Rightarrow> url option"
  dv_cache_path :: string
  dv_goos :: string
  dv_xray_log :: string
  dv_elevated :: bool
  dv_iter :: "string list \<Rightarrow> string list"
  dv_resolve :: "string \<Rightarrow> string list"

record outcomes =
  oc_close :: bool
  oc_start :: bool
  oc_select :: bool
  oc_live :: "string option"
  oc_io :: bool
  oc_now :: int
  oc_subscribers :: nat

record core_entry =
  ce_role :: string
  ce_state :: string
  ce_uptime_secs :: nat

record state_event =
  ev_active :: "persisted_entry option"
  ev_entries :: "core_entry list"
  ev_live :: "string option \<times> string option"
  ev_routing_warnings :: "routing_warning list"

record emitter =
  em_sess :: nat
  em_last_live :: string

record manager =
  mg_fs :: store_fs
  mg_settings :: "entry option"
  mg_sess :: "nat option"
  mg_plan :: session_plan
  mg_started_at :: int
  mg_active :: "persisted_entry option"
  mg_routing :: "routing_config option"
  mg_routing_warnings :: "routing_warning list"
  mg_traffic :: "emitter option"
  mg_activations :: nat
  mg_events :: "state_event list"

datatype failure =
    PrepareFailed manager_error
  | StopPreviousFailed
  | StartFailed
  | RoleScopedStop
  | StopFailed
  | NodeRequired
  | NothingRunning
  | LiveSelectFailed
  | NilDereference
  | SettingsRequired
  | SettingsFailed "file_error + settings_error"

record status_info =
  si_entries :: "core_entry list"
  si_active :: "persisted_entry option"
  si_routing_warnings :: "routing_warning list"
  si_live :: "string option \<times> string option"

datatype response =
    RError failure
  | Activated "core_entry list"
  | Idle
  | Stopped
  | Switched string
  | Running status_info
  | SettingsReply settings bool

definition empty_plan :: session_plan where
  "empty_plan = \<lparr>sp_natives = [], sp_xray_nodes = [], sp_active_tag = [], sp_routing = None, sp_cache_path = [],
     sp_tunables = None, sp_groups = []\<rparr>"

definition newManager :: "store_fs \<Rightarrow> entry option \<Rightarrow> manager" where
  "newManager fs settings = \<lparr>mg_fs = fs, mg_settings = settings, mg_sess = None, mg_plan = empty_plan, mg_started_at = 0,
     mg_active = None, mg_routing = None, mg_routing_warnings = [], mg_traffic = None, mg_activations = 0, mg_events = []\<rparr>"

abbreviation load_settings :: "daemon_env \<Rightarrow> manager \<Rightarrow> (file_error + settings_error) + settings" where
  "load_settings dv m \<equiv> LoadSettings (dv_addr_ok dv) (dv_prefix_ok dv) (dv_url_parse dv) (dv_goos dv) (mg_settings m)"

abbreviation load_profile :: "daemon_env \<Rightarrow> manager \<Rightarrow> string \<Rightarrow> file_error + user_profile" where
  "load_profile dv m \<equiv> LoadProfile (dv_json_iter dv) (dv_parse_time dv) (dv_newid dv) (mg_fs m)"

text \<open>What \<open>prepareActivation\<close> reads, over the files of the manager's store.\<close>

definition store_env :: "daemon_env \<Rightarrow> manager \<Rightarrow> activation_env" where
  "store_env dv m = \<lparr>en_active_profile = ActiveProfileName (mg_fs m), en_load_profile = load_profile dv m,
     en_settings = load_settings dv m, en_cache_path = dv_cache_path dv, en_goos = dv_goos dv, en_xray_log = dv_xray_log dv,
     en_elevated = dv_elevated dv, en_iter = dv_iter dv, en_resolve = dv_resolve dv\<rparr>"

section \<open>Reports and broadcasts\<close>

definition entriesLocked :: "outcomes \<Rightarrow> manager \<Rightarrow> core_entry list" where
  "entriesLocked oc m = (let uptime = nat ((oc_now oc - mg_started_at m) div 1000000000) in
     [\<lparr>ce_role = ''Tun'', ce_state = ''running'', ce_uptime_secs = uptime\<rparr>,
      \<lparr>ce_role = ''Proxy'', ce_state = ''running'', ce_uptime_secs = uptime\<rparr>])"

definition liveNodeLocked :: "outcomes \<Rightarrow> manager \<Rightarrow> string option \<times> string option" where
  "liveNodeLocked oc m = (if mg_sess m = None then (None, None)
     else case oc_live oc of
       Some live \<Rightarrow> (case DisplayNameForTag (mg_plan m) live of
           Some name \<Rightarrow> (Some name, Some live) | None \<Rightarrow> (Some live, Some live))
     | None \<Rightarrow> (case mg_active m of Some a \<Rightarrow> (pe_node a, pe_node_id a) | None \<Rightarrow> (None, None)))"

definition stateEventLocked :: "outcomes \<Rightarrow> manager \<Rightarrow> state_event" where
  "stateEventLocked oc m = (if mg_sess m \<noteq> None
     then \<lparr>ev_active = mg_active m, ev_entries = entriesLocked oc m, ev_live = liveNodeLocked oc m,
           ev_routing_warnings = mg_routing_warnings m\<rparr>
     else \<lparr>ev_active = mg_active m, ev_entries = [], ev_live = (None, None), ev_routing_warnings = []\<rparr>)"

definition broadcastStateLocked :: "outcomes \<Rightarrow> manager \<Rightarrow> manager" where
  "broadcastStateLocked oc m = m\<lparr>mg_events := mg_events m @ [stateEventLocked oc m]\<rparr>"

definition status :: "outcomes \<Rightarrow> manager \<Rightarrow> response" where
  "status oc m = (if mg_sess m = None then Idle
     else Running \<lparr>si_entries = entriesLocked oc m, si_active = mg_active m,
            si_routing_warnings = mg_routing_warnings m, si_live = liveNodeLocked oc m\<rparr>)"

definition saveLastSessionLocked :: "outcomes \<Rightarrow> manager \<Rightarrow> manager" where
  "saveLastSessionLocked oc m = (case mg_active m of
     None \<Rightarrow> m | Some a \<Rightarrow> m\<lparr>mg_fs := fst (SaveLastSession (oc_io oc) a (mg_fs m))\<rparr>)"

definition stopTrafficLocked :: "manager \<Rightarrow> manager" where
  "stopTrafficLocked m = m\<lparr>mg_traffic := None\<rparr>"

definition startTrafficEmitterLocked :: "outcomes \<Rightarrow> manager \<Rightarrow> manager" where
  "startTrafficEmitterLocked oc m = (case mg_sess m of
     None \<Rightarrow> m
   | Some k \<Rightarrow> m\<lparr>mg_traffic := Some \<lparr>em_sess = k,
       em_last_live = (case snd (liveNodeLocked oc m) of None \<Rightarrow> [] | Some i \<Rightarrow> i)\<rparr>\<rparr>)"

text \<open>One tick of the emitter of session \<open>k\<close>, whose last live node was \<open>lastLive\<close>.\<close>

definition broadcastLiveChange :: "outcomes \<Rightarrow> nat \<Rightarrow> string \<Rightarrow> manager \<Rightarrow> manager \<times> string" where
  "broadcastLiveChange oc k lastLive m =
    (if mg_sess m \<noteq> Some k then (m, lastLive)
     else let cur = (case snd (liveNodeLocked oc m) of None \<Rightarrow> [] | Some i \<Rightarrow> i) in
       if cur = lastLive then (m, lastLive)
       else (if oc_subscribers oc > 0 then broadcastStateLocked oc m else m, cur))"

section \<open>Starting and stopping\<close>

definition clear_session :: "manager \<Rightarrow> manager" where
  "clear_session m = (stopTrafficLocked m)\<lparr>mg_sess := None, mg_active := None, mg_routing := None, mg_routing_warnings := []\<rparr>"

definition activation_context :: "activation \<Rightarrow> persisted_entry" where
  "activation_context prep = \<lparr>pe_profile = Some (ac_profile_name prep), pe_node = Some (ac_node_name prep),
     pe_node_id = Some (ac_node_id prep), pe_routing = map_option rc_name (ac_routing prep), pe_tun = ac_tun prep\<rparr>"

definition record_session :: "outcomes \<Rightarrow> activation \<Rightarrow> manager \<Rightarrow> manager" where
  "record_session oc prep m = m\<lparr>mg_sess := Some (mg_activations m + 1), mg_plan := ac_plan prep, mg_routing := ac_routing prep,
     mg_routing_warnings := ac_warnings prep, mg_activations := mg_activations m + 1, mg_started_at := oc_now oc,
     mg_active := Some (activation_context prep)\<rparr>"

definition startActivationLocked :: "outcomes \<Rightarrow> activation \<Rightarrow> manager \<Rightarrow> manager \<times> response" where
  "startActivationLocked oc prep m =
    (if mg_sess m \<noteq> None \<and> \<not> oc_close oc then (clear_session m, RError StopPreviousFailed)
     else let m1 = (if mg_sess m \<noteq> None then clear_session m else m) in
       if \<not> oc_start oc then (broadcastStateLocked oc m1, RError StartFailed)
       else let m2 = startTrafficEmitterLocked oc (saveLastSessionLocked oc (record_session oc prep m1)) in
         (broadcastStateLocked oc m2, Activated (entriesLocked oc m2)))"

definition activate :: "daemon_env \<Rightarrow> outcomes \<Rightarrow> activate_request \<Rightarrow> manager \<Rightarrow> manager \<times> response" where
  "activate dv oc req m = (case prepareActivation (store_env dv m) req of
     Inl e \<Rightarrow> (m, RError (PrepareFailed e)) | Inr prep \<Rightarrow> startActivationLocked oc prep m)"

definition stop :: "outcomes \<Rightarrow> string option \<Rightarrow> manager \<Rightarrow> manager \<times> response" where
  "stop oc role m =
    (if role \<noteq> None then (m, RError RoleScopedStop)
     else if mg_sess m = None then (m, Idle)
     else let m1 = (clear_session m)\<lparr>mg_plan := empty_plan\<rparr>;
              m2 = m1\<lparr>mg_fs := fst (ClearLastSession (oc_io oc) (mg_fs m1))\<rparr>
          in (broadcastStateLocked oc m2, if oc_close oc then Stopped else RError StopFailed))"

definition shutdown :: "manager \<Rightarrow> manager" where
  "shutdown m = (if mg_sess m \<noteq> None then (stopTrafficLocked m)\<lparr>mg_sess := None\<rparr> else m)"

section \<open>Switching and restoring\<close>

text \<open>The locked part of \<^verbatim>\<open>switchNode\<close>: a reply, or the request of the re-activation that follows.\<close>

definition switch_locked :: "outcomes \<Rightarrow> string \<Rightarrow> manager \<Rightarrow> manager \<times> (response + activate_request)" where
  "switch_locked oc ref m =
    (if mg_sess m = None then (m, Inl (RError NothingRunning))
     else case (if IsMember (mg_plan m) ref then Some ref else MemberTagForName (mg_plan m) ref) of
       Some tag \<Rightarrow>
         if \<not> oc_select oc then (m, Inl (RError LiveSelectFailed))
         else (case mg_active m of
           None \<Rightarrow> (m, Inl (RError NilDereference))
         | Some a \<Rightarrow>
             (let name = (case DisplayNameForTag (mg_plan m) tag of Some n \<Rightarrow> n | None \<Rightarrow> []);
                  m1 = m\<lparr>mg_active := Some (a\<lparr>pe_node := Some name, pe_node_id := Some tag\<rparr>)\<rparr>
              in (broadcastStateLocked oc (saveLastSessionLocked oc m1), Inl (Switched name))))
     | None \<Rightarrow> (case mg_active m of
           None \<Rightarrow> (m, Inl (RError NilDereference))
         | Some a \<Rightarrow> (m, Inr \<lparr>rq_profile = pe_profile a, rq_node = Some ref, rq_routing = pe_routing a,
                               rq_tun = Some (pe_tun a)\<rparr>)))"

text \<open>\<open>oc'\<close> are the outcomes of the re-activation.\<close>

definition switchNode :: "daemon_env \<Rightarrow> outcomes \<Rightarrow> outcomes \<Rightarrow> string option \<Rightarrow> manager \<Rightarrow> manager \<times> response" where
  "switchNode dv oc oc' node m = (case node of
     None \<Rightarrow> (m, RError NodeRequired)
   | Some ref \<Rightarrow> if ref = [] then (m, RError NodeRequired)
       else (case switch_locked oc ref m of
         (m1, Inl resp) \<Rightarrow> (m1, resp)
       | (m1, Inr req) \<Rightarrow> (case activate dv oc' req m1 of
           (m2, Activated _) \<Rightarrow> (m2, Switched (case mg_active m2 of
               Some a \<Rightarrow> (case pe_node a of Some n \<Rightarrow> n | None \<Rightarrow> ref) | None \<Rightarrow> ref))
         | (m2, resp) \<Rightarrow> (m2, resp))))"

definition restore_node :: "daemon_env \<Rightarrow> manager \<Rightarrow> persisted_entry \<Rightarrow> string option" where
  "restore_node dv m c = (case (pe_node_id c, pe_profile c) of
     (Some i, Some profile) \<Rightarrow> (case load_profile dv m profile of
         Inr p \<Rightarrow> if FindNodeByID p i = None then pe_node c else Some i
       | Inl _ \<Rightarrow> Some i)
   | _ \<Rightarrow> pe_node c)"

definition restoreLastSession :: "daemon_env \<Rightarrow> outcomes \<Rightarrow> manager \<Rightarrow> manager" where
  "restoreLastSession dv oc m =
    (if (case load_settings dv m of Inr s \<Rightarrow> \<not> st_restore_on_start s | Inl _ \<Rightarrow> False) then m
     else case LoadLastSession (mg_fs m) of
       Inr (Some c) \<Rightarrow> fst (activate dv oc \<lparr>rq_profile = pe_profile c, rq_node = restore_node dv m c,
                                rq_routing = pe_routing c, rq_tun = Some (pe_tun c)\<rparr> m)
     | _ \<Rightarrow> m)"

section \<open>Settings verbs\<close>

definition getSettings :: "daemon_env \<Rightarrow> manager \<Rightarrow> response" where
  "getSettings dv m = (case load_settings dv m of Inl e \<Rightarrow> RError (SettingsFailed e) | Inr s \<Rightarrow> SettingsReply s False)"

definition setSettings :: "daemon_env \<Rightarrow> outcomes \<Rightarrow> settings option \<Rightarrow> manager \<Rightarrow> manager \<times> response" where
  "setSettings dv oc req m = (case req of
     None \<Rightarrow> (m, RError SettingsRequired)
   | Some s \<Rightarrow> (case load_settings dv m of
       Inl e \<Rightarrow> (m, RError (SettingsFailed e))
     | Inr old \<Rightarrow> (case SaveSettings (dv_addr_ok dv) (dv_prefix_ok dv) (dv_url_parse dv) (oc_io oc) s (mg_settings m) of
         Inl e \<Rightarrow> (m, RError (SettingsFailed e))
       | Inr f \<Rightarrow> (m\<lparr>mg_settings := Some f\<rparr>, SettingsReply s (mg_sess m \<noteq> None \<and> engineRelevantChanged old s)))))"

section \<open>Reconnecting after a profile change\<close>

definition memberDigest :: "named_node \<Rightarrow> string \<times> json obj" where
  "memberDigest n = (Kind (nn_profile n), (case enc_profile_body (nn_profile n) of JObj body \<Rightarrow> jdel ''server_name'' body | _ \<Rightarrow> []))"

definition memberSetsEqual :: "named_node list \<Rightarrow> named_node list \<Rightarrow> bool" where
  "memberSetsEqual as bs = (length as = length bs \<and>
     list_all (\<lambda>b. map_of (rev (map (\<lambda>a. (nn_id a, memberDigest a)) as)) (nn_id b) = Some (memberDigest b)) bs)"

definition stringSetsEqual :: "string list \<Rightarrow> string list \<Rightarrow> bool" where
  "stringSetsEqual as bs = (length as = length bs \<and> sort as = sort bs)"

definition planMembersEqual :: "session_plan \<Rightarrow> session_plan \<Rightarrow> bool" where
  "planMembersEqual a b =
    (memberSetsEqual (sp_natives a) (sp_natives b) \<and> memberSetsEqual (sp_xray_nodes a) (sp_xray_nodes b) \<and>
     length (sp_groups a) = length (sp_groups b) \<and>
     list_all (\<lambda>ga. case find (\<lambda>gb. gr_id gb = gr_id ga) (sp_groups b) of
         None \<Rightarrow> False | Some gb \<Rightarrow> stringSetsEqual (gr_members ga) (gr_members gb)) (sp_groups a))"

definition relabel_nodes :: "session_plan \<Rightarrow> named_node list \<Rightarrow> named_node list" where
  "relabel_nodes fresh = map (\<lambda>n. case map_of (rev (map (\<lambda>f. (nn_id f, nn_name f)) (sp_natives fresh @ sp_xray_nodes fresh))) (nn_id n) of
     Some name \<Rightarrow> n\<lparr>nn_name := name\<rparr> | None \<Rightarrow> n)"

definition relabel_plan :: "session_plan \<Rightarrow> session_plan \<Rightarrow> session_plan" where
  "relabel_plan fresh p = p\<lparr>sp_natives := relabel_nodes fresh (sp_natives p), sp_xray_nodes := relabel_nodes fresh (sp_xray_nodes p),
     sp_groups := map (\<lambda>g. case DisplayNameForTag fresh (gr_id g) of Some n \<Rightarrow> g\<lparr>gr_name := n\<rparr> | None \<Rightarrow> g) (sp_groups p)\<rparr>"

definition relabelPlanLocked :: "outcomes \<Rightarrow> session_plan \<Rightarrow> node \<Rightarrow> manager \<Rightarrow> manager" where
  "relabelPlanLocked oc fresh current m = (case mg_active m of
     None \<Rightarrow> m
   | Some a \<Rightarrow>
      (let plan = relabel_plan fresh (mg_plan m);
           m1 = m\<lparr>mg_plan := plan, mg_active := Some (a\<lparr>pe_node := Some (node_DisplayName current)\<rparr>)\<rparr> in
       if plan \<noteq> mg_plan m \<or> pe_node a \<noteq> Some (node_DisplayName current)
       then broadcastStateLocked oc (saveLastSessionLocked oc m1) else m1))"

record session_reconnect =
  rr_req :: activate_request
  rr_sess :: nat
  rr_selection :: string

definition sessionReconnectLocked ::
  "outcomes \<Rightarrow> string \<Rightarrow> user_profile \<Rightarrow> manager \<Rightarrow> manager \<times> session_reconnect option" where
  "sessionReconnectLocked oc profileName p m = (case (mg_sess m, mg_active m) of
     (Some k, Some a) \<Rightarrow> (case (pe_profile a, pe_node a, pe_node_id a) of
        (Some prof, Some name, Some selection) \<Rightarrow>
          if prof \<noteq> profileName then (m, None)
          else (case (case FindNodeByID p selection of Some n \<Rightarrow> Some n | None \<Rightarrow> FindNodeByName p name) of
            None \<Rightarrow> (m, None)
          | Some current \<Rightarrow>
             (let base = (case FindNodeByID p (sp_active_tag (mg_plan m)) of Some n \<Rightarrow> n | None \<Rightarrow> current) in
              case buildPlan p base (mg_routing m) of
                Inl _ \<Rightarrow> (m, None)
              | Inr (fresh, _) \<Rightarrow>
                  if planMembersEqual (mg_plan m) fresh then (relabelPlanLocked oc fresh current m, None)
                  else (m, Some \<lparr>rr_req = \<lparr>rq_profile = Some prof, rq_node = Some (nd_id current), rq_routing = pe_routing a,
                                          rq_tun = Some (pe_tun a)\<rparr>,
                                 rr_sess = k, rr_selection = selection\<rparr>)))
      | _ \<Rightarrow> (m, None))
   | _ \<Rightarrow> (m, None))"

text \<open>The locked part of \<^verbatim>\<open>reconnectSession\<close>; \<open>None\<close> is a reconnect that was skipped.\<close>

definition reconnect_locked :: "outcomes \<Rightarrow> session_reconnect \<Rightarrow> activation \<Rightarrow> manager \<Rightarrow> manager \<times> response option" where
  "reconnect_locked oc rc prep m =
    (if mg_sess m \<noteq> Some (rr_sess rc) \<or> map_option pe_node_id (mg_active m) \<noteq> Some (Some (rr_selection rc))
     then (m, None)
     else (case startActivationLocked oc prep m of (m', resp) \<Rightarrow> (m', Some resp)))"

definition reconnectSession :: "daemon_env \<Rightarrow> outcomes \<Rightarrow> session_reconnect \<Rightarrow> manager \<Rightarrow> manager \<times> response option" where
  "reconnectSession dv oc rc m = (case prepareActivation (store_env dv m) (rr_req rc) of
     Inl e \<Rightarrow> (m, None) | Inr prep \<Rightarrow> reconnect_locked oc rc prep m)"

section \<open>Interleavings\<close>

text \<open>Work between two locked sections: an activation that is prepared, a reconnect that is decided,
  a reconnect that is prepared.\<close>

datatype pending =
    PActivate activation
  | PDecided session_reconnect
  | PReconnect session_reconnect activation

text \<open>The store verbs change profiles, the active profile and the settings, never the session record.\<close>

inductive session_step :: "daemon_env \<Rightarrow> manager \<times> pending list \<Rightarrow> manager \<times> pending list \<Rightarrow> bool" for dv where
  prepare: "prepareActivation (store_env dv m) req = Inr prep \<Longrightarrow> session_step dv (m, P) (m, PActivate prep # P)"
| start: "PActivate prep \<in> set P \<Longrightarrow>
    session_step dv (m, P) (fst (startActivationLocked oc prep m), remove1 (PActivate prep) P)"
| stop: "session_step dv (m, P) (fst (stop oc role m), P)"
| switch: "session_step dv (m, P) (fst (switch_locked oc ref m), P)"
| decide: "sessionReconnectLocked oc name p m = (m', rc) \<Longrightarrow>
    session_step dv (m, P) (m', (case rc of None \<Rightarrow> P | Some r \<Rightarrow> PDecided r # P))"
| prepare_reconnect: "PDecided r \<in> set P \<Longrightarrow> prepareActivation (store_env dv m) (rr_req r) = Inr prep \<Longrightarrow>
    session_step dv (m, P) (m, PReconnect r prep # remove1 (PDecided r) P)"
| reconnect: "PReconnect r prep \<in> set P \<Longrightarrow>
    session_step dv (m, P) (fst (reconnect_locked oc r prep m), remove1 (PReconnect r prep) P)"
| live_change: "session_step dv (m, P) (fst (broadcastLiveChange oc k lastLive m), P)"
| settings: "session_step dv (m, P) (fst (setSettings dv oc req m), P)"
| store: "fs_last_session fs = fs_last_session (mg_fs m) \<Longrightarrow> session_step dv (m, P) (m\<lparr>mg_fs := fs\<rparr>, P)"

inductive session_reachable :: "daemon_env \<Rightarrow> manager \<times> pending list \<Rightarrow> bool" for dv where
  boot: "session_reachable dv (newManager fs settings, [])"
| step: "session_reachable dv s \<Longrightarrow> session_step dv s s' \<Longrightarrow> session_reachable dv s'"

inductive_cases session_stepE: "session_step dv (m, P) s'"

section \<open>The session invariant\<close>

definition prep_ok :: "activation \<Rightarrow> bool" where
  "prep_ok prep = (validate (ac_plan prep) = None \<and> sp_active_tag (ac_plan prep) = ac_node_id prep)"

fun pending_ok :: "pending \<Rightarrow> bool" where
  "pending_ok (PActivate prep) = prep_ok prep"
| "pending_ok (PReconnect r prep) = prep_ok prep"
| "pending_ok (PDecided r) = True"

text \<open>The context of a running session: complete, and naming a member of the plan.\<close>

definition context_ok :: "session_plan \<Rightarrow> routing_config option \<Rightarrow> persisted_entry \<Rightarrow> bool" where
  "context_ok plan rc a = (pe_profile a \<noteq> None \<and> pe_node a \<noteq> None \<and>
     (case pe_node_id a of None \<Rightarrow> False | Some i \<Rightarrow> IsMember plan i) \<and> pe_routing a = map_option rc_name rc)"

definition session_inv :: "manager \<Rightarrow> bool" where
  "session_inv m = (map_option em_sess (mg_traffic m) = mg_sess m \<and>
     (case mg_sess m of
        None \<Rightarrow> mg_active m = None \<and> mg_routing m = None \<and> mg_routing_warnings m = []
      | Some k \<Rightarrow> k = mg_activations m \<and> validate (mg_plan m) = None \<and>
          (case mg_active m of None \<Rightarrow> False | Some a \<Rightarrow> context_ok (mg_plan m) (mg_routing m) a)))"

lemma session_frame [simp]:
  "mg_sess (broadcastStateLocked oc m) = mg_sess m" "mg_active (broadcastStateLocked oc m) = mg_active m"
  "mg_plan (broadcastStateLocked oc m) = mg_plan m" "mg_routing (broadcastStateLocked oc m) = mg_routing m"
  "mg_routing_warnings (broadcastStateLocked oc m) = mg_routing_warnings m" "mg_traffic (broadcastStateLocked oc m) = mg_traffic m"
  "mg_activations (broadcastStateLocked oc m) = mg_activations m" "mg_fs (broadcastStateLocked oc m) = mg_fs m"
  "mg_settings (broadcastStateLocked oc m) = mg_settings m"
  "mg_sess (saveLastSessionLocked oc m) = mg_sess m" "mg_active (saveLastSessionLocked oc m) = mg_active m"
  "mg_plan (saveLastSessionLocked oc m) = mg_plan m" "mg_routing (saveLastSessionLocked oc m) = mg_routing m"
  "mg_routing_warnings (saveLastSessionLocked oc m) = mg_routing_warnings m" "mg_traffic (saveLastSessionLocked oc m) = mg_traffic m"
  "mg_activations (saveLastSessionLocked oc m) = mg_activations m" "mg_events (saveLastSessionLocked oc m) = mg_events m"
  "mg_settings (saveLastSessionLocked oc m) = mg_settings m"
  "mg_sess (startTrafficEmitterLocked oc m) = mg_sess m" "mg_active (startTrafficEmitterLocked oc m) = mg_active m"
  "mg_plan (startTrafficEmitterLocked oc m) = mg_plan m" "mg_routing (startTrafficEmitterLocked oc m) = mg_routing m"
  "mg_routing_warnings (startTrafficEmitterLocked oc m) = mg_routing_warnings m"
  "mg_activations (startTrafficEmitterLocked oc m) = mg_activations m" "mg_events (startTrafficEmitterLocked oc m) = mg_events m"
  "mg_fs (startTrafficEmitterLocked oc m) = mg_fs m" "mg_settings (startTrafficEmitterLocked oc m) = mg_settings m"
  by (simp_all add: broadcastStateLocked_def saveLastSessionLocked_def startTrafficEmitterLocked_def split: option.splits)

lemma emitter_sess: "mg_sess m = Some k \<Longrightarrow> map_option em_sess (mg_traffic (startTrafficEmitterLocked oc m)) = Some k"
  by (simp add: startTrafficEmitterLocked_def)

lemma clear_session_sel [simp]:
  "mg_sess (clear_session m) = None" "mg_active (clear_session m) = None" "mg_routing (clear_session m) = None"
  "mg_routing_warnings (clear_session m) = []" "mg_traffic (clear_session m) = None" "mg_plan (clear_session m) = mg_plan m"
  "mg_activations (clear_session m) = mg_activations m" "mg_events (clear_session m) = mg_events m"
  "mg_fs (clear_session m) = mg_fs m" "mg_settings (clear_session m) = mg_settings m"
  by (simp_all add: clear_session_def stopTrafficLocked_def)

lemma record_session_sel [simp]:
  "mg_sess (record_session oc prep m) = Some (mg_activations m + 1)" "mg_plan (record_session oc prep m) = ac_plan prep"
  "mg_active (record_session oc prep m) = Some (activation_context prep)" "mg_routing (record_session oc prep m) = ac_routing prep"
  "mg_routing_warnings (record_session oc prep m) = ac_warnings prep" "mg_activations (record_session oc prep m) = mg_activations m + 1"
  "mg_events (record_session oc prep m) = mg_events m" "mg_fs (record_session oc prep m) = mg_fs m"
  "mg_settings (record_session oc prep m) = mg_settings m"
  by (simp_all add: record_session_def)

lemma broadcast_event [simp]:
  "mg_events (broadcastStateLocked oc m) = mg_events m @ [stateEventLocked oc m]"
  "stateEventLocked oc (broadcastStateLocked oc m) = stateEventLocked oc m"
  by (simp_all add: broadcastStateLocked_def stateEventLocked_def liveNodeLocked_def entriesLocked_def split: option.splits)

lemma session_inv_broadcast [simp]: "session_inv (broadcastStateLocked oc m) = session_inv m"
  by (simp add: session_inv_def cong: option.case_cong)

lemma session_inv_save [simp]: "session_inv (saveLastSessionLocked oc m) = session_inv m"
  by (simp add: session_inv_def cong: option.case_cong)

lemma session_inv_clear: "session_inv (clear_session m)"
  by (simp add: session_inv_def)

lemma validate_member: "validate p = None \<Longrightarrow> IsMember p (sp_active_tag p)"
  by (simp add: validate_None plan_ok_def IsMember_def)

lemma context_of_prep: "prep_ok prep \<Longrightarrow> context_ok (ac_plan prep) (ac_routing prep) (activation_context prep)"
  using validate_member [of "ac_plan prep"] by (simp add: prep_ok_def context_ok_def activation_context_def)

lemma session_inv_started:
  "prep_ok prep \<Longrightarrow> session_inv (startTrafficEmitterLocked oc (saveLastSessionLocked oc (record_session oc prep m)))"
  using context_of_prep [of prep] emitter_sess [of "saveLastSessionLocked oc (record_session oc prep m)" "mg_activations m + 1" oc]
  by (simp add: session_inv_def prep_ok_def)

lemma session_inv_start:
  "session_inv m \<Longrightarrow> prep_ok prep \<Longrightarrow> session_inv (fst (startActivationLocked oc prep m))"
  by (simp add: startActivationLocked_def session_inv_clear session_inv_started Let_def)

lemma session_inv_stop: "session_inv m \<Longrightarrow> session_inv (fst (stop oc role m))"
  using session_inv_clear [of m] by (simp add: stop_def Let_def) (simp add: session_inv_def)

lemma case_err_Inr: "((case x of Inl e \<Rightarrow> Inl (f e) | Inr p \<Rightarrow> Inr p) = Inr y) = (x = Inr y)"
  by (cases x) auto

lemma prepareActivation_Inr:
  assumes "prepareActivation env req = Inr prep"
  obtains prof node plan s where
    "request_profile env req = Inr (ac_profile_name prep)" "en_load_profile env (ac_profile_name prep) = Inr prof"
    "request_node prof (ac_profile_name prep) req = Inr node" "request_routing prof (ac_profile_name prep) req = Inr (ac_routing prep)"
    "buildPlan prof node (ac_routing prep) = Inr (plan, ac_warnings prep)" "en_settings env = Inr s"
    "ac_tun prep = (rq_tun req = Some True)" "ac_node_id prep = nd_id node" "ac_node_name prep = node_DisplayName node"
    "ac_plan prep = plan\<lparr>sp_cache_path := en_cache_path env, sp_tunables := Some (tunablesFromSettings s)\<rparr>"
    "compile_plan env (ac_tun prep) (ac_plan prep) (st_socks_port s) = Inr (ac_sb_cfg prep, ac_xray_cfg prep)"
  using assms unfolding prepareActivation_def
  by (auto simp: rbind_eq_Inr_iff case_err_Inr Let_def)

lemma compile_plan_valid: "compile_plan env tun plan port = Inr (sb, xr) \<Longrightarrow> validate plan = None"
  by (auto simp: compile_plan_def PlanTUNConfigs_def PlanSocksConfigs_def case_err_Inr dest: plan_configs_Inr split: if_splits)

lemma prepareActivation_prep_ok:
  assumes "prepareActivation env req = Inr prep"
  shows "prep_ok prep"
  using prepareActivation_Inr [OF assms]
proof cases
  case (1 prof node plan s)
  have "sp_active_tag plan = nd_id node" by (rule buildPlan_Inr [OF 1(5)])
  with 1 compile_plan_valid [OF 1(11)] show ?thesis by (simp add: prep_ok_def)
qed

lemma relabel_ids [simp]:
  "map nn_id (relabel_nodes fresh ns) = map nn_id ns"
  "nodeTags (relabel_plan fresh p) = nodeTags p" "memberTags (relabel_plan fresh p) = memberTags p"
  "sp_active_tag (relabel_plan fresh p) = sp_active_tag p" "sp_routing (relabel_plan fresh p) = sp_routing p"
proof -
  show ids: "map nn_id (relabel_nodes fresh ns) = map nn_id ns" for ns
    by (induction ns) (auto simp: relabel_nodes_def split: option.splits)
  show tags: "nodeTags (relabel_plan fresh p) = nodeTags p"
    by (simp add: nodeTags_def relabel_plan_def ids)
  have "map gr_id (sp_groups (relabel_plan fresh p)) = map gr_id (sp_groups p)"
    by (auto simp: relabel_plan_def split: option.splits)
  with tags show "memberTags (relabel_plan fresh p) = memberTags p" by (simp add: memberTags_def)
qed (simp_all add: relabel_plan_def)

lemma relabel_groups:
  "g \<in> set (sp_groups (relabel_plan fresh p)) \<Longrightarrow> \<exists>g' \<in> set (sp_groups p). gr_id g = gr_id g' \<and> gr_members g = gr_members g'"
  by (force simp: relabel_plan_def split: option.splits)

lemma relabel_valid: "validate p = None \<Longrightarrow> validate (relabel_plan fresh p) = None"
  using relabel_groups [of _ fresh p] by (fastforce simp: validate_None plan_ok_def)

lemma session_inv_relabel: "session_inv m \<Longrightarrow> session_inv (relabelPlanLocked oc fresh current m)"
  by (auto simp: relabelPlanLocked_def Let_def session_inv_def context_ok_def IsMember_def relabel_valid split: option.splits)

lemma MemberTagForName_member: "MemberTagForName p ref = Some tag \<Longrightarrow> IsMember p tag"
  by (auto simp: MemberTagForName_def IsMember_def memberTags_def nodeTags_def split: option.splits dest!: find_SomeD)

lemma DisplayNameForTag_member: "IsMember p tag \<longleftrightarrow> (\<exists>name. DisplayNameForTag p tag = Some name)"
proof -
  have found: "x \<in> set xs \<Longrightarrow> P x \<Longrightarrow> \<exists>y. find P xs = Some y" for P :: "'a \<Rightarrow> bool" and x xs
    by (cases "find P xs") (auto simp: find_None_iff)
  show ?thesis
    by (auto simp: DisplayNameForTag_def IsMember_def memberTags_def nodeTags_def find_None_iff split: option.splits
        dest!: find_SomeD intro: found)
qed

lemma session_inv_switch: "session_inv m \<Longrightarrow> session_inv (fst (switch_locked oc ref m))"
  by (auto simp: switch_locked_def Let_def session_inv_def context_ok_def split: option.splits dest: MemberTagForName_member)

lemma session_inv_decide:
  "session_inv m \<Longrightarrow> sessionReconnectLocked oc name p m = (m', rc) \<Longrightarrow> session_inv m'"
  by (auto simp: sessionReconnectLocked_def Let_def session_inv_relabel split: option.splits if_splits sum.splits prod.splits)

lemma session_inv_reconnect: "session_inv m \<Longrightarrow> prep_ok prep \<Longrightarrow> session_inv (fst (reconnect_locked oc rc prep m))"
  using session_inv_start [of m prep oc] by (auto simp: reconnect_locked_def split: prod.splits)

lemma session_inv_live: "session_inv m \<Longrightarrow> session_inv (fst (broadcastLiveChange oc k lastLive m))"
  by (simp add: broadcastLiveChange_def Let_def)

lemma session_inv_files: "session_inv m \<Longrightarrow> session_inv (m\<lparr>mg_fs := fs\<rparr>)" "session_inv m \<Longrightarrow> session_inv (m\<lparr>mg_settings := f\<rparr>)"
  by (simp_all add: session_inv_def cong: option.case_cong)

lemma session_inv_settings: "session_inv m \<Longrightarrow> session_inv (fst (setSettings dv oc req m))"
  by (auto simp: setSettings_def session_inv_files split: option.splits sum.splits)

lemmas session_inv_ops = session_inv_start session_inv_stop session_inv_switch session_inv_decide session_inv_reconnect
  session_inv_live session_inv_files session_inv_settings prepareActivation_prep_ok

lemma session_step_inv:
  assumes "session_step dv (m, P) (m', P')" and "session_inv m" and "list_all pending_ok P"
  shows "session_inv m' \<and> list_all pending_ok P'"
proof -
  have ok: "pending_ok q" if "q \<in> set P" for q using assms(3) that by (simp add: list_all_iff)
  have rest: "list_all pending_ok (remove1 q P)" for q
    using assms(3) notin_set_remove1 by (fastforce simp: list_all_iff)
  show ?thesis
    using assms(1)
    by (cases rule: session_stepE)
       (use assms(2,3) rest in \<open>auto dest!: ok intro: session_inv_ops split: option.splits\<close>)
qed

lemma session_reachable_ok: "session_reachable dv s \<Longrightarrow> session_inv (fst s) \<and> list_all pending_ok (snd s)"
proof (induction rule: session_reachable.induct)
  case (boot fs settings)
  then show ?case by (simp add: newManager_def session_inv_def)
next
  case (step s s')
  then show ?case using session_step_inv [of dv "fst s" "snd s" "fst s'" "snd s'"] by simp
qed

section \<open>Session identities\<close>

text \<open>A locked section keeps the session, ends it, or starts one with a fresh number.\<close>

definition sess_moves :: "manager \<Rightarrow> manager \<Rightarrow> bool" where
  "sess_moves m m' = (mg_activations m \<le> mg_activations m' \<and>
     (mg_sess m' = mg_sess m \<or> mg_sess m' = None \<or>
      mg_sess m' = Some (mg_activations m') \<and> mg_activations m < mg_activations m'))"

lemma sess_moves_refl: "sess_moves m m"
  by (simp add: sess_moves_def)

lemma sess_moves_start: "sess_moves m (fst (startActivationLocked oc prep m))"
  by (simp add: startActivationLocked_def sess_moves_def Let_def)

lemma sess_moves_relabel: "sess_moves m (relabelPlanLocked oc fresh current m)"
  by (auto simp: relabelPlanLocked_def sess_moves_def Let_def split: option.splits)

lemma session_step_moves:
  assumes "session_step dv (m, P) (m', P')"
  shows "sess_moves m m'"
  using assms
proof cases
  case (decide oc name p rc)
  then show ?thesis
    by (auto simp: sessionReconnectLocked_def Let_def sess_moves_refl sess_moves_relabel
        split: option.splits if_splits sum.splits prod.splits)
next
  case (reconnect r prep oc)
  then show ?thesis using sess_moves_start [of m oc prep]
    by (auto simp: reconnect_locked_def sess_moves_refl split: prod.splits)
next
  case (start prep oc)
  then show ?thesis by (simp add: sess_moves_start)
qed (auto simp: stop_def switch_locked_def broadcastLiveChange_def setSettings_def
      sess_moves_def Let_def split: option.splits sum.splits)

lemma retired_stays:
  assumes "(session_step dv)\<^sup>*\<^sup>* s s'" and "mg_sess (fst s) \<noteq> Some k" and "k \<le> mg_activations (fst s)"
  shows "mg_sess (fst s') \<noteq> Some k \<and> k \<le> mg_activations (fst s')"
  using assms(1)
proof (induction rule: rtranclp_induct)
  case base
  with assms show ?case by simp
next
  case (step s1 s2)
  have "sess_moves (fst s1) (fst s2)"
    using session_step_moves [of dv "fst s1" "snd s1" "fst s2" "snd s2"] step(2) by simp
  with step(3) show ?case by (auto simp: sess_moves_def)
qed

lemma activations_grow: "(session_step dv)\<^sup>*\<^sup>* s s' \<Longrightarrow> mg_activations (fst s) \<le> mg_activations (fst s')"
proof (induction rule: rtranclp_induct)
  case (step s1 s2)
  then show ?case using session_step_moves [of dv "fst s1" "snd s1" "fst s2" "snd s2"] by (simp add: sess_moves_def)
qed simp

section \<open>Restarting\<close>

lemma LoadProfile_cong: "fs_profiles fs = fs_profiles fs' \<Longrightarrow> LoadProfile it pt ni fs = LoadProfile it pt ni fs'"
  by (auto simp: LoadProfile_def fun_eq_iff split: option.splits)

lemma ActiveProfileName_fs_cong: "fs_state fs = fs_state fs' \<Longrightarrow> ActiveProfileName fs = ActiveProfileName fs'"
  by (simp add: ActiveProfileName_def)

lemma store_env_cong:
  assumes "fs_profiles (mg_fs m) = fs_profiles (mg_fs m')" "fs_state (mg_fs m) = fs_state (mg_fs m')" "mg_settings m = mg_settings m'"
  shows "store_env dv m = store_env dv m'"
  using LoadProfile_cong [OF assms(1)] ActiveProfileName_fs_cong [OF assms(2)] assms(3) by (simp add: store_env_def)

lemma find_only:
  assumes "x \<in> set xs" "P x" "\<And>y. y \<in> set xs \<Longrightarrow> P y \<Longrightarrow> y = x"
  shows "find P xs = Some x"
proof -
  have "find P xs \<noteq> None" using assms(1,2) by (auto simp: find_None_iff)
  then obtain y where y: "find P xs = Some y" by blast
  then have "y \<in> set xs \<and> P y" by (rule find_SomeD)
  with assms(3) y show ?thesis by blast
qed

lemma find_unique: "distinct (map f xs) \<Longrightarrow> x \<in> set xs \<Longrightarrow> find (\<lambda>y. f y = f x) xs = Some x"
  by (rule find_only) (auto simp: distinct_map dest: inj_onD)

text \<open>Names and ids in a profile identify what they refer to.\<close>

definition refs_ok :: "user_profile \<Rightarrow> bool" where
  "refs_ok p = (distinct (node_ids p) \<and> [] \<notin> set (node_ids p) \<and> distinct (map rc_name (pf_routing_configs p)) \<and>
     (\<forall>r \<in> set (pf_routing_configs p). rc_name r \<noteq> [] \<and>
        (\<forall>r' \<in> set (pf_routing_configs p). rc_id r' = rc_name r \<longrightarrow> r' = r)))"

lemma request_profile_nonempty: "request_profile env req = Inr name \<Longrightarrow> name \<noteq> []"
  by (auto simp: request_profile_def split: option.splits list.splits sum.splits if_splits)

lemma FindNodeByID_mem: "distinct (node_ids p) \<Longrightarrow> n \<in> set (pf_nodes p) \<Longrightarrow> FindNodeByID p (nd_id n) = Some n"
  by (simp add: FindNodeByID_def find_unique)

lemma FindRouting_name:
  assumes "refs_ok p" and "r \<in> set (pf_routing_configs p)"
  shows "FindRouting p (rc_name r) = Some r"
  unfolding FindRouting_def
proof (rule find_only)
  fix r' assume "r' \<in> set (pf_routing_configs p)" "rc_id r' = rc_name r \<or> rc_name r' = rc_name r"
  with assms show "r' = r" by (auto simp: refs_ok_def dest: inj_onD [of rc_name "set (pf_routing_configs p)"] simp: distinct_map)
qed (use assms in auto)

text \<open>The request recorded for a prepared activation resolves to the same activation.\<close>

lemma recorded_request:
  assumes prep: "prepareActivation env req = Inr prep"
    and prof: "en_load_profile env (ac_profile_name prep) = Inr p" and refs: "refs_ok p"
  shows "prepareActivation env \<lparr>rq_profile = Some (ac_profile_name prep), rq_node = Some (ac_node_id prep),
     rq_routing = map_option rc_name (ac_routing prep), rq_tun = Some (ac_tun prep)\<rparr> = Inr prep"
    (is "prepareActivation env ?req = _")
  using prepareActivation_Inr [OF prep]
proof cases
  case (1 prof' node plan s)
  then have [simp]: "prof' = p" using prof by simp
  have "request_profile env ?req = Inr (ac_profile_name prep)"
    using request_profile_nonempty [OF 1(1)] by (simp add: request_profile_def split: list.splits)
  moreover have "request_node p (ac_profile_name prep) ?req = Inr node"
  proof -
    have n: "node \<in> set (pf_nodes p)" using request_node_mem [OF 1(3)] by simp
    then have "nd_id node \<noteq> []" using refs by (force simp: refs_ok_def)
    then show ?thesis using 1(8) FindNodeByID_mem [OF _ n] refs
      by (auto simp: request_node_def FindNode_def refs_ok_def split: list.splits)
  qed
  moreover have "request_routing p (ac_profile_name prep) ?req = Inr (ac_routing prep)"
  proof (cases "ac_routing prep")
    case None
    with 1(4) show ?thesis by (auto simp: request_routing_def split: option.splits list.splits)
  next
    case (Some r)
    have "r \<in> set (pf_routing_configs p)" using 1(4) Some request_routing_mem by simp
    then have "rc_name r \<noteq> []" "FindRouting p (rc_name r) = Some r"
      using refs FindRouting_name by (auto simp: refs_ok_def)
    with Some show ?thesis by (auto simp: request_routing_def split: list.splits)
  qed
  ultimately show ?thesis using 1 by (simp add: prepareActivation_def)
qed

lemma start_ok:
  assumes "mg_sess m = None \<or> oc_close oc" and "oc_start oc"
  shows "\<exists>es. startActivationLocked oc prep m =
     (broadcastStateLocked oc (startTrafficEmitterLocked oc (saveLastSessionLocked oc
        (record_session oc prep (if mg_sess m \<noteq> None then clear_session m else m)))), Activated es)"
  using assms by (simp add: startActivationLocked_def Let_def)

lemma start_Activated:
  assumes "startActivationLocked oc prep m = (m', Activated es)"
  shows "mg_sess m' = Some (mg_activations m + 1) \<and> mg_plan m' = ac_plan prep \<and> mg_routing m' = ac_routing prep \<and>
    mg_active m' = Some (activation_context prep) \<and> mg_settings m' = mg_settings m \<and>
    mg_fs m' = fst (SaveLastSession (oc_io oc) (activation_context prep) (mg_fs m))"
  using assms
  by (auto simp: startActivationLocked_def Let_def saveLastSessionLocked_def split: if_splits)

lemma SaveLastSession_fs:
  "fs_profiles (fst (SaveLastSession io c fs)) = fs_profiles fs \<and> fs_state (fst (SaveLastSession io c fs)) = fs_state fs"
  by (auto simp: SaveLastSession_def split: sum.splits)

lemma SaveLastSession_loads:
  assumes "\<forall>b. fs_last_session fs \<noteq> Some (EDir b)"
  shows "LoadLastSession (fst (SaveLastSession True c fs)) = Inr (Some c)"
proof -
  have "fst (SaveLastSession True c fs) = fs\<lparr>fs_last_session := Some (EFile (Some (JObj [(''context'', enc_persisted c)])))\<rparr>"
    using assms by (auto simp: SaveLastSession_def atomicWrite_def split: option.splits entry.splits)
  then show ?thesis by (simp add: LoadLastSession_def read_file_def decoding_def dec_enc_persisted codec_simps)
qed

section \<open>Properties\<close>

text \<open>
  C11. The session state is consistent in every reachable state, whatever the interleaving of
  activations, stops, switches, reconnects and store edits: the traffic emitter belongs to the running
  session; without a session nothing is left of the last one; a running session has a valid plan and a
  complete context whose node is a member of that plan. So a node switch never dereferences a missing
  context.
\<close>

theorem session_reachable_inv:
  assumes "session_reachable dv (m, P)"
  shows "session_inv m \<and> (\<forall>oc ref. snd (switch_locked oc ref m) \<noteq> Inl (RError NilDereference))"
proof -
  have inv: "session_inv m" using session_reachable_ok [OF assms] by simp
  then have "snd (switch_locked oc ref m) \<noteq> Inl (RError NilDereference)" for oc ref
    by (auto simp: session_inv_def switch_locked_def Let_def split: option.splits)
  with inv show ?thesis by blast
qed

text \<open>
  C13. A reconnect never replaces a session other than the one it was decided for: once the session that
  ran at the decision has ended, the reconnect does nothing, however many sessions were started since.
\<close>

theorem reconnect_spares_newer:
  assumes "session_reachable dv (m, P)" and "mg_sess m = Some k"
    and "(session_step dv)\<^sup>*\<^sup>* (m, P) (m1, P1)" and "mg_sess m1 \<noteq> Some k"
    and "(session_step dv)\<^sup>*\<^sup>* (m1, P1) (m2, P2)" and "rr_sess rc = k"
  shows "reconnect_locked oc rc prep m2 = (m2, None)"
proof -
  have "k = mg_activations m"
    using session_reachable_ok [OF assms(1)] assms(2) by (simp add: session_inv_def)
  then have "k \<le> mg_activations m1" using activations_grow [OF assms(3)] by simp
  then have "mg_sess m2 \<noteq> Some k" using retired_stays [OF assms(5), of k] assms(4) by simp
  then show ?thesis using assms(6) by (simp add: reconnect_locked_def)
qed

text \<open>
  C12. Restart restores the session. When an activation succeeded and its context was written, a daemon
  that is shut down and started again on the same files comes back with the same context, routing and
  plan, provided the cores start and restoring is not switched off.
\<close>

theorem restore_same_session:
  assumes act: "activate dv oc req m = (m1, Activated es)"
    and io: "oc_io oc" "\<forall>b. fs_last_session (mg_fs m) \<noteq> Some (EDir b)"
    and refs: "\<forall>name p. load_profile dv m name = Inr p \<longrightarrow> refs_ok p"
    and on: "\<forall>s. load_settings dv m = Inr s \<longrightarrow> st_restore_on_start s"
    and start: "oc_start oc'"
    and boot: "m2 = newManager (mg_fs (shutdown m1)) (mg_settings (shutdown m1))"
  shows "mg_active (restoreLastSession dv oc' m2) = mg_active m1 \<and> mg_plan (restoreLastSession dv oc' m2) = mg_plan m1 \<and>
    mg_routing (restoreLastSession dv oc' m2) = mg_routing m1 \<and> mg_sess (restoreLastSession dv oc' m2) \<noteq> None"
proof -
  obtain prep where prep: "prepareActivation (store_env dv m) req = Inr prep" "startActivationLocked oc prep m = (m1, Activated es)"
    using act by (auto simp: activate_def split: sum.splits)
  note m1 = start_Activated [OF prep(2)]
  have m2: "mg_fs m2 = fst (SaveLastSession True (activation_context prep) (mg_fs m))" "mg_settings m2 = mg_settings m" "mg_sess m2 = None"
    using boot m1 io(1) by (simp_all add: newManager_def shutdown_def stopTrafficLocked_def)
  have env: "store_env dv m2 = store_env dv m"
    by (rule store_env_cong) (simp_all add: m2 SaveLastSession_fs)
  obtain p where p: "load_profile dv m (ac_profile_name prep) = Inr p" "FindNodeByID p (ac_node_id prep) \<noteq> None"
    using prepareActivation_Inr [OF prep(1)]
  proof cases
    case (1 prof node plan s)
    then show thesis
      using that [of prof] request_node_mem [OF 1(3)] by (auto simp: store_env_def FindNodeByID_None)
  qed
  have "load_profile dv m2 = load_profile dv m"
    by (rule LoadProfile_cong) (simp add: m2 SaveLastSession_fs)
  then have node: "restore_node dv m2 (activation_context prep) = Some (ac_node_id prep)"
    using p by (auto simp: restore_node_def activation_context_def)
  have "prepareActivation (store_env dv m2) \<lparr>rq_profile = Some (ac_profile_name prep), rq_node = Some (ac_node_id prep),
     rq_routing = map_option rc_name (ac_routing prep), rq_tun = Some (ac_tun prep)\<rparr> = Inr prep"
    unfolding env by (rule recorded_request [OF prep(1)]) (use p(1) refs in \<open>auto simp: store_env_def\<close>)
  then have "restoreLastSession dv oc' m2 = fst (startActivationLocked oc' prep m2)"
    using SaveLastSession_loads [OF io(2), of "activation_context prep"] on node m2
    by (simp add: restoreLastSession_def activate_def) (simp add: activation_context_def split: sum.splits)
  with start_ok [of m2 oc' prep] start m1 m2(3) show ?thesis by auto
qed

text \<open>
  A live switch moves the selection and nothing else. On a running session, a switch to an embedded
  member that the selector accepts keeps the session, its plan and its routing, records the member as the
  active node, writes the record and broadcasts the new state.
\<close>

theorem switch_live:
  assumes "session_reachable dv (m, P)" and "mg_sess m \<noteq> None" and "IsMember (mg_plan m) ref" and "oc_select oc"
    and "switch_locked oc ref m = (m', r)"
  shows "mg_sess m' = mg_sess m \<and> mg_plan m' = mg_plan m \<and> mg_routing m' = mg_routing m \<and> mg_activations m' = mg_activations m \<and>
    (\<exists>a a' name. mg_active m = Some a \<and> DisplayNameForTag (mg_plan m) ref = Some name \<and>
       a' = a\<lparr>pe_node := Some name, pe_node_id := Some ref\<rparr> \<and> mg_active m' = Some a' \<and> r = Inl (Switched name) \<and>
       mg_fs m' = fst (SaveLastSession (oc_io oc) a' (mg_fs m)) \<and> mg_events m' = mg_events m @ [stateEventLocked oc m'])"
proof -
  have inv: "session_inv m" using session_reachable_ok [OF assms(1)] by simp
  then obtain a where a: "mg_active m = Some a" using assms(2) by (auto simp: session_inv_def split: option.splits)
  obtain name where "DisplayNameForTag (mg_plan m) ref = Some name"
    using assms(3) DisplayNameForTag_member by blast
  then show ?thesis
    using assms(2-5) a
    by (auto simp: switch_locked_def Let_def saveLastSessionLocked_def)
qed

text \<open>
  Who hears of an activation. Whatever happens when a prepared activation is started, the last event
  broadcast shows the resulting state, with one exception: when closing the previous session fails, the
  session and its context are dropped and no event is sent.
\<close>

theorem start_published:
  assumes "startActivationLocked oc prep m = (m', resp)"
  shows "if resp = RError StopPreviousFailed
    then mg_sess m \<noteq> None \<and> mg_sess m' = None \<and> mg_active m' = None \<and> mg_events m' = mg_events m
    else mg_events m' = mg_events m @ [stateEventLocked oc m']"
  using assms
  by (auto simp: startActivationLocked_def Let_def split: if_splits)

lemma sort_eq_iff: "sort xs = sort ys \<longleftrightarrow> mset xs = mset ys"
  by (metis mset_sort properties_for_sort sorted_sort)

lemma stringSetsEqual_iff: "stringSetsEqual as bs \<longleftrightarrow> mset as = mset bs"
  by (auto simp: stringSetsEqual_def sort_eq_iff dest: mset_eq_length)

lemma same_length_image_eq:
  assumes "distinct (map f as)" and "distinct (map f bs)"
  shows "(length as = length bs \<and> f ` set bs \<subseteq> f ` set as) \<longleftrightarrow> f ` set as = f ` set bs"
proof -
  have "card (f ` set as) = length as" "card (f ` set bs) = length bs"
    using distinct_card [OF assms(1)] distinct_card [OF assms(2)] by simp_all
  then show ?thesis using card_subset_eq [of "f ` set as" "f ` set bs"] by auto
qed

lemma memberSetsEqual_iff:
  assumes "distinct (map nn_id as)" and "distinct (map nn_id bs)"
  shows "memberSetsEqual as bs \<longleftrightarrow>
    (\<lambda>n. (nn_id n, memberDigest n)) ` set as = (\<lambda>n. (nn_id n, memberDigest n)) ` set bs"
proof -
  let ?f = "\<lambda>n. (nn_id n, memberDigest n)"
  have d: "distinct (map ?f as)" "distinct (map ?f bs)"
    using assms by (auto simp: distinct_map inj_on_def)
  have dom: "distinct (map fst (rev (map ?f as)))" using assms(1) by (simp add: rev_map [symmetric] o_def)
  have look: "map_of (rev (map ?f as)) i = Some x \<longleftrightarrow> (i, x) \<in> ?f ` set as" for i x
    using map_of_eq_Some_iff [OF dom] by auto
  have "memberSetsEqual as bs \<longleftrightarrow> length as = length bs \<and> ?f ` set bs \<subseteq> ?f ` set as"
    by (auto simp: memberSetsEqual_def list_all_iff look)
  also have "\<dots> \<longleftrightarrow> ?f ` set as = ?f ` set bs"
    using same_length_image_eq [OF d] by auto
  finally show ?thesis .
qed

lemma groups_equal_iff:
  fixes as bs :: "group_plan list"
  assumes "distinct (map gr_id as)" and "distinct (map gr_id bs)"
  shows "(length as = length bs \<and> list_all (\<lambda>ga. case find (\<lambda>gb. gr_id gb = gr_id ga) bs of
       None \<Rightarrow> False | Some gb \<Rightarrow> stringSetsEqual (gr_members ga) (gr_members gb)) as) \<longleftrightarrow>
    (\<lambda>g. (gr_id g, mset (gr_members g))) ` set as = (\<lambda>g. (gr_id g, mset (gr_members g))) ` set bs"
proof -
  let ?f = "\<lambda>g. (gr_id g, mset (gr_members g))"
  have d: "distinct (map ?f as)" "distinct (map ?f bs)"
    using assms by (auto simp: distinct_map inj_on_def)
  have look: "(case find (\<lambda>gb. gr_id gb = gr_id ga) bs of
       None \<Rightarrow> False | Some gb \<Rightarrow> stringSetsEqual (gr_members ga) (gr_members gb)) \<longleftrightarrow> ?f ga \<in> ?f ` set bs" for ga
  proof (cases "find (\<lambda>gb. gr_id gb = gr_id ga) bs")
    case None
    then have "\<forall>g \<in> set bs. gr_id g \<noteq> gr_id ga" by (auto simp: find_None_iff)
    with None show ?thesis by auto
  next
    case (Some gb)
    then have gb: "gb \<in> set bs" "gr_id gb = gr_id ga" by (auto dest: find_SomeD)
    have only: "g = gb" if "g \<in> set bs" "gr_id g = gr_id ga" for g
      using that gb assms(2) by (simp add: distinct_map inj_on_def)
    have "?f ga \<in> ?f ` set bs \<longleftrightarrow> mset (gr_members ga) = mset (gr_members gb)"
    proof
      assume "?f ga \<in> ?f ` set bs"
      then obtain g where "g \<in> set bs" "gr_id g = gr_id ga" "mset (gr_members ga) = mset (gr_members g)" by auto
      with only show "mset (gr_members ga) = mset (gr_members gb)" by metis
    next
      assume "mset (gr_members ga) = mset (gr_members gb)"
      with gb show "?f ga \<in> ?f ` set bs" by (intro image_eqI [of _ _ gb]) auto
    qed
    with Some show ?thesis by (simp add: stringSetsEqual_iff)
  qed
  have "(length as = length bs \<and> list_all (\<lambda>ga. case find (\<lambda>gb. gr_id gb = gr_id ga) bs of
       None \<Rightarrow> False | Some gb \<Rightarrow> stringSetsEqual (gr_members ga) (gr_members gb)) as) \<longleftrightarrow>
    length as = length bs \<and> ?f ` set as \<subseteq> ?f ` set bs"
    by (simp only: look list_all_iff image_subset_iff)
  also have "\<dots> \<longleftrightarrow> length bs = length as \<and> ?f ` set as \<subseteq> ?f ` set bs"
    by (simp only: eq_commute [of "length as"])
  also have "\<dots> \<longleftrightarrow> ?f ` set bs = ?f ` set as" by (rule same_length_image_eq [OF d(2,1)])
  also have "\<dots> \<longleftrightarrow> ?f ` set as = ?f ` set bs" by (rule eq_commute)
  finally show ?thesis .
qed

text \<open>
  C30. When a profile change needs a reconnect. For valid plans the member comparison decides exactly whether
  the two plans embed the same nodes (by id and by dialled parameters, labels aside) and the same groups (by
  id and members), whatever the order.
\<close>

theorem plan_members_equal_iff:
  assumes "validate a = None" and "validate b = None"
  shows "planMembersEqual a b \<longleftrightarrow>
    (\<lambda>n. (nn_id n, memberDigest n)) ` set (sp_natives a) = (\<lambda>n. (nn_id n, memberDigest n)) ` set (sp_natives b) \<and>
    (\<lambda>n. (nn_id n, memberDigest n)) ` set (sp_xray_nodes a) = (\<lambda>n. (nn_id n, memberDigest n)) ` set (sp_xray_nodes b) \<and>
    (\<lambda>g. (gr_id g, mset (gr_members g))) ` set (sp_groups a) = (\<lambda>g. (gr_id g, mset (gr_members g))) ` set (sp_groups b)"
proof -
  have "distinct (map nn_id (sp_natives p))" "distinct (map nn_id (sp_xray_nodes p))" "distinct (map gr_id (sp_groups p))"
    if "validate p = None" for p
    using that by (auto simp: validate_None plan_ok_def memberTags_def nodeTags_def)
  note a = this [OF assms(1)] and b = this [OF assms(2)]
  show ?thesis
    using memberSetsEqual_iff [OF a(1) b(1)] memberSetsEqual_iff [OF a(2) b(2)] groups_equal_iff [OF a(3) b(3)]
    by (auto simp: planMembersEqual_def)
qed

section \<open>A concrete session\<close>

text \<open>One stored profile, activated once; the witnesses run on it.\<close>

definition sample_daemon :: daemon_env where
  "sample_daemon = \<lparr>dv_json_iter = (\<lambda>m. m), dv_parse_time = (\<lambda>_. None), dv_newid = (\<lambda>_. []), dv_addr_ok = (\<lambda>_. True),
     dv_prefix_ok = (\<lambda>_. True), dv_url_parse = (\<lambda>_. None), dv_cache_path = ''cache.db'', dv_goos = ''linux'', dv_xray_log = [],
     dv_elevated = True, dv_iter = (\<lambda>hs. hs), dv_resolve = (\<lambda>_. [])\<rparr>"

definition sample_outcomes :: outcomes where
  "sample_outcomes = \<lparr>oc_close = True, oc_start = True, oc_select = True, oc_live = None, oc_io = True, oc_now = 0, oc_subscribers = 0\<rparr>"

definition sample_boot :: manager where
  "sample_boot = newManager (fst (SaveProfile (\<lambda>_. []) True ''main'' sample_profile empty_fs)) None"

definition sample_request :: activate_request where
  "sample_request = \<lparr>rq_profile = Some ''main'', rq_node = Some ''a'', rq_routing = None, rq_tun = Some True\<rparr>"

lemma sample_profile_storable: "profile_storable sample_profile"
  using config_ok_NewDefault [of "''r''"]
  by (simp add: profile_storable_def sample_profile_def NewProfile_def node_storable_def NewNode_def NewGroupNode_def sample_ss_def)

lemma sample_profile_stored:
  "\<exists>fs. SaveProfile (\<lambda>_. []) True ''main'' sample_profile empty_fs = (fs, None)"
proof -
  note sample_profile_storable
  moreover have "pf_subscriptions (normalize sample_profile) = []" by (simp add: normalize_def sample_profile_def NewProfile_def)
  ultimately obtain j where "MarshalProfile (\<lambda>_. []) (normalize sample_profile) = Inr j"
    using Unmarshal_Marshal_profile [OF visits_id, of "normalize sample_profile"] storable_normalize by fastforce
  then show ?thesis
    by (simp add: SaveProfile_def ValidateName_def name_char_def atomicWrite_def empty_fs_def obj_simps)
qed

lemma sample_load: "load_profile sample_daemon sample_boot ''main'' = Inr sample_profile"
proof -
  obtain fs where fs: "SaveProfile (\<lambda>_. []) True ''main'' sample_profile empty_fs = (fs, None)"
    using sample_profile_stored by blast
  have "LoadProfile (\<lambda>m. m) (\<lambda>_. None) (\<lambda>_. []) fs ''main'' = Inr (sample_profile\<lparr>pf_schema_version := SchemaVersion\<rparr>)"
    by (rule saved_loads [OF visits_id sample_profile_storable _ fs]) (simp add: sample_profile_def NewProfile_def)
  then show ?thesis by (simp add: sample_daemon_def sample_boot_def newManager_def fs) (simp add: sample_profile_def NewProfile_def)
qed

lemma sample_env_of_boot:
  "en_load_profile (store_env sample_daemon sample_boot) ''main'' = Inr sample_profile"
  "en_settings (store_env sample_daemon sample_boot) = Inr (DefaultSettings ''linux'')"
  "en_elevated (store_env sample_daemon sample_boot)"
  using sample_load
  by (simp_all add: store_env_def) (simp_all add: sample_daemon_def sample_boot_def newManager_def LoadSettings_def read_file_def)

lemma sample_activatable: "profile_activatable sample_profile"
  by (simp add: profile_activatable_def sample_profile_def NewNode_def NewGroupNode_def NewProfile_def NewDefault_def
      routing_supported_def target_supported_def)

lemma sample_prepared: "\<exists>prep. prepareActivation (store_env sample_daemon sample_boot) sample_request = Inr prep"
proof -
  let ?env = "store_env sample_daemon sample_boot" and ?n = "NewNode ''a'' sample_ss None" and ?rc = "Some (NewDefault ''r'')"
  have node: "request_node sample_profile ''main'' sample_request = Inr ?n"
    by (simp add: request_node_def sample_request_def FindNode_def FindNodeByID_def sample_profile_def NewNode_def)
  have routing: "request_routing sample_profile ''main'' sample_request = Inr ?rc"
    by (simp add: request_routing_def sample_request_def ActiveRouting_def sample_profile_def NewProfile_def NewDefault_def)
  obtain plan ws where b: "buildPlan sample_profile ?n ?rc = Inr (plan, ws)"
    by (simp add: buildPlan_def sample_profile_def NewNode_def NewGroupNode_def IsGroup_def Let_def sample_select
      groups_in_play_def routing_targets_def NewDefault_def add_target_group_def)
  let ?s = "DefaultSettings ''linux''"
  let ?plan = "plan\<lparr>sp_cache_path := en_cache_path ?env, sp_tunables := Some (tunablesFromSettings ?s)\<rparr>"
  have "compile_plan ?env True ?plan (st_socks_port ?s) \<noteq> Inl (PlanError e)" for e
    by (rule prepared_plan_compiles [OF sample_activatable _ request_node_mem [OF node] _ b])
       (simp_all add: DefaultSettings_def sample_profile_def NewProfile_def)
  then obtain c where "compile_plan ?env True ?plan (st_socks_port ?s) = Inr c"
    by (cases "compile_plan ?env True ?plan (st_socks_port ?s)")
       (auto simp: compile_plan_def sample_env_of_boot split: sum.splits)
  with node routing b show ?thesis
    by (cases c) (simp add: prepareActivation_def request_profile_def sample_env_of_boot(1,2) Let_def sample_request_def)
qed

definition sample_running :: manager where
  "sample_running = fst (activate sample_daemon sample_outcomes sample_request sample_boot)"

lemma sample_activated: "\<exists>es. activate sample_daemon sample_outcomes sample_request sample_boot = (sample_running, Activated es)"
proof -
  obtain prep where "prepareActivation (store_env sample_daemon sample_boot) sample_request = Inr prep" using sample_prepared by blast
  moreover obtain es where "startActivationLocked sample_outcomes prep sample_boot =
      (fst (startActivationLocked sample_outcomes prep sample_boot), Activated es)"
    using start_ok [of sample_boot sample_outcomes prep] by (auto simp: sample_outcomes_def sample_boot_def newManager_def)
  ultimately show ?thesis unfolding activate_def sample_running_def by simp blast
qed

lemma sample_running_reachable: "session_reachable sample_daemon (sample_running, [])"
proof -
  obtain prep where p: "prepareActivation (store_env sample_daemon sample_boot) sample_request = Inr prep" using sample_prepared by blast
  have "session_reachable sample_daemon (sample_boot, [])"
    unfolding sample_boot_def by (rule session_reachable.boot)
  then have "session_reachable sample_daemon (sample_boot, [PActivate prep])"
    using session_step.prepare [OF p] by (rule session_reachable.step)
  then show ?thesis
    using session_step.start [of prep "[PActivate prep]" sample_daemon sample_boot sample_outcomes] p
    by (auto simp: sample_running_def activate_def intro: session_reachable.step)
qed

lemma sample_running_sess: "mg_sess sample_running = Some 1" "\<exists>i. IsMember (mg_plan sample_running) i"
proof -
  obtain es where "activate sample_daemon sample_outcomes sample_request sample_boot = (sample_running, Activated es)"
    using sample_activated by blast
  then obtain prep where "startActivationLocked sample_outcomes prep sample_boot = (sample_running, Activated es)"
    by (auto simp: activate_def split: sum.splits)
  from start_Activated [OF this] show s: "mg_sess sample_running = Some 1" by (simp add: sample_boot_def newManager_def)
  have "session_inv sample_running" using session_reachable_ok [OF sample_running_reachable] by simp
  with s show "\<exists>i. IsMember (mg_plan sample_running) i"
    by (auto simp: session_inv_def context_ok_def split: option.splits)
qed

theorem session_reachable_inv_witness:
  "session_inv sample_running \<and> mg_sess sample_running = Some 1 \<and>
   (\<forall>oc ref. snd (switch_locked oc ref sample_running) \<noteq> Inl (RError NilDereference))"
  using session_reachable_inv [OF sample_running_reachable] sample_running_sess(1) by blast

theorem reconnect_spares_newer_witness:
  "\<exists>m2. mg_sess m2 \<noteq> Some 1 \<and> (\<forall>oc prep.
     reconnect_locked oc \<lparr>rr_req = sample_request, rr_sess = 1, rr_selection = ''a''\<rparr> prep m2 = (m2, None))"
proof -
  let ?m = "fst (stop sample_outcomes None sample_running)"
  have s: "mg_sess ?m \<noteq> Some 1"
    using sample_running_sess by (simp add: stop_def Let_def)
  have "(session_step sample_daemon)\<^sup>*\<^sup>* (sample_running, []) (?m, [])"
    using session_step.stop by (rule r_into_rtranclp)
  from reconnect_spares_newer [OF sample_running_reachable sample_running_sess(1) this s rtranclp.rtrancl_refl,
      of "\<lparr>rr_req = sample_request, rr_sess = 1, rr_selection = ''a''\<rparr>"] s
  show ?thesis by auto
qed

lemma sample_fs:
  obtains e where "mg_fs sample_boot = \<lparr>fs_profiles = [(profilePath ''main'', e)], fs_state = None, fs_last_session = None\<rparr>"
proof -
  obtain fs where fs: "SaveProfile (\<lambda>_. []) True ''main'' sample_profile empty_fs = (fs, None)"
    using sample_profile_stored by blast
  show thesis
    by (rule SaveProfile_cases [of "\<lambda>_. []" True "''main''" sample_profile empty_fs])
       (use fs that in \<open>auto simp: empty_fs_def sample_boot_def newManager_def\<close>)
qed

lemma sample_boot_refs: "load_profile sample_daemon sample_boot name = Inr p \<Longrightarrow> refs_ok p"
proof (cases "name = ''main''")
  case True
  moreover assume "load_profile sample_daemon sample_boot name = Inr p"
  ultimately have "p = sample_profile" using sample_load by simp
  then show ?thesis
    by (auto simp: refs_ok_def sample_profile_def NewNode_def NewGroupNode_def NewProfile_def NewDefault_def)
next
  case False
  obtain e where "mg_fs sample_boot = \<lparr>fs_profiles = [(profilePath ''main'', e)], fs_state = None, fs_last_session = None\<rparr>"
    by (rule sample_fs)
  then have "profile_entry (mg_fs sample_boot) name = None" using False by (simp add: obj_simps profilePath_def)
  moreover assume "load_profile sample_daemon sample_boot name = Inr p"
  ultimately show ?thesis by (auto simp: LoadProfile_def read_file_def split: option.splits)
qed

theorem restore_same_session_witness:
  "mg_active (restoreLastSession sample_daemon sample_outcomes
     (newManager (mg_fs (shutdown sample_running)) (mg_settings (shutdown sample_running)))) = mg_active sample_running"
proof -
  obtain es where "activate sample_daemon sample_outcomes sample_request sample_boot = (sample_running, Activated es)"
    using sample_activated by blast
  moreover have "fs_last_session (mg_fs sample_boot) = None"
    by (rule sample_fs) simp
  moreover have "st_restore_on_start s" if "load_settings sample_daemon sample_boot = Inr s" for s
    using that by (auto simp: sample_daemon_def sample_boot_def newManager_def LoadSettings_def read_file_def DefaultSettings_def
        defaultRestoreOnStart_def)
  ultimately show ?thesis
    using restore_same_session [where dv = sample_daemon and oc = sample_outcomes and oc' = sample_outcomes and
        req = sample_request and m = sample_boot, OF _ _ _ _ _ _ refl] sample_boot_refs
    by (simp add: sample_outcomes_def)
qed

theorem switch_live_witness:
  "\<exists>ref m' r. IsMember (mg_plan sample_running) ref \<and> switch_locked sample_outcomes ref sample_running = (m', r) \<and>
     mg_sess m' = Some 1"
proof -
  obtain ref where ref: "IsMember (mg_plan sample_running) ref" using sample_running_sess(2) by blast
  obtain m' r where sw: "switch_locked sample_outcomes ref sample_running = (m', r)" by fastforce
  have "mg_sess m' = Some 1"
    using switch_live [OF sample_running_reachable _ ref _ sw] sample_running_sess(1) by (simp add: sample_outcomes_def)
  with ref sw show ?thesis by blast
qed

theorem start_published_witness:
  "\<forall>prep. mg_events (fst (startActivationLocked (sample_outcomes\<lparr>oc_close := False\<rparr>) prep sample_running)) = mg_events sample_running"
proof
  fix prep
  have "startActivationLocked (sample_outcomes\<lparr>oc_close := False\<rparr>) prep sample_running =
      (clear_session sample_running, RError StopPreviousFailed)"
    using sample_running_sess(1) by (simp add: startActivationLocked_def)
  from start_published [OF this] this
  show "mg_events (fst (startActivationLocked (sample_outcomes\<lparr>oc_close := False\<rparr>) prep sample_running)) = mg_events sample_running"
    by simp
qed

theorem plan_members_equal_iff_witness:
  "planMembersEqual sample_plan sample_plan"
  using plan_members_equal_iff [OF sample_plan_valid sample_plan_valid] by simp

end
