(* ===== verification/Sub_Links.thy ===== *)
theory Sub_Links
  imports Store_Files
begin

text \<open>
  Share-link assembly, the common target of every subscription dialect: \<^verbatim>\<open>shareLink\<close> and \<^verbatim>\<open>ssLink\<close> of
  \<^verbatim>\<open>daemon-go/internal/subscription/parse_clash.go\<close>, \<^verbatim>\<open>encodeVmessLink\<close> of \<^verbatim>\<open>parse_xray.go\<close>, over the parts of
  \<^verbatim>\<open>net/url\<close>, \<^verbatim>\<open>net\<close> and \<^verbatim>\<open>encoding/base64\<close> they use. \<open>json_print\<close> (\<^verbatim>\<open>json.Marshal\<close> of a document) is
  an argument.

  Main result: the credentials, endpoint, plugin and name put into an \<^verbatim>\<open>ss://\<close> link are what the link
  parser reads back, whichever of the four base64 variants the decoder settles on.
\<close>

section \<open>Escaping\<close>

definition unreserved :: "char \<Rightarrow> bool" where
  "unreserved c = (let n = of_char c :: nat in
     97 \<le> n \<and> n \<le> 122 \<or> 65 \<le> n \<and> n \<le> 90 \<or> 48 \<le> n \<and> n \<le> 57 \<or> c \<in> set ''-_.~'')"

definition hex_upper :: "nat \<Rightarrow> char" where
  "hex_upper d = (if d < 10 then char_of (48 + d) else char_of (55 + d))"

definition percent :: "char \<Rightarrow> string" where
  "percent c = (let n = of_char c :: nat in [CHR ''%'', hex_upper (n div 16), hex_upper (n mod 16)])"

definition QueryEscape :: "string \<Rightarrow> string" where
  "QueryEscape s = concat (map (\<lambda>c. if unreserved c then [c] else if c = CHR '' '' then ''+'' else percent c) s)"

text \<open>The escaping of user names and passwords (\<^verbatim>\<open>Userinfo.String\<close>).\<close>

definition user_escape :: "string \<Rightarrow> string" where
  "user_escape s = concat (map (\<lambda>c. if unreserved c \<or> c \<in> set ''$&+,;='' then [c] else percent c) s)"

definition url_User :: "string \<Rightarrow> string" where
  "url_User u = user_escape u"

definition url_UserPassword :: "string \<Rightarrow> string \<Rightarrow> string" where
  "url_UserPassword u p = user_escape u @ '':'' @ user_escape p"

text \<open>\<^verbatim>\<open>strings.Join\<close>.\<close>

fun Join :: "string list \<Rightarrow> string \<Rightarrow> string" where
  "Join [] sep = []"
| "Join [x] sep = x"
| "Join (x # xs) sep = x @ sep @ Join xs sep"

text \<open>\<^verbatim>\<open>url.Values\<close> with one value per key; \<^verbatim>\<open>Set\<close> is \<open>jput\<close>. \<^verbatim>\<open>Encode\<close> sorts by key.\<close>

type_synonym url_values = "string obj"

definition Values_Encode :: "url_values \<Rightarrow> string" where
  "Values_Encode q = Join (map (\<lambda>(k, v). QueryEscape k @ ''='' @ QueryEscape v) (sort_key fst q)) ''&''"

definition JoinHostPort :: "string \<Rightarrow> string \<Rightarrow> string" where
  "JoinHostPort host port = (if CHR '':'' \<in> set host then ''['' @ host @ '']:'' @ port else host @ '':'' @ port)"

section \<open>Base64\<close>

definition std_char :: "nat \<Rightarrow> char" where
  "std_char n = (if n < 26 then char_of (65 + n) else if n < 52 then char_of (71 + n)
     else if n < 62 then char_of (n - 4) else if n = 62 then CHR ''+'' else CHR ''/'')"

definition url_char :: "nat \<Rightarrow> char" where
  "url_char n = (if n < 62 then std_char n else if n = 62 then CHR ''-'' else CHR ''_'')"

fun b64_encode :: "(nat \<Rightarrow> char) \<Rightarrow> bool \<Rightarrow> string \<Rightarrow> string" where
  "b64_encode ch padded [] = []"
| "b64_encode ch padded [a] = (let x = of_char a :: nat in
     [ch (x div 4), ch (16 * (x mod 4))] @ (if padded then ''=='' else []))"
| "b64_encode ch padded [a, b] = (let x = of_char a :: nat; y = of_char b in
     [ch (x div 4), ch (16 * (x mod 4) + y div 16), ch (4 * (y mod 16))] @ (if padded then ''='' else []))"
| "b64_encode ch padded (a # b # c # r) = (let x = of_char a :: nat; y = of_char b; z = of_char c in
     [ch (x div 4), ch (16 * (x mod 4) + y div 16), ch (4 * (y mod 16) + z div 64), ch (z mod 64)] @ b64_encode ch padded r)"

section \<open>Link assembly\<close>

definition shareLink :: "string \<Rightarrow> string \<Rightarrow> string \<Rightarrow> u16 \<Rightarrow> url_values \<Rightarrow> string \<Rightarrow> string" where
  "shareLink scheme userinfo host port q name =
     scheme @ ''://'' @ (if userinfo \<noteq> [] then userinfo @ ''@'' else []) @
     JoinHostPort host (FormatUint 10 (unat port)) @
     (if q \<noteq> [] then ''?'' @ Values_Encode q else []) @ (if name \<noteq> [] then ''#'' @ QueryEscape name else [])"

definition ss_query :: "string \<Rightarrow> string \<Rightarrow> url_values" where
  "ss_query plugin pluginOpts = (if plugin \<noteq> [] then
     (let q = jput ''plugin'' plugin [] in if pluginOpts \<noteq> [] then jput ''plugin_opts'' pluginOpts q else q) else [])"

definition ssLink :: "string \<Rightarrow> string \<Rightarrow> string \<Rightarrow> u16 \<Rightarrow> string \<Rightarrow> string \<Rightarrow> string \<Rightarrow> string" where
  "ssLink method password host port plugin pluginOpts name =
     shareLink ''ss'' (b64_encode url_char False (method @ '':'' @ password)) host port (ss_query plugin pluginOpts) name"

text \<open>A Go map is marshalled with its keys in order.\<close>

definition encodeVmessLink :: "(json \<Rightarrow> string) \<Rightarrow> json obj \<Rightarrow> string" where
  "encodeVmessLink json_print body = ''vmess://'' @ b64_encode std_char True (json_print (JObj (sort_key fst body)))"

section \<open>Escaping is undone by the parsers\<close>

lemma hex_val_upper: "d < 16 \<Longrightarrow> hex_val (hex_upper d) = Some d"
  by (auto simp: hex_val_def hex_upper_def digit_val_def Let_def)

lemma of_char_lt_256: "of_char c < (256::nat)"
  by (metis char_of_def of_char_of of_char_mod_256 mod_less_divisor zero_less_numeral)

lemma QueryUnescape_percent: "QueryUnescape (percent c @ s) = map_option ((#) c) (QueryUnescape s)"
proof -
  have "(of_char c :: nat) div 16 < 16" using of_char_lt_256 [of c] by (intro less_mult_imp_div_less) simp
  moreover have "16 * ((of_char c :: nat) div 16) + of_char c mod 16 = of_char c" by simp
  ultimately show ?thesis by (simp add: percent_def Let_def hex_val_upper)
qed

lemma unreserved_plain: "unreserved c \<Longrightarrow> c \<noteq> CHR ''%'' \<and> c \<noteq> CHR ''+'' \<and> c \<noteq> CHR ''&'' \<and> c \<noteq> CHR ''=''"
  by (auto simp: unreserved_def)

lemma QueryUnescape_Escape: "QueryUnescape (QueryEscape s) = Some s"
proof (induction s)
  case (Cons c s)
  show ?case
  proof (cases "unreserved c \<or> c = CHR '' ''")
    case True
    then show ?thesis using Cons unreserved_plain [of c] by (auto simp: QueryEscape_def)
  next
    case False
    then show ?thesis using Cons by (simp add: QueryEscape_def QueryUnescape_percent)
  qed
qed (simp add: QueryEscape_def)

lemma hex_upper_alnum: "d < 16 \<Longrightarrow> unreserved (hex_upper d)"
  by (auto simp: unreserved_def hex_upper_def Let_def)

lemma QueryEscape_chars: "c \<in> set (QueryEscape s) \<Longrightarrow> unreserved c \<or> c = CHR ''%'' \<or> c = CHR ''+''"
proof -
  have "(of_char d :: nat) div 16 < 16" for d using of_char_lt_256 [of d] by (intro less_mult_imp_div_less) simp
  then show "c \<in> set (QueryEscape s) \<Longrightarrow> unreserved c \<or> c = CHR ''%'' \<or> c = CHR ''+''"
    by (auto simp: QueryEscape_def percent_def Let_def hex_upper_alnum split: if_splits)
qed

lemma Split_absent: "sep \<notin> set s \<Longrightarrow> Split s sep = [s]"
  by (induction s) auto

lemma fragmentName_escape: "fragmentName (QueryEscape s) = s"
proof -
  have "CHR ''&'' \<notin> set (QueryEscape s)" "CHR ''='' \<notin> set (QueryEscape s)"
    using QueryEscape_chars unreserved_plain by blast+
  then show ?thesis by (simp add: fragmentName_def Split_absent Cut_None [THEN iffD2] QueryUnescape_Escape)
qed

section \<open>Base64 is undone by the decoders\<close>

lemma sextets:
  fixes x y z :: nat
  assumes "x < 256" and "y < 256" and "z < 256"
  shows "x div 4 < 64" "16 * (x mod 4) + y div 16 < 64" "4 * (y mod 16) + z div 64 < 64" "z mod 64 < 64"
    and "4 * (x div 4) + (16 * (x mod 4) + y div 16) div 16 = x"
    and "16 * ((16 * (x mod 4) + y div 16) mod 16) + (4 * (y mod 16) + z div 64) div 4 = y"
    and "64 * ((4 * (y mod 16) + z div 64) mod 4) + z mod 64 = z"
    and "y div 16 mod 16 = y div 16" "z div 64 mod 4 = z div 64"
proof -
  have d: "x div 4 < 64" "y div 16 < 16" "z div 64 < 4" using assms by (auto intro: less_mult_imp_div_less)
  moreover have "x mod 4 < 4" "y mod 16 < 16" by simp_all
  ultimately show "x div 4 < 64" "16 * (x mod 4) + y div 16 < 64" "4 * (y mod 16) + z div 64 < 64" "z mod 64 < 64"
    by (simp, linarith, linarith, simp)
  show "y div 16 mod 16 = y div 16" "z div 64 mod 4 = z div 64" using d by simp_all
  have "(16 * (x mod 4) + y div 16) div 16 = x mod 4" "(16 * (x mod 4) + y div 16) mod 16 = y div 16"
    "(4 * (y mod 16) + z div 64) div 4 = y mod 16" "(4 * (y mod 16) + z div 64) mod 4 = z div 64"
    using d by simp_all
  then show "4 * (x div 4) + (16 * (x mod 4) + y div 16) div 16 = x"
    "16 * ((16 * (x mod 4) + y div 16) mod 16) + (4 * (y mod 16) + z div 64) div 4 = y"
    "64 * ((4 * (y mod 16) + z div 64) mod 4) + z mod 64 = z"
    by simp_all
qed

locale base64_alphabet =
  fixes ch :: "nat \<Rightarrow> char" and val :: "char \<Rightarrow> nat option"
  assumes val_ch: "n < 64 \<Longrightarrow> val (ch n) = Some n"
    and ch_plain: "n < 64 \<Longrightarrow> unreserved (ch n) \<or> ch n = CHR ''+'' \<or> ch n = CHR ''/''"
begin

lemma ch_no_pad: "n < 64 \<Longrightarrow> ch n \<noteq> CHR ''=''"
  using ch_plain [of n] by (auto simp: unreserved_def)

lemma quanta_encode': "c = ch \<Longrightarrow> b64_quanta val padded (b64_encode c padded s) = Some s"
proof (induction c padded s rule: b64_encode.induct)
  case (2 c padded x)
  then show ?case using sextets [of "of_char x" 0 0] by (simp add: Let_def val_ch ch_no_pad of_char_lt_256)
next
  case (3 c padded x y)
  then show ?case using sextets [of "of_char x" "of_char y" 0] by (simp add: Let_def val_ch ch_no_pad of_char_lt_256)
next
  case (4 c padded x y z r)
  then show ?case
    using sextets [of "of_char x" "of_char y" "of_char z"] by (simp add: Let_def val_ch ch_no_pad of_char_lt_256)
qed simp

lemma encode_chars: "c = ch \<Longrightarrow> d \<in> set (b64_encode c padded s) \<Longrightarrow> (\<exists>n < 64. d = ch n) \<or> padded \<and> d = CHR ''=''"
proof (induction c padded s rule: b64_encode.induct)
  case (2 c padded x)
  have "16 * (of_char x mod 4) < (64 :: nat)" by simp
  with 2 show ?case using sextets(1) [of "of_char x" 0 0] by (fastforce simp: Let_def of_char_lt_256 split: if_splits)
next
  case (3 c padded x y)
  have "4 * (of_char y mod 16) < (64 :: nat)" by simp
  with 3 show ?case
    using sextets(1,2) [of "of_char x" "of_char y" 0] by (fastforce simp: Let_def of_char_lt_256 split: if_splits)
next
  case (4 c padded x y z r)
  note b = of_char_lt_256 [of x] of_char_lt_256 [of y] of_char_lt_256 [of z]
  consider "d = ch (of_char x div 4)" | "d = ch (16 * (of_char x mod 4) + of_char y div 16)"
    | "d = ch (4 * (of_char y mod 16) + of_char z div 64)" | "d = ch (of_char z mod 64)" | "d \<in> set (b64_encode c padded r)"
    using 4(2,3) by (auto simp: Let_def)
  then show ?case
    by cases (use sextets(1-4) [OF b] 4 in blast)+
qed simp

lemma no_breaks: "filter (\<lambda>c. c \<noteq> CHR 0x0A \<and> c \<noteq> CHR 0x0D) (b64_encode ch padded s) = b64_encode ch padded s"
proof -
  have "c \<noteq> CHR 0x0A \<and> c \<noteq> CHR 0x0D" if "c \<in> set (b64_encode ch padded s)" for c
    using encode_chars [OF refl that] ch_plain by (fastforce simp: unreserved_def)
  then show ?thesis by (simp add: filter_id_conv)
qed

lemma decode_encode: "b64_decode val padded (b64_encode ch padded s) = Some s"
  by (simp add: b64_decode_def no_breaks quanta_encode' [OF refl])

end

interpretation std64: base64_alphabet std_char std_val
proof
  fix n :: nat assume n: "n < 64"
  then show "std_val (std_char n) = Some n"
    by (auto simp: std_val_def std_char_def Let_def)
  show "unreserved (std_char n) \<or> std_char n = CHR ''+'' \<or> std_char n = CHR ''/''"
    using n by (auto simp: unreserved_def std_char_def Let_def)
qed

interpretation url64: base64_alphabet url_char url_val
proof
  fix n :: nat assume n: "n < 64"
  have std: "std_char n \<noteq> CHR ''-''" "std_char n \<noteq> CHR ''_''" "std_char n \<noteq> CHR ''+''" "std_char n \<noteq> CHR ''/''" if "n < 62"
    using that by (auto simp: std_char_def char_of_eq_iff take_bit_eq_mod)
  then show "url_val (url_char n) = Some n"
    using n std64.val_ch [of n] by (auto simp: url_val_def url_char_def)
  show "unreserved (url_char n) \<or> url_char n = CHR ''+'' \<or> url_char n = CHR ''/''"
    using n std64.ch_plain [of n] std by (auto simp: url_char_def unreserved_def)
qed

text \<open>The decoders disagree only on characters the encoder does not use, and padding never occurs.\<close>

lemma quanta_agree:
  assumes "\<forall>c \<in> set s. val c = None \<or> val c = val' c" and "CHR ''='' \<notin> set s" and "b64_quanta val padded s = Some b"
  shows "b64_quanta val' False s = Some b"
  using assms
proof (induction val padded s arbitrary: b rule: b64_quanta.induct)
  case (5 val padded a1 a2 a3 a4 r)
  then obtain x y z w t where v: "val a1 = Some x" "val a2 = Some y" "val a3 = Some z" "val a4 = Some w"
      "b64_quanta val padded r = Some t" and b: "b = char_of (4 * x + y div 16) # char_of (16 * (y mod 16) + z div 4) #
               char_of (64 * (z mod 4) + w) # t"
    by (auto split: option.splits if_splits)
  have "val' a1 = Some x" "val' a2 = Some y" "val' a3 = Some z" "val' a4 = Some w" using 5(2) v by auto
  moreover have "b64_quanta val' False r = Some t" using 5 v by auto
  ultimately show ?case using b by simp
next
  case (3 val padded a1 a2)
  then obtain x y where "val a1 = Some x" "val a2 = Some y" "b = [char_of (4 * x + y div 16)]"
    by (auto split: option.splits if_splits)
  moreover from this have "val' a1 = Some x" "val' a2 = Some y" using 3(1) by auto
  ultimately show ?case by simp
next
  case (4 val padded a1 a2 a3)
  then obtain x y z where "val a1 = Some x" "val a2 = Some y" "val a3 = Some z"
      "b = [char_of (4 * x + y div 16), char_of (16 * (y mod 16) + z div 4)]"
    by (auto split: option.splits if_splits)
  moreover from this have "val' a1 = Some x" "val' a2 = Some y" "val' a3 = Some z" using 4(1) by auto
  ultimately show ?case by simp
qed simp_all

lemma std_url_agree: "n < 64 \<Longrightarrow> std_val (url_char n) = None \<or> std_val (url_char n) = url_val (url_char n)"
  using std64.val_ch [of n] url64.val_ch [of n] by (auto simp: url_char_def std_val_def split: if_splits)

lemma decodeBase64_url: "decodeBase64 (b64_encode url_char False s) = Some s"
proof -
  let ?e = "b64_encode url_char False s"
  have chars: "\<exists>n < 64. c = url_char n" if "c \<in> set ?e" for c using url64.encode_chars [OF refl that] by simp
  have dec: "b64_decode val padded ?e = b64_quanta val padded ?e" for val padded
    by (simp add: b64_decode_def url64.no_breaks)
  have "val c = None \<or> val c = url_val c" if v: "val \<in> {std_val, url_val}" and c: "c \<in> set ?e" for val c
  proof -
    obtain n where "n < 64" "c = url_char n" using chars [OF c] by blast
    then show ?thesis using std_url_agree [of n] v by auto
  qed
  moreover have "CHR ''='' \<notin> set ?e"
  proof
    assume "CHR ''='' \<in> set ?e"
    then obtain n where "n < 64" "CHR ''='' = url_char n" using chars by blast
    then show False using url64.ch_no_pad [of n] by simp
  qed
  ultimately have "b = s" if "b64_quanta val padded ?e = Some b" "val \<in> {std_val, url_val}" for val padded b
    using that quanta_agree [of ?e val url_val padded b] url64.quanta_encode' [OF refl, of False s] by simp
  moreover have "b64_quanta url_val False ?e = Some s" by (simp add: url64.quanta_encode')
  ultimately show ?thesis unfolding decodeBase64_def dec by (auto split: option.splits)
qed

section \<open>Assembled links are not trimmed\<close>

definition solid :: "char \<Rightarrow> bool" where
  "solid c = (let n = of_char c :: nat in 33 \<le> n \<and> n \<le> 126)"

lemma space_width_solid: "solid c \<Longrightarrow> space_width (c # s) = 0"
  by (cases s rule: remdups_adj.cases) (auto simp: space_width_def solid_def Let_def)

lemma space_width_last: "s \<noteq> [] \<Longrightarrow> length s \<le> space_width s \<Longrightarrow> \<not> solid (last s)"
  by (cases s; cases "tl s"; cases "tl (tl s)") (auto simp: space_width_def solid_def Let_def split: if_splits)

lemma skip_space_Nil: "s \<noteq> [] \<Longrightarrow> skip_space s = [] \<Longrightarrow> \<not> solid (last s)"
proof (induction s rule: skip_space.induct)
  case (1 s)
  have w: "space_width s \<noteq> 0" and rest: "skip_space (drop (space_width s) s) = []"
    using 1(2,3) skip_space.simps [of s] by (auto split: if_splits)
  show ?case
  proof (cases "drop (space_width s) s = []")
    case True
    then show ?thesis using space_width_last 1(2) by simp
  next
    case False
    then show ?thesis using 1(1) [OF _ False rest] 1(2) w by (simp add: last_drop)
  qed
qed

lemma trim_right_solid: "s \<noteq> [] \<Longrightarrow> solid (last s) \<Longrightarrow> trim_right s = s"
proof (induction s)
  case (Cons c s)
  then have "skip_space (c # s) \<noteq> []" using skip_space_Nil [of "c # s"] by auto
  then show ?case using Cons by (cases s) auto
qed simp

lemma TrimSpace_solid: "s \<noteq> [] \<Longrightarrow> solid (hd s) \<Longrightarrow> solid (last s) \<Longrightarrow> TrimSpace s = s"
  using space_width_solid [of "hd s" "tl s"] trim_right_solid [of s]
  by (cases s) (simp_all add: TrimSpace_def skip_space.simps)

lemma unreserved_solid: "unreserved c \<Longrightarrow> solid c"
  by (auto simp: unreserved_def solid_def Let_def)

lemma solid_separators [simp]: "solid (CHR ''='')" "solid (CHR ''&'')" "solid (CHR ''?'')" "solid (CHR ''#'')" "solid (CHR ''%'')" "solid (CHR ''+'')"
  by (simp_all add: solid_def)

lemma QueryEscape_solid: "list_all solid (QueryEscape s)"
  using QueryEscape_chars unreserved_solid by (fastforce simp: list_all_iff)

lemma Join_all: "list_all (list_all P) xs \<Longrightarrow> list_all P sep \<Longrightarrow> list_all P (Join xs sep)"
  by (induction xs sep rule: Join.induct) auto

lemma Values_Encode_solid: "list_all solid (Values_Encode q)"
  unfolding Values_Encode_def
  by (rule Join_all) (auto simp: list_all_iff QueryEscape_solid [unfolded list_all_iff])

lemma FormatUint_solid: "list_all solid (FormatUint 10 n)"
proof (induction "10 :: nat" n rule: FormatUint.induct)
  case (1 n)
  have "solid (digit_char d)" if "d < 10" for d using that by (auto simp: digit_char_def solid_def)
  then show ?case using 1 by (subst FormatUint.simps) (auto simp: list_all_append)
qed

lemma shareLink_solid: "TrimSpace (shareLink (c # scheme) userinfo host port q name) = shareLink (c # scheme) userinfo host port q name"
  if "solid c"
proof (rule TrimSpace_solid)
  let ?tail = "FormatUint 10 (unat port) @ (if q \<noteq> [] then ''?'' @ Values_Encode q else []) @ (if name \<noteq> [] then ''#'' @ QueryEscape name else [])"
  define pre where "pre = (c # scheme) @ ''://'' @ (if userinfo \<noteq> [] then userinfo @ ''@'' else []) @
    (if CHR '':'' \<in> set host then ''['' @ host @ '']:'' else host @ '':'')"
  have pre: "shareLink (c # scheme) userinfo host port q name = pre @ ?tail"
    by (simp add: shareLink_def JoinHostPort_def pre_def)
  have "?tail \<noteq> []" "list_all solid ?tail"
    by (auto simp: FormatUint_solid Values_Encode_solid QueryEscape_solid list_all_append)
  then have "solid (last ?tail)" using last_in_set [of ?tail] by (auto simp: list_all_iff)
  then show "solid (last (shareLink (c # scheme) userinfo host port q name))" using pre \<open>?tail \<noteq> []\<close> by simp
qed (use that in \<open>simp_all add: shareLink_def\<close>)

section \<open>Reading an assembled link back\<close>

text \<open>
  What \<^verbatim>\<open>url.Parse\<close> documents for an assembled link: the escaped parts come back unescaped, the fragment is
  kept in its escaped form.
\<close>

definition reads_as :: "url \<Rightarrow> string \<Rightarrow> (string \<times> string option) option \<Rightarrow> string \<Rightarrow> u16 \<Rightarrow> url_values \<Rightarrow> string \<Rightarrow> bool" where
  "reads_as u scheme user host port q name = (u_scheme u = scheme \<and> u_user u = user \<and> u_hostname u = host \<and>
     u_port u = FormatUint 10 (unat port) \<and> u_query u = sort_key fst q \<and>
     u_escaped_fragment u = QueryEscape name \<and> (u_fragment u = [] \<longleftrightarrow> name = []))"

lemma parse_port_Format: "parse_port (FormatUint 10 (unat port)) = Inr (port :: u16)"
proof -
  have "unat port < 2 ^ LENGTH(16)" by (rule unsigned_less)
  then show ?thesis by (simp add: parse_port_def ParseUint_FormatUint)
qed

lemma map_of_sort_key: "obj_ok q \<Longrightarrow> map_of (sort_key fst q) = map_of q"
  by (subst map_of_inject_set) (auto simp: obj_ok_def distinct_map)

lemma reads_as_query:
  "reads_as u scheme user host port q name \<Longrightarrow> obj_ok q \<Longrightarrow> query_get u k = (case jget q k of None \<Rightarrow> [] | Some v \<Rightarrow> v)"
  by (simp add: reads_as_def query_get_def jget_def map_of_sort_key)

lemma reads_as_name: "reads_as u scheme user host port q name \<Longrightarrow> name_or dflt u = (if name = [] then dflt else name)"
  by (simp add: reads_as_def name_or_def fragmentName_escape)

lemma ss_query_ok: "obj_ok (ss_query plugin opts)"
  by (simp add: ss_query_def obj_ok_def Let_def)

text \<open>
  An \<^verbatim>\<open>ss://\<close> link assembled from a server of a subscription parses back to exactly that server: method,
  password, endpoint, plugin and display name, whatever bytes they contain, provided the method has no colon.
\<close>

theorem ss_link_roundtrip:
  assumes "url_parse (ssLink method password host port plugin opts name) = Some u"
    and "reads_as u ''ss'' (Some (b64_encode url_char False (method @ '':'' @ password), None)) host port (ss_query plugin opts) name"
    and "method \<noteq> []" and "CHR '':'' \<notin> set method"
  shows "ParseURL url_parse json_text (ssLink method password host port plugin opts name) =
    Inr (Shadowsocks \<lparr>ss_server_name = (if name = [] then ''New Shadowsocks'' else name), ss_address = host, ss_port = port,
      ss_method = method, ss_password = password, ss_plugin = plugin, ss_plugin_opts = (if plugin = [] then [] else opts)\<rparr>)"
proof -
  have cut: "Cut (method @ '':'' @ password) (CHR '':'') = Some (method, password)"
    using assms(4) by (simp add: Cut_Some)
  have user: "decodeUserinfo (b64_encode url_char False (method @ '':'' @ password)) [] = (method, password)"
    using cut by (simp add: decodeUserinfo_def decodeBase64_url [of "method @ '':'' @ password", simplified])
  have "query_get u ''plugin'' = plugin" "query_get u ''plugin_opts'' = (if plugin = [] then [] else opts)"
    using reads_as_query [OF assms(2) ss_query_ok] by (auto simp: ss_query_def Let_def obj_simps)
  moreover have "setShadowsocksPort (u_port u) = Inr port"
    using assms(2) by (simp add: reads_as_def setShadowsocksPort_def parse_port_Format)
  ultimately have "parseShadowsocks u = Inr \<lparr>ss_server_name = (if name = [] then ''New Shadowsocks'' else name), ss_address = host,
      ss_port = port, ss_method = method, ss_password = password, ss_plugin = plugin, ss_plugin_opts = (if plugin = [] then [] else opts)\<rparr>"
    using assms(2,3) user reads_as_name [OF assms(2)]
    by (simp add: parseShadowsocks_def reads_as_def)
  moreover have "solid (CHR ''s'')" by (simp add: solid_def)
  ultimately show ?thesis
    using assms(1,2) shareLink_solid [of "CHR ''s''"] by (simp add: ParseURL_def ssLink_def byScheme_def reads_as_def)
qed

definition sample_ss_link :: url where
  "sample_ss_link = \<lparr>u_scheme = ''ss'', u_opaque = [], u_user = Some (b64_encode url_char False ''rc4:p w'', None), u_host = ''::1'',
     u_hostname = ''::1'', u_port = FormatUint 10 (unat (8388 :: u16)), u_fragment = ''a b'', u_escaped_fragment = ''a+b'',
     u_query = [(''plugin'', ''obfs-local'')], u_string = []\<rparr>"

theorem ss_link_roundtrip_witness:
  "ParseURL (\<lambda>_. Some sample_ss_link) (\<lambda>_. None) (ssLink ''rc4'' ''p w'' ''::1'' 8388 ''obfs-local'' [] ''a b'') =
    Inr (Shadowsocks \<lparr>ss_server_name = ''a b'', ss_address = ''::1'', ss_port = 8388, ss_method = ''rc4'', ss_password = ''p w'',
      ss_plugin = ''obfs-local'', ss_plugin_opts = []\<rparr>)"
proof -
  have "reads_as sample_ss_link ''ss'' (Some (b64_encode url_char False (''rc4'' @ '':'' @ ''p w''), None)) ''::1'' 8388
      (ss_query ''obfs-local'' []) ''a b''"
    by (simp add: reads_as_def sample_ss_link_def ss_query_def QueryEscape_def unreserved_def)
  from ss_link_roundtrip [OF _ this, of "\<lambda>_. Some sample_ss_link" "\<lambda>_. None"] show ?thesis by simp
qed

end
