(* ===== verification/Sub_Parse.thy ===== *)
theory Sub_Parse
  imports Sub_Links
begin

text \<open>
  Subscription bodies: the dialect chain and the collection of nodes of
  \<^verbatim>\<open>daemon-go/internal/subscription/parse.go\<close>, the link-list and the SIP008 dialects (\<^verbatim>\<open>parse_sip008.go\<close>),
  and the refresh identity of nodes (\<^verbatim>\<open>profileKey\<close>, \<^verbatim>\<open>nodeKey\<close> of \<^verbatim>\<open>subscription.go\<close>).

  The library routines are arguments, gathered in \<open>sub_env\<close>: the URL, JSON, duration and
  floating-point syntax (\<open>se_integral\<close> is the integer a number text with a fraction or exponent denotes). An error is its
  message, which is what the store keeps. Fresh node ids are drawn from \<open>newid\<close>.

  Main results: a parsed body has nodes, all dialable, owned by the subscription and distinct by their refresh
  identity; every parsed link is accounted for; extracted groups are over nodes that were kept.
\<close>

section \<open>Data\<close>

record sub_env =
  se_url_parse :: "string \<Rightarrow> url option"
  se_json_text :: "string \<Rightarrow> json option"
  se_json_print :: "json \<Rightarrow> string"
  se_duration :: "string \<Rightarrow> int option"
  se_integral :: "string \<Rightarrow> int option"
  se_wide_uint32 :: "int \<Rightarrow> u32"

datatype sub_format = FormatAuto | FormatLinks | FormatXray | FormatSingBox | FormatClash | FormatSIP008

fun format_text :: "sub_format \<Rightarrow> string" where
  "format_text FormatAuto = ''auto''"
| "format_text FormatLinks = ''links''"
| "format_text FormatXray = ''xray''"
| "format_text FormatSingBox = ''sing-box''"
| "format_text FormatClash = ''clash''"
| "format_text FormatSIP008 = ''sip008''"

text \<open>\<open>None\<close> is the error of an unknown format.\<close>

definition ParseFormat :: "string \<Rightarrow> sub_format option" where
  "ParseFormat s = (if s = [] then Some FormatAuto
     else find (\<lambda>f. format_text f = s) [FormatAuto, FormatLinks, FormatXray, FormatSingBox, FormatClash, FormatSIP008])"

record raw_entry =
  re_links :: "string list"
  re_from_balancer :: bool

record raw_group =
  rg_name :: string
  rg_links :: "string list"
  rg_probe :: group_probe

record prefs_key =
  pk_kind :: string
  pk_identity :: string
  pk_address :: string
  pk_port :: u16
  pk_transport :: string
  pk_security :: string

record group_out =
  go_name :: string
  go_member_keys :: "prefs_key list"
  go_probe :: group_probe

record outcome =
  oc_format :: sub_format
  oc_nodes :: "node list"
  oc_groups :: "group_out list"
  oc_entries :: nat
  oc_duplicates :: nat
  oc_unrecognized :: nat

text \<open>A dialect's parser; \<open>None\<close> is \<^verbatim>\<open>ok=false\<close>, a body of another dialect.\<close>

type_synonym format_parser = "string \<Rightarrow> (raw_entry list \<times> raw_group list) option"

definition profileKey :: "profile \<Rightarrow> prefs_key" where
  "profileKey p = \<lparr>pk_kind = Kind p, pk_identity = Identity p, pk_address = ServerAddress p, pk_port = ServerPort p,
     pk_transport = pa_transport_label (profile_accessors p),
     pk_security = pa_security_label (profile_accessors p)\<rparr>"

text \<open>A node is a group or holds a profile; the case of neither is a nil dereference in the code.\<close>

definition nodeKey :: "node \<Rightarrow> prefs_key option" where
  "nodeKey n = (case nd_group n of
     Some g \<Rightarrow> Some \<lparr>pk_kind = ''group'', pk_identity = gs_name g, pk_address = [], pk_port = 0, pk_transport = [], pk_security = []\<rparr>
   | None \<Rightarrow> map_option profileKey (nd_doc n))"

text \<open>
  \<^verbatim>\<open>uint32(d.Seconds())\<close>: whole seconds. Go leaves the conversion of a value that does not fit to the implementation (\<open>se_wide_uint32\<close>); the
  rounding of \<^verbatim>\<open>float64\<close> is left out.
\<close>

definition durationSeconds :: "sub_env \<Rightarrow> string \<Rightarrow> u32" where
  "durationSeconds env s = (if s = [] then 0
     else (case se_duration env s of None \<Rightarrow> 0 | Some d \<Rightarrow>
       if d \<le> 0 then 0
       else (let secs = d div 1000000000 in if secs < 2 ^ 32 then word_of_int secs else se_wide_uint32 env secs)))"

section \<open>Collecting nodes\<close>

definition parsed_links :: "sub_env \<Rightarrow> string list \<Rightarrow> profile list" where
  "parsed_links env links = List.map_filter (\<lambda>l. case ParseURL (se_url_parse env) (se_json_text env) l of
     Inr p \<Rightarrow> Some p | Inl _ \<Rightarrow> None) links"

record collected =
  cl_seen :: "prefs_key list"
  cl_nodes :: "node list"
  cl_duplicates :: nat

definition add_profile :: "(nat \<Rightarrow> string) \<Rightarrow> string \<Rightarrow> profile \<Rightarrow> collected \<Rightarrow> collected" where
  "add_profile newid subID p st =
    (if profileKey p \<in> set (cl_seen st) then st\<lparr>cl_duplicates := cl_duplicates st + 1\<rparr>
     else st\<lparr>cl_seen := cl_seen st @ [profileKey p],
             cl_nodes := cl_nodes st @ [NewNode (newid (length (cl_nodes st))) p (Some subID)]\<rparr>)"

text \<open>The profiles of the first pass (dedicated entries, carrier hosts left out), then those of the second.\<close>

definition pass1 :: "string list \<Rightarrow> (raw_entry \<times> profile list) list \<Rightarrow> profile list" where
  "pass1 groupNames eps = map (\<lambda>(e, ps). hd ps)
     (filter (\<lambda>(e, ps). \<not> re_from_balancer e \<and> length ps = 1 \<and> DisplayName (hd ps) \<notin> set groupNames) eps)"

definition pass2 :: "(raw_entry \<times> profile list) list \<Rightarrow> profile list" where
  "pass2 eps = concat (map snd (filter (\<lambda>(e, ps). re_from_balancer e \<or> 1 < length ps) eps))"

fun dedup_first :: "'a list \<Rightarrow> 'a list" where
  "dedup_first [] = []"
| "dedup_first (x # xs) = x # filter (\<lambda>y. y \<noteq> x) (dedup_first xs)"

definition member_keys :: "sub_env \<Rightarrow> prefs_key list \<Rightarrow> string list \<Rightarrow> prefs_key list" where
  "member_keys env seen links = dedup_first (filter (\<lambda>k. k \<in> set seen) (map profileKey (parsed_links env links)))"

fun freeze_groups :: "sub_env \<Rightarrow> prefs_key list \<Rightarrow> string list \<Rightarrow> raw_group list \<Rightarrow> group_out list" where
  "freeze_groups env seen names [] = []"
| "freeze_groups env seen names (g # gs) =
    (if rg_name g \<in> set names then freeze_groups env seen names gs
     else let keys = member_keys env seen (rg_links g) in
       if keys = [] then freeze_groups env seen names gs
       else \<lparr>go_name = rg_name g, go_member_keys = keys, go_probe = rg_probe g\<rparr> # freeze_groups env seen (rg_name g # names) gs)"

definition collect_nodes :: "sub_env \<Rightarrow> (nat \<Rightarrow> string) \<Rightarrow> string \<Rightarrow> raw_entry list \<Rightarrow> raw_group list \<Rightarrow> collected" where
  "collect_nodes env newid subID entries groups =
    (let eps = map (\<lambda>e. (e, parsed_links env (re_links e))) entries
     in fold (add_profile newid subID) (pass1 (map rg_name groups) eps @ pass2 eps) \<lparr>cl_seen = [], cl_nodes = [], cl_duplicates = 0\<rparr>)"

definition collect :: "sub_env \<Rightarrow> (nat \<Rightarrow> string) \<Rightarrow> sub_format \<Rightarrow> raw_entry list \<Rightarrow> raw_group list \<Rightarrow> string \<Rightarrow> outcome" where
  "collect env newid format entries groups subID =
    (let st = collect_nodes env newid subID entries groups
     in \<lparr>oc_format = format, oc_nodes = cl_nodes st, oc_groups = freeze_groups env (cl_seen st) [] groups,
         oc_entries = length entries, oc_duplicates = cl_duplicates st,
         oc_unrecognized = length (filter (\<lambda>e. parsed_links env (re_links e) = []) entries)\<rparr>)"

section \<open>The dialect chain\<close>

definition bom :: string where
  "bom = [CHR 0xEF, CHR 0xBB, CHR 0xBF]"

fun Parse_chain :: "sub_env \<Rightarrow> (nat \<Rightarrow> string) \<Rightarrow> (sub_format \<times> format_parser) list \<Rightarrow> string \<Rightarrow> string \<Rightarrow> sub_format \<Rightarrow> string + outcome" where
  "Parse_chain env newid [] body subID format =
     Inl ''unrecognized subscription format (not share links, base64, xray/sing-box JSON, SIP008 or clash YAML)''"
| "Parse_chain env newid ((f, parse) # cs) body subID format =
    (if format \<noteq> FormatAuto \<and> format \<noteq> f then Parse_chain env newid cs body subID format
     else (case parse body of
       None \<Rightarrow> if format = f then Inl (''subscription body is not '' @ format_text f) else Parse_chain env newid cs body subID format
     | Some (entries, groups) \<Rightarrow>
        (let r = collect env newid f entries groups subID in
         if oc_nodes r = [] then Inl (format_text f @ '' subscription: no usable nodes in '' @ FormatUint 10 (oc_entries r) @
            '' entries ('' @ FormatUint 10 (oc_unrecognized r) @ '' unrecognized)'')
         else Inr r)))"

section \<open>Link lists\<close>

definition decodeBase64Body :: "string \<Rightarrow> string option" where
  "decodeBase64Body body = (let trimmed = TrimSpace body in
     find (\<lambda>s. Contains s ''://'') (List.map_filter (\<lambda>(val, padded). b64_decode val padded trimmed)
       [(std_val, True), (std_val, False), (url_val, True), (url_val, False)]))"

definition parseLinks :: format_parser where
  "parseLinks body =
    (let text = (case decodeBase64Body body of Some s \<Rightarrow> s | None \<Rightarrow> body);
         lines = map (\<lambda>l. TrimSpace (TrimPrefix l bom)) (Split text (CHR 0x0A));
         entries = map (\<lambda>l. \<lparr>re_links = [l], re_from_balancer = False\<rparr>) (filter (\<lambda>l. l \<noteq> [] \<and> Contains l ''://'') lines)
     in if entries = [] then None else Some (entries, []))"

section \<open>SIP008\<close>

definition sipString :: "json obj \<Rightarrow> string \<Rightarrow> string" where
  "sipString m k = (case jget m k of Some (JStr s) \<Rightarrow> s | _ \<Rightarrow> [])"

text \<open>A JSON number is a port when it is an integer between 1 and 65535, however it is written.\<close>

definition port_number :: "int \<Rightarrow> u16" where
  "port_number i = (if 0 < i \<and> i < 65536 then word_of_int i else 0)"

definition sipPort :: "sub_env \<Rightarrow> json obj \<Rightarrow> string \<Rightarrow> u16" where
  "sipPort env m k = (case jget m k of
     Some (JInt i) \<Rightarrow> port_number i
   | Some (JFloat t) \<Rightarrow> (case se_integral env t of None \<Rightarrow> 0 | Some i \<Rightarrow> port_number i)
   | Some (JStr s) \<Rightarrow> (case ParseUint s 10 16 of None \<Rightarrow> 0 | Some n \<Rightarrow> of_nat n)
   | _ \<Rightarrow> 0)"

definition sip008Links :: "sub_env \<Rightarrow> json obj \<Rightarrow> string list" where
  "sip008Links env s =
    (let host = sipString s ''server''; port = sipPort env s ''server_port''; method = sipString s ''method'';
         plugin = sipString s ''plugin''
     in if host = [] \<or> port = 0 \<or> method = [] then []
        else if plugin \<noteq> [] \<and> plugin \<noteq> ''obfs-local'' \<and> plugin \<noteq> ''v2ray-plugin'' then []
        else [ssLink method (sipString s ''password'') host port plugin (if plugin \<noteq> [] then sipString s ''plugin_opts'' else [])
          (sipString s ''remarks'')])"

text \<open>A \<^verbatim>\<open>map[string]any\<close>: null gives the nil map.\<close>

fun dec_any_map :: "json \<Rightarrow> json obj decoded" where
  "dec_any_map (JObj ob) = Inr (to_map ob)"
| "dec_any_map JNull = Inr []"
| "dec_any_map _ = Inl BadType"

definition parseSIP008 :: "sub_env \<Rightarrow> format_parser" where
  "parseSIP008 env body = (case se_json_text env body of
     None \<Rightarrow> None
   | Some j \<Rightarrow> (case dec_struct (dec_field (dec_list dec_any_map) [] ''servers'') j of
       Inl _ \<Rightarrow> None
     | Inr servers \<Rightarrow>
         if list_ex (\<lambda>s. jget s ''server'' \<noteq> None \<and> jget s ''server_port'' \<noteq> None) servers
         then Some (map (\<lambda>s. \<lparr>re_links = sip008Links env s, re_from_balancer = False\<rparr>) servers, []) else None))"

section \<open>What collecting guarantees\<close>

lemma parsed_links_dialable: "p \<in> set (parsed_links env links) \<Longrightarrow> \<exists>l \<in> set links. ParseURL (se_url_parse env) (se_json_text env) l = Inr p"
  by (force simp: parsed_links_def List.map_filter_def split: sum.splits)

text \<open>The running state: the keys seen are those of the nodes, in order and without repetition.\<close>

definition collected_ok :: "(nat \<Rightarrow> string) \<Rightarrow> string \<Rightarrow> profile set \<Rightarrow> collected \<Rightarrow> bool" where
  "collected_ok newid subID src st = (distinct (cl_seen st) \<and>
     (\<exists>ps. set ps \<subseteq> src \<and> cl_seen st = map profileKey ps \<and>
        cl_nodes st = map (\<lambda>(i, p). NewNode (newid i) p (Some subID)) (enumerate 0 ps)))"

lemma add_profile_ok:
  assumes "collected_ok newid subID src st" and "p \<in> src"
  shows "collected_ok newid subID src (add_profile newid subID p st)"
proof -
  obtain ps where ps: "set ps \<subseteq> src" "cl_seen st = map profileKey ps"
      "cl_nodes st = map (\<lambda>(i, p). NewNode (newid i) p (Some subID)) (enumerate 0 ps)"
    using assms(1) by (auto simp: collected_ok_def)
  show ?thesis
  proof (cases "profileKey p \<in> set (cl_seen st)")
    case True
    then show ?thesis using assms by (simp add: add_profile_def collected_ok_def)
  next
    case False
    then show ?thesis
      using assms ps unfolding collected_ok_def
      by (intro conjI exI [of _ "ps @ [p]"]) (auto simp: add_profile_def enumerate_append_eq)
  qed
qed

lemma fold_add_ok:
  "collected_ok newid subID src st \<Longrightarrow> set xs \<subseteq> src \<Longrightarrow> collected_ok newid subID src (fold (add_profile newid subID) xs st)"
  by (induction xs arbitrary: st) (auto intro: add_profile_ok)

lemma fold_add_count:
  "length (cl_nodes (fold (add_profile newid subID) xs st)) + cl_duplicates (fold (add_profile newid subID) xs st) =
   length (cl_nodes st) + cl_duplicates st + length xs"
  by (induction xs arbitrary: st) (auto simp: add_profile_def)

lemma fold_add_seen: "set (cl_seen (fold (add_profile newid subID) xs st)) = set (cl_seen st) \<union> profileKey ` set xs"
  by (induction xs arbitrary: st) (auto simp: add_profile_def)

abbreviation entry_profiles :: "sub_env \<Rightarrow> raw_entry list \<Rightarrow> profile list" where
  "entry_profiles env entries \<equiv> concat (map (\<lambda>e. parsed_links env (re_links e)) entries)"

lemma pass1_subset: "set (pass1 names (map (\<lambda>e. (e, parsed_links env (re_links e))) entries)) \<subseteq> set (entry_profiles env entries)"
  by (auto simp: pass1_def intro!: bexI hd_in_set)

lemma pass2_subset: "set (pass2 (map (\<lambda>e. (e, parsed_links env (re_links e))) entries)) \<subseteq> set (entry_profiles env entries)"
  by (auto simp: pass2_def)

lemma collect_nodes_ok: "collected_ok newid subID (set (entry_profiles env entries)) (collect_nodes env newid subID entries groups)"
  unfolding collect_nodes_def Let_def
  by (rule fold_add_ok) (use pass1_subset [of _ env entries] pass2_subset [of env entries] in \<open>auto simp: collected_ok_def\<close>)

lemma dedup_first_set [simp]: "set (dedup_first xs) = set xs"
  by (induction xs) auto

lemma dedup_first_distinct [simp]: "distinct (dedup_first xs)"
  by (induction xs) auto

lemma freeze_groups_ok:
  "g \<in> set (freeze_groups env seen names gs) \<Longrightarrow>
    go_member_keys g \<noteq> [] \<and> set (go_member_keys g) \<subseteq> set seen \<and> distinct (go_member_keys g) \<and>
    go_name g \<in> rg_name ` set gs - set names"
  by (induction env seen names gs rule: freeze_groups.induct) (auto simp: Let_def member_keys_def split: if_splits)

lemma freeze_groups_distinct: "distinct (map go_name (freeze_groups env seen names gs))"
proof (induction env seen names gs rule: freeze_groups.induct)
  case (2 env seen names g gs)
  have "rg_name g \<notin> go_name ` set (freeze_groups env seen (rg_name g # names) gs)"
    using freeze_groups_ok [of _ env seen "rg_name g # names" gs] by fastforce
  with 2 show ?case by (simp add: Let_def)
qed simp

lemma Parse_chain_Inr:
  "Parse_chain env newid cs body subID format = Inr r \<Longrightarrow>
    \<exists>f parse entries groups. (f, parse) \<in> set cs \<and> (format = FormatAuto \<or> format = f) \<and> parse body = Some (entries, groups) \<and>
      r = collect env newid f entries groups subID \<and> oc_nodes r \<noteq> []"
  by (induction env newid cs body subID format rule: Parse_chain.induct)
    (fastforce simp: Let_def split: if_splits option.splits prod.splits)+

text \<open>A node a body may yield: dialable by some core, storable, owned by the subscription.\<close>

definition usable_node :: "string \<Rightarrow> node \<Rightarrow> bool" where
  "usable_node subID n = (nd_sub_id n = Some subID \<and> nd_group n = None \<and> nd_core_override n = None \<and> (case nd_doc n of
     None \<Rightarrow> False
   | Some p \<Rightarrow> profile_ok p \<and> (case SelectCore (Some p) CoreSingBox None of Inl _ \<Rightarrow> False | Inr core \<Rightarrow> dialableBy p core)))"

lemma usable_parsed: "ParseURL up jt l = Inr p \<Longrightarrow> usable_node subID (NewNode i p (Some subID))"
  using ParseURL_profile_ok [of up jt l p] ParseURL_dialable [of up jt l p]
  by (auto simp: usable_node_def NewNode_def select_core_default')

lemma nodeKey_NewNode [simp]: "nodeKey (NewNode i p sub) = Some (profileKey p)"
  by (simp add: nodeKey_def NewNode_def)

lemma collect_sound:
  fixes env newid f entries groups subID
  defines "r \<equiv> collect env newid f entries groups subID"
  shows "list_all (usable_node subID) (oc_nodes r)" "distinct (map nodeKey (oc_nodes r))"
    "map nd_id (oc_nodes r) = map newid [0..<length (oc_nodes r)]" "distinct (map go_name (oc_groups r))"
    "g \<in> set (oc_groups r) \<Longrightarrow> go_member_keys g \<noteq> [] \<and> distinct (go_member_keys g) \<and> Some ` set (go_member_keys g) \<subseteq> nodeKey ` set (oc_nodes r)"
proof -
  let ?st = "collect_nodes env newid subID entries groups"
  obtain ps where ps: "set ps \<subseteq> set (entry_profiles env entries)" "cl_seen ?st = map profileKey ps" "distinct (cl_seen ?st)"
      "cl_nodes ?st = map (\<lambda>(i, p). NewNode (newid i) p (Some subID)) (enumerate 0 ps)"
    using collect_nodes_ok [of newid subID env entries groups] by (auto simp: collected_ok_def)
  have r: "oc_nodes r = cl_nodes ?st" "oc_groups r = freeze_groups env (cl_seen ?st) [] groups"
    by (simp_all add: r_def collect_def Let_def)
  have keys: "map nodeKey (oc_nodes r) = map Some (cl_seen ?st)"
    by (rule nth_equalityI) (simp_all add: r ps(2,4) nth_enumerate_eq)
  have "usable_node subID (NewNode i p (Some subID))" if pin: "p \<in> set ps" for i p
  proof -
    obtain e :: raw_entry where "p \<in> set (parsed_links env (re_links e))" using subsetD [OF ps(1) pin] by auto
    then show ?thesis using parsed_links_dialable usable_parsed by blast
  qed
  then show "list_all (usable_node subID) (oc_nodes r)"
    by (auto simp: r ps(4) list_all_iff in_set_enumerate_eq)
  show "distinct (map nodeKey (oc_nodes r))" using ps(3) by (simp add: keys distinct_map)
  show "map nd_id (oc_nodes r) = map newid [0..<length (oc_nodes r)]"
    by (rule nth_equalityI) (simp_all add: r ps(4) nth_enumerate_eq NewNode_def)
  show "distinct (map go_name (oc_groups r))" by (simp add: r freeze_groups_distinct)
  show "g \<in> set (oc_groups r) \<Longrightarrow> go_member_keys g \<noteq> [] \<and> distinct (go_member_keys g) \<and> Some ` set (go_member_keys g) \<subseteq> nodeKey ` set (oc_nodes r)"
    using freeze_groups_ok [of g env "cl_seen ?st" "[]" groups] keys [THEN arg_cong [where f = set]] by (auto simp: r)
qed

text \<open>A carrier host: a dedicated entry named like a group.\<close>

definition is_carrier :: "sub_env \<Rightarrow> raw_group list \<Rightarrow> raw_entry \<Rightarrow> bool" where
  "is_carrier env groups e = (\<not> re_from_balancer e \<and> length (parsed_links env (re_links e)) = 1 \<and>
     DisplayName (hd (parsed_links env (re_links e))) \<in> rg_name ` set groups)"

lemma passes_length:
  "length (pass1 (map rg_name groups) (map (\<lambda>e. (e, parsed_links env (re_links e))) entries)) +
   length (pass2 (map (\<lambda>e. (e, parsed_links env (re_links e))) entries)) + length (filter (is_carrier env groups) entries) =
   length (entry_profiles env entries)"
proof (induction entries)
  case (Cons e es)
  then show ?case
    by (cases "parsed_links env (re_links e)"; cases "tl (parsed_links env (re_links e))")
      (auto simp: pass1_def pass2_def is_carrier_def)
qed (simp add: pass1_def pass2_def)

lemma collect_accounting:
  "length (oc_nodes (collect env newid f entries groups subID)) + oc_duplicates (collect env newid f entries groups subID) +
   length (filter (is_carrier env groups) entries) = length (entry_profiles env entries)"
  using passes_length [of groups env entries]
  by (simp add: collect_def collect_nodes_def Let_def fold_add_count)

section \<open>The contract of a dialect\<close>

text \<open>
  Every dialect names in its groups only links that its entries carry. Whatever the dialect, a member that parses
  is then a collected node, unless its name is that of a group.
\<close>

locale dialect =
  fixes parse :: format_parser
  assumes group_links: "parse body = Some (entries, groups) \<Longrightarrow> g \<in> set groups \<Longrightarrow>
    set (rg_links g) \<subseteq> (\<Union>e \<in> set entries. set (re_links e))"
begin

lemma member_kept:
  assumes "parse body = Some (entries, groups)" and "g \<in> set groups" and "l \<in> set (rg_links g)"
    and "ParseURL (se_url_parse env) (se_json_text env) l = Inr p" and "DisplayName p \<notin> rg_name ` set groups"
  shows "Some (profileKey p) \<in> nodeKey ` set (oc_nodes (collect env newid f entries groups subID))"
proof -
  let ?eps = "map (\<lambda>e. (e, parsed_links env (re_links e))) entries" and ?st = "collect_nodes env newid subID entries groups"
  obtain e where e: "e \<in> set entries" "l \<in> set (re_links e)" using group_links [OF assms(1,2)] assms(3) by blast
  then have p: "p \<in> set (parsed_links env (re_links e))"
    using assms(4) by (force simp: parsed_links_def List.map_filter_def)
  have "p \<in> set (pass1 (map rg_name groups) ?eps) \<union> set (pass2 ?eps)"
  proof (cases "re_from_balancer e \<or> 1 < length (parsed_links env (re_links e))")
    case True
    then show ?thesis using e(1) p by (auto simp: pass2_def)
  next
    case False
    then have "parsed_links env (re_links e) = [p]" using p by (cases "parsed_links env (re_links e)") auto
    then show ?thesis using e(1) False assms(5) by (auto simp: pass1_def intro!: image_eqI [of _ _ "(e, [p])"])
  qed
  then have "profileKey p \<in> set (cl_seen ?st)" by (auto simp: collect_nodes_def Let_def fold_add_seen)
  moreover obtain ps where "cl_seen ?st = map profileKey ps"
      "cl_nodes ?st = map (\<lambda>(i, p). NewNode (newid i) p (Some subID)) (enumerate 0 ps)"
    using collect_nodes_ok [of newid subID env entries groups] by (auto simp: collected_ok_def)
  then have "map nodeKey (cl_nodes ?st) = map Some (cl_seen ?st)"
    by (intro nth_equalityI) (simp_all add: nth_enumerate_eq)
  then have "nodeKey ` set (cl_nodes ?st) = Some ` set (cl_seen ?st)" by (metis set_map)
  ultimately show ?thesis by (auto simp: collect_def Let_def)
qed

end

interpretation links: dialect parseLinks
  by unfold_locales (auto simp: parseLinks_def Let_def split: if_splits)

interpretation sip008: dialect "parseSIP008 env" for env
  by unfold_locales (auto simp: parseSIP008_def split: option.splits sum.splits if_splits)

end
