(* ===== verification/Sub_Clash.thy ===== *)
theory Sub_Clash
  imports Sub_Parse
begin

text \<open>
  The Clash/mihomo dialect (\<^verbatim>\<open>daemon-go/internal/subscription/parse_clash.go\<close>): every proxy of the YAML document
  reduced to a share link, and its url-test groups reduced to their members' links.

  \<open>clash_env\<close> holds the YAML decoder (a body to its \<^verbatim>\<open>proxies\<close> and \<^verbatim>\<open>proxy-groups\<close> maps) and the regular
  expressions (a pattern to its matcher, \<open>None\<close> when it does not compile); a YAML float is its shortest decimal text.

  Main results: a proxy yields at most one link; a group's members are links of convertible proxies of the document.
\<close>

section \<open>YAML values and their readers\<close>

datatype yaml =
    YNull
  | YStr string
  | YInt int
  | YFloat string
  | YBool bool
  | YSeq "yaml list"
  | YMap "(string \<times> yaml) list"

type_synonym yaml_map = "yaml obj"

record clash_env =
  ce_yaml :: "string \<Rightarrow> (yaml_map list \<times> yaml_map list) option"
  ce_regexp :: "string \<Rightarrow> (string \<Rightarrow> bool) option"

fun clashScalar :: "yaml \<Rightarrow> string" where
  "clashScalar (YStr s) = s"
| "clashScalar (YInt i) = int_text i"
| "clashScalar (YFloat t) = t"
| "clashScalar (YBool b) = (if b then ''true'' else ''false'')"
| "clashScalar _ = []"

definition clashString :: "yaml_map \<Rightarrow> string \<Rightarrow> string" where
  "clashString m k = (case jget m k of None \<Rightarrow> [] | Some v \<Rightarrow> clashScalar v)"

definition clashPort :: "yaml_map \<Rightarrow> string \<Rightarrow> u16" where
  "clashPort m k = (case jget m k of
     Some (YInt i) \<Rightarrow> if 0 < i \<and> i \<le> 65535 then word_of_int i else 0
   | Some (YStr s) \<Rightarrow> (case ParseUint s 10 16 of None \<Rightarrow> 0 | Some n \<Rightarrow> of_nat n)
   | _ \<Rightarrow> 0)"

definition clashInt :: "yaml_map \<Rightarrow> string \<Rightarrow> int" where
  "clashInt m k = (case jget m k of
     Some (YInt i) \<Rightarrow> i | Some (YStr s) \<Rightarrow> (case Atoi s of None \<Rightarrow> 0 | Some i \<Rightarrow> i) | _ \<Rightarrow> 0)"

definition clashBool :: "yaml_map \<Rightarrow> string \<Rightarrow> bool" where
  "clashBool m k = (case jget m k of Some (YBool b) \<Rightarrow> b | Some (YStr s) \<Rightarrow> s = ''true'' \<or> s = ''1'' | _ \<Rightarrow> False)"

text \<open>\<open>None\<close> is the nil map; the readers treat it like the empty one.\<close>

definition clashMap :: "yaml_map \<Rightarrow> string \<Rightarrow> yaml_map option" where
  "clashMap m k = (case jget m k of Some (YMap ob) \<Rightarrow> Some ob | _ \<Rightarrow> None)"

definition nil_map :: "yaml_map option \<Rightarrow> yaml_map" where
  "nil_map m = (case m of None \<Rightarrow> [] | Some ob \<Rightarrow> ob)"

definition clashStrings :: "yaml_map \<Rightarrow> string \<Rightarrow> string list" where
  "clashStrings m k = (case jget m k of Some (YSeq vs) \<Rightarrow> filter (\<lambda>s. s \<noteq> []) (map clashScalar vs) | _ \<Rightarrow> [])"

definition clashHostHeader :: "yaml_map \<Rightarrow> string" where
  "clashHostHeader headers = (if clashString headers ''Host'' \<noteq> [] then clashString headers ''Host'' else clashString headers ''host'')"

section \<open>Security and transport parameters\<close>

text \<open>\<^verbatim>\<open>q.Set\<close> of a parameter that is only emitted when it is not empty.\<close>

definition set_nonempty :: "string \<Rightarrow> string \<Rightarrow> url_values \<Rightarrow> url_values" where
  "set_nonempty k v q = (if v \<noteq> [] then jput k v q else q)"

definition clashV2raySecurity :: "yaml_map \<Rightarrow> string \<Rightarrow> bool \<Rightarrow> url_values \<Rightarrow> url_values" where
  "clashV2raySecurity p sni alwaysTLS q = (case clashMap p ''reality-opts'' of
     Some r \<Rightarrow> jput ''sid'' (clashString r ''short-id'') (jput ''pbk'' (clashString r ''public-key'')
       (jput ''fp'' (clashString p ''client-fingerprint'') (jput ''sni'' sni (jput ''security'' ''reality'' q))))
   | None \<Rightarrow> if alwaysTLS \<or> clashBool p ''tls''
       then set_nonempty ''fp'' (clashString p ''client-fingerprint'') (set_nonempty ''sni'' sni (jput ''security'' ''tls'' q))
       else q)"

definition clashStreamQuery :: "yaml_map \<Rightarrow> url_values \<Rightarrow> url_values option" where
  "clashStreamQuery p q = (let network = clashString p ''network'' in
     if network = [] \<or> network = ''tcp'' then Some q
     else if network = ''ws'' then
       (let ws = nil_map (clashMap p ''ws-opts'') in
        Some (set_nonempty ''host'' (clashHostHeader (nil_map (clashMap ws ''headers'')))
          (set_nonempty ''path'' (clashString ws ''path'') (jput ''type'' ''ws'' q))))
     else if network = ''grpc'' then
       Some (set_nonempty ''serviceName'' (clashString (nil_map (clashMap p ''grpc-opts'')) ''grpc-service-name'') (jput ''type'' ''grpc'' q))
     else None)"

section \<open>Converters\<close>

definition clashSIP003 :: "string \<Rightarrow> yaml_map \<Rightarrow> (string \<times> string) option" where
  "clashSIP003 plugin opts =
    (if plugin = ''obfs'' then
       Some (''obfs-local'', Join (
         (if clashString opts ''mode'' \<noteq> [] then [''obfs='' @ clashString opts ''mode''] else []) @
         (if clashString opts ''host'' \<noteq> [] then [''obfs-host='' @ clashString opts ''host''] else [])) '';'')
     else if plugin = ''v2ray-plugin'' then
       Some (''v2ray-plugin'', Join (
         (if clashString opts ''mode'' \<noteq> [] \<and> clashString opts ''mode'' \<noteq> ''websocket'' then [''mode='' @ clashString opts ''mode''] else []) @
         (if clashBool opts ''tls'' then [''tls''] else []) @
         (if clashString opts ''host'' \<noteq> [] then [''host='' @ clashString opts ''host''] else []) @
         (if clashString opts ''path'' \<noteq> [] then [''path='' @ clashString opts ''path''] else [])) '';'')
     else None)"

definition clashSS :: "yaml_map \<Rightarrow> string \<Rightarrow> u16 \<Rightarrow> string \<Rightarrow> string list" where
  "clashSS p host port name =
    (let cipher = clashString p ''cipher''; password = clashString p ''password''; plugin = clashString p ''plugin'' in
     if cipher = [] then []
     else if plugin = [] then [ssLink cipher password host port [] [] name]
     else (case clashSIP003 plugin (nil_map (clashMap p ''plugin-opts'')) of
       None \<Rightarrow> [] | Some (pluginName, opts) \<Rightarrow> [ssLink cipher password host port pluginName opts name]))"

definition clashVmess :: "sub_env \<Rightarrow> yaml_map \<Rightarrow> string \<Rightarrow> u16 \<Rightarrow> string \<Rightarrow> string list" where
  "clashVmess env p host port name =
    (let uuid = clashString p ''uuid''; network = clashString p ''network'';
         link = [(''v'', JStr ''2''), (''ps'', JStr name), (''add'', JStr host), (''port'', JInt (uint port)), (''id'', JStr uuid),
                 (''aid'', JInt (clashInt p ''alterId'')), (''scy'', JStr (clashString p ''cipher''))];
         stream = (if network = [] \<or> network = ''tcp'' then Some (jput ''net'' (JStr ''tcp'') link)
           else if network = ''ws'' then
             (let ws = nil_map (clashMap p ''ws-opts'') in
              Some (jput ''host'' (JStr (clashHostHeader (nil_map (clashMap ws ''headers''))))
                (jput ''path'' (JStr (clashString ws ''path'')) (jput ''net'' (JStr ''ws'') link))))
           else if network = ''grpc'' then
             Some (jput ''path'' (JStr (clashString (nil_map (clashMap p ''grpc-opts'')) ''grpc-service-name'')) (jput ''net'' (JStr ''grpc'') link))
           else None)
     in if uuid = [] then []
        else (case stream of
          None \<Rightarrow> []
        | Some l \<Rightarrow> [encodeVmessLink (se_json_print env) (if clashBool p ''tls''
            then jput ''fp'' (JStr (clashString p ''client-fingerprint'')) (jput ''sni'' (JStr (clashString p ''servername'')) (jput ''tls'' (JStr ''tls'') l))
            else l)]))"

definition clashVless :: "yaml_map \<Rightarrow> string \<Rightarrow> u16 \<Rightarrow> string \<Rightarrow> string list" where
  "clashVless p host port name =
    (let uuid = clashString p ''uuid'' in
     if uuid = [] then []
     else (case clashStreamQuery p (clashV2raySecurity p (clashString p ''servername'') False (set_nonempty ''flow'' (clashString p ''flow'') [])) of
       None \<Rightarrow> [] | Some q \<Rightarrow> [shareLink ''vless'' (url_User uuid) host port q name]))"

definition clashTrojan :: "yaml_map \<Rightarrow> string \<Rightarrow> u16 \<Rightarrow> string \<Rightarrow> string list" where
  "clashTrojan p host port name =
    (let password = clashString p ''password'' in
     if password = [] then []
     else (case clashStreamQuery p (clashV2raySecurity p (clashString p ''sni'') True []) of
       None \<Rightarrow> [] | Some q \<Rightarrow> [shareLink ''trojan'' (url_User password) host port q name]))"

definition clashHysteria2 :: "yaml_map \<Rightarrow> string \<Rightarrow> u16 \<Rightarrow> string \<Rightarrow> string list" where
  "clashHysteria2 p host port name =
    (let q1 = set_nonempty ''sni'' (clashString p ''sni'') [];
         q2 = (if clashBool p ''skip-cert-verify'' then jput ''insecure'' ''1'' q1 else q1);
         q3 = set_nonempty ''pinSHA256'' (clashString p ''fingerprint'') q2;
         q4 = (if clashString p ''obfs'' \<noteq> []
               then jput ''obfs-password'' (clashString p ''obfs-password'') (jput ''obfs'' (clashString p ''obfs'') q3) else q3);
         password = clashString p ''password''
     in [shareLink ''hysteria2'' (if password \<noteq> [] then url_User password else []) host port q4 name])"

definition clashTUIC :: "yaml_map \<Rightarrow> string \<Rightarrow> u16 \<Rightarrow> string \<Rightarrow> string list" where
  "clashTUIC p host port name =
    (let uuid = clashString p ''uuid'';
         q1 = set_nonempty ''udp_relay_mode'' (clashString p ''udp-relay-mode'')
               (set_nonempty ''congestion_control'' (clashString p ''congestion-controller'') (set_nonempty ''sni'' (clashString p ''sni'') []));
         q2 = (if clashStrings p ''alpn'' \<noteq> [] then jput ''alpn'' (Join (clashStrings p ''alpn'') '','') q1 else q1);
         q3 = (if clashBool p ''skip-cert-verify'' then jput ''allow_insecure'' ''1'' q2 else q2)
     in if uuid = [] then [] else [shareLink ''tuic'' (url_UserPassword uuid (clashString p ''password'')) host port q3 name])"

definition clashAnyTLS :: "yaml_map \<Rightarrow> string \<Rightarrow> u16 \<Rightarrow> string \<Rightarrow> string list" where
  "clashAnyTLS p host port name =
    (let password = clashString p ''password''; q1 = set_nonempty ''sni'' (clashString p ''sni'') [];
         q2 = (if clashBool p ''skip-cert-verify'' then jput ''insecure'' ''1'' q1 else q1)
     in if password = [] then [] else [shareLink ''anytls'' (url_User password) host port q2 name])"

definition clashLinks :: "sub_env \<Rightarrow> yaml_map \<Rightarrow> string list" where
  "clashLinks env p =
    (let host = clashString p ''server''; port = clashPort p ''port''; name = clashString p ''name''; kind = clashString p ''type'' in
     if host = [] \<or> port = 0 then []
     else if kind = ''ss'' then clashSS p host port name
     else if kind = ''vmess'' then clashVmess env p host port name
     else if kind = ''vless'' then clashVless p host port name
     else if kind = ''trojan'' then clashTrojan p host port name
     else if kind = ''hysteria2'' then clashHysteria2 p host port name
     else if kind = ''tuic'' then clashTUIC p host port name
     else if kind = ''anytls'' then clashAnyTLS p host port name
     else [])"

section \<open>Groups\<close>

definition clashReserved :: "string list" where
  "clashReserved = [''DIRECT'', ''REJECT'', ''REJECT-DROP'', ''PASS'', ''GLOBAL'', ''COMPATIBLE'']"

text \<open>The convertible proxies by name: a later proxy of the same name replaces the link but keeps the place.\<close>

definition link_by_name :: "sub_env \<Rightarrow> yaml_map list \<Rightarrow> string obj" where
  "link_by_name env proxies = fold (\<lambda>p m. let name = clashString p ''name'' in
     case clashLinks env p of [] \<Rightarrow> m | l # _ \<Rightarrow> if name = [] then m else jput name l m) proxies []"

text \<open>\<^verbatim>\<open>addMember\<close>: the names picked so far with their links, in order.\<close>

definition addMember :: "string obj \<Rightarrow> string list \<Rightarrow> string \<Rightarrow> (string \<Rightarrow> bool) \<Rightarrow> string \<Rightarrow> string obj \<Rightarrow> string obj" where
  "addMember linkByName groupNames name keep n picked =
    (if jget picked n \<noteq> None \<or> n = name \<or> n \<in> set groupNames \<or> n \<in> set clashReserved then picked
     else (case jget linkByName n of
       None \<Rightarrow> picked
     | Some link \<Rightarrow> if keep n then picked @ [(n, link)] else picked))"

definition clamp_tolerance :: "int \<Rightarrow> u16" where
  "clamp_tolerance t = (if t < 0 then 0 else if 65535 < t then 65535 else word_of_int t)"

text \<open>The matcher of an optional filter: \<open>Some None\<close> without one, \<open>None\<close> when it does not compile.\<close>

definition group_filter :: "clash_env \<Rightarrow> yaml_map \<Rightarrow> string \<Rightarrow> (string \<Rightarrow> bool) option option" where
  "group_filter cenv g k = (if clashString g k = [] then Some None else map_option Some (ce_regexp cenv (clashString g k)))"

definition clash_group :: "clash_env \<Rightarrow> string obj \<Rightarrow> string list \<Rightarrow> yaml_map \<Rightarrow> raw_group option" where
  "clash_group cenv linkByName groupNames g =
    (let name = clashString g ''name'' in
     if clashString g ''type'' \<noteq> ''url-test'' \<or> name = [] then None
     else (case (group_filter cenv g ''filter'', group_filter cenv g ''exclude-filter'') of
       (Some filterRe, Some excludeRe) \<Rightarrow>
        (let keep = (\<lambda>n. (case filterRe of None \<Rightarrow> True | Some match \<Rightarrow> match n) \<and> (case excludeRe of None \<Rightarrow> True | Some match \<Rightarrow> \<not> match n));
             listed = fold (addMember linkByName groupNames name (\<lambda>_. True)) (clashStrings g ''proxies'') [];
             picked = (if clashBool g ''include-all'' \<or> clashBool g ''include-all-proxies''
               then fold (addMember linkByName groupNames name keep) (map fst linkByName) listed else listed)
         in if picked = [] then None
            else Some \<lparr>rg_name = name, rg_links = map snd picked,
                   rg_probe = \<lparr>gp_url = clashString g ''url'', gp_interval_sec = word_of_int (max (clashInt g ''interval'') 0),
                               gp_tolerance = clamp_tolerance (clashInt g ''tolerance'')\<rparr>\<rparr>)
     | _ \<Rightarrow> None))"

definition clashGroups :: "sub_env \<Rightarrow> clash_env \<Rightarrow> yaml_map list \<Rightarrow> yaml_map list \<Rightarrow> raw_group list" where
  "clashGroups env cenv proxies groups =
     List.map_filter (clash_group cenv (link_by_name env proxies) (filter (\<lambda>n. n \<noteq> []) (map (\<lambda>g. clashString g ''name'') groups))) groups"

definition parseClash :: "sub_env \<Rightarrow> clash_env \<Rightarrow> format_parser" where
  "parseClash env cenv body = (case ce_yaml cenv body of
     None \<Rightarrow> None
   | Some (proxies, groups) \<Rightarrow>
      if list_ex (\<lambda>p. jget p ''type'' \<noteq> None \<and> jget p ''server'' \<noteq> None) proxies
      then Some (map (\<lambda>p. \<lparr>re_links = clashLinks env p, re_from_balancer = False\<rparr>) proxies, clashGroups env cenv proxies groups)
      else None)"

section \<open>Group members are links of the document\<close>

lemma link_by_name_links:
  "set (map snd (link_by_name env proxies)) \<subseteq> (\<Union>p \<in> set proxies. set (clashLinks env p))"
proof -
  let ?f = "\<lambda>p m. let name = clashString p ''name'' in
     case clashLinks env p of [] \<Rightarrow> m | l # _ \<Rightarrow> if name = [] then m else jput name l m"
  have put: "set (map snd (jput k v m)) \<subseteq> insert v (set (map snd m))" for k v and m :: "string obj"
    by (induction k v m rule: jput.induct) (simp, simp only: jput.simps list.map set_simps snd_conv split: if_split, blast)
  have "set (map snd (fold ?f ps m)) \<subseteq> set (map snd m) \<union> (\<Union>p \<in> set ps. set (clashLinks env p))" for ps m
  proof (induction ps arbitrary: m)
    case (Cons p ps)
    have "set (map snd (?f p m)) \<subseteq> set (map snd m) \<union> set (clashLinks env p)"
      using put [of "clashString p ''name''" _ m] by (cases "clashLinks env p") (auto simp: Let_def)
    with Cons [of "?f p m"] show ?case by (auto simp del: set_map)
  qed simp
  from this [of proxies "[]"] show ?thesis by (simp add: link_by_name_def)
qed

lemma map_of_snd: "map_of m n = Some l \<Longrightarrow> l \<in> snd ` set m"
  by (metis image_eqI map_of_SomeD snd_conv)

lemma addMember_links:
  "set (map snd picked) \<subseteq> set (map snd m) \<Longrightarrow> set (map snd (fold (addMember m gs name keep) ns picked)) \<subseteq> set (map snd m)"
proof (induction ns arbitrary: picked)
  case (Cons n ns)
  have "set (map snd (addMember m gs name keep n picked)) \<subseteq> set (map snd m)"
    using Cons(2) map_of_snd [of m n] by (auto simp: addMember_def jget_def split: option.splits)
  from Cons(1) [OF this] show ?case by simp
qed simp

lemma clash_group_links: "clash_group cenv m gs g = Some r \<Longrightarrow> set (rg_links r) \<subseteq> set (map snd m)"
  using addMember_links [of "[]" m gs "clashString g ''name''" "\<lambda>_. True" "clashStrings g ''proxies''"]
  by (auto simp: clash_group_def Let_def simp del: set_map dest!: subsetD [OF addMember_links, rotated]
      split: if_splits option.splits)

interpretation clash: dialect "parseClash env cenv" for env cenv
proof unfold_locales
  fix body entries groups g
  assume parse: "parseClash env cenv body = Some (entries, groups)" and g: "g \<in> set groups"
  then obtain proxies gs where *: "entries = map (\<lambda>p. \<lparr>re_links = clashLinks env p, re_from_balancer = False\<rparr>) proxies"
      "groups = clashGroups env cenv proxies gs"
    by (auto simp: parseClash_def split: option.splits if_splits)
  then obtain raw names where "clash_group cenv (link_by_name env proxies) names raw = Some g"
    using g by (auto simp: clashGroups_def List.map_filter_def)
  then have "set (rg_links g) \<subseteq> set (map snd (link_by_name env proxies))" by (rule clash_group_links)
  also have "\<dots> \<subseteq> (\<Union>p \<in> set proxies. set (clashLinks env p))" by (rule link_by_name_links)
  also have "\<dots> = (\<Union>e \<in> set entries. set (re_links e))" by (simp add: *(1))
  finally show "set (rg_links g) \<subseteq> (\<Union>e \<in> set entries. set (re_links e))" .
qed

end
