(* ===== verification/Sub_Cores.thy ===== *)
theory Sub_Cores
  imports Sub_Clash
begin

text \<open>
  The two core dialects: sing-box configs (\<^verbatim>\<open>daemon-go/internal/subscription/parse_singbox.go\<close>) and xray client
  configs (\<^verbatim>\<open>parse_xray.go\<close>), and the whole detection chain (\<^verbatim>\<open>Parse\<close> of \<^verbatim>\<open>parse.go\<close>).

  The sing-box option types and xray's \<^verbatim>\<open>conf.StreamConfig\<close> belong to the cores: \<open>core_env\<close> holds their decoders,
  and the records below the fields the converters read. A struct that \<^verbatim>\<open>json.Unmarshal\<close> fills while its
  error is ignored keeps the members that fit (the \<open>lenient\<close> readers).

  Main results: the chain yields only usable nodes with distinct refresh identities, accounts for every link,
  and closes its groups over them; a body that one dialect claims is never handed on to a laxer one.
\<close>

section \<open>Options of the cores\<close>

record sb_tls =
  to_enabled :: bool
  to_server_name :: string
  to_insecure :: bool
  to_alpn :: "string list"
  to_utls :: "(bool \<times> string) option"
  to_reality :: "(bool \<times> string \<times> string) option"

record sb_transport =
  tp_type :: string
  tp_path :: string
  tp_host :: string
  tp_service_name :: string

record sb_dial =
  sd_server :: string
  sd_port :: u16
  sd_tls :: "sb_tls option"
  sd_transport :: "sb_transport option"

datatype sb_options =
    SbVLESS sb_dial string string
  | SbVMess sb_dial string int string
  | SbTrojan sb_dial string
  | SbShadowsocks sb_dial string string string string
  | SbHysteria2 sb_dial string "(string \<times> string) option"
  | SbHysteria sb_dial bool string int int string
  | SbTUIC sb_dial string string string string
  | SbAnyTLS sb_dial string
  | SbURLTest "string list" string int u16
  | SbOther

record sb_outbound =
  ob_type :: string
  ob_tag :: string
  ob_options :: sb_options

record xray_tls =
  xt_server_name :: string
  xt_fingerprint :: string
  xt_allow_insecure :: bool
  xt_pinned :: string
  xt_alpn :: "string list"

record xray_reality =
  xr_server_name :: string
  xr_fingerprint :: string
  xr_public_key :: string
  xr_short_id :: string

record xray_ws =
  xw_path :: string
  xw_host :: string
  xw_headers :: "string obj"

record xray_xhttp =
  xx_path :: string
  xx_host :: string
  xx_mode :: string

text \<open>\<open>xs_udp_masks\<close> are the UDP masks of \<^verbatim>\<open>finalmask\<close>: the type, and the salamander password when its settings decode to one.\<close>

record xray_stream =
  xs_network :: "string option"
  xs_security :: string
  xs_tls :: "xray_tls option"
  xs_reality :: "xray_reality option"
  xs_ws :: "xray_ws option"
  xs_grpc :: "string option"
  xs_xhttp :: "xray_xhttp option"
  xs_splithttp :: "xray_xhttp option"
  xs_hysteria :: "(int \<times> string) option"
  xs_udp_masks :: "(string \<times> string option) list"

record core_env =
  co_options :: "string \<Rightarrow> sb_outbound list option"
  co_outbound :: "json \<Rightarrow> sb_outbound option"
  co_stream :: "json \<Rightarrow> xray_stream decoded"

section \<open>Ignored decode errors\<close>

definition lenient_string :: "json obj \<Rightarrow> string \<Rightarrow> string" where
  "lenient_string ob k = (case jfield ob k of Some (JStr s) \<Rightarrow> s | _ \<Rightarrow> [])"

definition lenient_list :: "json obj \<Rightarrow> string \<Rightarrow> json list" where
  "lenient_list ob k = (case jfield ob k of Some (JArr js) \<Rightarrow> js | _ \<Rightarrow> [])"

fun members :: "json \<Rightarrow> json obj" where
  "members (JObj ob) = ob"
| "members _ = []"

fun lenient_text :: "json \<Rightarrow> string" where
  "lenient_text (JStr s) = s"
| "lenient_text _ = []"

section \<open>sing-box configs\<close>

definition singBoxInfra :: "string list" where
  "singBoxInfra = [''direct'', ''block'', ''dns'', ''selector'', ''urltest'']"

definition applySingBoxStream :: "sb_tls option \<Rightarrow> sb_transport option \<Rightarrow> url_values \<Rightarrow> url_values option" where
  "applySingBoxStream tls transport q =
    (let q1 = (case tls of
        None \<Rightarrow> q
      | Some t \<Rightarrow>
         if \<not> to_enabled t then q
         else (let fp = (case to_utls t of Some (True, f) \<Rightarrow> f | _ \<Rightarrow> []) in
           case to_reality t of
             Some (True, pbk, sid) \<Rightarrow> jput ''sid'' sid (jput ''pbk'' pbk (jput ''fp'' fp (jput ''sni'' (to_server_name t) (jput ''security'' ''reality'' q))))
           | _ \<Rightarrow> set_nonempty ''fp'' fp (set_nonempty ''sni'' (to_server_name t) (jput ''security'' ''tls'' q))))
     in case transport of
       None \<Rightarrow> Some q1
     | Some t \<Rightarrow>
         if tp_type t = ''ws'' then Some (set_nonempty ''host'' (tp_host t) (set_nonempty ''path'' (tp_path t) (jput ''type'' ''ws'' q1)))
         else if tp_type t = ''grpc'' then Some (set_nonempty ''serviceName'' (tp_service_name t) (jput ''type'' ''grpc'' q1))
         else None)"

definition singBoxVmessLink :: "sub_env \<Rightarrow> string \<Rightarrow> sb_dial \<Rightarrow> string \<Rightarrow> int \<Rightarrow> string \<Rightarrow> string option" where
  "singBoxVmessLink env tag d uuid alterId scy =
    (let body = [(''v'', JStr ''2''), (''ps'', JStr tag), (''add'', JStr (sd_server d)), (''port'', JInt (uint (sd_port d))),
                 (''id'', JStr uuid), (''aid'', JInt alterId), (''scy'', JStr scy)];
         secured = (case sd_tls d of
           None \<Rightarrow> Some body
         | Some t \<Rightarrow>
             if \<not> to_enabled t then Some body
             else if (case to_reality t of Some (True, _) \<Rightarrow> True | _ \<Rightarrow> False) then None
             else (let b = jput ''sni'' (JStr (to_server_name t)) (jput ''tls'' (JStr ''tls'') body) in
                   Some (case to_utls t of Some (True, f) \<Rightarrow> jput ''fp'' (JStr f) b | _ \<Rightarrow> b)))
     in case secured of
       None \<Rightarrow> None
     | Some b \<Rightarrow> map_option (encodeVmessLink (se_json_print env)) (case sd_transport d of
         None \<Rightarrow> Some b
       | Some t \<Rightarrow>
           if tp_type t = ''ws'' then
             (let b1 = jput ''path'' (JStr (tp_path t)) (jput ''net'' (JStr ''ws'') b) in
              Some (if tp_host t \<noteq> [] then jput ''host'' (JStr (tp_host t)) b1 else b1))
           else if tp_type t = ''grpc'' then Some (jput ''path'' (JStr (tp_service_name t)) (jput ''net'' (JStr ''grpc'') b))
           else None))"

definition set_flag :: "string \<Rightarrow> bool \<Rightarrow> url_values \<Rightarrow> url_values" where
  "set_flag k b q = (if b then jput k ''1'' q else q)"

definition set_alpn :: "string list \<Rightarrow> url_values \<Rightarrow> url_values" where
  "set_alpn alpn q = (if alpn \<noteq> [] then jput ''alpn'' (Join alpn '','') q else q)"

definition set_int :: "string \<Rightarrow> int \<Rightarrow> url_values \<Rightarrow> url_values" where
  "set_int k i q = (if i \<noteq> 0 then jput k (int_text i) q else q)"

fun singBoxLink_options :: "sub_env \<Rightarrow> string \<Rightarrow> sb_options \<Rightarrow> string option" where
  "singBoxLink_options env tag (SbVLESS d uuid flow) =
     map_option (\<lambda>q. shareLink ''vless'' (url_User uuid) (sd_server d) (sd_port d) q tag)
       (applySingBoxStream (sd_tls d) (sd_transport d) (set_nonempty ''flow'' flow []))"
| "singBoxLink_options env tag (SbVMess d uuid alterId scy) = singBoxVmessLink env tag d uuid alterId scy"
| "singBoxLink_options env tag (SbTrojan d password) =
     map_option (\<lambda>q. shareLink ''trojan'' (url_User password) (sd_server d) (sd_port d) q tag)
       (applySingBoxStream (sd_tls d) (sd_transport d) [])"
| "singBoxLink_options env tag (SbShadowsocks d cipher password plugin opts) =
     (if plugin \<noteq> [] \<and> plugin \<noteq> ''obfs-local'' \<and> plugin \<noteq> ''v2ray-plugin'' then None
      else Some (ssLink cipher password (sd_server d) (sd_port d) plugin opts tag))"
| "singBoxLink_options env tag (SbHysteria2 d password obfs) =
     (let q1 = (case sd_tls d of None \<Rightarrow> []
            | Some t \<Rightarrow> set_flag ''insecure'' (to_insecure t) (set_nonempty ''sni'' (to_server_name t) []));
          q2 = (case obfs of Some (ty, pw) \<Rightarrow> if ty \<noteq> [] then jput ''obfs-password'' pw (jput ''obfs'' ty q1) else q1 | None \<Rightarrow> q1)
      in Some (shareLink ''hysteria2'' (if password \<noteq> [] then url_User password else []) (sd_server d) (sd_port d) q2 tag))"
| "singBoxLink_options env tag (SbHysteria d has_auth authString up down obfs) =
     (if has_auth \<and> authString = [] then None
      else (let q1 = set_nonempty ''auth'' authString [];
                q2 = (case sd_tls d of None \<Rightarrow> q1
                  | Some t \<Rightarrow> set_alpn (to_alpn t) (set_flag ''insecure'' (to_insecure t) (set_nonempty ''peer'' (to_server_name t) q1)));
                q3 = set_nonempty ''obfs'' obfs (set_int ''downmbps'' down (set_int ''upmbps'' up q2))
            in Some (shareLink ''hysteria'' [] (sd_server d) (sd_port d) q3 tag)))"
| "singBoxLink_options env tag (SbTUIC d uuid password cc mode) =
     (let q1 = (case sd_tls d of None \<Rightarrow> []
            | Some t \<Rightarrow> set_flag ''allow_insecure'' (to_insecure t) (set_alpn (to_alpn t) (set_nonempty ''sni'' (to_server_name t) [])));
          q2 = set_nonempty ''udp_relay_mode'' mode (set_nonempty ''congestion_control'' cc q1)
      in Some (shareLink ''tuic'' (url_UserPassword uuid password) (sd_server d) (sd_port d) q2 tag))"
| "singBoxLink_options env tag (SbAnyTLS d password) =
     (let q = (case sd_tls d of None \<Rightarrow> []
            | Some t \<Rightarrow> if to_enabled t then set_flag ''insecure'' (to_insecure t) (set_nonempty ''sni'' (to_server_name t) []) else [])
      in Some (shareLink ''anytls'' (url_User password) (sd_server d) (sd_port d) q tag))"
| "singBoxLink_options env tag (SbURLTest _ _ _ _) = None"
| "singBoxLink_options env tag SbOther = None"

definition singBoxLink :: "sub_env \<Rightarrow> sb_outbound \<Rightarrow> string option" where
  "singBoxLink env ob = singBoxLink_options env (ob_tag ob) (ob_options ob)"

definition singBoxEntry :: "sub_env \<Rightarrow> sb_outbound \<Rightarrow> raw_entry" where
  "singBoxEntry env ob = \<lparr>re_links = (case singBoxLink env ob of None \<Rightarrow> [] | Some l \<Rightarrow> [l]), re_from_balancer = False\<rparr>"

definition link_by_tag :: "sub_env \<Rightarrow> sb_outbound list \<Rightarrow> string obj" where
  "link_by_tag env obs = to_map (List.map_filter (\<lambda>ob. if ob_type ob \<in> set singBoxInfra then None
     else map_option (\<lambda>l. (ob_tag ob, l)) (singBoxLink env ob)) obs)"

definition singbox_group :: "string obj \<Rightarrow> sb_outbound \<Rightarrow> raw_group option" where
  "singbox_group linkByTag ob =
    (if ob_type ob \<noteq> ''urltest'' then None
     else (case ob_options ob of
       SbURLTest tags u interval tolerance \<Rightarrow>
        (let links = List.map_filter (jget linkByTag) tags in
         if links = [] then None
         else Some \<lparr>rg_name = ob_tag ob, rg_links = links,
                rg_probe = \<lparr>gp_url = u, gp_interval_sec = word_of_int (interval div 1000000000), gp_tolerance = tolerance\<rparr>\<rparr>)
     | _ \<Rightarrow> None))"

definition singBoxGroups :: "sub_env \<Rightarrow> sb_outbound list \<Rightarrow> raw_group list" where
  "singBoxGroups env obs = List.map_filter (singbox_group (link_by_tag env obs)) obs"

text \<open>The fallback, one outbound at a time: an entry and an outbound for the groups, either of which may be absent.\<close>

definition singbox_fallback :: "sub_env \<Rightarrow> core_env \<Rightarrow> json \<Rightarrow> raw_entry option \<times> sb_outbound option" where
  "singbox_fallback env cenv raw =
    (let ty = lenient_string (members raw) ''type'' in
     if ty \<in> set singBoxInfra \<and> ty \<noteq> ''urltest'' then (None, None)
     else (case co_outbound cenv raw of
       None \<Rightarrow> (if ty \<noteq> ''urltest'' then Some \<lparr>re_links = [], re_from_balancer = False\<rparr> else None, None)
     | Some ob \<Rightarrow> (if ob_type ob \<in> set singBoxInfra then None else Some (singBoxEntry env ob), Some ob)))"

definition parseSingBox :: "sub_env \<Rightarrow> core_env \<Rightarrow> format_parser" where
  "parseSingBox env cenv body = (case se_json_text env body of
     None \<Rightarrow> None
   | Some j \<Rightarrow> (case dec_struct (dec_field (dec_list Inr) [] ''outbounds'') j of
       Inl _ \<Rightarrow> None
     | Inr raws \<Rightarrow>
         if \<not> list_ex (\<lambda>raw. lenient_string (members raw) ''type'' \<noteq> []) raws then None
         else (case co_options cenv body of
           Some obs \<Rightarrow> Some (map (singBoxEntry env) (filter (\<lambda>ob. ob_type ob \<notin> set singBoxInfra) obs), singBoxGroups env obs)
         | None \<Rightarrow> (let rs = map (singbox_fallback env cenv) raws in
             Some (List.map_filter fst rs, singBoxGroups env (List.map_filter snd rs))))))"

section \<open>xray configs\<close>

record xray_balancer =
  xb_tag :: string
  xb_selector :: "string list"

record xray_profile_entry =
  xe_remarks :: string
  xe_outbounds :: "json list"
  xe_balancers :: "xray_balancer list"
  xe_burst :: "json option"
  xe_observatory :: "json option"

record xray_outbound_shell =
  xo_protocol :: string
  xo_tag :: string
  xo_settings :: "json option"
  xo_stream :: "xray_stream option"

definition xray_doc :: "json \<Rightarrow> xray_profile_entry" where
  "xray_doc raw = (let ob = members raw in
     \<lparr>xe_remarks = lenient_string ob ''remarks'', xe_outbounds = lenient_list ob ''outbounds'',
      xe_balancers = map (\<lambda>b. \<lparr>xb_tag = lenient_string (members b) ''tag'',
          xb_selector = map lenient_text (lenient_list (members b) ''selector'')\<rparr>)
        (lenient_list (case jfield ob ''routing'' of Some r \<Rightarrow> members r | None \<Rightarrow> []) ''balancers''),
      xe_burst = jfield ob ''burstObservatory'', xe_observatory = jfield ob ''observatory''\<rparr>)"

definition dec_shell :: "core_env \<Rightarrow> json \<Rightarrow> xray_outbound_shell decoded" where
  "dec_shell cenv = dec_struct (\<lambda>ob.
     rbind (dec_field dec_string [] ''protocol'' ob) (\<lambda>protocol.
     rbind (dec_field dec_string [] ''tag'' ob) (\<lambda>tag.
     rbind (dec_field (dec_ptr (co_stream cenv)) None ''streamSettings'' ob) (\<lambda>stream.
     Inr \<lparr>xo_protocol = protocol, xo_tag = tag, xo_settings = jfield ob ''settings'', xo_stream = stream\<rparr>))))"

definition xrayNonProxy :: "string list" where
  "xrayNonProxy = [''freedom'', ''blackhole'', ''dns'', ''loopback'']"

text \<open>A converted outbound awaiting its name: a link without fragment, or the body of a \<^verbatim>\<open>vmess://\<close> link.\<close>

record pending_link =
  pl_addr :: string
  pl_tag :: string
  pl_body :: "string + json obj"

definition finish :: "sub_env \<Rightarrow> pending_link \<Rightarrow> string \<Rightarrow> string" where
  "finish env p name = (case pl_body p of
     Inr body \<Rightarrow> encodeVmessLink (se_json_print env) (jput ''ps'' (JStr name) body)
   | Inl frag \<Rightarrow> frag @ ''#'' @ QueryEscape name)"

definition xrayWsHost :: "xray_ws \<Rightarrow> string" where
  "xrayWsHost ws = (if xw_host ws \<noteq> [] then xw_host ws
     else (case jget (xw_headers ws) ''Host'' of
       Some h \<Rightarrow> if h \<noteq> [] then h else (case jget (xw_headers ws) ''host'' of Some h' \<Rightarrow> h' | None \<Rightarrow> [])
     | None \<Rightarrow> (case jget (xw_headers ws) ''host'' of Some h' \<Rightarrow> h' | None \<Rightarrow> [])))"

definition xrayStreamKind :: "xray_stream option \<Rightarrow> string \<times> string" where
  "xrayStreamKind sc = (case sc of
     None \<Rightarrow> (''tcp'', ''none'')
   | Some s \<Rightarrow>
      ((case xs_network s of
          None \<Rightarrow> ''tcp''
        | Some n0 \<Rightarrow> let n = ToLower n0 in
            if n0 = [] then ''tcp'' else if n = ''raw'' then ''tcp'' else if n = ''websocket'' then ''ws''
            else if n = ''gun'' then ''grpc'' else if n = ''splithttp'' then ''xhttp'' else n),
       if xs_security s \<noteq> [] then ToLower (xs_security s) else ''none''))"

definition xray_transport_query :: "string \<Rightarrow> xray_stream \<Rightarrow> url_values \<Rightarrow> url_values option" where
  "xray_transport_query network s q =
    (if network = ''tcp'' then Some q
     else if network = ''ws'' then
       (let q1 = jput ''type'' ''ws'' q in
        Some (case xs_ws s of None \<Rightarrow> q1 | Some ws \<Rightarrow> set_nonempty ''host'' (xrayWsHost ws) (set_nonempty ''path'' (xw_path ws) q1)))
     else if network = ''grpc'' then
       Some (set_nonempty ''serviceName'' (case xs_grpc s of None \<Rightarrow> [] | Some g \<Rightarrow> g) (jput ''type'' ''grpc'' q))
     else if network = ''xhttp'' then
       (let q1 = jput ''type'' ''xhttp'' q in
        Some (case (case xs_xhttp s of Some x \<Rightarrow> Some x | None \<Rightarrow> xs_splithttp s) of
            None \<Rightarrow> q1
          | Some x \<Rightarrow> set_nonempty ''mode'' (xx_mode x) (set_nonempty ''host'' (xx_host x) (set_nonempty ''path'' (xx_path x) q1))))
     else None)"

definition xray_security_query :: "string \<Rightarrow> xray_stream \<Rightarrow> url_values \<Rightarrow> url_values option" where
  "xray_security_query sec s q =
    (if sec = ''none'' then Some q
     else if sec = ''tls'' then
       (let q1 = jput ''security'' ''tls'' q in
        Some (case xs_tls s of None \<Rightarrow> q1
          | Some t \<Rightarrow> set_nonempty ''fp'' (xt_fingerprint t) (set_nonempty ''sni'' (xt_server_name t) q1)))
     else if sec = ''reality'' then
       map_option (\<lambda>r. jput ''sid'' (xr_short_id r) (jput ''pbk'' (xr_public_key r) (jput ''fp'' (xr_fingerprint r)
         (jput ''sni'' (xr_server_name r) (jput ''security'' ''reality'' q))))) (xs_reality s)
     else None)"

definition applyXrayStream :: "xray_stream option \<Rightarrow> url_values \<Rightarrow> url_values option" where
  "applyXrayStream sc q = (case sc of
     None \<Rightarrow> Some q
   | Some s \<Rightarrow> (case xrayStreamKind sc of (network, sec) \<Rightarrow>
       (case xray_transport_query network s q of None \<Rightarrow> None | Some q1 \<Rightarrow> xray_security_query sec s q1)))"

definition xrayVmessBody :: "string \<Rightarrow> u16 \<Rightarrow> string \<Rightarrow> int \<Rightarrow> string \<Rightarrow> xray_stream option \<Rightarrow> json obj option" where
  "xrayVmessBody addr port i aid scy sc =
    (let body = [(''v'', JStr ''2''), (''add'', JStr addr), (''port'', JInt (uint port)), (''id'', JStr i), (''aid'', JInt aid), (''scy'', JStr scy)] in
     case sc of
       None \<Rightarrow> Some body
     | Some s \<Rightarrow> (case xrayStreamKind sc of (network, sec) \<Rightarrow>
         (case (if network = ''tcp'' then Some body
             else if network = ''ws'' then
               (let b = jput ''net'' (JStr ''ws'') body in
                Some (case xs_ws s of None \<Rightarrow> b
                  | Some ws \<Rightarrow> (let b1 = jput ''path'' (JStr (xw_path ws)) b in
                      if xrayWsHost ws \<noteq> [] then jput ''host'' (JStr (xrayWsHost ws)) b1 else b1)))
             else if network = ''grpc'' then
               (let b = jput ''net'' (JStr ''grpc'') body in
                Some (case xs_grpc s of None \<Rightarrow> b | Some g \<Rightarrow> jput ''path'' (JStr g) b))
             else None) of
           None \<Rightarrow> None
         | Some b \<Rightarrow>
             if sec = ''none'' then Some b
             else if sec = ''tls'' then
               (let b1 = jput ''tls'' (JStr ''tls'') b in
                Some (case xs_tls s of None \<Rightarrow> b1
                  | Some t \<Rightarrow> (let b2 = jput ''sni'' (JStr (xt_server_name t)) b1 in
                      if xt_fingerprint t \<noteq> [] then jput ''fp'' (JStr (xt_fingerprint t)) b2 else b2)))
             else None)))"

text \<open>Settings that are absent or do not decode yield no endpoint.\<close>

definition settings_list :: "(json \<Rightarrow> 'a decoded) \<Rightarrow> string \<Rightarrow> xray_outbound_shell \<Rightarrow> 'a list" where
  "settings_list dec k ob = (case xo_settings ob of
     None \<Rightarrow> []
   | Some j \<Rightarrow> (case dec_struct (dec_field (dec_list dec) [] k) j of Inl _ \<Rightarrow> [] | Inr xs \<Rightarrow> xs))"

record xray_vnext =
  vn_address :: string
  vn_port :: u16
  vn_users :: "json list"

definition dec_vnext :: "json \<Rightarrow> xray_vnext decoded" where
  "dec_vnext = dec_struct (\<lambda>ob.
     rbind (dec_field dec_string [] ''address'' ob) (\<lambda>address.
     rbind (dec_field (dec_uint 16) 0 ''port'' ob) (\<lambda>port.
     rbind (dec_field (dec_list Inr) [] ''users'' ob) (\<lambda>users.
     Inr \<lparr>vn_address = address, vn_port = of_nat port, vn_users = users\<rparr>))))"

definition xrayVnexts :: "xray_outbound_shell \<Rightarrow> xray_vnext list" where
  "xrayVnexts = settings_list dec_vnext ''vnext''"

definition dec_vless_user :: "json \<Rightarrow> (string \<times> string \<times> string) decoded" where
  "dec_vless_user = dec_struct (\<lambda>ob.
     rbind (dec_field dec_string [] ''id'' ob) (\<lambda>i.
     rbind (dec_field dec_string [] ''flow'' ob) (\<lambda>flow.
     rbind (dec_field dec_string [] ''encryption'' ob) (\<lambda>encryption.
     Inr (i, flow, encryption)))))"

definition xrayVlessLinks :: "xray_outbound_shell \<Rightarrow> pending_link list" where
  "xrayVlessLinks ob = List.map_filter (\<lambda>v.
     if vn_address v = [] \<or> vn_users v = [] then None
     else (case dec_vless_user (hd (vn_users v)) of
       Inl _ \<Rightarrow> None
     | Inr (i, flow, encryption) \<Rightarrow>
         if i = [] then None
         else map_option (\<lambda>q. \<lparr>pl_addr = vn_address v, pl_tag = xo_tag ob,
                pl_body = Inl (shareLink ''vless'' (url_User i) (vn_address v) (vn_port v) q [])\<rparr>)
           (applyXrayStream (xo_stream ob) (set_nonempty ''encryption'' encryption (set_nonempty ''flow'' flow []))))) (xrayVnexts ob)"

definition dec_vmess_user :: "json \<Rightarrow> (string \<times> int \<times> string) decoded" where
  "dec_vmess_user = dec_struct (\<lambda>ob.
     rbind (dec_field dec_string [] ''id'' ob) (\<lambda>i.
     rbind (dec_field (dec_int 64) 0 ''alterId'' ob) (\<lambda>aid.
     rbind (dec_field dec_string [] ''security'' ob) (\<lambda>scy.
     Inr (i, aid, scy)))))"

definition xrayVmessLinks :: "xray_outbound_shell \<Rightarrow> pending_link list" where
  "xrayVmessLinks ob = List.map_filter (\<lambda>v.
     if vn_address v = [] \<or> vn_users v = [] then None
     else (case dec_vmess_user (hd (vn_users v)) of
       Inl _ \<Rightarrow> None
     | Inr (i, aid, scy) \<Rightarrow>
         if i = [] then None
         else map_option (\<lambda>body. \<lparr>pl_addr = vn_address v, pl_tag = xo_tag ob, pl_body = Inr body\<rparr>)
           (xrayVmessBody (vn_address v) (vn_port v) i aid scy (xo_stream ob)))) (xrayVnexts ob)"

record xray_server =
  xv_address :: string
  xv_port :: u16
  xv_password :: string
  xv_method :: string

definition dec_server :: "json \<Rightarrow> xray_server decoded" where
  "dec_server = dec_struct (\<lambda>ob.
     rbind (dec_field dec_string [] ''address'' ob) (\<lambda>address.
     rbind (dec_field (dec_uint 16) 0 ''port'' ob) (\<lambda>port.
     rbind (dec_field dec_string [] ''password'' ob) (\<lambda>password.
     rbind (dec_field dec_string [] ''method'' ob) (\<lambda>cipher.
     Inr \<lparr>xv_address = address, xv_port = of_nat port, xv_password = password, xv_method = cipher\<rparr>)))))"

definition xrayServers :: "xray_outbound_shell \<Rightarrow> xray_server list" where
  "xrayServers = settings_list dec_server ''servers''"

definition xrayTrojanLinks :: "xray_outbound_shell \<Rightarrow> pending_link list" where
  "xrayTrojanLinks ob = List.map_filter (\<lambda>srv.
     if xv_address srv = [] \<or> xv_password srv = [] then None
     else map_option (\<lambda>q. \<lparr>pl_addr = xv_address srv, pl_tag = xo_tag ob,
            pl_body = Inl (shareLink ''trojan'' (url_User (xv_password srv)) (xv_address srv) (xv_port srv) q [])\<rparr>)
       (applyXrayStream (xo_stream ob) [])) (xrayServers ob)"

definition xrayShadowsocksLinks :: "xray_outbound_shell \<Rightarrow> pending_link list" where
  "xrayShadowsocksLinks ob = List.map_filter (\<lambda>srv.
     if xv_address srv = [] \<or> xv_method srv = [] then None
     else Some \<lparr>pl_addr = xv_address srv, pl_tag = xo_tag ob,
            pl_body = Inl (ssLink (xv_method srv) (xv_password srv) (xv_address srv) (xv_port srv) [] [] [])\<rparr>) (xrayServers ob)"

definition dec_hysteria_settings :: "json \<Rightarrow> (string \<times> u16) decoded" where
  "dec_hysteria_settings = dec_struct (\<lambda>ob.
     rbind (dec_field dec_string [] ''address'' ob) (\<lambda>address.
     rbind (dec_field (dec_uint 16) 0 ''port'' ob) (\<lambda>port.
     Inr (address, of_nat port))))"

definition hysteria2_query :: "xray_tls option \<Rightarrow> (string \<times> string option) list \<Rightarrow> url_values" where
  "hysteria2_query tc masks =
     fold (\<lambda>(ty, pw) q. if ty = ''salamander'' then (case pw of Some w \<Rightarrow> jput ''obfs-password'' w (jput ''obfs'' ty q) | None \<Rightarrow> q) else q) masks
       (case tc of None \<Rightarrow> []
        | Some t \<Rightarrow> set_nonempty ''pinSHA256'' (xt_pinned t) (set_flag ''insecure'' (xt_allow_insecure t) (set_nonempty ''sni'' (xt_server_name t) [])))"

definition hysteria1_query :: "string \<Rightarrow> xray_tls option \<Rightarrow> url_values" where
  "hysteria1_query auth tc = (let q = set_nonempty ''auth'' auth [] in case tc of
     None \<Rightarrow> q
   | Some t \<Rightarrow> set_alpn (xt_alpn t) (set_flag ''insecure'' (xt_allow_insecure t) (set_nonempty ''peer'' (xt_server_name t) q)))"

definition xrayHysteriaLinks :: "xray_outbound_shell \<Rightarrow> pending_link list" where
  "xrayHysteriaLinks ob = (case xo_settings ob of
     None \<Rightarrow> []
   | Some j \<Rightarrow> (case dec_hysteria_settings j of
       Inl _ \<Rightarrow> []
     | Inr (address, port) \<Rightarrow>
        (let tc = (case xo_stream ob of None \<Rightarrow> None | Some sc \<Rightarrow> xs_tls sc);
             masks = (case xo_stream ob of None \<Rightarrow> [] | Some sc \<Rightarrow> xs_udp_masks sc);
             (version, auth) = (case xo_stream ob of None \<Rightarrow> (0, []) | Some sc \<Rightarrow> (case xs_hysteria sc of None \<Rightarrow> (0, []) | Some va \<Rightarrow> va));
             pend = (\<lambda>link. [\<lparr>pl_addr = address, pl_tag = xo_tag ob, pl_body = Inl link\<rparr>])
         in if address = [] then []
            else if version = 2 then
              pend (shareLink ''hysteria2'' (if auth \<noteq> [] then url_User auth else []) address port (hysteria2_query tc masks) [])
            else if version = 0 \<or> version = 1 then pend (shareLink ''hysteria'' [] address port (hysteria1_query auth tc) [])
            else [])))"

definition convertXrayOutbound :: "xray_outbound_shell \<Rightarrow> pending_link list" where
  "convertXrayOutbound ob = (let protocol = ToLower (xo_protocol ob) in
     if protocol = ''vless'' then xrayVlessLinks ob
     else if protocol = ''vmess'' then xrayVmessLinks ob
     else if protocol = ''trojan'' then xrayTrojanLinks ob
     else if protocol = ''shadowsocks'' then xrayShadowsocksLinks ob
     else if protocol = ''hysteria'' then xrayHysteriaLinks ob
     else [])"

section \<open>Entries and balancer groups\<close>

definition xray_pending :: "core_env \<Rightarrow> xray_profile_entry \<Rightarrow> pending_link list" where
  "xray_pending cenv doc = concat (map (\<lambda>raw. case dec_shell cenv raw of
     Inl _ \<Rightarrow> []
   | Inr ob \<Rightarrow> if ToLower (xo_protocol ob) \<in> set xrayNonProxy then [] else convertXrayOutbound ob) (xe_outbounds doc))"

definition member_name :: "xray_profile_entry \<Rightarrow> bool \<Rightarrow> pending_link \<Rightarrow> string" where
  "member_name doc suffix p =
    (let name = (if xe_remarks doc \<noteq> [] then xe_remarks doc else if pl_tag p \<noteq> [] then pl_tag p else pl_addr p)
     in if suffix then name @ [CHR '' '', CHR 0xC2, CHR 0xB7, CHR '' ''] @ pl_addr p else name)"

definition tagHasPrefix :: "string \<Rightarrow> string list \<Rightarrow> bool" where
  "tagHasPrefix tag selector = list_ex (\<lambda>s. s \<noteq> [] \<and> HasPrefix tag s) selector"

definition dec_probe :: "sub_env \<Rightarrow> string \<Rightarrow> string \<Rightarrow> json obj \<Rightarrow> group_probe decoded" where
  "dec_probe env url_key interval_key ob =
     rbind (dec_field dec_string [] url_key ob) (\<lambda>u.
     rbind (dec_field dec_string [] interval_key ob) (\<lambda>interval.
     Inr \<lparr>gp_url = u, gp_interval_sec = durationSeconds env interval, gp_tolerance = 0\<rparr>))"

definition zero_probe :: group_probe where
  "zero_probe = \<lparr>gp_url = [], gp_interval_sec = 0, gp_tolerance = 0\<rparr>"

definition xrayProbe :: "sub_env \<Rightarrow> xray_profile_entry \<Rightarrow> group_probe" where
  "xrayProbe env doc =
    (let ping = dec_struct (dec_probe env ''destination'' ''interval'');
         burst = (case xe_burst doc of None \<Rightarrow> None
           | Some j \<Rightarrow> (case dec_struct (dec_field ping (zero_probe) ''pingConfig'') j of Inl _ \<Rightarrow> None | Inr p \<Rightarrow> Some p))
     in case burst of
       Some p \<Rightarrow> p
     | None \<Rightarrow> (case xe_observatory doc of None \<Rightarrow> zero_probe
         | Some j \<Rightarrow> (case dec_struct (dec_probe env ''probeUrl'' ''probeInterval'') j of Inl _ \<Rightarrow> zero_probe | Inr p \<Rightarrow> p)))"

definition xrayGroups :: "sub_env \<Rightarrow> xray_profile_entry \<Rightarrow> pending_link list \<Rightarrow> string list \<Rightarrow> raw_group list" where
  "xrayGroups env doc pend links =
    (if xe_balancers doc = [] \<or> pend = [] then []
     else List.map_filter (\<lambda>bal.
       (let mlinks = map snd (filter (\<lambda>(p, l). tagHasPrefix (pl_tag p) (xb_selector bal)) (zip pend links));
            name = (if length (xe_balancers doc) = 1 \<and> xe_remarks doc \<noteq> [] then xe_remarks doc else xb_tag bal)
        in if mlinks = [] \<or> name = [] then None
           else Some \<lparr>rg_name = name, rg_links = mlinks, rg_probe = xrayProbe env doc\<rparr>)) (xe_balancers doc))"

definition xrayEntry :: "sub_env \<Rightarrow> core_env \<Rightarrow> xray_profile_entry \<Rightarrow> raw_entry \<times> raw_group list" where
  "xrayEntry env cenv doc =
    (let pend = xray_pending cenv doc; fromBalancer = (xe_balancers doc \<noteq> []);
         suffix = (1 < length pend \<or> fromBalancer);
         links = map (\<lambda>p. finish env p (member_name doc suffix p)) pend
     in (\<lparr>re_links = links, re_from_balancer = fromBalancer\<rparr>, xrayGroups env doc pend links))"

text \<open>The elements of the document: those of an array, or the one object.\<close>

definition xray_elements :: "sub_env \<Rightarrow> string \<Rightarrow> json list option" where
  "xray_elements env body = (let trimmed = TrimSpace body in case se_json_text env trimmed of
     None \<Rightarrow> None
   | Some j \<Rightarrow> if HasPrefix trimmed ''['' then (case j of JArr js \<Rightarrow> Some js | _ \<Rightarrow> None)
       else if HasPrefix trimmed ''{'' then Some [j] else None)"

definition parseXray :: "sub_env \<Rightarrow> core_env \<Rightarrow> format_parser" where
  "parseXray env cenv body = (case xray_elements env body of
     None \<Rightarrow> None
   | Some raws \<Rightarrow>
      (let docs = map xray_doc raws;
           heads = map (\<lambda>ob. (lenient_string (members ob) ''protocol'', lenient_string (members ob) ''type'')) (concat (map xe_outbounds docs))
       in if list_ex (\<lambda>(protocol, ty). ty \<noteq> [] \<and> protocol = []) heads \<or> \<not> list_ex (\<lambda>(protocol, ty). protocol \<noteq> []) heads then None
          else (let egs = map (xrayEntry env cenv) docs in Some (map fst egs, concat (map snd egs)))))"

section \<open>The chain\<close>

definition chain :: "sub_env \<Rightarrow> clash_env \<Rightarrow> core_env \<Rightarrow> (sub_format \<times> format_parser) list" where
  "chain env yenv cenv = [(FormatSingBox, parseSingBox env cenv), (FormatXray, parseXray env cenv), (FormatSIP008, parseSIP008 env),
     (FormatClash, parseClash env yenv), (FormatLinks, parseLinks)]"

definition Parse :: "sub_env \<Rightarrow> clash_env \<Rightarrow> core_env \<Rightarrow> (nat \<Rightarrow> string) \<Rightarrow> string \<Rightarrow> string \<Rightarrow> sub_format \<Rightarrow> string + outcome" where
  "Parse env yenv cenv newid body subID format = Parse_chain env newid (chain env yenv cenv) (TrimPrefix body bom) subID format"

section \<open>The core dialects keep the contract\<close>

lemma map_filter_mem: "y \<in> set (List.map_filter f xs) \<longleftrightarrow> (\<exists>x \<in> set xs. f x = Some y)"
  by (force simp: List.map_filter_def)

lemma link_by_tag_links:
  "jget (link_by_tag env obs) t = Some l \<Longrightarrow> \<exists>ob \<in> set obs. ob_type ob \<notin> set singBoxInfra \<and> singBoxLink env ob = Some l"
  unfolding link_by_tag_def jget_to_map
  by (drule map_of_SomeD) (auto simp: map_filter_mem split: if_splits)

lemma singbox_group_links: "singbox_group m ob = Some g \<Longrightarrow> l \<in> set (rg_links g) \<Longrightarrow> \<exists>t. jget m t = Some l"
  by (cases "ob_options ob") (auto simp: singbox_group_def Let_def map_filter_mem split: if_splits)

lemma singBoxGroups_links:
  assumes "g \<in> set (singBoxGroups env obs)"
  shows "set (rg_links g) \<subseteq> (\<Union>ob \<in> {ob \<in> set obs. ob_type ob \<notin> set singBoxInfra}. set (re_links (singBoxEntry env ob)))"
proof
  fix l assume "l \<in> set (rg_links g)"
  then obtain t where "jget (link_by_tag env obs) t = Some l"
    using assms singbox_group_links by (fastforce simp: singBoxGroups_def map_filter_mem)
  from link_by_tag_links [OF this]
  show "l \<in> (\<Union>ob \<in> {ob \<in> set obs. ob_type ob \<notin> set singBoxInfra}. set (re_links (singBoxEntry env ob)))"
    by (force simp: singBoxEntry_def)
qed

lemma singbox_fallback_entry:
  "snd (singbox_fallback env cenv raw) = Some ob \<Longrightarrow> ob_type ob \<notin> set singBoxInfra \<Longrightarrow>
    fst (singbox_fallback env cenv raw) = Some (singBoxEntry env ob)"
  by (auto simp: singbox_fallback_def Let_def split: if_splits option.splits)

interpretation singbox: dialect "parseSingBox env cenv" for env cenv
proof unfold_locales
  fix body entries groups g
  assume parse: "parseSingBox env cenv body = Some (entries, groups)" and g: "g \<in> set groups"
  then consider (strict) obs where "entries = map (singBoxEntry env) (filter (\<lambda>ob. ob_type ob \<notin> set singBoxInfra) obs)"
      "groups = singBoxGroups env obs"
    | (fallback) raws where "entries = List.map_filter fst (map (singbox_fallback env cenv) raws)"
      "groups = singBoxGroups env (List.map_filter snd (map (singbox_fallback env cenv) raws))"
    by (auto simp: parseSingBox_def Let_def split: option.splits sum.splits if_splits)
  then show "set (rg_links g) \<subseteq> (\<Union>e \<in> set entries. set (re_links e))"
  proof cases
    case strict
    then show ?thesis using singBoxGroups_links [of g env obs] g by auto
  next
    case fallback
    let ?obs = "List.map_filter snd (map (singbox_fallback env cenv) raws)"
    have "singBoxEntry env ob \<in> set entries" if "ob \<in> set ?obs" "ob_type ob \<notin> set singBoxInfra" for ob
      using that singbox_fallback_entry [of env cenv _ ob] by (fastforce simp: fallback(1) map_filter_mem)
    then show ?thesis using singBoxGroups_links [of g env ?obs] g fallback(2) by blast
  qed
qed

lemma xrayGroups_links: "g \<in> set (xrayGroups env doc pend links) \<Longrightarrow> set (rg_links g) \<subseteq> set links"
proof -
  assume "g \<in> set (xrayGroups env doc pend links)"
  then obtain P where "rg_links g = map snd (filter P (zip pend links))"
    by (auto simp: xrayGroups_def map_filter_mem Let_def split: if_splits)
  then show ?thesis by (auto dest: set_zip_rightD)
qed

interpretation xray: dialect "parseXray env cenv" for env cenv
proof unfold_locales
  fix body entries groups g
  assume parse: "parseXray env cenv body = Some (entries, groups)" and g: "g \<in> set groups"
  obtain raws where "entries = map fst (map (xrayEntry env cenv) (map xray_doc raws))"
      "groups = concat (map snd (map (xrayEntry env cenv) (map xray_doc raws)))"
    using parse unfolding parseXray_def Let_def by (auto split: option.splits if_splits)
  then obtain docs where *: "entries = map fst (map (xrayEntry env cenv) docs)" "groups = concat (map snd (map (xrayEntry env cenv) docs))"
    by blast
  then obtain doc where doc: "doc \<in> set docs" "g \<in> set (snd (xrayEntry env cenv doc))" using g by auto
  have "set (rg_links g) \<subseteq> set (re_links (fst (xrayEntry env cenv doc)))"
    using doc(2) xrayGroups_links by (fastforce simp: xrayEntry_def Let_def)
  then show "set (rg_links g) \<subseteq> (\<Union>e \<in> set entries. set (re_links e))" using doc(1) by (auto simp: *(1))
qed

lemma chain_dialects: "(f, parse) \<in> set (chain env yenv cenv) \<Longrightarrow> dialect parse"
  by (auto simp: chain_def singbox.dialect_axioms xray.dialect_axioms sip008.dialect_axioms clash.dialect_axioms links.dialect_axioms)

lemma Parse_Inr:
  assumes "Parse env yenv cenv newid body subID format = Inr r"
  obtains f parse entries groups where "(f, parse) \<in> set (chain env yenv cenv)" "format = FormatAuto \<or> format = f"
    "parse (TrimPrefix body bom) = Some (entries, groups)" "r = collect env newid f entries groups subID" "oc_nodes r \<noteq> []"
  using Parse_chain_Inr [OF assms [unfolded Parse_def]] by blast

lemma Parse_chain_auto:
  "FormatAuto \<notin> fst ` set cs \<Longrightarrow> Parse_chain env newid cs body subID FormatAuto =
    (case List.find (\<lambda>(f, parse). parse body \<noteq> None) cs of
       None \<Rightarrow> Parse_chain env newid [] body subID FormatAuto
     | Some (f, parse) \<Rightarrow> Parse_chain env newid [(f, parse)] body subID f)"
  by (induction cs) (auto split: option.splits)

lemma Parse_chain_pinned:
  "(f, parse) \<in> set cs \<Longrightarrow> distinct (map fst cs) \<Longrightarrow> FormatAuto \<notin> fst ` set cs \<Longrightarrow>
    Parse_chain env newid [(f, parse)] body subID f = Parse_chain env newid cs body subID f"
proof (induction cs)
  case (Cons c cs)
  obtain f' parse' where c: "c = (f', parse')" by (cases c)
  show ?case
  proof (cases "f' = f")
    case True
    then have "parse' = parse" using Cons.prems(1,2) c by (auto simp: image_iff)
    then show ?thesis using True c Cons.prems by (auto split: option.splits)
  next
    case False
    then have "(f, parse) \<in> set cs" "f \<noteq> FormatAuto" using Cons.prems c by force+
    then show ?thesis using False c Cons by simp
  qed
qed simp

section \<open>Properties\<close>

text \<open>
  C32. A body that parses, in any dialect, yields a well-formed outcome: at least one node; every node belongs to
  the subscription, can be stored and is dialable by the core selection picks for it; no two nodes share their
  refresh identity; the groups have distinct names and non-empty memberships made of collected nodes.
\<close>

theorem parse_outcome_wf:
  assumes "Parse env yenv cenv newid body subID format = Inr r"
  shows "oc_nodes r \<noteq> [] \<and> list_all (usable_node subID) (oc_nodes r) \<and> distinct (map nodeKey (oc_nodes r)) \<and>
    map nd_id (oc_nodes r) = map newid [0..<length (oc_nodes r)] \<and> distinct (map go_name (oc_groups r)) \<and>
    list_all (\<lambda>g. go_member_keys g \<noteq> [] \<and> distinct (go_member_keys g) \<and>
      Some ` set (go_member_keys g) \<subseteq> nodeKey ` set (oc_nodes r)) (oc_groups r)"
  using assms
proof (rule Parse_Inr)
  fix f parse entries groups
  assume r: "r = collect env newid f entries groups subID" "oc_nodes r \<noteq> []"
  show ?thesis using r(2) collect_sound [where subID = subID and env = env and newid = newid and f = f and entries = entries and groups = groups] by (simp add: r(1) list_all_iff)
qed

text \<open>
  Nothing the document carries disappears silently: the nodes, the duplicates and the carrier hosts
  (dedicated entries named like a group) together are exactly the links that parsed, and the unrecognized entries
  are those with none.
\<close>

theorem parse_accounts:
  assumes "Parse env yenv cenv newid body subID format = Inr r"
  shows "\<exists>parse entries groups. (oc_format r, parse) \<in> set (chain env yenv cenv) \<and> parse (TrimPrefix body bom) = Some (entries, groups) \<and>
    oc_entries r = length entries \<and>
    length (oc_nodes r) + oc_duplicates r + length (filter (is_carrier env groups) entries) =
      sum_list (map (\<lambda>e. length (parsed_links env (re_links e))) entries) \<and>
    oc_unrecognized r = length (filter (\<lambda>e. parsed_links env (re_links e) = []) entries)"
  using assms
proof (rule Parse_Inr)
  fix f parse entries groups
  assume *: "(f, parse) \<in> set (chain env yenv cenv)" "parse (TrimPrefix body bom) = Some (entries, groups)"
    "r = collect env newid f entries groups subID"
  have "oc_format r = f" "oc_entries r = length entries"
      "oc_unrecognized r = length (filter (\<lambda>e. parsed_links env (re_links e) = []) entries)"
    by (simp_all add: *(3) collect_def Let_def)
  moreover have "length (oc_nodes r) + oc_duplicates r + length (filter (is_carrier env groups) entries) =
      sum_list (map (\<lambda>e. length (parsed_links env (re_links e))) entries)"
    using collect_accounting [of env newid f entries groups subID] by (simp add: *(3) length_concat comp_def)
  ultimately show ?thesis using *(1,2) by blast
qed

text \<open>
  Detection is decided by the first dialect of the chain that recognises the body: its result, an error
  included, is the result. A body it claims without usable nodes is never handed on to a laxer dialect.
\<close>

theorem parse_first_claim:
  "Parse env yenv cenv newid body subID FormatAuto =
    (case List.find (\<lambda>(f, parse). parse (TrimPrefix body bom) \<noteq> None) (chain env yenv cenv) of
       None \<Rightarrow> Inl ''unrecognized subscription format (not share links, base64, xray/sing-box JSON, SIP008 or clash YAML)''
     | Some (f, _) \<Rightarrow> Parse env yenv cenv newid body subID f)"
proof -
  let ?P = "\<lambda>(f :: sub_format, parse :: format_parser). parse (TrimPrefix body bom) \<noteq> None" and ?c = "chain env yenv cenv"
  have pin: "Parse_chain env newid [(f, parse)] b subID f = Parse_chain env newid ?c b subID f"
    if "(f, parse) \<in> set ?c" for f parse b
    using that by (intro Parse_chain_pinned) (simp_all add: chain_def)
  have auto: "FormatAuto \<notin> fst ` set ?c" by (simp add: chain_def)
  show ?thesis
  proof (cases "List.find ?P ?c")
    case None
    then show ?thesis by (simp add: Parse_def Parse_chain_auto [OF auto])
  next
    case (Some x)
    obtain f parse where x: "x = (f, parse)" by (cases x)
    have "(f, parse) \<in> set ?c" "parse (TrimPrefix body bom) \<noteq> None" using find_SomeD [OF Some] x by auto
    then show ?thesis using Some x by (simp add: Parse_def Parse_chain_auto [OF auto] pin del: Parse_chain.simps)
  qed
qed

text \<open>
  A group keeps its members: whatever the dialect, a link of a group that parses and is not named like a group is
  one of the collected nodes, so freezing the membership drops no resolvable member.
\<close>

theorem group_member_kept:
  assumes "(f, parse) \<in> set (chain env yenv cenv)" and "parse body = Some (entries, groups)" and "g \<in> set groups"
    and "l \<in> set (rg_links g)" and "ParseURL (se_url_parse env) (se_json_text env) l = Inr p" and "DisplayName p \<notin> rg_name ` set groups"
  shows "Some (profileKey p) \<in> nodeKey ` set (oc_nodes (collect env newid f entries groups subID))"
  using dialect.member_kept [OF chain_dialects [OF assms(1)] assms(2-6)] .

section \<open>Concrete documents\<close>

definition sample_sub_env :: sub_env where
  "sample_sub_env = \<lparr>se_url_parse = \<lambda>_. Some sample_url, se_json_text = \<lambda>_. None, se_json_print = \<lambda>_. [], se_duration = \<lambda>_. None,
     se_integral = \<lambda>_. None, se_wide_uint32 = \<lambda>_. 0\<rparr>"

definition sample_clash_env :: clash_env where
  "sample_clash_env = \<lparr>ce_yaml = \<lambda>_. Some ([[(''type'', YStr ''anytls''), (''name'', YStr ''a''), (''server'', YStr ''h''), (''port'', YInt 8), (''password'', YStr ''p'')]],
     [[(''type'', YStr ''url-test''), (''name'', YStr ''G''), (''proxies'', YSeq [YStr ''a''])]]), ce_regexp = \<lambda>_. None\<rparr>"

definition sample_core_env :: core_env where
  "sample_core_env = \<lparr>co_options = \<lambda>_. None, co_outbound = \<lambda>_. None, co_stream = \<lambda>_. Inl BadType\<rparr>"

lemma sample_link: "\<exists>c. ParseURL (se_url_parse sample_sub_env) (se_json_text sample_sub_env) l = Inr (Vless c) \<and> vl_server_name c = ''New Profile''"
  by (simp add: sample_sub_env_def ParseURL_def byScheme_def parseVlessURL_def require_host_def port_or_def sample_url_def sample_port
      parse_security_def parse_transport_def query_get_def plain_security_def plain_transport_def Let_def name_or_def)

lemma sample_clash: "parseClash sample_sub_env sample_clash_env body =
    Some ([\<lparr>re_links = [''anytls://p@h:8#a''], re_from_balancer = False\<rparr>],
      [\<lparr>rg_name = ''G'', rg_links = [''anytls://p@h:8#a''], rg_probe = zero_probe\<rparr>])"
  by (simp add: parseClash_def sample_clash_env_def jget_def clashGroups_def List.map_filter_def clash_group_def clashString_def
      group_filter_def clashStrings_def link_by_name_def clashLinks_def clashPort_def clashAnyTLS_def clashBool_def set_nonempty_def
      addMember_def clashReserved_def clashInt_def clamp_tolerance_def zero_probe_def shareLink_def url_User_def user_escape_def unreserved_def
      JoinHostPort_def QueryEscape_def digit_char_def Let_def FormatUint.simps [of 10 8] char_of_def bit_0)

abbreviation sample_parse :: "string + outcome" where
  "sample_parse \<equiv> Parse sample_sub_env sample_clash_env sample_core_env (\<lambda>n. ''id'') [] ''s'' FormatClash"

lemma sample_parse_ok: "\<exists>r. sample_parse = Inr r"
proof -
  obtain c where c: "ParseURL (se_url_parse sample_sub_env) (se_json_text sample_sub_env) ''anytls://p@h:8#a'' = Inr (Vless c)"
      "vl_server_name c = ''New Profile''"
    using sample_link by blast
  have "parsed_links sample_sub_env [''anytls://p@h:8#a''] = [Vless c]"
    by (simp add: parsed_links_def List.map_filter_def c(1))
  then show ?thesis
    by (simp add: Parse_def chain_def sample_clash collect_def collect_nodes_def pass1_def pass2_def add_profile_def
        accessors_defs c(2) Let_def)
qed

theorem parse_outcome_wf_witness:
  "\<exists>r. sample_parse = Inr r \<and> oc_nodes r \<noteq> [] \<and> list_all (usable_node ''s'') (oc_nodes r) \<and> distinct (map nodeKey (oc_nodes r))"
  using sample_parse_ok parse_outcome_wf by blast

theorem parse_accounts_witness:
  "\<exists>r entries groups. sample_parse = Inr r \<and> length (oc_nodes r) + oc_duplicates r + length (filter (is_carrier sample_sub_env groups) entries) =
      sum_list (map (\<lambda>e. length (parsed_links sample_sub_env (re_links e))) entries) \<and> oc_entries r = length entries"
proof -
  obtain r where r: "sample_parse = Inr r" using sample_parse_ok by blast
  from parse_accounts [OF this] r show ?thesis by blast
qed

theorem group_member_kept_witness:
  "\<exists>p. ParseURL (se_url_parse sample_sub_env) (se_json_text sample_sub_env) ''anytls://p@h:8#a'' = Inr p \<and>
    Some (profileKey p) \<in> nodeKey ` set (oc_nodes (collect sample_sub_env (\<lambda>n. ''id'') FormatClash
      [\<lparr>re_links = [''anytls://p@h:8#a''], re_from_balancer = False\<rparr>]
      [\<lparr>rg_name = ''G'', rg_links = [''anytls://p@h:8#a''], rg_probe = zero_probe\<rparr>] ''s''))"
proof -
  obtain c where c: "ParseURL (se_url_parse sample_sub_env) (se_json_text sample_sub_env) ''anytls://p@h:8#a'' = Inr (Vless c)"
      "vl_server_name c = ''New Profile''"
    using sample_link by blast
  have "(FormatClash, parseClash sample_sub_env sample_clash_env) \<in> set (chain sample_sub_env sample_clash_env sample_core_env)"
    by (simp add: chain_def)
  from group_member_kept [OF this sample_clash _ _ c(1)] c show ?thesis by (simp add: accessors_defs)
qed

end
