(* ===== verification/Sub_Apply.thy ===== *)
theory Sub_Apply
  imports Sub_Cores
begin

text \<open>
  Fetching a subscription and landing the result on a profile
  (\<^verbatim>\<open>daemon-go/internal/subscription/subscription.go\<close>).

  The HTTP exchange is an argument (\<open>fetch_env\<close>), as are the clock, the fresh ids and \<^verbatim>\<open>uuid.FromName\<close>.
  An operation that dereferences the profile of a node without one returns \<open>None\<close>: the daemon panics there.

  Main results: a stale, failed or unparsable fetch leaves the nodes as they were; a refresh touches the nodes
  of its own subscription only, keeps node ids unique, and a node that is still in the
  document keeps its id, its core override and the selection; the exact condition of the panic.
\<close>

section \<open>Fetching\<close>

text \<open>
  \<open>fe_http\<close> is one GET (URL, whether invalid certificates are accepted, user agent): a transport error, or the
  status and the body or the error of reading it. \<open>fe_path\<close> and \<open>fe_with_path\<close> read and replace the path of a URL.
\<close>

record fetch_env =
  fe_http :: "string \<Rightarrow> bool \<Rightarrow> string \<Rightarrow> string + (nat \<times> (string + string))"
  fe_url_error :: "string \<Rightarrow> string"
  fe_path :: "string \<Rightarrow> string"
  fe_with_path :: "string \<Rightarrow> string \<Rightarrow> string"

type_synonym parsers = "sub_env \<times> clash_env \<times> core_env"

fun parse_body :: "parsers \<Rightarrow> (nat \<Rightarrow> string) \<Rightarrow> string \<Rightarrow> string \<Rightarrow> sub_format \<Rightarrow> string + outcome" where
  "parse_body (env, yenv, cenv) newid body subID format = Parse env yenv cenv newid body subID format"

abbreviation DefaultUserAgent :: string where "DefaultUserAgent \<equiv> ''v2rayN/6.23''"

definition Fetch :: "parsers \<Rightarrow> fetch_env \<Rightarrow> string \<Rightarrow> bool \<Rightarrow> string \<Rightarrow> string + string" where
  "Fetch ps fenv subURL allowInvalidCerts ua = (case se_url_parse (fst ps) subURL of
     None \<Rightarrow> Inl (fe_url_error fenv subURL)
   | Some u \<Rightarrow>
      if u_scheme u \<noteq> ''https'' \<and> u_scheme u \<noteq> ''http'' then Inl ''subscription must be a HTTP(s) link''
      else (case fe_http fenv subURL allowInvalidCerts (if ua = [] then DefaultUserAgent else ua) of
        Inl e \<Rightarrow> Inl e
      | Inr (code, body) \<Rightarrow>
          if code < 200 \<or> 299 < code then Inl (''subscription fetch: HTTP '' @ FormatUint 10 code) else body))"

definition knownClientSuffixes :: "string list" where
  "knownClientSuffixes = [''json'', ''v2ray-json'', ''clash'', ''mihomo'', ''singbox'', ''singbox-legacy'', ''sing-box'', ''stash'', ''base64'']"

definition jsonCandidateURL :: "parsers \<Rightarrow> fetch_env \<Rightarrow> string \<Rightarrow> sub_format \<Rightarrow> string option" where
  "jsonCandidateURL ps fenv rawURL format =
    (if format \<noteq> FormatAuto \<and> format \<noteq> FormatXray then None
     else (case se_url_parse (fst ps) rawURL of
       None \<Rightarrow> None
     | Some u \<Rightarrow>
        if u_host u = [] then None
        else (let trimmed = rev (dropWhile (\<lambda>c. c = CHR ''/'') (rev (fe_path fenv rawURL)));
                  seg = (case CutLast trimmed (CHR ''/'') of Some (_, r) \<Rightarrow> r | None \<Rightarrow> trimmed)
              in if list_ex (\<lambda>s. ToLower seg = s) knownClientSuffixes then None
                 else Some (fe_with_path fenv rawURL (trimmed @ ''/json'')))))"

definition fetchSubscriptionBody :: "parsers \<Rightarrow> fetch_env \<Rightarrow> (nat \<Rightarrow> string) \<Rightarrow> subscription \<Rightarrow> sub_format \<Rightarrow> string \<Rightarrow> string + string" where
  "fetchSubscriptionBody ps fenv newid sub format ua =
    (let bare = Fetch ps fenv (sb_url sub) (sb_allow_invalid_certs sub) ua in
     case jsonCandidateURL ps fenv (sb_url sub) format of
       None \<Rightarrow> bare
     | Some candidate \<Rightarrow> (case Fetch ps fenv candidate (sb_allow_invalid_certs sub) ua of
         Inl _ \<Rightarrow> bare
       | Inr body \<Rightarrow> (case parse_body ps newid body (sb_id sub) FormatXray of
           Inl _ \<Rightarrow> bare | Inr r \<Rightarrow> if oc_nodes r \<noteq> [] then Inr body else bare)))"

record fetch_result =
  fr_sub_id :: string
  fr_name :: string
  fr_url :: string
  fr_format :: sub_format
  fr_body :: "string + string"

definition FetchSubscription :: "parsers \<Rightarrow> fetch_env \<Rightarrow> (nat \<Rightarrow> string) \<Rightarrow> subscription \<Rightarrow> string \<Rightarrow> fetch_result" where
  "FetchSubscription ps fenv newid sub ua =
    (let format = (case ParseFormat (sb_format sub) of None \<Rightarrow> FormatAuto | Some f \<Rightarrow> f)
     in \<lparr>fr_sub_id = sb_id sub, fr_name = sb_name sub, fr_url = sb_url sub, fr_format = format,
         fr_body = fetchSubscriptionBody ps fenv newid sub format ua\<rparr>)"

section \<open>Identity across refreshes\<close>

abbreviation of_sub :: "string \<Rightarrow> user_profile \<Rightarrow> node list" where
  "of_sub subID p \<equiv> filter (\<lambda>n. nd_sub_id n = Some subID) (pf_nodes p)"

definition reconcile :: "user_profile \<Rightarrow> string \<Rightarrow> node list \<Rightarrow> node list" where
  "reconcile p subID = map (\<lambda>n.
     case map_of (rev (map (\<lambda>o'. (nodeKey o', (nd_id o', nd_core_override o'))) (of_sub subID p))) (nodeKey n) of
       None \<Rightarrow> n
     | Some (i, core) \<Rightarrow> (let n' = n\<lparr>nd_id := i\<rparr> in case core of None \<Rightarrow> n' | Some c \<Rightarrow> n'\<lparr>nd_core_override := Some c\<rparr>))"

definition materialize_group :: "(string \<Rightarrow> string) \<Rightarrow> node list \<Rightarrow> string \<Rightarrow> group_out \<Rightarrow> node option" where
  "materialize_group fromName nodes subID g =
    (let mids = List.map_filter (\<lambda>k. map_of (rev (map (\<lambda>n. (nodeKey n, nd_id n)) nodes)) (Some k)) (go_member_keys g) in
     if mids = [] then None
     else Some (NewGroupNode (fromName (''group:'' @ subID @ '':'' @ go_name g))
            \<lparr>gs_name = go_name g, gs_members = mids, gs_all_of_sub = None, gs_probe = go_probe g\<rparr> (Some subID)))"

definition materializeGroups :: "(string \<Rightarrow> string) \<Rightarrow> group_out list \<Rightarrow> node list \<Rightarrow> string \<Rightarrow> node list" where
  "materializeGroups fromName groups nodes subID = List.map_filter (materialize_group fromName nodes subID) groups"

definition diffNodes :: "user_profile \<Rightarrow> string \<Rightarrow> node list \<Rightarrow> nat \<times> nat" where
  "diffNodes p subID newNodes =
    (let old = map nodeKey (filter (\<lambda>n. \<not> IsGroup n) (of_sub subID p)); fresh = map nodeKey (filter (\<lambda>n. \<not> IsGroup n) newNodes)
     in (length (filter (\<lambda>k. k \<notin> set old) fresh), length (filter (\<lambda>k. k \<notin> set fresh) (remdups old))))"

section \<open>Landing a result\<close>

record refresh_result =
  rs_sub_id :: string
  rs_name :: string
  rs_count :: nat
  rs_added :: nat
  rs_removed :: nat
  rs_skipped :: bool
  rs_discarded :: bool
  rs_err :: string
  rs_format :: string
  rs_entries :: nat
  rs_duplicates :: nat
  rs_unrecognized :: nat

definition blank_refresh :: "string \<Rightarrow> string \<Rightarrow> refresh_result" where
  "blank_refresh i name = \<lparr>rs_sub_id = i, rs_name = name, rs_count = 0, rs_added = 0, rs_removed = 0, rs_skipped = False,
     rs_discarded = False, rs_err = [], rs_format = [], rs_entries = 0, rs_duplicates = 0, rs_unrecognized = 0\<rparr>"

definition findSubscriptionByID :: "user_profile \<Rightarrow> string \<Rightarrow> subscription option" where
  "findSubscriptionByID p i = find (\<lambda>s. sb_id s = i) (pf_subscriptions p)"

text \<open>A write through the pointer \<open>findSubscriptionByID\<close> returned.\<close>

definition update_sub :: "string \<Rightarrow> (subscription \<Rightarrow> subscription) \<Rightarrow> user_profile \<Rightarrow> user_profile" where
  "update_sub i f p = p\<lparr>pf_subscriptions := update_first (\<lambda>s. sb_id s = i) f (pf_subscriptions p)\<rparr>"

text \<open>The nodes a parsed outcome lands: reconciled nodes, then reconciled groups over their ids.\<close>

definition landed_nodes :: "user_profile \<Rightarrow> string \<Rightarrow> outcome \<Rightarrow> node list" where
  "landed_nodes p subID r = reconcile p subID (oc_nodes r)"

definition landed_groups :: "(string \<Rightarrow> string) \<Rightarrow> user_profile \<Rightarrow> string \<Rightarrow> outcome \<Rightarrow> node list" where
  "landed_groups fromName p subID r = reconcile p subID (materializeGroups fromName (oc_groups r) (landed_nodes p subID r) subID)"

definition Apply :: "parsers \<Rightarrow> (nat \<Rightarrow> string) \<Rightarrow> (string \<Rightarrow> string) \<Rightarrow> int \<Rightarrow> fetch_result \<Rightarrow> user_profile \<Rightarrow> (user_profile \<times> refresh_result) option" where
  "Apply ps newid fromName now fr p =
    (let blank = blank_refresh (fr_sub_id fr) (fr_name fr);
         failed = (\<lambda>sub e. Some (update_sub (sb_id sub) (\<lambda>s. s\<lparr>sb_last_error := e\<rparr>) p, blank\<lparr>rs_name := sb_name sub, rs_err := e\<rparr>))
     in case findSubscriptionByID p (fr_sub_id fr) of
       None \<Rightarrow> Some (p, blank\<lparr>rs_discarded := True\<rparr>)
     | Some sub \<Rightarrow>
        if sb_url sub \<noteq> fr_url fr then Some (p, blank\<lparr>rs_discarded := True\<rparr>)
        else (case fr_body fr of
          Inl e \<Rightarrow> failed sub e
        | Inr body \<Rightarrow> (case parse_body ps newid body (sb_id sub) (fr_format fr) of
            Inl e \<Rightarrow> failed sub e
          | Inr r \<Rightarrow>
              if list_ex (\<lambda>n. nodeKey n = None) (of_sub (sb_id sub) p) then None
              else (let nodes = landed_nodes p (sb_id sub) r; groups = landed_groups fromName p (sb_id sub) r;
                        (added, removed) = diffNodes p (sb_id sub) (nodes @ groups)
                    in Some (update_sub (sb_id sub) (\<lambda>s. s\<lparr>sb_last_updated := now, sb_last_error := []\<rparr>)
                               (ReplaceSubscriptionNodes (sb_id sub) (nodes @ groups) p),
                             blank\<lparr>rs_name := sb_name sub, rs_count := length nodes, rs_added := added, rs_removed := removed,
                               rs_format := format_text (oc_format r), rs_entries := oc_entries r,
                               rs_duplicates := oc_duplicates r, rs_unrecognized := oc_unrecognized r\<rparr>)))))"

text \<open>The loop of \<^verbatim>\<open>Refresh\<close> over the subscription indices; every subscription draws its own fresh ids.\<close>

fun refresh_from :: "parsers \<Rightarrow> fetch_env \<Rightarrow> (nat \<Rightarrow> nat \<Rightarrow> string) \<Rightarrow> (string \<Rightarrow> string) \<Rightarrow> int \<Rightarrow> string \<Rightarrow> string \<Rightarrow> nat list \<Rightarrow>
    user_profile \<Rightarrow> (user_profile \<times> refresh_result list) option" where
  "refresh_from ps fenv newid fromName now only ua [] p = Some (p, [])"
| "refresh_from ps fenv newid fromName now only ua (i # is) p =
    (let sub = pf_subscriptions p ! i;
         rest = (\<lambda>p' rs. map_option (\<lambda>(p'', rs'). (p'', rs @ rs')) (refresh_from ps fenv newid fromName now only ua is p'))
     in if only \<noteq> [] \<and> sb_id sub \<noteq> only \<and> sb_name sub \<noteq> only then rest p []
        else if only = [] \<and> \<not> sb_enabled sub then rest p [(blank_refresh (sb_id sub) (sb_name sub))\<lparr>rs_skipped := True\<rparr>]
        else (case Apply ps (newid i) fromName now (FetchSubscription ps fenv (newid i) sub ua) p of
          None \<Rightarrow> None | Some (p', res) \<Rightarrow> rest p' [res]))"

definition Refresh :: "parsers \<Rightarrow> fetch_env \<Rightarrow> (nat \<Rightarrow> nat \<Rightarrow> string) \<Rightarrow> (string \<Rightarrow> string) \<Rightarrow> int \<Rightarrow> string \<Rightarrow> string \<Rightarrow>
    user_profile \<Rightarrow> (user_profile \<times> refresh_result list) option" where
  "Refresh ps fenv newid fromName now only ua p =
     refresh_from ps fenv newid fromName now only ua [0..<length (pf_subscriptions p)] p"

section \<open>Reconciling\<close>

definition saved_identity :: "user_profile \<Rightarrow> string \<Rightarrow> prefs_key option \<Rightarrow> (string \<times> string option) option" where
  "saved_identity p subID = map_of (rev (map (\<lambda>o'. (nodeKey o', (nd_id o', nd_core_override o'))) (of_sub subID p)))"

lemma reconcile_map: "reconcile p subID = map (\<lambda>n. case saved_identity p subID (nodeKey n) of
     None \<Rightarrow> n
   | Some (i, core) \<Rightarrow> (let n' = n\<lparr>nd_id := i\<rparr> in case core of None \<Rightarrow> n' | Some c \<Rightarrow> n'\<lparr>nd_core_override := Some c\<rparr>))"
  by (simp add: reconcile_def saved_identity_def)

lemma reconcile_append: "reconcile p subID (xs @ ys) = reconcile p subID xs @ reconcile p subID ys"
  by (simp add: reconcile_map)

lemma reconcile_keeps [simp]:
  "length (reconcile p subID ns) = length ns" "map nodeKey (reconcile p subID ns) = map nodeKey ns"
  "map nd_sub_id (reconcile p subID ns) = map nd_sub_id ns" "map nd_group (reconcile p subID ns) = map nd_group ns"
  by (simp_all add: reconcile_map nodeKey_def Let_def split: option.splits)

lemma reconcile_ids:
  "map nd_id (reconcile p subID ns) =
    map (\<lambda>n. case saved_identity p subID (nodeKey n) of None \<Rightarrow> nd_id n | Some (i, core) \<Rightarrow> i) ns"
  by (simp add: reconcile_map Let_def split: option.splits)

lemma saved_identity_Some:
  "saved_identity p subID k = Some (i, core) \<Longrightarrow> \<exists>n \<in> set (of_sub subID p). nodeKey n = k \<and> nd_id n = i \<and> nd_core_override n = core"
  unfolding saved_identity_def by (drule map_of_SomeD) auto

lemma saved_identity_None: "saved_identity p subID k = None \<longleftrightarrow> k \<notin> nodeKey ` set (of_sub subID p)"
  by (simp add: saved_identity_def map_of_eq_None_iff image_image)

lemma saved_identity_distinct:
  "distinct (map nodeKey (of_sub subID p)) \<Longrightarrow> n \<in> set (of_sub subID p) \<Longrightarrow> saved_identity p subID (nodeKey n) = Some (nd_id n, nd_core_override n)"
  unfolding saved_identity_def by (rule map_of_is_SomeI) (auto simp: rev_map [symmetric] comp_def)

text \<open>Reconciled nodes have distinct ids when fresh ids are unused, unless they already belong to the same node.\<close>

lemma reconcile_distinct:
  assumes keys: "distinct (map nodeKey ns)" and ids: "distinct (map nd_id ns)" and old: "distinct (node_ids p)"
    and fresh: "\<And>n. n \<in> set ns \<Longrightarrow> nd_id n \<in> set (node_ids p) \<Longrightarrow> nodeKey n \<in> nodeKey ` set (of_sub subID p)"
  shows "distinct (map nd_id (filter (\<lambda>n. nd_sub_id n \<noteq> Some subID) (pf_nodes p) @ reconcile p subID ns))"
proof -
  let ?f = "\<lambda>n. case saved_identity p subID (nodeKey n) of None \<Rightarrow> nd_id n | Some (i, core) \<Rightarrow> i"
  have inj: "m = n" if "m \<in> set (pf_nodes p)" "n \<in> set (pf_nodes p)" "nd_id m = nd_id n" for m n
    using old that by (simp add: distinct_map inj_on_def)
  have dom: "?f n \<in> set (node_ids p) \<longleftrightarrow> saved_identity p subID (nodeKey n) \<noteq> None" if "n \<in> set ns" for n
  proof (cases "saved_identity p subID (nodeKey n)")
    case None
    then have "nodeKey n \<notin> nodeKey ` set (of_sub subID p)" using saved_identity_None [of p subID "nodeKey n"] by blast
    then have "nd_id n \<notin> set (node_ids p)" using fresh [OF that] by blast
    with None show ?thesis by simp
  next
    case (Some x)
    then obtain n' where "n' \<in> set (of_sub subID p)" "nd_id n' = fst x"
      using saved_identity_Some [of p subID "nodeKey n" "fst x" "snd x"] by auto
    then have "fst x \<in> set (node_ids p)" by (auto intro!: image_eqI [of _ _ n'])
    with Some show ?thesis by (simp add: split_beta)
  qed
  have "inj_on ?f (set ns)"
  proof (rule inj_onI)
    fix m n assume mn: "m \<in> set ns" "n \<in> set ns" and eq: "?f m = ?f n"
    show "m = n"
    proof (cases "saved_identity p subID (nodeKey m)")
      case None
      then have "saved_identity p subID (nodeKey n) = None" using dom mn eq by (metis (no_types, lifting))
      then show ?thesis using None eq ids mn by (simp add: distinct_map inj_on_def)
    next
      case (Some x)
      then obtain y where y: "saved_identity p subID (nodeKey n) = Some y" using dom mn eq by (metis (no_types, lifting) option.exhaust)
      obtain m' where "m' \<in> set (pf_nodes p)" "nodeKey m' = nodeKey m" "nd_id m' = fst x"
        using saved_identity_Some [of p subID "nodeKey m" "fst x" "snd x"] Some by auto
      moreover obtain n' where "n' \<in> set (pf_nodes p)" "nodeKey n' = nodeKey n" "nd_id n' = fst y"
        using saved_identity_Some [of p subID "nodeKey n" "fst y" "snd y"] y by auto
      moreover have "fst x = fst y" using eq Some y by (simp add: split_beta)
      ultimately have "nodeKey m = nodeKey n" using inj by metis
      then show ?thesis using keys mn by (simp add: distinct_map inj_on_def)
    qed
  qed
  moreover have "distinct ns" using keys by (simp add: distinct_map)
  ultimately have "distinct (map nd_id (reconcile p subID ns))" by (simp add: reconcile_ids distinct_map)
  moreover have "nd_id m \<noteq> ?f n" if m: "m \<in> set (pf_nodes p)" "nd_sub_id m \<noteq> Some subID" and n: "n \<in> set ns" for m n
  proof
    assume eq: "nd_id m = ?f n"
    then have "?f n \<in> set (node_ids p)" using m(1) by (metis image_eqI list.set_map)
    then obtain x where x: "saved_identity p subID (nodeKey n) = Some x" using dom [OF n] by auto
    then obtain n' where "n' \<in> set (pf_nodes p)" "nd_sub_id n' = Some subID" "nd_id n' = fst x"
      using saved_identity_Some [of p subID "nodeKey n" "fst x" "snd x"] by auto
    then show False using inj [OF m(1)] eq x m(2) by (simp add: split_beta)
  qed
  ultimately show ?thesis
    using old reconcile_ids [of p subID ns, THEN arg_cong [where f = set]]
    by (simp add: distinct_map_filter) blast
qed

section \<open>What lands\<close>

abbreviation group_key :: "string \<Rightarrow> prefs_key" where
  "group_key name \<equiv> \<lparr>pk_kind = ''group'', pk_identity = name, pk_address = [], pk_port = 0, pk_transport = [], pk_security = []\<rparr>"

lemma Kind_not_group: "Kind p \<noteq> ''group''"
  by (cases p) (simp_all add: accessors_defs)

lemma materialize_group_Some:
  assumes "materialize_group fromName nodes subID g = Some n"
  shows "nd_id n = fromName (''group:'' @ subID @ '':'' @ go_name g)" "nodeKey n = Some (group_key (go_name g))"
    "nd_sub_id n = Some subID" "IsGroup n" "\<exists>spec. nd_group n = Some spec \<and> gs_members spec \<noteq> [] \<and> set (gs_members spec) \<subseteq> nd_id ` set nodes"
proof -
  define mids where "mids = List.map_filter (\<lambda>k. map_of (rev (map (\<lambda>n. (nodeKey n, nd_id n)) nodes)) (Some k)) (go_member_keys g)"
  have n: "mids \<noteq> []" "n = NewGroupNode (fromName (''group:'' @ subID @ '':'' @ go_name g))
            \<lparr>gs_name = go_name g, gs_members = mids, gs_all_of_sub = None, gs_probe = go_probe g\<rparr> (Some subID)"
    using assms by (simp_all add: materialize_group_def mids_def [symmetric] Let_def split: if_splits)
  have "set mids \<subseteq> nd_id ` set nodes" unfolding mids_def by (auto simp: map_filter_mem dest!: map_of_SomeD)
  then show "nd_id n = fromName (''group:'' @ subID @ '':'' @ go_name g)" "nodeKey n = Some (group_key (go_name g))"
    "nd_sub_id n = Some subID" "IsGroup n" "\<exists>spec. nd_group n = Some spec \<and> gs_members spec \<noteq> [] \<and> set (gs_members spec) \<subseteq> nd_id ` set nodes"
    using n by (simp_all add: NewGroupNode_def nodeKey_def IsGroup_def)
qed

lemma materializeGroups_node:
  "n \<in> set (materializeGroups fromName gs nodes subID) \<Longrightarrow> \<exists>g \<in> set gs. materialize_group fromName nodes subID g = Some n"
  by (simp add: materializeGroups_def map_filter_mem)

lemma map_filter_map: "(\<And>x y. f x = Some y \<Longrightarrow> g y = h x) \<Longrightarrow> map g (List.map_filter f xs) = map h (filter (\<lambda>x. f x \<noteq> None) xs)"
  by (induction xs) (auto simp: List.map_filter_simps split: option.splits)

lemma materializeGroups_ids:
  "\<exists>gs'. set gs' \<subseteq> set gs \<and> (distinct (map go_name gs) \<longrightarrow> distinct (map go_name gs')) \<and>
    map nd_id (materializeGroups fromName gs nodes subID) = map (\<lambda>g. fromName (''group:'' @ subID @ '':'' @ go_name g)) gs' \<and>
    map nodeKey (materializeGroups fromName gs nodes subID) = map (\<lambda>g. Some (group_key (go_name g))) gs'"
  unfolding materializeGroups_def
  by (intro exI [of _ "filter (\<lambda>g. materialize_group fromName nodes subID g \<noteq> None) gs"] conjI map_filter_map)
    (auto simp: materialize_group_Some intro: distinct_map_filter)

definition fresh_ids :: "(nat \<Rightarrow> string) \<Rightarrow> (string \<Rightarrow> string) \<Rightarrow> user_profile \<Rightarrow> bool" where
  "fresh_ids newid fromName p = (inj newid \<and> inj fromName \<and> range newid \<inter> (set (node_ids p) \<union> range fromName) = {} \<and>
     (\<forall>n \<in> set (pf_nodes p). \<forall>subID name. nd_id n = fromName (''group:'' @ subID @ '':'' @ name) \<longrightarrow>
        nd_sub_id n = Some subID \<and> nodeKey n = Some (group_key name)))"

lemma parse_body_wf:
  assumes "parse_body ps newid body subID format = Inr r"
  shows "oc_nodes r \<noteq> []" "list_all (usable_node subID) (oc_nodes r)" "distinct (map nodeKey (oc_nodes r))"
    "map nd_id (oc_nodes r) = map newid [0..<length (oc_nodes r)]" "distinct (map go_name (oc_groups r))"
proof -
  obtain env yenv cenv where "ps = (env, yenv, cenv)" by (cases ps)
  then have "Parse env yenv cenv newid body subID format = Inr r" using assms by simp
  then obtain f entries groups where "r = collect env newid f entries groups subID" "oc_nodes r \<noteq> []"
    by (rule Parse_Inr)
  then show "oc_nodes r \<noteq> []" "list_all (usable_node subID) (oc_nodes r)" "distinct (map nodeKey (oc_nodes r))"
    "map nd_id (oc_nodes r) = map newid [0..<length (oc_nodes r)]" "distinct (map go_name (oc_groups r))"
    using collect_sound(1-4) by simp_all
qed

lemma usable_key: "usable_node subID n \<Longrightarrow> \<exists>k. nodeKey n = Some k \<and> pk_kind k \<noteq> ''group''"
  using Kind_not_group by (auto simp: usable_node_def nodeKey_def profileKey_def split: option.splits)

lemma landed_distinct:
  assumes "parse_body ps newid body subID format = Inr r" and "distinct (node_ids p)" and "fresh_ids newid fromName p"
  shows "distinct (map nd_id (filter (\<lambda>n. nd_sub_id n \<noteq> Some subID) (pf_nodes p) @ landed_nodes p subID r @ landed_groups fromName p subID r))"
proof -
  note wf = parse_body_wf [OF assms(1)]
  let ?gs = "materializeGroups fromName (oc_groups r) (landed_nodes p subID r) subID"
  obtain gs' :: "group_out list" where gs': "distinct (map go_name gs')"
      "map nd_id ?gs = map (\<lambda>g. fromName (''group:'' @ subID @ '':'' @ go_name g)) gs'" "map nodeKey ?gs = map (\<lambda>g. Some (group_key (go_name g))) gs'"
    using materializeGroups_ids [of "oc_groups r" fromName "landed_nodes p subID r" subID] wf(5) by blast
  have fresh: "inj newid" "inj fromName" "range newid \<inter> set (node_ids p) = {}" "range newid \<inter> range fromName = {}"
    using assms(3) by (auto simp: fresh_ids_def)
  have "nodeKey n \<noteq> nodeKey g" if "n \<in> set (oc_nodes r)" "g \<in> set ?gs" for n g
  proof -
    obtain k where "nodeKey n = Some k" "pk_kind k \<noteq> ''group''" using usable_key [of subID n] wf(2) \<open>n \<in> _\<close> by (auto simp: list_all_iff)
    then show ?thesis using materializeGroups_node [OF that(2)] materialize_group_Some(2) by auto
  qed
  moreover have "distinct (map nodeKey ?gs)" unfolding gs'(3) using gs'(1) by (auto simp: distinct_map inj_on_def)
  ultimately have keys: "distinct (map nodeKey (oc_nodes r @ ?gs))" using wf(3) by auto
  have "distinct (map nd_id ?gs)" unfolding gs'(2) using gs'(1) fresh(2) by (auto simp: distinct_map inj_on_def)
  moreover have "distinct (map nd_id (oc_nodes r))" unfolding wf(4) using fresh(1) by (simp add: distinct_map inj_on_def)
  moreover have "set (map nd_id (oc_nodes r)) \<inter> set (map nd_id ?gs) = {}" unfolding wf(4) gs'(2) using fresh(4) by auto
  ultimately have ids: "distinct (map nd_id (oc_nodes r @ ?gs))" by simp
  have "nodeKey n \<in> nodeKey ` set (of_sub subID p)" if n: "n \<in> set (oc_nodes r @ ?gs)" "nd_id n \<in> set (node_ids p)" for n
  proof (cases "n \<in> set (oc_nodes r)")
    case True
    then have "nd_id n \<in> range newid" using wf(4) [THEN arg_cong [where f = set]] by auto
    then show ?thesis using n(2) fresh(3) by blast
  next
    case False
    then obtain g :: group_out where g: "nd_id n = fromName (''group:'' @ subID @ '':'' @ go_name g)" "nodeKey n = Some (group_key (go_name g))"
      using n(1) materializeGroups_node [of n fromName "oc_groups r" "landed_nodes p subID r" subID] materialize_group_Some(1,2) by auto
    obtain n' where "n' \<in> set (pf_nodes p)" "nd_id n' = nd_id n" using n(2) by auto
    then have "n' \<in> set (of_sub subID p)" "nodeKey n' = nodeKey n" using assms(3) g by (auto simp: fresh_ids_def)
    then show ?thesis by (metis image_eqI)
  qed
  from reconcile_distinct [OF keys ids assms(2) this] show ?thesis
    by (simp add: reconcile_append landed_nodes_def landed_groups_def)
qed

lemma Apply_cases:
  assumes "Apply ps newid fromName now fr p = Some (p', res)"
  obtains (discarded) "p' = p" "rs_discarded res" "rs_count res = 0"
  | (failed) sub e where "findSubscriptionByID p (fr_sub_id fr) = Some sub" "p' = update_sub (sb_id sub) (\<lambda>s. s\<lparr>sb_last_error := e\<rparr>) p"
      "\<not> rs_discarded res" "rs_err res = e" "rs_count res = 0"
  | (landed) sub body r where "findSubscriptionByID p (fr_sub_id fr) = Some sub" "sb_url sub = fr_url fr" "fr_body fr = Inr body"
      "parse_body ps newid body (sb_id sub) (fr_format fr) = Inr r"
      "p' = update_sub (sb_id sub) (\<lambda>s. s\<lparr>sb_last_updated := now, sb_last_error := []\<rparr>)
         (ReplaceSubscriptionNodes (sb_id sub) (landed_nodes p (sb_id sub) r @ landed_groups fromName p (sb_id sub) r) p)"
      "\<not> rs_discarded res" "rs_err res = []" "rs_count res = length (oc_nodes r)"
      "(rs_added res, rs_removed res) = diffNodes p (sb_id sub) (landed_nodes p (sb_id sub) r @ landed_groups fromName p (sb_id sub) r)"
  using assms
  by (auto simp: Apply_def Let_def blank_refresh_def landed_nodes_def split: option.splits if_splits sum.splits prod.splits)

lemma update_sub_fields [simp]:
  "pf_nodes (update_sub i f p) = pf_nodes p" "pf_active_node_id (update_sub i f p) = pf_active_node_id p"
  "pf_routing_configs (update_sub i f p) = pf_routing_configs p" "pf_active_routing_id (update_sub i f p) = pf_active_routing_id p"
  by (simp_all add: update_sub_def)

lemma update_sub_inv: "profile_inv p \<Longrightarrow> profile_inv (update_sub i f p)"
  by (simp add: update_sub_def edit_inv(1))

lemma Apply_inv: "profile_inv p \<Longrightarrow> Apply ps newid fromName now fr p = Some (p', res) \<Longrightarrow> profile_inv p'"
  by (erule Apply_cases) (auto intro!: update_sub_inv ReplaceSubscriptionNodes_inv)

lemma findSubscriptionByID_id: "findSubscriptionByID p i = Some sub \<Longrightarrow> sb_id sub = i"
  by (auto simp: findSubscriptionByID_def dest: find_SomeD)

lemma landed_nodes_sub: "n \<in> set (landed_nodes p subID r) \<Longrightarrow> list_all (usable_node subID) (oc_nodes r) \<Longrightarrow> nd_sub_id n = Some subID \<and> \<not> IsGroup n"
proof -
  assume n: "n \<in> set (landed_nodes p subID r)" and "list_all (usable_node subID) (oc_nodes r)"
  then have "set (map nd_sub_id (oc_nodes r)) \<subseteq> {Some subID}" "set (map nd_group (oc_nodes r)) \<subseteq> {None}"
    by (auto simp: list_all_iff usable_node_def)
  then have "set (map nd_sub_id (landed_nodes p subID r)) \<subseteq> {Some subID}" "set (map nd_group (landed_nodes p subID r)) \<subseteq> {None}"
    unfolding landed_nodes_def reconcile_keeps .
  with n show ?thesis by (auto simp: IsGroup_def)
qed

lemma landed_groups_sub: "n \<in> set (landed_groups fromName p subID r) \<Longrightarrow> nd_sub_id n = Some subID \<and> IsGroup n"
proof -
  assume n: "n \<in> set (landed_groups fromName p subID r)"
  let ?gs = "materializeGroups fromName (oc_groups r) (landed_nodes p subID r) subID"
  have "set (map nd_sub_id ?gs) \<subseteq> {Some subID}" "None \<notin> set (map nd_group ?gs)"
    using materializeGroups_node materialize_group_Some(3,4) by (fastforce simp: IsGroup_def)+
  then have "set (map nd_sub_id (landed_groups fromName p subID r)) \<subseteq> {Some subID}" "None \<notin> set (map nd_group (landed_groups fromName p subID r))"
    unfolding landed_groups_def reconcile_keeps .
  with n show ?thesis by (force simp: IsGroup_def)
qed

lemma distinct_difference:
  assumes "distinct xs" and "distinct ys"
  shows "length xs + length (filter (\<lambda>y. y \<notin> set xs) ys) = length ys + length (filter (\<lambda>x. x \<notin> set ys) xs)"
proof -
  have len: "length zs = card (set zs \<inter> set ws) + length (filter (\<lambda>z. z \<notin> set ws) zs)" if "distinct zs" for zs ws :: "'a list"
  proof -
    have "length (filter (\<lambda>z. z \<in> set ws) zs) = card (set zs \<inter> set ws)"
      using that by (metis distinct_card distinct_filter filter_set inf_set_def set_filter Collect_conj_eq Collect_mem_eq)
    then show ?thesis using sum_length_filter_compl [of "\<lambda>z. z \<in> set ws" zs] by simp
  qed
  from len [OF assms(1), of ys] len [OF assms(2), of xs] show ?thesis by (simp add: Int_commute)
qed

lemma landed_split:
  assumes "list_all (usable_node subID) (oc_nodes r)"
  shows "filter (\<lambda>n. \<not> IsGroup n) (landed_nodes p subID r @ landed_groups fromName p subID r) = landed_nodes p subID r"
proof -
  have "filter (\<lambda>n. \<not> IsGroup n) (landed_nodes p subID r) = landed_nodes p subID r"
    using landed_nodes_sub [OF _ assms] by (simp add: filter_id_conv)
  moreover have "filter (\<lambda>n. \<not> IsGroup n) (landed_groups fromName p subID r) = []"
    using landed_groups_sub by (simp add: filter_empty_conv)
  ultimately show ?thesis by simp
qed

section \<open>Properties\<close>

text \<open>
  A refresh keeps node ids unique (the assumption under which a plan can be built), provided fresh ids are
  fresh and name-based ids do not clash with those of other nodes.
\<close>

theorem apply_unique_ids:
  assumes "Apply ps newid fromName now fr p = Some (p', res)" and "distinct (node_ids p)" and "fresh_ids newid fromName p"
  shows "distinct (node_ids p')"
  using assms(1)
proof (cases rule: Apply_cases)
  case (landed sub body r)
  then show ?thesis using landed_distinct [OF landed(4) assms(2,3)] by (simp add: ReplaceSubscriptionNodes_nodes)
qed (use assms(2) in auto)

text \<open>
  C33. A node that is still in the document keeps its identity: after a refresh there is a node with the same
  refresh identity, the same id and, when it was set, the same core override; when it was the
  active node it stays the active node.
\<close>

theorem apply_keeps_identity:
  assumes "findSubscriptionByID p (fr_sub_id fr) = Some sub" and "sb_url sub = fr_url fr" and "fr_body fr = Inr body"
    and "parse_body ps newid body (sb_id sub) (fr_format fr) = Inr r" and "Apply ps newid fromName now fr p = Some (p', res)"
    and "n \<in> set (of_sub (sb_id sub) p)" and "distinct (map nodeKey (of_sub (sb_id sub) p))" and "nodeKey n \<in> nodeKey ` set (oc_nodes r)"
  shows "(\<exists>n' \<in> set (of_sub (sb_id sub) p'). nodeKey n' = nodeKey n \<and> nd_id n' = nd_id n \<and>
      (nd_core_override n \<noteq> None \<longrightarrow> nd_core_override n' = nd_core_override n)) \<and>
    (pf_active_node_id p = Some (nd_id n) \<longrightarrow> pf_active_node_id p' = Some (nd_id n))"
proof -
  let ?all = "landed_nodes p (sb_id sub) r @ landed_groups fromName p (sb_id sub) r"
  have p': "p' = update_sub (sb_id sub) (\<lambda>s. s\<lparr>sb_last_updated := now, sb_last_error := []\<rparr>) (ReplaceSubscriptionNodes (sb_id sub) ?all p)"
    using assms(1-5) by (simp add: Apply_def Let_def split: if_splits prod.splits)
  obtain n0 where n0: "n0 \<in> set (oc_nodes r)" "nodeKey n0 = nodeKey n" using assms(8) by auto
  define n' where "n' = hd (reconcile p (sb_id sub) [n0])"
  have "n' \<in> set (landed_nodes p (sb_id sub) r)" using n0(1) by (simp add: n'_def landed_nodes_def reconcile_map)
  then have mem: "n' \<in> set (pf_nodes p')" and sub: "nd_sub_id n' = Some (sb_id sub)"
    using landed_nodes_sub parse_body_wf(2) [OF assms(4)] by (auto simp: p' ReplaceSubscriptionNodes_nodes)
  have same: "nodeKey n' = nodeKey n" "nd_id n' = nd_id n" "nd_core_override n \<noteq> None \<Longrightarrow> nd_core_override n' = nd_core_override n"
    using n0(2) saved_identity_distinct [OF assms(7,6)]
    by (auto simp: n'_def reconcile_map nodeKey_def Let_def split: option.splits)
  have "pf_active_node_id p' = Some (nd_id n)" if "pf_active_node_id p = Some (nd_id n)"
  proof -
    have "n' \<in> set (filter (\<lambda>n. nd_sub_id n \<noteq> Some (sb_id sub)) (pf_nodes p) @ ?all)"
      using mem unfolding p' update_sub_fields ReplaceSubscriptionNodes_nodes .
    then have "nd_id n \<in> nd_id ` set (filter (\<lambda>n. nd_sub_id n \<noteq> Some (sb_id sub)) (pf_nodes p) @ ?all)"
      unfolding same(2) [symmetric] by (rule imageI)
    then show ?thesis using that unfolding p' update_sub_fields ReplaceSubscriptionNodes_active Let_def by (simp only: option.case if_True)
  qed
  with mem sub same show ?thesis by auto
qed

text \<open>
  A refresh never empties a subscription and never touches another one: the nodes outside the subscription stay as
  they are, in order, and a subscription that had nodes still has some, whatever was fetched; when
  the result is stale, nothing changes at all.
\<close>

theorem apply_never_empties:
  assumes "Apply ps newid fromName now fr p = Some (p', res)"
  shows "filter (\<lambda>n. nd_sub_id n \<noteq> Some (fr_sub_id fr)) (pf_nodes p') = filter (\<lambda>n. nd_sub_id n \<noteq> Some (fr_sub_id fr)) (pf_nodes p) \<and>
    (of_sub (fr_sub_id fr) p \<noteq> [] \<longrightarrow> of_sub (fr_sub_id fr) p' \<noteq> []) \<and> (rs_discarded res \<longrightarrow> p' = p)"
  using assms
proof (cases rule: Apply_cases)
  case (landed sub body r)
  note wf = parse_body_wf [OF landed(4)]
  have i: "fr_sub_id fr = sb_id sub" using findSubscriptionByID_id [OF landed(1)] by simp
  have "landed_nodes p (sb_id sub) r \<noteq> []" using wf(1) by (metis landed_nodes_def reconcile_keeps(1) length_0_conv)
  then have "hd (landed_nodes p (sb_id sub) r) \<in> set (landed_nodes p (sb_id sub) r)" by (rule hd_in_set)
  moreover from this have "nd_sub_id (hd (landed_nodes p (sb_id sub) r)) = Some (sb_id sub)"
    using landed_nodes_sub [OF _ wf(2)] by blast
  moreover have "filter (\<lambda>n. nd_sub_id n \<noteq> Some (sb_id sub)) (landed_nodes p (sb_id sub) r @ landed_groups fromName p (sb_id sub) r) = []"
    using landed_nodes_sub [OF _ wf(2)] landed_groups_sub by (fastforce simp: filter_empty_conv)
  ultimately show ?thesis using landed(5,6) i by (auto simp: ReplaceSubscriptionNodes_nodes filter_empty_conv)
qed auto

text \<open>
  The counts a refresh reports add up: the nodes it landed are the old ones, plus the added, minus the removed
  (groups are not counted).
\<close>

theorem apply_counts:
  assumes "Apply ps newid fromName now fr p = Some (p', res)" and "rs_count res \<noteq> 0" and "distinct (map nodeKey (of_sub (fr_sub_id fr) p))"
  shows "rs_count res = length (filter (\<lambda>n. \<not> IsGroup n) (of_sub (fr_sub_id fr) p')) \<and>
    rs_count res + rs_removed res = length (filter (\<lambda>n. \<not> IsGroup n) (of_sub (fr_sub_id fr) p)) + rs_added res"
  using assms(1)
proof (cases rule: Apply_cases)
  case (landed sub body r)
  note wf = parse_body_wf [OF landed(4)]
  let ?L = "landed_nodes p (sb_id sub) r" and ?G = "landed_groups fromName p (sb_id sub) r"
  have i: "fr_sub_id fr = sb_id sub" using findSubscriptionByID_id [OF landed(1)] by simp
  have keys: "map nodeKey ?L = map nodeKey (oc_nodes r)" by (simp add: landed_nodes_def)
  have "filter (\<lambda>n. nd_sub_id n = Some (sb_id sub)) (?L @ ?G) = ?L @ ?G"
    using landed_nodes_sub [OF _ wf(2), of _ p] landed_groups_sub [of _ fromName p "sb_id sub" r]
    by (intro filter_True) (simp, blast)
  then have "of_sub (sb_id sub) p' = ?L @ ?G"
    by (simp add: landed(5) ReplaceSubscriptionNodes_nodes filter_empty_conv)
  then have "length (filter (\<lambda>n. \<not> IsGroup n) (of_sub (sb_id sub) p')) = length (oc_nodes r)"
    using landed_split [OF wf(2), of p fromName] keys [THEN arg_cong [where f = length]] by simp
  moreover define old where "old = map nodeKey (filter (\<lambda>n. \<not> IsGroup n) (of_sub (sb_id sub) p))"
  have distinct: "distinct old" unfolding old_def using distinct_map_filter [OF assms(3) [unfolded i]] .
  have "diffNodes p (sb_id sub) (?L @ ?G) =
      (length (filter (\<lambda>k. k \<notin> set old) (map nodeKey ?L)), length (filter (\<lambda>k. k \<notin> set (map nodeKey ?L)) old))"
    unfolding diffNodes_def Let_def landed_split [OF wf(2)] old_def [symmetric] distinct_remdups_id [OF distinct] ..
  then have "rs_added res = length (filter (\<lambda>k. k \<notin> set old) (map nodeKey ?L))"
      "rs_removed res = length (filter (\<lambda>k. k \<notin> set (map nodeKey ?L)) old)"
    using landed(9) by simp_all
  moreover have "distinct (map nodeKey ?L)" unfolding keys by (rule wf(3))
  then have "length (map nodeKey ?L) + length (filter (\<lambda>k. k \<notin> set (map nodeKey ?L)) old) =
      length old + length (filter (\<lambda>k. k \<notin> set old) (map nodeKey ?L))"
    using distinct by (rule distinct_difference)
  moreover have "length (map nodeKey ?L) = rs_count res" unfolding keys landed(8) by simp
  moreover have "length old = length (filter (\<lambda>n. \<not> IsGroup n) (of_sub (sb_id sub) p))" unfolding old_def by (rule length_map)
  ultimately show ?thesis unfolding i landed(8) by linarith
qed (use assms(2) in auto)

text \<open>
  The one thing a refresh cannot survive: a stored node of the subscription that is neither a group nor holds a profile.
  The lookup of its refresh identity dereferences a nil profile, so a fetch that would otherwise land
  panics; nothing else does.
\<close>

theorem apply_zero_node_panics:
  "Apply ps newid fromName now fr p = None \<longleftrightarrow>
    (\<exists>sub body r n. findSubscriptionByID p (fr_sub_id fr) = Some sub \<and> sb_url sub = fr_url fr \<and> fr_body fr = Inr body \<and>
       parse_body ps newid body (sb_id sub) (fr_format fr) = Inr r \<and> n \<in> set (of_sub (sb_id sub) p) \<and> nd_group n = None \<and> nd_doc n = None)"
  by (auto simp: Apply_def Let_def list_ex_iff nodeKey_def split: option.splits if_splits sum.splits prod.splits)

section \<open>A concrete refresh\<close>

definition sample_parsers :: parsers where
  "sample_parsers = (sample_sub_env, sample_clash_env, sample_core_env)"

definition sample_newid :: "nat \<Rightarrow> string" where
  "sample_newid n = replicate (Suc n) (CHR ''n'')"

definition sample_old :: node where
  "sample_old = NewNode ''old'' (projr (ParseURL (se_url_parse sample_sub_env) (se_json_text sample_sub_env) ''anytls://p@h:8#a'')) (Some ''s'')"

definition sample_refreshed :: user_profile where
  "sample_refreshed = (NewProfile ''r'' ''p'')\<lparr>pf_subscriptions := [NewSubscription ''s'' 0 ''u'' ''n''], pf_nodes := [sample_old],
     pf_active_node_id := Some ''old''\<rparr>"

definition sample_fetched :: fetch_result where
  "sample_fetched = \<lparr>fr_sub_id = ''s'', fr_name = ''n'', fr_url = ''u'', fr_format = FormatClash, fr_body = Inr []\<rparr>"

lemma sample_parsed: "\<exists>r. parse_body sample_parsers sample_newid [] ''s'' FormatClash = Inr r \<and> nodeKey sample_old \<in> nodeKey ` set (oc_nodes r)"
proof -
  obtain c where c: "ParseURL (se_url_parse sample_sub_env) (se_json_text sample_sub_env) ''anytls://p@h:8#a'' = Inr (Vless c)"
      "vl_server_name c = ''New Profile''"
    using sample_link by blast
  have "parsed_links sample_sub_env [''anytls://p@h:8#a''] = [Vless c]"
    by (simp add: parsed_links_def List.map_filter_def c(1))
  then show ?thesis
    by (simp add: sample_parsers_def Parse_def chain_def sample_clash collect_def collect_nodes_def pass1_def pass2_def add_profile_def
        accessors_defs c Let_def sample_old_def)
qed

lemma sample_old_key: "\<exists>k. nodeKey sample_old = Some k" "nd_sub_id sample_old = Some ''s''" "nd_id sample_old = ''old''" "\<not> IsGroup sample_old"
  by (simp_all add: sample_old_def) (simp_all add: NewNode_def IsGroup_def)

lemma sample_lookup: "findSubscriptionByID sample_refreshed ''s'' = Some (NewSubscription ''s'' 0 ''u'' ''n'')"
  by (simp add: findSubscriptionByID_def sample_refreshed_def NewSubscription_def)

lemma sample_applied: "\<exists>p' res. Apply sample_parsers sample_newid (\<lambda>x. CHR ''g'' # x) 1 sample_fetched sample_refreshed = Some (p', res) \<and> rs_count res \<noteq> 0"
proof -
  obtain r where "parse_body sample_parsers sample_newid [] ''s'' FormatClash = Inr r" "oc_nodes r \<noteq> []"
    using sample_parsed parse_body_wf(1) by blast
  moreover have "of_sub ''s'' sample_refreshed = [sample_old]" using sample_old_key by (simp add: sample_refreshed_def)
  ultimately show ?thesis
    using sample_lookup sample_old_key(1)
    by (auto simp: Apply_def sample_fetched_def NewSubscription_def Let_def landed_nodes_def split: prod.split)
qed

theorem apply_unique_ids_witness:
  "\<exists>p' res. Apply sample_parsers sample_newid (\<lambda>x. CHR ''g'' # x) 1 sample_fetched sample_refreshed = Some (p', res) \<and> distinct (node_ids p')"
proof -
  obtain p' res where app: "Apply sample_parsers sample_newid (\<lambda>x. CHR ''g'' # x) 1 sample_fetched sample_refreshed = Some (p', res)"
    using sample_applied by blast
  have "fresh_ids sample_newid (\<lambda>x. CHR ''g'' # x) sample_refreshed"
    using sample_old_key by (auto simp: fresh_ids_def sample_newid_def sample_refreshed_def inj_on_def)
  moreover have "distinct (node_ids sample_refreshed)" by (simp add: sample_refreshed_def)
  ultimately show ?thesis using apply_unique_ids [OF app] app by blast
qed

theorem apply_keeps_identity_witness:
  "\<exists>p' res n'. Apply sample_parsers sample_newid (\<lambda>x. CHR ''g'' # x) 1 sample_fetched sample_refreshed = Some (p', res) \<and>
     n' \<in> set (of_sub ''s'' p') \<and> nodeKey n' = nodeKey sample_old \<and> nd_id n' = ''old'' \<and> pf_active_node_id p' = Some ''old''"
proof -
  obtain r where r: "parse_body sample_parsers sample_newid [] ''s'' FormatClash = Inr r" "nodeKey sample_old \<in> nodeKey ` set (oc_nodes r)"
    using sample_parsed by blast
  obtain p' res where app: "Apply sample_parsers sample_newid (\<lambda>x. CHR ''g'' # x) 1 sample_fetched sample_refreshed = Some (p', res)"
    using sample_applied by blast
  have "of_sub ''s'' sample_refreshed = [sample_old]" using sample_old_key by (simp add: sample_refreshed_def)
  moreover have "pf_active_node_id sample_refreshed = Some ''old''" by (simp add: sample_refreshed_def)
  ultimately show ?thesis
    using apply_keeps_identity [where fr = sample_fetched, OF _ _ _ _ app, of "NewSubscription ''s'' 0 ''u'' ''n''" "[]" r sample_old]
      sample_lookup r app sample_old_key(3)
    by (auto simp: sample_fetched_def NewSubscription_def)
qed

theorem apply_never_empties_witness:
  "\<exists>p' res. Apply sample_parsers sample_newid (\<lambda>x. CHR ''g'' # x) 1 sample_fetched sample_refreshed = Some (p', res) \<and> of_sub ''s'' p' \<noteq> []"
proof -
  obtain p' res where app: "Apply sample_parsers sample_newid (\<lambda>x. CHR ''g'' # x) 1 sample_fetched sample_refreshed = Some (p', res)"
    using sample_applied by blast
  moreover have "of_sub ''s'' sample_refreshed \<noteq> []" using sample_old_key by (simp add: sample_refreshed_def)
  ultimately show ?thesis using apply_never_empties [OF app] by (auto simp: sample_fetched_def)
qed

theorem apply_counts_witness:
  "\<exists>p' res. Apply sample_parsers sample_newid (\<lambda>x. CHR ''g'' # x) 1 sample_fetched sample_refreshed = Some (p', res) \<and>
     rs_count res + rs_removed res = 1 + rs_added res"
proof -
  obtain p' res where app: "Apply sample_parsers sample_newid (\<lambda>x. CHR ''g'' # x) 1 sample_fetched sample_refreshed = Some (p', res)"
      "rs_count res \<noteq> 0"
    using sample_applied by blast
  have "of_sub ''s'' sample_refreshed = [sample_old]" using sample_old_key by (simp add: sample_refreshed_def)
  then have "rs_count res + rs_removed res = 1 + rs_added res"
    using apply_counts [OF app] sample_old_key(4) by (simp add: sample_fetched_def del: filter_filter)
  with app(1) show ?thesis by blast
qed

end
