(* ===== verification/Manager_Store.thy ===== *)
theory Manager_Store
  imports Manager_Session Sub_Apply
begin

text \<open>
  The store verbs of the daemon (\<^verbatim>\<open>daemon-go/cmd/iron-link-daemon/manager_store.go\<close>, and
  \<^verbatim>\<open>subscriptionUA\<close> of \<^verbatim>\<open>manager_settings.go\<close>): the requests that read and edit profiles, nodes, groups,
  subscriptions and routing configs.

  A verb returns the manager, the \<^verbatim>\<open>subscription_updated\<close> events it broadcast, and an error or a reply.
  \<open>withProfile\<close> is the transaction of every edit: load, edit, save only when the edit succeeded. What the
  disk and the clock answer, fresh ids, the transport and the parsers are arguments (\<open>verb_env\<close>).
  A nil dereference is the error \<open>Panics\<close>.

  Main results: no verb other than a deletion changes a profile file unless it succeeds, and then
  only the file of its own profile; the profiles on disk stay well formed under every verb; a locked
  section of a verb is a run of the session's step relation, so the session invariant covers the
  store verbs.
\<close>

section \<open>Requests, replies and events\<close>

record verb_env =
  ve_dv :: daemon_env
  ve_parsers :: parsers
  ve_fetch :: fetch_env
  ve_from_name :: "string \<Rightarrow> string"
  ve_fmt_time :: "int \<Rightarrow> string"
  ve_rfc3339 :: "int \<Rightarrow> string"
  ve_newid :: string
  ve_newids :: "nat \<Rightarrow> nat \<Rightarrow> string"
  ve_now :: int
  ve_io :: bool
  ve_io' :: bool

text \<open>The request of the control protocol; absent fields are \<open>None\<close>, JSON payloads are documents.\<close>

record verb_request =
  vr_command :: string
  vr_profile :: "string option"
  vr_tun :: "bool option"
  vr_role :: "string option"
  vr_nodes :: "string list option"
  vr_settings :: "settings option"
  vr_force :: bool
  vr_node :: "string option"
  vr_url :: "string option"
  vr_name :: "string option"
  vr_sub :: "string option"
  vr_routing :: "string option"
  vr_core_override :: "string option"
  vr_allow_invalid_certs :: "bool option"
  vr_enabled :: "bool option"
  vr_update_interval_sec :: "u32 option"
  vr_format :: "string option"
  vr_group :: "json option"
  vr_routing_config :: "json option"

record node_info =
  ni_id :: string
  ni_name :: string
  ni_sub_id :: "string option"
  ni_core_override :: "string option"
  ni_protocol :: string
  ni_transport :: string
  ni_security :: string
  ni_port :: u16
  ni_active :: bool
  ni_eligible_cores :: "string list"
  ni_kind :: string
  ni_members :: "string list"

record subscription_info =
  sn_id :: string
  sn_name :: string
  sn_url :: string
  sn_enabled :: bool
  sn_allow_invalid_certs :: bool
  sn_last_updated :: string
  sn_node_count :: nat
  sn_format :: string
  sn_update_interval_sec :: u32
  sn_last_error :: string

record refresh_info =
  ri_name :: string
  ri_count :: nat
  ri_added :: nat
  ri_removed :: nat
  ri_skipped :: bool
  ri_error :: string
  ri_format :: string
  ri_entries :: nat
  ri_duplicates :: nat
  ri_unrecognized :: nat

record routing_info =
  gi_id :: string
  gi_name :: string
  gi_rules :: nat
  gi_rule_sets :: nat
  gi_active :: bool

record sub_event =
  su_sub_id :: string
  su_added :: nat
  su_removed :: nat
  su_total :: nat
  su_format :: string

datatype store_reply =
    ProfilesReply "string list" "string option"
  | OkReply string string                      \<comment> \<open>node, message\<close>
  | NodesReply "node_info list"
  | GroupConfigReply json
  | NodeConfigReply json
  | SubscriptionsReply "subscription_info list"
  | RefreshedReply string "refresh_info list"
  | RoutingReply "routing_info list"
  | RoutingConfigReply json

datatype verb_error =
    Required string
  | NoActiveProfile
  | FileFailed file_error
  | StoreFailed store_error
  | LinkFailed proxy_error
  | NodeNotFound string
  | SubscriptionNotFound string
  | RoutingNotFound string
  | GroupHasNoCore
  | BadGroupPayload decode_error
  | NotOneMembership
  | MemberNotDialable string
  | NodeNotGroup string
  | NodeIsGroup string
  | NoNameFromURL
  | UnknownFormat string
  | IntervalTooShort
  | BadRoutingPayload decode_error
  | RoutingEncodeFailed encode_error
  | Panics

text \<open>The \<^verbatim>\<open>error\<close> replies are on the left; \<open>'r\<close> is what a successful call leaves.\<close>

type_synonym 'r verb_result = "manager \<times> sub_event list \<times> (verb_error + 'r)"

text \<open>The function argument of \<^verbatim>\<open>withProfile\<close>: it may also change the manager and broadcast.\<close>

type_synonym 'r profile_edit = "string \<Rightarrow> user_profile \<Rightarrow> manager \<Rightarrow> manager \<times> sub_event list \<times> (verb_error + user_profile \<times> 'r)"

text \<open>A request argument that has to be present and not empty.\<close>

definition given :: "string option \<Rightarrow> string" where
  "given a = (case a of None \<Rightarrow> [] | Some s \<Rightarrow> s)"

definition store_result :: "store_error + 'a \<Rightarrow> verb_error + 'a" where
  "store_result r = (case r of Inl e \<Rightarrow> Inl (StoreFailed e) | Inr x \<Rightarrow> Inr x)"

section \<open>The profile transaction\<close>

definition resolveProfileName :: "verb_request \<Rightarrow> manager \<Rightarrow> verb_error + string" where
  "resolveProfileName req m =
    (if given (vr_profile req) \<noteq> [] then Inr (given (vr_profile req))
     else (case ActiveProfileName (mg_fs m) of
       Inl e \<Rightarrow> Inl (FileFailed e) | Inr name \<Rightarrow> if name = [] then Inl NoActiveProfile else Inr name))"

text \<open>What the read-only verbs share: the resolved profile, loaded.\<close>

definition resolved_profile :: "verb_env \<Rightarrow> verb_request \<Rightarrow> manager \<Rightarrow> verb_error + user_profile" where
  "resolved_profile ve req m = rbind (resolveProfileName req m) (\<lambda>name.
     case load_profile (ve_dv ve) m name of Inl e \<Rightarrow> Inl (FileFailed e) | Inr p \<Rightarrow> Inr p)"

definition withProfile :: "verb_env \<Rightarrow> verb_request \<Rightarrow> 'r profile_edit \<Rightarrow> manager \<Rightarrow> 'r verb_result" where
  "withProfile ve req fn m = (case resolveProfileName req m of
     Inl e \<Rightarrow> (m, [], Inl e)
   | Inr name \<Rightarrow> (case load_profile (ve_dv ve) m name of
       Inl e \<Rightarrow> (m, [], Inl (FileFailed e))
     | Inr p \<Rightarrow> (case fn name p m of
         (m1, evs, Inl e) \<Rightarrow> (m1, evs, Inl e)
       | (m1, evs, Inr (p', reply)) \<Rightarrow> (case SaveProfile (ve_fmt_time ve) (ve_io ve) name p' (mg_fs m1) of
           (fs', Some e) \<Rightarrow> (m1\<lparr>mg_fs := fs'\<rparr>, evs, Inl (FileFailed e))
         | (fs', None) \<Rightarrow> (m1\<lparr>mg_fs := fs'\<rparr>, evs, Inr reply)))))"

text \<open>An edit of the profile alone.\<close>

definition edits :: "(user_profile \<Rightarrow> verb_error + user_profile \<times> 'r) \<Rightarrow> 'r profile_edit" where
  "edits f = (\<lambda>name p m. (m, [], f p))"

section \<open>Profiles\<close>

text \<open>\<open>ve_io\<close> is here the outcome of reading the directory.\<close>

definition listProfiles :: "verb_env \<Rightarrow> manager \<Rightarrow> store_reply verb_result" where
  "listProfiles ve m = (m, [], if \<not> ve_io ve then Inl (FileFailed IOError)
     else Inr (ProfilesReply (ListProfiles (mg_fs m)) (case ActiveProfileName (mg_fs m) of
       Inr (c # cs) \<Rightarrow> Some (c # cs) | _ \<Rightarrow> None)))"

definition file_verb :: "string \<Rightarrow> store_fs \<times> file_error option \<Rightarrow> manager \<Rightarrow> store_reply verb_result" where
  "file_verb msg r m = (m\<lparr>mg_fs := fst r\<rparr>, [], case snd r of Some e \<Rightarrow> Inl (FileFailed e) | None \<Rightarrow> Inr (OkReply [] msg))"

definition createProfile :: "verb_env \<Rightarrow> verb_request \<Rightarrow> manager \<Rightarrow> store_reply verb_result" where
  "createProfile ve req m = (let name = given (vr_profile req) in
     if name = [] then (m, [], Inl (Required ''profile''))
     else file_verb (''profile created: '' @ name) (CreateProfile (ve_fmt_time ve) (ve_io ve) (ve_newid ve) name (mg_fs m)) m)"

definition deleteProfile :: "verb_env \<Rightarrow> verb_request \<Rightarrow> manager \<Rightarrow> store_reply verb_result" where
  "deleteProfile ve req m = (let name = given (vr_profile req) in
     if name = [] then (m, [], Inl (Required ''profile''))
     else file_verb (''profile deleted: '' @ name) (DeleteProfile (ve_io ve) (ve_io' ve) name (mg_fs m)) m)"

definition setActiveProfile :: "verb_env \<Rightarrow> verb_request \<Rightarrow> manager \<Rightarrow> store_reply verb_result" where
  "setActiveProfile ve req m = (let name = given (vr_profile req) in
     if name = [] then (m, [], Inl (Required ''profile''))
     else file_verb (''active profile: '' @ name) (SetActiveProfile (ve_io ve) name (mg_fs m)) m)"

section \<open>Nodes\<close>

text \<open>One row of \<^verbatim>\<open>list_nodes\<close>; \<open>None\<close> is the nil dereference on a node with neither group nor profile.\<close>

definition node_row :: "user_profile \<Rightarrow> node \<Rightarrow> node_info option" where
  "node_row p n =
    (let active = (pf_active_node_id p = Some (nd_id n)) in
     case nd_group n of
       Some g \<Rightarrow> Some \<lparr>ni_id = nd_id n, ni_name = node_DisplayName n, ni_sub_id = nd_sub_id n, ni_core_override = None,
         ni_protocol = [], ni_transport = [], ni_security = [], ni_port = 0, ni_active = active, ni_eligible_cores = [],
         ni_kind = ''group'', ni_members = resolveGroupMemberIDs p g\<rparr>
     | None \<Rightarrow> map_option (\<lambda>prof. \<lparr>ni_id = nd_id n, ni_name = node_DisplayName n, ni_sub_id = nd_sub_id n,
         ni_core_override = nd_core_override n, ni_protocol = Kind prof,
         ni_transport = pa_transport_label (profile_accessors prof), ni_security = pa_security_label (profile_accessors prof),
         ni_port = ServerPort prof, ni_active = active, ni_eligible_cores = EligibleCores (Some prof), ni_kind = [],
         ni_members = []\<rparr>) (nd_doc n))"

definition listNodes :: "verb_env \<Rightarrow> verb_request \<Rightarrow> manager \<Rightarrow> store_reply verb_result" where
  "listNodes ve req m = (m, [], rbind (resolved_profile ve req m) (\<lambda>p.
     if list_ex (\<lambda>n. node_row p n = None) (pf_nodes p) then Inl Panics
     else Inr (NodesReply (List.map_filter (node_row p) (pf_nodes p)))))"

definition resolveNode :: "user_profile \<Rightarrow> string \<Rightarrow> verb_error + node" where
  "resolveNode p ref = (case FindNode p ref of Some n \<Rightarrow> Inr n | None \<Rightarrow> Inl (NodeNotFound ref))"

definition select_node_edit :: "string \<Rightarrow> user_profile \<Rightarrow> verb_error + user_profile \<times> store_reply" where
  "select_node_edit ref p = rbind (resolveNode p ref) (\<lambda>n.
     rbind (store_result (SetActiveNode (nd_id n) p)) (\<lambda>p'. Inr (p', OkReply (node_DisplayName n) [])))"

definition selectNode :: "verb_env \<Rightarrow> verb_request \<Rightarrow> manager \<Rightarrow> store_reply verb_result" where
  "selectNode ve req m =
    (if given (vr_node req) = [] then (m, [], Inl (Required ''node''))
     else withProfile ve req (edits (select_node_edit (given (vr_node req)))) m)"

definition add_node_edit :: "verb_env \<Rightarrow> string \<Rightarrow> user_profile \<Rightarrow> verb_error + user_profile \<times> store_reply" where
  "add_node_edit ve url p = (case ParseURL (se_url_parse (fst (ve_parsers ve))) (se_json_text (fst (ve_parsers ve))) url of
     Inl e \<Rightarrow> Inl (LinkFailed e)
   | Inr parsed \<Rightarrow> (let n = NewNode (ve_newid ve) parsed None in
       Inr (fst (AddNode n p), OkReply (node_DisplayName n) (''node added: '' @ node_DisplayName n))))"

definition addNode :: "verb_env \<Rightarrow> verb_request \<Rightarrow> manager \<Rightarrow> store_reply verb_result" where
  "addNode ve req m =
    (if given (vr_url req) = [] then (m, [], Inl (Required ''url''))
     else withProfile ve req (edits (add_node_edit ve (given (vr_url req)))) m)"

definition remove_node_edit :: "string \<Rightarrow> user_profile \<Rightarrow> verb_error + user_profile \<times> store_reply" where
  "remove_node_edit ref p = rbind (resolveNode p ref) (\<lambda>n.
     Inr (fst (RemoveNodeByID (nd_id n) p), OkReply [] (''node removed: '' @ node_DisplayName n)))"

definition removeNode :: "verb_env \<Rightarrow> verb_request \<Rightarrow> manager \<Rightarrow> store_reply verb_result" where
  "removeNode ve req m =
    (if given (vr_node req) = [] then (m, [], Inl (Required ''node''))
     else withProfile ve req (edits (remove_node_edit (given (vr_node req)))) m)"

text \<open>A write through the pointer \<^verbatim>\<open>FindNode\<close> returned for a dialable node.\<close>

definition update_node :: "string \<Rightarrow> (node \<Rightarrow> node) \<Rightarrow> user_profile \<Rightarrow> user_profile" where
  "update_node ref f p = p\<lparr>pf_nodes := update_first
     (if FindNodeByID p ref \<noteq> None then (\<lambda>n. nd_id n = ref) else (\<lambda>n. \<not> IsGroup n \<and> node_DisplayName n = ref)) f (pf_nodes p)\<rparr>"

definition pin_core :: "string \<Rightarrow> string option \<Rightarrow> user_profile \<Rightarrow> verb_error + user_profile \<times> store_reply" where
  "pin_core ref core p = rbind (resolveNode p ref) (\<lambda>n.
     if IsGroup n then Inl GroupHasNoCore
     else Inr (update_node ref (\<lambda>n. n\<lparr>nd_core_override := core\<rparr>) p,
            OkReply (node_DisplayName n) (case core of None \<Rightarrow> ''core override cleared'' | Some c \<Rightarrow> ''core override: '' @ c)))"

text \<open>The locked part of \<^verbatim>\<open>setNodePrefs\<close>, with the reconnect it decided.\<close>

definition node_prefs_edit :: "outcomes \<Rightarrow> string \<Rightarrow> string option \<Rightarrow> (store_reply \<times> session_reconnect option) profile_edit" where
  "node_prefs_edit oc ref core name p m = (case pin_core ref core p of
     Inl e \<Rightarrow> (m, [], Inl e)
   | Inr (p', reply) \<Rightarrow> (case sessionReconnectLocked oc name p' m of
       (m1, reconnect) \<Rightarrow> (m1, [], Inr (p', reply, reconnect))))"

definition set_node_prefs_locked ::
  "verb_env \<Rightarrow> outcomes \<Rightarrow> verb_request \<Rightarrow> manager \<Rightarrow> (store_reply \<times> session_reconnect option) verb_result" where
  "set_node_prefs_locked ve oc req = withProfile ve req (node_prefs_edit oc (given (vr_node req)) (vr_core_override req))"

text \<open>\<open>oc'\<close> are the outcomes of the reconnect.\<close>

definition setNodePrefs :: "verb_env \<Rightarrow> outcomes \<Rightarrow> outcomes \<Rightarrow> verb_request \<Rightarrow> manager \<Rightarrow> store_reply verb_result" where
  "setNodePrefs ve oc oc' req m =
    (if given (vr_node req) = [] then (m, [], Inl (Required ''node''))
     else (case set_node_prefs_locked ve oc req m of
       (m1, evs, Inr (reply, Some rc)) \<Rightarrow> (fst (reconnectSession (ve_dv ve) oc' rc m1), evs, Inr reply)
     | (m1, evs, Inr (reply, None)) \<Rightarrow> (m1, evs, Inr reply)
     | (m1, evs, Inl e) \<Rightarrow> (m1, evs, Inl e)))"

section \<open>Groups\<close>

record group_upsert =
  gu_id :: string
  gu_name :: string
  gu_members :: "string list"
  gu_all_of_sub :: "string option"
  gu_probe :: group_probe

definition dec_group_upsert :: "json \<Rightarrow> group_upsert decoded" where
  "dec_group_upsert = dec_struct (\<lambda>ob.
     rbind (dec_field dec_string [] ''id'' ob) (\<lambda>i.
     rbind (dec_field dec_string [] ''name'' ob) (\<lambda>n.
     rbind (dec_field (dec_list dec_string) [] ''members'' ob) (\<lambda>ms.
     rbind (dec_field (dec_ptr dec_string) None ''all_of_sub'' ob) (\<lambda>a.
     rbind (dec_field dec_group_probe zero_probe ''probe'' ob) (\<lambda>p.
     Inr \<lparr>gu_id = i, gu_name = n, gu_members = ms, gu_all_of_sub = a, gu_probe = p\<rparr>))))))"

text \<open>The spec to store: a subscription reference is normalised to the id, members have to be dialable.\<close>

definition group_of_upsert :: "group_upsert \<Rightarrow> user_profile \<Rightarrow> verb_error + group_spec" where
  "group_of_upsert g p =
    (let spec = \<lparr>gs_name = gu_name g, gs_members = [], gs_all_of_sub = None, gs_probe = gu_probe g\<rparr> in
     if given (gu_all_of_sub g) \<noteq> [] then (case FindSubscription p (given (gu_all_of_sub g)) of
         None \<Rightarrow> Inl (SubscriptionNotFound (given (gu_all_of_sub g)))
       | Some sub \<Rightarrow> Inr (spec\<lparr>gs_all_of_sub := Some (sb_id sub)\<rparr>))
     else (case find (\<lambda>i. case FindNodeByID p i of None \<Rightarrow> True | Some n \<Rightarrow> IsGroup n) (gu_members g) of
         Some i \<Rightarrow> Inl (MemberNotDialable i)
       | None \<Rightarrow> Inr (spec\<lparr>gs_members := gu_members g\<rparr>)))"

definition upsert_group_edit :: "verb_env \<Rightarrow> group_upsert \<Rightarrow> user_profile \<Rightarrow> verb_error + user_profile \<times> store_reply" where
  "upsert_group_edit ve g p = rbind (group_of_upsert g p) (\<lambda>spec.
     if gu_id g = [] then rbind (store_result (AddGroup (ve_newid ve) spec p)) (\<lambda>(p', i).
       Inr (p', OkReply (gs_name spec) (''group created: '' @ gs_name spec @ '' ('' @ i @ '')'')))
     else rbind (store_result (ReplaceGroupByID (gu_id g) spec p)) (\<lambda>p'.
       Inr (p', OkReply (gs_name spec) (''group updated: '' @ gs_name spec))))"

definition upsertGroup :: "verb_env \<Rightarrow> verb_request \<Rightarrow> manager \<Rightarrow> store_reply verb_result" where
  "upsertGroup ve req m = (case vr_group req of
     None \<Rightarrow> (m, [], Inl (Required ''group''))
   | Some j \<Rightarrow> (case dec_group_upsert j of
       Inl e \<Rightarrow> (m, [], Inl (BadGroupPayload e))
     | Inr g \<Rightarrow> if (gu_members g \<noteq> []) = (given (gu_all_of_sub g) \<noteq> []) then (m, [], Inl NotOneMembership)
         else withProfile ve req (edits (upsert_group_edit ve g)) m))"

definition getGroup :: "verb_env \<Rightarrow> verb_request \<Rightarrow> manager \<Rightarrow> store_reply verb_result" where
  "getGroup ve req m = (let ref = given (vr_node req) in
     if ref = [] then (m, [], Inl (Required ''group''))
     else (m, [], rbind (resolved_profile ve req m) (\<lambda>p. rbind (resolveNode p ref) (\<lambda>n. case nd_group n of
         None \<Rightarrow> Inl (NodeNotGroup ref) | Some g \<Rightarrow> Inr (GroupConfigReply (enc_group_spec g))))))"

definition getNode :: "verb_env \<Rightarrow> verb_request \<Rightarrow> manager \<Rightarrow> store_reply verb_result" where
  "getNode ve req m = (let ref = given (vr_node req) in
     if ref = [] then (m, [], Inl (Required ''node''))
     else (m, [], rbind (resolved_profile ve req m) (\<lambda>p. rbind (resolveNode p ref) (\<lambda>n.
       if IsGroup n then Inl (NodeIsGroup ref)
       else (case nd_doc n of
         None \<Rightarrow> Inl Panics
       | Some prof \<Rightarrow> Inr (NodeConfigReply (JObj [(''name'', JStr (DisplayName prof)), (''protocol'', JStr (Kind prof)),
           (''profile'', enc_profile_body prof)])))))))"

section \<open>Subscriptions\<close>

definition subscriptionUA :: "verb_env \<Rightarrow> manager \<Rightarrow> string" where
  "subscriptionUA ve m = (case load_settings (ve_dv ve) m of Inr s \<Rightarrow> st_subscription_user_agent s | Inl _ \<Rightarrow> [])"

definition publishRefreshLocked :: "refresh_result list \<Rightarrow> refresh_info list \<times> sub_event list" where
  "publishRefreshLocked rs =
    (map (\<lambda>r. \<lparr>ri_name = rs_name r, ri_count = rs_count r, ri_added = rs_added r, ri_removed = rs_removed r,
        ri_skipped = rs_skipped r, ri_error = rs_err r, ri_format = rs_format r, ri_entries = rs_entries r,
        ri_duplicates = rs_duplicates r, ri_unrecognized = rs_unrecognized r\<rparr>) rs,
     map (\<lambda>r. \<lparr>su_sub_id = rs_sub_id r, su_added = rs_added r, su_removed = rs_removed r, su_total = rs_count r,
        su_format = rs_format r\<rparr>) (filter (\<lambda>r. rs_err r = [] \<and> \<not> rs_skipped r \<and> \<not> rs_discarded r) rs))"

definition subscription_row :: "verb_env \<Rightarrow> user_profile \<Rightarrow> subscription \<Rightarrow> subscription_info" where
  "subscription_row ve p s = \<lparr>sn_id = sb_id s, sn_name = sb_name s, sn_url = sb_url s, sn_enabled = sb_enabled s,
     sn_allow_invalid_certs = sb_allow_invalid_certs s,
     sn_last_updated = (if sb_last_updated s = zero_time then [] else ve_rfc3339 ve (sb_last_updated s)),
     sn_node_count = length (filter (\<lambda>n. \<not> IsGroup n \<and> nd_sub_id n = Some (sb_id s)) (pf_nodes p)),
     sn_format = format_text (case ParseFormat (sb_format s) of None \<Rightarrow> FormatAuto | Some f \<Rightarrow> f),
     sn_update_interval_sec = sb_update_interval_sec s, sn_last_error = sb_last_error s\<rparr>"

definition listSubscriptions :: "verb_env \<Rightarrow> verb_request \<Rightarrow> manager \<Rightarrow> store_reply verb_result" where
  "listSubscriptions ve req m = (m, [], rbind (resolved_profile ve req m) (\<lambda>p.
     Inr (SubscriptionsReply (map (subscription_row ve p) (pf_subscriptions p)))))"

text \<open>\<^verbatim>\<open>Refresh\<close> inside a verb: a nil dereference, or the profile, what is reported and what is broadcast.\<close>

definition refresh_in_verb :: "verb_env \<Rightarrow> string \<Rightarrow> manager \<Rightarrow> user_profile \<Rightarrow> (user_profile \<times> refresh_result list) option" where
  "refresh_in_verb ve only m p = Refresh (ve_parsers ve) (ve_fetch ve) (ve_newids ve) (ve_from_name ve) (ve_now ve) only
     (subscriptionUA ve m) p"

definition add_subscription_edit :: "verb_env \<Rightarrow> verb_request \<Rightarrow> string \<Rightarrow> sub_format option \<Rightarrow> store_reply profile_edit" where
  "add_subscription_edit ve req name format profName p m =
    (let s0 = NewSubscription (ve_newid ve) (ve_now ve) (given (vr_url req)) name;
         s1 = (case vr_allow_invalid_certs req of None \<Rightarrow> s0 | Some b \<Rightarrow> s0\<lparr>sb_allow_invalid_certs := b\<rparr>);
         s2 = (case format of None \<Rightarrow> s1 | Some f \<Rightarrow> s1\<lparr>sb_format := format_text f\<rparr>)
     in case AddSubscription s2 p of
       Inl e \<Rightarrow> (m, [], Inl (StoreFailed e))
     | Inr (p1, subID) \<Rightarrow> (case refresh_in_verb ve subID m p1 of
         None \<Rightarrow> (m, [], Inl Panics)
       | Some (p2, results) \<Rightarrow> (m, snd (publishRefreshLocked results),
           Inr (p2, RefreshedReply (''subscription added: '' @ name) (fst (publishRefreshLocked results))))))"

definition addSubscription :: "verb_env \<Rightarrow> verb_request \<Rightarrow> manager \<Rightarrow> store_reply verb_result" where
  "addSubscription ve req m =
    (let url = given (vr_url req);
         name = (if given (vr_name req) \<noteq> [] then given (vr_name req)
                 else (case se_url_parse (fst (ve_parsers ve)) url of Some u \<Rightarrow> u_hostname u | None \<Rightarrow> []))
     in if url = [] then (m, [], Inl (Required ''url''))
        else if name = [] then (m, [], Inl NoNameFromURL)
        else (case vr_format req of
          None \<Rightarrow> withProfile ve req (add_subscription_edit ve req name None) m
        | Some t \<Rightarrow> (case ParseFormat t of
            None \<Rightarrow> (m, [], Inl (UnknownFormat t))
          | Some f \<Rightarrow> withProfile ve req (add_subscription_edit ve req name (Some f)) m)))"

definition refresh_edit :: "verb_env \<Rightarrow> string \<Rightarrow> store_reply profile_edit" where
  "refresh_edit ve only name p m = (case refresh_in_verb ve only m p of
     None \<Rightarrow> (m, [], Inl Panics)
   | Some (p', results) \<Rightarrow>
      if only \<noteq> [] \<and> results = [] then (m, [], Inl (SubscriptionNotFound only))
      else (m, snd (publishRefreshLocked results), Inr (p', RefreshedReply [] (fst (publishRefreshLocked results)))))"

definition refreshSubscriptions :: "verb_env \<Rightarrow> verb_request \<Rightarrow> manager \<Rightarrow> store_reply verb_result" where
  "refreshSubscriptions ve req = withProfile ve req (refresh_edit ve (given (vr_sub req)))"

definition remove_subscription_edit :: "string \<Rightarrow> user_profile \<Rightarrow> verb_error + user_profile \<times> store_reply" where
  "remove_subscription_edit ref p = (case FindSubscription p ref of
     None \<Rightarrow> Inl (SubscriptionNotFound ref)
   | Some sub \<Rightarrow> Inr (fst (RemoveSubscription (sb_id sub) p),
       OkReply [] (''subscription removed (with its nodes): '' @ sb_name sub)))"

definition removeSubscription :: "verb_env \<Rightarrow> verb_request \<Rightarrow> manager \<Rightarrow> store_reply verb_result" where
  "removeSubscription ve req m =
    (if given (vr_sub req) = [] then (m, [], Inl (Required ''sub''))
     else withProfile ve req (edits (remove_subscription_edit (given (vr_sub req)))) m)"

text \<open>The fields a request sets, and then the format, which can be refused.\<close>

definition subscription_changes :: "verb_request \<Rightarrow> subscription \<Rightarrow> subscription" where
  "subscription_changes req s0 =
    (let s1 = (if given (vr_name req) \<noteq> [] then s0\<lparr>sb_name := given (vr_name req)\<rparr> else s0);
         s2 = (if given (vr_url req) \<noteq> [] \<and> given (vr_url req) \<noteq> sb_url s1
               then s1\<lparr>sb_url := given (vr_url req), sb_last_error := []\<rparr> else s1);
         s3 = (case vr_allow_invalid_certs req of None \<Rightarrow> s2 | Some b \<Rightarrow> s2\<lparr>sb_allow_invalid_certs := b\<rparr>);
         s4 = (case vr_enabled req of None \<Rightarrow> s3 | Some b \<Rightarrow> s3\<lparr>sb_enabled := b\<rparr>)
     in case vr_update_interval_sec req of None \<Rightarrow> s4 | Some v \<Rightarrow> s4\<lparr>sb_update_interval_sec := v\<rparr>)"

definition update_subscription_edit :: "verb_request \<Rightarrow> user_profile \<Rightarrow> verb_error + user_profile \<times> store_reply" where
  "update_subscription_edit req p =
    (let ref = given (vr_sub req);
         write = (\<lambda>f. p\<lparr>pf_subscriptions := update_first (\<lambda>s. sb_id s = ref \<or> sb_name s = ref) f (pf_subscriptions p)\<rparr>)
     in case FindSubscription p ref of
       None \<Rightarrow> Inl (SubscriptionNotFound ref)
     | Some sub \<Rightarrow>
        (let reply = OkReply [] (''subscription updated: '' @ sb_name (subscription_changes req sub)) in
         case vr_format req of
           None \<Rightarrow> Inr (write (subscription_changes req), reply)
         | Some t \<Rightarrow> (case ParseFormat t of
             None \<Rightarrow> Inl (UnknownFormat t)
           | Some f \<Rightarrow> Inr (write (\<lambda>s. (subscription_changes req s)\<lparr>sb_format := format_text f\<rparr>), reply))))"

definition updateSubscription :: "verb_env \<Rightarrow> verb_request \<Rightarrow> manager \<Rightarrow> store_reply verb_result" where
  "updateSubscription ve req m =
    (if given (vr_sub req) = [] then (m, [], Inl (Required ''sub''))
     else if (case vr_update_interval_sec req of None \<Rightarrow> False | Some v \<Rightarrow> v < MinUpdateIntervalSec) then (m, [], Inl IntervalTooShort)
     else withProfile ve req (edits (update_subscription_edit req)) m)"

section \<open>Routing\<close>

definition listRouting :: "verb_env \<Rightarrow> verb_request \<Rightarrow> manager \<Rightarrow> store_reply verb_result" where
  "listRouting ve req m = (m, [], rbind (resolved_profile ve req m) (\<lambda>p.
     Inr (RoutingReply (map (\<lambda>rc. \<lparr>gi_id = rc_id rc, gi_name = rc_name rc, gi_rules = length (rc_rules rc),
       gi_rule_sets = length (rc_rule_sets rc), gi_active = (pf_active_routing_id p = Some (rc_id rc))\<rparr>) (pf_routing_configs p)))))"

definition find_routing :: "user_profile \<Rightarrow> string \<Rightarrow> verb_error + routing_config" where
  "find_routing p ref = (case FindRouting p ref of None \<Rightarrow> Inl (RoutingNotFound ref) | Some rc \<Rightarrow> Inr rc)"

definition select_routing_edit :: "string \<Rightarrow> user_profile \<Rightarrow> verb_error + user_profile \<times> store_reply" where
  "select_routing_edit ref p = rbind (find_routing p ref) (\<lambda>rc.
     rbind (store_result (SetActiveRouting (rc_id rc) p)) (\<lambda>p'. Inr (p', OkReply [] (''active routing: '' @ rc_name rc))))"

definition selectRouting :: "verb_env \<Rightarrow> verb_request \<Rightarrow> manager \<Rightarrow> store_reply verb_result" where
  "selectRouting ve req m =
    (if given (vr_routing req) = [] then (m, [], Inl (Required ''routing''))
     else withProfile ve req (edits (select_routing_edit (given (vr_routing req)))) m)"

definition getRouting :: "verb_env \<Rightarrow> verb_request \<Rightarrow> manager \<Rightarrow> store_reply verb_result" where
  "getRouting ve req m = (let ref = given (vr_routing req) in
     if ref = [] then (m, [], Inl (Required ''routing''))
     else (m, [], rbind (resolved_profile ve req m) (\<lambda>p. rbind (find_routing p ref) (\<lambda>rc.
       case MarshalConfig rc of Inl e \<Rightarrow> Inl (RoutingEncodeFailed e) | Inr j \<Rightarrow> Inr (RoutingConfigReply j)))))"

definition upsert_routing_edit :: "verb_env \<Rightarrow> routing_config \<Rightarrow> user_profile \<Rightarrow> verb_error + user_profile \<times> store_reply" where
  "upsert_routing_edit ve rc p =
    (let reply = OkReply [] (''routing upserted: '' @ rc_name rc) in
     if list_ex (\<lambda>r. rc_id r = rc_id rc) (pf_routing_configs p)
     then rbind (store_result (ReplaceRoutingByID (rc_id rc) rc p)) (\<lambda>p'. Inr (p', reply))
     else rbind (store_result (AddRouting (ve_newid ve) rc p)) (\<lambda>(p', i). Inr (p', reply)))"

text \<open>A config decoded without an id draws \<open>ve_newids ve 0 0\<close>.\<close>

definition upsertRouting :: "verb_env \<Rightarrow> verb_request \<Rightarrow> manager \<Rightarrow> store_reply verb_result" where
  "upsertRouting ve req m = (case vr_routing_config req of
     None \<Rightarrow> (m, [], Inl (Required ''routing_config''))
   | Some j \<Rightarrow> (case UnmarshalConfig (ve_newids ve 0 0) j of
       Inl e \<Rightarrow> (m, [], Inl (BadRoutingPayload e))
     | Inr rc \<Rightarrow> withProfile ve req (edits (upsert_routing_edit ve rc)) m))"

definition remove_routing_edit :: "string \<Rightarrow> user_profile \<Rightarrow> verb_error + user_profile \<times> store_reply" where
  "remove_routing_edit ref p = rbind (find_routing p ref) (\<lambda>rc.
     Inr (fst (RemoveRouting (rc_id rc) p), OkReply [] (''routing removed: '' @ rc_name rc)))"

definition removeRouting :: "verb_env \<Rightarrow> verb_request \<Rightarrow> manager \<Rightarrow> store_reply verb_result" where
  "removeRouting ve req m =
    (if given (vr_routing req) = [] then (m, [], Inl (Required ''routing''))
     else withProfile ve req (edits (remove_routing_edit (given (vr_routing req)))) m)"

section \<open>Dispatch\<close>

datatype store_verb =
    CmdListProfiles | CmdCreateProfile | CmdDeleteProfile | CmdSetActiveProfile
  | CmdListNodes | CmdSelectNode | CmdAddNode | CmdRemoveNode | CmdSetNodePrefs
  | CmdUpsertGroup | CmdGetGroup | CmdGetNode
  | CmdListSubs | CmdAddSub | CmdRefreshSubs | CmdRemoveSub | CmdUpdateSub
  | CmdListRouting | CmdSelectRouting | CmdGetRouting | CmdUpsertRouting | CmdRemoveRouting

text \<open>The store verbs of \<^verbatim>\<open>Handle\<close>. \<open>oc\<close> and \<open>oc'\<close> are the outcomes of the two locked sections of a core pin.\<close>

fun handle_store :: "verb_env \<Rightarrow> outcomes \<Rightarrow> outcomes \<Rightarrow> store_verb \<Rightarrow> verb_request \<Rightarrow> manager \<Rightarrow> store_reply verb_result" where
  "handle_store ve oc oc' CmdListProfiles req = listProfiles ve"
| "handle_store ve oc oc' CmdCreateProfile req = createProfile ve req"
| "handle_store ve oc oc' CmdDeleteProfile req = deleteProfile ve req"
| "handle_store ve oc oc' CmdSetActiveProfile req = setActiveProfile ve req"
| "handle_store ve oc oc' CmdListNodes req = listNodes ve req"
| "handle_store ve oc oc' CmdSelectNode req = selectNode ve req"
| "handle_store ve oc oc' CmdAddNode req = addNode ve req"
| "handle_store ve oc oc' CmdRemoveNode req = removeNode ve req"
| "handle_store ve oc oc' CmdSetNodePrefs req = setNodePrefs ve oc oc' req"
| "handle_store ve oc oc' CmdUpsertGroup req = upsertGroup ve req"
| "handle_store ve oc oc' CmdGetGroup req = getGroup ve req"
| "handle_store ve oc oc' CmdGetNode req = getNode ve req"
| "handle_store ve oc oc' CmdListSubs req = listSubscriptions ve req"
| "handle_store ve oc oc' CmdAddSub req = addSubscription ve req"
| "handle_store ve oc oc' CmdRefreshSubs req = refreshSubscriptions ve req"
| "handle_store ve oc oc' CmdRemoveSub req = removeSubscription ve req"
| "handle_store ve oc oc' CmdUpdateSub req = updateSubscription ve req"
| "handle_store ve oc oc' CmdListRouting req = listRouting ve req"
| "handle_store ve oc oc' CmdSelectRouting req = selectRouting ve req"
| "handle_store ve oc oc' CmdGetRouting req = getRouting ve req"
| "handle_store ve oc oc' CmdUpsertRouting req = upsertRouting ve req"
| "handle_store ve oc oc' CmdRemoveRouting req = removeRouting ve req"

section \<open>Well-formed profiles on disk\<close>

definition profile_good :: "verb_env \<Rightarrow> user_profile \<Rightarrow> bool" where
  "profile_good ve p = (profile_inv p \<and> profile_storable p \<and>
     (\<forall>s \<in> set (pf_subscriptions p). dv_parse_time (ve_dv ve) (ve_fmt_time ve (sb_last_updated s)) = Some (sb_last_updated s)))"

definition stored_good :: "verb_env \<Rightarrow> manager \<Rightarrow> bool" where
  "stored_good ve m = (\<forall>name p. load_profile (ve_dv ve) m name = Inr p \<longrightarrow> profile_good ve p)"

text \<open>What a verb relies on: maps are iterated completely, fresh ids are not empty, the current time survives printing.\<close>

definition env_ok :: "verb_env \<Rightarrow> bool" where
  "env_ok ve = (visits (dv_json_iter (ve_dv ve)) \<and> ve_newid ve \<noteq> [] \<and> ve_newids ve 0 0 \<noteq> [] \<and>
     dv_parse_time (ve_dv ve) (ve_fmt_time ve (ve_now ve)) = Some (ve_now ve))"

lemma LoadProfile_entry:
  "profile_entry fs name = profile_entry fs' name \<Longrightarrow> LoadProfile it pt ni fs name = LoadProfile it pt ni fs' name"
  by (simp only: LoadProfile_def)

lemma SaveProfile_frame:
  assumes "SaveProfile fmt_time io name p fs = (fs', e)"
  shows "other \<noteq> name \<Longrightarrow> profile_entry fs' other = profile_entry fs other" "fs_state fs' = fs_state fs"
    "fs_last_session fs' = fs_last_session fs" "e \<noteq> None \<Longrightarrow> fs' = fs"
  by (rule SaveProfile_cases [of fmt_time io name p fs]; use assms in \<open>auto simp: obj_simps\<close>)+

lemma SaveProfile_marshals: "SaveProfile fmt_time io name p fs = (fs', None) \<Longrightarrow> \<exists>j. MarshalProfile fmt_time (normalize p) = Inr j"
  by (rule SaveProfile_cases [of fmt_time io name p fs]) auto

lemma profile_good_version: "profile_good ve (p\<lparr>pf_schema_version := v\<rparr>) = profile_good ve p"
  by (simp add: profile_good_def profile_inv_def profile_storable_def)

lemma stored_good_saved:
  assumes "env_ok ve" "stored_good ve m" "profile_good ve p" "SaveProfile (ve_fmt_time ve) io name p (mg_fs m) = (fs', None)"
  shows "stored_good ve (m\<lparr>mg_fs := fs'\<rparr>)"
  unfolding stored_good_def
proof (intro allI impI)
  fix other q assume q: "load_profile (ve_dv ve) (m\<lparr>mg_fs := fs'\<rparr>) other = Inr q"
  have h: "load_profile (ve_dv ve) (m\<lparr>mg_fs := fs'\<rparr>) name = Inr (p\<lparr>pf_schema_version := SchemaVersion\<rparr>)"
    using saved_loads [OF _ _ _ assms(4)] assms(1,3) by (simp add: profile_good_def env_ok_def)
  show "profile_good ve q"
    using h q assms(2,3) LoadProfile_entry [OF SaveProfile_frame(1) [OF assms(4)], of other]
    by (cases "other = name") (auto simp: profile_good_version stored_good_def)
qed

section \<open>The contract of an edit\<close>

lemma sessionReconnectLocked_frame:
  assumes "sessionReconnectLocked oc name p m = (m1, rc)"
  shows "fs_profiles (mg_fs m1) = fs_profiles (mg_fs m)" "fs_state (mg_fs m1) = fs_state (mg_fs m)" "mg_settings m1 = mg_settings m"
proof -
  have "fs_profiles (mg_fs (saveLastSessionLocked oc n)) = fs_profiles (mg_fs n)" "fs_state (mg_fs (saveLastSessionLocked oc n)) = fs_state (mg_fs n)" for n
    by (simp_all add: saveLastSessionLocked_def session_fields split: option.splits)
  then have "fs_profiles (mg_fs (relabelPlanLocked oc fresh current n)) = fs_profiles (mg_fs n)"
    "fs_state (mg_fs (relabelPlanLocked oc fresh current n)) = fs_state (mg_fs n)"
    "mg_settings (relabelPlanLocked oc fresh current n) = mg_settings n" for fresh current n
    by (simp_all add: relabelPlanLocked_def Let_def split: option.splits)
  then show "fs_profiles (mg_fs m1) = fs_profiles (mg_fs m)" "fs_state (mg_fs m1) = fs_state (mg_fs m)" "mg_settings m1 = mg_settings m"
    using assms by (auto simp: sessionReconnectLocked_def Let_def split: option.splits if_splits sum.splits prod.splits)
qed

text \<open>
  What \<open>withProfile\<close> expects of its argument: a good profile (for which \<open>pre\<close> holds) that can be written
  afterwards is good again, and the manager is only touched by deciding a reconnect, which the
  result then reports as \<open>decided\<close>.
\<close>

locale profile_editor =
  fixes ve :: verb_env
    and pre :: "user_profile \<Rightarrow> bool"
    and decided :: "'r \<Rightarrow> session_reconnect option"
    and fn :: "'r profile_edit"
  assumes keeps_good: "env_ok ve \<Longrightarrow> pre p \<Longrightarrow> profile_good ve p \<Longrightarrow> fn name p m = (m1, evs, Inr (p', r)) \<Longrightarrow>
      MarshalProfile (ve_fmt_time ve) (normalize p') = Inr j \<Longrightarrow> profile_good ve p'"
    and moves: "fn name p m = (m1, evs, res) \<Longrightarrow>
      m1 = m \<and> (\<forall>p' r. res = Inr (p', r) \<longrightarrow> decided r = None) \<or>
      (\<exists>oc q rc. sessionReconnectLocked oc name q m = (m1, rc) \<and> (\<forall>p' r. res = Inr (p', r) \<longrightarrow> decided r = rc))"
begin

lemma edit_frame:
  assumes "fn name p m = (m1, evs, res)"
  shows "fs_profiles (mg_fs m1) = fs_profiles (mg_fs m)" "fs_state (mg_fs m1) = fs_state (mg_fs m)" "mg_settings m1 = mg_settings m"
  using moves [OF assms] sessionReconnectLocked_frame by metis+

lemma withProfile_cases:
  assumes "withProfile ve req fn m = (m', evs, res)"
  obtains (unread) e where "m' = m" "evs = []" "res = Inl e"
  | (refused) name p e where "load_profile (ve_dv ve) m name = Inr p" "fn name p m = (m', evs, Inl e)" "res = Inl e"
  | (unsaved) name p m1 p' r e where "load_profile (ve_dv ve) m name = Inr p" "fn name p m = (m', evs, Inr (p', r))" "res = Inl (FileFailed e)"
  | (saved) name p m1 p' r fs' where "resolveProfileName req m = Inr name" "load_profile (ve_dv ve) m name = Inr p" "fn name p m = (m1, evs, Inr (p', r))"
      "SaveProfile (ve_fmt_time ve) (ve_io ve) name p' (mg_fs m1) = (fs', None)" "m' = m1\<lparr>mg_fs := fs'\<rparr>" "res = Inr r"
proof (cases "resolveProfileName req m")
  case (Inr name)
  show thesis
  proof (cases "load_profile (ve_dv ve) m name")
    case load: (Inr p)
    obtain m1 ev1 r1 where fn: "fn name p m = (m1, ev1, r1)" by (cases "fn name p m")
    show thesis
    proof (cases r1)
      case (Inl e)
      then show thesis using assms Inr load fn refused by (simp add: withProfile_def)
    next
      case r1: (Inr x)
      obtain p' r where x: "x = (p', r)" by (cases x)
      obtain fs' e where sv: "SaveProfile (ve_fmt_time ve) (ve_io ve) name p' (mg_fs m1) = (fs', e)"
        by (cases "SaveProfile (ve_fmt_time ve) (ve_io ve) name p' (mg_fs m1)")
      show thesis
      proof (cases e)
        case None
        then show thesis using assms Inr load fn r1 x sv saved by (simp add: withProfile_def)
      next
        case (Some err)
        then have "fs' = mg_fs m1" using SaveProfile_frame(4) [OF sv] by simp
        then show thesis using assms Inr load fn r1 x sv Some unsaved [of name p p' r err] by (simp add: withProfile_def)
      qed
    qed
  qed (use assms Inr unread in \<open>auto simp: withProfile_def\<close>)
qed (use assms unread in \<open>auto simp: withProfile_def\<close>)

lemma transaction:
  assumes "withProfile ve req fn m = (m', evs, res)"
  shows "\<exists>name. \<forall>other. res = (Inl e) \<or> other \<noteq> name \<longrightarrow> profile_entry (mg_fs m') other = profile_entry (mg_fs m) other"
    and "fs_state (mg_fs m') = fs_state (mg_fs m)" and "mg_settings m' = mg_settings m"
proof -
  have "(\<exists>name. \<forall>other. res = Inl e \<or> other \<noteq> name \<longrightarrow> profile_entry (mg_fs m') other = profile_entry (mg_fs m) other) \<and>
      fs_state (mg_fs m') = fs_state (mg_fs m) \<and> mg_settings m' = mg_settings m"
    using assms
  proof (cases rule: withProfile_cases)
    case (saved name p m1 p' r fs')
    then show ?thesis using edit_frame [OF saved(3)] SaveProfile_frame(1,2) [OF saved(4)] by auto
  qed (use edit_frame in simp_all)
  then show "\<exists>name. \<forall>other. res = (Inl e) \<or> other \<noteq> name \<longrightarrow> profile_entry (mg_fs m') other = profile_entry (mg_fs m) other"
    "fs_state (mg_fs m') = fs_state (mg_fs m)" "mg_settings m' = mg_settings m"
    by blast+
qed

lemma keeps_stored:
  assumes "withProfile ve req fn m = (m', evs, res)" and "env_ok ve" and "stored_good ve m"
    and "\<And>name p. resolveProfileName req m = Inr name \<Longrightarrow> load_profile (ve_dv ve) m name = Inr p \<Longrightarrow> pre p"
  shows "stored_good ve m'"
proof -
  have same: "stored_good ve m1" if "fn name p m = (m1, evs, r)" for m1 name p r
    using assms(3) LoadProfile_cong [OF edit_frame(1) [OF that]] by (simp add: stored_good_def)
  show ?thesis
    using assms(1)
  proof (cases rule: withProfile_cases)
    case (saved name p m1 p' r fs')
    have "profile_good ve p" using saved(2) assms(3) by (simp add: stored_good_def)
    moreover obtain j where "MarshalProfile (ve_fmt_time ve) (normalize p') = Inr j" using SaveProfile_marshals [OF saved(4)] by blast
    ultimately have "profile_good ve p'" using keeps_good [OF assms(2) assms(4) [OF saved(1,2)] _ saved(3)] by blast
    then show ?thesis using stored_good_saved [OF assms(2) same [OF saved(3)] _ saved(4)] saved(5) by simp
  qed (use assms(3) same in auto)
qed

lemma session_run:
  assumes "withProfile ve req fn m = (m', evs, res)" and "session_reachable (ve_dv ve) (m, P)"
  shows "\<exists>P'. session_reachable (ve_dv ve) (m', P') \<and> (\<forall>r rc. res = Inr r \<and> decided r = Some rc \<longrightarrow> PDecided rc \<in> set P')"
proof -
  have run: "\<exists>P'. session_reachable (ve_dv ve) (m1, P') \<and> (\<forall>p' r rc. x = Inr (p', r) \<and> decided r = Some rc \<longrightarrow> PDecided rc \<in> set P')"
    if f: "fn name p m = (m1, evs, x)" for m1 name p x
    using moves [OF f]
  proof (elim disjE exE conjE)
    fix oc q rc assume d: "sessionReconnectLocked oc name q m = (m1, rc)" "\<forall>p' r. x = Inr (p', r) \<longrightarrow> decided r = rc"
    then show ?thesis using session_reachable.step [OF assms(2) session_step.decide [OF d(1)]] by (intro exI conjI) auto
  qed (use assms(2) in auto)
  show ?thesis
    using assms(1)
  proof (cases rule: withProfile_cases)
    case (saved name p m1 p' r fs')
    obtain P' where P': "session_reachable (ve_dv ve) (m1, P')" "\<forall>rc. decided r = Some rc \<longrightarrow> PDecided rc \<in> set P'"
      using run [OF saved(3)] by auto
    then show ?thesis
      using session_reachable.step [OF P'(1) session_step.store, of fs'] SaveProfile_frame(3) [OF saved(4)] saved(5,6) by auto
  qed (use assms(2) run in fastforce)+
qed

end

section \<open>Every edit keeps the contract\<close>

lemma profile_editor_edits:
  assumes "\<And>p p' r j. env_ok ve \<Longrightarrow> pre p \<Longrightarrow> profile_good ve p \<Longrightarrow> f p = Inr (p', r) \<Longrightarrow>
      MarshalProfile (ve_fmt_time ve) (normalize p') = Inr j \<Longrightarrow> profile_good ve p'"
  shows "profile_editor ve pre (\<lambda>_. None) (edits f)"
  by unfold_locales (use assms in \<open>auto simp: edits_def\<close>)

lemma profile_good_grow:
  assumes "profile_good ve p" "env_ok ve" "profile_inv p'"
    and "\<And>n. n \<in> set (pf_nodes p') \<Longrightarrow> n \<in> set (pf_nodes p) \<or> node_storable n"
    and "\<And>c. c \<in> set (pf_routing_configs p') \<Longrightarrow> c \<in> set (pf_routing_configs p) \<or> config_ok c"
    and "\<And>s. s \<in> set (pf_subscriptions p') \<Longrightarrow> sb_last_updated s \<in> sb_last_updated ` set (pf_subscriptions p) \<or> sb_last_updated s = ve_now ve"
  shows "profile_good ve p'"
proof -
  have "dv_parse_time (ve_dv ve) (ve_fmt_time ve (sb_last_updated s)) = Some (sb_last_updated s)" if "s \<in> set (pf_subscriptions p')" for s
    using assms(1,2) assms(6) [OF that] by (auto simp: profile_good_def env_ok_def)
  moreover have "node_storable n" if "n \<in> set (pf_nodes p')" for n
    using assms(1) assms(4) [OF that] by (auto simp: profile_good_def profile_storable_def)
  moreover have "config_ok c" if "c \<in> set (pf_routing_configs p')" for c
    using assms(1) assms(5) [OF that] by (auto simp: profile_good_def profile_storable_def)
  ultimately show ?thesis using assms(3) by (simp add: profile_good_def profile_storable_def)
qed

lemma profile_good_inv: "profile_good ve p \<Longrightarrow> profile_inv p"
  by (simp add: profile_good_def)

lemma update_first_mem: "x \<in> set (update_first P f xs) \<Longrightarrow> x \<in> set xs \<or> (\<exists>y \<in> set xs. P y \<and> x = f y)"
  by (induction xs) (auto split: if_splits)

lemma store_result_Inr: "store_result r = Inr x \<longleftrightarrow> r = Inr x"
  by (cases r) (auto simp: store_result_def)

lemmas edit_simps = rbind_eq_Inr_iff store_result_Inr

lemma same_routing_configs: "same_routing p q \<Longrightarrow> pf_routing_configs q = pf_routing_configs p"
  by (simp add: same_routing_def)

lemma RemoveSubscription_frame:
  "same_routing p (fst (RemoveSubscription i p))" "set (pf_subscriptions (fst (RemoveSubscription i p))) \<subseteq> set (pf_subscriptions p)"
  "set (pf_nodes (fst (RemoveSubscription i p))) \<subseteq> set (pf_nodes p)"
  using ReplaceSubscriptionNodes_same(1) [of "p\<lparr>pf_subscriptions := filter (\<lambda>s. sb_id s \<noteq> i) (pf_subscriptions p)\<rparr>" i "[]"]
  by (auto simp: RemoveSubscription_def Let_def ReplaceSubscriptionNodes_nodes ReplaceSubscriptionNodes_same(2) same_routing_def)

lemma AddNode_frame:
  "set (pf_nodes (fst (AddNode n p))) = insert n (set (pf_nodes p))" "pf_subscriptions (fst (AddNode n p)) = pf_subscriptions p"
  "pf_routing_configs (fst (AddNode n p)) = pf_routing_configs p"
  using SetActiveNodeIfUnset_fields(3) [of p "p\<lparr>pf_nodes := pf_nodes p @ [n]\<rparr>"]
  by (simp_all add: AddNode_def same_routing_def)

lemma SetActiveNode_good:
  assumes "profile_good ve p" "env_ok ve" "SetActiveNode i p = Inr p'"
  shows "profile_good ve p'"
  by (rule profile_good_grow [OF assms(1,2) SetActiveNode_inv [OF profile_good_inv [OF assms(1)] assms(3)]])
     (use assms(3) in \<open>auto simp: SetActiveNode_def split: option.splits\<close>)

lemma AddNode_good:
  assumes "profile_good ve p" "env_ok ve" "node_storable n"
  shows "profile_good ve (fst (AddNode n p))"
  by (rule profile_good_grow [OF assms(1,2) AddNode_inv [OF profile_good_inv [OF assms(1)]]])
     (use assms(3) in \<open>auto simp: AddNode_frame\<close>)

lemma RemoveNodeByID_good:
  assumes "profile_good ve p" "env_ok ve"
  shows "profile_good ve (fst (RemoveNodeByID i p))"
  by (rule profile_good_grow [OF assms RemoveNodeByID_inv [OF profile_good_inv [OF assms(1)]]])
     (auto simp: RemoveNodeByID_def Let_def split: if_splits)

lemma RemoveSubscription_good:
  assumes "profile_good ve p" "env_ok ve"
  shows "profile_good ve (fst (RemoveSubscription i p))"
  by (rule profile_good_grow [OF assms RemoveSubscription_inv [OF profile_good_inv [OF assms(1)]]])
     (use RemoveSubscription_frame [where i = i and p = p] in \<open>auto simp: same_routing_def\<close>)

lemma SetActiveRouting_good:
  assumes "profile_good ve p" "env_ok ve" "SetActiveRouting i p = Inr p'"
  shows "profile_good ve p'"
  by (rule profile_good_grow [OF assms(1,2) SetActiveRouting_inv [OF profile_good_inv [OF assms(1)] assms(3)]])
     (use assms(3) in \<open>auto simp: SetActiveRouting_def split: if_splits\<close>)

lemma RemoveRouting_good:
  assumes "profile_good ve p" "env_ok ve"
  shows "profile_good ve (fst (RemoveRouting i p))"
  by (rule profile_good_grow [OF assms RemoveRouting_inv [OF profile_good_inv [OF assms(1)]]])
     (auto simp: RemoveRouting_def Let_def split: if_splits)

lemma AddGroup_good:
  assumes "profile_good ve p" "env_ok ve" "AddGroup newid g p = Inr (p', i)"
  shows "profile_good ve p'"
  by (rule profile_good_grow [OF assms(1,2) AddGroup_inv [OF profile_good_inv [OF assms(1)] assms(3)]])
     (use assms(3) in \<open>auto simp: AddGroup_def Let_def NewGroupNode_def node_storable_def split: if_splits\<close>)

lemma replace_group_in_docs: "replace_group_in i g ns = Inr ns' \<Longrightarrow> map nd_doc ns' = map nd_doc ns"
  by (induction ns arbitrary: ns') (auto simp: rbind_eq_Inr_iff split: if_splits)

text \<open>Whether nodes can be stored depends on their profiles only.\<close>

lemma storable_docs:
  assumes "map nd_doc ns' = map nd_doc ns" "\<forall>n \<in> set ns. node_storable n" "n \<in> set ns'"
  shows "node_storable n"
proof -
  have "nd_doc n \<in> set (map nd_doc ns)" using assms(1,3) by (metis image_eqI set_map)
  then show ?thesis using assms(2) by (auto simp: node_storable_def)
qed

lemma profile_good_nodes: "profile_good ve p \<Longrightarrow> \<forall>n \<in> set (pf_nodes p). node_storable n"
  by (simp add: profile_good_def profile_storable_def)

lemma ReplaceGroupByID_good:
  assumes "profile_good ve p" "env_ok ve" "ReplaceGroupByID i g p = Inr p'"
  shows "profile_good ve p'"
  by (rule profile_good_grow [OF assms(1,2) ReplaceGroupByID_inv [OF profile_good_inv [OF assms(1)] assms(3)]])
     (use assms(3) storable_docs [OF replace_group_in_docs profile_good_nodes [OF assms(1)]] in
       \<open>auto simp: ReplaceGroupByID_def rbind_eq_Inr_iff split: if_splits\<close>)

lemma update_node_good:
  assumes "profile_good ve p" "env_ok ve"
  shows "profile_good ve (update_node ref (\<lambda>n. n\<lparr>nd_core_override := core\<rparr>) p)"
proof (rule profile_good_grow [OF assms])
  let ?p = "update_node ref (\<lambda>n. n\<lparr>nd_core_override := core\<rparr>) p"
  show "profile_inv ?p"
    using profile_good_inv [OF assms(1)] by (simp add: profile_inv_def update_node_def update_first_map)
  have "map nd_doc (pf_nodes ?p) = map nd_doc (pf_nodes p)" by (simp add: update_node_def update_first_map)
  then show "n \<in> set (pf_nodes p) \<or> node_storable n" if "n \<in> set (pf_nodes ?p)" for n
    using storable_docs [OF _ profile_good_nodes [OF assms(1)]] that by blast
qed (auto simp: update_node_def)

interpretation select_node: profile_editor ve "\<lambda>_. True" "\<lambda>_. None" "edits (select_node_edit ref)" for ve ref
  by (rule profile_editor_edits) (auto simp: select_node_edit_def edit_simps intro: SetActiveNode_good)

interpretation add_node: profile_editor ve "\<lambda>_. True" "\<lambda>_. None" "edits (add_node_edit ve url)" for ve url
  by (rule profile_editor_edits)
     (auto simp: add_node_edit_def Let_def node_storable_def NewNode_def intro!: AddNode_good intro: ParseURL_profile_ok split: sum.splits)

interpretation remove_node: profile_editor ve "\<lambda>_. True" "\<lambda>_. None" "edits (remove_node_edit ref)" for ve ref
  by (rule profile_editor_edits) (auto simp: remove_node_edit_def edit_simps intro: RemoveNodeByID_good)

interpretation node_prefs: profile_editor ve "\<lambda>_. True" snd "node_prefs_edit oc ref core" for ve oc ref core
  by unfold_locales
     (auto simp: node_prefs_edit_def pin_core_def edit_simps intro: update_node_good split: sum.splits prod.splits if_splits)

interpretation upsert_group: profile_editor ve "\<lambda>_. True" "\<lambda>_. None" "edits (upsert_group_edit ve g)" for ve g
  by (rule profile_editor_edits)
     (auto simp: upsert_group_edit_def edit_simps intro: AddGroup_good ReplaceGroupByID_good split: if_splits)

interpretation remove_subscription: profile_editor ve "\<lambda>_. True" "\<lambda>_. None" "edits (remove_subscription_edit ref)" for ve ref
  by (rule profile_editor_edits) (auto simp: remove_subscription_edit_def intro: RemoveSubscription_good split: option.splits)

interpretation select_routing: profile_editor ve "\<lambda>_. True" "\<lambda>_. None" "edits (select_routing_edit ref)" for ve ref
  by (rule profile_editor_edits) (auto simp: select_routing_edit_def edit_simps intro: SetActiveRouting_good)

interpretation remove_routing: profile_editor ve "\<lambda>_. True" "\<lambda>_. None" "edits (remove_routing_edit ref)" for ve ref
  by (rule profile_editor_edits) (auto simp: remove_routing_edit_def edit_simps intro: RemoveRouting_good)

section \<open>Refreshing keeps the contract\<close>

lemma reconcile_docs: "map nd_doc (reconcile p subID ns) = map nd_doc ns"
  by (simp add: reconcile_map Let_def split: option.splits)

lemma landed_storable:
  assumes "parse_body ps newid body subID format = Inr r" "n \<in> set (landed_nodes p subID r @ landed_groups fromName p subID r)"
  shows "node_storable n"
proof -
  let ?gs = "materializeGroups fromName (oc_groups r) (landed_nodes p subID r) subID"
  have "\<forall>n \<in> set (oc_nodes r). node_storable n"
    using parse_body_wf(2) [OF assms(1)] by (auto simp: list_all_iff usable_node_def node_storable_def split: option.splits)
  moreover have "\<forall>n \<in> set ?gs. node_storable n"
    using materializeGroups_node [of _ fromName "oc_groups r" "landed_nodes p subID r" subID]
    by (fastforce simp: materialize_group_def node_storable_def NewGroupNode_def Let_def split: if_splits)
  ultimately show ?thesis
    using assms(2) storable_docs [OF reconcile_docs] by (auto simp: landed_nodes_def landed_groups_def)
qed

lemma update_sub_times:
  "s \<in> set (pf_subscriptions (update_sub i f p)) \<Longrightarrow> (\<And>s. sb_last_updated (f s) = sb_last_updated s \<or> sb_last_updated (f s) = t) \<Longrightarrow>
   sb_last_updated s \<in> sb_last_updated ` set (pf_subscriptions p) \<or> sb_last_updated s = t"
  by (auto simp: update_sub_def dest!: update_first_mem)

lemma Apply_good:
  assumes "profile_good ve p" "env_ok ve" "Apply ps newid fromName (ve_now ve) fr p = Some (p', res)"
  shows "profile_good ve p'"
proof (rule profile_good_grow [OF assms(1,2) Apply_inv [OF profile_good_inv [OF assms(1)] assms(3)]])
  show "n \<in> set (pf_nodes p) \<or> node_storable n" if "n \<in> set (pf_nodes p')" for n
    using assms(3) that by (cases rule: Apply_cases) (auto simp: ReplaceSubscriptionNodes_nodes dest: landed_storable)
  show "c \<in> set (pf_routing_configs p) \<or> config_ok c" if "c \<in> set (pf_routing_configs p')" for c
    using assms(3) that by (cases rule: Apply_cases) (auto simp: same_routing_configs [OF ReplaceSubscriptionNodes_same(1)])
  show "sb_last_updated s \<in> sb_last_updated ` set (pf_subscriptions p) \<or> sb_last_updated s = ve_now ve"
    if "s \<in> set (pf_subscriptions p')" for s
    using assms(3)
  proof (cases rule: Apply_cases)
    case (landed sub body r)
    have "sb_last_updated s \<in> sb_last_updated ` set (pf_subscriptions (ReplaceSubscriptionNodes (sb_id sub)
        (landed_nodes p (sb_id sub) r @ landed_groups fromName p (sb_id sub) r) p)) \<or> sb_last_updated s = ve_now ve"
      using that unfolding landed(5) by (rule update_sub_times) simp
    then show ?thesis unfolding ReplaceSubscriptionNodes_same(2) .
  qed (use that update_sub_times [of s _ _ p "ve_now ve"] in auto)
qed

lemma refresh_from_step:
  assumes "refresh_from ps fenv newid fromName now only ua (i # is) p = Some (p', rs)"
  obtains p1 rs1 where "p1 = p \<or> (\<exists>nid fr res. Apply ps nid fromName now fr p = Some (p1, res))"
    "refresh_from ps fenv newid fromName now only ua is p1 = Some (p', rs1)"
proof -
  let ?sub = "pf_subscriptions p ! i"
  show thesis
  proof (cases "only \<noteq> [] \<and> sb_id ?sub \<noteq> only \<and> sb_name ?sub \<noteq> only \<or> only = [] \<and> \<not> sb_enabled ?sub")
    case False
    then obtain p1 res where "Apply ps (newid i) fromName now (FetchSubscription ps fenv (newid i) ?sub ua) p = Some (p1, res)"
        "\<exists>rs1. refresh_from ps fenv newid fromName now only ua is p1 = Some (p', rs1)"
      using assms by (auto simp: Let_def split: option.splits if_splits)
    then show thesis using that by blast
  qed (use assms that in \<open>auto simp: Let_def split: if_splits\<close>)
qed

lemma refresh_from_good:
  "refresh_from ps fenv newid fromName (ve_now ve) only ua is p = Some (p', rs) \<Longrightarrow> env_ok ve \<Longrightarrow> profile_good ve p \<Longrightarrow> profile_good ve p'"
proof (induction "is" arbitrary: p rs)
  case (Cons i "is")
  from Cons.prems(1) obtain p1 rs1 where "p1 = p \<or> (\<exists>nid fr res. Apply ps nid fromName (ve_now ve) fr p = Some (p1, res))"
      "refresh_from ps fenv newid fromName (ve_now ve) only ua is p1 = Some (p', rs1)"
    by (rule refresh_from_step)
  then show ?case using Cons.IH Cons.prems(2,3) Apply_good by blast
qed simp

lemma refresh_in_verb_good:
  "refresh_in_verb ve only m p = Some (p', rs) \<Longrightarrow> env_ok ve \<Longrightarrow> profile_good ve p \<Longrightarrow> profile_good ve p'"
  unfolding refresh_in_verb_def Refresh_def by (rule refresh_from_good)

lemma AddSubscription_good:
  assumes "profile_good ve p" "env_ok ve" "AddSubscription sub p = Inr (p', i)" "sb_last_updated sub = ve_now ve"
  shows "profile_good ve p'"
  by (rule profile_good_grow [OF assms(1,2) AddSubscription_inv [OF profile_good_inv [OF assms(1)] assms(3)]])
     (use assms(3,4) in \<open>auto simp: AddSubscription_def split: if_splits\<close>)

interpretation refresh: profile_editor ve "\<lambda>_. True" "\<lambda>_. None" "refresh_edit ve only" for ve only
  by unfold_locales (auto simp: refresh_edit_def intro: refresh_in_verb_good split: option.splits if_splits)

interpretation add_subscription: profile_editor ve "\<lambda>_. True" "\<lambda>_. None" "add_subscription_edit ve req name format" for ve req name format
proof unfold_locales
  fix p profName m m1 evs p' r j
  assume h: "env_ok ve" "profile_good ve p" "add_subscription_edit ve req name format profName p m = (m1, evs, Inr (p', r))"
  let ?s1 = "case vr_allow_invalid_certs req of None \<Rightarrow> NewSubscription (ve_newid ve) (ve_now ve) (given (vr_url req)) name
     | Some b \<Rightarrow> (NewSubscription (ve_newid ve) (ve_now ve) (given (vr_url req)) name)\<lparr>sb_allow_invalid_certs := b\<rparr>"
  let ?s = "case format of None \<Rightarrow> ?s1 | Some f \<Rightarrow> ?s1\<lparr>sb_format := format_text f\<rparr>"
  obtain p1 i rs where "AddSubscription ?s p = Inr (p1, i)" "refresh_in_verb ve i m p1 = Some (p', rs)"
    using h(3) by (auto simp: add_subscription_edit_def Let_def split: sum.splits option.splits)
  moreover have "sb_last_updated ?s = ve_now ve" by (simp add: NewSubscription_def split: option.splits)
  ultimately show "profile_good ve p'" using AddSubscription_good [OF h(2,1)] refresh_in_verb_good h(1) by blast
qed (auto simp: add_subscription_edit_def Let_def split: sum.splits option.splits)

lemma subscription_changes_sel [simp]:
  "sb_last_updated (subscription_changes req s) = sb_last_updated s"
  "sb_url (subscription_changes req s) = (if given (vr_url req) \<noteq> [] then given (vr_url req) else sb_url s)"
  by (simp_all add: subscription_changes_def Let_def split: option.splits)

lemma update_subscription_good:
  assumes "profile_good ve p" "env_ok ve" "update_subscription_edit req p = Inr (p', r)"
  shows "profile_good ve p'"
proof -
  let ?P = "\<lambda>s. sb_id s = given (vr_sub req) \<or> sb_name s = given (vr_sub req)"
  obtain f where f: "p' = p\<lparr>pf_subscriptions := update_first ?P f (pf_subscriptions p)\<rparr>" "\<And>s. sb_last_updated (f s) = sb_last_updated s"
    using assms(3) by (auto simp: update_subscription_edit_def Let_def split: option.splits)
  show ?thesis
    by (rule profile_good_grow [OF assms(1,2)]) (use f(2) profile_good_inv [OF assms(1)] in \<open>auto simp: f(1) edit_inv(1) dest!: update_first_mem\<close>)
qed

interpretation update_subscription: profile_editor ve "\<lambda>_. True" "\<lambda>_. None" "edits (update_subscription_edit req)" for ve req
  by (rule profile_editor_edits) (rule update_subscription_good)

text \<open>The edits of the verbs are steps of the profile: what holds of every reachable profile holds of those the daemon stores.\<close>

lemma subscription_changes_id [simp]: "sb_id (subscription_changes req s) = sb_id s"
  by (simp add: subscription_changes_def Let_def split: option.splits)

lemma edits_are_steps:
  "select_node_edit ref p = Inr (p', r) \<Longrightarrow> profile_step p p'"
  "add_node_edit ve url p = Inr (p', r) \<Longrightarrow> profile_step p p'"
  "remove_node_edit ref p = Inr (p', r) \<Longrightarrow> profile_step p p'"
  "pin_core ref core p = Inr (p', r) \<Longrightarrow> profile_step p p'"
  "upsert_group_edit ve g p = Inr (p', r) \<Longrightarrow> profile_step p p'"
  "remove_subscription_edit ref p = Inr (p', r) \<Longrightarrow> profile_step p p'"
  "update_subscription_edit req p = Inr (p', r) \<Longrightarrow> profile_step p p'"
  "select_routing_edit ref p = Inr (p', r) \<Longrightarrow> profile_step p p'"
  "remove_routing_edit ref p = Inr (p', r) \<Longrightarrow> profile_step p p'"
  by (auto simp: select_node_edit_def add_node_edit_def remove_node_edit_def pin_core_def update_node_def upsert_group_edit_def
      remove_subscription_edit_def update_subscription_edit_def select_routing_edit_def remove_routing_edit_def edit_simps Let_def
      split: sum.splits option.splits if_splits prod.splits intro: profile_step.intros)

lemma upsert_routing_step:
  assumes "upsert_routing_edit ve rc p = Inr (p', r)" and "rc_id rc \<noteq> []"
  shows "profile_step p p'"
proof (cases "rc_id rc \<in> set (routing_ids p)")
  case True
  then have "ReplaceRoutingByID (rc_id rc) rc p = Inr p'"
    using assms(1) by (auto simp: upsert_routing_edit_def Let_def edit_simps list_ex_eq split: if_splits)
  then show ?thesis by (rule profile_step.replace_routing)
next
  case False
  then obtain i where add: "AddRouting (ve_newid ve) rc p = Inr (p', i)"
    using assms(1) by (auto simp: upsert_routing_edit_def Let_def edit_simps list_ex_eq split: if_splits)
  moreover from add have "i = rc_id rc" using assms(2) by (auto simp: AddRouting_def Let_def split: option.splits if_splits)
  ultimately show ?thesis using False by (intro profile_step.add_routing) simp_all
qed

lemma apply_steps: "Apply ps newid fromName now fr p = Some (p', res) \<Longrightarrow> profile_step\<^sup>*\<^sup>* p p'"
proof (erule Apply_cases)
  fix sub e assume "p' = update_sub (sb_id sub) (\<lambda>s. s\<lparr>sb_last_error := e\<rparr>) p"
  then show ?thesis unfolding update_sub_def by (auto intro!: r_into_rtranclp profile_step.edit_subscription)
next
  fix sub r assume "p' = update_sub (sb_id sub) (\<lambda>s. s\<lparr>sb_last_updated := now, sb_last_error := []\<rparr>)
    (ReplaceSubscriptionNodes (sb_id sub) (landed_nodes p (sb_id sub) r @ landed_groups fromName p (sb_id sub) r) p)"
  moreover have "profile_step q (update_sub i (\<lambda>s. s\<lparr>sb_last_updated := now, sb_last_error := []\<rparr>) q)" for i q
    unfolding update_sub_def by (rule profile_step.edit_subscription) simp
  ultimately show ?thesis by (metis profile_step.replace_subscription_nodes rtranclp.rtrancl_into_rtrancl rtranclp.rtrancl_refl)
qed simp

lemma traverse_defined: "traverse f xs = Inr ys \<Longrightarrow> x \<in> set xs \<Longrightarrow> \<exists>y. f x = Inr y"
  by (induction xs arbitrary: ys) (auto simp: rbind_eq_Inr_iff)

lemma decoded_config_id: "UnmarshalConfig newid j = Inr c \<Longrightarrow> newid \<noteq> [] \<Longrightarrow> rc_id c \<noteq> []"
  by (cases j) (auto simp: UnmarshalConfig_def rbind_eq_Inr_iff split: if_splits)

lemma decoded_config_ok:
  assumes "UnmarshalConfig newid j = Inr c" "newid \<noteq> []" "MarshalConfig c = Inr j'"
  shows "config_ok c"
proof -
  obtain ob where dec: "dec_field (dec_list UnmarshalRule) [] ''rules'' ob = Inr (rc_rules c)"
      "dec_field UnmarshalTarget zero_target ''default_target'' ob = Inr (rc_default_target c)"
    using assms(1) by (cases j) (auto simp: UnmarshalConfig_def rbind_eq_Inr_iff)
  have "\<forall>r \<in> set (rc_rules c). rule_ok r"
    using dec(1) by (auto simp: dec_field_def split: option.splits elim!: dec_list.elims dest!: traverse_Inr_set [OF sym] intro: UnmarshalRule_ok)
  moreover have "target_ok (rc_default_target c)"
  proof (cases "jfield ob ''default_target''")
    case None
    then have "rc_default_target c = zero_target" using dec(2) by (simp add: dec_field_def)
    then have "\<exists>t. MarshalTarget zero_target = Inr t" using assms(3) by (auto simp: MarshalConfig_def rbind_eq_Inr_iff)
    then show ?thesis by (simp add: MarshalTarget_def zero_target_def unit_kinds_def)
  qed (use dec(2) UnmarshalTarget_ok in \<open>simp add: dec_field_def\<close>)
  ultimately show ?thesis using decoded_config_id [OF assms(1,2)] by (simp add: config_ok_def)
qed

lemma upsert_routing_good:
  assumes "env_ok ve" "UnmarshalConfig (ve_newids ve 0 0) j = Inr rc" "profile_good ve p"
    and "upsert_routing_edit ve rc p = Inr (p', r)" "MarshalProfile (ve_fmt_time ve) (normalize p') = Inr j'"
  shows "profile_good ve p'"
proof -
  have "rc_id rc \<noteq> []" using decoded_config_id [OF assms(2)] assms(1) by (simp add: env_ok_def)
  then have p': "rc \<in> set (pf_routing_configs p') \<and> set (pf_routing_configs p') \<subseteq> insert rc (set (pf_routing_configs p)) \<and>
      pf_nodes p' = pf_nodes p \<and> pf_subscriptions p' = pf_subscriptions p \<and> profile_inv p'"
  proof (cases "rc_id rc \<in> set (routing_ids p)")
    case True
    then have rep: "ReplaceRoutingByID (rc_id rc) rc p = Inr p'"
      using assms(4) by (auto simp: upsert_routing_edit_def Let_def edit_simps list_ex_eq split: if_splits)
    have "profile_inv p'" by (rule ReplaceRoutingByID_inv [OF profile_good_inv [OF assms(3)] rep])
    then show ?thesis by (rule_tac ReplaceRoutingByID_split [OF rep]) auto
  next
    case False
    then obtain i where add: "AddRouting (ve_newid ve) rc p = Inr (p', i)"
      using assms(4) by (auto simp: upsert_routing_edit_def Let_def edit_simps list_ex_eq split: if_splits)
    then have "i = rc_id rc" "p' = p\<lparr>pf_routing_configs := pf_routing_configs p @ [rc]\<rparr>"
      using \<open>rc_id rc \<noteq> []\<close> by (auto simp: AddRouting_def Let_def split: option.splits if_splits)
    then show ?thesis using AddRouting_inv [OF profile_good_inv [OF assms(3)] add] False by auto
  qed
  obtain js where "traverse MarshalConfig (pf_routing_configs p') = Inr js"
    using assms(5) by (auto simp: MarshalProfile_def rbind_eq_Inr_iff normalize_def)
  from traverse_defined [OF this] p' obtain jc where "MarshalConfig rc = Inr jc" by metis
  then have "config_ok rc" using decoded_config_ok [OF assms(2)] assms(1) by (simp add: env_ok_def)
  then show ?thesis using p' by (intro profile_good_grow [OF assms(3,1)]) auto
qed

interpretation upsert_routing: profile_editor ve "\<lambda>_. \<exists>j. UnmarshalConfig (ve_newids ve 0 0) j = Inr rc" "\<lambda>_. None"
    "edits (upsert_routing_edit ve rc)" for ve rc
  by (rule profile_editor_edits) (elim exE, rule upsert_routing_good)

section \<open>What a verb can do\<close>

definition read_verbs :: "store_verb set" where
  "read_verbs = {CmdListProfiles, CmdListNodes, CmdGetGroup, CmdGetNode, CmdListSubs, CmdListRouting, CmdGetRouting}"

text \<open>A verb replies without changing anything, calls one operation on the files, or is a profile transaction.\<close>

lemma handle_store_cases:
  assumes "handle_store ve oc oc' v req m = (m', evs, res)"
  obtains (unchanged) "m' = m" "evs = []"
  | (files) msg r where "(m', evs, res) = file_verb msg r m" "v \<in> {CmdCreateProfile, CmdDeleteProfile, CmdSetActiveProfile}"
      "v = CmdCreateProfile \<Longrightarrow> r = CreateProfile (ve_fmt_time ve) (ve_io ve) (ve_newid ve) (given (vr_profile req)) (mg_fs m)"
      "v = CmdDeleteProfile \<Longrightarrow> r = DeleteProfile (ve_io ve) (ve_io' ve) (given (vr_profile req)) (mg_fs m)"
      "v = CmdSetActiveProfile \<Longrightarrow> r = SetActiveProfile (ve_io ve) (given (vr_profile req)) (mg_fs m)"
  | (edit) pre fn where "profile_editor ve pre (\<lambda>_. None) fn" "withProfile ve req fn m = (m', evs, res)"
      "\<And>p. pre p" "v \<notin> read_verbs"
  | (prefs) m1 r1 where "set_node_prefs_locked ve oc req m = (m1, evs, r1)" "v = CmdSetNodePrefs"
      "m' = m1 \<or> (\<exists>reply rc. r1 = Inr (reply, Some rc) \<and> m' = fst (reconnectSession (ve_dv ve) oc' rc m1))"
      "\<And>e. res = Inl e \<Longrightarrow> r1 = Inl e \<and> m' = m1"
proof (cases "v \<in> read_verbs")
  case True
  then show thesis using unchanged assms
    by (auto simp: read_verbs_def listProfiles_def listNodes_def getGroup_def getNode_def listSubscriptions_def listRouting_def getRouting_def Let_def split: if_splits)
next
  case False
  note edit = edit [OF _ _ _ False]
  show thesis
  proof (cases v)
    case CmdCreateProfile
    then show thesis using assms unchanged files [of "''profile created: '' @ given (vr_profile req)" "CreateProfile (ve_fmt_time ve) (ve_io ve) (ve_newid ve) (given (vr_profile req)) (mg_fs m)"]
      by (simp add: createProfile_def Let_def split: if_splits)
  next
    case CmdDeleteProfile
    then show thesis using assms unchanged files [of "''profile deleted: '' @ given (vr_profile req)" "DeleteProfile (ve_io ve) (ve_io' ve) (given (vr_profile req)) (mg_fs m)"]
      by (simp add: deleteProfile_def Let_def split: if_splits)
  next
    case CmdSetActiveProfile
    then show thesis using assms unchanged files [of "''active profile: '' @ given (vr_profile req)" "SetActiveProfile (ve_io ve) (given (vr_profile req)) (mg_fs m)"]
      by (simp add: setActiveProfile_def Let_def split: if_splits)
  next
    case CmdSelectNode
    then show thesis using assms unchanged edit [OF select_node.profile_editor_axioms] by (auto simp: selectNode_def split: if_splits)
  next
    case CmdAddNode
    then show thesis using assms unchanged edit [OF add_node.profile_editor_axioms] by (auto simp: addNode_def split: if_splits)
  next
    case CmdRemoveNode
    then show thesis using assms unchanged edit [OF remove_node.profile_editor_axioms] by (auto simp: removeNode_def split: if_splits)
  next
    case CmdSetNodePrefs
    obtain m1 evs1 r1 where l: "set_node_prefs_locked ve oc req m = (m1, evs1, r1)" by (cases "set_node_prefs_locked ve oc req m")
    then show thesis using assms unchanged prefs [OF _ CmdSetNodePrefs] CmdSetNodePrefs
      by (auto simp: setNodePrefs_def split: if_splits sum.splits option.splits)
  next
    case CmdUpsertGroup
    then show thesis using assms unchanged edit [OF upsert_group.profile_editor_axioms]
      by (auto simp: upsertGroup_def split: if_splits option.splits sum.splits)
  next
    case CmdAddSub
    then show thesis using assms unchanged edit [OF add_subscription.profile_editor_axioms]
      by (auto simp: addSubscription_def Let_def split: if_splits option.splits)
  next
    case CmdRefreshSubs
    then show thesis using assms edit [OF refresh.profile_editor_axioms] by (auto simp: refreshSubscriptions_def)
  next
    case CmdRemoveSub
    then show thesis using assms unchanged edit [OF remove_subscription.profile_editor_axioms] by (auto simp: removeSubscription_def split: if_splits)
  next
    case CmdUpdateSub
    then show thesis using assms unchanged edit [OF update_subscription.profile_editor_axioms]
      by (auto simp: updateSubscription_def split: if_splits)
  next
    case CmdSelectRouting
    then show thesis using assms unchanged edit [OF select_routing.profile_editor_axioms] by (auto simp: selectRouting_def split: if_splits)
  next
    case CmdUpsertRouting
    then show thesis using assms unchanged edit [OF upsert_routing.profile_editor_axioms]
      by (auto simp: upsertRouting_def split: option.splits sum.splits)
  next
    case CmdRemoveRouting
    then show thesis using assms unchanged edit [OF remove_routing.profile_editor_axioms] by (auto simp: removeRouting_def split: if_splits)
  qed (use False in \<open>simp_all add: read_verbs_def\<close>)
qed

lemma start_frame:
  "fs_profiles (mg_fs (fst (startActivationLocked oc prep m))) = fs_profiles (mg_fs m)"
  "fs_state (mg_fs (fst (startActivationLocked oc prep m))) = fs_state (mg_fs m)"
  "mg_settings (fst (startActivationLocked oc prep m)) = mg_settings m"
  by (auto simp: startActivationLocked_def Let_def saveLastSessionLocked_def session_fields split: option.splits)

lemma reconnect_frame:
  "fs_profiles (mg_fs (fst (reconnectSession dv oc rc m))) = fs_profiles (mg_fs m)"
  "fs_state (mg_fs (fst (reconnectSession dv oc rc m))) = fs_state (mg_fs m)"
  "mg_settings (fst (reconnectSession dv oc rc m)) = mg_settings m"
  using start_frame by (auto simp: reconnectSession_def reconnect_locked_def split: sum.splits prod.splits) (metis fst_conv)+

lemma file_verb_Inl: "(m', evs, Inl e) = file_verb msg r m \<Longrightarrow> snd r \<noteq> None"
  by (auto simp: file_verb_def split: option.splits)

lemma CreateProfile_frame:
  assumes "CreateProfile fmt_time io newid name fs = r"
  shows "other \<noteq> name \<Longrightarrow> profile_entry (fst r) other = profile_entry fs other" "snd r \<noteq> None \<Longrightarrow> fst r = fs"
    "fs_last_session (fst r) = fs_last_session fs"
  using SaveProfile_frame [of fmt_time io name "NewProfile newid name" fs "fst r" "snd r"] assms
  by (auto simp: CreateProfile_def split: option.splits if_splits)

lemma writeState_frame:
  "fs_profiles (fst (writeState io a fs)) = fs_profiles fs" "snd (writeState io a fs) \<noteq> None \<Longrightarrow> fst (writeState io a fs) = fs"
  "fs_last_session (fst (writeState io a fs)) = fs_last_session fs"
  by (auto simp: writeState_def split: sum.splits)

lemma SetActiveProfile_frame:
  "fs_profiles (fst (SetActiveProfile io name fs)) = fs_profiles fs"
  "snd (SetActiveProfile io name fs) \<noteq> None \<Longrightarrow> fst (SetActiveProfile io name fs) = fs"
  "fs_last_session (fst (SetActiveProfile io name fs)) = fs_last_session fs"
  by (auto simp: SetActiveProfile_def writeState_frame split: option.splits if_splits)

lemma DeleteProfile_frame:
  "other \<noteq> name \<Longrightarrow> profile_entry (fst (DeleteProfile io io' name fs)) other = profile_entry fs other"
  "profile_entry (fst (DeleteProfile io io' name fs)) name \<in> {None, profile_entry fs name}"
  "fs_last_session (fst (DeleteProfile io io' name fs)) = fs_last_session fs"
  by (auto simp: DeleteProfile_def Let_def writeState_frame obj_simps split: option.splits if_splits)

lemma stored_good_entries:
  assumes "stored_good ve m" "\<And>name. profile_entry (mg_fs m') name \<in> {None, profile_entry (mg_fs m) name}"
  shows "stored_good ve m'"
  unfolding stored_good_def
proof (intro allI impI)
  fix name p assume l: "load_profile (ve_dv ve) m' name = Inr p"
  have "profile_entry (mg_fs m') name = profile_entry (mg_fs m) name"
    using l assms(2) [of name] by (auto simp: LoadProfile_def read_file_def split: option.splits)
  then show "profile_good ve p" using l assms(1) LoadProfile_entry [of "mg_fs m'" name "mg_fs m"] by (simp add: stored_good_def)
qed

lemma stored_good_created:
  assumes "env_ok ve" "stored_good ve m" "CreateProfile (ve_fmt_time ve) io (ve_newid ve) name (mg_fs m) = r"
  shows "stored_good ve (m\<lparr>mg_fs := fst r\<rparr>)"
proof (cases "snd r")
  case None
  then have "SaveProfile (ve_fmt_time ve) io name (NewProfile (ve_newid ve) name) (mg_fs m) = (fst r, None)"
    using assms(3) by (auto simp: CreateProfile_def intro: prod_eqI split: option.splits if_splits)
  moreover have "profile_good ve (NewProfile (ve_newid ve) name)"
    using assms(1) NewProfile_storable NewProfile_inv by (simp add: profile_good_def env_ok_def NewProfile_def)
  ultimately show ?thesis using stored_good_saved assms(1,2) by blast
next
  case (Some e)
  then show ?thesis using CreateProfile_frame(2) [OF assms(3)] assms(2) by simp
qed

section \<open>Properties\<close>

text \<open>
  The profiles on disk stay well formed under every store verb, whatever it replies and whatever the disk and the
  providers answer: every profile that loads has consistent selections, unique and valid routing names, and can be saved and loaded again.
\<close>

theorem store_verbs_keep_profiles:
  assumes "handle_store ve oc oc' v req m = (m', evs, res)" and "env_ok ve" and "stored_good ve m"
  shows "stored_good ve m'"
  using assms(1)
proof (cases rule: handle_store_cases)
  case (files msg r)
  then have m': "m' = m\<lparr>mg_fs := fst r\<rparr>" by (simp add: file_verb_def)
  show ?thesis
  proof (cases "v = CmdCreateProfile")
    case True
    then show ?thesis using stored_good_created [OF assms(2,3)] files(3) m' by blast
  next
    case False
    then show ?thesis using files(2,4,5) m' DeleteProfile_frame(1,2) SetActiveProfile_frame(1)
      by (intro stored_good_entries [OF assms(3)]) (auto, metis)
  qed
next
  case (edit pre fn)
  show ?thesis
    by (rule profile_editor.keeps_stored [OF edit(1,2) assms(2,3) edit(3)])
next
  case (prefs m1 r1)
  have "stored_good ve m1" using node_prefs.keeps_stored [OF _ assms(2,3)] prefs(1) by (simp add: set_node_prefs_locked_def)
  moreover have "fs_profiles (mg_fs m') = fs_profiles (mg_fs m1)" using prefs(3) reconnect_frame(1) by blast
  ultimately show ?thesis using stored_good_entries [of ve m1 m'] by simp
qed (use assms(3) in simp)

text \<open>
  C34. Store verbs are atomic and isolated. A verb that only reads changes nothing at all; a verb that reports an error
  (a deletion apart, which may fail after the file is gone) leaves every profile and the active
  selection as they were; no verb touches a second profile or the settings.
\<close>

theorem store_verb_atomic:
  assumes "handle_store ve oc oc' v req m = (m', evs, res)"
  shows "(v \<in> read_verbs \<longrightarrow> m' = m \<and> evs = []) \<and>
    (\<forall>e. res = Inl e \<and> v \<noteq> CmdDeleteProfile \<longrightarrow>
       (\<forall>name. profile_entry (mg_fs m') name = profile_entry (mg_fs m) name) \<and> fs_state (mg_fs m') = fs_state (mg_fs m)) \<and>
    (\<exists>name. \<forall>other. other \<noteq> name \<longrightarrow> profile_entry (mg_fs m') other = profile_entry (mg_fs m) other) \<and>
    mg_settings m' = mg_settings m"
  using assms
proof (cases rule: handle_store_cases)
  case (files msg r)
  then have m': "m' = m\<lparr>mg_fs := fst r\<rparr>" "\<And>e. res = Inl e \<Longrightarrow> snd r \<noteq> None" by (auto simp: file_verb_def split: option.splits)
  have "v \<notin> read_verbs" using files(2) by (auto simp: read_verbs_def)
  moreover have "res = Inl e \<Longrightarrow> v \<noteq> CmdDeleteProfile \<Longrightarrow> fst r = mg_fs m" for e
    using files(2,3,5) m'(2) CreateProfile_frame(2) [OF refl] SetActiveProfile_frame(2) by auto
  moreover have "other \<noteq> given (vr_profile req) \<Longrightarrow> profile_entry (fst r) other = profile_entry (mg_fs m) other" for other
    using files(2-5) CreateProfile_frame(1) [OF refl] SetActiveProfile_frame(1) DeleteProfile_frame(1) by auto
  ultimately show ?thesis using m' by auto
next
  case (edit pre fn)
  note t = profile_editor.transaction [OF edit(1,2)]
  show ?thesis using edit(4) t(1) t(2,3) by metis
next
  case (prefs m1 r1)
  note t = node_prefs.transaction [OF prefs(1) [unfolded set_node_prefs_locked_def]]
  have same: "fs_profiles (mg_fs m') = fs_profiles (mg_fs m1)" "fs_state (mg_fs m') = fs_state (mg_fs m1)" "mg_settings m' = mg_settings m1"
    using prefs(3) reconnect_frame by auto
  have "v \<notin> read_verbs" using prefs(2) by (simp add: read_verbs_def)
  then show ?thesis unfolding same using t(1) t(2,3) prefs(4) by metis
qed simp

text \<open>
  Every store verb is a run of the session's step relation: its locked section decides at most one reconnect and writes
  at most one profile, and a core pin that moves a running node goes on with a prepared reconnect. So whatever holds of
  all reachable sessions holds after any sequence of store verbs.
\<close>

theorem store_verbs_refine_session:
  assumes "handle_store ve oc oc' v req m = (m', evs, res)" and "session_reachable (ve_dv ve) (m, P)"
  shows "\<exists>P'. session_reachable (ve_dv ve) (m', P')"
  using assms(1)
proof (cases rule: handle_store_cases)
  case (files msg r)
  have "fs_last_session (fst r) = fs_last_session (mg_fs m)"
    using files(2-5) CreateProfile_frame(3) [OF refl] SetActiveProfile_frame(3) DeleteProfile_frame(3) by auto
  then show ?thesis using session_reachable.step [OF assms(2) session_step.store] files(1) by (auto simp: file_verb_def)
next
  case (edit pre fn)
  then show ?thesis using profile_editor.session_run [OF edit(1,2) assms(2)] by blast
next
  case (prefs m1 r1)
  obtain P1 where P1: "session_reachable (ve_dv ve) (m1, P1)"
      "\<And>reply rc. r1 = Inr (reply, Some rc) \<Longrightarrow> PDecided rc \<in> set P1"
    using node_prefs.session_run [OF prefs(1) [unfolded set_node_prefs_locked_def] assms(2)] by auto
  show ?thesis
  proof (cases "m' = m1")
    case False
    then obtain reply rc where rc: "r1 = Inr (reply, Some rc)" "m' = fst (reconnectSession (ve_dv ve) oc' rc m1)" using prefs(3) by blast
    show ?thesis
    proof (cases "prepareActivation (store_env (ve_dv ve) m1) (rr_req rc)")
      case (Inr prep)
      let ?P = "PReconnect rc prep # remove1 (PDecided rc) P1"
      have "session_reachable (ve_dv ve) (m1, ?P)"
        by (rule session_reachable.step [OF P1(1) session_step.prepare_reconnect [OF P1(2) [OF rc(1)] Inr]])
      from session_reachable.step [OF this session_step.reconnect [of rc prep _ _ _ oc']]
      show ?thesis using rc(2) Inr by (auto simp: reconnectSession_def)
    qed (use P1(1) rc(2) in \<open>auto simp: reconnectSession_def\<close>)
  qed (use P1(1) in blast)
qed (use assms(2) in auto)

text \<open>
  A manual refresh broadcasts before it saves: the events of \<^verbatim>\<open>refresh_subscriptions\<close> are the same whether or not the
  profile can be written, and when it cannot, the profiles are as before, so clients were told of
  an update that did not happen. (The automatic refresh only broadcasts after a successful save.)
\<close>

theorem refresh_published_unsaved:
  "fst (snd (refreshSubscriptions (ve\<lparr>ve_io := False\<rparr>) req m)) = fst (snd (refreshSubscriptions (ve\<lparr>ve_io := True\<rparr>) req m)) \<and>
    fs_profiles (mg_fs (fst (refreshSubscriptions (ve\<lparr>ve_io := False\<rparr>) req m))) = fs_profiles (mg_fs m)"
proof -
  have ref: "refresh_in_verb (ve\<lparr>ve_io := b\<rparr>) = refresh_in_verb ve" for b
    by (simp add: fun_eq_iff refresh_in_verb_def subscriptionUA_def)
  have edit: "refresh_edit (ve\<lparr>ve_io := b\<rparr>) = refresh_edit ve" for b
    by (simp add: fun_eq_iff refresh_edit_def ref)
  have fail: "SaveProfile fmt False name p fs = (fs, snd (SaveProfile fmt False name p fs))" for fmt name p fs
    by (simp add: SaveProfile_def atomicWrite_def split: option.splits sum.splits entry.splits)
  have "snd (SaveProfile fmt False name p fs) \<noteq> None" for fmt name p fs
    by (simp add: SaveProfile_def atomicWrite_def split: option.splits sum.splits entry.splits)
  then show ?thesis
    using fail by (auto simp: refreshSubscriptions_def withProfile_def edit refresh_edit_def split: sum.splits option.splits prod.splits)
      (metis prod.inject)+
qed

section \<open>A concrete daemon\<close>

definition sample_fetch_env :: fetch_env where
  "sample_fetch_env = \<lparr>fe_http = (\<lambda>_ _ _. Inl ''no network''), fe_url_error = (\<lambda>u. u), fe_path = (\<lambda>u. u), fe_with_path = (\<lambda>u p. p)\<rparr>"

definition sample_verbs :: verb_env where
  "sample_verbs = \<lparr>ve_dv = sample_daemon\<lparr>dv_parse_time := (\<lambda>_. Some 0)\<rparr>, ve_parsers = sample_parsers, ve_fetch = sample_fetch_env,
     ve_from_name = (\<lambda>x. x), ve_fmt_time = (\<lambda>_. []), ve_rfc3339 = (\<lambda>_. []), ve_newid = ''r'', ve_newids = (\<lambda>_ _. ''n''), ve_now = 0,
     ve_io = True, ve_io' = True\<rparr>"

definition sample_create :: verb_request where
  "sample_create = \<lparr>vr_command = ''create_profile'', vr_profile = Some ''main'', vr_tun = None, vr_role = None, vr_nodes = None,
     vr_settings = None, vr_force = False, vr_node = None, vr_url = None, vr_name = None, vr_sub = None, vr_routing = None,
     vr_core_override = None, vr_allow_invalid_certs = None, vr_enabled = None, vr_update_interval_sec = None, vr_format = None,
     vr_group = None, vr_routing_config = None\<rparr>"

definition sample_created :: manager where
  "sample_created = fst (handle_store sample_verbs sample_outcomes sample_outcomes CmdCreateProfile sample_create (newManager empty_fs None))"

lemma sample_creates:
  "handle_store sample_verbs sample_outcomes sample_outcomes CmdCreateProfile sample_create (newManager empty_fs None) =
     (sample_created, [], Inr (OkReply [] ''profile created: main''))"
proof -
  obtain fs' where fs': "SaveProfile (\<lambda>_. []) True ''main'' (NewProfile ''r'' ''main'') empty_fs = (fs', None)" using save_new_ok by blast
  have "CreateProfile (\<lambda>_. []) True ''r'' ''main'' empty_fs = (fs', None)"
    using fs' by (simp add: CreateProfile_def ValidateName_def name_char_def) (simp add: empty_fs_def obj_simps)
  then show ?thesis
    by (simp add: sample_created_def createProfile_def sample_create_def given_def sample_verbs_def file_verb_def newManager_def)
qed

lemma sample_env_ok: "env_ok sample_verbs"
  using visits_id by (simp add: env_ok_def sample_verbs_def sample_daemon_def)

lemma empty_stored_good: "stored_good ve (newManager empty_fs None)"
  by (auto simp: stored_good_def newManager_def LoadProfile_def empty_fs_def read_file_def obj_simps split: option.splits)

theorem store_verbs_keep_profiles_witness:
  "handle_store sample_verbs sample_outcomes sample_outcomes CmdCreateProfile sample_create (newManager empty_fs None) =
     (sample_created, [], Inr (OkReply [] ''profile created: main'')) \<and> stored_good sample_verbs sample_created"
  using sample_creates store_verbs_keep_profiles [OF sample_creates sample_env_ok empty_stored_good] by simp

theorem store_verb_atomic_witness:
  "handle_store sample_verbs sample_outcomes sample_outcomes CmdCreateProfile sample_create (newManager empty_fs None) =
     (sample_created, [], Inr (OkReply [] ''profile created: main'')) \<and> mg_settings sample_created = None"
  using sample_creates store_verb_atomic [OF sample_creates] by (simp add: newManager_def)

theorem store_verbs_refine_session_witness:
  "\<exists>P'. session_reachable (ve_dv sample_verbs) (sample_created, P')"
  using store_verbs_refine_session [OF sample_creates session_reachable.boot] by simp

end
