(* ===== verification/Manager_Subs.thy ===== *)
theory Manager_Subs
  imports Manager_Store
begin

text \<open>
  The background refresh of subscriptions (\<^verbatim>\<open>daemon-go/cmd/iron-link-daemon/manager_subscriptions.go\<close>): which
  subscriptions are due, the failure backoff kept in memory, and landing a fetch in the profile.

  Instants and durations are nanoseconds; \<^verbatim>\<open>time.Time.Sub\<close> saturates at the largest \<^verbatim>\<open>int64\<close>. The map
  \<^verbatim>\<open>m.subRetry\<close> is an association list. A sweep picks the due subscriptions under the lock, fetches each
  without it and lands each result under it again, so other calls run in between: \<open>sched_step\<close> keeps the
  fetched results as pending. A sweep may happen at any time;
  \<open>Daemon_Loops\<close> has the loop that times it. Log lines are left out.

  Main results: every backoff entry holds its subscription back for ten minutes to an hour, doubling per failure; the due
  list is exactly what the rules say; a landed refresh announces only what was saved.
\<close>

section \<open>Backoff and due times\<close>

abbreviation time_Second :: int where "time_Second \<equiv> 1000000000"

definition subscriptionBackoffMin :: int where "subscriptionBackoffMin = 600 * time_Second"
definition subscriptionBackoffMax :: int where "subscriptionBackoffMax = 3600 * time_Second"

record subscription_retry =
  sr_failed_at :: int
  sr_delay :: int
  sr_next :: int

definition supersededBy :: "subscription_retry \<Rightarrow> subscription \<Rightarrow> int \<Rightarrow> bool" where
  "supersededBy r sub now = (sr_failed_at r < sb_last_updated sub \<and> \<not> now < sb_last_updated sub)"

definition nextSubscriptionRetry :: "subscription_retry option \<Rightarrow> int \<Rightarrow> subscription_retry" where
  "nextSubscriptionRetry prev now =
    (let delay = (case prev of None \<Rightarrow> subscriptionBackoffMin | Some r \<Rightarrow> min (sr_delay r * 2) subscriptionBackoffMax)
     in \<lparr>sr_failed_at = now, sr_delay = delay, sr_next = now + delay\<rparr>)"

text \<open>\<^verbatim>\<open>now.Sub(t)\<close> for an instant \<open>t\<close> that is not after \<open>now\<close>.\<close>

definition time_Sub :: "int \<Rightarrow> int \<Rightarrow> int" where
  "time_Sub now t = min (now - t) (2 ^ 63 - 1)"

definition subscriptionDue :: "subscription \<Rightarrow> int \<Rightarrow> bool" where
  "subscriptionDue sub now =
    (if \<not> sb_enabled sub \<or> sb_update_interval_sec sub = 0 then False
     else if now < sb_last_updated sub then True
     else uint (sb_update_interval_sec sub) * time_Second \<le> time_Sub now (sb_last_updated sub))"

section \<open>Picking\<close>

text \<open>The loop over the profile's subscriptions: the entries it drops and the subscriptions it picks.\<close>

fun due_loop :: "int \<Rightarrow> subscription_retry obj \<Rightarrow> subscription list \<Rightarrow> subscription_retry obj \<times> subscription list" where
  "due_loop now retry [] = (retry, [])"
| "due_loop now retry (sub # subs) =
    (let r = jget retry (sb_id sub);
         superseded = (case r of Some x \<Rightarrow> supersededBy x sub now | None \<Rightarrow> False);
         held = (if superseded then None else r);
         (retry', due) = due_loop now (if superseded then jdel (sb_id sub) retry else retry) subs
     in (retry', if \<not> subscriptionDue sub now \<or> (case held of Some x \<Rightarrow> now < sr_next x | None \<Rightarrow> False) then due else sub # due))"

definition dueSubscriptionsLocked ::
  "verb_env \<Rightarrow> int \<Rightarrow> manager \<Rightarrow> subscription_retry obj \<Rightarrow> subscription_retry obj \<times> string \<times> subscription list \<times> string" where
  "dueSubscriptionsLocked ve now m retry = (case ActiveProfileName (mg_fs m) of
     Inl _ \<Rightarrow> (retry, [], [], [])
   | Inr name \<Rightarrow> if name = [] then (retry, [], [], [])
       else (case load_profile (ve_dv ve) m name of
         Inl _ \<Rightarrow> (retry, [], [], [])
       | Inr p \<Rightarrow> (case due_loop now retry (pf_subscriptions p) of
           (retry', due) \<Rightarrow> (filter (\<lambda>(i, _). i \<in> set (map sb_id (pf_subscriptions p))) retry', name, due, subscriptionUA ve m))))"

section \<open>Landing\<close>

record landing =
  ld_manager :: manager
  ld_retry :: "subscription_retry obj"
  ld_events :: "sub_event list"
  ld_reconnect :: "session_reconnect option"

text \<open>The locked part of \<^verbatim>\<open>landSubscriptionFetch\<close>, which read the clock before it took the lock (\<open>now\<close>); \<open>None\<close> is the
  nil dereference inside \<^verbatim>\<open>Apply\<close>.\<close>

definition land_locked ::
  "verb_env \<Rightarrow> outcomes \<Rightarrow> int \<Rightarrow> string \<Rightarrow> fetch_result \<Rightarrow> manager \<Rightarrow> subscription_retry obj \<Rightarrow> landing option" where
  "land_locked ve oc now profileName fr m retry =
    (let kept = \<lparr>ld_manager = m, ld_retry = retry, ld_events = [], ld_reconnect = None\<rparr> in
     case load_profile (ve_dv ve) m profileName of
       Inl _ \<Rightarrow> Some kept
     | Inr p \<Rightarrow> (case Apply (ve_parsers ve) (ve_newids ve 0) (ve_from_name ve) (ve_now ve) fr p of
         None \<Rightarrow> None
       | Some (p', res) \<Rightarrow>
          if rs_discarded res then Some (kept\<lparr>ld_retry := jdel (fr_sub_id fr) retry\<rparr>)
          else (case SaveProfile (ve_fmt_time ve) (ve_io ve) profileName p' (mg_fs m) of (fs', saveErr) \<Rightarrow>
            (let m1 = m\<lparr>mg_fs := fs'\<rparr>;
                 retry' = (if rs_err res \<noteq> [] \<or> saveErr \<noteq> None
                   then jput (fr_sub_id fr) (nextSubscriptionRetry (jget retry (fr_sub_id fr)) now) retry
                   else jdel (fr_sub_id fr) retry);
                 events = (if saveErr = None then snd (publishRefreshLocked [res]) else []);
                 (m2, reconnect) = (if saveErr = None \<and> rs_err res = [] then sessionReconnectLocked oc profileName p' m1 else (m1, None))
             in Some \<lparr>ld_manager = m2, ld_retry = retry', ld_events = events, ld_reconnect = reconnect\<rparr>))))"

text \<open>\<open>oc'\<close> are the outcomes of the reconnect.\<close>

definition landSubscriptionFetch ::
  "verb_env \<Rightarrow> outcomes \<Rightarrow> outcomes \<Rightarrow> int \<Rightarrow> string \<Rightarrow> fetch_result \<Rightarrow> manager \<Rightarrow> subscription_retry obj \<Rightarrow> landing option" where
  "landSubscriptionFetch ve oc oc' now profileName fr m retry = map_option (\<lambda>l. case ld_reconnect l of
     None \<Rightarrow> l | Some rc \<Rightarrow> l\<lparr>ld_manager := fst (reconnectSession (ve_dv ve) oc' rc (ld_manager l))\<rparr>) (land_locked ve oc now profileName fr m retry)"

text \<open>
  One sweep run on its own: \<open>env k\<close>, \<open>oc k\<close> and \<open>oc' k\<close> are what the k-th fetch and landing meet, \<open>stopped k\<close> tells
  whether the daemon is found stopping before (\<open>fst\<close>) or after (\<open>snd\<close>) the k-th fetch.
\<close>

fun sweep_from ::
  "(nat \<Rightarrow> verb_env) \<Rightarrow> (nat \<Rightarrow> outcomes) \<Rightarrow> (nat \<Rightarrow> outcomes) \<Rightarrow> (nat \<Rightarrow> bool \<times> bool) \<Rightarrow> string \<Rightarrow> string \<Rightarrow> nat \<Rightarrow> subscription list \<Rightarrow>
   manager \<Rightarrow> subscription_retry obj \<Rightarrow> (manager \<times> subscription_retry obj) option" where
  "sweep_from env oc oc' stopped name ua k [] m retry = Some (m, retry)"
| "sweep_from env oc oc' stopped name ua k (sub # subs) m retry =
    (if fst (stopped k) then Some (m, retry)
     else (let fr = FetchSubscription (ve_parsers (env k)) (ve_fetch (env k)) (ve_newids (env k) 1) sub ua in
       if snd (stopped k) then Some (m, retry)
       else (case landSubscriptionFetch (env k) (oc k) (oc' k) (ve_now (env k)) name fr m retry of
         None \<Rightarrow> None
       | Some l \<Rightarrow> sweep_from env oc oc' stopped name ua (Suc k) subs (ld_manager l) (ld_retry l))))"

definition sweepSubscriptions ::
  "(nat \<Rightarrow> verb_env) \<Rightarrow> (nat \<Rightarrow> outcomes) \<Rightarrow> (nat \<Rightarrow> outcomes) \<Rightarrow> (nat \<Rightarrow> bool \<times> bool) \<Rightarrow> manager \<Rightarrow> subscription_retry obj \<Rightarrow>
   (manager \<times> subscription_retry obj) option" where
  "sweepSubscriptions env oc oc' stopped m retry = (case dueSubscriptionsLocked (env 0) (ve_now (env 0)) m retry of
     (retry', name, due, ua) \<Rightarrow> sweep_from env oc oc' stopped name ua 0 due m retry')"

section \<open>Interleavings\<close>

record sched =
  sd_manager :: manager
  sd_pending :: "pending list"
  sd_retry :: "subscription_retry obj"
  sd_fetched :: "(string \<times> fetch_result) list"

text \<open>Any step of the session, a sweep that picks and fetches, or the landing of a fetched result.\<close>

inductive sched_step :: "daemon_env \<Rightarrow> sched \<Rightarrow> sched \<Rightarrow> bool" for dv where
  session: "session_step dv (sd_manager s, sd_pending s) (m', P') \<Longrightarrow> sched_step dv s (s\<lparr>sd_manager := m', sd_pending := P'\<rparr>)"
| sweep: "ve_dv ve = dv \<Longrightarrow> dueSubscriptionsLocked ve now (sd_manager s) (sd_retry s) = (retry', name, due, ua) \<Longrightarrow>
    sched_step dv s (s\<lparr>sd_retry := retry',
      sd_fetched := sd_fetched s @ map (\<lambda>sub. (name, FetchSubscription (ve_parsers ve) (ve_fetch ve) (ve_newids ve 1) sub ua)) due\<rparr>)"
| land: "ve_dv ve = dv \<Longrightarrow> (name, fr) \<in> set (sd_fetched s) \<Longrightarrow> land_locked ve oc now name fr (sd_manager s) (sd_retry s) = Some l \<Longrightarrow>
    sched_step dv s (s\<lparr>sd_manager := ld_manager l, sd_retry := ld_retry l, sd_fetched := remove1 (name, fr) (sd_fetched s),
      sd_pending := (case ld_reconnect l of None \<Rightarrow> sd_pending s | Some rc \<Rightarrow> PDecided rc # sd_pending s)\<rparr>)"

inductive sched_reachable :: "daemon_env \<Rightarrow> sched \<Rightarrow> bool" for dv where
  boot: "sched_reachable dv \<lparr>sd_manager = newManager fs settings, sd_pending = [], sd_retry = [], sd_fetched = []\<rparr>"
| step: "sched_reachable dv s \<Longrightarrow> sched_step dv s s' \<Longrightarrow> sched_reachable dv s'"

definition retry_ok :: "subscription_retry \<Rightarrow> bool" where
  "retry_ok r = (subscriptionBackoffMin \<le> sr_delay r \<and> sr_delay r \<le> subscriptionBackoffMax \<and> sr_next r = sr_failed_at r + sr_delay r)"

definition retries_ok :: "subscription_retry obj \<Rightarrow> bool" where
  "retries_ok retry = list_all (\<lambda>(_, r). retry_ok r) retry"

lemma nextSubscriptionRetry_ok: "(\<And>r. prev = Some r \<Longrightarrow> retry_ok r) \<Longrightarrow> retry_ok (nextSubscriptionRetry prev now)"
  by (cases prev) (auto simp: retry_ok_def nextSubscriptionRetry_def subscriptionBackoffMin_def subscriptionBackoffMax_def Let_def)

lemma retries_ok_jget: "retries_ok retry \<Longrightarrow> jget retry i = Some r \<Longrightarrow> retry_ok r"
  by (auto simp: retries_ok_def dest: jget_list_all)

lemma retries_ok_jdel: "retries_ok retry \<Longrightarrow> retries_ok (jdel i retry)"
  by (simp add: retries_ok_def list_all_jdel)

lemma retries_ok_jput: "retries_ok retry \<Longrightarrow> retry_ok r \<Longrightarrow> retries_ok (jput i r retry)"
  by (simp add: retries_ok_def list_all_jput)

lemma retries_ok_filter: "retries_ok retry \<Longrightarrow> retries_ok (filter P retry)"
  by (simp add: retries_ok_def list_all_iff)

lemma due_loop_ok: "retries_ok retry \<Longrightarrow> retries_ok (fst (due_loop now retry subs))"
  by (induction subs arbitrary: retry) (simp_all add: Let_def split_beta retries_ok_jdel)

lemma due_ok: "retries_ok retry \<Longrightarrow> dueSubscriptionsLocked ve now m retry = (retry', name, due, ua) \<Longrightarrow> retries_ok retry'"
  using due_loop_ok [of retry now]
  by (auto simp: dueSubscriptionsLocked_def split_beta retries_ok_filter split: sum.splits if_splits)

section \<open>Landing one result\<close>

lemma land_locked_cases:
  assumes "land_locked ve oc now name fr m retry = Some l"
  obtains (dropped) "ld_manager l = m" "ld_retry l \<in> {retry, jdel (fr_sub_id fr) retry}" "ld_events l = []" "ld_reconnect l = None"
  | (settled) p p' res fs' e where "load_profile (ve_dv ve) m name = Inr p"
      "Apply (ve_parsers ve) (ve_newids ve 0) (ve_from_name ve) (ve_now ve) fr p = Some (p', res)" "\<not> rs_discarded res"
      "SaveProfile (ve_fmt_time ve) (ve_io ve) name p' (mg_fs m) = (fs', e)"
      "ld_retry l = (if rs_err res \<noteq> [] \<or> e \<noteq> None
         then jput (fr_sub_id fr) (nextSubscriptionRetry (jget retry (fr_sub_id fr)) now) retry else jdel (fr_sub_id fr) retry)"
      "ld_events l = (if e = None then snd (publishRefreshLocked [res]) else [])"
      "(ld_manager l, ld_reconnect l) = (if e = None \<and> rs_err res = []
         then sessionReconnectLocked oc name p' (m\<lparr>mg_fs := fs'\<rparr>) else (m\<lparr>mg_fs := fs'\<rparr>, None))"
proof (cases "load_profile (ve_dv ve) m name")
  case load: (Inr p)
  show thesis
  proof (cases "Apply (ve_parsers ve) (ve_newids ve 0) (ve_from_name ve) (ve_now ve) fr p")
    case None
    then show thesis using assms load by (simp add: land_locked_def Let_def)
  next
    case app: (Some x)
    obtain p' res where x: "x = (p', res)" by (cases x)
    obtain fs' e where sv: "SaveProfile (ve_fmt_time ve) (ve_io ve) name p' (mg_fs m) = (fs', e)"
      by (cases "SaveProfile (ve_fmt_time ve) (ve_io ve) name p' (mg_fs m)")
    show thesis
    proof (cases "rs_discarded res")
      case True
      then show thesis using assms load app x dropped by (auto simp: land_locked_def Let_def)
    next
      case False
      then show thesis using assms
        by (intro settled [OF load app [unfolded x] False sv]) (auto simp: land_locked_def Let_def load app x sv split: prod.splits)
    qed
  qed
qed (use assms dropped in \<open>auto simp: land_locked_def Let_def\<close>)

lemma land_retries_ok: "land_locked ve oc now name fr m retry = Some l \<Longrightarrow> retries_ok retry \<Longrightarrow> retries_ok (ld_retry l)"
  by (erule land_locked_cases)
     (auto intro!: retries_ok_jdel retries_ok_jput nextSubscriptionRetry_ok dest: retries_ok_jget)

lemma land_session:
  assumes "land_locked ve oc now name fr m retry = Some l" "session_reachable (ve_dv ve) (m, P)"
  shows "session_reachable (ve_dv ve) (ld_manager l, (case ld_reconnect l of None \<Rightarrow> P | Some rc \<Rightarrow> PDecided rc # P))"
  using assms(1)
proof (cases rule: land_locked_cases)
  case (settled p p' res fs' e)
  have wrote: "session_reachable (ve_dv ve) (m\<lparr>mg_fs := fs'\<rparr>, P)"
    by (rule session_reachable.step [OF assms(2) session_step.store]) (rule SaveProfile_frame(3) [OF settled(4)])
  show ?thesis
  proof (cases "e = None \<and> rs_err res = []")
    case True
    then have "sessionReconnectLocked oc name p' (m\<lparr>mg_fs := fs'\<rparr>) = (ld_manager l, ld_reconnect l)" using settled(7) by simp
    then show ?thesis by (rule session_reachable.step [OF wrote session_step.decide])
  next
    case False
    then have "ld_manager l = m\<lparr>mg_fs := fs'\<rparr>" "ld_reconnect l = None" using settled(7) by (auto split: if_splits)
    then show ?thesis using wrote by simp
  qed
qed (use assms(2) in simp)

lemma sched_inv: "sched_reachable dv s \<Longrightarrow> retries_ok (sd_retry s) \<and> session_reachable dv (sd_manager s, sd_pending s)"
proof (induction rule: sched_reachable.induct)
  case (boot fs settings)
  show ?case by (simp add: retries_ok_def session_reachable.boot)
next
  case (step s s')
  show ?case
    using step.hyps(2) step.IH
    by cases (auto intro: session_reachable.step due_ok land_retries_ok land_session)
qed

section \<open>Due subscriptions\<close>

text \<open>The saturation of \<^verbatim>\<open>time.Time.Sub\<close> never hides that a 32-bit interval has elapsed.\<close>

lemma time_Sub_interval: "uint (v :: u32) * time_Second \<le> time_Sub now t \<longleftrightarrow> uint v * time_Second \<le> now - t"
proof -
  have "uint v < 2 ^ 32" using uint_lt2p [of v] by simp
  then show ?thesis by (simp add: time_Sub_def)
qed

definition held_back :: "int \<Rightarrow> subscription_retry obj \<Rightarrow> subscription \<Rightarrow> bool" where
  "held_back now retry sub = (case jget retry (sb_id sub) of
     None \<Rightarrow> False | Some r \<Rightarrow> \<not> supersededBy r sub now \<and> now < sr_next r)"

lemma held_back_jdel: "sb_id sub \<noteq> i \<Longrightarrow> held_back now (jdel i retry) sub = held_back now retry sub"
  by (simp add: held_back_def obj_simps)

lemma due_loop_exact:
  "distinct (map sb_id subs) \<Longrightarrow> snd (due_loop now retry subs) = filter (\<lambda>s. subscriptionDue s now \<and> \<not> held_back now retry s) subs"
proof (induction subs arbitrary: retry)
  case (Cons sub subs)
  have keep: "filter (\<lambda>s. subscriptionDue s now \<and> \<not> held_back now (jdel (sb_id sub) retry) s) subs =
      filter (\<lambda>s. subscriptionDue s now \<and> \<not> held_back now retry s) subs"
    using Cons.prems held_back_jdel [of _ "sb_id sub" now retry] by (intro filter_cong refl) (metis distinct.simps(2) image_eqI list.simps(9) list.set_map)
  have rest: "snd (due_loop now r subs) = filter (\<lambda>s. subscriptionDue s now \<and> \<not> held_back now r s) subs" for r
    using Cons by simp
  show ?case
  proof (cases "jget retry (sb_id sub)")
    case None
    then show ?thesis using rest by (simp add: Let_def split_beta held_back_def)
  next
    case (Some r)
    then show ?thesis using rest [of retry] rest [of "jdel (sb_id sub) retry"] keep
      by (simp add: Let_def split_beta) (simp add: held_back_def)
  qed
qed simp

lemma due_is_loop:
  assumes "dueSubscriptionsLocked ve now m retry = (retry', name, due, ua)" and "load_profile (ve_dv ve) m name = Inr p"
  shows "if name = [] then due = [] else due = snd (due_loop now retry (pf_subscriptions p))"
  using assms by (auto simp: dueSubscriptionsLocked_def split_beta split: sum.splits if_splits)

text \<open>Without distinct ids too: who is picked with an entry waits for its instant, unless a refresh newer than the failure is recorded under that id.\<close>

lemma due_loop_waits:
  "sub \<in> set (snd (due_loop now retry subs)) \<Longrightarrow> jget retry (sb_id sub) = Some r \<Longrightarrow>
    sr_next r \<le> now \<or> (\<exists>x \<in> set subs. sb_id x = sb_id sub \<and> sr_failed_at r < sb_last_updated x \<and> sb_last_updated x \<le> now)"
proof (induction subs arbitrary: retry)
  case (Cons x subs)
  let ?out = "case jget retry (sb_id x) of Some y \<Rightarrow> supersededBy y x now | None \<Rightarrow> False"
  show ?case
  proof (cases "?out \<and> sb_id x = sb_id sub")
    case True
    then show ?thesis using Cons.prems(2) by (auto simp: supersededBy_def)
  next
    case False
    then have "jget (if ?out then jdel (sb_id x) retry else retry) (sb_id sub) = Some r" using Cons.prems(2) by (auto simp: obj_simps)
    moreover have "sub = x \<and> sr_next r \<le> now \<or> sub \<in> set (snd (due_loop now (if ?out then jdel (sb_id x) retry else retry) subs))"
      using Cons.prems False by (auto simp: Let_def split_beta split: if_splits option.splits)
    ultimately show ?thesis using Cons.IH [of "if ?out then jdel (sb_id x) retry else retry"] by fastforce
  qed
qed simp

lemma due_loop_picks:
  "sub \<in> set subs \<Longrightarrow> subscriptionDue sub now \<Longrightarrow> (\<And>r. jget retry (sb_id sub) = Some r \<Longrightarrow> sr_next r \<le> now) \<Longrightarrow>
    sub \<in> set (snd (due_loop now retry subs))"
proof (induction subs arbitrary: retry)
  case (Cons x subs)
  let ?retry = "if (case jget retry (sb_id x) of Some y \<Rightarrow> supersededBy y x now | None \<Rightarrow> False) then jdel (sb_id x) retry else retry"
  have "\<And>r. jget ?retry (sb_id sub) = Some r \<Longrightarrow> sr_next r \<le> now" using Cons.prems(3) by (auto simp: obj_simps split: if_splits)
  then have "sub \<in> set subs \<Longrightarrow> sub \<in> set (snd (due_loop now ?retry subs))" using Cons.IH Cons.prems(2) by blast
  then show ?case using Cons.prems by (auto simp: Let_def split_beta split: option.splits)
qed simp

lemma find_update_first: "find P xs = Some x \<Longrightarrow> P (f x) \<Longrightarrow> find P (update_first P f xs) = Some (f x)"
  by (induction xs) (auto split: if_splits)

section \<open>Properties\<close>

text \<open>
  The backoff doubles from ten minutes up to one hour: after \<open>k + 1\<close> consecutive failures, the last at \<open>t\<close>, the next
  attempt waits \<open>2 ^ k * 10\<close> minutes, at most one hour.
\<close>

theorem backoff_doubles:
  "foldl (\<lambda>prev now. Some (nextSubscriptionRetry prev now)) None (ts @ [t]) =
    Some \<lparr>sr_failed_at = t, sr_delay = min (2 ^ length ts * subscriptionBackoffMin) subscriptionBackoffMax,
       sr_next = t + min (2 ^ length ts * subscriptionBackoffMin) subscriptionBackoffMax\<rparr>"
proof (induction ts arbitrary: t rule: rev_induct)
  case Nil
  show ?case by (simp add: nextSubscriptionRetry_def subscriptionBackoffMin_def subscriptionBackoffMax_def)
next
  case (snoc now ts)
  show ?case using snoc [of now]
    by (simp add: nextSubscriptionRetry_def [of "Some _"] subscriptionBackoffMin_def subscriptionBackoffMax_def Let_def)
qed

text \<open>
  C35. Under every interleaving of sweeps, landings, session calls and store edits, each backoff entry holds its
  subscription back. Its next attempt lies between ten minutes and one hour after the failure; whatever sweep runs then picks the subscription only
  once that instant has come, or when a refresh recorded after the failure has outdated the entry; and from one hour after the failure on no entry keeps
  a due subscription of the active profile out of a sweep. The session side stays within what the session alone can reach.
\<close>

theorem scheduler_invariant:
  assumes "sched_reachable dv s"
  shows "(\<forall>i r. jget (sd_retry s) i = Some r \<longrightarrow>
      sr_failed_at r + 600 * time_Second \<le> sr_next r \<and> sr_next r \<le> sr_failed_at r + 3600 * time_Second) \<and>
    (\<forall>ve now retry' name due ua p sub r. dueSubscriptionsLocked ve now (sd_manager s) (sd_retry s) = (retry', name, due, ua) \<and>
      load_profile (ve_dv ve) (sd_manager s) name = Inr p \<and> sub \<in> set due \<and> jget (sd_retry s) (sb_id sub) = Some r \<longrightarrow>
      sr_next r \<le> now \<or>
      (\<exists>x \<in> set (pf_subscriptions p). sb_id x = sb_id sub \<and> sr_failed_at r < sb_last_updated x \<and> sb_last_updated x \<le> now)) \<and>
    (\<forall>ve now retry' name due ua p sub. dueSubscriptionsLocked ve now (sd_manager s) (sd_retry s) = (retry', name, due, ua) \<and> name \<noteq> [] \<and>
      load_profile (ve_dv ve) (sd_manager s) name = Inr p \<and> sub \<in> set (pf_subscriptions p) \<and> subscriptionDue sub now \<and>
      (\<forall>r. jget (sd_retry s) (sb_id sub) = Some r \<longrightarrow> sr_failed_at r + 3600 * time_Second \<le> now) \<longrightarrow> sub \<in> set due) \<and>
    session_reachable dv (sd_manager s, sd_pending s)"
proof (intro conjI allI impI)
  note inv = sched_inv [OF assms]
  show "session_reachable dv (sd_manager s, sd_pending s)" using inv by blast
  have ok: "sr_failed_at r + 600 * time_Second \<le> sr_next r" "sr_next r \<le> sr_failed_at r + 3600 * time_Second"
    if "jget (sd_retry s) i = Some r" for i r
    using inv that retries_ok_jget by (auto simp: retry_ok_def subscriptionBackoffMin_def subscriptionBackoffMax_def)
  fix i r
  assume "jget (sd_retry s) i = Some r"
  then show "sr_failed_at r + 600 * time_Second \<le> sr_next r" "sr_next r \<le> sr_failed_at r + 3600 * time_Second" by (fact ok)+
next
  fix ve now retry' name due ua p sub r
  assume "dueSubscriptionsLocked ve now (sd_manager s) (sd_retry s) = (retry', name, due, ua) \<and>
      load_profile (ve_dv ve) (sd_manager s) name = Inr p \<and> sub \<in> set due \<and> jget (sd_retry s) (sb_id sub) = Some r"
  then show "sr_next r \<le> now \<or>
      (\<exists>x \<in> set (pf_subscriptions p). sb_id x = sb_id sub \<and> sr_failed_at r < sb_last_updated x \<and> sb_last_updated x \<le> now)"
    using due_loop_waits by (metis due_is_loop empty_iff empty_set)
next
  fix ve now retry' name due ua p sub
  assume a: "dueSubscriptionsLocked ve now (sd_manager s) (sd_retry s) = (retry', name, due, ua) \<and> name \<noteq> [] \<and>
      load_profile (ve_dv ve) (sd_manager s) name = Inr p \<and> sub \<in> set (pf_subscriptions p) \<and> subscriptionDue sub now \<and>
      (\<forall>r. jget (sd_retry s) (sb_id sub) = Some r \<longrightarrow> sr_failed_at r + 3600 * time_Second \<le> now)"
  have "sr_next r \<le> now" if "jget (sd_retry s) (sb_id sub) = Some r" for r
    using that a retries_ok_jget sched_inv [OF assms] by (force simp: retry_ok_def subscriptionBackoffMax_def)
  then have "sub \<in> set (snd (due_loop now (sd_retry s) (pf_subscriptions p)))" using a by (intro due_loop_picks) auto
  then show "sub \<in> set due" using a due_is_loop by metis
qed

text \<open>
  A sweep picks, in profile order, exactly the subscriptions of the active profile that are enabled with a positive
  interval, whose interval has elapsed since the recorded refresh (or whose record lies in the future), and
  that no unexpired failure newer than that record holds back.
\<close>

theorem due_list_exact:
  assumes "ActiveProfileName (mg_fs m) = Inr name" "name \<noteq> []" "load_profile (ve_dv ve) m name = Inr p"
    and "distinct (map sb_id (pf_subscriptions p))" and "dueSubscriptionsLocked ve now m retry = (retry', name', due, ua)"
  shows "name' = name \<and> due = filter (\<lambda>s. sb_enabled s \<and> sb_update_interval_sec s \<noteq> 0 \<and>
      (now < sb_last_updated s \<or> uint (sb_update_interval_sec s) * time_Second \<le> now - sb_last_updated s) \<and>
      \<not> held_back now retry s) (pf_subscriptions p)"
proof -
  have "due = snd (due_loop now retry (pf_subscriptions p))" "name' = name"
    using assms by (auto simp: dueSubscriptionsLocked_def split_beta)
  then show ?thesis
    unfolding due_loop_exact [OF assms(4)] subscriptionDue_def time_Sub_interval by (auto intro!: filter_cong)
qed

text \<open>
  Landing is honest about the disk: an event is broadcast and a reconnect decided only for a refresh that was saved; a
  failed fetch or an unsaved profile leaves a backoff entry, a saved success leaves none; and a result
  that no longer fits the profile changes nothing but drops the entry.
\<close>

theorem land_settles:
  assumes "land_locked ve oc now name fr m retry = Some l" and "load_profile (ve_dv ve) m name = Inr p"
    and "Apply (ve_parsers ve) (ve_newids ve 0) (ve_from_name ve) (ve_now ve) fr p = Some (p', res)"
  shows "(ld_events l \<noteq> [] \<or> ld_reconnect l \<noteq> None \<longrightarrow> rs_err res = [] \<and>
       (\<exists>fs'. SaveProfile (ve_fmt_time ve) (ve_io ve) name p' (mg_fs m) = (fs', None))) \<and>
    (rs_discarded res \<longrightarrow> ld_manager l = m) \<and>
    jget (ld_retry l) (fr_sub_id fr) =
      (if \<not> rs_discarded res \<and> (rs_err res \<noteq> [] \<or> snd (SaveProfile (ve_fmt_time ve) (ve_io ve) name p' (mg_fs m)) \<noteq> None)
       then Some (nextSubscriptionRetry (jget retry (fr_sub_id fr)) now) else None)"
  using assms
  by (cases "SaveProfile (ve_fmt_time ve) (ve_io ve) name p' (mg_fs m)")
     (auto simp: land_locked_def Let_def publishRefreshLocked_def obj_simps split: if_splits prod.splits)

text \<open>
  A subscription whose very first fetch failed is not retried by the scheduler for its whole interval of eight hours: it
  was created with the current time as its last successful refresh, and a failure does not reset it.
\<close>

theorem first_failure_waits:
  assumes "findSubscriptionByID p i = Some (NewSubscription i t url name)" and "fr_sub_id fr = i" "fr_url fr = url" "fr_body fr = Inl e"
    and "Apply ps newid fromName now fr p = Some (p', res)"
  shows "\<exists>s. findSubscriptionByID p' i = Some s \<and> sb_last_error s = e \<and>
    (\<forall>later. t \<le> later \<and> later < t + 8 * 3600 * time_Second \<longrightarrow> \<not> subscriptionDue s later)"
proof -
  let ?s = "(NewSubscription i t url name)\<lparr>sb_last_error := e\<rparr>"
  have p': "p' = update_sub i (\<lambda>s. s\<lparr>sb_last_error := e\<rparr>) p"
    using assms by (simp add: Apply_def Let_def NewSubscription_def)
  have "findSubscriptionByID p' i = Some ?s"
    using find_update_first [OF assms(1) [unfolded findSubscriptionByID_def], of "\<lambda>s. s\<lparr>sb_last_error := e\<rparr>"]
    by (simp add: p' update_sub_def findSubscriptionByID_def NewSubscription_def)
  moreover have "\<not> subscriptionDue ?s later" if "t \<le> later" "later < t + 8 * 3600 * time_Second" for later
    using that by (simp add: subscriptionDue_def time_Sub_def NewSubscription_def)
  ultimately show ?thesis by (intro exI [of _ ?s]) auto
qed

section \<open>A concrete schedule\<close>

definition sample_scheduled :: user_profile where
  "sample_scheduled = (NewProfile ''r'' ''main'')\<lparr>pf_subscriptions := [NewSubscription ''s'' 0 ''u'' ''n'']\<rparr>"

definition sample_scheduled_fs :: store_fs where
  "sample_scheduled_fs = fst (SetActiveProfile True ''main'' (fst (SaveProfile (\<lambda>_. []) True ''main'' sample_scheduled empty_fs)))"

lemma sample_scheduled_storable: "profile_storable sample_scheduled"
  using NewProfile_storable [of "''r''" "''main''"] by (simp add: sample_scheduled_def profile_storable_def)

lemma sample_scheduled_saved:
  "\<exists>fs'. SaveProfile (\<lambda>_. []) True ''main'' sample_scheduled empty_fs = (fs', None) \<and> sample_scheduled_fs = fs'\<lparr>fs_state := Some (EFile (Some (JObj [(''active'', JStr ''main'')])))\<rparr>"
proof -
  have name: "ValidateName ''main'' = None" by (simp add: ValidateName_def name_char_def)
  obtain j where "MarshalProfile (\<lambda>_. []) (normalize sample_scheduled) = Inr j"
    using Unmarshal_Marshal_profile [OF visits_id, of "normalize sample_scheduled" "\<lambda>_. Some 0" "\<lambda>_. []"] sample_scheduled_storable
    by (auto simp: storable_normalize normalize_subscriptions sample_scheduled_def NewSubscription_def)
  then have "SaveProfile (\<lambda>_. []) True ''main'' sample_scheduled empty_fs =
      (empty_fs\<lparr>fs_profiles := [(profilePath ''main'', EFile (Some j))]\<rparr>, None)"
    using name by (simp add: SaveProfile_def atomicWrite_def empty_fs_def obj_simps)
  then show ?thesis
    by (simp add: sample_scheduled_fs_def SetActiveProfile_def name writeState_def atomicWrite_def obj_simps empty_fs_def enc_ptr_def)
qed

lemma sample_scheduled_loads:
  "load_profile (ve_dv sample_verbs) (newManager sample_scheduled_fs None) ''main'' = Inr sample_scheduled"
  "ActiveProfileName (mg_fs (newManager sample_scheduled_fs None)) = Inr ''main''"
proof -
  obtain fs' where fs': "SaveProfile (\<lambda>_. []) True ''main'' sample_scheduled empty_fs = (fs', None)"
      "sample_scheduled_fs = fs'\<lparr>fs_state := Some (EFile (Some (JObj [(''active'', JStr ''main'')])))\<rparr>"
    using sample_scheduled_saved by blast
  have "LoadProfile (\<lambda>m. m) (\<lambda>_. Some 0) (\<lambda>_. []) fs' ''main'' = Inr (sample_scheduled\<lparr>pf_schema_version := SchemaVersion\<rparr>)"
    by (rule saved_loads [OF visits_id sample_scheduled_storable _ fs'(1)]) (simp add: sample_scheduled_def NewSubscription_def)
  then have "LoadProfile (\<lambda>m. m) (\<lambda>_. Some 0) (\<lambda>_. []) sample_scheduled_fs ''main'' = Inr (sample_scheduled\<lparr>pf_schema_version := SchemaVersion\<rparr>)"
    by (subst LoadProfile_cong [of sample_scheduled_fs fs']) (simp_all add: fs'(2))
  then show "load_profile (ve_dv sample_verbs) (newManager sample_scheduled_fs None) ''main'' = Inr sample_scheduled"
    by (simp add: sample_verbs_def sample_daemon_def newManager_def) (simp add: sample_scheduled_def NewProfile_def)
  show "ActiveProfileName (mg_fs (newManager sample_scheduled_fs None)) = Inr ''main''"
    by (simp add: newManager_def ActiveProfileName_def fs'(2) read_file_def decoding_def codec_simps)
qed

definition sample_failed_fetch :: fetch_result where
  "sample_failed_fetch = \<lparr>fr_sub_id = ''s'', fr_name = ''n'', fr_url = ''u'', fr_format = FormatAuto, fr_body = Inl ''no network''\<rparr>"

text \<open>A sweep after nine hours whose fetch fails, landed while the disk refuses to write.\<close>

abbreviation hours :: "int \<Rightarrow> int" where "hours n \<equiv> n * 3600 * time_Second"

lemma sample_fetch_fails:
  "\<exists>e. FetchSubscription (ve_parsers sample_verbs) (ve_fetch sample_verbs) newid (NewSubscription ''s'' 0 ''u'' ''n'') ua =
     sample_failed_fetch\<lparr>fr_body := Inl e\<rparr>"
proof -
  have no_net: "\<exists>e. Fetch ps sample_fetch_env url certs ua = Inl e" for ps url certs
    by (cases ps) (auto simp: Fetch_def sample_fetch_env_def split: option.splits)
  have "\<exists>e. fetchSubscriptionBody ps sample_fetch_env newid sub format ua = Inl e" for ps sub format
    using no_net [of ps] by (auto simp: fetchSubscriptionBody_def Let_def split: option.splits) (metis old.sum.simps(5))
  then show ?thesis
    by (auto simp: FetchSubscription_def sample_verbs_def sample_failed_fetch_def NewSubscription_def ParseFormat_def Let_def)
qed

lemma save_refused: "\<exists>e. SaveProfile fmt False name p fs = (fs, Some e)"
  by (auto simp: SaveProfile_def atomicWrite_def split: option.splits sum.splits entry.splits)

lemma sample_backoff:
  "\<exists>s. sched_reachable (ve_dv sample_verbs) s \<and> sd_manager s = newManager sample_scheduled_fs None \<and>
     jget (sd_retry s) ''s'' = Some (nextSubscriptionRetry None (hours 9))"
proof -
  let ?m = "newManager sample_scheduled_fs None" and ?sub = "NewSubscription ''s'' 0 ''u'' ''n''" and ?ve = "sample_verbs\<lparr>ve_io := False\<rparr>"
  let ?s = "\<lparr>sd_manager = ?m, sd_pending = [], sd_retry = [], sd_fetched = []\<rparr>"
  obtain ua where sweep: "dueSubscriptionsLocked sample_verbs (hours 9) ?m [] = ([], ''main'', [?sub], ua)"
    by (auto simp: dueSubscriptionsLocked_def sample_scheduled_loads)
       (simp add: sample_scheduled_def NewSubscription_def subscriptionDue_def time_Sub_def obj_simps)
  obtain e where fr: "FetchSubscription (ve_parsers sample_verbs) (ve_fetch sample_verbs) (ve_newids sample_verbs 1) ?sub ua =
      sample_failed_fetch\<lparr>fr_body := Inl e\<rparr>"
    using sample_fetch_fails by blast
  have swept: "sched_step (ve_dv sample_verbs) ?s (?s\<lparr>sd_fetched := [(''main'', sample_failed_fetch\<lparr>fr_body := Inl e\<rparr>)]\<rparr>)"
    using sched_step.sweep [where s = ?s, OF refl, of sample_verbs "hours 9"] sweep fr by auto
  have land: "land_locked ?ve sample_outcomes (hours 9) ''main'' (sample_failed_fetch\<lparr>fr_body := Inl e\<rparr>) ?m [] =
      Some \<lparr>ld_manager = ?m, ld_retry = [(''s'', nextSubscriptionRetry None (hours 9))], ld_events = [], ld_reconnect = None\<rparr>"
  proof -
    obtain p' res where "Apply (ve_parsers ?ve) (ve_newids ?ve 0) (ve_from_name ?ve) (ve_now ?ve) (sample_failed_fetch\<lparr>fr_body := Inl e\<rparr>) sample_scheduled = Some (p', res)"
        "\<not> rs_discarded res"
      by (simp add: Apply_def Let_def sample_failed_fetch_def sample_scheduled_def findSubscriptionByID_def NewSubscription_def blank_refresh_def)
    moreover obtain x where "SaveProfile (ve_fmt_time ?ve) False ''main'' p' (mg_fs ?m) = (mg_fs ?m, Some x)" using save_refused by blast
    ultimately show ?thesis
      using sample_scheduled_loads(1) by (simp add: land_locked_def Let_def obj_simps) (simp add: sample_failed_fetch_def)
  qed
  let ?s' = "?s\<lparr>sd_retry := [(''s'', nextSubscriptionRetry None (hours 9))]\<rparr>"
  have "sched_step (ve_dv sample_verbs) (?s\<lparr>sd_fetched := [(''main'', sample_failed_fetch\<lparr>fr_body := Inl e\<rparr>)]\<rparr>) ?s'"
    using sched_step.land [of ?ve "ve_dv sample_verbs" "''main''" "sample_failed_fetch\<lparr>fr_body := Inl e\<rparr>"
      "?s\<lparr>sd_fetched := [(''main'', sample_failed_fetch\<lparr>fr_body := Inl e\<rparr>)]\<rparr>" sample_outcomes "hours 9"] land by auto
  then have "sched_reachable (ve_dv sample_verbs) ?s'"
    using sched_reachable.step [OF sched_reachable.step [OF sched_reachable.boot swept]] by blast
  then show ?thesis by (intro exI [of _ ?s']) (simp add: obj_simps)
qed

theorem scheduler_invariant_witness:
  "\<exists>s r. sched_reachable (ve_dv sample_verbs) s \<and> jget (sd_retry s) ''s'' = Some r \<and> sr_next r = hours 9 + 600 * time_Second \<and>
     ''s'' \<notin> sb_id ` set (fst (snd (snd (dueSubscriptionsLocked sample_verbs (hours 9 + 599 * time_Second) (sd_manager s) (sd_retry s))))) \<and>
     ''s'' \<in> sb_id ` set (fst (snd (snd (dueSubscriptionsLocked sample_verbs (hours 10) (sd_manager s) (sd_retry s)))))"
proof -
  let ?m = "newManager sample_scheduled_fs None"
  obtain s where s: "sched_reachable (ve_dv sample_verbs) s" "sd_manager s = ?m" "jget (sd_retry s) ''s'' = Some (nextSubscriptionRetry None (hours 9))"
    using sample_backoff by blast
  have named: "\<exists>retry' due ua. dueSubscriptionsLocked sample_verbs now (sd_manager s) (sd_retry s) = (retry', ''main'', due, ua)" for now
    by (simp add: dueSubscriptionsLocked_def s(2) sample_scheduled_loads split_beta)
  have r: "sr_next (nextSubscriptionRetry None (hours 9)) = hours 9 + 600 * time_Second" "sr_failed_at (nextSubscriptionRetry None (hours 9)) = hours 9"
    by (simp_all add: nextSubscriptionRetry_def subscriptionBackoffMin_def)
  have subs: "pf_subscriptions sample_scheduled = [NewSubscription ''s'' 0 ''u'' ''n'']" by (simp add: sample_scheduled_def)
  note inv = scheduler_invariant [OF s(1)]
  obtain retry' due ua where early: "dueSubscriptionsLocked sample_verbs (hours 9 + 599 * time_Second) (sd_manager s) (sd_retry s) = (retry', ''main'', due, ua)"
    using named by blast
  have "''s'' \<notin> sb_id ` set due"
  proof
    assume "''s'' \<in> sb_id ` set due"
    then obtain sub where "sub \<in> set due" "sb_id sub = ''s''" by auto
    with inv [THEN conjunct2, THEN conjunct1] early s r subs sample_scheduled_loads(1) show False
      by (fastforce simp: NewSubscription_def)
  qed
  moreover obtain retry2 due2 ua2 where late: "dueSubscriptionsLocked sample_verbs (hours 10) (sd_manager s) (sd_retry s) = (retry2, ''main'', due2, ua2)"
    using named by blast
  moreover have "NewSubscription ''s'' 0 ''u'' ''n'' \<in> set due2"
    using inv [THEN conjunct2, THEN conjunct2, THEN conjunct1, rule_format, OF conjI, OF late] s r subs sample_scheduled_loads(1)
    by (simp add: subscriptionDue_def time_Sub_def NewSubscription_def)
  moreover have "sb_id (NewSubscription ''s'' 0 ''u'' ''n'') = ''s''" by (simp add: NewSubscription_def)
  ultimately show ?thesis using s(1,3) r(1) early late by (intro exI [of _ s] exI [of _ "nextSubscriptionRetry None (hours 9)"]) force
qed

text \<open>Nine hours after its creation the one subscription is due.\<close>

theorem due_list_exact_witness:
  "\<exists>retry' ua. dueSubscriptionsLocked sample_verbs (9 * 3600 * time_Second) (newManager sample_scheduled_fs None) [] =
     (retry', ''main'', [NewSubscription ''s'' 0 ''u'' ''n''], ua)"
proof -
  obtain retry' name' due ua where r: "dueSubscriptionsLocked sample_verbs (9 * 3600 * time_Second) (newManager sample_scheduled_fs None) [] =
      (retry', name', due, ua)"
    by (rule prod_cases4)
  from due_list_exact [OF sample_scheduled_loads(2) _ sample_scheduled_loads(1) _ r]
  have "name' = ''main'' \<and> due = [NewSubscription ''s'' 0 ''u'' ''n'']"
    by (simp add: sample_scheduled_def held_back_def obj_simps) (simp add: NewSubscription_def)
  with r show ?thesis by blast
qed

lemma sample_failed_apply:
  "\<exists>p' res. Apply ps newid fromName now sample_failed_fetch sample_scheduled = Some (p', res) \<and> rs_err res = ''no network'' \<and> \<not> rs_discarded res"
  by (simp add: Apply_def Let_def sample_failed_fetch_def sample_scheduled_def findSubscriptionByID_def NewSubscription_def blank_refresh_def)

theorem land_settles_witness:
  "\<exists>l. land_locked sample_verbs sample_outcomes 7 ''main'' sample_failed_fetch (newManager sample_scheduled_fs None) [] = Some l \<and>
     jget (ld_retry l) ''s'' = Some (nextSubscriptionRetry None 7) \<and> ld_events l = []"
proof -
  let ?m = "newManager sample_scheduled_fs None"
  obtain p' res where app: "Apply (ve_parsers sample_verbs) (ve_newids sample_verbs 0) (ve_from_name sample_verbs) (ve_now sample_verbs)
      sample_failed_fetch sample_scheduled = Some (p', res)" "rs_err res = ''no network''" "\<not> rs_discarded res"
    using sample_failed_apply by blast
  have "\<exists>l. land_locked sample_verbs sample_outcomes 7 ''main'' sample_failed_fetch ?m [] = Some l"
    using app by (simp add: land_locked_def Let_def sample_scheduled_loads(1) split_beta)
  then obtain l where l: "land_locked sample_verbs sample_outcomes 7 ''main'' sample_failed_fetch ?m [] = Some l" by blast
  from land_settles [OF l sample_scheduled_loads(1) app(1)] app(2,3)
  show ?thesis using l by (simp add: obj_simps) (simp add: sample_failed_fetch_def)
qed

theorem first_failure_waits_witness:
  "\<exists>p' res s. Apply sample_parsers sample_newid (\<lambda>x. x) 1 sample_failed_fetch sample_scheduled = Some (p', res) \<and>
     findSubscriptionByID p' ''s'' = Some s \<and> sb_last_error s = ''no network'' \<and> \<not> subscriptionDue s (7 * 3600 * time_Second)"
proof -
  obtain p' res where app: "Apply sample_parsers sample_newid (\<lambda>x. x) 1 sample_failed_fetch sample_scheduled = Some (p', res)"
    using sample_failed_apply by blast
  have "findSubscriptionByID sample_scheduled ''s'' = Some (NewSubscription ''s'' 0 ''u'' ''n'')"
    by (simp add: sample_scheduled_def findSubscriptionByID_def NewSubscription_def)
  from first_failure_waits [OF this _ _ _ app] show ?thesis using app by (fastforce simp: sample_failed_fetch_def)
qed

end
