(* ===== verification/Update_Check.thy ===== *)
theory Update_Check
  imports Store_Files
begin

text \<open>
  The signed update check: the manifest and its validation (\<^verbatim>\<open>daemon-go/internal/update/manifest.go\<close>),
  verification (\<^verbatim>\<open>verify.go\<close>), the trust state on disk (\<^verbatim>\<open>seqstore.go\<close>) and the policy gates of
  \<^verbatim>\<open>Check\<close> (\<^verbatim>\<open>check.go\<close>).

  Code outside the repository is an argument, gathered in \<open>update_env\<close>: minisign (parsing a key or
  a signature, a key's id, verification) and \<^verbatim>\<open>semver\<close>; so are the JSON and time text parsers, the
  clock and the transport. Nothing is assumed of them.

  The \<^verbatim>\<open>SeqStore\<close> interface is a record of operations; its laws are the locale \<open>trust_store\<close>, which
  \<^verbatim>\<open>FileSeqStore\<close> interprets. The gates are proved once in the locale.
\<close>

section \<open>Manifests\<close>

abbreviation KindInstaller :: string where "KindInstaller \<equiv> ''installer''"
abbreviation KindPkg :: string where "KindPkg \<equiv> ''pkg''"
abbreviation KindNone :: string where "KindNone \<equiv> ''none''"
abbreviation ChannelStable :: string where "ChannelStable \<equiv> ''stable''"
abbreviation KeyCurrent :: string where "KeyCurrent \<equiv> ''current''"
abbreviation KeyRecovery :: string where "KeyRecovery \<equiv> ''recovery''"

record artifact =
  af_os :: string
  af_arch :: string
  af_kind :: string
  af_name :: string
  af_size :: int
  af_sha256 :: string
  af_urls :: "string list"

record manifest =
  mf_schema :: int
  mf_seq :: u64
  mf_channel :: string
  mf_version :: string
  mf_min_version :: string
  mf_published_at :: int
  mf_expires_at :: int
  mf_notes_url :: string
  mf_artifacts :: "artifact list"

datatype update_error =
    NoManifestURLs
  | NoTransport
  | NoSeqStore
  | MirrorsFailed
  | BadCompiledKey string
  | MalformedSignature
  | NotPrehashed nat
  | UnknownKey u64
  | SignatureFailed string
  | BadManifest decode_error
  | NotJSON
  | UnsupportedSchema int
  | InvalidVersion string
  | InvalidMinVersion string
  | InvalidArtifact nat
  | CommentLacksFields
  | CommentBadSeq
  | CommentMismatch
  | LoadState
  | RevokedKey string u64
  | Rollback u64 u64
  | PersistRevocation
  | PersistFloor

text \<open>A minisign signature as its parser returns it.\<close>

record minisig =
  sg_algorithm :: nat
  sg_key_id :: u64
  sg_comment :: string

record trusted_key =
  tk_name :: string
  tk_pub :: string

record update_env =
  ue_parse_key :: "string \<Rightarrow> string option"
  ue_key_id :: "string \<Rightarrow> u64"
  ue_parse_sig :: "string \<Rightarrow> minisig option"
  ue_verify :: "string \<Rightarrow> string \<Rightarrow> string \<Rightarrow> bool"
  ue_hash_eddsa :: nat
  ue_semver_valid :: "string \<Rightarrow> bool"
  ue_semver_canonical :: "string \<Rightarrow> string"
  ue_semver_compare :: "string \<Rightarrow> string \<Rightarrow> int"
  ue_json_text :: "string \<Rightarrow> json option"
  ue_parse_time :: "string \<Rightarrow> int option"
  ue_goos :: string
  ue_goarch :: string

definition dec_artifact :: "json \<Rightarrow> artifact decoded" where
  "dec_artifact = dec_struct (\<lambda>ob.
     rbind (dec_field dec_string [] ''os'' ob) (\<lambda>x0.
     rbind (dec_field dec_string [] ''arch'' ob) (\<lambda>x1.
     rbind (dec_field dec_string [] ''kind'' ob) (\<lambda>x2.
     rbind (dec_field dec_string [] ''name'' ob) (\<lambda>x3.
     rbind (dec_field (dec_int 64) 0 ''size'' ob) (\<lambda>x4.
     rbind (dec_field dec_string [] ''sha256'' ob) (\<lambda>x5.
     rbind (dec_field (dec_list dec_string) [] ''urls'' ob) (\<lambda>x6.
     Inr \<lparr>af_os = x0, af_arch = x1, af_kind = x2, af_name = x3, af_size = x4, af_sha256 = x5, af_urls = x6\<rparr>))))))))"

definition dec_manifest :: "(string \<Rightarrow> int option) \<Rightarrow> json \<Rightarrow> manifest decoded" where
  "dec_manifest parse_time = dec_struct (\<lambda>ob.
     rbind (dec_field (dec_int 64) 0 ''schema'' ob) (\<lambda>x0.
     rbind (dec_field dec_word 0 ''seq'' ob) (\<lambda>x1.
     rbind (dec_field dec_string [] ''channel'' ob) (\<lambda>x2.
     rbind (dec_field dec_string [] ''version'' ob) (\<lambda>x3.
     rbind (dec_field dec_string [] ''min_version'' ob) (\<lambda>x4.
     rbind (dec_field (dec_time parse_time) zero_time ''published_at'' ob) (\<lambda>x5.
     rbind (dec_field (dec_time parse_time) zero_time ''expires_at'' ob) (\<lambda>x6.
     rbind (dec_field dec_string [] ''notes_url'' ob) (\<lambda>x7.
     rbind (dec_field (dec_list dec_artifact) [] ''artifacts'' ob) (\<lambda>x8.
     Inr \<lparr>mf_schema = x0, mf_seq = x1, mf_channel = x2, mf_version = x3, mf_min_version = x4, mf_published_at = x5,
          mf_expires_at = x6, mf_notes_url = x7, mf_artifacts = x8\<rparr>))))))))))"

definition validVersion :: "update_env \<Rightarrow> string \<Rightarrow> bool" where
  "validVersion env v = (ue_semver_valid env v \<and> ue_semver_canonical env v = v)"

definition artifact_valid :: "artifact \<Rightarrow> bool" where
  "artifact_valid a =
    (if af_kind a = KindNone then True
     else if af_kind a \<noteq> KindInstaller \<and> af_kind a \<noteq> KindPkg then False
     else af_size a > 0 \<and> length (af_sha256 a) = 64 \<and> list_all (\<lambda>c. hex_val c \<noteq> None) (af_sha256 a) \<and> af_urls a \<noteq> [])"

fun check_artifacts :: "nat \<Rightarrow> artifact list \<Rightarrow> update_error option" where
  "check_artifacts i [] = None"
| "check_artifacts i (a # as) = (if \<not> artifact_valid a then Some (InvalidArtifact i) else check_artifacts (Suc i) as)"

definition manifest_validate :: "update_env \<Rightarrow> manifest \<Rightarrow> update_error option" where
  "manifest_validate env m =
    (if mf_schema m \<noteq> 1 then Some (UnsupportedSchema (mf_schema m))
     else if \<not> validVersion env (mf_version m) then Some (InvalidVersion (mf_version m))
     else if mf_min_version m \<noteq> [] \<and> \<not> validVersion env (mf_min_version m) then Some (InvalidMinVersion (mf_min_version m))
     else check_artifacts 0 (mf_artifacts m))"

definition ParseManifest :: "update_env \<Rightarrow> string \<Rightarrow> update_error + manifest" where
  "ParseManifest env data = (case ue_json_text env data of
     None \<Rightarrow> Inl NotJSON
   | Some j \<Rightarrow> (case dec_manifest (ue_parse_time env) j of
       Inl e \<Rightarrow> Inl (BadManifest e)
     | Inr m \<Rightarrow> (case manifest_validate env m of Some e \<Rightarrow> Inl e | None \<Rightarrow> Inr m)))"

section \<open>Verification\<close>

definition publicKeyCurrent :: string where
  "publicKeyCurrent = ''RWRi//HrcYaiMEDXrHFnerX+PqNRGTp67NOU+8wNEXCg6ihJkSEQbvTp''"

definition publicKeyRecovery :: string where
  "publicKeyRecovery = ''RWQkuhZH9zeY4RCxVOqDHDAfc4EYfAXcoc26lNAfD0tRM+BZkRNc2R9t''"

definition trustedKeys :: "update_env \<Rightarrow> update_error + trusted_key list" where
  "trustedKeys env = traverse (\<lambda>(name, text). case ue_parse_key env text of
     None \<Rightarrow> Inl (BadCompiledKey name) | Some pub \<Rightarrow> Inr \<lparr>tk_name = name, tk_pub = pub\<rparr>)
     [(KeyCurrent, publicKeyCurrent), (KeyRecovery, publicKeyRecovery)]"

fun comment_fields :: "string list \<Rightarrow> string \<times> string \<Rightarrow> string \<times> string" where
  "comment_fields [] acc = acc"
| "comment_fields (f # fs) (version, seq) = (case CutPrefix f ''version='' of
     Some v \<Rightarrow> comment_fields fs (v, seq)
   | None \<Rightarrow> (case CutPrefix f ''seq='' of
       Some v \<Rightarrow> comment_fields fs (version, v)
     | None \<Rightarrow> comment_fields fs (version, seq)))"

definition parseTrustedComment :: "string \<Rightarrow> update_error + (string \<times> u64)" where
  "parseTrustedComment comment =
    (let (version, seqText) = comment_fields (Fields comment) ([], []) in
     if version = [] \<or> seqText = [] then Inl CommentLacksFields
     else case ParseUint seqText 10 64 of None \<Rightarrow> Inl CommentBadSeq | Some n \<Rightarrow> Inr (version, of_nat n))"

record verified =
  vf_manifest :: manifest
  vf_key_name :: string
  vf_key_id :: u64

definition verifyManifest :: "update_env \<Rightarrow> trusted_key list \<Rightarrow> string \<Rightarrow> string \<Rightarrow> update_error + verified" where
  "verifyManifest env keys manifestJSON signature = (case ue_parse_sig env signature of
     None \<Rightarrow> Inl MalformedSignature
   | Some sig \<Rightarrow>
      if sg_algorithm sig \<noteq> ue_hash_eddsa env then Inl (NotPrehashed (sg_algorithm sig))
      else (case find (\<lambda>k. ue_key_id env (tk_pub k) = sg_key_id sig) keys of
         None \<Rightarrow> Inl (UnknownKey (sg_key_id sig))
       | Some key \<Rightarrow>
          if \<not> ue_verify env (tk_pub key) manifestJSON signature then Inl (SignatureFailed (tk_name key))
          else rbind (ParseManifest env manifestJSON) (\<lambda>m.
               rbind (parseTrustedComment (sg_comment sig)) (\<lambda>(version, seq).
               if version \<noteq> mf_version m \<or> seq \<noteq> mf_seq m then Inl CommentMismatch
               else Inr \<lparr>vf_manifest = m, vf_key_name = tk_name key, vf_key_id = ue_key_id env (tk_pub key)\<rparr>))))"

definition VerifyManifest :: "update_env \<Rightarrow> string \<Rightarrow> string \<Rightarrow> update_error + verified" where
  "VerifyManifest env manifestJSON signature =
     rbind (trustedKeys env) (\<lambda>keys. verifyManifest env keys manifestJSON signature)"

section \<open>The trust state\<close>

record seq_state =
  ss_last_seen_seq :: u64
  ss_last_attempt :: string
  ss_revoked_key_ids :: "string list"

definition zero_seq_state :: seq_state where
  "zero_seq_state = \<lparr>ss_last_seen_seq = 0, ss_last_attempt = [], ss_revoked_key_ids = []\<rparr>"

definition enc_seq_state :: "seq_state \<Rightarrow> json" where
  "enc_seq_state st = JObj ([(''last_seen_seq'', enc_word (ss_last_seen_seq st))] @
     omit_when (ss_last_attempt st = []) ''last_attempt'' (JStr (ss_last_attempt st)) @
     omit_when (ss_revoked_key_ids st = []) ''revoked_key_ids'' (enc_strings (ss_revoked_key_ids st)))"

definition dec_seq_state :: "json \<Rightarrow> seq_state decoded" where
  "dec_seq_state = dec_struct (\<lambda>ob.
     rbind (dec_field dec_word 0 ''last_seen_seq'' ob) (\<lambda>x0.
     rbind (dec_field dec_string [] ''last_attempt'' ob) (\<lambda>x1.
     rbind (dec_field (dec_list dec_string) [] ''revoked_key_ids'' ob) (\<lambda>x2.
     Inr \<lparr>ss_last_seen_seq = x0, ss_last_attempt = x1, ss_revoked_key_ids = x2\<rparr>))))"

text \<open>
  \<open>sf_file\<close> is \<^verbatim>\<open>update_state.json\<close>; \<open>sf_io\<close> scripts the outcomes of the coming writes, each one
  taken by a \<open>seq_save\<close> (an exhausted script fails).
\<close>

record seq_file =
  sf_file :: "entry option"
  sf_io :: "bool list"

definition seq_load :: "seq_file \<Rightarrow> file_error + seq_state" where
  "seq_load s = (if sf_file s = None then Inr zero_seq_state
     else rbind (read_file (sf_file s)) (\<lambda>raw. decoding (dec_seq_state raw)))"

definition seq_save :: "seq_state \<Rightarrow> seq_file \<Rightarrow> seq_file \<times> bool" where
  "seq_save st s = (case atomicWrite (sf_io s \<noteq> [] \<and> hd (sf_io s)) (sf_file s) (enc_seq_state st) of
     Inl e \<Rightarrow> (s\<lparr>sf_io := tl (sf_io s)\<rparr>, False)
   | Inr f \<Rightarrow> (s\<lparr>sf_file := Some f, sf_io := tl (sf_io s)\<rparr>, True))"

definition seq_update :: "(seq_state \<Rightarrow> seq_state) \<Rightarrow> seq_file \<Rightarrow> seq_file \<times> bool" where
  "seq_update mutate s = (case seq_load s of Inl e \<Rightarrow> (s, False) | Inr st \<Rightarrow> seq_save (mutate st) s)"

definition LastSeenSeq :: "seq_file \<Rightarrow> u64 option" where
  "LastSeenSeq s = (case seq_load s of Inl e \<Rightarrow> None | Inr st \<Rightarrow> Some (ss_last_seen_seq st))"

definition SetLastSeenSeq :: "u64 \<Rightarrow> seq_file \<Rightarrow> seq_file \<times> bool" where
  "SetLastSeenSeq seq = seq_update (\<lambda>st. st\<lparr>ss_last_seen_seq := seq\<rparr>)"

definition parse_key_id :: "string \<Rightarrow> unit + u64" where
  "parse_key_id text = (case ParseUint text 16 64 of None \<Rightarrow> Inl () | Some n \<Rightarrow> Inr (of_nat n))"

definition RevokedKeyIDs :: "seq_file \<Rightarrow> u64 list option" where
  "RevokedKeyIDs s = (case seq_load s of
     Inl e \<Rightarrow> None
   | Inr st \<Rightarrow> (case traverse parse_key_id (ss_revoked_key_ids st) of Inl e \<Rightarrow> None | Inr ids \<Rightarrow> Some ids))"

definition revoke_text :: "string \<Rightarrow> seq_state \<Rightarrow> seq_state" where
  "revoke_text text st = (if text \<notin> set (ss_revoked_key_ids st)
     then st\<lparr>ss_revoked_key_ids := ss_revoked_key_ids st @ [text]\<rparr> else st)"

definition RevokeKeyID :: "u64 \<Rightarrow> seq_file \<Rightarrow> seq_file \<times> bool" where
  "RevokeKeyID kid = seq_update (revoke_text (FormatUint 16 (unat kid)))"

definition LastAttempt :: "(string \<Rightarrow> int option) \<Rightarrow> seq_file \<Rightarrow> int option" where
  "LastAttempt parse_time s = (case seq_load s of
     Inl e \<Rightarrow> None
   | Inr st \<Rightarrow> if ss_last_attempt st = [] then Some zero_time else parse_time (ss_last_attempt st))"

definition SetLastAttempt :: "(int \<Rightarrow> string) \<Rightarrow> int \<Rightarrow> seq_file \<Rightarrow> seq_file \<times> bool" where
  "SetLastAttempt fmt_time t = seq_update (\<lambda>st. st\<lparr>ss_last_attempt := fmt_time t\<rparr>)"

text \<open>The \<^verbatim>\<open>SeqStore\<close> interface; \<open>None\<close> and \<open>False\<close> are errors.\<close>

record 's seq_store =
  so_last :: "'s \<Rightarrow> u64 option"
  so_set :: "u64 \<Rightarrow> 's \<Rightarrow> 's \<times> bool"
  so_revoked :: "'s \<Rightarrow> u64 list option"
  so_revoke :: "u64 \<Rightarrow> 's \<Rightarrow> 's \<times> bool"

definition FileSeqStore :: "seq_file seq_store" where
  "FileSeqStore = \<lparr>so_last = LastSeenSeq, so_set = SetLastSeenSeq, so_revoked = RevokedKeyIDs, so_revoke = RevokeKeyID\<rparr>"

section \<open>Fetching\<close>

text \<open>A response as the HTTP client delivers it: the body is \<open>None\<close> when reading it fails. The
  transport answers the n-th request of a check; \<open>None\<close> is a request that failed.\<close>

record http_response =
  hr_status :: nat
  hr_body :: "string option"

type_synonym http_transport = "nat \<Rightarrow> string \<Rightarrow> http_response option"

definition maxManifestSize :: nat where "maxManifestSize = 2 ^ 20"
definition maxSignatureSize :: nat where "maxSignatureSize = 64 * 2 ^ 10"

definition fetchOne :: "http_transport \<Rightarrow> nat \<Rightarrow> string \<Rightarrow> nat \<Rightarrow> string option" where
  "fetchOne client n url maxSize = (case client n url of
     None \<Rightarrow> None
   | Some resp \<Rightarrow>
      if hr_status resp \<noteq> 200 then None
      else (case hr_body resp of
         None \<Rightarrow> None
       | Some body \<Rightarrow> (let data = take (maxSize + 1) body in if length data > maxSize then None else Some data)))"

fun fetchManifest :: "http_transport \<Rightarrow> nat \<Rightarrow> string list \<Rightarrow> update_error + (string \<times> string)" where
  "fetchManifest client n [] = Inl MirrorsFailed"
| "fetchManifest client n (url # urls) = (case fetchOne client n url maxManifestSize of
     None \<Rightarrow> fetchManifest client (n + 1) urls
   | Some m \<Rightarrow> (case fetchOne client (n + 1) (url @ ''.minisig'') maxSignatureSize of
       None \<Rightarrow> fetchManifest client (n + 2) urls
     | Some s \<Rightarrow> Inr (m, s)))"

section \<open>The check\<close>

text \<open>\<^verbatim>\<open>gitDescribeTail\<close>, the pattern \<^verbatim>\<open>\.r\d+\.g[0-9a-f]+.*$\<close> anchored at the front of the text.\<close>

definition is_digit :: "char \<Rightarrow> bool" where "is_digit c = (c \<in> set ''0123456789'')"
definition is_lower_hex :: "char \<Rightarrow> bool" where "is_lower_hex c = (c \<in> set ''0123456789abcdef'')"

definition describe_tail :: "string \<Rightarrow> bool" where
  "describe_tail s = (case CutPrefix s ''.r'' of
     None \<Rightarrow> False
   | Some r \<Rightarrow> takeWhile is_digit r \<noteq> [] \<and>
       (case CutPrefix (dropWhile is_digit r) ''.g'' of
          None \<Rightarrow> False
        | Some g \<Rightarrow> takeWhile is_lower_hex g \<noteq> [] \<and> CHR 0x0A \<notin> set g))"

fun strip_describe_tail :: "string \<Rightarrow> string" where
  "strip_describe_tail [] = []"
| "strip_describe_tail (c # s) = (if describe_tail (c # s) then [] else c # strip_describe_tail s)"

definition normalizeCurrentVersion :: "update_env \<Rightarrow> string \<Rightarrow> string" where
  "normalizeCurrentVersion env v0 = (let v = strip_describe_tail v0 in
     if \<not> HasPrefix v ''v'' \<or> \<not> ue_semver_valid env v then []
     else if HasPrefix v ''v0.0.0'' then []
     else v)"

definition selectArtifact :: "manifest \<Rightarrow> string \<Rightarrow> string \<Rightarrow> artifact option" where
  "selectArtifact m goos goarch = find (\<lambda>a. af_os a = goos \<and> af_arch a = goarch) (mf_artifacts m)"

record update_result =
  ur_checked_at :: int
  ur_available :: bool
  ur_stale :: bool
  ur_latest_version :: string
  ur_notes_url :: string
  ur_artifact :: "artifact option"
  ur_verified_key :: string

definition blank_result :: "int \<Rightarrow> string \<Rightarrow> update_result" where
  "blank_result t key = \<lparr>ur_checked_at = t, ur_available = False, ur_stale = False, ur_latest_version = [],
     ur_notes_url = [], ur_artifact = None, ur_verified_key = key\<rparr>"

text \<open>\<open>uc_now n\<close> is the n-th reading of the clock.\<close>

record 's update_config =
  uc_version :: string
  uc_urls :: "string list"
  uc_transport :: "http_transport option"
  uc_store :: "'s seq_store option"
  uc_now :: "nat \<Rightarrow> int"

fun revoke_others :: "update_env \<Rightarrow> 's seq_store \<Rightarrow> u64 list \<Rightarrow> trusted_key list \<Rightarrow> 's \<Rightarrow> 's \<times> bool" where
  "revoke_others env st revoked [] s = (s, True)"
| "revoke_others env st revoked (k # ks) s = (let kid = ue_key_id env (tk_pub k) in
     if tk_name k \<noteq> KeyRecovery \<and> kid \<notin> set revoked
     then (case so_revoke st kid s of
             (s', False) \<Rightarrow> (s', False)
           | (s', True) \<Rightarrow> revoke_others env st revoked ks s')
     else revoke_others env st revoked ks s)"

text \<open>What \<^verbatim>\<open>Check\<close> reports of a manifest that passed the gates.\<close>

definition evaluate_manifest :: "update_env \<Rightarrow> 's update_config \<Rightarrow> verified \<Rightarrow> update_result" where
  "evaluate_manifest env cfg v =
    (let m = vf_manifest v;
         res = (blank_result (uc_now cfg 0) (vf_key_name v))\<lparr>ur_latest_version := mf_version m, ur_notes_url := mf_notes_url m\<rparr>;
         current = normalizeCurrentVersion env (uc_version cfg) in
     if mf_expires_at m \<noteq> zero_time \<and> uc_now cfg 1 > mf_expires_at m then res\<lparr>ur_stale := True\<rparr>
     else if current = [] then res
     else if ue_semver_compare env (mf_version m) current \<le> 0 then res
     else res\<lparr>ur_available := True,
              ur_artifact := (case selectArtifact m (ue_goos env) (ue_goarch env) of
                None \<Rightarrow> None | Some a \<Rightarrow> if af_kind a = KindInstaller then Some a else None)\<rparr>)"

text \<open>The writes for a manifest past the gates: a recovery signature retires the other keys, then
  the floor moves.\<close>

definition accept_manifest ::
  "update_env \<Rightarrow> 's update_config \<Rightarrow> 's seq_store \<Rightarrow> trusted_key list \<Rightarrow> verified \<Rightarrow> u64 list \<Rightarrow> u64 \<Rightarrow> 's
     \<Rightarrow> 's \<times> (update_error + update_result)" where
  "accept_manifest env cfg st keys v revoked seen s =
    (case (if vf_key_name v = KeyRecovery then revoke_others env st revoked keys s else (s, True)) of
       (s1, False) \<Rightarrow> (s1, Inl PersistRevocation)
     | (s1, True) \<Rightarrow>
        (case (if mf_seq (vf_manifest v) > seen then so_set st (mf_seq (vf_manifest v)) s1 else (s1, True)) of
           (s2, False) \<Rightarrow> (s2, Inl PersistFloor)
         | (s2, True) \<Rightarrow> (s2, Inr (evaluate_manifest env cfg v))))"

text \<open>
  The policy gates on a verified manifest, in the order of the code: a check ends there, or goes on with the revoked keys and the floor it has read.
\<close>

definition read_gates ::
  "'s update_config \<Rightarrow> 's seq_store \<Rightarrow> verified \<Rightarrow> 's \<Rightarrow> (update_error + update_result) + (u64 list \<times> u64)" where
  "read_gates cfg st v s = (case so_revoked st s of
     None \<Rightarrow> Inl (Inl LoadState)
   | Some revoked \<Rightarrow>
      if vf_key_id v \<in> set revoked then Inl (Inl (RevokedKey (vf_key_name v) (vf_key_id v)))
      else if mf_channel (vf_manifest v) \<noteq> ChannelStable then Inl (Inr (blank_result (uc_now cfg 0) (vf_key_name v)))
      else (case so_last st s of
         None \<Rightarrow> Inl (Inl LoadState)
       | Some seen \<Rightarrow>
          if mf_seq (vf_manifest v) < seen then Inl (Inl (Rollback (mf_seq (vf_manifest v)) seen)) else Inr (revoked, seen)))"

definition check_gates ::
  "update_env \<Rightarrow> 's update_config \<Rightarrow> 's seq_store \<Rightarrow> trusted_key list \<Rightarrow> verified \<Rightarrow> 's \<Rightarrow> 's \<times> (update_error + update_result)" where
  "check_gates env cfg st keys v s = (case read_gates cfg st v s of
     Inl r \<Rightarrow> (s, r)
   | Inr (revoked, seen) \<Rightarrow> accept_manifest env cfg st keys v revoked seen s)"

definition Check :: "update_env \<Rightarrow> 's update_config \<Rightarrow> 's \<Rightarrow> 's \<times> (update_error + update_result)" where
  "Check env cfg s =
    (if uc_urls cfg = [] then (s, Inl NoManifestURLs)
     else case uc_transport cfg of None \<Rightarrow> (s, Inl NoTransport) | Some client \<Rightarrow>
    (case uc_store cfg of None \<Rightarrow> (s, Inl NoSeqStore) | Some st \<Rightarrow>
    (case fetchManifest client 0 (uc_urls cfg) of Inl e \<Rightarrow> (s, Inl e) | Inr (manifestJSON, sig) \<Rightarrow>
    (case trustedKeys env of Inl e \<Rightarrow> (s, Inl e) | Inr keys \<Rightarrow>
    (case verifyManifest env keys manifestJSON sig of
       Inl e \<Rightarrow> (case e of UnsupportedSchema _ \<Rightarrow> (s, Inr (blank_result (uc_now cfg 0) [])) | _ \<Rightarrow> (s, Inl e))
     | Inr v \<Rightarrow> check_gates env cfg st keys v s)))))"

text \<open>What can happen to the state file when checks run one after the other; overlapping ones are steps of \<^verbatim>\<open>Manager_Update\<close>.\<close>

inductive update_step :: "update_env \<Rightarrow> seq_file \<Rightarrow> seq_file \<Rightarrow> bool" for env where
  check: "uc_store cfg = Some FileSeqStore \<Longrightarrow> update_step env s (fst (Check env cfg s))"
| attempt: "update_step env s (fst (SetLastAttempt fmt_time t s))"

lemma check_gates_eq:
  "check_gates env cfg st keys v s = (case so_revoked st s of
     None \<Rightarrow> (s, Inl LoadState)
   | Some revoked \<Rightarrow>
      if vf_key_id v \<in> set revoked then (s, Inl (RevokedKey (vf_key_name v) (vf_key_id v)))
      else if mf_channel (vf_manifest v) \<noteq> ChannelStable then (s, Inr (blank_result (uc_now cfg 0) (vf_key_name v)))
      else (case so_last st s of
         None \<Rightarrow> (s, Inl LoadState)
       | Some seen \<Rightarrow>
          if mf_seq (vf_manifest v) < seen then (s, Inl (Rollback (mf_seq (vf_manifest v)) seen))
          else accept_manifest env cfg st keys v revoked seen s))"
  by (simp add: check_gates_def read_gates_def split: option.splits)

lemma read_gates_Inr: "read_gates cfg st v s = Inr (revoked, seen) \<longleftrightarrow> so_revoked st s = Some revoked \<and> vf_key_id v \<notin> set revoked \<and>
    mf_channel (vf_manifest v) = ChannelStable \<and> so_last st s = Some seen \<and> seen \<le> mf_seq (vf_manifest v)"
  by (auto simp: read_gates_def not_less split: option.splits if_splits)

section \<open>What a trust store promises\<close>

locale trust_store =
  fixes st :: "'s seq_store"
  assumes set_law: "so_set st q s = (s', ok) \<Longrightarrow>
      so_revoked st s' = so_revoked st s \<and> so_last st s' = (if ok then Some q else so_last st s)"
    and revoke_last: "so_revoke st kid s = (s', ok) \<Longrightarrow> so_last st s' = so_last st s"
    and revoke_ok: "so_revoke st kid s = (s', True) \<Longrightarrow> so_revoked st s = Some ids \<Longrightarrow>
      \<exists>ids'. so_revoked st s' = Some ids' \<and> set ids' = insert kid (set ids)"
    and revoke_fail: "so_revoke st kid s = (s', False) \<Longrightarrow> so_revoked st s' = so_revoked st s"
begin

lemma revoke_step:
  assumes "so_revoke st kid s = (s', ok)" and "so_revoked st s = Some ids"
  shows "\<exists>ids'. so_revoked st s' = Some ids' \<and> set ids \<subseteq> set ids' \<and> (ok \<longrightarrow> kid \<in> set ids')"
  using assms revoke_ok revoke_fail by (cases ok) fastforce+

lemma revoke_others_law:
  assumes "revoke_others env st revoked ks s = (s', ok)" and "so_revoked st s = Some ids"
  shows "so_last st s' = so_last st s \<and>
    (\<exists>ids'. so_revoked st s' = Some ids' \<and> set ids \<subseteq> set ids' \<and>
       (ok \<longrightarrow> (\<forall>k \<in> set ks. tk_name k \<noteq> KeyRecovery \<longrightarrow> ue_key_id env (tk_pub k) \<in> set revoked \<union> set ids')))"
  using assms
proof (induction ks arbitrary: s ids)
  case Nil
  then show ?case by auto
next
  case (Cons k ks)
  let ?kid = "ue_key_id env (tk_pub k)"
  show ?case
  proof (cases "tk_name k \<noteq> KeyRecovery \<and> ?kid \<notin> set revoked")
    case False
    then have "revoke_others env st revoked ks s = (s', ok)" using Cons.prems(1) by (simp add: Let_def split: if_splits)
    from Cons.IH [OF this Cons.prems(2)] False show ?thesis by auto
  next
    case True
    obtain s1 ok1 where r: "so_revoke st ?kid s = (s1, ok1)" by fastforce
    obtain ids1 where i1: "so_revoked st s1 = Some ids1" "set ids \<subseteq> set ids1" "ok1 \<longrightarrow> ?kid \<in> set ids1"
      using revoke_step [OF r Cons.prems(2)] by blast
    have l1: "so_last st s1 = so_last st s" using revoke_last [OF r] .
    show ?thesis
    proof (cases ok1)
      case ok: False
      then have "s' = s1" "\<not> ok" using Cons.prems(1) True r by simp_all
      with i1 l1 show ?thesis by auto
    next
      case ok: True
      then have "revoke_others env st revoked ks s1 = (s', ok)" using Cons.prems(1) True r by simp
      from Cons.IH [OF this i1(1)] i1 l1 ok show ?thesis by auto
    qed
  qed
qed

text \<open>Whatever an acceptance meets, it leaves the floor alone or moves it to its own sequence number.\<close>

lemma revoke_others_last: "revoke_others env st revoked ks s = (s', ok) \<Longrightarrow> so_last st s' = so_last st s"
  by (induction ks arbitrary: s) (auto simp: Let_def dest: revoke_last split: if_splits prod.splits bool.splits)

lemma accept_last:
  "accept_manifest env cfg st keys v ids seen s = (s', r) \<Longrightarrow> so_last st s' = so_last st s \<or> so_last st s' = Some (mf_seq (vf_manifest v))"
  by (auto simp: accept_manifest_def dest!: set_law revoke_others_last split: prod.splits bool.splits if_splits)

lemma accept_law:
  assumes acc: "accept_manifest env cfg st keys v ids f s = (s', r)"
    and last: "so_last st s = Some f" and rev: "so_revoked st s = Some ids" and le: "f \<le> mf_seq (vf_manifest v)"
  shows "\<exists>ids'. so_revoked st s' = Some ids' \<and> set ids \<subseteq> set ids' \<and>
    (case r of
       Inl e \<Rightarrow> so_last st s' = Some f
     | Inr res \<Rightarrow> so_last st s' = Some (mf_seq (vf_manifest v)) \<and> res = evaluate_manifest env cfg v \<and>
        (vf_key_name v = KeyRecovery \<longrightarrow>
          (\<forall>k \<in> set keys. tk_name k \<noteq> KeyRecovery \<longrightarrow> ue_key_id env (tk_pub k) \<in> set ids')))"
proof -
  let ?m = "vf_manifest v"
  obtain s1 ok1 where r1: "(if vf_key_name v = KeyRecovery then revoke_others env st ids keys s else (s, True)) = (s1, ok1)"
    by fastforce
  obtain ids1 where one: "so_last st s1 = Some f" "so_revoked st s1 = Some ids1" "set ids \<subseteq> set ids1"
    and keys: "ok1 \<longrightarrow> vf_key_name v = KeyRecovery \<longrightarrow>
      (\<forall>k \<in> set keys. tk_name k \<noteq> KeyRecovery \<longrightarrow> ue_key_id env (tk_pub k) \<in> set ids1)"
  proof (cases "vf_key_name v = KeyRecovery")
    case True
    with r1 have "revoke_others env st ids keys s = (s1, ok1)" by simp
    from revoke_others_law [OF this rev] last show thesis by (auto intro: that)
  next
    case False
    with r1 last rev show thesis by (auto intro: that)
  qed
  obtain s2 ok2 where r2: "(if mf_seq ?m > f then so_set st (mf_seq ?m) s1 else (s1, True)) = (s2, ok2)" by fastforce
  have two: "so_revoked st s2 = Some ids1" "so_last st s2 = Some (if ok2 then mf_seq ?m else f)"
    using r2 one le by (auto split: if_splits dest!: set_law)
  have "(s', r) = (if \<not> ok1 then (s1, Inl PersistRevocation) else if \<not> ok2 then (s2, Inl PersistFloor)
      else (s2, Inr (evaluate_manifest env cfg v)))"
    using acc unfolding accept_manifest_def r1 by (cases ok1; cases ok2) (simp_all add: r2)
  with one two keys show ?thesis by (auto split: if_splits)
qed

lemma gates_law:
  assumes "check_gates env cfg st keys v s = (s', r)"
    and last: "so_last st s = Some f" and rev: "so_revoked st s = Some ids"
  shows "\<exists>f' ids'. so_last st s' = Some f' \<and> so_revoked st s' = Some ids' \<and> set ids \<subseteq> set ids' \<and>
    (case r of
       Inl e \<Rightarrow> f' = f
     | Inr res \<Rightarrow> vf_key_id v \<notin> set ids \<and>
        (if mf_channel (vf_manifest v) = ChannelStable
         then f \<le> mf_seq (vf_manifest v) \<and> f' = mf_seq (vf_manifest v) \<and> res = evaluate_manifest env cfg v \<and>
           (vf_key_name v = KeyRecovery \<longrightarrow> (\<forall>k \<in> set keys. tk_name k \<noteq> KeyRecovery \<longrightarrow> ue_key_id env (tk_pub k) \<in> set ids'))
         else f' = f \<and> res = blank_result (uc_now cfg 0) (vf_key_name v)))"
proof (cases "vf_key_id v \<notin> set ids \<and> mf_channel (vf_manifest v) = ChannelStable \<and> f \<le> mf_seq (vf_manifest v)")
  case True
  with assms have "accept_manifest env cfg st keys v ids f s = (s', r)"
    by (auto simp: check_gates_eq not_less [symmetric] split: if_splits)
  from accept_law [OF this last rev] True show ?thesis by (cases r) auto
next
  case False
  with assms show ?thesis by (auto simp: check_gates_eq split: if_splits)
qed

text \<open>A check is refused before the gates, ends softly on an unknown schema, or reaches the gates
  with a manifest verified against the compiled keys.\<close>

lemma Check_cases:
  assumes "Check env cfg s = (s', r)" and "uc_store cfg = Some st"
  obtains (refused) e where "s' = s" "r = Inl e"
    | (schema) "s' = s" "r = Inr (blank_result (uc_now cfg 0) [])"
    | (gates) client manifestJSON sig keys v where "uc_transport cfg = Some client"
        "fetchManifest client 0 (uc_urls cfg) = Inr (manifestJSON, sig)" "trustedKeys env = Inr keys"
        "verifyManifest env keys manifestJSON sig = Inr v" "check_gates env cfg st keys v s = (s', r)"
  using assms unfolding Check_def
  by (auto split: if_splits option.splits sum.splits prod.splits update_error.splits)

lemma Check_law:
  assumes chk: "Check env cfg s = (s', r)" and st: "uc_store cfg = Some st"
    and last: "so_last st s = Some f" and rev: "so_revoked st s = Some ids"
  shows "\<exists>f' ids'. so_last st s' = Some f' \<and> so_revoked st s' = Some ids' \<and> f \<le> f' \<and> set ids \<subseteq> set ids' \<and>
    (\<forall>e. r = Inl e \<longrightarrow> f' = f)"
  using chk st
proof (cases rule: Check_cases)
  case gates
  from gates_law [OF gates(5) last rev] show ?thesis
    by (cases r) (auto split: if_splits)
qed (use last rev in auto)

end

section \<open>The file store keeps the promise\<close>

lemma ToLower_seq_fields [simp]:
  "ToLower ''last_seen_seq'' = ''last_seen_seq''" "ToLower ''last_attempt'' = ''last_attempt''"
  "ToLower ''revoked_key_ids'' = ''revoked_key_ids''"
  by code_simp+

lemma dec_enc_seq_state: "dec_seq_state (enc_seq_state st) = Inr st"
  by (simp add: dec_seq_state_def enc_seq_state_def codec_simps)

lemma seq_save_load: "seq_save st s = (s', True) \<Longrightarrow> seq_load s' = Inr st"
  by (auto simp: seq_save_def seq_load_def read_file_def decoding_def dec_enc_seq_state split: sum.splits
           dest!: atomicWrite_Inr)

lemma seq_update_ok: "seq_update f s = (s', True) \<Longrightarrow> \<exists>st. seq_load s = Inr st \<and> seq_load s' = Inr (f st)"
  by (auto simp: seq_update_def split: sum.splits dest: seq_save_load)

lemma seq_update_fail: "seq_update f s = (s', False) \<Longrightarrow> seq_load s' = seq_load s"
  by (auto simp: seq_update_def seq_save_def seq_load_def split: sum.splits)

lemma parse_key_id_format: "parse_key_id (FormatUint 16 (unat (kid :: u64))) = Inr kid"
proof -
  have "unat kid < 2 ^ 64" using unsigned_less [of kid] by simp
  then show ?thesis by (simp add: parse_key_id_def ParseUint_FormatUint)
qed

lemma traverse_append_Inr:
  "traverse f xs = Inr ys \<Longrightarrow> f x = Inr y \<Longrightarrow> traverse f (xs @ [x]) = Inr (ys @ [y])"
  by (induction xs arbitrary: ys) (auto simp: rbind_eq_Inr_iff)

lemma traverse_mem_Inr: "traverse f xs = Inr ys \<Longrightarrow> x \<in> set xs \<Longrightarrow> f x = Inr y \<Longrightarrow> y \<in> set ys"
  by (induction xs arbitrary: ys) (auto simp: rbind_eq_Inr_iff)

lemma revoke_text_ids:
  assumes "traverse parse_key_id (ss_revoked_key_ids st) = Inr ids"
  shows "\<exists>ids'. traverse parse_key_id (ss_revoked_key_ids (revoke_text (FormatUint 16 (unat kid)) st)) = Inr ids' \<and>
     set ids' = insert kid (set ids)"
proof (cases "FormatUint 16 (unat kid) \<in> set (ss_revoked_key_ids st)")
  case True
  with assms have "kid \<in> set ids" by (rule traverse_mem_Inr) (rule parse_key_id_format)
  with assms True show ?thesis by (auto simp: revoke_text_def)
next
  case False
  with traverse_append_Inr [OF assms parse_key_id_format [of kid]] show ?thesis by (auto simp: revoke_text_def)
qed

interpretation file_store: trust_store FileSeqStore
proof
  fix q and s s' :: seq_file and ok
  assume "so_set FileSeqStore q s = (s', ok)"
  then show "so_revoked FileSeqStore s' = so_revoked FileSeqStore s \<and>
      so_last FileSeqStore s' = (if ok then Some q else so_last FileSeqStore s)"
    by (cases ok) (auto simp: FileSeqStore_def SetLastSeenSeq_def LastSeenSeq_def RevokedKeyIDs_def
          dest!: seq_update_ok seq_update_fail)
next
  fix kid and s s' :: seq_file and ok
  assume "so_revoke FileSeqStore kid s = (s', ok)"
  then show "so_last FileSeqStore s' = so_last FileSeqStore s"
    by (cases ok) (auto simp: FileSeqStore_def RevokeKeyID_def LastSeenSeq_def revoke_text_def
          dest!: seq_update_ok seq_update_fail)
next
  fix kid and s s' :: seq_file and ids
  assume "so_revoke FileSeqStore kid s = (s', True)" and "so_revoked FileSeqStore s = Some ids"
  then obtain st where "seq_load s' = Inr (revoke_text (FormatUint 16 (unat kid)) st)"
      "traverse parse_key_id (ss_revoked_key_ids st) = Inr ids"
    by (auto simp: FileSeqStore_def RevokeKeyID_def RevokedKeyIDs_def split: sum.splits dest!: seq_update_ok)
  with revoke_text_ids [of st ids kid]
  show "\<exists>ids'. so_revoked FileSeqStore s' = Some ids' \<and> set ids' = insert kid (set ids)"
    by (auto simp: FileSeqStore_def RevokedKeyIDs_def)
next
  fix kid and s s' :: seq_file
  assume "so_revoke FileSeqStore kid s = (s', False)"
  then show "so_revoked FileSeqStore s' = so_revoked FileSeqStore s"
    by (auto simp: FileSeqStore_def RevokeKeyID_def RevokedKeyIDs_def dest!: seq_update_fail)
qed

lemma FileSeqStore_sel [simp]:
  "so_last FileSeqStore = LastSeenSeq" "so_revoked FileSeqStore = RevokedKeyIDs"
  by (simp_all add: FileSeqStore_def)

lemma SetLastAttempt_keeps:
  "SetLastAttempt fmt_time t s = (s', ok) \<Longrightarrow> LastSeenSeq s' = LastSeenSeq s \<and> RevokedKeyIDs s' = RevokedKeyIDs s"
  by (cases ok) (auto simp: SetLastAttempt_def LastSeenSeq_def RevokedKeyIDs_def dest!: seq_update_ok seq_update_fail)

lemma update_step_monotone:
  assumes "update_step env s s'" and "LastSeenSeq s = Some f" and "RevokedKeyIDs s = Some ids"
  shows "\<exists>f' ids'. LastSeenSeq s' = Some f' \<and> RevokedKeyIDs s' = Some ids' \<and> f \<le> f' \<and> set ids \<subseteq> set ids'"
  using assms
proof cases
  case (check cfg)
  obtain r where "Check env cfg s = (s', r)" using check(1) by (cases "Check env cfg s") auto
  from file_store.Check_law [OF this check(2), of f ids] assms show ?thesis by auto
next
  case (attempt fmt_time t)
  obtain ok where "SetLastAttempt fmt_time t s = (s', ok)" using attempt by (cases "SetLastAttempt fmt_time t s") auto
  from SetLastAttempt_keeps [OF this] assms show ?thesis by auto
qed

lemma trust_state_grows:
  assumes "(update_step env)\<^sup>*\<^sup>* s s'" and "LastSeenSeq s = Some f" and "RevokedKeyIDs s = Some ids"
  shows "\<exists>f' ids'. LastSeenSeq s' = Some f' \<and> RevokedKeyIDs s' = Some ids' \<and> f \<le> f' \<and> set ids \<subseteq> set ids'"
  using assms(1)
proof (induction rule: rtranclp_induct)
  case base
  with assms show ?case by auto
next
  case (step s1 s2)
  then obtain f1 ids1 where "LastSeenSeq s1 = Some f1" "RevokedKeyIDs s1 = Some ids1" "f \<le> f1" "set ids \<subseteq> set ids1" by blast
  with update_step_monotone [OF step(2)] show ?case by (meson order_trans subset_trans)
qed

section \<open>Properties\<close>

text \<open>The manifest a check obtains: fetched from the first complete mirror and verified against a
  compiled-in key.\<close>

definition fetched :: "update_env \<Rightarrow> 's update_config \<Rightarrow> verified option" where
  "fetched env cfg = (case uc_transport cfg of
     None \<Rightarrow> None
   | Some client \<Rightarrow> (case fetchManifest client 0 (uc_urls cfg) of
       Inl e \<Rightarrow> None
     | Inr (manifestJSON, sig) \<Rightarrow> (case VerifyManifest env manifestJSON sig of Inl e \<Rightarrow> None | Inr v \<Rightarrow> Some v)))"

lemma blank_result_sel [simp]:
  "\<not> ur_available (blank_result t key)" "ur_latest_version (blank_result t key) = []" "ur_verified_key (blank_result t key) = key"
  by (simp_all add: blank_result_def)

lemma evaluate_sel [simp]:
  "ur_latest_version (evaluate_manifest env cfg v) = mf_version (vf_manifest v)"
  "ur_verified_key (evaluate_manifest env cfg v) = vf_key_name v"
  by (simp_all add: evaluate_manifest_def blank_result_def Let_def)

lemma Check_reads_state:
  assumes "check_gates env cfg st keys v s = (s', Inr r)" and "mf_channel (vf_manifest v) = ChannelStable"
  obtains f ids where "so_last st s = Some f" and "so_revoked st s = Some ids"
  using assms by (auto simp: check_gates_eq split: option.splits if_splits)

lemma Check_verified:
  assumes chk: "Check env cfg s = (s', Inr r)" and st: "uc_store cfg = Some FileSeqStore" and key: "ur_verified_key r \<noteq> []"
  obtains v keys where "fetched env cfg = Some v" "trustedKeys env = Inr keys" "ur_verified_key r = vf_key_name v"
    "check_gates env cfg FileSeqStore keys v s = (s', Inr r)"
  using chk st
proof (cases rule: file_store.Check_cases)
  case (gates client manifestJSON sig keys v)
  have "fetched env cfg = Some v" using gates by (simp add: fetched_def VerifyManifest_def)
  moreover have "ur_verified_key r = vf_key_name v"
    using gates(5) by (auto simp: check_gates_eq accept_manifest_def split: option.splits if_splits prod.splits bool.splits)
  ultimately show thesis using gates by (intro that)
qed (use key in auto)

lemma Check_announces:
  assumes chk: "Check env cfg s = (s', Inr r)" and st: "uc_store cfg = Some FileSeqStore"
    and "ur_available r \<or> ur_latest_version r \<noteq> []"
  obtains v keys f ids ids' where "fetched env cfg = Some v" "trustedKeys env = Inr keys"
    "LastSeenSeq s = Some f" "RevokedKeyIDs s = Some ids" "vf_key_id v \<notin> set ids"
    "mf_channel (vf_manifest v) = ChannelStable" "f \<le> mf_seq (vf_manifest v)"
    "LastSeenSeq s' = Some (mf_seq (vf_manifest v))" "RevokedKeyIDs s' = Some ids'" "r = evaluate_manifest env cfg v"
    "vf_key_name v = KeyRecovery \<longrightarrow> (\<forall>k \<in> set keys. tk_name k \<noteq> KeyRecovery \<longrightarrow> ue_key_id env (tk_pub k) \<in> set ids')"
  using chk st
proof (cases rule: file_store.Check_cases)
  case (gates client manifestJSON sig keys v)
  have ch: "mf_channel (vf_manifest v) = ChannelStable"
    using gates(5) assms(3) by (auto simp: check_gates_eq split: option.splits if_splits)
  obtain f ids where st: "LastSeenSeq s = Some f" "RevokedKeyIDs s = Some ids"
    using Check_reads_state [OF gates(5) ch] by auto
  have "fetched env cfg = Some v" using gates by (simp add: fetched_def VerifyManifest_def)
  with file_store.gates_law [OF gates(5), of f ids] st ch gates(3) show thesis by (auto intro: that)
qed (use assms(3) in auto)

text \<open>A manifest's key is one of the compiled-in keys, under its own name and id.\<close>

lemma verifyManifest_Inr:
  assumes "verifyManifest env keys manifestJSON sig = Inr v"
  shows "ParseManifest env manifestJSON = Inr (vf_manifest v) \<and>
    (\<exists>k \<in> set keys. vf_key_name v = tk_name k \<and> vf_key_id v = ue_key_id env (tk_pub k))"
  using assms
  by (auto simp: verifyManifest_def rbind_eq_Inr_iff split: option.splits if_splits dest!: find_SomeD)

lemma fetched_verified:
  assumes "fetched env cfg = Some v"
  obtains keys manifestJSON sig where "trustedKeys env = Inr keys" "verifyManifest env keys manifestJSON sig = Inr v"
  using assms by (auto simp: fetched_def VerifyManifest_def rbind_eq_Inr_iff split: option.splits sum.splits)

lemma fetched_key:
  assumes "fetched env cfg = Some v" and "trustedKeys env = Inr keys"
  obtains k where "k \<in> set keys" "vf_key_name v = tk_name k" "vf_key_id v = ue_key_id env (tk_pub k)"
  using fetched_verified [OF assms(1)] verifyManifest_Inr assms(2) by (metis Inr_inject)

lemma fetched_valid:
  assumes "fetched env cfg = Some v"
  shows "manifest_validate env (vf_manifest v) = None"
proof -
  obtain manifestJSON where "ParseManifest env manifestJSON = Inr (vf_manifest v)"
    using fetched_verified [OF assms] verifyManifest_Inr by metis
  then show ?thesis by (auto simp: ParseManifest_def split: option.splits sum.splits)
qed

lemma check_artifacts_None: "check_artifacts i as = None \<Longrightarrow> a \<in> set as \<Longrightarrow> artifact_valid a"
  by (induction as arbitrary: i) (auto split: if_splits)

lemma manifest_artifact_valid: "manifest_validate env m = None \<Longrightarrow> a \<in> set (mf_artifacts m) \<Longrightarrow> artifact_valid a"
  by (auto simp: manifest_validate_def split: if_splits intro: check_artifacts_None)

text \<open>A concrete release for the witnesses: a stable manifest with sequence number 6, signed by
  the recovery key.\<close>

definition release_env :: update_env where
  "release_env = \<lparr>ue_parse_key = Some, ue_key_id = (\<lambda>p. if p = publicKeyCurrent then 1 else 2),
     ue_parse_sig = (\<lambda>_. Some \<lparr>sg_algorithm = 1, sg_key_id = 2, sg_comment = ''version=v1.1.0 seq=6''\<rparr>),
     ue_verify = (\<lambda>_ _ _. True), ue_hash_eddsa = 1, ue_semver_valid = (\<lambda>_. True), ue_semver_canonical = id,
     ue_semver_compare = (\<lambda>a b. if a = b then 0 else 1),
     ue_json_text = (\<lambda>_. Some (JObj [(''schema'', JInt 1), (''seq'', JInt 6), (''channel'', JStr ''stable''), (''version'', JStr ''v1.1.0'')])),
     ue_parse_time = (\<lambda>_. None), ue_goos = ''linux'', ue_goarch = ''amd64''\<rparr>"

definition release_config :: "seq_file update_config" where
  "release_config = \<lparr>uc_version = ''v1.0.0'', uc_urls = [''u''],
     uc_transport = Some (\<lambda>_ _. Some \<lparr>hr_status = 200, hr_body = Some ''x''\<rparr>),
     uc_store = Some FileSeqStore, uc_now = (\<lambda>_. 0)\<rparr>"

definition release_verified :: verified where
  "release_verified = \<lparr>vf_manifest = \<lparr>mf_schema = 1, mf_seq = 6, mf_channel = ''stable'', mf_version = ''v1.1.0'',
       mf_min_version = [], mf_published_at = zero_time, mf_expires_at = zero_time, mf_notes_url = [], mf_artifacts = []\<rparr>,
     vf_key_name = ''recovery'', vf_key_id = 2\<rparr>"

definition release_file :: seq_file where
  "release_file = \<lparr>sf_file = None, sf_io = [True, True, True, True]\<rparr>"

definition release_after :: seq_file where
  "release_after = \<lparr>sf_file = Some (EFile (Some (enc_seq_state
     \<lparr>ss_last_seen_seq = 6, ss_last_attempt = [], ss_revoked_key_ids = [''1'']\<rparr>))), sf_io = [True, True]\<rparr>"

lemma ToLower_manifest_fields [simp]:
  "ToLower ''schema'' = ''schema''" "ToLower ''seq'' = ''seq''" "ToLower ''channel'' = ''channel''"
  "ToLower ''version'' = ''version''" "ToLower ''min_version'' = ''min_version''" "ToLower ''published_at'' = ''published_at''"
  "ToLower ''expires_at'' = ''expires_at''" "ToLower ''notes_url'' = ''notes_url''" "ToLower ''artifacts'' = ''artifacts''"
  by code_simp+

lemma fetchOne_eq: "fetchOne client n url k = (case client n url of
     None \<Rightarrow> None
   | Some resp \<Rightarrow> if hr_status resp \<noteq> 200 then None
       else (case hr_body resp of None \<Rightarrow> None | Some body \<Rightarrow> if length body \<le> k then Some body else None))"
  by (auto simp: fetchOne_def Let_def split: option.splits)

lemma release_parse: "ParseManifest release_env data = Inr (vf_manifest release_verified)"
  by (simp add: ParseManifest_def release_env_def release_verified_def dec_manifest_def codec_simps dec_word_def
      manifest_validate_def validVersion_def)

lemma release_comment: "parseTrustedComment ''version=v1.1.0 seq=6'' = Inr (''v1.1.0'', 6)"
proof -
  have "Fields ''version=v1.1.0 seq=6'' = [''version=v1.1.0'', ''seq=6'']" by code_simp
  then show ?thesis by (simp add: parseTrustedComment_def CutPrefix_def HasPrefix_def ParseUint_def digit_val_def)
qed

lemma release_keys: "trustedKeys release_env = Inr [\<lparr>tk_name = ''current'', tk_pub = publicKeyCurrent\<rparr>, \<lparr>tk_name = ''recovery'', tk_pub = publicKeyRecovery\<rparr>]"
  by (simp add: trustedKeys_def release_env_def)

lemma release_verifies:
  "verifyManifest release_env [\<lparr>tk_name = ''current'', tk_pub = publicKeyCurrent\<rparr>, \<lparr>tk_name = ''recovery'', tk_pub = publicKeyRecovery\<rparr>] ''x'' ''x''
     = Inr release_verified"
proof -
  have "publicKeyRecovery \<noteq> publicKeyCurrent" by (simp add: publicKeyRecovery_def publicKeyCurrent_def)
  moreover have "ue_parse_sig release_env ''x'' = Some \<lparr>sg_algorithm = 1, sg_key_id = 2, sg_comment = ''version=v1.1.0 seq=6''\<rparr>"
    "ue_hash_eddsa release_env = 1" "ue_verify release_env k m t" "ue_key_id release_env publicKeyCurrent = 1" for k m t
    by (simp_all add: release_env_def)
  moreover have "ue_key_id release_env publicKeyRecovery = 2" using calculation(1) by (simp add: release_env_def)
  ultimately show ?thesis by (simp add: verifyManifest_def release_parse release_comment) (simp add: release_verified_def)
qed

lemma release_Check:
  "Check release_env release_config s = check_gates release_env release_config FileSeqStore
     [\<lparr>tk_name = ''current'', tk_pub = publicKeyCurrent\<rparr>, \<lparr>tk_name = ''recovery'', tk_pub = publicKeyRecovery\<rparr>] release_verified s"
  by (simp add: Check_def release_config_def fetchOne_eq maxManifestSize_def maxSignatureSize_def release_keys release_verifies)

lemma release_result:
  "ur_available (evaluate_manifest release_env release_config release_verified)"
  "ur_latest_version (evaluate_manifest release_env release_config release_verified) = ''v1.1.0''"
  "ur_verified_key (evaluate_manifest release_env release_config release_verified) = KeyRecovery"
proof -
  have "strip_describe_tail ''v1.0.0'' = ''v1.0.0''" by code_simp
  then have "normalizeCurrentVersion release_env ''v1.0.0'' = ''v1.0.0''"
    by (simp add: normalizeCurrentVersion_def release_env_def HasPrefix_def)
  moreover have "ue_semver_compare release_env ''v1.1.0'' ''v1.0.0'' = 1" by (simp add: release_env_def)
  ultimately show "ur_available (evaluate_manifest release_env release_config release_verified)"
    by (simp add: evaluate_manifest_def release_config_def release_verified_def Let_def)
qed (simp_all add: release_verified_def)

lemma release_first:
  "Check release_env release_config release_file = (release_after, Inr (evaluate_manifest release_env release_config release_verified))"
proof -
  let ?one = "release_file\<lparr>sf_file := Some (EFile (Some (enc_seq_state (zero_seq_state\<lparr>ss_revoked_key_ids := [''1'']\<rparr>)))), sf_io := [True, True, True]\<rparr>"
  have "FormatUint 16 1 = ''1''" by code_simp
  then have "RevokeKeyID 1 release_file = (?one, True)"
    by (simp add: RevokeKeyID_def seq_update_def seq_load_def seq_save_def release_file_def atomicWrite_def revoke_text_def
        zero_seq_state_def)
  moreover have "SetLastSeenSeq 6 ?one = (release_after, True)"
    by (simp add: SetLastSeenSeq_def seq_update_def seq_load_def seq_save_def release_file_def release_after_def atomicWrite_def
        read_file_def decoding_def dec_enc_seq_state zero_seq_state_def)
  moreover have "RevokedKeyIDs release_file = Some []" "LastSeenSeq release_file = Some 0"
    by (simp_all add: RevokedKeyIDs_def LastSeenSeq_def seq_load_def release_file_def zero_seq_state_def)
  moreover have "ue_key_id release_env publicKeyCurrent = 1" by (simp add: release_env_def)
  ultimately show ?thesis
    unfolding release_Check by (simp add: check_gates_eq accept_manifest_def FileSeqStore_def release_verified_def)
qed

lemma release_readings: "LastSeenSeq release_after = Some 6" "RevokedKeyIDs release_after = Some [1]"
  by (simp_all add: RevokedKeyIDs_def LastSeenSeq_def seq_load_def release_after_def read_file_def decoding_def
      dec_enc_seq_state parse_key_id_def ParseUint_def digit_val_def)

lemma release_second:
  "Check release_env release_config release_after = (release_after, Inr (evaluate_manifest release_env release_config release_verified))"
proof -
  have "ue_key_id release_env publicKeyCurrent = 1" by (simp add: release_env_def)
  then show ?thesis
    unfolding release_Check
    by (simp add: check_gates_eq accept_manifest_def release_readings) (simp add: release_verified_def)
qed

lemma release_store: "uc_store release_config = Some FileSeqStore"
  by (simp add: release_config_def)

text \<open>
  The trust state only tightens. Along any sequence of checks, one after the other (any mirrors, any write failures)
  and attempt stamps over one state file, the anti-downgrade floor never falls and no revoked key
  comes back; and a check that fails does not move the floor.
\<close>

theorem trust_state_monotone:
  assumes "(update_step env)\<^sup>*\<^sup>* s s'" and "LastSeenSeq s = Some f" and "RevokedKeyIDs s = Some ids"
  shows "\<exists>f' ids'. LastSeenSeq s' = Some f' \<and> RevokedKeyIDs s' = Some ids' \<and> f \<le> f' \<and> set ids \<subseteq> set ids' \<and>
    (\<forall>cfg s'' e. uc_store cfg = Some FileSeqStore \<longrightarrow> Check env cfg s' = (s'', Inl e) \<longrightarrow> LastSeenSeq s'' = Some f')"
proof -
  obtain f' ids' where g: "LastSeenSeq s' = Some f'" "RevokedKeyIDs s' = Some ids'" "f \<le> f'" "set ids \<subseteq> set ids'"
    using trust_state_grows [OF assms] by blast
  then have "LastSeenSeq s'' = Some f'" if "uc_store cfg = Some FileSeqStore" "Check env cfg s' = (s'', Inl e)" for cfg s'' e
    using file_store.Check_law [OF that(2,1), of f' ids'] by auto
  with g show ?thesis by blast
qed

theorem trust_state_monotone_witness:
  "\<exists>f' ids'. LastSeenSeq release_after = Some f' \<and> RevokedKeyIDs release_after = Some ids' \<and> 0 \<le> f' \<and> set [] \<subseteq> set ids' \<and>
    (\<forall>cfg s'' e. uc_store cfg = Some FileSeqStore \<longrightarrow> Check release_env cfg release_after = (s'', Inl e) \<longrightarrow> LastSeenSeq s'' = Some f')"
proof (rule trust_state_monotone)
  show "(update_step release_env)\<^sup>*\<^sup>* release_file release_after"
    using update_step.check [OF release_store, of release_env release_file] by (simp add: release_first)
  show "LastSeenSeq release_file = Some 0" "RevokedKeyIDs release_file = Some []"
    by (simp_all add: RevokedKeyIDs_def LastSeenSeq_def seq_load_def release_file_def zero_seq_state_def)
qed

text \<open>
  No replay of an older manifest while checks run one after the other. Once a manifest has been accepted, every manifest accepted
  later through the same state file has a sequence number at least as high, and it is the verified
  manifest of that later check that the floor then records. (For overlapping checks see \<open>Manager_Update\<close>.)
\<close>

theorem accepted_seq_monotone:
  assumes "Check env cfg s = (s1, Inr r)" and "uc_store cfg = Some FileSeqStore" and "ur_latest_version r \<noteq> []"
    and "(update_step env)\<^sup>*\<^sup>* s1 s2"
    and "Check env cfg' s2 = (s3, Inr r')" and "uc_store cfg' = Some FileSeqStore" and "ur_latest_version r' \<noteq> []"
  shows "\<exists>v v'. fetched env cfg = Some v \<and> fetched env cfg' = Some v' \<and>
    mf_seq (vf_manifest v) \<le> mf_seq (vf_manifest v') \<and> LastSeenSeq s3 = Some (mf_seq (vf_manifest v'))"
proof -
  obtain v ids where v: "fetched env cfg = Some v" "LastSeenSeq s1 = Some (mf_seq (vf_manifest v))" "RevokedKeyIDs s1 = Some ids"
    using Check_announces [OF assms(1,2)] assms(3) by metis
  obtain f2 where f2: "LastSeenSeq s2 = Some f2" "mf_seq (vf_manifest v) \<le> f2"
    using trust_state_grows [OF assms(4) v(2,3)] by auto
  obtain v' f' where v': "fetched env cfg' = Some v'" "LastSeenSeq s2 = Some f'" "f' \<le> mf_seq (vf_manifest v')"
      "LastSeenSeq s3 = Some (mf_seq (vf_manifest v'))"
    using Check_announces [OF assms(5,6)] assms(7) by metis
  with f2 have "mf_seq (vf_manifest v) \<le> mf_seq (vf_manifest v')" by auto
  with v v' show ?thesis by blast
qed

theorem accepted_seq_monotone_witness:
  "\<exists>v v'. fetched release_env release_config = Some v \<and> fetched release_env release_config = Some v' \<and>
    mf_seq (vf_manifest v) \<le> mf_seq (vf_manifest v') \<and> LastSeenSeq release_after = Some (mf_seq (vf_manifest v'))"
  by (rule accepted_seq_monotone [OF release_first release_store _ rtranclp.rtrancl_refl release_second release_store])
     (simp_all add: release_verified_def)

text \<open>
  C20. Recovery retires the current key for good. After a check has accepted a manifest signed by the
  recovery key, no later check over the same state file, started once that one is done, reports a result verified by
  the current key.
\<close>

theorem recovery_retires_current:
  assumes "Check env cfg s = (s1, Inr r)" and "uc_store cfg = Some FileSeqStore"
    and "ur_latest_version r \<noteq> []" and "ur_verified_key r = KeyRecovery"
    and "(update_step env)\<^sup>*\<^sup>* s1 s2"
    and "Check env cfg' s2 = (s3, Inr r')" and "uc_store cfg' = Some FileSeqStore"
  shows "ur_verified_key r' \<noteq> KeyCurrent"
proof
  assume cur: "ur_verified_key r' = KeyCurrent"
  obtain v keys ids f where v: "trustedKeys env = Inr keys" "LastSeenSeq s1 = Some f" "RevokedKeyIDs s1 = Some ids"
      "vf_key_name v = KeyRecovery" "r = evaluate_manifest env cfg v"
      "\<forall>k \<in> set keys. tk_name k \<noteq> KeyRecovery \<longrightarrow> ue_key_id env (tk_pub k) \<in> set ids"
    using Check_announces [OF assms(1,2)] assms(3,4) evaluate_sel(2) by metis
  obtain ids2 f2 where two: "RevokedKeyIDs s2 = Some ids2" "set ids \<subseteq> set ids2"
    using trust_state_grows [OF assms(5) v(2,3)] by auto
  obtain v' keys' where v': "fetched env cfg' = Some v'" "trustedKeys env = Inr keys'" "ur_verified_key r' = vf_key_name v'"
      "check_gates env cfg' FileSeqStore keys' v' s2 = (s3, Inr r')"
    using Check_verified [OF assms(6,7)] cur by auto
  obtain k where "k \<in> set keys" "vf_key_name v' = tk_name k" "vf_key_id v' = ue_key_id env (tk_pub k)"
    using fetched_key [OF v'(1) v(1)] by blast
  with v(6) two(2) cur v'(3) have "vf_key_id v' \<in> set ids2" by auto
  with v'(4) two(1) show False by (simp add: check_gates_eq)
qed

theorem recovery_retires_current_witness:
  "ur_verified_key (evaluate_manifest release_env release_config release_verified) \<noteq> KeyCurrent"
  by (rule recovery_retires_current [OF release_first release_store _ _ rtranclp.rtrancl_refl release_second release_store])
     (simp_all add: release_verified_def)

text \<open>
  C22. An announced update is one the release owner published. When a check reports an available
  update, the fetched manifest was verified, is on the stable channel, signed by a key that is not
  revoked, not below the floor, not expired, of a version above the running one; and an attached
  artifact is a valid installer of that manifest for this platform.
\<close>

theorem available_update_sound:
  assumes "Check env cfg s = (s', Inr r)" and "uc_store cfg = Some FileSeqStore" and "ur_available r"
  shows "\<exists>v f ids. fetched env cfg = Some v \<and> LastSeenSeq s = Some f \<and> RevokedKeyIDs s = Some ids \<and>
    mf_channel (vf_manifest v) = ChannelStable \<and> vf_key_id v \<notin> set ids \<and> f \<le> mf_seq (vf_manifest v) \<and>
    (mf_expires_at (vf_manifest v) = zero_time \<or> uc_now cfg 1 \<le> mf_expires_at (vf_manifest v)) \<and>
    normalizeCurrentVersion env (uc_version cfg) \<noteq> [] \<and>
    ue_semver_compare env (ur_latest_version r) (normalizeCurrentVersion env (uc_version cfg)) > 0 \<and>
    (\<forall>a. ur_artifact r = Some a \<longrightarrow> a \<in> set (mf_artifacts (vf_manifest v)) \<and> artifact_valid a \<and>
       af_kind a = KindInstaller \<and> af_os a = ue_goos env \<and> af_arch a = ue_goarch env)"
proof -
  obtain v f ids where v: "fetched env cfg = Some v" "LastSeenSeq s = Some f" "RevokedKeyIDs s = Some ids"
      "mf_channel (vf_manifest v) = ChannelStable" "vf_key_id v \<notin> set ids" "f \<le> mf_seq (vf_manifest v)"
      "r = evaluate_manifest env cfg v"
    using Check_announces [OF assms(1,2)] assms(3) by metis
  have sel: "a \<in> set (mf_artifacts (vf_manifest v)) \<and> af_os a = ue_goos env \<and> af_arch a = ue_goarch env"
    if "selectArtifact (vf_manifest v) (ue_goos env) (ue_goarch env) = Some a" for a
    using that by (auto simp: selectArtifact_def dest!: find_SomeD)
  have "artifact_valid a" if "a \<in> set (mf_artifacts (vf_manifest v))" for a
    using manifest_artifact_valid [OF fetched_valid [OF v(1)] that] .
  with assms(3) v sel show ?thesis
    by (auto simp: evaluate_manifest_def Let_def blank_result_def not_less split: if_splits option.splits)
qed

theorem available_update_sound_witness:
  "\<exists>v f ids. fetched release_env release_config = Some v \<and> LastSeenSeq release_file = Some f \<and>
     RevokedKeyIDs release_file = Some ids \<and> vf_key_id v \<notin> set ids \<and> f \<le> mf_seq (vf_manifest v)"
  using available_update_sound [OF release_first release_store release_result(1)] by blast

end
