(* ===== verification/Update_Download.thy ===== *)
theory Update_Download
  imports Update_Check
begin

text \<open>
  The download of an installer (\<^verbatim>\<open>daemon-go/internal/update/download.go\<close>): mirrors in order, a
  size-capped and hashed body in a temporary file, an atomic rename, the sweep of stale temporary
  files and the check of a landed file.

  The staging directory is a map from names to contents (\<open>None\<close> is a sub-directory). SHA-256 (as
  lower-case hex) is a parameter. What the network and the file system do during one mirror's
  attempt is the record \<open>attempt\<close>.

  Main results: a download that succeeds leaves a file of exactly the declared size and hash under a
  plain name and touches no other file; a failed one leaves nothing behind; the rename loop ends.
\<close>

section \<open>Names\<close>

definition path_Base :: "string \<Rightarrow> string" where
  "path_Base p =
    (if p = [] then ''.''
     else let q = rev (dropWhile (\<lambda>c. c = CHR ''/'') (rev p));
              r = (case CutLast q (CHR ''/'') of Some (_, b) \<Rightarrow> b | None \<Rightarrow> q)
          in if r = [] then ''/'' else r)"

datatype download_error =
    NotDownloadable string
  | NoDownloadTransport
  | InvalidDownloadArtifact
  | NoBaseName
  | ColonInName
  | RequestFailed
  | BadStatus nat
  | StageFailed
  | CopyFailed
  | BodyTooLong
  | BodyTruncated nat
  | HashMismatch
  | RenameFailed
  | MirrorErrors "download_error list"

definition sanitizeArtifactName :: "string \<Rightarrow> download_error + string" where
  "sanitizeArtifactName name =
    (let base = path_Base (map (\<lambda>c. if c = CHR 0x5C then CHR ''/'' else c) name) in
     if base = [] \<or> base = ''.'' \<or> base = ''..'' \<or> base = ''/'' then Inl NoBaseName
     else if CHR '':'' \<in> set base then Inl ColonInName
     else Inr base)"

definition EqualFold :: "string \<Rightarrow> string \<Rightarrow> bool" where
  "EqualFold a b = (ToLower a = ToLower b)"

section \<open>One mirror\<close>

type_synonym staging = "string option obj"

definition tempPrefix :: string where "tempPrefix = ''.update-''"

text \<open>
  One attempt: the response (\<open>None\<close> when the request failed) with the bytes that arrive and
  whether the stream then breaks, the suffix of the temporary file's name, and the outcome of each
  file operation: \<open>at_write\<close> is the number of bytes after which writing fails (\<open>None\<close>: it does
  not), \<open>at_rename k\<close> the outcome of the k-th try.
\<close>

record attempt =
  at_status :: "nat option"
  at_body :: string
  at_broken :: bool
  at_temp :: string
  at_create :: bool
  at_chmod :: bool
  at_write :: "nat option"
  at_sync :: bool
  at_close :: bool
  at_rename :: "nat \<Rightarrow> bool"
  at_remove :: bool

text \<open>The retry loop of the rename: whether it succeeded, and after how many tries.\<close>

function renameWithRetry :: "bool \<Rightarrow> (nat \<Rightarrow> bool) \<Rightarrow> nat \<Rightarrow> bool \<times> nat" where
  "renameWithRetry windows ok k =
    (if ok k then (True, Suc k)
     else if \<not> windows \<or> k \<ge> 10 then (False, Suc k)
     else renameWithRetry windows ok (Suc k))"
  by pat_completeness auto
termination
  by (relation "measure (\<lambda>(_, _, k). 10 - k)") auto

declare renameWithRetry.simps [simp del]

text \<open>The limit \<^verbatim>\<open>artifact.Size+1\<close> wraps at the largest \<^verbatim>\<open>int64\<close>, and a reader limited to a negative count reads nothing.\<close>

definition read_limit :: "int \<Rightarrow> nat" where
  "read_limit sz = (if sz = 2 ^ 63 - 1 then 0 else nat (sz + 1))"

definition temp_name :: "attempt \<Rightarrow> string" where
  "temp_name at = tempPrefix @ at_temp at"

text \<open>The bytes the limited reader delivers, those that reach the temporary file, and whether the copy ends without an error.\<close>

definition limited :: "attempt \<Rightarrow> artifact \<Rightarrow> string" where
  "limited at a = take (read_limit (af_size a)) (at_body at)"

definition written :: "attempt \<Rightarrow> artifact \<Rightarrow> string" where
  "written at a = (case at_write at of None \<Rightarrow> limited at a | Some k \<Rightarrow> take k (limited at a))"

definition copy_ok :: "attempt \<Rightarrow> artifact \<Rightarrow> bool" where
  "copy_ok at a = (written at a = limited at a \<and> \<not> (at_broken at \<and> length (at_body at) < read_limit (af_size a)))"

text \<open>The body once the temporary file exists: the staged bytes, or the error and whether the next mirror is worth trying.\<close>

definition receive_body :: "(string \<Rightarrow> string) \<Rightarrow> attempt \<Rightarrow> artifact \<Rightarrow> (download_error \<times> bool) + string" where
  "receive_body sha256 at a =
    (let data = limited at a; n = int (length data) in
     if \<not> copy_ok at a then Inl (CopyFailed, True)
     else if n > af_size a then Inl (BodyTooLong, False)
     else if n < af_size a then Inl (BodyTruncated (length data), True)
     else if \<not> at_sync at \<or> \<not> at_close at then Inl (StageFailed, False)
     else if \<not> EqualFold (sha256 data) (af_sha256 a) then Inl (HashMismatch, False)
     else Inr data)"

text \<open>The deferred removal of the temporary file, which also runs after the rename.\<close>

definition drop_temp :: "attempt \<Rightarrow> staging \<Rightarrow> staging" where
  "drop_temp at d = (if at_remove at then jdel (temp_name at) d else d)"

definition downloadOne ::
  "(string \<Rightarrow> string) \<Rightarrow> bool \<Rightarrow> attempt \<Rightarrow> artifact \<Rightarrow> string \<Rightarrow> staging \<Rightarrow> staging \<times> ((download_error \<times> bool) + string)" where
  "downloadOne sha256 windows at a name d = (case at_status at of
     None \<Rightarrow> (d, Inl (RequestFailed, True))
   | Some status \<Rightarrow>
      if status \<noteq> 200 then (d, Inl (BadStatus status, True))
      else if \<not> at_create at then (d, Inl (StageFailed, False))
      else if \<not> windows \<and> \<not> at_chmod at then (drop_temp at (jput (temp_name at) (Some []) d), Inl (StageFailed, False))
      else (let d1 = jput (temp_name at) (Some (written at a)) d in
        case receive_body sha256 at a of
          Inl e \<Rightarrow> (drop_temp at d1, Inl e)
        | Inr data \<Rightarrow>
            if jget d name \<noteq> Some None \<and> fst (renameWithRetry windows (at_rename at) 0)
            then (drop_temp at (jput name (Some data) (jdel (temp_name at) d1)), Inr name)
            else (drop_temp at d1, Inl (RenameFailed, False))))"

section \<open>All mirrors\<close>

text \<open>\<open>att k\<close> is what the k-th mirror's attempt meets.\<close>

fun download_from ::
  "(string \<Rightarrow> string) \<Rightarrow> bool \<Rightarrow> (nat \<Rightarrow> attempt) \<Rightarrow> nat \<Rightarrow> artifact \<Rightarrow> string \<Rightarrow> string list \<Rightarrow> download_error list \<Rightarrow> staging
     \<Rightarrow> staging \<times> (download_error + string)" where
  "download_from sha256 windows att k a name [] errs d = (d, Inl (MirrorErrors errs))"
| "download_from sha256 windows att k a name (url # urls) errs d = (case downloadOne sha256 windows (att k) a name d of
     (d', Inr dest) \<Rightarrow> (d', Inr dest)
   | (d', Inl (e, retryable)) \<Rightarrow>
       if \<not> retryable then (d', Inl (MirrorErrors (errs @ [e])))
       else download_from sha256 windows att (Suc k) a name urls (errs @ [e]) d')"

definition Download ::
  "(string \<Rightarrow> string) \<Rightarrow> bool \<Rightarrow> (nat \<Rightarrow> attempt) option \<Rightarrow> artifact \<Rightarrow> staging \<Rightarrow> staging \<times> (download_error + string)" where
  "Download sha256 windows transport a d =
    (if af_kind a \<noteq> KindInstaller then (d, Inl (NotDownloadable (af_kind a)))
     else case transport of
       None \<Rightarrow> (d, Inl NoDownloadTransport)
     | Some att \<Rightarrow>
        if \<not> artifact_valid a then (d, Inl InvalidDownloadArtifact)
        else (case sanitizeArtifactName (af_name a) of
          Inl e \<Rightarrow> (d, Inl e)
        | Inr name \<Rightarrow> download_from sha256 windows att 0 a name (af_urls a) [] d))"

text \<open>\<open>readable\<close> is the outcome of listing the directory, \<open>removable\<close> that of removing each file.\<close>

definition RemoveStaleTemps :: "bool \<Rightarrow> (string \<Rightarrow> bool) \<Rightarrow> staging \<Rightarrow> staging \<times> nat \<times> bool" where
  "RemoveStaleTemps readable removable d =
    (if \<not> readable then (d, 0, False)
     else let stale = (\<lambda>(n, c). c \<noteq> None \<and> HasPrefix n tempPrefix); gone = (\<lambda>x. stale x \<and> removable (fst x))
          in (filter (\<lambda>x. \<not> gone x) d, length (filter gone d), list_all (\<lambda>x. stale x \<longrightarrow> removable (fst x)) d))"

datatype verify_error = VerifyOpen | VerifySize | VerifyRead | VerifyHash

text \<open>\<open>opens\<close> and \<open>reads\<close> are the outcomes of opening (and of asking for the size of) and of
  reading the file. A sub-directory may be opened, but never read.\<close>

definition VerifyFile :: "(string \<Rightarrow> string) \<Rightarrow> bool \<Rightarrow> bool \<Rightarrow> staging \<Rightarrow> string \<Rightarrow> artifact \<Rightarrow> verify_error option" where
  "VerifyFile sha256 opens reads d name a = (case jget d name of
     Some (Some content) \<Rightarrow>
       if \<not> opens then Some VerifyOpen
       else if int (length content) \<noteq> af_size a then Some VerifySize
       else if \<not> reads then Some VerifyRead
       else if \<not> EqualFold (sha256 content) (af_sha256 a) then Some VerifyHash
       else None
   | Some None \<Rightarrow> Some (if opens then VerifyRead else VerifyOpen)
   | None \<Rightarrow> Some VerifyOpen)"

section \<open>The rename loop\<close>

lemma renameWithRetry_spec:
  "k \<le> 10 \<Longrightarrow> (let (ok, tries) = renameWithRetry windows at k; bound = (if windows then 10 else k) in
     k < tries \<and> tries \<le> Suc bound \<and> (ok \<longleftrightarrow> (\<exists>i. k \<le> i \<and> i \<le> bound \<and> at i)) \<and>
     (\<forall>i. k \<le> i \<longrightarrow> Suc i < tries \<longrightarrow> \<not> at i))"
proof (induction windows at k rule: renameWithRetry.induct)
  case (1 windows at k)
  show ?case
  proof (cases "at k \<or> \<not> windows \<or> k = 10")
    case True
    with 1(2) show ?thesis by (subst renameWithRetry.simps) (auto intro: le_antisym)
  next
    case False
    with 1(2) have step: "renameWithRetry windows at k = renameWithRetry windows at (Suc k)" and ih: "\<not> at k" "\<not> (\<not> windows \<or> 10 \<le> k)" "Suc k \<le> 10" and w: windows
      by (subst renameWithRetry.simps, auto)+
    have "(\<exists>i. k \<le> i \<and> i \<le> 10 \<and> at i) \<longleftrightarrow> (\<exists>i. Suc k \<le> i \<and> i \<le> 10 \<and> at i)" using ih(1) by (metis Suc_leI le_neq_implies_less Suc_leD)
    moreover have "(\<forall>i. k \<le> i \<longrightarrow> Suc i < n \<longrightarrow> \<not> at i) \<longleftrightarrow> (\<forall>i. Suc k \<le> i \<longrightarrow> Suc i < n \<longrightarrow> \<not> at i)" for n
      using ih(1) by (metis Suc_leI le_neq_implies_less Suc_leD)
    ultimately show ?thesis using 1(1) [OF ih] w unfolding step by (auto simp: Let_def split_beta)
  qed
qed

lemma renameWithRetry_last: "renameWithRetry windows at k = (ok, tries) \<Longrightarrow> ok = at (tries - 1)"
proof (induction windows at k rule: renameWithRetry.induct)
  case (1 windows at k)
  from 1(2) have "(if at k then (True, Suc k) else if \<not> windows \<or> 10 \<le> k then (False, Suc k)
      else renameWithRetry windows at (Suc k)) = (ok, tries)" by (subst (asm) renameWithRetry.simps)
  with 1(1) show ?case by (auto split: if_splits)
qed

section \<open>Safe names\<close>

lemma CutLast_base: "(case CutLast q c of Some (_, b) \<Rightarrow> b | None \<Rightarrow> q) = b \<Longrightarrow> c \<notin> set b"
  by (auto simp: CutLast_def Cut_Some Cut_None split: option.splits)

lemma CutLast_chars: "set (case CutLast q c of Some (_, b) \<Rightarrow> b | None \<Rightarrow> q) \<subseteq> set q"
  by (auto simp: CutLast_Some split: option.splits)

definition plain_name :: "string \<Rightarrow> bool" where
  "plain_name n = (n \<noteq> [] \<and> n \<noteq> ''.'' \<and> n \<noteq> ''..'' \<and> CHR ''/'' \<notin> set n \<and> CHR 0x5C \<notin> set n \<and> CHR '':'' \<notin> set n)"

lemma sanitize_plain: "sanitizeArtifactName name = Inr base \<Longrightarrow> plain_name base"
proof -
  assume "sanitizeArtifactName name = Inr base"
  then have b: "base = path_Base (map (\<lambda>c. if c = CHR 0x5C then CHR ''/'' else c) name)" (is "_ = path_Base ?n")
    and ok: "base \<noteq> []" "base \<noteq> ''.''" "base \<noteq> ''..''" "base \<noteq> ''/''" "CHR '':'' \<notin> set base"
    by (auto simp: sanitizeArtifactName_def Let_def split: if_splits)
  let ?q = "rev (dropWhile (\<lambda>c. c = CHR ''/'') (rev ?n))"
  have eq: "(case CutLast ?q (CHR ''/'') of Some (_, b) \<Rightarrow> b | None \<Rightarrow> ?q) = base"
    using b ok unfolding path_Base_def Let_def by (auto split: if_splits)
  from CutLast_base [OF eq] have "CHR ''/'' \<notin> set base" .
  moreover have "set base \<subseteq> set ?q" using CutLast_chars [of ?q "CHR ''/''"] unfolding eq .
  then have "set base \<subseteq> set ?n" using set_dropWhileD by fastforce
  then have "CHR 0x5C \<notin> set base" by auto
  ultimately show ?thesis using ok by (simp add: plain_name_def)
qed

section \<open>What lands\<close>

text \<open>Outside the names of temporary files, a directory is left as it was.\<close>

definition same_files :: "staging \<Rightarrow> staging \<Rightarrow> bool" where
  "same_files d d' = (\<forall>n. \<not> HasPrefix n tempPrefix \<longrightarrow> jget d' n = jget d n)"

lemma same_files_trans: "same_files d d1 \<Longrightarrow> same_files d1 d2 \<Longrightarrow> same_files d d2"
  by (simp add: same_files_def)

lemma temp_prefixed [simp]: "HasPrefix (temp_name at) tempPrefix"
  by (simp add: temp_name_def HasPrefix_def)

lemma receive_body_Inr:
  "receive_body sha256 at a = Inr data \<Longrightarrow>
     written at a = data \<and> int (length data) = af_size a \<and> EqualFold (sha256 data) (af_sha256 a)"
  by (auto simp: receive_body_def Let_def copy_ok_def split: if_splits)

lemma downloadOne_ok:
  assumes "downloadOne sha256 windows at a name d = (d', Inr dest)" and "\<not> HasPrefix name tempPrefix"
  shows "dest = name \<and> (\<exists>data. jget d' name = Some (Some data) \<and> int (length data) = af_size a \<and>
      EqualFold (sha256 data) (af_sha256 a))"
  using assms
  by (auto simp: downloadOne_def drop_temp_def Let_def obj_simps split: option.splits if_splits sum.splits dest!: receive_body_Inr)

lemma downloadOne_others:
  assumes "downloadOne sha256 windows at a name d = (d', r)" and "\<not> HasPrefix n tempPrefix" and "r \<noteq> Inr n"
  shows "jget d' n = jget d n"
proof -
  have "n \<noteq> temp_name at" using assms(2) by auto
  with assms show ?thesis
    by (auto simp: downloadOne_def drop_temp_def Let_def obj_simps split: option.splits if_splits sum.splits)
qed

lemma downloadOne_fail:
  assumes "downloadOne sha256 windows at a name d = (d', Inl e)"
  shows "same_files d d'" and "at_remove at \<Longrightarrow> jget d (temp_name at) = None \<Longrightarrow> jget d' = jget d"
  using assms
  by (auto simp: downloadOne_def drop_temp_def same_files_def Let_def obj_simps fun_eq_iff split: option.splits if_splits sum.splits)

lemma download_from_ok:
  assumes "download_from sha256 windows att k a name urls errs d = (d', Inr dest)" and "\<not> HasPrefix name tempPrefix"
  shows "dest = name \<and> (\<exists>data. jget d' name = Some (Some data) \<and> int (length data) = af_size a \<and>
      EqualFold (sha256 data) (af_sha256 a))"
  using assms(1)
proof (induction urls arbitrary: k errs d)
  case (Cons url urls)
  obtain d1 r where one: "downloadOne sha256 windows (att k) a name d = (d1, r)" by fastforce
  show ?case
  proof (cases r)
    case (Inr dst)
    with Cons.prems one have "d1 = d'" "dst = dest" by simp_all
    with downloadOne_ok [of sha256 windows "att k" a name d] one Inr assms(2) show ?thesis by simp
  next
    case (Inl e)
    with Cons.prems one have "download_from sha256 windows att (Suc k) a name urls (errs @ [fst e]) d1 = (d', Inr dest)"
      by (cases e) (simp split: if_splits)
    from Cons.IH [OF this] show ?thesis .
  qed
qed simp

lemma download_from_fail:
  assumes "download_from sha256 windows att k a name urls errs d = (d', Inl e)"
  shows "same_files d d' \<and> ((\<forall>i. at_remove (att i) \<and> jget d (temp_name (att i)) = None) \<longrightarrow> jget d' = jget d)"
  using assms
proof (induction urls arbitrary: k errs d)
  case Nil
  then show ?case by (simp add: same_files_def)
next
  case (Cons url urls)
  obtain d1 e1 where one: "downloadOne sha256 windows (att k) a name d = (d1, Inl e1)"
    using Cons.prems by (cases "downloadOne sha256 windows (att k) a name d") (auto split: sum.splits)
  note f = downloadOne_fail [OF one]
  have "d1 = d' \<or> download_from sha256 windows att (Suc k) a name urls (errs @ [fst e1]) d1 = (d', Inl e)"
    using Cons.prems one by (cases e1) (auto split: if_splits)
  then show ?case
  proof
    assume "d1 = d'"
    with f show ?thesis by (auto simp del: not_None_eq)
  next
    assume "download_from sha256 windows att (Suc k) a name urls (errs @ [fst e1]) d1 = (d', Inl e)"
    note ih = Cons.IH [OF this]
    have "same_files d d'" using same_files_trans f(1) ih by blast
    moreover have "jget d' = jget d" if "\<forall>i. at_remove (att i) \<and> jget d (temp_name (att i)) = None"
      using that f(2) ih by simp
    ultimately show ?thesis by blast
  qed
qed

lemma download_from_name: "download_from sha256 windows att k a name urls errs d = (d', Inr dest) \<Longrightarrow> dest = name"
proof (induction urls arbitrary: k errs d)
  case (Cons url urls)
  then show ?case
    by (auto simp: downloadOne_def Let_def split: prod.splits sum.splits if_splits option.splits)
qed simp

lemma download_from_others:
  "download_from sha256 windows att k a name urls errs d = (d', r) \<Longrightarrow> \<not> HasPrefix n tempPrefix \<Longrightarrow> r \<noteq> Inr n \<Longrightarrow>
     jget d' n = jget d n"
proof (induction urls arbitrary: k errs d)
  case (Cons url urls)
  obtain d1 r1 where one: "downloadOne sha256 windows (att k) a name d = (d1, r1)" by fastforce
  show ?case
  proof (cases r1)
    case (Inr p)
    with Cons.prems one show ?thesis using downloadOne_others [OF one Cons.prems(2)] by auto
  next
    case (Inl e)
    have "jget d1 n = jget d n" using downloadOne_others [OF one Cons.prems(2)] Inl by simp
    with Cons one Inl show ?thesis by (cases e) (auto split: if_splits)
  qed
qed simp

lemma Download_others:
  "Download sha256 windows transport a d = (d', r) \<Longrightarrow> \<not> HasPrefix n tempPrefix \<Longrightarrow> r \<noteq> Inr n \<Longrightarrow> jget d' n = jget d n"
  by (auto simp: Download_def split: if_splits option.splits sum.splits dest!: download_from_others)

lemma Download_Inr:
  assumes "Download sha256 windows transport a d = (d', Inr dest)"
  obtains att where "af_kind a = KindInstaller" "sanitizeArtifactName (af_name a) = Inr dest" "transport = Some att"
    "download_from sha256 windows att 0 a dest (af_urls a) [] d = (d', Inr dest)"
  using assms by (auto simp: Download_def split: if_splits option.splits sum.splits dest: download_from_name)

lemma Download_name: "Download sha256 windows transport a d = (d', Inr dest) \<Longrightarrow> plain_name dest \<and> af_kind a = KindInstaller"
  by (auto elim!: Download_Inr intro: sanitize_plain)

lemma Download_ok:
  assumes "Download sha256 windows transport a d = (d', Inr dest)" and "\<not> HasPrefix dest tempPrefix"
  shows "\<exists>data. jget d' dest = Some (Some data) \<and> int (length data) = af_size a \<and> EqualFold (sha256 data) (af_sha256 a)"
  using assms by (auto elim!: Download_Inr dest: download_from_ok)

lemma Download_fail:
  assumes "Download sha256 windows transport a d = (d', Inl e)"
  shows "same_files d d'"
    and "transport = Some att \<Longrightarrow> \<forall>i. at_remove (att i) \<and> jget d (temp_name (att i)) = None \<Longrightarrow> jget d' = jget d"
  using assms
  by (auto simp: Download_def same_files_def split: if_splits option.splits sum.splits dest!: download_from_fail)

lemma VerifyFile_None:
  "VerifyFile sha256 opens reads d name a = None \<longleftrightarrow> opens \<and> reads \<and>
     (\<exists>data. jget d name = Some (Some data) \<and> int (length data) = af_size a \<and> EqualFold (sha256 data) (af_sha256 a))"
  by (auto simp: VerifyFile_def split: option.splits)

section \<open>The contract of the stage\<close>

text \<open>
  What the daemon relies on: a landed file passes the check against the facts it was downloaded for, a
  failed download leaves every file's verdict as it was, and the check looks at nothing but the size and the hash (up to case).
\<close>

locale installer_stage =
  fixes fetch :: "artifact \<Rightarrow> 'd \<Rightarrow> 'd \<times> (download_error + string)"
    and accepts :: "'d \<Rightarrow> string \<Rightarrow> artifact \<Rightarrow> bool"
    and scratch :: "string \<Rightarrow> bool"
  assumes landed: "fetch a d = (d', Inr p) \<Longrightarrow> \<not> scratch p \<Longrightarrow> accepts d' p a"
    and others: "fetch a d = (d', r) \<Longrightarrow> \<not> scratch q \<Longrightarrow> r \<noteq> Inr q \<Longrightarrow> accepts d' q b = accepts d q b"
    and facts: "af_size a = af_size b \<Longrightarrow> EqualFold (af_sha256 a) (af_sha256 b) \<Longrightarrow> accepts d p a = accepts d p b"
begin

text \<open>Any run of downloads: a file accepted once stays accepted until a download lands on its name.\<close>

fun fetch_all :: "artifact list \<Rightarrow> 'd \<Rightarrow> 'd \<times> string list" where
  "fetch_all [] d = (d, [])"
| "fetch_all (a # as) d = (case fetch a d of (d1, r) \<Rightarrow> (case fetch_all as d1 of (d2, ps) \<Rightarrow>
     (d2, (case r of Inl e \<Rightarrow> ps | Inr p \<Rightarrow> p # ps))))"

lemma fetch_all_keeps:
  "fetch_all as d = (d', ps) \<Longrightarrow> \<not> scratch q \<Longrightarrow> q \<notin> set ps \<Longrightarrow> accepts d' q b = accepts d q b"
proof (induction as arbitrary: d ps)
  case (Cons a as)
  obtain d1 r where one: "fetch a d = (d1, r)" by fastforce
  obtain ps1 where two: "fetch_all as d1 = (d', ps1)" and ps: "ps = (case r of Inl e \<Rightarrow> ps1 | Inr p \<Rightarrow> p # ps1)"
    using Cons.prems(1) one by (auto split: prod.splits)
  from ps Cons.prems(3) have "q \<notin> set ps1" "r \<noteq> Inr q" by (auto split: sum.splits)
  with Cons.IH [OF two Cons.prems(2)] others [OF one Cons.prems(2)] show ?case by simp
qed simp

lemma landed_redescribed:
  assumes "fetch a d = (d1, Inr p)" and "\<not> scratch p" and "fetch_all as d1 = (d', ps)" and "p \<notin> set ps"
    and "af_size a = af_size b" and "EqualFold (af_sha256 a) (af_sha256 b)"
  shows "accepts d' p b"
  using landed [OF assms(1,2)] fetch_all_keeps [OF assms(3,2,4)] facts [OF assms(5,6)] by simp

end

interpretation stage: installer_stage "Download sha256 windows transport"
    "\<lambda>d p a. VerifyFile sha256 True True d p a = None" "\<lambda>p. HasPrefix p tempPrefix"
  for sha256 windows transport
proof
  fix a d d' p
  assume "Download sha256 windows transport a d = (d', Inr p)" "\<not> HasPrefix p tempPrefix"
  from Download_ok [OF this] show "VerifyFile sha256 True True d' p a = None" by (simp add: VerifyFile_None)
next
  fix a d d' r q b
  assume "Download sha256 windows transport a d = (d', r)" "\<not> HasPrefix q tempPrefix" "r \<noteq> Inr q"
  from Download_others [OF this] have "jget d' q = jget d q" .
  then show "(VerifyFile sha256 True True d' q b = None) = (VerifyFile sha256 True True d q b = None)" by (simp add: VerifyFile_None)
next
  fix a b :: artifact and d p
  assume "af_size a = af_size b" "EqualFold (af_sha256 a) (af_sha256 b)"
  then show "(VerifyFile sha256 True True d p a = None) = (VerifyFile sha256 True True d p b = None)"
    by (simp add: VerifyFile_None EqualFold_def)
qed

text \<open>The verdicts on a body that end the download.\<close>

definition corrupt :: "download_error set" where "corrupt = {HashMismatch, BodyTooLong}"

lemma downloadOne_retryable: "downloadOne sha256 windows at a name d = (d', Inl (e, True)) \<Longrightarrow> e \<notin> corrupt"
  by (auto simp: downloadOne_def receive_body_def corrupt_def Let_def split: option.splits if_splits sum.splits)

lemma download_from_errors:
  "download_from sha256 windows att k a name urls errs d = (d', Inl (MirrorErrors errs')) \<Longrightarrow> corrupt \<inter> set errs = {} \<Longrightarrow>
     corrupt \<inter> set (butlast errs') = {}"
proof (induction urls arbitrary: k errs d)
  case Nil
  then show ?case by (auto dest: in_set_butlastD)
next
  case (Cons url urls)
  obtain d1 e1 rt where one: "downloadOne sha256 windows (att k) a name d = (d1, Inl (e1, rt))"
    using Cons.prems(1) by (cases "downloadOne sha256 windows (att k) a name d") (auto split: sum.splits)
  show ?case
  proof (cases rt)
    case True
    with downloadOne_retryable [of sha256 windows "att k" a name d d1 e1] one have "e1 \<notin> corrupt" by simp
    then have "corrupt \<inter> set (errs @ [e1]) = {}" using Cons.prems(2) by simp
    moreover have "download_from sha256 windows att (Suc k) a name urls (errs @ [e1]) d1 = (d', Inl (MirrorErrors errs'))"
      using Cons.prems(1) one True by simp
    ultimately show ?thesis by (rule Cons.IH [rotated])
  next
    case False
    with Cons.prems one show ?thesis by auto
  qed
qed

lemma Download_errors:
  "Download sha256 windows transport a d = (d', Inl (MirrorErrors errs)) \<Longrightarrow> corrupt \<inter> set (butlast errs) = {}"
  by (auto simp: Download_def sanitizeArtifactName_def Let_def split: if_splits option.splits sum.splits
      dest!: download_from_errors)

lemma RemoveStaleTemps_keeps: "RemoveStaleTemps readable removable d = (d', n, ok) \<Longrightarrow> same_files d d'"
proof -
  have "jget (filter P d) k = jget d k" if "\<And>c. P (k, c)" for P k
    using that by (induction d) (auto simp: obj_simps)
  then show "RemoveStaleTemps readable removable d = (d', n, ok) \<Longrightarrow> same_files d d'"
    by (auto simp: RemoveStaleTemps_def same_files_def Let_def split: if_splits)
qed

lemma RemoveStaleTemps_clean:
  "fst (RemoveStaleTemps True (\<lambda>_. True) d) = filter (\<lambda>(n, c). c = None \<or> \<not> HasPrefix n tempPrefix) d"
  by (auto simp: RemoveStaleTemps_def Let_def intro!: filter_cong)

section \<open>Properties\<close>

definition sample_attempt :: attempt where
  "sample_attempt = \<lparr>at_status = Some 200, at_body = ''setup'', at_broken = False, at_temp = ''1'', at_create = True,
     at_chmod = True, at_write = None, at_sync = True, at_close = True, at_rename = (\<lambda>_. True), at_remove = True\<rparr>"

definition sample_hash :: "string \<Rightarrow> string" where
  "sample_hash s = replicate 64 (if s = ''setup'' then CHR ''a'' else CHR ''0'')"

definition sample_artifact :: artifact where
  "sample_artifact = \<lparr>af_os = ''windows'', af_arch = ''amd64'', af_kind = KindInstaller, af_name = ''dist/setup.exe'',
     af_size = 5, af_sha256 = replicate 64 (CHR ''A''), af_urls = [''https://a'', ''https://b'']\<rparr>"

definition sample_mirrors :: "nat \<Rightarrow> attempt" where
  "sample_mirrors k = (if k = 0 then sample_attempt\<lparr>at_body := ''set''\<rparr> else sample_attempt)"

definition corrupt_mirrors :: "nat \<Rightarrow> attempt" where
  "corrupt_mirrors k = (if k = 0 then sample_attempt\<lparr>at_body := ''virus''\<rparr> else sample_attempt)"

text \<open>
  C23. A download that succeeds leaves, under a plain file name (no separator, no colon, not a dot
  name) that is the base of the name in the manifest, a file of exactly the declared size and hash, which
  the re-check before the hand-over accepts; every other file that is not a
  temporary one is as it was.
\<close>

theorem download_lands:
  assumes "Download sha256 windows transport a d = (d', Inr dest)" and "\<not> HasPrefix dest tempPrefix"
  shows "plain_name dest \<and> af_kind a = KindInstaller \<and>
    (\<exists>data. jget d' dest = Some (Some data) \<and> int (length data) = af_size a \<and> EqualFold (sha256 data) (af_sha256 a)) \<and>
    VerifyFile sha256 True True d' dest a = None \<and>
    (\<forall>n. n \<noteq> dest \<longrightarrow> \<not> HasPrefix n tempPrefix \<longrightarrow> jget d' n = jget d n)"
  using Download_name [OF assms(1)] Download_ok [OF assms] stage.landed [OF assms] Download_others [OF assms(1)] by (metis sum.inject(2))

theorem download_lands_witness:
  "Download sample_hash True (Some sample_mirrors) sample_artifact [(''old'', Some ''x'')] =
     ([(''old'', Some ''x''), (''setup.exe'', Some ''setup'')], Inr ''setup.exe'') \<and>
   VerifyFile sample_hash True True [(''old'', Some ''x''), (''setup.exe'', Some ''setup'')] ''setup.exe'' sample_artifact = None"
proof -
  have run: "Download sample_hash True (Some sample_mirrors) sample_artifact [(''old'', Some ''x'')] =
     ([(''old'', Some ''x''), (''setup.exe'', Some ''setup'')], Inr ''setup.exe'')" by code_simp
  have "\<not> HasPrefix ''setup.exe'' tempPrefix" by code_simp
  with run download_lands [OF run] show ?thesis by simp
qed

text \<open>
  A download that fails leaves every file that is not a temporary one as it was, and nothing
  at all behind when the temporary files, whose names were free, could be removed. A body with the wrong hash,
  or one longer than declared, ends the download: no later mirror is asked.
\<close>

theorem download_fails_clean:
  assumes "Download sha256 windows (Some att) a d = (d', Inl e)"
  shows "(\<forall>n. \<not> HasPrefix n tempPrefix \<longrightarrow> jget d' n = jget d n) \<and>
    ((\<forall>i. at_remove (att i) \<and> jget d (temp_name (att i)) = None) \<longrightarrow> jget d' = jget d) \<and>
    (\<forall>errs. e = MirrorErrors errs \<longrightarrow> HashMismatch \<notin> set (butlast errs) \<and> BodyTooLong \<notin> set (butlast errs))"
proof (intro conjI allI impI)
  show "jget d' n = jget d n" if "\<not> HasPrefix n tempPrefix" for n
    using Download_fail(1) [OF assms] that by (simp add: same_files_def)
  show "jget d' = jget d" if "\<forall>i. at_remove (att i) \<and> jget d (temp_name (att i)) = None"
    using Download_fail(2) [OF assms refl that] .
  show "HashMismatch \<notin> set (butlast errs)" "BodyTooLong \<notin> set (butlast errs)" if "e = MirrorErrors errs" for errs
    using Download_errors [of sha256 windows "Some att" a d d' errs] assms that by (auto simp: corrupt_def)
qed

theorem download_fails_clean_witness:
  "Download sample_hash True (Some corrupt_mirrors) sample_artifact [(''old'', Some ''x'')] =
     ([(''old'', Some ''x'')], Inl (MirrorErrors [HashMismatch])) \<and>
   jget (fst (Download sample_hash True (Some corrupt_mirrors) sample_artifact [(''old'', Some ''x'')])) ''old'' = Some (Some ''x'')"
proof -
  have run: "Download sample_hash True (Some corrupt_mirrors) sample_artifact [(''old'', Some ''x'')] =
     ([(''old'', Some ''x'')], Inl (MirrorErrors [HashMismatch]))" by code_simp
  have "\<not> HasPrefix ''old'' tempPrefix" by code_simp
  with run download_fails_clean [OF run] show ?thesis by (simp add: obj_simps)
qed

text \<open>
  The rename loop ends: after at most 11 tries on Windows and after one elsewhere. It
  stops at the first try that succeeds, and it fails only when all of them did.
\<close>

theorem rename_loop_ends:
  "let (ok, tries) = renameWithRetry windows at 0; bound = (if windows then 11 else 1) in
     0 < tries \<and> tries \<le> bound \<and> ok = (\<exists>i < bound. at i) \<and> (\<forall>i < tries - 1. \<not> at i) \<and> ok = at (tries - 1)"
proof -
  obtain ok tries where run: "renameWithRetry windows at 0 = (ok, tries)" by fastforce
  let ?b = "if windows then 10 else (0::nat)"
  from renameWithRetry_spec [of 0 windows at] have t: "0 < tries" "tries \<le> Suc ?b" "ok \<longleftrightarrow> (\<exists>i \<le> ?b. at i)"
    and before: "\<forall>i. Suc i < tries \<longrightarrow> \<not> at i" by (auto simp: run Let_def)
  have "(\<exists>i < Suc ?b. at i) = (\<exists>i \<le> ?b. at i)" by (simp add: less_Suc_eq_le)
  moreover have "ok = at (tries - 1)" using renameWithRetry_last [OF run] by simp
  moreover have "(if windows then 11 else 1) = Suc ?b" by simp
  ultimately show ?thesis using t before by (simp add: run Let_def less_diff_conv del: One_nat_def)
qed

theorem rename_loop_ends_witness:
  "0 < snd (renameWithRetry True (\<lambda>k. k = 3) 0) \<and> snd (renameWithRetry True (\<lambda>k. k = 3) 0) \<le> 11"
proof -
  obtain ok tries where run: "renameWithRetry True (\<lambda>k. k = 3) 0 = (ok, tries)" by fastforce
  from rename_loop_ends [of True "\<lambda>k. k = 3"] have "0 < tries \<and> tries \<le> 11" unfolding run Let_def prod.case if_True by blast
  then show ?thesis by (simp add: run)
qed

end
