(* ===== verification/Manager_Update.thy ===== *)
theory Manager_Update
  imports Manager_Subs Update_Download
begin

text \<open>
  The daemon's side of updates (\<^verbatim>\<open>daemon-go/cmd/iron-link-daemon/manager_update.go\<close>): the jittered check
  schedule, the cached verdict, the download state machine and the verbs \<^verbatim>\<open>check_update\<close>,
  \<^verbatim>\<open>download_update\<close> and \<^verbatim>\<open>apply_update\<close>.

  The update fields of the manager are the record \<open>updater\<close>; settings and session are read from the
  manager of \<^verbatim>\<open>Manager_Session\<close>. A staged file's path is its name in the updates directory, and the pointer
  \<^verbatim>\<open>m.updateFileArtifact\<close>, which the code compares, carries a number drawn afresh at each landing. Broadcasts are recorded
  in \<open>up_events\<close>, after the locked section that decided them; log lines are left out, as are \<^verbatim>\<open>updateDownloadCancel\<close> and \<^verbatim>\<open>updateDownloadDone\<close> (a cancelled
  transfer is one that fails).

  Fetching, downloading and hashing run without the lock. \<open>updater_step\<close> therefore keeps what runs as pending and
  makes every locked section one step; at each step the settings and the session are arbitrary.

  Main results: one download at a time; a staged file is the one the cached verdict describes and passes
  verification on disk; every decision to announce a version is broadcast once; \<^verbatim>\<open>apply_update\<close> vouches only for a file it hashed and that is still
  the staged one; two checks at once can lower the anti-downgrade floor, but never below one recorded while no check was under way.
\<close>

section \<open>State\<close>

abbreviation updateStateDownloading :: string where "updateStateDownloading \<equiv> ''downloading''"
abbreviation updateStateDownloaded :: string where "updateStateDownloaded \<equiv> ''downloaded''"
abbreviation updateStateVerified :: string where "updateStateVerified \<equiv> ''verified''"
abbreviation updateStateFailed :: string where "updateStateFailed \<equiv> ''failed''"

datatype update_event =
    UpdateAvailable string string string
  | UpdateProgress int int string

text \<open>How the network is reached: through the session's outbound, or past the TUN; the third is the substitute the tests install.\<close>

datatype update_dialer = ProxyDial nat | TunExemptDial | SubstituteDial

record updater =
  up_result :: "update_result option"
  up_announced :: string
  up_last_attempt :: int
  up_state :: string
  up_received :: int
  up_total :: int
  up_path :: string
  up_artifact :: "(nat \<times> artifact) option"
  up_progress_at :: int
  up_urls :: "string list"
  up_transport :: "update_dialer option"
  up_dir :: staging
  up_seq :: seq_file
  up_fresh :: nat
  up_events :: "update_event list"

definition boot_updater :: "staging \<Rightarrow> seq_file \<Rightarrow> updater" where
  "boot_updater dir seq = \<lparr>up_result = None, up_announced = [], up_last_attempt = zero_time, up_state = [], up_received = 0, up_total = 0,
     up_path = [], up_artifact = None, up_progress_at = zero_time, up_urls = [], up_transport = None, up_dir = dir, up_seq = seq,
     up_fresh = 0, up_events = []\<rparr>"

record updater_env =
  ud_dv :: daemon_env
  ud_env :: update_env
  ud_version :: string
  ud_windows :: bool
  ud_sha256 :: "string \<Rightarrow> string"
  ud_rfc3339 :: "int \<Rightarrow> string"
  ud_net :: "update_dialer \<Rightarrow> http_transport"

record update_status =
  us_checked_at :: string
  us_current_version :: string
  us_available :: bool
  us_stale :: bool
  us_latest_version :: string
  us_notes_url :: string
  us_artifact :: "artifact option"
  us_download_state :: string
  us_download_received :: int
  us_download_total :: int
  us_setup_path :: string
  us_transport :: string

datatype update_fault =
    ApplyNotSupported
  | NoDownloadableUpdate
  | TransportDisabled
  | UpdateSettingsFailed "file_error + settings_error"
  | NoUpdatesDir
  | NothingToApply
  | UpdateStateChanged
  | VerifyFailed verify_error

type_synonym update_reply = "update_fault + update_status"

section \<open>Manifest mirrors\<close>

definition updateManifestURLs :: "string list" where
  "updateManifestURLs =
    [''https://raw.githubusercontent.com/grimnir-sidskegg/iron-link/main/updates/update.json'',
     ''https://github.com/grimnir-sidskegg/iron-link/releases/latest/download/update.json'']"

text \<open>The loop over the entries; the error is the entry that is not an http(s) URL.\<close>

fun override_urls :: "(string \<Rightarrow> url option) \<Rightarrow> string list \<Rightarrow> string + string list" where
  "override_urls url_parse [] = Inr []"
| "override_urls url_parse (e # es) = (let entry = TrimSpace e in
     if entry = [] then override_urls url_parse es
     else (case url_parse entry of
        None \<Rightarrow> Inl entry
      | Some u \<Rightarrow> if u_scheme u \<noteq> ''http'' \<and> u_scheme u \<noteq> ''https'' \<or> u_host u = [] then Inl entry
                  else rbind (override_urls url_parse es) (\<lambda>urls. Inr (entry # urls))))"

definition parseUpdateURLOverride :: "(string \<Rightarrow> url option) \<Rightarrow> string \<Rightarrow> string + string list" where
  "parseUpdateURLOverride url_parse raw = override_urls url_parse (Split raw (CHR '',''))"

definition applyUpdateURLOverride :: "(string \<Rightarrow> url option) \<Rightarrow> string \<Rightarrow> updater \<Rightarrow> updater" where
  "applyUpdateURLOverride url_parse raw u = (case parseUpdateURLOverride url_parse raw of
     Inl e \<Rightarrow> u
   | Inr urls \<Rightarrow> if urls = [] then u else u\<lparr>up_urls := urls\<rparr>)"

definition manifestURLs :: "updater \<Rightarrow> string list" where
  "manifestURLs u = (if up_urls u \<noteq> [] then up_urls u else updateManifestURLs)"

section \<open>Transport\<close>

definition chooseUpdateTransport :: "settings \<Rightarrow> nat option \<Rightarrow> update_dialer option \<times> string" where
  "chooseUpdateTransport settings sess =
    (if sess \<noteq> None \<and> st_update_via_tunnel settings then (Some (ProxyDial (the sess)), ''tunnel'')
     else if st_update_via_direct settings then (Some TunExemptDial, ''direct'')
     else (None, []))"

definition resolveUpdateTransport :: "updater_env \<Rightarrow> manager \<Rightarrow> updater \<Rightarrow> (update_dialer option \<times> string \<times> settings) option" where
  "resolveUpdateTransport ud m u = (case load_settings (ud_dv ud) m of
     Inl e \<Rightarrow> None
   | Inr settings \<Rightarrow> (case chooseUpdateTransport settings (mg_sess m) of (transport, mode) \<Rightarrow>
       Some (if transport \<noteq> None \<and> up_transport u \<noteq> None then up_transport u else transport, mode, settings)))"

section \<open>The attempt clock\<close>

definition noteUpdateAttempt :: "updater_env \<Rightarrow> int \<Rightarrow> updater \<Rightarrow> updater" where
  "noteUpdateAttempt ud now u =
     u\<lparr>up_last_attempt := now, up_seq := fst (SetLastAttempt (ud_rfc3339 ud) now (up_seq u))\<rparr>"

definition seedUpdateAttemptClock :: "updater_env \<Rightarrow> int \<Rightarrow> updater \<Rightarrow> updater" where
  "seedUpdateAttemptClock ud now u = (case LastAttempt (dv_parse_time (ud_dv ud)) (up_seq u) of
     None \<Rightarrow> u
   | Some t \<Rightarrow> if t = zero_time \<or> now < t then u
       else if up_last_attempt u = zero_time then u\<lparr>up_last_attempt := t\<rparr> else u)"

definition updateCheckInterval :: int where "updateCheckInterval = 24 * 3600 * time_Second"
definition updateProgressInterval :: int where "updateProgressInterval = time_Second"

text \<open>\<open>rand n\<close> is what \<^verbatim>\<open>rand.N(n)\<close> draws.\<close>

definition jitterInterval :: "(int \<Rightarrow> int) \<Rightarrow> int \<Rightarrow> int" where
  "jitterInterval rand d = d - d div 10 + rand (d div 5)"

section \<open>Staged files\<close>

definition sameArtifact :: "artifact \<Rightarrow> artifact \<Rightarrow> bool" where
  "sameArtifact a b = (af_os a = af_os b \<and> af_arch a = af_arch b \<and> af_kind a = af_kind b \<and> af_name a = af_name b \<and>
     af_size a = af_size b \<and> EqualFold (af_sha256 a) (af_sha256 b))"

text \<open>Whether the cached verdict describes an artifact.\<close>

definition describes :: "update_result option \<Rightarrow> artifact \<Rightarrow> bool" where
  "describes res a = (case res of
     None \<Rightarrow> False
   | Some r \<Rightarrow> ur_available r \<and> (case ur_artifact r of None \<Rightarrow> False | Some b \<Rightarrow> sameArtifact b a))"

definition staged :: "updater \<Rightarrow> bool" where
  "staged u = (up_state u = updateStateDownloaded \<or> up_state u = updateStateVerified)"

definition stagedUpdateSupersededLocked :: "updater \<Rightarrow> bool" where
  "stagedUpdateSupersededLocked u = (case up_artifact u of
     None \<Rightarrow> False
   | Some (n, a) \<Rightarrow> if up_path u = [] then False else if \<not> staged u then False else \<not> describes (up_result u) a)"

text \<open>\<open>rm\<close> is the outcome of \<^verbatim>\<open>os.Remove\<close>.\<close>

definition remove_file :: "bool \<Rightarrow> string \<Rightarrow> updater \<Rightarrow> updater" where
  "remove_file rm path u = (if rm then u\<lparr>up_dir := jdel path (up_dir u)\<rparr> else u)"

definition discardStagedUpdateLocked :: "bool \<Rightarrow> updater \<Rightarrow> updater" where
  "discardStagedUpdateLocked rm u = remove_file rm (up_path u) (u\<lparr>up_state := [], up_path := [], up_artifact := None\<rparr>)"

section \<open>Checks\<close>

text \<open>The locked part of \<^verbatim>\<open>runUpdateCheck\<close>, with the event to broadcast once the lock is released.\<close>

definition land_check :: "bool \<Rightarrow> update_result \<Rightarrow> updater \<Rightarrow> updater \<times> update_event list" where
  "land_check rm res u0 =
    (let u1 = u0\<lparr>up_result := Some res\<rparr>;
         u2 = (if stagedUpdateSupersededLocked u1 then discardStagedUpdateLocked rm u1 else u1) in
     if ur_available res \<and> ur_latest_version res \<noteq> up_announced u2
     then (u2\<lparr>up_announced := ur_latest_version res\<rparr>, [UpdateAvailable (ur_latest_version res) (ur_notes_url res)
             (case ur_artifact res of None \<Rightarrow> KindNone | Some a \<Rightarrow> af_kind a)])
     else (u2, []))"

definition hub_broadcast :: "updater \<times> update_event list \<Rightarrow> updater" where
  "hub_broadcast ue = (fst ue)\<lparr>up_events := up_events (fst ue) @ snd ue\<rparr>"

text \<open>\<open>clock k\<close> is the k-th reading of the clock inside \<^verbatim>\<open>Check\<close>.\<close>

definition check_config :: "updater_env \<Rightarrow> update_dialer \<Rightarrow> (nat \<Rightarrow> int) \<Rightarrow> updater \<Rightarrow> seq_file update_config" where
  "check_config ud transport clock u = \<lparr>uc_version = ud_version ud, uc_urls = manifestURLs u,
     uc_transport = Some (ud_net ud transport), uc_store = Some FileSeqStore, uc_now = clock\<rparr>"

definition runUpdateCheck :: "updater_env \<Rightarrow> update_dialer \<Rightarrow> (nat \<Rightarrow> int) \<Rightarrow> bool \<Rightarrow> updater \<Rightarrow> updater" where
  "runUpdateCheck ud transport clock rm u = (case Check (ud_env ud) (check_config ud transport clock u) (up_seq u) of
     (seq', Inl e) \<Rightarrow> u\<lparr>up_seq := seq'\<rparr>
   | (seq', Inr res) \<Rightarrow> hub_broadcast (land_check rm res (u\<lparr>up_seq := seq'\<rparr>)))"

definition tryUpdateCheck :: "updater_env \<Rightarrow> int \<Rightarrow> (nat \<Rightarrow> int) \<Rightarrow> bool \<Rightarrow> manager \<Rightarrow> updater \<Rightarrow> updater \<times> bool" where
  "tryUpdateCheck ud now clock rm m u = (case resolveUpdateTransport ud m u of
     None \<Rightarrow> (u, False)
   | Some (transport, mode, settings) \<Rightarrow>
       if \<not> st_auto_update settings then (u, False)
       else (case transport of
         None \<Rightarrow> (u, False)
       | Some tr \<Rightarrow> (runUpdateCheck ud tr clock rm (noteUpdateAttempt ud now u), True)))"

definition forceUpdateCheck :: "updater_env \<Rightarrow> int \<Rightarrow> (nat \<Rightarrow> int) \<Rightarrow> bool \<Rightarrow> manager \<Rightarrow> updater \<Rightarrow> updater" where
  "forceUpdateCheck ud now clock rm m u = (case resolveUpdateTransport ud m u of
     None \<Rightarrow> u
   | Some (transport, mode, settings) \<Rightarrow> (case transport of
       None \<Rightarrow> u
     | Some tr \<Rightarrow> runUpdateCheck ud tr clock rm (noteUpdateAttempt ud now u)))"

text \<open>The closure \<^verbatim>\<open>attempt\<close> of \<^verbatim>\<open>updateLoop\<close>, run once after the initial delay and at every tick; \<open>since\<close> is the time at which it
  compares the interval, \<open>due\<close> the loop's own variable.\<close>

definition update_attempt ::
  "updater_env \<Rightarrow> (int \<Rightarrow> int) \<Rightarrow> int \<Rightarrow> int \<Rightarrow> (nat \<Rightarrow> int) \<Rightarrow> bool \<Rightarrow> manager \<Rightarrow> int \<times> updater \<Rightarrow> int \<times> updater" where
  "update_attempt ud rand since now clock rm m st = (case st of (due, u) \<Rightarrow>
     if up_last_attempt u \<noteq> zero_time \<and> time_Sub since (up_last_attempt u) < due then (due, u)
     else (case tryUpdateCheck ud now clock rm m u of
       (u', attempted) \<Rightarrow> (if attempted then jitterInterval rand updateCheckInterval else due, u')))"

definition updateStatusResponse :: "updater_env \<Rightarrow> manager \<Rightarrow> updater \<Rightarrow> update_reply" where
  "updateStatusResponse ud m u = (case load_settings (ud_dv ud) m of
     Inl e \<Rightarrow> Inl (UpdateSettingsFailed e)
   | Inr settings \<Rightarrow>
      (let mode = snd (chooseUpdateTransport settings (mg_sess m));
           loading = (up_state u = updateStateDownloading);
           st = \<lparr>us_checked_at = [], us_current_version = ud_version ud, us_available = False, us_stale = False, us_latest_version = [],
                 us_notes_url = [], us_artifact = None, us_download_state = up_state u,
                 us_download_received = (if loading then up_received u else 0),
                 us_download_total = (if loading then up_total u else 0), us_setup_path = [],
                 us_transport = (if mode = [] then ''disabled'' else mode)\<rparr> in
       Inr (case up_result u of
         None \<Rightarrow> st
       | Some res \<Rightarrow> st\<lparr>us_checked_at := (if ur_checked_at res = zero_time then [] else ud_rfc3339 ud (ur_checked_at res)),
           us_available := ur_available res, us_stale := ur_stale res, us_latest_version := ur_latest_version res,
           us_notes_url := ur_notes_url res,
           us_artifact := map_option (\<lambda>a. a\<lparr>af_urls := []\<rparr>) (ur_artifact res)\<rparr>)))"

text \<open>\<open>m'\<close> is the manager when the reply is built, after an unlocked fetch.\<close>

definition checkUpdate ::
  "updater_env \<Rightarrow> int \<Rightarrow> (nat \<Rightarrow> int) \<Rightarrow> bool \<Rightarrow> bool \<Rightarrow> manager \<Rightarrow> manager \<Rightarrow> updater \<Rightarrow> updater \<times> update_reply" where
  "checkUpdate ud now clock rm force m m' u =
    (let u' = (if force then forceUpdateCheck ud now clock rm m u else u) in (u', updateStatusResponse ud m' u'))"

section \<open>Downloads\<close>

definition UpdatesDir :: "bool \<Rightarrow> bool \<Rightarrow> bool" where
  "UpdatesDir windows ok = (windows \<and> ok)"

text \<open>The locked part of \<^verbatim>\<open>startUpdateDownload\<close>: the transfer to start, none when one is running already.\<close>

definition start_locked :: "updater_env \<Rightarrow> bool \<Rightarrow> manager \<Rightarrow> updater \<Rightarrow> updater \<times> (update_fault + (artifact \<times> update_dialer) option)" where
  "start_locked ud dir_ok m u =
    (if up_state u = updateStateDownloading then (u, Inr None)
     else (case up_result u of
       None \<Rightarrow> (u, Inl NoDownloadableUpdate)
     | Some res \<Rightarrow> if \<not> ur_available res then (u, Inl NoDownloadableUpdate) else (case ur_artifact res of
         None \<Rightarrow> (u, Inl NoDownloadableUpdate)
       | Some a \<Rightarrow> (case load_settings (ud_dv ud) m of
           Inl e \<Rightarrow> (u, Inl (UpdateSettingsFailed e))
         | Inr settings \<Rightarrow> (case fst (chooseUpdateTransport settings (mg_sess m)) of
             None \<Rightarrow> (u, Inl TransportDisabled)
           | Some tr \<Rightarrow>
              if \<not> UpdatesDir (ud_windows ud) dir_ok then (u, Inl NoUpdatesDir)
              else (u\<lparr>up_state := updateStateDownloading, up_received := 0, up_total := af_size a, up_path := [],
                      up_artifact := None, up_progress_at := zero_time\<rparr>,
                    Inr (Some (a, case up_transport u of None \<Rightarrow> tr | Some t \<Rightarrow> t))))))))"

definition startUpdateDownload ::
  "updater_env \<Rightarrow> bool \<Rightarrow> manager \<Rightarrow> manager \<Rightarrow> updater \<Rightarrow> updater \<times> (artifact \<times> update_dialer) option \<times> update_reply" where
  "startUpdateDownload ud dir_ok m m' u = (case start_locked ud dir_ok m u of
     (u', Inl f) \<Rightarrow> (u', None, Inl f)
   | (u', Inr job) \<Rightarrow> (u', job, updateStatusResponse ud m' u'))"

definition downloadUpdate ::
  "updater_env \<Rightarrow> bool \<Rightarrow> manager \<Rightarrow> manager \<Rightarrow> updater \<Rightarrow> updater \<times> (artifact \<times> update_dialer) option \<times> update_reply" where
  "downloadUpdate ud dir_ok m m' u =
    (if \<not> ud_windows ud then (u, None, Inl ApplyNotSupported) else startUpdateDownload ud dir_ok m m' u)"

text \<open>The unlocked part of \<^verbatim>\<open>runUpdateDownload\<close>: the sweep and the transfer.\<close>

definition transfer :: "updater_env \<Rightarrow> bool \<Rightarrow> (string \<Rightarrow> bool) \<Rightarrow> (nat \<Rightarrow> attempt) \<Rightarrow> artifact \<Rightarrow> staging \<Rightarrow> staging \<times> (download_error + string)" where
  "transfer ud readable removable att a d =
     Download (ud_sha256 ud) (ud_windows ud) (Some att) a (fst (RemoveStaleTemps readable removable d))"

text \<open>Its locked part, and the final event, broadcast after it.\<close>

definition settle_download :: "bool \<Rightarrow> artifact \<Rightarrow> download_error + string \<Rightarrow> updater \<Rightarrow> updater \<times> update_event list" where
  "settle_download rm a r u0 =
    (let u = u0\<lparr>up_received := 0, up_total := 0\<rparr>;
         failed = (\<lambda>u. (u\<lparr>up_state := updateStateFailed, up_path := [], up_artifact := None\<rparr>, [UpdateProgress 0 0 updateStateFailed])) in
     case r of
       Inl e \<Rightarrow> failed u
     | Inr path \<Rightarrow>
         if \<not> describes (up_result u) a then failed (remove_file rm path u)
         else (u\<lparr>up_state := updateStateDownloaded, up_path := path, up_artifact := Some (up_fresh u, a), up_fresh := Suc (up_fresh u)\<rparr>,
               [UpdateProgress (af_size a) (af_size a) updateStateDownloaded]))"

definition runUpdateDownload ::
  "updater_env \<Rightarrow> bool \<Rightarrow> (string \<Rightarrow> bool) \<Rightarrow> (nat \<Rightarrow> attempt) \<Rightarrow> bool \<Rightarrow> artifact \<Rightarrow> updater \<Rightarrow> updater" where
  "runUpdateDownload ud readable removable att rm a u = (case transfer ud readable removable att a (up_dir u) of
     (d', r) \<Rightarrow> hub_broadcast (settle_download rm a r (u\<lparr>up_dir := d'\<rparr>)))"

text \<open>The locked part of \<^verbatim>\<open>noteUpdateProgress\<close>, and the whole call.\<close>

definition note_locked :: "int \<Rightarrow> int \<Rightarrow> updater \<Rightarrow> updater \<times> update_event list" where
  "note_locked now received u0 =
    (let u = u0\<lparr>up_received := received\<rparr> in
     if time_Sub now (up_progress_at u) \<ge> updateProgressInterval
     then (u\<lparr>up_progress_at := now\<rparr>, [UpdateProgress received (up_total u) updateStateDownloading])
     else (u, []))"

definition noteUpdateProgress :: "int \<Rightarrow> int \<Rightarrow> updater \<Rightarrow> updater" where
  "noteUpdateProgress now received u = hub_broadcast (note_locked now received u)"

text \<open>\<^verbatim>\<open>countingBody.Read\<close>: the samples that reads of the given sizes report, the count starting at 0 for each response.\<close>

fun countingBody :: "int \<Rightarrow> nat list \<Rightarrow> int list" where
  "countingBody n [] = []"
| "countingBody n (k # ks) = (if k > 0 then (n + int k) # countingBody (n + int k) ks else countingBody n ks)"

section \<open>Apply\<close>

record apply_call =
  ac_path :: string
  ac_state :: string
  ac_artifact :: "nat \<times> artifact"

text \<open>The snapshot of \<^verbatim>\<open>verifyDownloadedUpdate\<close> under the lock; the compare-and-set after the hash (\<open>rm\<close>: whether the
  corrupt file could be removed); the reply of a file that passed.\<close>

definition verify_begin :: "updater \<Rightarrow> update_fault + apply_call" where
  "verify_begin u = (case up_artifact u of
     None \<Rightarrow> Inl NothingToApply
   | Some ptr \<Rightarrow> if up_path u = [] \<or> \<not> staged u then Inl NothingToApply
       else Inr \<lparr>ac_path = up_path u, ac_state = up_state u, ac_artifact = ptr\<rparr>)"

definition verify_settle :: "bool \<Rightarrow> apply_call \<Rightarrow> verify_error option \<Rightarrow> updater \<Rightarrow> updater \<times> update_fault option" where
  "verify_settle rm c verdict u =
    (if up_path u \<noteq> ac_path c \<or> up_state u \<noteq> ac_state c \<or> map_option fst (up_artifact u) \<noteq> Some (fst (ac_artifact c))
     then (u, Some UpdateStateChanged)
     else (case verdict of
       Some e \<Rightarrow> (discardStagedUpdateLocked rm u, Some (VerifyFailed e))
     | None \<Rightarrow> (u\<lparr>up_state := updateStateVerified\<rparr>, None)))"

definition apply_reply :: "updater_env \<Rightarrow> manager \<Rightarrow> apply_call \<Rightarrow> updater \<Rightarrow> update_reply" where
  "apply_reply ud m c u = (case updateStatusResponse ud m u of Inl f \<Rightarrow> Inl f | Inr st \<Rightarrow> Inr (st\<lparr>us_setup_path := ac_path c\<rparr>))"

text \<open>The call run on its own; \<open>io\<close> are the outcomes of opening and reading the file.\<close>

definition verifyDownloadedUpdate :: "updater_env \<Rightarrow> bool \<times> bool \<Rightarrow> bool \<Rightarrow> manager \<Rightarrow> updater \<Rightarrow> updater \<times> update_reply" where
  "verifyDownloadedUpdate ud io rm m u = (case verify_begin u of
     Inl f \<Rightarrow> (u, Inl f)
   | Inr c \<Rightarrow> (case verify_settle rm c (VerifyFile (ud_sha256 ud) (fst io) (snd io) (up_dir u) (ac_path c) (snd (ac_artifact c))) u of
       (u', Some f) \<Rightarrow> (u', Inl f)
     | (u', None) \<Rightarrow> (u', apply_reply ud m c u')))"

definition applyUpdate :: "updater_env \<Rightarrow> bool \<times> bool \<Rightarrow> bool \<Rightarrow> manager \<Rightarrow> updater \<Rightarrow> updater \<times> update_reply" where
  "applyUpdate ud io rm m u = (if \<not> ud_windows ud then (u, Inl ApplyNotSupported) else verifyDownloadedUpdate ud io rm m u)"

section \<open>Interleavings\<close>

text \<open>A check between its reads of the trust state and its writes, or before its result is cached; a transfer before and
  after it ran; an \<^verbatim>\<open>apply_update\<close> between its locked sections.\<close>

text \<open>
  An event decided under the lock waits in \<open>rn_outbox\<close> until it is broadcast: the lock is released in between, so the events of calls that overlap come in
  any order. \<open>rn_decided\<close> records the versions in the order in which they were decided for announcement.
\<close>

datatype check_job =
    CheckRead "seq_file update_config" "trusted_key list" verified "u64 list" u64
  | CheckDone update_result

datatype transfer_job =
    Transferring artifact
  | Transferred artifact "download_error + string"

datatype apply_job =
    Snapshot apply_call
  | Hashed apply_call "verify_error option"
  | Approved apply_call

record updater_run =
  rn_up :: updater
  rn_checks :: "check_job list"
  rn_transfers :: "transfer_job list"
  rn_applies :: "apply_job list"
  rn_replies :: "update_reply list"
  rn_outbox :: "update_event list"
  rn_decided :: "string list"

text \<open>The versions that events announce.\<close>

definition announcements :: "update_event list \<Rightarrow> string list" where
  "announcements evs = List.map_filter (\<lambda>e. case e of UpdateAvailable v _ _ \<Rightarrow> Some v | _ \<Rightarrow> None) evs"

inductive updater_step :: "updater_env \<Rightarrow> updater_run \<Rightarrow> updater_run \<Rightarrow> bool" for ud where
  override: "updater_step ud s (s\<lparr>rn_up := applyUpdateURLOverride url_parse raw (rn_up s)\<rparr>)"
| seed: "updater_step ud s (s\<lparr>rn_up := seedUpdateAttemptClock ud now (rn_up s)\<rparr>)"
| attempt: "updater_step ud s (s\<lparr>rn_up := noteUpdateAttempt ud now (rn_up s)\<rparr>)"
| check_read: "cfg = check_config ud tr clock (rn_up s) \<Longrightarrow> fetched (ud_env ud) cfg = Some v \<Longrightarrow> trustedKeys (ud_env ud) = Inr keys \<Longrightarrow>
    read_gates cfg FileSeqStore v (up_seq (rn_up s)) = Inr (revoked, seen) \<Longrightarrow>
    updater_step ud s (s\<lparr>rn_checks := CheckRead cfg keys v revoked seen # rn_checks s\<rparr>)"
| check_soft: "updater_step ud s (s\<lparr>rn_checks := CheckDone (blank_result t key) # rn_checks s\<rparr>)"
| check_write: "CheckRead cfg keys v revoked seen \<in> set (rn_checks s) \<Longrightarrow>
    accept_manifest (ud_env ud) cfg FileSeqStore keys v revoked seen (up_seq (rn_up s)) = (seq', r) \<Longrightarrow>
    updater_step ud s (s\<lparr>rn_up := (rn_up s)\<lparr>up_seq := seq'\<rparr>,
      rn_checks := (case r of Inl e \<Rightarrow> [] | Inr res \<Rightarrow> [CheckDone res]) @ remove1 (CheckRead cfg keys v revoked seen) (rn_checks s)\<rparr>)"
| check_land: "CheckDone res \<in> set (rn_checks s) \<Longrightarrow> land_check rm res (rn_up s) = (u', evs) \<Longrightarrow>
    updater_step ud s (s\<lparr>rn_up := u', rn_checks := remove1 (CheckDone res) (rn_checks s), rn_outbox := rn_outbox s @ evs,
      rn_decided := rn_decided s @ announcements evs\<rparr>)"
| broadcast: "e \<in> set (rn_outbox s) \<Longrightarrow>
    updater_step ud s (s\<lparr>rn_up := hub_broadcast (rn_up s, [e]), rn_outbox := remove1 e (rn_outbox s)\<rparr>)"
| start: "start_locked ud dir_ok m (rn_up s) = (u', Inr (Some (a, tr))) \<Longrightarrow>
    updater_step ud s (s\<lparr>rn_up := u', rn_transfers := Transferring a # rn_transfers s\<rparr>)"
| progress: "Transferring a \<in> set (rn_transfers s) \<Longrightarrow> note_locked now n (rn_up s) = (u', evs) \<Longrightarrow>
    updater_step ud s (s\<lparr>rn_up := u', rn_outbox := rn_outbox s @ evs\<rparr>)"
| run: "Transferring a \<in> set (rn_transfers s) \<Longrightarrow> transfer ud readable removable att a (up_dir (rn_up s)) = (d', r) \<Longrightarrow>
    updater_step ud s (s\<lparr>rn_up := (rn_up s)\<lparr>up_dir := d'\<rparr>,
      rn_transfers := Transferred a r # remove1 (Transferring a) (rn_transfers s)\<rparr>)"
| settle: "Transferred a r \<in> set (rn_transfers s) \<Longrightarrow> settle_download rm a r (rn_up s) = (u', evs) \<Longrightarrow>
    updater_step ud s (s\<lparr>rn_up := u', rn_transfers := remove1 (Transferred a r) (rn_transfers s), rn_outbox := rn_outbox s @ evs\<rparr>)"
| apply_begin: "verify_begin (rn_up s) = Inr c \<Longrightarrow> updater_step ud s (s\<lparr>rn_applies := Snapshot c # rn_applies s\<rparr>)"
| apply_hash: "Snapshot c \<in> set (rn_applies s) \<Longrightarrow>
    v = VerifyFile (ud_sha256 ud) opens reads (up_dir (rn_up s)) (ac_path c) (snd (ac_artifact c)) \<Longrightarrow>
    updater_step ud s (s\<lparr>rn_applies := Hashed c v # remove1 (Snapshot c) (rn_applies s)\<rparr>)"
| apply_settle: "Hashed c v \<in> set (rn_applies s) \<Longrightarrow> verify_settle rm c v (rn_up s) = (u', f) \<Longrightarrow>
    updater_step ud s (s\<lparr>rn_up := u',
      rn_applies := (if f = None then [Approved c] else []) @ remove1 (Hashed c v) (rn_applies s)\<rparr>)"
| apply_reply: "Approved c \<in> set (rn_applies s) \<Longrightarrow>
    updater_step ud s (s\<lparr>rn_applies := remove1 (Approved c) (rn_applies s), rn_replies := rn_replies s @ [apply_reply ud m c (rn_up s)]\<rparr>)"

inductive updater_reachable :: "updater_env \<Rightarrow> updater_run \<Rightarrow> bool" for ud where
  boot: "updater_reachable ud \<lparr>rn_up = boot_updater dir seq, rn_checks = [], rn_transfers = [], rn_applies = [], rn_replies = [],
    rn_outbox = [], rn_decided = []\<rparr>"
| step: "updater_reachable ud s \<Longrightarrow> updater_step ud s s' \<Longrightarrow> updater_reachable ud s'"

section \<open>The state machine\<close>

definition good_file :: "updater_env \<Rightarrow> staging \<Rightarrow> string \<Rightarrow> artifact \<Rightarrow> bool" where
  "good_file ud d p a = (plain_name p \<and> (\<not> HasPrefix p tempPrefix \<longrightarrow> VerifyFile (ud_sha256 ud) True True d p a = None))"

definition staged_ok :: "updater_env \<Rightarrow> updater \<Rightarrow> bool" where
  "staged_ok ud u = (\<exists>n a. up_artifact u = Some (n, a) \<and> describes (up_result u) a \<and> good_file ud (up_dir u) (up_path u) a)"

fun transfer_ok :: "updater_env \<Rightarrow> staging \<Rightarrow> transfer_job \<Rightarrow> bool" where
  "transfer_ok ud d (Transferred a (Inr p)) = good_file ud d p a"
| "transfer_ok ud d _ = True"

definition machine_ok :: "updater_env \<Rightarrow> updater \<Rightarrow> transfer_job list \<Rightarrow> bool" where
  "machine_ok ud u ts =
    (if up_state u = updateStateDownloading then \<exists>t. ts = [t] \<and> transfer_ok ud (up_dir u) t
     else ts = [] \<and> (staged u \<longrightarrow> staged_ok ud u))"

lemma machine_boot: "machine_ok ud (boot_updater d q) []"
  by (simp add: machine_ok_def boot_updater_def staged_def)

text \<open>Sections that touch nothing but clocks, counters, mirrors, events and the trust state.\<close>

definition same_machine :: "updater \<Rightarrow> updater \<Rightarrow> bool" where
  "same_machine u u' = (up_state u' = up_state u \<and> up_dir u' = up_dir u \<and> up_path u' = up_path u \<and> up_artifact u' = up_artifact u \<and>
     up_result u' = up_result u)"

lemma same_machine_ok: "same_machine u u' \<Longrightarrow> machine_ok ud u ts \<Longrightarrow> machine_ok ud u' ts"
  by (auto simp: same_machine_def machine_ok_def staged_def staged_ok_def)

lemma same_machineI [simp, intro]:
  "same_machine u (applyUpdateURLOverride url_parse raw u)"
  "same_machine u (seedUpdateAttemptClock ud now u)"
  "same_machine u (noteUpdateAttempt ud now u)"
  "same_machine u (u\<lparr>up_seq := q\<rparr>)"
  "same_machine u (fst (note_locked now n u))"
  "same_machine u (hub_broadcast (u, evs))"
  by (auto simp: same_machine_def applyUpdateURLOverride_def seedUpdateAttemptClock_def noteUpdateAttempt_def note_locked_def hub_broadcast_def
      Let_def split: sum.splits option.splits)

lemmas machine_same = same_machineI [THEN same_machine_ok]

lemma land_check_machine:
  assumes "machine_ok ud u ts"
  shows "machine_ok ud (fst (land_check rm res u)) ts"
proof -
  let ?u1 = "u\<lparr>up_result := Some res\<rparr>"
  let ?u2 = "if stagedUpdateSupersededLocked ?u1 then discardStagedUpdateLocked rm ?u1 else ?u1"
  have "machine_ok ud ?u2 ts"
  proof (cases "staged u")
    case True
    then have st: "up_state u \<noteq> updateStateDownloading" by (auto simp: staged_def)
    with assms True obtain n a where ok: "ts = []" "up_artifact u = Some (n, a)" "good_file ud (up_dir u) (up_path u) a"
      by (auto simp: machine_ok_def staged_ok_def)
    then have "stagedUpdateSupersededLocked ?u1 = (\<not> describes (Some res) a)"
      using True by (auto simp: stagedUpdateSupersededLocked_def staged_def good_file_def plain_name_def)
    with ok st show ?thesis
      by (auto simp: machine_ok_def staged_ok_def discardStagedUpdateLocked_def remove_file_def staged_def)
  next
    case False
    with assms show ?thesis
      by (auto simp: machine_ok_def stagedUpdateSupersededLocked_def staged_def split: option.splits)
  qed
  moreover have "same_machine ?u2 (fst (land_check rm res u))" by (simp add: land_check_def Let_def same_machine_def)
  ultimately show ?thesis by (rule same_machine_ok [rotated])
qed

lemma start_machine:
  assumes "start_locked ud dir_ok m u = (u', Inr (Some (a, tr)))" and "machine_ok ud u ts"
  shows "machine_ok ud u' (Transferring a # ts)"
  using assms by (auto simp: start_locked_def machine_ok_def split: if_splits option.splits sum.splits prod.splits)

lemma transfer_good:
  assumes "transfer ud readable removable att a d = (d', r)"
  shows "transfer_ok ud d' (Transferred a r)"
  using assms Download_name stage.landed
  by (cases r) (auto simp: transfer_def good_file_def)

lemma settle_machine:
  assumes "machine_ok ud u [Transferred a r]"
  shows "machine_ok ud (fst (settle_download rm a r u)) []"
  using assms
  by (auto simp: machine_ok_def settle_download_def remove_file_def Let_def staged_def staged_ok_def split: sum.splits if_splits)

lemma verify_machine:
  assumes "verify_settle rm c v u = (u', f)" and "machine_ok ud u ts" and "ac_state c \<in> {updateStateDownloaded, updateStateVerified}"
  shows "machine_ok ud u' ts"
  using assms
  by (auto simp: verify_settle_def machine_ok_def staged_ok_def discardStagedUpdateLocked_def remove_file_def staged_def
      split: if_splits option.splits)

fun apply_ok :: "apply_job \<Rightarrow> bool" where
  "apply_ok (Snapshot c) = (ac_state c \<in> {updateStateDownloaded, updateStateVerified})"
| "apply_ok (Hashed c _) = (ac_state c \<in> {updateStateDownloaded, updateStateVerified})"
| "apply_ok (Approved c) = True"

definition announced_ok :: "updater_run \<Rightarrow> bool" where
  "announced_ok s = (distinct_adj (rn_decided s) \<and> (rn_decided s \<noteq> [] \<longrightarrow> last (rn_decided s) = up_announced (rn_up s)) \<and>
     mset (announcements (up_events (rn_up s))) + mset (announcements (rn_outbox s)) = mset (rn_decided s))"

definition run_ok :: "updater_env \<Rightarrow> updater_run \<Rightarrow> bool" where
  "run_ok ud s = (machine_ok ud (rn_up s) (rn_transfers s) \<and> announced_ok s \<and> (\<forall>j \<in> set (rn_applies s). apply_ok j))"

lemma announcements_append [simp]: "announcements (xs @ ys) = announcements xs @ announcements ys"
  by (simp add: announcements_def List.map_filter_def)

lemma announcements_Cons [simp]:
  "announcements [] = []"
  "announcements (UpdateAvailable v n k # evs) = v # announcements evs"
  "announcements (UpdateProgress a b st # evs) = announcements evs"
  by (simp_all add: announcements_def map_filter_simps)

lemma announcements_remove1: "e \<in> set evs \<Longrightarrow> mset (announcements [e]) + mset (announcements (remove1 e evs)) = mset (announcements evs)"
proof (induction evs)
  case (Cons x evs)
  then show ?case by (cases x) auto
qed simp

text \<open>Sections that decide no announcement.\<close>

definition same_news :: "updater \<Rightarrow> updater \<Rightarrow> bool" where
  "same_news u u' = (up_announced u' = up_announced u \<and> up_events u' = up_events u)"

lemma same_newsI [simp, intro]:
  "same_news u u"
  "same_news u (applyUpdateURLOverride url_parse raw u)"
  "same_news u (seedUpdateAttemptClock ud now u)"
  "same_news u (noteUpdateAttempt ud now u)"
  "same_news u (u\<lparr>up_seq := q\<rparr>)"
  "same_news u (u\<lparr>up_dir := d\<rparr>)"
  "note_locked now n u = (u', evs) \<Longrightarrow> same_news u u' \<and> announcements evs = []"
  "settle_download rm a r u = (u', evs) \<Longrightarrow> same_news u u' \<and> announcements evs = []"
  "start_locked ud dir_ok m u = (u', j) \<Longrightarrow> same_news u u'"
  "verify_settle rm c v u = (u', f) \<Longrightarrow> same_news u u'"
  by (auto simp: same_news_def applyUpdateURLOverride_def seedUpdateAttemptClock_def noteUpdateAttempt_def note_locked_def
      settle_download_def start_locked_def verify_settle_def discardStagedUpdateLocked_def remove_file_def Let_def
      split: sum.splits option.splits if_splits prod.splits)

lemma announced_same:
  "announced_ok s \<Longrightarrow> same_news (rn_up s) (rn_up s') \<Longrightarrow> announcements (rn_outbox s') = announcements (rn_outbox s) \<Longrightarrow>
    rn_decided s' = rn_decided s \<Longrightarrow> announced_ok s'"
  by (simp add: announced_ok_def same_news_def)

lemma announced_land:
  assumes "announced_ok s" and "land_check rm res (rn_up s) = (u', evs)"
    and "rn_up s' = u'" and "rn_outbox s' = rn_outbox s @ evs" and "rn_decided s' = rn_decided s @ announcements evs"
  shows "announced_ok s'"
proof -
  have "up_events u' = up_events (rn_up s) \<and> (evs = [] \<and> up_announced u' = up_announced (rn_up s) \<or>
      (\<exists>v n k. evs = [UpdateAvailable v n k] \<and> up_announced u' = v \<and> v \<noteq> up_announced (rn_up s)))"
    using assms(2) by (auto simp: land_check_def Let_def discardStagedUpdateLocked_def remove_file_def split: if_splits)
  with assms show ?thesis by (auto simp: announced_ok_def distinct_adj_append_iff)
qed

lemma announced_broadcast:
  assumes "announced_ok s" and "e \<in> set (rn_outbox s)" and "rn_up s' = hub_broadcast (rn_up s, [e])" and "rn_outbox s' = remove1 e (rn_outbox s)"
    and "rn_decided s' = rn_decided s"
  shows "announced_ok s'"
  using assms announcements_remove1 [OF assms(2)] by (simp add: announced_ok_def hub_broadcast_def) (metis (no_types) add.assoc)

lemma apply_ok_begin: "verify_begin u = Inr c \<Longrightarrow> apply_ok (Snapshot c)"
  by (auto simp: verify_begin_def staged_def split: option.splits if_splits)

lemma run_ok_step:
  assumes "updater_step ud s s'" and "run_ok ud s"
  shows "run_ok ud s'"
  using assms
proof (cases rule: updater_step.cases)
  case (run a readable removable att d' r)
  then have ts: "rn_transfers s = [Transferring a]" "up_state (rn_up s) = updateStateDownloading"
    using assms(2) by (auto simp: run_ok_def machine_ok_def split: if_splits)
  have "machine_ok ud ((rn_up s)\<lparr>up_dir := d'\<rparr>) [Transferred a r]"
    using ts transfer_good [OF run(3)] by (simp add: machine_ok_def)
  moreover have "announced_ok s'" by (rule announced_same [of s]) (use run assms(2) in \<open>auto simp: run_ok_def\<close>)
  ultimately show ?thesis using run ts assms(2) by (simp add: run_ok_def)
next
  case (settle a r rm u' evs)
  then have ts: "rn_transfers s = [Transferred a r]"
    using assms(2) by (auto simp: run_ok_def machine_ok_def split: if_splits)
  have "announced_ok s'" by (rule announced_same [of s]) (use settle assms(2) same_newsI(8) [OF settle(3)] in \<open>auto simp: run_ok_def\<close>)
  with settle ts assms(2) settle_machine [of ud "rn_up s" a r rm] show ?thesis by (simp add: run_ok_def)
next
  case (progress a now n u' evs)
  have "announced_ok s'" by (rule announced_same [of s]) (use progress assms(2) same_newsI(7) [OF progress(3)] in \<open>auto simp: run_ok_def\<close>)
  with progress assms(2) machine_same(5) [of ud "rn_up s" "rn_transfers s" now n] show ?thesis by (simp add: run_ok_def)
next
  case (check_land res rm u' evs)
  have "announced_ok s'" by (rule announced_land [OF _ check_land(3)]) (use check_land assms(2) in \<open>simp_all add: run_ok_def\<close>)
  with check_land assms(2) land_check_machine [of ud "rn_up s" "rn_transfers s" rm res] show ?thesis by (simp add: run_ok_def)
next
  case (broadcast e)
  have "announced_ok s'" by (rule announced_broadcast [of s e]) (use broadcast assms(2) in \<open>simp_all add: run_ok_def\<close>)
  with broadcast assms(2) show ?thesis by (simp add: run_ok_def machine_same)
next
  case (apply_settle c v rm u' f)
  then have "ac_state c \<in> {updateStateDownloaded, updateStateVerified}" using assms(2) by (fastforce simp: run_ok_def)
  moreover have "announced_ok s'" by (rule announced_same [of s]) (use apply_settle assms(2) in \<open>auto simp: run_ok_def\<close>)
  ultimately show ?thesis using apply_settle assms(2) verify_machine [OF apply_settle(3)] by (auto simp: run_ok_def dest: notin_set_remove1)
next
  case (apply_begin c)
  with assms(2) apply_ok_begin announced_same [of s s'] show ?thesis by (simp add: run_ok_def)
next
  case (apply_hash c v opens reads)
  with assms(2) have "apply_ok (Snapshot c)" unfolding run_ok_def by blast
  with apply_hash assms(2) announced_same [of s s'] show ?thesis by (simp add: run_ok_def) (meson notin_set_remove1)
next
  case (apply_reply c m)
  with assms(2) announced_same [of s s'] show ?thesis by (simp add: run_ok_def) (meson notin_set_remove1)
next
  case (start dir_ok m u' a tr)
  have "announced_ok s'" by (rule announced_same [of s]) (use start assms(2) in \<open>auto simp: run_ok_def\<close>)
  with start assms(2) start_machine [OF start(2)] show ?thesis by (simp add: run_ok_def)
qed (use assms(2) announced_same [of s s'] in \<open>simp_all add: run_ok_def machine_same\<close>)

lemma reachable_run_ok: "updater_reachable ud s \<Longrightarrow> run_ok ud s"
proof (induction rule: updater_reachable.induct)
  case (boot dir seq)
  show ?case using machine_boot [of ud dir seq] by (simp add: run_ok_def boot_updater_def announced_ok_def)
next
  case (step s s')
  show ?case by (rule run_ok_step [OF step(2,3)])
qed

section \<open>A concrete run\<close>

text \<open>A published installer, two manifests of different sequence numbers behind the two routes, and a run that stages the installer.\<close>

definition release_json :: "int \<Rightarrow> json" where
  "release_json n = JObj [(''schema'', JInt 1), (''seq'', JInt n), (''channel'', JStr ''stable''), (''version'', JStr ''v1.1.0''),
     (''artifacts'', JArr [JObj [(''os'', JStr ''windows''), (''arch'', JStr ''amd64''), (''kind'', JStr KindInstaller),
        (''name'', JStr ''dist/setup.exe''), (''size'', JInt 5), (''sha256'', JStr (replicate 64 (CHR ''A''))),
        (''urls'', JArr [JStr ''https://a'', JStr ''https://b''])]])]"

definition sample_release :: update_env where
  "sample_release = release_env\<lparr>ue_parse_sig := (\<lambda>s. Some \<lparr>sg_algorithm = 1, sg_key_id = 1, sg_comment = ''version=v1.1.0 seq='' @ s\<rparr>),
     ue_json_text := (\<lambda>s. Some (release_json (if s = ''7'' then 7 else 9))), ue_goos := ''windows''\<rparr>"

definition sample_published :: "u64 \<Rightarrow> verified" where
  "sample_published n = \<lparr>vf_manifest = \<lparr>mf_schema = 1, mf_seq = n, mf_channel = ''stable'', mf_version = ''v1.1.0'',
       mf_min_version = [], mf_published_at = zero_time, mf_expires_at = zero_time, mf_notes_url = [], mf_artifacts = [sample_artifact]\<rparr>,
     vf_key_name = ''current'', vf_key_id = 1\<rparr>"

definition sample_updater :: updater_env where
  "sample_updater = \<lparr>ud_dv = sample_daemon, ud_env = sample_release, ud_version = ''v1.0.0'', ud_windows = True, ud_sha256 = sample_hash,
     ud_rfc3339 = (\<lambda>_. []),
     ud_net = (\<lambda>d _ _. Some \<lparr>hr_status = 200, hr_body = Some (case d of ProxyDial _ \<Rightarrow> ''7'' | _ \<Rightarrow> ''9'')\<rparr>)\<rparr>"

lemma sample_parse:
  "ParseManifest sample_release ''7'' = Inr (vf_manifest (sample_published 7))"
  "ParseManifest sample_release ''9'' = Inr (vf_manifest (sample_published 9))"
  by code_simp+

lemma sample_comment:
  "parseTrustedComment ''version=v1.1.0 seq=7'' = Inr (''v1.1.0'', 7)"
  "parseTrustedComment ''version=v1.1.0 seq=9'' = Inr (''v1.1.0'', 9)"
proof -
  have "Fields ''version=v1.1.0 seq=7'' = [''version=v1.1.0'', ''seq=7'']" "Fields ''version=v1.1.0 seq=9'' = [''version=v1.1.0'', ''seq=9'']"
    by code_simp+
  then show "parseTrustedComment ''version=v1.1.0 seq=7'' = Inr (''v1.1.0'', 7)" "parseTrustedComment ''version=v1.1.0 seq=9'' = Inr (''v1.1.0'', 9)"
    by (simp_all add: parseTrustedComment_def CutPrefix_def HasPrefix_def ParseUint_def digit_val_def)
qed

definition sample_keys :: "trusted_key list" where
  "sample_keys = [\<lparr>tk_name = ''current'', tk_pub = publicKeyCurrent\<rparr>, \<lparr>tk_name = ''recovery'', tk_pub = publicKeyRecovery\<rparr>]"

lemma sample_trusted: "trustedKeys sample_release = Inr sample_keys"
  by (simp add: trustedKeys_def sample_release_def release_env_def sample_keys_def)

lemma sample_release_sel:
  "ue_parse_sig sample_release s = Some \<lparr>sg_algorithm = 1, sg_key_id = 1, sg_comment = ''version=v1.1.0 seq='' @ s\<rparr>"
  "ue_hash_eddsa sample_release = 1" "ue_verify sample_release k m s" "ue_key_id sample_release publicKeyCurrent = 1"
  by (simp_all add: sample_release_def release_env_def)

lemma sample_verifies:
  assumes "ParseManifest sample_release b = Inr (vf_manifest (sample_published n))"
    and "parseTrustedComment (''version=v1.1.0 seq='' @ b) = Inr (''v1.1.0'', n)"
  shows "verifyManifest sample_release sample_keys b b = Inr (sample_published n)"
  using assms by (simp add: verifyManifest_def sample_release_sel sample_keys_def) (simp add: sample_published_def)

definition sample_config :: "update_dialer \<Rightarrow> seq_file update_config" where
  "sample_config d = check_config sample_updater d (\<lambda>_. 0) (boot_updater [] release_file)"

lemma sample_fetched:
  "fetched sample_release (sample_config (ProxyDial 0)) = Some (sample_published 7)"
  "fetched sample_release (sample_config TunExemptDial) = Some (sample_published 9)"
  using sample_verifies [of "''7''" 7] sample_verifies [of "''9''" 9] sample_parse sample_comment
  by (simp_all add: fetched_def sample_config_def check_config_def sample_updater_def manifestURLs_def boot_updater_def updateManifestURLs_def
      fetchOne_eq maxManifestSize_def maxSignatureSize_def VerifyManifest_def sample_trusted)

definition sample_verdict :: update_result where
  "sample_verdict = \<lparr>ur_checked_at = 0, ur_available = True, ur_stale = False, ur_latest_version = ''v1.1.0'', ur_notes_url = [],
     ur_artifact = Some sample_artifact, ur_verified_key = ''current''\<rparr>"

lemma sample_evaluated: "evaluate_manifest sample_release (sample_config d) (sample_published n) = sample_verdict"
proof -
  have "strip_describe_tail ''v1.0.0'' = ''v1.0.0''" by code_simp
  then show ?thesis
    by (simp add: evaluate_manifest_def sample_config_def check_config_def sample_updater_def sample_published_def sample_verdict_def
        normalizeCurrentVersion_def sample_release_def release_env_def HasPrefix_def Let_def blank_result_def selectArtifact_def
        sample_artifact_def zero_time_def)
qed

definition floor_file :: "u64 \<Rightarrow> bool list \<Rightarrow> seq_file" where
  "floor_file n io = \<lparr>sf_file = Some (EFile (Some (enc_seq_state (zero_seq_state\<lparr>ss_last_seen_seq := n\<rparr>)))), sf_io = io\<rparr>"

lemma floor_reading: "LastSeenSeq (floor_file n io) = Some n" "LastSeenSeq release_file = Some 0" "RevokedKeyIDs release_file = Some []"
  by (simp_all add: LastSeenSeq_def RevokedKeyIDs_def seq_load_def floor_file_def read_file_def decoding_def dec_enc_seq_state release_file_def
      zero_seq_state_def)

lemma floor_writes:
  "SetLastSeenSeq n release_file = (floor_file n [True, True, True], True)"
  "SetLastSeenSeq n (floor_file k (True # io)) = (floor_file n io, True)"
  by (simp_all add: SetLastSeenSeq_def seq_update_def seq_load_def seq_save_def release_file_def floor_file_def atomicWrite_def
        read_file_def decoding_def dec_enc_seq_state zero_seq_state_def)

lemma sample_accepts:
  assumes "0 < n"
  shows "accept_manifest sample_release (sample_config d) FileSeqStore sample_keys (sample_published n) [] 0 q =
     (case SetLastSeenSeq n q of (q', ok) \<Rightarrow> (q', if ok then Inr sample_verdict else Inl PersistFloor))"
proof -
  have "vf_key_name (sample_published n) = ''current''" "mf_seq (vf_manifest (sample_published n)) = n"
    by (simp_all add: sample_published_def)
  then show ?thesis using assms
    by (simp add: accept_manifest_def sample_evaluated) (simp add: FileSeqStore_def split: prod.splits bool.splits)
qed

definition sample_run :: "updater \<Rightarrow> check_job list \<Rightarrow> updater_run" where
  "sample_run u checks = \<lparr>rn_up = u, rn_checks = checks, rn_transfers = [], rn_applies = [], rn_replies = [],
     rn_outbox = [], rn_decided = []\<rparr>"

definition read_by :: "update_dialer \<Rightarrow> u64 \<Rightarrow> check_job" where
  "read_by d n = CheckRead (sample_config d) sample_keys (sample_published n) [] 0"

abbreviation at_seq :: "seq_file \<Rightarrow> updater" where "at_seq q \<equiv> boot_updater [] q"

lemma sample_read:
  assumes "fetched sample_release (sample_config d) = Some (sample_published n)"
  shows "updater_step sample_updater (sample_run (at_seq release_file) cs) (sample_run (at_seq release_file) (read_by d n # cs))"
proof -
  have up: "up_seq (at_seq release_file) = release_file" by (simp add: boot_updater_def)
  have env: "ud_env sample_updater = sample_release" by (simp add: sample_updater_def)
  have sel: "rn_up (sample_run u cs) = u" for u cs by (simp add: sample_run_def)
  have "updater_step sample_updater (sample_run (at_seq release_file) cs)
     ((sample_run (at_seq release_file) cs)\<lparr>rn_checks := CheckRead (sample_config d) sample_keys (sample_published n) [] 0 # rn_checks (sample_run (at_seq release_file) cs)\<rparr>)"
    using assms
    by (intro updater_step.check_read [where tr = d and clock = "\<lambda>_. 0"])
       (simp_all add: sel up env floor_reading sample_trusted sample_config_def read_gates_Inr, simp_all add: sample_published_def)
  then show ?thesis by (simp add: sample_run_def read_by_def)
qed

lemma sample_write:
  assumes "read_by d n \<in> set cs" and "SetLastSeenSeq n q = (q', True)" and "0 < n"
  shows "updater_step sample_updater (sample_run (at_seq q) cs) (sample_run (at_seq q') (CheckDone sample_verdict # remove1 (read_by d n) cs))"
proof -
  have "accept_manifest (ud_env sample_updater) (sample_config d) FileSeqStore sample_keys (sample_published n) [] 0
      (up_seq (rn_up (sample_run (at_seq q) cs))) = (q', Inr sample_verdict)"
    using sample_accepts [OF assms(3), of d q] assms(2) by (simp add: sample_updater_def sample_run_def boot_updater_def)
  from updater_step.check_write [OF _ this] assms(1) show ?thesis
    by (simp add: sample_run_def read_by_def boot_updater_def)
qed

lemma sample_reads:
  "updater_reachable sample_updater (sample_run (at_seq release_file) [read_by TunExemptDial 9])"
  "updater_reachable sample_updater (sample_run (at_seq release_file) [read_by TunExemptDial 9, read_by (ProxyDial 0) 7])"
proof -
  have boot: "updater_reachable sample_updater (sample_run (at_seq release_file) [])"
    using updater_reachable.boot [of sample_updater "[]" release_file] by (simp add: sample_run_def)
  show "updater_reachable sample_updater (sample_run (at_seq release_file) [read_by TunExemptDial 9])"
    by (rule updater_reachable.step [OF boot sample_read [OF sample_fetched(2)]])
  have "updater_reachable sample_updater (sample_run (at_seq release_file) [read_by (ProxyDial 0) 7])"
    by (rule updater_reachable.step [OF boot sample_read [OF sample_fetched(1)]])
  from updater_reachable.step [OF this sample_read [OF sample_fetched(2)]]
  show "updater_reachable sample_updater (sample_run (at_seq release_file) [read_by TunExemptDial 9, read_by (ProxyDial 0) 7])" .
qed

definition sample_available :: updater where
  "sample_available = (at_seq (floor_file 9 [True, True, True]))\<lparr>up_result := Some sample_verdict, up_announced := ''v1.1.0'',
     up_events := [UpdateAvailable ''v1.1.0'' [] KindInstaller]\<rparr>"

definition sample_loading :: updater where
  "sample_loading = sample_available\<lparr>up_state := updateStateDownloading, up_total := 5\<rparr>"

definition sample_staged :: updater where
  "sample_staged = sample_available\<lparr>up_state := updateStateDownloaded, up_path := ''setup.exe'', up_artifact := Some (0, sample_artifact),
     up_fresh := 1, up_dir := [(''setup.exe'', Some ''setup'')],
     up_events := [UpdateAvailable ''v1.1.0'' [] KindInstaller, UpdateProgress 5 5 updateStateDownloaded]\<rparr>"

lemma sample_settings: "load_settings (ud_dv sample_updater) sample_boot = Inr (DefaultSettings ''linux'')"
  using sample_env_of_boot(2) by (simp add: sample_updater_def store_env_def)

lemma sample_windows: "ud_windows sample_updater"
  by (simp add: sample_updater_def)

lemma sample_landed: "land_check True sample_verdict (at_seq (floor_file 9 [True, True, True])) =
    (sample_available\<lparr>up_events := []\<rparr>, [UpdateAvailable ''v1.1.0'' [] KindInstaller])"
  by (simp add: land_check_def sample_verdict_def boot_updater_def stagedUpdateSupersededLocked_def sample_available_def sample_artifact_def)

lemma sample_started: "start_locked sample_updater True sample_boot sample_available = (sample_loading, Inr (Some (sample_artifact, TunExemptDial)))"
  using sample_settings
    by (simp add: start_locked_def sample_available_def boot_updater_def sample_verdict_def chooseUpdateTransport_def sample_boot_def
       newManager_def DefaultSettings_def sample_updater_def UpdatesDir_def sample_loading_def sample_artifact_def)

lemma sample_transfer: "transfer sample_updater True (\<lambda>_. True) sample_mirrors sample_artifact [] = ([(''setup.exe'', Some ''setup'')], Inr ''setup.exe'')"
  by code_simp

lemma sample_settled: "settle_download True sample_artifact (Inr ''setup.exe'') (sample_loading\<lparr>up_dir := [(''setup.exe'', Some ''setup'')]\<rparr>) =
    (sample_staged\<lparr>up_events := [UpdateAvailable ''v1.1.0'' [] KindInstaller]\<rparr>, [UpdateProgress 5 5 updateStateDownloaded])"
  by (simp add: settle_download_def sample_loading_def sample_available_def boot_updater_def sample_staged_def describes_def sample_verdict_def
      sameArtifact_def EqualFold_def sample_artifact_def)

definition later_run :: "updater \<Rightarrow> transfer_job list \<Rightarrow> apply_job list \<Rightarrow> update_event list \<Rightarrow> updater_run" where
  "later_run u transfers jobs outbox = \<lparr>rn_up = u, rn_checks = [], rn_transfers = transfers, rn_applies = jobs, rn_replies = [],
     rn_outbox = outbox, rn_decided = [''v1.1.0'']\<rparr>"

abbreviation staged_run :: "apply_job list \<Rightarrow> updater \<Rightarrow> updater_run" where "staged_run jobs u \<equiv> later_run u [] jobs []"

lemma sample_broadcast:
  assumes "updater_reachable sample_updater (later_run u [] [] [e])"
  shows "updater_reachable sample_updater (later_run (hub_broadcast (u, [e])) [] [] [])"
  using updater_reachable.step [OF assms updater_step.broadcast [where e = e]] by (simp add: later_run_def)

lemma sample_staged_reachable: "updater_reachable sample_updater (staged_run [] sample_staged)"
proof -
  let ?q = "at_seq (floor_file 9 [True, True, True])"
  let ?d = "[(''setup.exe'', Some ''setup'')]"
  let ?news = "UpdateAvailable ''v1.1.0'' [] KindInstaller"
  have "updater_reachable sample_updater (sample_run ?q [CheckDone sample_verdict])"
    using updater_reachable.step [OF sample_reads(1) sample_write [of TunExemptDial 9 _ release_file]] floor_writes(1) [of 9] by simp
  from updater_reachable.step [OF this updater_step.check_land [where res = sample_verdict and rm = True]] sample_landed
  have "updater_reachable sample_updater (later_run (sample_available\<lparr>up_events := []\<rparr>) [] [] [?news])"
    by (simp add: sample_run_def later_run_def)
  from sample_broadcast [OF this] have "updater_reachable sample_updater (staged_run [] sample_available)"
    by (simp add: hub_broadcast_def) (simp add: sample_available_def)
  from updater_reachable.step [OF this updater_step.start] sample_started
  have "updater_reachable sample_updater (later_run sample_loading [Transferring sample_artifact] [] [])" by (simp add: later_run_def)
  moreover have "up_dir sample_loading = []" by (simp add: sample_loading_def sample_available_def boot_updater_def)
  ultimately have "updater_reachable sample_updater (later_run (sample_loading\<lparr>up_dir := ?d\<rparr>) [Transferred sample_artifact (Inr ''setup.exe'')] [] [])"
    using updater_reachable.step [OF _ updater_step.run, of sample_updater "later_run sample_loading [Transferring sample_artifact] [] []" sample_artifact
        True "\<lambda>_. True" sample_mirrors ?d "Inr ''setup.exe''"] sample_transfer by (simp add: later_run_def)
  from updater_reachable.step [OF this updater_step.settle [where rm = True and a = sample_artifact and r = "Inr ''setup.exe''"]] sample_settled
  have "updater_reachable sample_updater (later_run (sample_staged\<lparr>up_events := [?news]\<rparr>) [] [] [UpdateProgress 5 5 updateStateDownloaded])"
    by (simp add: later_run_def)
  from sample_broadcast [OF this] show ?thesis by (simp add: hub_broadcast_def) (simp add: sample_staged_def)
qed

definition sample_call :: apply_call where
  "sample_call = \<lparr>ac_path = ''setup.exe'', ac_state = updateStateDownloaded, ac_artifact = (0, sample_artifact)\<rparr>"

lemma sample_begun: "verify_begin sample_staged = Inr sample_call"
  by (simp add: verify_begin_def sample_staged_def staged_def sample_call_def)

lemma sample_hashed: "VerifyFile sample_hash True True [(''setup.exe'', Some ''setup'')] ''setup.exe'' sample_artifact = None"
  by code_simp

lemma sample_hashed_reachable: "updater_reachable sample_updater (staged_run [Hashed sample_call None] sample_staged)"
proof -
  from updater_reachable.step [OF sample_staged_reachable updater_step.apply_begin [where c = sample_call]]
  have "updater_reachable sample_updater (staged_run [Snapshot sample_call] sample_staged)" by (simp add: later_run_def sample_begun)
  from updater_reachable.step [OF this updater_step.apply_hash [where c = sample_call and opens = True and reads = True]]
  show ?thesis using sample_hashed by (simp add: later_run_def sample_updater_def sample_call_def sample_staged_def)
qed

lemma sample_settle_apply: "verify_settle True sample_call None sample_staged = (sample_staged\<lparr>up_state := updateStateVerified\<rparr>, None)"
  by (simp add: verify_settle_def sample_call_def sample_staged_def)

section \<open>Properties\<close>

text \<open>
  C25. The download state machine, in every reachable interleaving of checks, downloads, progress
  notes and applies: the state is \<^verbatim>\<open>downloading\<close> exactly while one transfer runs (never two); a staged file
  (\<^verbatim>\<open>downloaded\<close> or \<^verbatim>\<open>verified\<close>) has a plain name and its artifact, is the one the cached verdict describes, and passes
  verification on disk, names that begin with the prefix of temporary files apart. A version is decided for announcement only when it is not the one
  decided last, and each decision is broadcast exactly once or still to be broadcast (broadcasts of overlapping checks may change places).
\<close>

theorem update_machine_invariant:
  assumes "updater_reachable ud s"
  shows "length (rn_transfers s) = (if up_state (rn_up s) = updateStateDownloading then 1 else 0) \<and>
    (staged (rn_up s) \<longrightarrow> (\<exists>n a. up_artifact (rn_up s) = Some (n, a) \<and> plain_name (up_path (rn_up s)) \<and>
       describes (up_result (rn_up s)) a \<and>
       (\<not> HasPrefix (up_path (rn_up s)) tempPrefix \<longrightarrow>
          VerifyFile (ud_sha256 ud) True True (up_dir (rn_up s)) (up_path (rn_up s)) a = None))) \<and>
    distinct_adj (rn_decided s) \<and>
    mset (announcements (up_events (rn_up s))) + mset (announcements (rn_outbox s)) = mset (rn_decided s)"
proof -
  have m: "machine_ok ud (rn_up s) (rn_transfers s)" and a: "announced_ok s"
    using reachable_run_ok [OF assms] by (simp_all add: run_ok_def)
  have "up_state (rn_up s) \<noteq> updateStateDownloading" if "staged (rn_up s)" using that by (auto simp: staged_def)
  with m have "staged (rn_up s) \<Longrightarrow> staged_ok ud (rn_up s)" by (simp add: machine_ok_def)
  moreover have "length (rn_transfers s) = (if up_state (rn_up s) = updateStateDownloading then 1 else 0)"
    using m by (auto simp: machine_ok_def split: if_splits)
  ultimately show ?thesis using a by (auto simp: staged_ok_def good_file_def announced_ok_def)
qed

theorem update_machine_invariant_witness:
  "(\<exists>n a. up_artifact sample_staged = Some (n, a) \<and> plain_name ''setup.exe'' \<and> describes (up_result sample_staged) a) \<and>
     mset (announcements (up_events sample_staged)) = {#''v1.1.0''#}"
  using update_machine_invariant [OF sample_staged_reachable]
  by (simp add: later_run_def staged_def) (simp add: sample_staged_def)

text \<open>
  C36. \<^verbatim>\<open>apply_update\<close>, called while nothing else runs, on any contents of the disk: a path is handed out only on Windows, for the staged file, after its
  contents matched the size and hash it was downloaded for; the state is then \<^verbatim>\<open>verified\<close>. A file that does not
  match is removed (when it can be), the state is reset, and the next call finds nothing to apply.
\<close>

theorem apply_update_sound:
  assumes "applyUpdate ud io rm m u = (u', r)"
  shows "case r of
      Inr st \<Rightarrow> ud_windows ud \<and> staged u \<and> us_setup_path st = up_path u \<and> us_download_state st = updateStateVerified \<and>
        u' = u\<lparr>up_state := updateStateVerified\<rparr> \<and>
        (\<exists>n a data. up_artifact u = Some (n, a) \<and> jget (up_dir u) (up_path u) = Some (Some data) \<and>
           int (length data) = af_size a \<and> EqualFold (ud_sha256 ud data) (af_sha256 a))
    | Inl (VerifyFailed e) \<Rightarrow> (rm \<longrightarrow> jget (up_dir u') (up_path u) = None) \<and> up_state u' = [] \<and>
        (\<forall>io' rm' m'. applyUpdate ud io' rm' m' u' = (u', Inl NothingToApply))
    | Inl (UpdateSettingsFailed e) \<Rightarrow> u' = u\<lparr>up_state := updateStateVerified\<rparr>
    | Inl f \<Rightarrow> u' = u"
proof (cases "verify_begin u")
  case (Inl f)
  then have "f = NothingToApply" by (auto simp: verify_begin_def split: option.splits if_splits)
  with assms Inl show ?thesis by (auto simp: applyUpdate_def verifyDownloadedUpdate_def split: if_splits)
next
  case (Inr c)
  then obtain n a where c: "c = \<lparr>ac_path = up_path u, ac_state = up_state u, ac_artifact = (n, a)\<rparr>"
    and ok: "up_artifact u = Some (n, a)" "staged u"
    by (auto simp: verify_begin_def split: option.splits if_splits)
  show ?thesis
  proof (cases "ud_windows ud")
    case True
    let ?v = "VerifyFile (ud_sha256 ud) (fst io) (snd io) (up_dir u) (up_path u) a"
    have run: "verifyDownloadedUpdate ud io rm m u = (u', r)" using assms True by (simp add: applyUpdate_def)
    show ?thesis
    proof (cases ?v)
      case None
      then obtain data where "jget (up_dir u) (up_path u) = Some (Some data)" "int (length data) = af_size a"
          "EqualFold (ud_sha256 ud data) (af_sha256 a)"
        using VerifyFile_None by blast
      with None run True Inr ok show ?thesis
        by (auto simp: verifyDownloadedUpdate_def verify_settle_def c apply_reply_def updateStatusResponse_def Let_def
            split: sum.splits option.splits)
    next
      case (Some e)
      with run Inr ok have "u' = discardStagedUpdateLocked rm u" "r = Inl (VerifyFailed e)"
        by (simp_all add: verifyDownloadedUpdate_def verify_settle_def c)
      then show ?thesis using True
        by (simp add: discardStagedUpdateLocked_def remove_file_def obj_simps applyUpdate_def verifyDownloadedUpdate_def verify_begin_def)
    qed
  qed (use assms in \<open>auto simp: applyUpdate_def\<close>)
qed

theorem apply_update_sound_witness:
  "\<exists>n a data. up_artifact sample_staged = Some (n, a) \<and> jget (up_dir sample_staged) (up_path sample_staged) = Some (Some data) \<and>
     int (length data) = af_size a \<and> EqualFold (sample_hash data) (af_sha256 a)"
proof -
  note sample_settings
  moreover have "VerifyFile (ud_sha256 sample_updater) True True (up_dir sample_staged) (ac_path sample_call) (snd (ac_artifact sample_call)) = None"
    using sample_hashed by (simp add: sample_updater_def sample_staged_def sample_call_def)
  ultimately obtain u' st where "applyUpdate sample_updater (True, True) True sample_boot sample_staged = (u', Inr st)"
    by (simp add: applyUpdate_def sample_windows verifyDownloadedUpdate_def sample_begun sample_settle_apply apply_reply_def updateStatusResponse_def Let_def)
  from apply_update_sound [OF this] show ?thesis by (auto simp: sample_updater_def)
qed

text \<open>
  The same when calls interleave: when an \<^verbatim>\<open>apply_update\<close> passes its final comparison, the file it snapshotted is still the
  staged one, the cached verdict still describes it, and it passes verification on disk at that moment.
\<close>

theorem apply_interleaved_sound:
  assumes "updater_reachable ud s" and "Hashed c v \<in> set (rn_applies s)" and "verify_settle rm c v (rn_up s) = (u', None)"
  shows "v = None \<and> up_state u' = updateStateVerified \<and> up_path u' = ac_path c \<and>
    (\<exists>a. up_artifact u' = Some (fst (ac_artifact c), a) \<and> describes (up_result u') a \<and>
      (\<not> HasPrefix (ac_path c) tempPrefix \<longrightarrow> VerifyFile (ud_sha256 ud) True True (up_dir u') (ac_path c) a = None))"
proof -
  have "run_ok ud s" by (rule reachable_run_ok [OF assms(1)])
  then have "apply_ok (Hashed c v)" and m: "machine_ok ud (rn_up s) (rn_transfers s)" using assms(2) unfolding run_ok_def by blast+
  then have "staged (rn_up s)" "up_state (rn_up s) \<noteq> updateStateDownloading" and v: "v = None" "u' = (rn_up s)\<lparr>up_state := updateStateVerified\<rparr>"
      "up_path (rn_up s) = ac_path c" "map_option fst (up_artifact (rn_up s)) = Some (fst (ac_artifact c))"
    using assms(3) by (auto simp: verify_settle_def staged_def split: if_splits option.splits)
  with m obtain n a where "up_artifact (rn_up s) = Some (n, a)" "describes (up_result (rn_up s)) a"
      "good_file ud (up_dir (rn_up s)) (up_path (rn_up s)) a"
    by (auto simp: machine_ok_def staged_ok_def)
  with v show ?thesis by (auto simp: good_file_def)
qed

theorem apply_interleaved_sound_witness:
  "\<exists>a. up_artifact sample_staged = Some (0, a) \<and> VerifyFile sample_hash True True (up_dir sample_staged) ''setup.exe'' a = None"
proof -
  have "\<not> HasPrefix ''setup.exe'' tempPrefix" by code_simp
  moreover have "verify_settle True sample_call None (rn_up (staged_run [Hashed sample_call None] sample_staged)) =
      (sample_staged\<lparr>up_state := updateStateVerified\<rparr>, None)"
    by (simp add: later_run_def sample_settle_apply)
  ultimately show ?thesis
    using apply_interleaved_sound [OF sample_hashed_reachable, of sample_call None True "sample_staged\<lparr>up_state := updateStateVerified\<rparr>"]
    by (simp add: later_run_def) (auto simp: sample_call_def sample_updater_def)
qed

text \<open>
  Whatever the settings forbid is never used: a check or a download goes through the tunnel only
  when \<^verbatim>\<open>update_via_tunnel\<close> is set and a session is up, and past it only when \<^verbatim>\<open>update_via_direct\<close> is set; with neither,
  no automatic check, forced check or download starts, and without \<^verbatim>\<open>auto_update\<close> no automatic one does.
\<close>

theorem transport_follows_settings:
  assumes "load_settings (ud_dv ud) m = Inr st"
  shows "(\<forall>tr. fst (chooseUpdateTransport st (mg_sess m)) = Some tr \<longrightarrow>
        (case tr of ProxyDial k \<Rightarrow> st_update_via_tunnel st \<and> mg_sess m = Some k | TunExemptDial \<Rightarrow> st_update_via_direct st | SubstituteDial \<Rightarrow> False)) \<and>
    (\<not> st_update_via_direct st \<and> (\<not> st_update_via_tunnel st \<or> mg_sess m = None) \<longrightarrow>
        tryUpdateCheck ud now clock rm m u = (u, False) \<and> forceUpdateCheck ud now clock rm m u = u \<and>
        fst (start_locked ud dir_ok m u) = u \<and> (\<forall>job. snd (start_locked ud dir_ok m u) \<noteq> Inr (Some job))) \<and>
    (\<not> st_auto_update st \<longrightarrow> tryUpdateCheck ud now clock rm m u = (u, False))"
  using assms
  by (auto simp: chooseUpdateTransport_def tryUpdateCheck_def forceUpdateCheck_def resolveUpdateTransport_def start_locked_def
      split: option.splits update_dialer.splits if_splits)

theorem transport_follows_settings_witness:
  "fst (chooseUpdateTransport (DefaultSettings ''linux'') None) = Some TunExemptDial \<and> st_update_via_direct (DefaultSettings ''linux'')"
proof -
  note sample_settings
  moreover have "fst (chooseUpdateTransport (DefaultSettings ''linux'') (mg_sess sample_boot)) = Some TunExemptDial" "mg_sess sample_boot = None"
    by (simp_all add: chooseUpdateTransport_def DefaultSettings_def sample_boot_def newManager_def)
  ultimately show ?thesis using transport_follows_settings [of sample_updater sample_boot "DefaultSettings ''linux''"] by auto
qed

text \<open>
  The cadence of automatic checks: the jittered interval always lies between 90% and 110% of a day, and an
  automatic check runs only when none has run yet or at least 90% of a day has passed since the last attempt of any kind,
  forced ones included.
\<close>

theorem auto_check_spacing:
  assumes rand: "\<forall>n > 0. 0 \<le> rand n \<and> rand n < n"
    and due: "updateCheckInterval * 9 \<le> due * 10 \<and> due * 10 < updateCheckInterval * 11"
    and run: "update_attempt ud rand since now clock rm m (due, u) = (due', u')"
  shows "updateCheckInterval * 9 \<le> due' * 10 \<and> due' * 10 < updateCheckInterval * 11 \<and>
    (u' = u \<or> up_last_attempt u = zero_time \<or> updateCheckInterval * 9 \<le> (since - up_last_attempt u) * 10)"
proof -
  have "updateCheckInterval div 5 > 0" by (simp add: updateCheckInterval_def)
  with rand have r: "0 \<le> rand (updateCheckInterval div 5)" "rand (updateCheckInterval div 5) < updateCheckInterval div 5" by simp_all
  then have j: "updateCheckInterval * 9 \<le> jitterInterval rand updateCheckInterval * 10"
      "jitterInterval rand updateCheckInterval * 10 < updateCheckInterval * 11"
    by (simp_all add: jitterInterval_def updateCheckInterval_def)
  have "due \<le> since - up_last_attempt u" if "\<not> time_Sub since (up_last_attempt u) < due" using that by (simp add: time_Sub_def)
  with run j due show ?thesis by (auto simp: update_attempt_def split: if_splits prod.splits)
qed

theorem auto_check_spacing_witness:
  "updateCheckInterval * 9 \<le> fst (update_attempt sample_updater (\<lambda>n. n - 1) 0 0 (\<lambda>_. 0) True sample_boot (updateCheckInterval, sample_staged)) * 10"
proof -
  obtain due' u' where run: "update_attempt sample_updater (\<lambda>n. n - 1) 0 0 (\<lambda>_. 0) True sample_boot (updateCheckInterval, sample_staged) = (due', u')"
    by fastforce
  have "\<forall>n > 0. (0::int) \<le> n - 1 \<and> n - 1 < n" by simp
  moreover have "updateCheckInterval * 9 \<le> updateCheckInterval * 10 \<and> updateCheckInterval * 10 < updateCheckInterval * 11"
    by (simp add: updateCheckInterval_def)
  ultimately show ?thesis using auto_check_spacing [OF _ _ run] by (simp add: run)
qed

text \<open>The floor and the checks between their reads and their writes stay at or above \<open>n\<close>.\<close>

fun job_above :: "u64 \<Rightarrow> check_job \<Rightarrow> bool" where
  "job_above n (CheckRead cfg keys v revoked seen) = (n \<le> mf_seq (vf_manifest v))"
| "job_above n (CheckDone r) = True"

definition floor_ok :: "u64 \<Rightarrow> updater_run \<Rightarrow> bool" where
  "floor_ok n s = ((\<exists>f. LastSeenSeq (up_seq (rn_up s)) = Some f \<and> n \<le> f) \<and> (\<forall>j \<in> set (rn_checks s). job_above n j))"

lemma sections_keep_seq:
  "up_seq (applyUpdateURLOverride url_parse raw u) = up_seq u"
  "up_seq (seedUpdateAttemptClock ud now u) = up_seq u"
  "LastSeenSeq (up_seq (noteUpdateAttempt ud now u)) = LastSeenSeq (up_seq u)"
  "up_seq (hub_broadcast (u, evs)) = up_seq u"
  "land_check rm res u = (u', evs) \<Longrightarrow> up_seq u' = up_seq u"
  "note_locked now n u = (u', evs) \<Longrightarrow> up_seq u' = up_seq u"
  "settle_download rm a r u = (u', evs) \<Longrightarrow> up_seq u' = up_seq u"
  "start_locked ud dir_ok m u = (u', j) \<Longrightarrow> up_seq u' = up_seq u"
  "verify_settle rm c v u = (u', f) \<Longrightarrow> up_seq u' = up_seq u"
  using SetLastAttempt_keeps [of "ud_rfc3339 ud" now "up_seq u"]
  by (auto simp: applyUpdateURLOverride_def seedUpdateAttemptClock_def noteUpdateAttempt_def hub_broadcast_def land_check_def note_locked_def
      prod_eq_iff settle_download_def start_locked_def verify_settle_def discardStagedUpdateLocked_def remove_file_def Let_def
      split: sum.splits option.splits if_splits prod.splits)

lemma floor_step:
  assumes "updater_step ud s s'" and "floor_ok n s"
  shows "floor_ok n s'"
  using assms
proof (cases rule: updater_step.cases)
  case (check_read cfg tr clock v keys revoked seen)
  then have "LastSeenSeq (up_seq (rn_up s)) = Some seen" "seen \<le> mf_seq (vf_manifest v)" by (auto simp: read_gates_Inr FileSeqStore_def)
  with check_read assms(2) show ?thesis by (auto simp: floor_ok_def)
next
  case (check_write cfg keys v revoked seen seq' r)
  then have "n \<le> mf_seq (vf_manifest v)" using assms(2) by (fastforce simp: floor_ok_def)
  moreover have "LastSeenSeq seq' = LastSeenSeq (up_seq (rn_up s)) \<or> LastSeenSeq seq' = Some (mf_seq (vf_manifest v))"
    using file_store.accept_last [OF check_write(3)] by (simp add: FileSeqStore_def)
  ultimately show ?thesis using check_write assms(2) by (auto simp: floor_ok_def split: sum.splits dest: notin_set_remove1)
next
  case (check_land res rm u' evs)
  then show ?thesis using assms(2) by (auto simp: floor_ok_def sections_keep_seq(5) dest: notin_set_remove1)
qed (use assms(2) in \<open>auto simp: floor_ok_def sections_keep_seq\<close>)

text \<open>
  C21. No replay of an older manifest, overlapping checks included. Once a check that no other overlaps (none is between its reads of the trust state and its
  writes when it is done) has accepted a manifest, then in whatever way checks, downloads and applies interleave from there on, the recorded floor never
  falls below that manifest's sequence number, and every manifest that passes the gates has a sequence number at least as high.
\<close>

theorem accepted_floor_holds:
  assumes "Check (ud_env ud) cfg q = (up_seq (rn_up s), Inr r)" and "uc_store cfg = Some FileSeqStore" and "ur_latest_version r \<noteq> []"
    and "\<And>cfg' keys v' revoked seen. CheckRead cfg' keys v' revoked seen \<notin> set (rn_checks s)"
    and "(updater_step ud)\<^sup>*\<^sup>* s s'"
  shows "\<exists>v f. fetched (ud_env ud) cfg = Some v \<and> LastSeenSeq (up_seq (rn_up s')) = Some f \<and> mf_seq (vf_manifest v) \<le> f \<and>
    (\<forall>cfg' keys v' revoked seen. CheckRead cfg' keys v' revoked seen \<in> set (rn_checks s') \<longrightarrow> mf_seq (vf_manifest v) \<le> mf_seq (vf_manifest v'))"
proof -
  obtain v where v: "fetched (ud_env ud) cfg = Some v" "LastSeenSeq (up_seq (rn_up s)) = Some (mf_seq (vf_manifest v))"
    using Check_announces [OF assms(1,2)] assms(3) by metis
  have "job_above (mf_seq (vf_manifest v)) j" if "j \<in> set (rn_checks s)" for j by (cases j) (use that assms(4) in auto)
  with v have "floor_ok (mf_seq (vf_manifest v)) s" by (simp add: floor_ok_def)
  with assms(5) have "floor_ok (mf_seq (vf_manifest v)) s'" by (induction rule: rtranclp_induct) (auto intro: floor_step)
  with v(1) show ?thesis by (fastforce simp: floor_ok_def)
qed

lemma sample_checked:
  "Check sample_release (sample_config TunExemptDial) release_file = (floor_file 9 [True, True, True], Inr sample_verdict)"
proof -
  have "fetchManifest (the (uc_transport (sample_config TunExemptDial))) 0 (uc_urls (sample_config TunExemptDial)) = Inr (''9'', ''9'')"
    by (simp add: sample_config_def check_config_def sample_updater_def manifestURLs_def boot_updater_def updateManifestURLs_def fetchOne_eq
        maxManifestSize_def maxSignatureSize_def)
  moreover have "verifyManifest sample_release sample_keys ''9'' ''9'' = Inr (sample_published 9)"
    using sample_verifies [of "''9''" 9] sample_parse sample_comment by simp
  moreover have "read_gates (sample_config TunExemptDial) FileSeqStore (sample_published 9) release_file = Inr ([], 0)"
    by (simp add: read_gates_Inr FileSeqStore_def floor_reading) (simp add: sample_published_def)
  moreover have "accept_manifest sample_release (sample_config TunExemptDial) FileSeqStore sample_keys (sample_published 9) [] 0 release_file =
      (floor_file 9 [True, True, True], Inr sample_verdict)"
    by (subst sample_accepts) (simp_all add: floor_writes)
  moreover have "uc_urls (sample_config TunExemptDial) \<noteq> []" "\<exists>c. uc_transport (sample_config TunExemptDial) = Some c"
      "uc_store (sample_config TunExemptDial) = Some FileSeqStore"
    by (simp_all add: sample_config_def check_config_def manifestURLs_def updateManifestURLs_def)
  ultimately show ?thesis by (auto simp: Check_def check_gates_def sample_trusted)
qed

text \<open>After a first check accepted number 9, a second one, in flight, has read it again.\<close>

theorem accepted_floor_holds_witness:
  "\<exists>s s' f v. (updater_step sample_updater)\<^sup>*\<^sup>* s s' \<and> CheckRead (sample_config TunExemptDial) sample_keys v [] 9 \<in> set (rn_checks s') \<and>
     LastSeenSeq (up_seq (rn_up s')) = Some f \<and> 9 \<le> f \<and> 9 \<le> mf_seq (vf_manifest v)"
proof -
  let ?u = "at_seq (floor_file 9 [True, True, True])"
  let ?job = "CheckRead (sample_config TunExemptDial) sample_keys (sample_published 9) [] 9"
  have cfg: "sample_config TunExemptDial = check_config sample_updater TunExemptDial (\<lambda>_. 0) ?u"
    by (simp add: sample_config_def check_config_def manifestURLs_def boot_updater_def)
  have env: "ud_env sample_updater = sample_release" by (simp add: sample_updater_def)
  have "RevokedKeyIDs (floor_file 9 [True, True, True]) = Some []"
    by (simp add: RevokedKeyIDs_def seq_load_def floor_file_def read_file_def decoding_def dec_enc_seq_state zero_seq_state_def)
  then have "read_gates (sample_config TunExemptDial) FileSeqStore (sample_published 9) (floor_file 9 [True, True, True]) = Inr ([], 9)"
    by (simp add: read_gates_Inr FileSeqStore_def floor_reading) (simp add: sample_published_def)
  then have "updater_step sample_updater (sample_run ?u []) ((sample_run ?u [])\<lparr>rn_checks := [?job]\<rparr>)"
    using updater_step.check_read [of "sample_config TunExemptDial" sample_updater TunExemptDial "\<lambda>_. 0" "sample_run ?u []" "sample_published 9" sample_keys "[]" 9]
      sample_fetched(2) sample_trusted cfg env by (simp add: sample_run_def boot_updater_def)
  then have run: "(updater_step sample_updater)\<^sup>*\<^sup>* (sample_run ?u []) (sample_run ?u [?job])" by (simp add: sample_run_def)
  have first: "Check (ud_env sample_updater) (sample_config TunExemptDial) release_file = (up_seq (rn_up (sample_run ?u [])), Inr sample_verdict)"
    using sample_checked env by (simp add: sample_run_def boot_updater_def)
  obtain v f where "fetched (ud_env sample_updater) (sample_config TunExemptDial) = Some v" "LastSeenSeq (up_seq (rn_up (sample_run ?u [?job]))) = Some f"
      "mf_seq (vf_manifest v) \<le> f" "mf_seq (vf_manifest v) \<le> mf_seq (vf_manifest (sample_published 9))"
    using accepted_floor_holds [OF first _ _ _ run] by (auto simp: sample_run_def sample_config_def check_config_def sample_verdict_def)
  moreover have "mf_seq (vf_manifest (sample_published 9)) = 9" by (simp add: sample_published_def)
  moreover have "v = sample_published 9" using calculation(1) sample_fetched(2) env by simp
  ultimately show ?thesis using run
    by (intro exI [of _ "sample_run ?u []"] exI [of _ "sample_run ?u [?job]"] exI [of _ f] exI [of _ "sample_published 9"]) (simp add: sample_run_def)
qed

text \<open>
  Two checks at once can lower the anti-downgrade floor: both read floor 0, the one with sequence number 9 writes
  it, then the one with 7 writes 7, because the comparison with the floor happened before the other's write.
\<close>

theorem concurrent_checks_lower_floor:
  "\<exists>s s'. updater_reachable sample_updater s \<and> updater_step sample_updater s s' \<and>
     LastSeenSeq (up_seq (rn_up s)) = Some 9 \<and> LastSeenSeq (up_seq (rn_up s')) = Some 7"
proof -
  let ?s = "sample_run (at_seq (floor_file 9 [True, True, True])) [CheckDone sample_verdict, read_by (ProxyDial 0) 7]"
  let ?s' = "sample_run (at_seq (floor_file 7 [True, True])) (CheckDone sample_verdict # remove1 (read_by (ProxyDial 0) 7) [CheckDone sample_verdict, read_by (ProxyDial 0) 7])"
  have "updater_reachable sample_updater ?s"
    using updater_reachable.step [OF sample_reads(2) sample_write [of TunExemptDial 9 _ release_file]] floor_writes(1) [of 9] by simp
  moreover have "updater_step sample_updater ?s ?s'"
    by (rule sample_write) (simp_all add: floor_writes)
  moreover have "LastSeenSeq (up_seq (rn_up ?s)) = Some 9" "LastSeenSeq (up_seq (rn_up ?s')) = Some 7"
    by (simp_all add: sample_run_def boot_updater_def floor_reading)
  ultimately show ?thesis by blast
qed

text \<open>
  A successful \<^verbatim>\<open>apply_update\<close> can hand out the path of a file that is gone: a check that lands between the final comparison and the
  reply discards the staged file, and the reply still carries its path, with an empty download state.
\<close>

theorem apply_reply_after_discard:
  "\<exists>s st. updater_reachable sample_updater s \<and> Inr st \<in> set (rn_replies s) \<and> us_setup_path st = ''setup.exe'' \<and>
     us_download_state st = [] \<and> jget (up_dir (rn_up s)) ''setup.exe'' = None"
proof -
  let ?v = "sample_staged\<lparr>up_state := updateStateVerified\<rparr>"
  let ?u = "fst (land_check True (blank_result 0 []) ?v)"
  from updater_reachable.step [OF sample_hashed_reachable updater_step.apply_settle [where c = sample_call and v = None and rm = True]]
  have "updater_reachable sample_updater (staged_run [Approved sample_call] ?v)" by (simp add: later_run_def sample_settle_apply)
  from updater_reachable.step [OF this updater_step.check_soft [where t = 0 and key = "[]"]]
  have "updater_reachable sample_updater ((staged_run [Approved sample_call] ?v)\<lparr>rn_checks := [CheckDone (blank_result 0 [])]\<rparr>)"
    by (simp add: later_run_def)
  moreover have "land_check True (blank_result 0 []) ?v = (?u, [])" by (simp add: land_check_def Let_def)
  ultimately have "updater_reachable sample_updater (staged_run [Approved sample_call] ?u)"
    using updater_reachable.step [OF _ updater_step.check_land [where res = "blank_result 0 []" and rm = True]] by (fastforce simp: later_run_def)
  from updater_reachable.step [OF this updater_step.apply_reply [where c = sample_call and m = sample_boot]]
  have r: "updater_reachable sample_updater ((staged_run [] ?u)\<lparr>rn_replies := [apply_reply sample_updater sample_boot sample_call ?u]\<rparr>)"
    by (simp add: later_run_def)
  note sample_settings
  moreover have "up_state ?u = []" "jget (up_dir ?u) ''setup.exe'' = None"
    by (simp_all add: land_check_def Let_def stagedUpdateSupersededLocked_def sample_staged_def staged_def describes_def
        discardStagedUpdateLocked_def remove_file_def obj_simps blank_result_def)
  ultimately obtain st where "apply_reply sample_updater sample_boot sample_call ?u = Inr st" "us_setup_path st = ''setup.exe''" "us_download_state st = []"
    by (simp add: apply_reply_def updateStatusResponse_def Let_def sample_call_def split: option.splits)
  with r show ?thesis using \<open>jget (up_dir ?u) ''setup.exe'' = None\<close> by (force simp: later_run_def)
qed

end
