(* ===== verification/Engine_Probe.thy ===== *)
theory Engine_Probe
  imports Engine_Plan Sub_Links
begin

text \<open>
  The read-only network probes (\<^verbatim>\<open>daemon-go/internal/engine\<close>: \<^verbatim>\<open>doctor.go\<close>, \<^verbatim>\<open>diagnose.go\<close>, \<^verbatim>\<open>validate.go\<close>,
  \<^verbatim>\<open>quality.go\<close>, \<^verbatim>\<open>netreport.go\<close>, \<^verbatim>\<open>doctor_forwarding*.go\<close>, the probe loops of \<^verbatim>\<open>instrument.go\<close> and \<^verbatim>\<open>probe_singbox.go\<close>).

  What the network, the files of the host and the two cores answer are arguments; an error is its text. Probes that the code
  runs concurrently are independent and land by index, so they are a \<open>map\<close> here. Timeouts are answers like any other.

  Main results: a diagnosis names the first stage that failed; the bottleneck of a slow connection is its slowest anomalous stage; the
  padded fetch always crosses the freeze threshold, and its read loop ends.
\<close>

section \<open>Connectivity\<close>

text \<open>\<open>None\<close> is a connection, a handshake or a query that succeeded.\<close>

record probe_net =
  pn_dial :: "string \<Rightarrow> string \<Rightarrow> string option"
  pn_families :: "string \<Rightarrow> string + bool list"
  pn_udp_query :: "string \<Rightarrow> string \<Rightarrow> string option"
  pn_handshake :: "string \<Rightarrow> string \<Rightarrow> string option"

definition doctorV4Targets :: "string list" where
  "doctorV4Targets = [''1.1.1.1:443'', ''8.8.8.8:443'']"

definition doctorV6Targets :: "string list" where
  "doctorV6Targets = [''[2606:4700:4700::1111]:443'', ''[2001:4860:4860::8888]:443'']"

abbreviation doctorResolveHost :: string where "doctorResolveHost \<equiv> ''cloudflare.com''"

record internet_report =
  ir_v4 :: bool
  ir_v6 :: bool
  ir_v4_detail :: string
  ir_v6_detail :: string
  ir_resolver_v4 :: bool
  ir_resolver_v6 :: bool
  ir_resolve_err :: string

fun dialFamily :: "probe_net \<Rightarrow> string \<Rightarrow> string list \<Rightarrow> string option \<Rightarrow> bool \<times> string" where
  "dialFamily pn network [] lastErr = (False, case lastErr of Some e \<Rightarrow> e | None \<Rightarrow> ''no probe targets'')"
| "dialFamily pn network (addr # addrs) lastErr = (case pn_dial pn network addr of
     None \<Rightarrow> (True, [])
   | Some e \<Rightarrow> dialFamily pn network addrs (Some e))"

text \<open>The lookup returns, per address, whether it is an IPv4 one.\<close>

definition resolverFamilies :: "probe_net \<Rightarrow> string \<Rightarrow> bool \<times> bool \<times> string" where
  "resolverFamilies pn host = (case pn_families pn host of
     Inl e \<Rightarrow> (False, False, e)
   | Inr ips \<Rightarrow> (True \<in> set ips, False \<in> set ips, []))"

definition ProbeInternet :: "probe_net \<Rightarrow> internet_report" where
  "ProbeInternet pn =
    (let (v4, d4) = dialFamily pn ''tcp4'' doctorV4Targets None; (v6, d6) = dialFamily pn ''tcp6'' doctorV6Targets None;
         (r4, r6, e) = resolverFamilies pn doctorResolveHost
     in \<lparr>ir_v4 = v4, ir_v6 = v6, ir_v4_detail = d4, ir_v6_detail = d6, ir_resolver_v4 = r4, ir_resolver_v6 = r6, ir_resolve_err = e\<rparr>)"

section \<open>Resolvers\<close>

definition resolverHostnames :: "(string \<times> string) list" where
  "resolverHostnames =
    [(''8.8.8.8'', ''dns.google''), (''8.8.4.4'', ''dns.google''), (''2001:4860:4860::8888'', ''dns.google''), (''2001:4860:4860::8844'', ''dns.google''),
     (''1.1.1.1'', ''cloudflare-dns.com''), (''1.0.0.1'', ''cloudflare-dns.com''), (''2606:4700:4700::1111'', ''cloudflare-dns.com''),
     (''2606:4700:4700::1001'', ''cloudflare-dns.com''), (''9.9.9.9'', ''dns.quad9.net''), (''149.112.112.112'', ''dns.quad9.net'')]"

definition doctorResolverCandidates :: "dns_server list" where
  "doctorResolverCandidates = map (\<lambda>a. \<lparr>ds_type = ''tls'', ds_address = a\<rparr>) [''1.1.1.1'', ''8.8.8.8'', ''9.9.9.9'']"

record upstream_probe =
  dp_type :: string
  dp_address :: string
  dp_reachable :: bool
  dp_detail :: string

definition probeUDPResolver :: "probe_net \<Rightarrow> string \<Rightarrow> bool \<times> string" where
  "probeUDPResolver pn ip = (case pn_udp_query pn (JoinHostPort ip ''53'') doctorResolveHost of
     Some e \<Rightarrow> (False, e) | None \<Rightarrow> (True, []))"

definition probeTLSResolver :: "probe_net \<Rightarrow> string \<Rightarrow> nat \<Rightarrow> bool \<times> string" where
  "probeTLSResolver pn ip port = (let addr = JoinHostPort ip (FormatUint 10 port) in
     case pn_dial pn ''tcp'' addr of
       Some e \<Rightarrow> (False, e)
     | None \<Rightarrow> (let known = map_of resolverHostnames ip in
         case pn_handshake pn addr (case known of Some h \<Rightarrow> h | None \<Rightarrow> []) of
           Some e \<Rightarrow> (False, e)
         | None \<Rightarrow> (True, case known of Some h \<Rightarrow> ''verified '' @ h | None \<Rightarrow> ''reachable (cert not verified)'')))"

definition ProbeDNSUpstream :: "probe_net \<Rightarrow> string \<Rightarrow> string \<Rightarrow> upstream_probe" where
  "ProbeDNSUpstream pn typ address =
    (let (ok, detail) = (if typ = ''udp'' then probeUDPResolver pn address
                         else if typ = ''tls'' then probeTLSResolver pn address 853
                         else if typ = ''https'' then probeTLSResolver pn address 443
                         else (False, ''unknown upstream type '' @ typ))
     in \<lparr>dp_type = typ, dp_address = address, dp_reachable = ok, dp_detail = detail\<rparr>)"

definition ProbeResolvers :: "probe_net \<Rightarrow> dns_server list \<Rightarrow> upstream_probe list" where
  "ProbeResolvers pn servers = map (\<lambda>s. ProbeDNSUpstream pn (ds_type s) (ds_address s)) servers"

definition FirstReachableCandidate :: "probe_net \<Rightarrow> string list \<Rightarrow> dns_server option" where
  "FirstReachableCandidate pn exclude =
     find (\<lambda>c. dp_reachable (ProbeDNSUpstream pn (ds_type c) (ds_address c)))
       (filter (\<lambda>c. ds_address c \<notin> set exclude) doctorResolverCandidates)"

section \<open>The padded fetch\<close>

definition camouflageDownloadTarget :: nat where "camouflageDownloadTarget = 32 * 1024"
definition camouflageFreezeFloor :: nat where "camouflageFreezeFloor = 8 * 1024"
definition camouflageUploadPad :: nat where "camouflageUploadPad = 20 * 1024"
abbreviation padChunk :: nat where "padChunk \<equiv> 2000"

datatype io_end = IoTimeout | IoEOF | IoError string

fun io_text :: "io_end \<Rightarrow> string" where
  "io_text IoTimeout = ''i/o timeout''"
| "io_text IoEOF = ''EOF''"
| "io_text (IoError e) = e"

text \<open>A connection after its handshake: the outcome of writing the request, the status line, and the k-th read of the body (bytes and error).\<close>

record http_conn =
  hc_write :: "io_end option"
  hc_line :: "io_end + string"
  hc_reads :: "nat \<Rightarrow> nat \<times> io_end option"

definition crlf :: string where "crlf = [CHR 0x0D, CHR 0x0A]"

definition pad_headers :: string where
  "pad_headers = concat (map (\<lambda>i. ''X-Pad-'' @ FormatUint 10 i @ '': '' @ replicate padChunk (CHR ''A'') @ crlf)
     [0..<(camouflageUploadPad + padChunk - 1) div padChunk])"

definition fetch_request :: "string \<Rightarrow> string \<Rightarrow> string" where
  "fetch_request host path = ''GET '' @ path @ '' HTTP/1.1'' @ crlf @ ''Host: '' @ host @ crlf @ ''User-Agent: Mozilla/5.0'' @ crlf @
     ''Accept: */*'' @ crlf @ ''Connection: close'' @ crlf @ pad_headers @ crlf"

definition parseHTTPStatus :: "string \<Rightarrow> int" where
  "parseHTTPStatus line = (case Fields line of
     a # b # _ \<Rightarrow> (case Atoi b of None \<Rightarrow> 0 | Some code \<Rightarrow> code)
   | _ \<Rightarrow> 0)"

text \<open>The read loop: \<open>None\<close> would be a loop that never ends. \<open>n\<close> counts the bytes in both directions.\<close>

partial_function (option) fetch_body ::
  "(nat \<Rightarrow> nat \<times> io_end option) \<Rightarrow> nat \<Rightarrow> nat \<Rightarrow> nat \<Rightarrow> (nat \<times> bool \<times> string) option" where
  "fetch_body reads target k n =
    (if n < target then
       (case reads k of (m, e) \<Rightarrow> (case e of
          None \<Rightarrow> fetch_body reads target (Suc k) (n + m)
        | Some IoEOF \<Rightarrow> Some (n + m, False, [])
        | Some IoTimeout \<Rightarrow>
            if camouflageFreezeFloor \<le> n + m then Some (n + m, True, []) else Some (n + m, False, ''read: '' @ io_text IoTimeout)
        | Some (IoError x) \<Rightarrow> Some (n + m, False, ''read: '' @ x)))
     else Some (n, False, []))"

definition fetchHTTP :: "http_conn \<Rightarrow> string \<Rightarrow> string \<Rightarrow> (int \<times> nat \<times> bool \<times> string) option" where
  "fetchHTTP c host0 path =
    (let host = (if host0 = [] then ''example.com'' else host0); uploaded = length (fetch_request host path) in
     case hc_write c of
       Some IoTimeout \<Rightarrow> Some (0, uploaded, True, [])
     | Some e \<Rightarrow> Some (0, 0, False, ''request: '' @ io_text e)
     | None \<Rightarrow> (case hc_line c of
         Inl IoTimeout \<Rightarrow> Some (0, uploaded, True, [])
       | Inl e \<Rightarrow> Some (0, uploaded, False, ''response: '' @ io_text e)
       | Inr line \<Rightarrow> map_option (\<lambda>(n, frozen, err). (parseHTTPStatus line, n, frozen, err))
           (fetch_body (hc_reads c) (uploaded + camouflageDownloadTarget) 0 uploaded)))"

text \<open>How a front answers: to the dial, to the handshake, and then as a connection.\<close>

record front =
  fo_dial :: "string option"
  fo_handshake :: "string option"
  fo_conn :: http_conn

record camouflage_report =
  cr_address :: string
  cr_sni :: string
  cr_tcp_ok :: bool
  cr_tls_ok :: bool
  cr_http_status :: int
  cr_bytes_read :: nat
  cr_frozen :: bool
  cr_err :: string

definition dialVerifyFetch :: "front \<Rightarrow> string \<Rightarrow> string \<Rightarrow> (bool \<times> bool \<times> int \<times> nat \<times> bool \<times> string) option" where
  "dialVerifyFetch f host path = (case fo_dial f of
     Some e \<Rightarrow> Some (False, False, 0, 0, False, e)
   | None \<Rightarrow> (case fo_handshake f of
       Some e \<Rightarrow> Some (True, False, 0, 0, False, e)
     | None \<Rightarrow> map_option (\<lambda>r. (True, True, r)) (fetchHTTP (fo_conn f) host path)))"

definition HasCamouflage :: "profile option \<Rightarrow> bool" where
  "HasCamouflage p = (case p of None \<Rightarrow> False | Some q \<Rightarrow> CamouflageSNI q \<noteq> None \<and> pa_network (profile_accessors q) = ''tcp'')"

definition server_endpoint :: "profile \<Rightarrow> string" where
  "server_endpoint p = JoinHostPort (ServerAddress p) (FormatUint 10 (unat (ServerPort p)))"

text \<open>\<open>fronts addr sni\<close> is what a dial to \<open>addr\<close> with the server name \<open>sni\<close> meets.\<close>

definition ProbeCamouflage :: "(string \<Rightarrow> string \<Rightarrow> front) \<Rightarrow> profile \<Rightarrow> camouflage_report option" where
  "ProbeCamouflage fronts p =
    (let sni = (case CamouflageSNI p of None \<Rightarrow> [] | Some s \<Rightarrow> s); addr = server_endpoint p in
     map_option (\<lambda>(tcp, tls, status, n, frozen, err). \<lparr>cr_address = addr, cr_sni = sni, cr_tcp_ok = tcp, cr_tls_ok = tls,
         cr_http_status = status, cr_bytes_read = n, cr_frozen = frozen, cr_err = err\<rparr>)
       (dialVerifyFetch (fronts addr sni) sni ''/''))"

section \<open>Latency probes and the staged diagnosis\<close>

datatype probe_error =
    CompileErr plan_error
  | OutboundErr proxy_error
  | CoreErr string
  | WarmupErr string
  | MeasureErr string

text \<open>
  What an ephemeral core does: whether it can be built and started, the k-th GET through it, whether the deadline had passed after the
  k-th try, and the time of the measured round trip in milliseconds.
\<close>

record core_probe =
  cp_start :: "string option"
  cp_get :: "nat \<Rightarrow> string option"
  cp_expired :: "nat \<Rightarrow> bool"
  cp_elapsed :: int

abbreviation warmupTries :: nat where "warmupTries \<equiv> 2"

text \<open>The warm-up loop: the number of GETs made, and the last error.\<close>

fun warm_up :: "core_probe \<Rightarrow> nat \<Rightarrow> nat \<Rightarrow> nat \<times> string option" where
  "warm_up cp k 0 = (k, None)"
| "warm_up cp k (Suc left) = (case cp_get cp k of
     None \<Rightarrow> (Suc k, None)
   | Some e \<Rightarrow> if cp_expired cp k \<or> left = 0 then (Suc k, Some e) else warm_up cp (Suc k) left)"

definition probeThrough :: "core_probe \<Rightarrow> probe_error + int" where
  "probeThrough cp = (case warm_up cp 0 warmupTries of
     (k, Some e) \<Rightarrow> Inl (WarmupErr e)
   | (k, None) \<Rightarrow> (case cp_get cp k of Some e \<Rightarrow> Inl (MeasureErr e) | None \<Rightarrow> Inr (cp_elapsed cp)))"

text \<open>The cores, as functions of the config they are given; loading alone (\<open>nv_load_xray\<close>, \<open>nv_load_box\<close>) dials nothing.\<close>

record node_env =
  nv_xray_log :: string
  nv_goos :: string
  nv_load_xray :: "json obj \<Rightarrow> string option"
  nv_load_box :: "json obj \<Rightarrow> string option"
  nv_xray :: "json obj \<Rightarrow> string \<Rightarrow> core_probe"
  nv_box :: "json obj \<Rightarrow> string \<Rightarrow> core_probe"
  nv_dial :: "string \<Rightarrow> string option"
  nv_config_ms :: int
  nv_tcp_ms :: int

definition run_probe :: "core_probe \<Rightarrow> probe_error + int" where
  "run_probe cp = (case cp_start cp of Some e \<Rightarrow> Inl (CoreErr e) | None \<Rightarrow> probeThrough cp)"

definition ProbeLatency :: "node_env \<Rightarrow> profile \<Rightarrow> string \<Rightarrow> string \<Rightarrow> probe_error + int" where
  "ProbeLatency nv p stubSuffix url = (case CompileXrayClient (nv_xray_log nv) p (''@il-probe-'' @ stubSuffix) of
     Inl e \<Rightarrow> Inl (CompileErr e)
   | Inr cfg \<Rightarrow> run_probe (nv_xray nv cfg url))"

definition box_config :: "json obj \<Rightarrow> json obj" where
  "box_config ob = [(''log'', JObj [(''disabled'', JBool True)]), (''outbounds'', JArr [JObj ob])]"

definition ProbeLatencySingBox :: "node_env \<Rightarrow> profile \<Rightarrow> string \<Rightarrow> bool \<Rightarrow> probe_error + int" where
  "ProbeLatencySingBox nv p url tunExempt = (case SingBoxOutbound p ''probe'' of
     Inl e \<Rightarrow> Inl (OutboundErr e)
   | Inr ob0 \<Rightarrow>
      (let linux = (nv_goos nv = ''linux'');
           ob = (if tunExempt \<and> linux then jput ''routing_mark'' (JInt AutoRedirectOutputMark) ob0 else ob0);
           cfg = (if tunExempt \<and> \<not> linux then jput ''route'' (JObj [(''auto_detect_interface'', JBool True)]) (box_config ob) else box_config ob)
       in run_probe (nv_box nv cfg url)))"

definition ValidateNodeConfig :: "node_env \<Rightarrow> profile \<Rightarrow> string \<Rightarrow> probe_error option" where
  "ValidateNodeConfig nv p core =
    (if core = CoreXray then (case CompileXrayClient (nv_xray_log nv) p ''@il-validate'' of
        Inl e \<Rightarrow> Some (CompileErr e)
      | Inr cfg \<Rightarrow> map_option CoreErr (nv_load_xray nv cfg))
     else (case SingBoxOutbound p ''validate'' of
        Inl e \<Rightarrow> Some (OutboundErr e)
      | Inr ob \<Rightarrow> map_option CoreErr (nv_load_box nv (box_config ob))))"

abbreviation StageConfig :: string where "StageConfig \<equiv> ''config''"
abbreviation StageTCP :: string where "StageTCP \<equiv> ''tcp''"
abbreviation StageProxy :: string where "StageProxy \<equiv> ''proxy''"

record stage_result =
  sx_stage :: string
  sx_ok :: bool
  sx_duration_ms :: int
  sx_err :: "probe_error option"

record diagnosis =
  dg_stages :: "stage_result list"
  dg_ok :: bool
  dg_failed_stage :: string

definition stageConfig :: "node_env \<Rightarrow> profile \<Rightarrow> string \<Rightarrow> stage_result" where
  "stageConfig nv p core = (let e = ValidateNodeConfig nv p core in
     \<lparr>sx_stage = StageConfig, sx_ok = (e = None), sx_duration_ms = nv_config_ms nv, sx_err = e\<rparr>)"

definition stageTCP :: "node_env \<Rightarrow> profile \<Rightarrow> stage_result" where
  "stageTCP nv p = (let e = nv_dial nv (server_endpoint p) in
     \<lparr>sx_stage = StageTCP, sx_ok = (e = None), sx_duration_ms = nv_tcp_ms nv, sx_err = map_option CoreErr e\<rparr>)"

definition stageProxy :: "node_env \<Rightarrow> profile \<Rightarrow> string \<Rightarrow> string \<Rightarrow> string \<Rightarrow> bool \<Rightarrow> stage_result" where
  "stageProxy nv p core stubSuffix url tunExempt =
    (case (if core = CoreXray then ProbeLatency nv p stubSuffix url else ProbeLatencySingBox nv p url tunExempt) of
       Inl e \<Rightarrow> \<lparr>sx_stage = StageProxy, sx_ok = False, sx_duration_ms = 0, sx_err = Some e\<rparr>
     | Inr ms \<Rightarrow> \<lparr>sx_stage = StageProxy, sx_ok = True, sx_duration_ms = ms, sx_err = None\<rparr>)"

definition DiagnoseNode :: "node_env \<Rightarrow> profile \<Rightarrow> string \<Rightarrow> string \<Rightarrow> string \<Rightarrow> bool \<Rightarrow> diagnosis" where
  "DiagnoseNode nv p core stubSuffix url tunExempt =
    (let cfg = stageConfig nv p core; tcp = stageTCP nv p; px = stageProxy nv p core stubSuffix url tunExempt;
         fails = (\<lambda>ss st. \<lparr>dg_stages = ss, dg_ok = False, dg_failed_stage = st\<rparr>);
         is_tcp = (pa_network (profile_accessors p) = ''tcp'');
         before = (if is_tcp then [cfg, tcp] else [cfg]) in
     if \<not> sx_ok cfg then fails [cfg] StageConfig
     else if is_tcp \<and> \<not> sx_ok tcp then fails [cfg, tcp] StageTCP
     else if \<not> sx_ok px then fails (before @ [px]) StageProxy
     else \<lparr>dg_stages = before @ [px], dg_ok = True, dg_failed_stage = []\<rparr>)"

section \<open>Connection quality\<close>

abbreviation QStageDNS :: string where "QStageDNS \<equiv> ''dns''"
abbreviation QStageTCP :: string where "QStageTCP \<equiv> ''tcp''"
abbreviation QStageTLS :: string where "QStageTLS \<equiv> ''tls''"
abbreviation QStageTTFB :: string where "QStageTTFB \<equiv> ''ttfb''"
abbreviation QStageThroughput :: string where "QStageThroughput \<equiv> ''throughput''"

record quality_stage =
  qs_stage :: string
  qs_duration_ms :: int
  qs_ok :: bool
  qs_anomalous :: bool
  qs_detail :: string

record quality_report =
  qr_target :: string
  qr_stages :: "quality_stage list"
  qr_ok :: bool
  qr_failed_stage :: string
  qr_bottleneck :: string

definition dnsUpstreamLabel :: "dns_server \<Rightarrow> string" where
  "dnsUpstreamLabel up =
    (let kind = (if ds_type up = ''tls'' then ''DoT'' else if ds_type up = ''https'' then ''DoH''
                 else if ds_type up = ''udp'' then ''plain DNS'' else ds_type up)
     in kind @ '' '' @ ds_address up)"

text \<open>
  One measured cycle: each stage's time in milliseconds and answer. \<open>qe_headers\<close> are the header lines that arrive and then the error that
  ends them; \<open>qe_reads\<close> the body reads started within the window; \<open>qe_sample_ns\<close> the time the sample took.
\<close>

record quality_env =
  qe_dns :: "int \<times> (string + string list)"
  qe_tcp :: "int \<times> string option"
  qe_tls :: "int \<times> string option"
  qe_request :: "string option"
  qe_line :: "int \<times> (string + string)"
  qe_headers :: "string list \<times> string"
  qe_reads :: "(nat \<times> io_end option) list"
  qe_sample_ns :: nat

definition graded :: "string \<Rightarrow> int \<Rightarrow> int \<Rightarrow> string \<Rightarrow> quality_stage" where
  "graded st ms slow detail = \<lparr>qs_stage = st, qs_duration_ms = ms, qs_ok = True, qs_anomalous = (ms > slow), qs_detail = detail\<rparr>"

definition broken :: "string \<Rightarrow> int \<Rightarrow> string \<Rightarrow> quality_stage" where
  "broken st ms detail = \<lparr>qs_stage = st, qs_duration_ms = ms, qs_ok = False, qs_anomalous = False, qs_detail = detail\<rparr>"

definition measureDNS :: "quality_env \<Rightarrow> dns_server \<Rightarrow> quality_stage" where
  "measureDNS qe up = (case qe_dns qe of (ms, ans) \<Rightarrow> (case ans of
     Inl e \<Rightarrow> broken QStageDNS ms (dnsUpstreamLabel up @ '': '' @ e)
   | Inr ips \<Rightarrow> if ips = [] then broken QStageDNS ms (dnsUpstreamLabel up @ '': no A records'')
       else graded QStageDNS ms 900 (dnsUpstreamLabel up)))"

definition measureTCP :: "quality_env \<Rightarrow> quality_stage" where
  "measureTCP qe = (case qe_tcp qe of (ms, e) \<Rightarrow> (case e of Some x \<Rightarrow> broken QStageTCP ms x | None \<Rightarrow> graded QStageTCP ms 1200 []))"

definition measureTLS :: "quality_env \<Rightarrow> quality_stage" where
  "measureTLS qe = (case qe_tls qe of (ms, e) \<Rightarrow> (case e of Some x \<Rightarrow> broken QStageTLS ms x | None \<Rightarrow> graded QStageTLS ms 1500 []))"

definition FormatInt :: "int \<Rightarrow> string" where
  "FormatInt i = (if i < 0 then CHR ''-'' # FormatUint 10 (nat (- i)) else FormatUint 10 (nat i))"

definition measureTTFB :: "quality_env \<Rightarrow> quality_stage" where
  "measureTTFB qe = (case qe_request qe of
     Some e \<Rightarrow> broken QStageTTFB 0 (''request: '' @ e)
   | None \<Rightarrow> (case qe_line qe of (ms, ans) \<Rightarrow> (case ans of
       Inl e \<Rightarrow> broken QStageTTFB ms (''response: '' @ e)
     | Inr line \<Rightarrow> graded QStageTTFB ms 2500 (''HTTP '' @ FormatInt (parseHTTPStatus line)))))"

text \<open>Header lines up to the first blank one; \<open>Some e\<close> when the stream ends before.\<close>

fun drain_headers :: "string list \<Rightarrow> string \<Rightarrow> string option" where
  "drain_headers [] e = Some e"
| "drain_headers (l # ls) e = (if list_all (\<lambda>c. c = CHR 0x0D \<or> c = CHR 0x0A) l then None else drain_headers ls e)"

text \<open>The bytes sampled, and the error of a read that broke before any byte.\<close>

fun sample_body :: "nat \<Rightarrow> (nat \<times> io_end option) list \<Rightarrow> nat \<times> string option" where
  "sample_body got [] = (got, None)"
| "sample_body got ((n, e) # rs) = (case e of
     None \<Rightarrow> sample_body (got + n) rs
   | Some (IoError x) \<Rightarrow> (got + n, if got + n = 0 then Some (''read: '' @ x) else None)
   | Some _ \<Rightarrow> (got + n, None))"

text \<open>The rate is the floor of the exact quotient; the code divides in \<^verbatim>\<open>float64\<close>.\<close>

definition sample_kbps :: "nat \<Rightarrow> nat \<Rightarrow> nat" where
  "sample_kbps got ns = (if ns = 0 then 0 else (got * 10 ^ 9) div (1024 * ns))"

definition measureThroughput :: "quality_env \<Rightarrow> quality_stage" where
  "measureThroughput qe = (case drain_headers (fst (qe_headers qe)) (snd (qe_headers qe)) of
     Some e \<Rightarrow> broken QStageThroughput 0 (''headers: '' @ e)
   | None \<Rightarrow> (case sample_body 0 (qe_reads qe) of
       (got, Some e) \<Rightarrow> broken QStageThroughput 0 e
     | (got, None) \<Rightarrow>
         (let ms = int (qe_sample_ns qe div 1000000) in
          if got = 0 then broken QStageThroughput ms ''no data in the sample window (stalled)''
          else (let kbps = sample_kbps got (qe_sample_ns qe) in
            \<lparr>qs_stage = QStageThroughput, qs_duration_ms = ms, qs_ok = True, qs_anomalous = (kbps < 150),
             qs_detail = FormatUint 10 kbps @ '' KB/s ('' @ FormatUint 10 (got div 1024) @ '' KB sampled)''\<rparr>))))"

fun worst_from :: "quality_stage list \<Rightarrow> string \<Rightarrow> int \<Rightarrow> string" where
  "worst_from [] worst worstMs = worst"
| "worst_from (s # ss) worst worstMs =
    (if \<not> qs_anomalous s then worst_from ss worst worstMs
     else if qs_stage s = QStageThroughput then worst_from ss (if worst = [] then qs_stage s else worst) worstMs
     else if qs_duration_ms s > worstMs then worst_from ss (qs_stage s) (qs_duration_ms s)
     else worst_from ss worst worstMs)"

definition worstAnomaly :: "quality_stage list \<Rightarrow> string" where
  "worstAnomaly stages = worst_from stages [] (-1)"

text \<open>The stages in order, up to and including the first that failed.\<close>

fun until_failure :: "quality_stage list \<Rightarrow> quality_stage list" where
  "until_failure [] = []"
| "until_failure (s # ss) = s # (if qs_ok s then until_failure ss else [])"

definition ProbeConnectionQuality :: "quality_env \<Rightarrow> dns_server \<Rightarrow> string \<Rightarrow> quality_report" where
  "ProbeConnectionQuality qe primary target0 =
    (let target = (if target0 = [] then ''speed.cloudflare.com'' else target0);
         stages = until_failure [measureDNS qe primary, measureTCP qe, measureTLS qe, measureTTFB qe, measureThroughput qe];
         ok = list_all qs_ok stages in
     \<lparr>qr_target = target, qr_stages = stages, qr_ok = ok, qr_failed_stage = (if ok then [] else qs_stage (last stages)),
      qr_bottleneck = (if ok then worstAnomaly stages else [])\<rparr>)"

section \<open>The network report\<close>

record provider_target =
  pt_name :: string
  pt_host :: string
  pt_path :: string

definition doctorProviders :: "provider_target list" where
  "doctorProviders = map (\<lambda>(n, h, p). \<lparr>pt_name = n, pt_host = h, pt_path = p\<rparr>)
    [(''Hetzner'', ''fsn1-speed.hetzner.com'', ''/100MB.bin''),
     (''Linode'', ''speedtest.newark.linode.com'', ''/100MB-newark.bin''),
     (''Vultr'', ''nj-us-ping.vultr.com'', ''/vultr.com.100MB.bin''),
     (''OVH'', ''proof.ovh.net'', ''/files/100Mb.dat''),
     (''Cloudflare'', ''speed.cloudflare.com'', ''/__down?bytes=65536''),
     (''DigitalOcean'', ''speedtest-nyc3.nyc3.digitaloceanspaces.com'', ''/''),
     (''AWS'', ''d1.awsstatic.com'', ''/''),
     (''Oracle Cloud'', ''objectstorage.us-ashburn-1.oraclecloud.com'', ''/''),
     (''Google Cloud'', ''storage.googleapis.com'', ''/'')]"

record provider_result =
  pv_name :: string
  pv_host :: string
  pv_tcp_ok :: bool
  pv_tls_ok :: bool
  pv_http_status :: int
  pv_bytes_read :: nat
  pv_frozen :: bool
  pv_err :: string

definition probeProvider :: "(string \<Rightarrow> string \<Rightarrow> front) \<Rightarrow> provider_target \<Rightarrow> provider_result option" where
  "probeProvider fronts t =
     map_option (\<lambda>(tcp, tls, status, n, frozen, err). \<lparr>pv_name = pt_name t, pv_host = pt_host t, pv_tcp_ok = tcp, pv_tls_ok = tls,
         pv_http_status = status, pv_bytes_read = n, pv_frozen = frozen, pv_err = err\<rparr>)
       (dialVerifyFetch (fronts (JoinHostPort (pt_host t) ''443'') (pt_host t)) (pt_host t) (pt_path t))"

definition ProbeProviders :: "(string \<Rightarrow> string \<Rightarrow> front) \<Rightarrow> provider_result list option" where
  "ProbeProviders fronts = those (map (probeProvider fronts) doctorProviders)"

definition dnsReferenceDomains :: "string list" where
  "dnsReferenceDomains = [''www.facebook.com'', ''twitter.com'', ''www.youtube.com'']"

abbreviation dnsControlDomain :: string where "dnsControlDomain \<equiv> ''cloudflare.com''"

text \<open>The answers of the two DoH providers (typed records), of the system's resolver and of 8.8.8.8 over UDP; \<open>None\<close> is a failed query.
  \<open>di_order\<close> is the order in which the map of counted addresses is visited.\<close>

record dns_env =
  di_google :: "string \<Rightarrow> (int \<times> string) list option"
  di_cloudflare :: "string \<Rightarrow> (int \<times> string) list option"
  di_os :: "string \<Rightarrow> string list option"
  di_udp :: "string \<Rightarrow> string list option"
  di_order :: "string list \<Rightarrow> string list"

record dns_report =
  dr_doh_works :: bool
  dr_doh_err :: string
  dr_poisoned :: "string list"
  dr_stub_ips :: "string list"
  dr_udp_hijacked :: bool
  dr_control_ok :: bool

definition dohQuery :: "(int \<times> string) list option \<Rightarrow> string list option" where
  "dohQuery answer = map_option (\<lambda>as. map snd (filter (\<lambda>(t, _). t = 1) as)) answer"

definition dohResolve :: "dns_env \<Rightarrow> string \<Rightarrow> string list option" where
  "dohResolve di name = (case (dohQuery (di_google di name), dohQuery (di_cloudflare di name)) of
     (None, None) \<Rightarrow> None
   | (g, c) \<Rightarrow> Some (case_option [] id g @ case_option [] id c))"

definition osResolve :: "dns_env \<Rightarrow> string \<Rightarrow> string list" where
  "osResolve di name = (case di_os di name of None \<Rightarrow> [] | Some ips \<Rightarrow> remdups ips)"

definition intersects :: "string list \<Rightarrow> string list \<Rightarrow> bool" where
  "intersects xs ys = list_ex (\<lambda>x. x \<in> set ys) xs"

text \<open>A resolver's answer that is not empty and shares no address with the trusted one.\<close>

definition forged :: "string list \<Rightarrow> string list option \<Rightarrow> bool" where
  "forged answer truth = (case truth of None \<Rightarrow> False | Some t \<Rightarrow> answer \<noteq> [] \<and> \<not> intersects answer t)"

definition ProbeDNSIntegrity :: "dns_env \<Rightarrow> dns_report" where
  "ProbeDNSIntegrity di = (case dohResolve di dnsControlDomain of
     None \<Rightarrow> \<lparr>dr_doh_works = False, dr_doh_err = ''DoH query failed'', dr_poisoned = [], dr_stub_ips = [], dr_udp_hijacked = False,
              dr_control_ok = False\<rparr>
   | Some ctrl \<Rightarrow>
      (let seen = concat (map (osResolve di) dnsReferenceDomains) in
       \<lparr>dr_doh_works = True, dr_doh_err = [],
        dr_poisoned = filter (\<lambda>name. forged (osResolve di name) (dohResolve di name)) dnsReferenceDomains,
        dr_stub_ips = filter (\<lambda>ip. 2 \<le> count_list seen ip) (di_order di (remdups seen)),
        dr_udp_hijacked = (let name = hd dnsReferenceDomains in
          forged (case di_udp di name of None \<Rightarrow> [] | Some ips \<Rightarrow> ips) (dohResolve di name)),
        dr_control_ok = intersects (osResolve di dnsControlDomain) ctrl\<rparr>))"

record protocol_result =
  po_name :: string
  po_ok :: bool
  po_detail :: string

definition probeTLSPort :: "probe_net \<Rightarrow> string \<Rightarrow> string \<Rightarrow> nat \<Rightarrow> string \<Rightarrow> protocol_result" where
  "probeTLSPort pn name host port serverName = (let addr = JoinHostPort host (FormatUint 10 port) in
     case pn_dial pn ''tcp'' addr of
       Some e \<Rightarrow> \<lparr>po_name = name, po_ok = False, po_detail = ''blocked: '' @ e\<rparr>
     | None \<Rightarrow> (case pn_handshake pn addr serverName of
         Some e \<Rightarrow> \<lparr>po_name = name, po_ok = False, po_detail = ''TLS failed: '' @ e\<rparr>
       | None \<Rightarrow> \<lparr>po_name = name, po_ok = True, po_detail = ''handshake ok''\<rparr>))"

text \<open>\<open>banner addr\<close>: the error of writing the request, and the first response or its error.\<close>

definition probeLine ::
  "probe_net \<Rightarrow> (string \<Rightarrow> string option \<times> (string + string)) \<Rightarrow> string \<Rightarrow> string \<Rightarrow> string \<Rightarrow> string \<Rightarrow> protocol_result" where
  "probeLine pn banner name addr req want = (let no = (\<lambda>d. \<lparr>po_name = name, po_ok = False, po_detail = d\<rparr>) in
     case pn_dial pn ''tcp'' addr of
       Some e \<Rightarrow> no (''blocked: '' @ e)
     | None \<Rightarrow> (case (if req = [] then None else fst (banner addr)) of
         Some e \<Rightarrow> no (''write failed: '' @ e)
       | None \<Rightarrow> (case snd (banner addr) of
           Inl e \<Rightarrow> no (''no response: '' @ e)
         | Inr text \<Rightarrow> if HasPrefix text want then \<lparr>po_name = name, po_ok = True, po_detail = ''responded''\<rparr>
             else no ''unexpected response'')))"

definition ProbeProtocols :: "probe_net \<Rightarrow> (string \<Rightarrow> string option \<times> (string + string)) \<Rightarrow> protocol_result list" where
  "ProbeProtocols pn banner =
    [probeTLSPort pn ''HTTPS (TCP 443)'' ''cloudflare.com'' 443 ''cloudflare.com'',
     probeTLSPort pn ''DoT (TCP 853)'' ''8.8.8.8'' 853 ''dns.google'',
     probeLine pn banner ''HTTP (TCP 80)'' ''example.com:80'' (''GET / HTTP/1.0'' @ crlf @ ''Host: example.com'' @ crlf @ crlf) ''HTTP/'',
     probeLine pn banner ''SSH (TCP 22)'' ''github.com:22'' [] ''SSH-'']"

section \<open>The host firewall\<close>

record forwarding_report =
  fw_linux :: bool
  fw_ufw_active :: bool
  fw_input_deny :: bool
  fw_policy_detail :: string
  fw_bridges :: "string list"

definition trim_quotes :: "string \<Rightarrow> string" where
  "trim_quotes s = (let q = (\<lambda>c. c = CHR 0x22 \<or> c = CHR 0x27) in rev (dropWhile q (rev (dropWhile q s))))"

fun conf_lines :: "string \<Rightarrow> string list \<Rightarrow> string option \<Rightarrow> string option" where
  "conf_lines key [] found = found"
| "conf_lines key (l # ls) found = (let line = TrimSpace l in
     if line = [] \<or> HasPrefix line ''#'' then conf_lines key ls found
     else (case Cut line (CHR ''='') of
        None \<Rightarrow> conf_lines key ls found
      | Some (k, v) \<Rightarrow> if TrimSpace k \<noteq> key then conf_lines key ls found
                      else conf_lines key ls (Some (trim_quotes (TrimSpace v)))))"

text \<open>The contents of a file, \<open>None\<close> when it cannot be read.\<close>

definition confValue :: "string option \<Rightarrow> string \<Rightarrow> string option" where
  "confValue content key = (case content of None \<Rightarrow> None | Some data \<Rightarrow> conf_lines key (Split data (CHR 0x0A)) None)"

text \<open>\<open>ifaces\<close> are the entries of \<^verbatim>\<open>/sys/class/net\<close> with whether each is a bridge. Both comparisons ignore the case of ASCII letters.\<close>

definition ProbeForwarding :: "bool \<Rightarrow> string option \<Rightarrow> string option \<Rightarrow> (string \<times> bool) list option \<Rightarrow> forwarding_report" where
  "ProbeForwarding linux ufw_conf default_ufw ifaces =
    (if \<not> linux then \<lparr>fw_linux = False, fw_ufw_active = False, fw_input_deny = False, fw_policy_detail = [], fw_bridges = []\<rparr>
     else (let policy = confValue default_ufw ''DEFAULT_INPUT_POLICY'' in
       \<lparr>fw_linux = True,
        fw_ufw_active = (case confValue ufw_conf ''ENABLED'' of None \<Rightarrow> False | Some v \<Rightarrow> ToLower v = ''yes''),
        fw_input_deny = (case policy of None \<Rightarrow> False | Some v \<Rightarrow> ToLower v = ''drop'' \<or> ToLower v = ''reject''),
        fw_policy_detail = (case policy of None \<Rightarrow> [] | Some v \<Rightarrow> v),
        fw_bridges = (case ifaces of None \<Rightarrow> [] | Some es \<Rightarrow> map fst (filter snd es))\<rparr>))"

section \<open>Facts about the probes\<close>

lemma dialFamily_iff: "fst (dialFamily pn network addrs e) \<longleftrightarrow> (\<exists>a \<in> set addrs. pn_dial pn network a = None)"
  by (induction addrs arbitrary: e) (auto split: option.splits)

lemma pad_headers_length: "22000 \<le> length pad_headers"
proof -
  have "[0..<(camouflageUploadPad + padChunk - 1) div padChunk] = [0,1,2,3,4,5,6,7,8,9,10]"
    by (simp add: camouflageUploadPad_def upt_conv_Cons)
  then show ?thesis by (simp add: pad_headers_def)
qed

lemma fetch_request_length: "22000 \<le> length (fetch_request host path)"
  using pad_headers_length by (simp add: fetch_request_def)

lemma fetch_request_not_Nil [simp]: "fetch_request host path \<noteq> []"
  by (simp add: fetch_request_def)

text \<open>A read without an error delivers at least one byte: then the loop ends, because the target is finite.\<close>

lemma fetch_body_returns:
  assumes "\<forall>k. snd (reads k) = None \<longrightarrow> 0 < fst (reads k)"
  shows "\<exists>m frozen err. fetch_body reads target k n = Some (m, frozen, err) \<and> n \<le> m"
proof (induction "target - n" arbitrary: k n rule: less_induct)
  case less
  obtain m e where r: "reads k = (m, e)" by fastforce
  show ?case
  proof (cases "n < target \<and> e = None")
    case True
    with assms r have "0 < m" by (metis fst_conv snd_conv)
    then have "target - (n + m) < target - n" using True by linarith
    from less [OF this, of "Suc k"] obtain m' frozen err where
      "fetch_body reads target (Suc k) (n + m) = Some (m', frozen, err)" "n + m \<le> m'" by blast
    with True r show ?thesis by (subst fetch_body.simps) auto
  next
    case False
    with r show ?thesis by (subst fetch_body.simps) (auto split: option.splits io_end.splits)
  qed
qed

definition progressing :: "http_conn \<Rightarrow> bool" where
  "progressing c = (\<forall>k. snd (hc_reads c k) = None \<longrightarrow> 0 < fst (hc_reads c k))"

lemma fetchHTTP_returns:
  assumes "progressing c"
  shows "case fetchHTTP c host path of None \<Rightarrow> False | Some (status, n, frozen, err) \<Rightarrow> (n = 0 \<longrightarrow> err \<noteq> []) \<and> (n \<noteq> 0 \<longrightarrow> 22000 \<le> n)"
proof -
  let ?host = "if host = [] then ''example.com'' else host"
  let ?up = "length (fetch_request ?host path)"
  have up: "22000 \<le> ?up" by (rule fetch_request_length)
  obtain m frozen err where b: "fetch_body (hc_reads c) (?up + camouflageDownloadTarget) 0 ?up = Some (m, frozen, err)" "?up \<le> m"
    using fetch_body_returns [of "hc_reads c" "?up + camouflageDownloadTarget" 0 ?up] assms by (auto simp: progressing_def)
  show ?thesis
  proof (cases "hc_write c")
    case None
    show ?thesis
    proof (cases "hc_line c")
      case (Inl e)
      with None up show ?thesis by (cases e) (simp_all add: fetchHTTP_def Let_def)
    next
      case (Inr line)
      with None b up show ?thesis by (simp add: fetchHTTP_def Let_def)
    qed
  next
    case (Some e)
    with up show ?thesis by (cases e) (simp_all add: fetchHTTP_def Let_def)
  qed
qed

definition slow_latency :: "quality_stage \<Rightarrow> bool" where
  "slow_latency s = (qs_anomalous s \<and> qs_stage s \<noteq> QStageThroughput)"

lemma worst_from_none:
  "\<forall>s \<in> set ss. slow_latency s \<longrightarrow> qs_duration_ms s \<le> ms \<Longrightarrow>
     worst_from ss w ms = (if w = [] \<and> (\<exists>s \<in> set ss. qs_anomalous s \<and> qs_stage s = QStageThroughput) then QStageThroughput else w)"
  by (induction ss arbitrary: w) (auto simp: slow_latency_def)

lemma worst_from_some:
  assumes "\<forall>s \<in> set ss. qs_stage s \<noteq> []" and "t \<in> set ss" "slow_latency t" "ms < qs_duration_ms t"
  shows "\<exists>s \<in> set ss. slow_latency s \<and> worst_from ss w ms = qs_stage s \<and> (\<forall>t \<in> set ss. slow_latency t \<longrightarrow> qs_duration_ms t \<le> qs_duration_ms s)"
  using assms
proof (induction ss arbitrary: w ms t)
  case (Cons s ss)
  show ?case
  proof (cases "slow_latency s \<and> ms < qs_duration_ms s")
    case True
    then have step: "worst_from (s # ss) w ms = worst_from ss (qs_stage s) (qs_duration_ms s)" by (simp add: slow_latency_def)
    show ?thesis
    proof (cases "\<exists>t \<in> set ss. slow_latency t \<and> qs_duration_ms s < qs_duration_ms t")
      case more: True
      then obtain t where "t \<in> set ss" "slow_latency t" "qs_duration_ms s < qs_duration_ms t" by blast
      with Cons.IH [of t "qs_duration_ms s" "qs_stage s"] Cons.prems(1) obtain s' where
        "s' \<in> set ss" "slow_latency s'" "worst_from ss (qs_stage s) (qs_duration_ms s) = qs_stage s'"
        "\<forall>t \<in> set ss. slow_latency t \<longrightarrow> qs_duration_ms t \<le> qs_duration_ms s'" by auto
      moreover from this \<open>t \<in> set ss\<close> \<open>slow_latency t\<close> \<open>qs_duration_ms s < qs_duration_ms t\<close>
      have "qs_duration_ms s \<le> qs_duration_ms s'" by fastforce
      ultimately show ?thesis using step by auto
    next
      case False
      then have "worst_from ss (qs_stage s) (qs_duration_ms s) = qs_stage s"
        using worst_from_none [of ss "qs_duration_ms s" "qs_stage s"] Cons.prems(1) by (auto simp: not_less)
      with step True False show ?thesis by (auto simp: not_less)
    qed
  next
    case False
    then have "\<exists>w'. worst_from (s # ss) w ms = worst_from ss w' ms" by (auto simp: slow_latency_def)
    then obtain w' where step: "worst_from (s # ss) w ms = worst_from ss w' ms" ..
    from False Cons.prems have t: "t \<in> set ss" by auto
    from Cons.IH [OF _ t Cons.prems(3,4), of w'] Cons.prems(1) obtain s' where
      "s' \<in> set ss" "slow_latency s'" "worst_from ss w' ms = qs_stage s'"
      "\<forall>t \<in> set ss. slow_latency t \<longrightarrow> qs_duration_ms t \<le> qs_duration_ms s'" by auto
    moreover have "qs_duration_ms s \<le> qs_duration_ms s'" if "slow_latency s"
      using that False t Cons.prems(3,4) calculation(4) by fastforce
    ultimately show ?thesis using step by auto
  qed
qed simp

lemma measured_stage_names [simp]:
  "qs_stage (measureDNS qe up) = QStageDNS" "qs_stage (measureTCP qe) = QStageTCP" "qs_stage (measureTLS qe) = QStageTLS"
  "qs_stage (measureTTFB qe) = QStageTTFB" "qs_stage (measureThroughput qe) = QStageThroughput"
  by (auto simp: measureDNS_def measureTCP_def measureTLS_def measureTTFB_def measureThroughput_def graded_def broken_def Let_def
      split: prod.splits sum.splits option.splits)

lemma measured_slow:
  "qs_anomalous (measureDNS qe up) \<Longrightarrow> 0 < qs_duration_ms (measureDNS qe up)" "qs_anomalous (measureTCP qe) \<Longrightarrow> 0 < qs_duration_ms (measureTCP qe)"
  "qs_anomalous (measureTLS qe) \<Longrightarrow> 0 < qs_duration_ms (measureTLS qe)" "qs_anomalous (measureTTFB qe) \<Longrightarrow> 0 < qs_duration_ms (measureTTFB qe)"
  by (auto simp: measureDNS_def measureTCP_def measureTLS_def measureTTFB_def graded_def broken_def
      split: prod.splits sum.splits option.splits if_splits)

lemma until_failure_ok: "list_all qs_ok (until_failure ss) \<Longrightarrow> until_failure ss = ss"
  by (induction ss) (auto split: if_splits)

lemma until_failure_last: "\<not> list_all qs_ok (until_failure ss) \<Longrightarrow>
    \<exists>pre s post. ss = pre @ s # post \<and> until_failure ss = pre @ [s] \<and> list_all qs_ok pre \<and> \<not> qs_ok s"
proof (induction ss)
  case (Cons s ss)
  show ?case
  proof (cases "qs_ok s")
    case True
    with Cons obtain pre t post where "ss = pre @ t # post" "until_failure ss = pre @ [t]" "list_all qs_ok pre" "\<not> qs_ok t" by auto
    with True have "s # ss = (s # pre) @ t # post \<and> until_failure (s # ss) = (s # pre) @ [t] \<and> list_all qs_ok (s # pre) \<and> \<not> qs_ok t" by simp
    then show ?thesis by blast
  next
    case False
    then have "s # ss = [] @ s # ss \<and> until_failure (s # ss) = [] @ [s] \<and> list_all qs_ok [] \<and> \<not> qs_ok s" by simp
    then show ?thesis by blast
  qed
qed simp

section \<open>Properties\<close>

text \<open>
  What a connection-quality report says. It fails exactly when some measured stage failed, and then names that stage, the last one measured,
  with all stages before it good. Otherwise all five stages were measured, and the bottleneck is the slowest of the anomalous latency stages,
  throughput when it alone is anomalous, and nothing when no stage is.
\<close>

theorem quality_attribution:
  "let r = ProbeConnectionQuality qe up target; slow = filter slow_latency (qr_stages r) in
    (if qr_ok r
     then length (qr_stages r) = 5 \<and> list_all qs_ok (qr_stages r) \<and> qr_failed_stage r = [] \<and>
       (if slow \<noteq> [] then \<exists>s \<in> set slow. qr_bottleneck r = qs_stage s \<and> (\<forall>t \<in> set slow. qs_duration_ms t \<le> qs_duration_ms s)
        else qr_bottleneck r = (if list_ex qs_anomalous (qr_stages r) then QStageThroughput else []))
     else qr_bottleneck r = [] \<and> (\<exists>pre s. qr_stages r = pre @ [s] \<and> list_all qs_ok pre \<and> \<not> qs_ok s \<and> qr_failed_stage r = qs_stage s))"
proof -
  let ?all = "[measureDNS qe up, measureTCP qe, measureTLS qe, measureTTFB qe, measureThroughput qe]"
  let ?r = "ProbeConnectionQuality qe up target"
  have st: "qr_stages ?r = until_failure ?all" "qr_ok ?r = list_all qs_ok (until_failure ?all)"
    by (simp_all add: ProbeConnectionQuality_def Let_def del: until_failure.simps)
  have rest: "qr_failed_stage ?r = (if qr_ok ?r then [] else qs_stage (last (qr_stages ?r)))"
    "qr_bottleneck ?r = (if qr_ok ?r then worstAnomaly (qr_stages ?r) else [])"
    by (simp_all add: ProbeConnectionQuality_def Let_def del: until_failure.simps)
  show ?thesis
  proof (cases "qr_ok ?r")
    case False
    with st obtain pre s where "qr_stages ?r = pre @ [s]" "list_all qs_ok pre" "\<not> qs_ok s"
      using until_failure_last [of ?all] by (auto simp del: until_failure.simps)
    with False rest show ?thesis by (auto simp: Let_def)
  next
    case True
    then have all: "qr_stages ?r = ?all" using st until_failure_ok [of ?all] by (simp del: until_failure.simps)
    have pos: "-1 < qs_duration_ms s" if "s \<in> set ?all" "slow_latency s" for s
      using that measured_slow [of qe] by (fastforce simp: slow_latency_def)
    have named: "\<forall>s \<in> set ?all. qs_stage s \<noteq> []" by simp
    have w: "qr_bottleneck ?r = worst_from ?all [] (-1)" using True rest(2) all by (simp add: worstAnomaly_def)
    have none: "list_ex qs_anomalous ?all = (\<exists>s \<in> set ?all. qs_anomalous s \<and> qs_stage s = QStageThroughput)" if "filter slow_latency ?all = []"
      using that unfolding filter_empty_conv by (auto simp: slow_latency_def list_ex_iff)
    have bot: "if filter slow_latency ?all \<noteq> [] then \<exists>s \<in> set (filter slow_latency ?all). qr_bottleneck ?r = qs_stage s \<and>
         (\<forall>t \<in> set (filter slow_latency ?all). qs_duration_ms t \<le> qs_duration_ms s)
       else qr_bottleneck ?r = (if list_ex qs_anomalous ?all then QStageThroughput else [])"
    proof (cases "\<exists>t \<in> set ?all. slow_latency t")
      case True
      then obtain t where "t \<in> set ?all" "slow_latency t" by blast
      then have ne: "filter slow_latency ?all \<noteq> []" unfolding filter_empty_conv by blast
      from worst_from_some [OF named \<open>t \<in> set ?all\<close> \<open>slow_latency t\<close> pos [OF \<open>t \<in> set ?all\<close> \<open>slow_latency t\<close>], of "[]"]
      have "\<exists>s \<in> set (filter slow_latency ?all). worst_from ?all [] (-1) = qs_stage s \<and>
          (\<forall>t \<in> set (filter slow_latency ?all). qs_duration_ms t \<le> qs_duration_ms s)" unfolding set_filter by blast
      then show ?thesis unfolding w if_P [OF ne] .
    next
      case False
      then have e: "filter slow_latency ?all = []" unfolding filter_empty_conv by blast
      have "\<forall>s \<in> set ?all. slow_latency s \<longrightarrow> qs_duration_ms s \<le> -1" using False by blast
      from worst_from_none [OF this, of "[]"] show ?thesis unfolding w none [OF e] e by simp
    qed
    have "length (qr_stages ?r) = 5" "list_all qs_ok (qr_stages ?r)" using True st by (simp_all add: all del: until_failure.simps)
    then show ?thesis using True rest(1) bot [folded all] unfolding Let_def by simp
  qed
qed

definition sample_cycle :: quality_env where
  "sample_cycle = \<lparr>qe_dns = (40, Inl ''timeout''), qe_tcp = (30, None), qe_tls = (60, None), qe_request = None, qe_line = (90, Inr ''HTTP/1.1 200 OK''),
     qe_headers = ([crlf], []), qe_reads = [(65536, Some IoEOF)], qe_sample_ns = 1000000\<rparr>"

theorem quality_attribution_witness:
  "let r = ProbeConnectionQuality sample_cycle \<lparr>ds_type = ''udp'', ds_address = ''9.9.9.9''\<rparr> [] in
     qr_bottleneck r = [] \<and> (\<exists>pre s. qr_stages r = pre @ [s] \<and> list_all qs_ok pre \<and> \<not> qs_ok s \<and> qr_failed_stage r = qs_stage s)"
proof -
  let ?up = "\<lparr>ds_type = ''udp'', ds_address = ''9.9.9.9''\<rparr> :: dns_server"
  have "\<not> qr_ok (ProbeConnectionQuality sample_cycle ?up [])"
    by (simp add: ProbeConnectionQuality_def sample_cycle_def measureDNS_def broken_def Let_def)
  with quality_attribution [of sample_cycle ?up "[]"] show ?thesis by (simp only: Let_def if_False)
qed

text \<open>
  What a node diagnosis says. It is good exactly when every stage that ran is; a bad one stops at the stage it names, with the stages
  before it good. The config stage always runs first, the TCP stage only for nodes that speak TCP, and the last stage of
  a good diagnosis is the round trip through the tunnel.
\<close>

theorem diagnosis_attribution:
  "let d = DiagnoseNode nv p core stub url tunExempt in
     sx_stage (hd (dg_stages d)) = StageConfig \<and>
     (StageTCP \<in> sx_stage ` set (dg_stages d) \<longrightarrow> pa_network (profile_accessors p) = ''tcp'') \<and>
     (if dg_ok d then list_all sx_ok (dg_stages d) \<and> dg_failed_stage d = [] \<and> sx_stage (last (dg_stages d)) = StageProxy
      else \<exists>pre s. dg_stages d = pre @ [s] \<and> list_all sx_ok pre \<and> \<not> sx_ok s \<and> dg_failed_stage d = sx_stage s)"
proof -
  have names: "sx_stage (stageConfig nv p core) = StageConfig" "sx_stage (stageTCP nv p) = StageTCP"
    "sx_stage (stageProxy nv p core stub url tunExempt) = StageProxy"
    by (simp_all add: stageConfig_def stageTCP_def stageProxy_def Let_def split: sum.split)
  have split: "\<exists>pre s. [a] = pre @ [s] \<and> P pre s" if "P [] a" for a P using that by blast
  have split2: "\<exists>pre s. [a, b] = pre @ [s] \<and> P pre s" if "P [a] b" for a b P using that by (metis append_Cons append_Nil)
  have split3: "\<exists>pre s. [a, b, c] = pre @ [s] \<and> P pre s" if "P [a, b] c" for a b c P using that by (metis append_Cons append_Nil)
  show ?thesis by (simp add: DiagnoseNode_def Let_def names split split2 split3)
qed

definition sample_cores :: node_env where
  "sample_cores = (let idle = \<lparr>cp_start = None, cp_get = (\<lambda>_. None), cp_expired = (\<lambda>_. False), cp_elapsed = 42\<rparr> in
     \<lparr>nv_xray_log = ''warning'', nv_goos = ''linux'', nv_load_xray = (\<lambda>_. Some ''bad config''), nv_load_box = (\<lambda>_. Some ''bad config''),
      nv_xray = (\<lambda>_ _. idle), nv_box = (\<lambda>_ _. idle), nv_dial = (\<lambda>_. None), nv_config_ms = 1, nv_tcp_ms = 20\<rparr>)"

theorem diagnosis_attribution_witness:
  "let d = DiagnoseNode sample_cores sample_ss CoreSingBox ''n'' ''https://www.gstatic.com/generate_204'' False in
     \<exists>pre s. dg_stages d = pre @ [s] \<and> list_all sx_ok pre \<and> \<not> sx_ok s \<and> dg_failed_stage d = sx_stage s"
proof -
  let ?d = "DiagnoseNode sample_cores sample_ss CoreSingBox ''n'' ''https://www.gstatic.com/generate_204'' False"
  have "\<not> dg_ok ?d"
    by (simp add: DiagnoseNode_def stageConfig_def ValidateNodeConfig_def sample_cores_def Let_def split: sum.split)
  with diagnosis_attribution [of sample_cores sample_ss CoreSingBox "''n''" "''https://www.gstatic.com/generate_204''" False]
  show ?thesis by (simp only: Let_def if_False)
qed

text \<open>
  C28. The camouflage probe ends and is conclusive. Against a peer whose error-free reads deliver data, the probe returns a report; and once the
  handshake is through, the report has an error or has moved at least 16 KB over the connection, whatever the front answers.
\<close>

theorem camouflage_probe_returns:
  assumes "progressing (fo_conn (fronts (server_endpoint p) (case CamouflageSNI p of None \<Rightarrow> [] | Some s \<Rightarrow> s)))"
  shows "\<exists>r. ProbeCamouflage fronts p = Some r \<and> (cr_tls_ok r \<longrightarrow> cr_err r \<noteq> [] \<or> 16 * 1024 \<le> cr_bytes_read r)"
proof -
  let ?sni = "case CamouflageSNI p of None \<Rightarrow> [] | Some s \<Rightarrow> s"
  let ?f = "fronts (server_endpoint p) ?sni"
  obtain status n frozen err where f: "fetchHTTP (fo_conn ?f) ?sni ''/'' = Some (status, n, frozen, err)"
      "n = 0 \<longrightarrow> err \<noteq> []" "n \<noteq> 0 \<longrightarrow> 22000 \<le> n"
    using fetchHTTP_returns [OF assms, of ?sni "''/''"] by (auto split: option.splits)
  then have "err \<noteq> [] \<or> 16 * 1024 \<le> n" by auto
  with f show ?thesis
    by (cases "fo_dial ?f"; cases "fo_handshake ?f") (simp_all add: ProbeCamouflage_def dialVerifyFetch_def Let_def)
qed

theorem camouflage_probe_returns_witness:
  "case ProbeCamouflage (\<lambda>_ _. \<lparr>fo_dial = None, fo_handshake = None,
      fo_conn = \<lparr>hc_write = None, hc_line = Inr ''HTTP/1.1 200 OK'', hc_reads = (\<lambda>_. (4096, None))\<rparr>\<rparr>) sample_ss of
     None \<Rightarrow> False | Some r \<Rightarrow> cr_err r \<noteq> [] \<or> 16 * 1024 \<le> cr_bytes_read r"
proof -
  let ?c = "\<lparr>hc_write = None, hc_line = Inr ''HTTP/1.1 200 OK'', hc_reads = (\<lambda>_. (4096, None))\<rparr> :: http_conn"
  let ?fs = "\<lambda>_ _. \<lparr>fo_dial = None, fo_handshake = None, fo_conn = ?c\<rparr> :: front"
  have "progressing ?c" by (simp add: progressing_def)
  then obtain r where r: "ProbeCamouflage ?fs sample_ss = Some r" "cr_tls_ok r \<longrightarrow> cr_err r \<noteq> [] \<or> 16 * 1024 \<le> cr_bytes_read r"
    using camouflage_probe_returns [of ?fs sample_ss] by auto
  from r(1) have "cr_tls_ok r" by (auto simp: ProbeCamouflage_def dialVerifyFetch_def Let_def)
  with r show ?thesis by simp
qed

end
