(* ===== verification/Manager_Doctor.thy ===== *)
theory Manager_Doctor
  imports Manager_Session Engine_Probe
begin

text \<open>
  The connection doctor (\<^verbatim>\<open>daemon-go/cmd/iron-link-daemon\<close>: \<^verbatim>\<open>manager_doctor.go\<close>, \<^verbatim>\<open>manager_netreport.go\<close>,
  \<^verbatim>\<open>manager_forwarding.go\<close>, and \<^verbatim>\<open>testLatency\<close>, \<^verbatim>\<open>diagnose\<close> and \<^verbatim>\<open>probeParams\<close> of \<^verbatim>\<open>manager.go\<close>): the verdicts over what the probes of
  \<open>Engine_Probe\<close> observed, their remedies, and the verbs that report them.

  A sentence of a report is a constructor with its variable parts. The verbs read the manager and change nothing. \<open>None\<close> is a report that
  never comes because a fetch loop did not end.

  Main results: remedies are offered only with a warning; on a dual-stack TUN the address-family remedy settles the check;
  the resolver remedy puts a reachable resolver first when the configured addresses are distinct. Where they fail: a pinned TUN, and
  two upstreams at one address.
\<close>

section \<open>Rows and remedies\<close>

datatype node_text =
    StageOk string int
  | StageFailed string "probe_error option"
  | NodeCarries int
  | InvalidConfig
  | EndpointDown
  | TunnelClosed

datatype front_text =
    FrontSNI string
  | TCPFailed string string
  | TCPConnected string
  | ServerUnreachable
  | FrontBroken
  | TLSFailed string
  | CertLine string
  | FrozeAfter nat
  | FrozeDetail nat
  | FrozeAdvice
  | DecoyStatus int
  | FrontHealthy nat
  | FrontIntact nat
  | DecoySmall

datatype resolver_text =
    NoUpstream
  | UpstreamLine upstream_probe
  | ViaTunnelSummary
  | ViaTunnelDetail
  | ResolverReachable string
  | ResolverUnreachable string

datatype internet_text =
    FamilyReachable string
  | FamilyExpected string
  | FamilyUnreachable string string
  | ResolverLine string
  | NoInternet
  | OnlineBoth
  | OnlineV4
  | OnlineV6
  | StrategyMismatch string string
  | PinnedDead string
  | PinnedV4Loses
  | PinnedV6Loses
  | StrategyForbidden string string

datatype quality_text =
    QualityStageLine quality_stage
  | QualityFailed string
  | QualityBottleneck string string
  | QualityHealthy

datatype provider_text =
    ProviderEndpoint string
  | ProviderUnresolved
  | ProviderBlocked
  | ProviderError string
  | ProviderTLS
  | ProviderFrozen nat
  | ProviderReachable nat

datatype dns_text =
    DoHBlocked
  | DoHError string
  | DoHWorks
  | PoisonedNames "string list"
  | StubAddresses "string list"
  | UDPIntercepted
  | Tampered "string list"
  | DNSClean

datatype protocol_text =
    ProtocolLine string bool string
  | AllTransports
  | BlockedTransports "string list"

datatype forwarding_text =
    ForwardingDropped "string list"
  | UFWDenies string
  | RedirectExplained
  | BridgesAffected "string list"
  | FixHostNetwork
  | FixAllow
  | NoBridges
  | UFWInactive
  | PolicyNotDeny
  | NoConflict
  | BridgesPresent "string list"

datatype doctor_text =
    NodeText node_text
  | FrontText front_text
  | ResolverText resolver_text
  | InternetText internet_text
  | QualityText quality_text
  | ProviderText provider_text
  | DNSText dns_text
  | ProtocolText protocol_text
  | ForwardingText forwarding_text

datatype remedy_text =
    UseCloudflare
  | MakePrimary string
  | SwitchTo string string
  | RouteThroughTunnel
  | PreferIPv6
  | PreferIPv4
  | PinIPv4
  | PinIPv6

record remedy =
  rm_summary :: remedy_text
  rm_dns_strategy :: string
  rm_dns_servers :: "dns_server list"
  rm_dns_via_tunnel :: "bool option"

text \<open>Each check has the sentences of its own type; a report wraps them into \<open>doctor_text\<close>.\<close>

record 't doctor_check =
  dc_id :: string
  dc_title :: string
  dc_status :: string
  dc_summary :: 't
  dc_details :: "'t list"
  dc_remedy :: "remedy option"

definition row :: "string \<Rightarrow> string \<Rightarrow> string \<Rightarrow> 't \<Rightarrow> 't list \<Rightarrow> remedy option \<Rightarrow> 't doctor_check" where
  "row i t st summary details rem = \<lparr>dc_id = i, dc_title = t, dc_status = st, dc_summary = summary, dc_details = details, dc_remedy = rem\<rparr>"

definition map_row :: "('t \<Rightarrow> 'u) \<Rightarrow> 't doctor_check \<Rightarrow> 'u doctor_check" where
  "map_row f c = row (dc_id c) (dc_title c) (dc_status c) (f (dc_summary c)) (map f (dc_details c)) (dc_remedy c)"

text \<open>A title with its subject, joined by a dash (three bytes of UTF-8).\<close>

definition titled :: "string \<Rightarrow> string \<Rightarrow> string" where
  "titled what subject = what @ '' '' @ [CHR 0xE2, CHR 0x80, CHR 0x94] @ '' '' @ subject"

section \<open>A node\<close>

definition nodeHealthCheck :: "string \<Rightarrow> diagnosis \<Rightarrow> node_text doctor_check" where
  "nodeHealthCheck nodeName d =
    (let details = map (\<lambda>s. if sx_ok s then StageOk (sx_stage s) (sx_duration_ms s) else StageFailed (sx_stage s) (sx_err s)) (dg_stages d);
         r = (\<lambda>st summary. row ''node_health'' (titled ''Node connectivity'' nodeName) st summary details None) in
     if dg_ok d then r ''ok'' (NodeCarries (if dg_stages d = [] then 0 else sx_duration_ms (last (dg_stages d))))
     else if dg_failed_stage d = StageConfig then r ''fail'' InvalidConfig
     else if dg_failed_stage d = StageTCP then r ''fail'' EndpointDown
     else r ''fail'' TunnelClosed)"

definition camouflageThresholdBytes :: nat where "camouflageThresholdBytes = 16 * 1024"

definition camouflageCheck :: "string \<Rightarrow> camouflage_report \<Rightarrow> front_text doctor_check" where
  "camouflageCheck nodeName r =
    (let c = row ''camouflage'' (titled ''Node camouflage'' nodeName);
         d0 = (if cr_sni r \<noteq> [] then [FrontSNI (cr_sni r)] else []);
         d1 = d0 @ [TCPConnected (cr_address r)];
         d2 = d1 @ [CertLine (cr_sni r)];
         kb = cr_bytes_read r div 1024;
         d3 = d2 @ (if cr_http_status r > 0 then [DecoyStatus (cr_http_status r)] else []) in
     if \<not> cr_tcp_ok r then c ''fail'' ServerUnreachable (d0 @ [TCPFailed (cr_address r) (cr_err r)]) None
     else if \<not> cr_tls_ok r then c ''fail'' FrontBroken (d1 @ [TLSFailed (cr_err r)]) None
     else if cr_frozen r then c ''warn'' (FrozeAfter kb) (d2 @ [FrozeDetail kb, FrozeAdvice]) None
     else if cr_bytes_read r \<ge> camouflageThresholdBytes then c ''ok'' (FrontHealthy kb) d3 None
     else c ''ok'' (FrontIntact kb) (d3 @ [DecoySmall]) None)"

section \<open>Resolvers\<close>

definition resolverKindLabel :: "string \<Rightarrow> string" where
  "resolverKindLabel typ = (if typ = ''tls'' then ''DoT'' else if typ = ''https'' then ''DoH'' else if typ = ''udp'' then ''plain DNS'' else typ)"

definition resolverLabel :: "string \<Rightarrow> string \<Rightarrow> string" where
  "resolverLabel typ addr = resolverKindLabel typ @ '' '' @ addr"

definition anyReachable :: "upstream_probe list \<Rightarrow> bool" where
  "anyReachable probes = list_ex dp_reachable probes"

text \<open>The first server at the address moves to the front.\<close>

definition promoteResolver :: "dns_server list \<Rightarrow> string \<Rightarrow> dns_server list" where
  "promoteResolver servers addr = (case List.extract (\<lambda>s. ds_address s = addr) servers of
     None \<Rightarrow> servers
   | Some (pre, s, post) \<Rightarrow> s # pre @ post)"

definition resolverCheckResult :: "dns_server list \<Rightarrow> upstream_probe list \<Rightarrow> bool \<Rightarrow> dns_server option \<Rightarrow> resolver_text doctor_check" where
  "resolverCheckResult servers probes viaTunnel candidate =
    (let c = row ''resolvers'' ''DNS resolvers''; details = map UpstreamLine probes;
         servers_remedy = (\<lambda>t ss. Some \<lparr>rm_summary = t, rm_dns_strategy = [], rm_dns_servers = ss, rm_dns_via_tunnel = None\<rparr>) in
     if servers = [] then c ''warn'' NoUpstream [] (servers_remedy UseCloudflare [\<lparr>ds_type = ''tls'', ds_address = ''1.1.1.1''\<rparr>])
     else if viaTunnel then c ''ok'' ViaTunnelSummary (details @ [ViaTunnelDetail]) None
     else (let p0 = hd probes; label = resolverLabel (dp_type p0) (dp_address p0) in
       if dp_reachable p0 then c ''ok'' (ResolverReachable label) details None
       else c ''warn'' (ResolverUnreachable label) details
         (case find dp_reachable (tl probes) of
            Some p \<Rightarrow> servers_remedy (MakePrimary (dp_address p)) (promoteResolver servers (dp_address p))
          | None \<Rightarrow> (case candidate of
              Some cand \<Rightarrow> servers_remedy (SwitchTo (ds_address cand) (resolverKindLabel (ds_type cand))) (cand # servers)
            | None \<Rightarrow> Some \<lparr>rm_summary = RouteThroughTunnel, rm_dns_strategy = [], rm_dns_servers = [], rm_dns_via_tunnel = Some True\<rparr>))))"

definition resolverCheck :: "probe_net \<Rightarrow> settings \<Rightarrow> resolver_text doctor_check" where
  "resolverCheck pn s =
    (let servers = dn_servers (st_dns s); probes = ProbeResolvers pn servers;
         candidate = (if \<not> dn_via_tunnel (st_dns s) \<and> probes \<noteq> [] \<and> \<not> dp_reachable (hd probes) \<and> \<not> anyReachable (tl probes)
           then FirstReachableCandidate pn (map ds_address servers) else None)
     in resolverCheckResult servers probes (dn_via_tunnel (st_dns s)) candidate)"

section \<open>Connectivity and address families\<close>

definition normalizeStrategy :: "string \<Rightarrow> string" where
  "normalizeStrategy s = (if s \<in> {''prefer_ipv4'', ''prefer_ipv6'', ''ipv4_only'', ''ipv6_only''} then s else ''prefer_ipv4'')"

definition leansV4 :: "string \<Rightarrow> bool" where "leansV4 cur = (cur = ''prefer_ipv4'' \<or> cur = ''ipv4_only'')"
definition leansV6 :: "string \<Rightarrow> bool" where "leansV6 cur = (cur = ''prefer_ipv6'' \<or> cur = ''ipv6_only'')"

definition strategy_change :: "remedy_text \<Rightarrow> string \<Rightarrow> remedy" where
  "strategy_change t s = \<lparr>rm_summary = t, rm_dns_strategy = s, rm_dns_servers = [], rm_dns_via_tunnel = None\<rparr>"

definition strategyRemedy :: "bool \<Rightarrow> bool \<Rightarrow> string \<Rightarrow> remedy option" where
  "strategyRemedy v4 v6 cur =
    (if v6 \<and> \<not> v4 \<and> leansV4 cur then Some (strategy_change PreferIPv6 ''prefer_ipv6'')
     else if v4 \<and> \<not> v6 \<and> leansV6 cur then Some (strategy_change PreferIPv4 ''prefer_ipv4'')
     else None)"

definition familyDisabled :: "string \<Rightarrow> string \<Rightarrow> string \<Rightarrow> bool" where
  "familyDisabled fam ipVersion strategy =
    (if fam = ''v4'' then ipVersion = ''v6'' \<or> strategy = ''ipv6_only''
     else if fam = ''v6'' then ipVersion = ''v4'' \<or> strategy = ''ipv4_only''
     else False)"

definition familyLine :: "string \<Rightarrow> bool \<Rightarrow> string \<Rightarrow> bool \<Rightarrow> internet_text" where
  "familyLine label ok detail disabled =
    (if ok then FamilyReachable label else if disabled then FamilyExpected label else FamilyUnreachable label detail)"

definition resolverLine :: "internet_report \<Rightarrow> internet_text" where
  "resolverLine r = ResolverLine
    (if ir_resolve_err r \<noteq> [] then ''failed ('' @ ir_resolve_err r @ '')''
     else if ir_resolver_v4 r \<and> ir_resolver_v6 r then ''answers A and AAAA''
     else if ir_resolver_v4 r then ''answers A only''
     else if ir_resolver_v6 r then ''answers AAAA only''
     else ''no records'')"

definition reachableFamily :: "bool \<Rightarrow> bool \<Rightarrow> string" where
  "reachableFamily v4 v6 = (if v4 \<and> v6 then ''IPv4 and IPv6'' else if v4 then ''IPv4'' else if v6 then ''IPv6'' else ''neither family'')"

text \<open>The later findings only raise a row that is still ok.\<close>

definition warn_if_ok :: "'t doctor_check \<Rightarrow> 't doctor_check" where
  "warn_if_ok c = (if dc_status c = ''ok'' then c\<lparr>dc_status := ''warn''\<rparr> else c)"

definition add_detail :: "'t \<Rightarrow> 't doctor_check \<Rightarrow> 't doctor_check" where
  "add_detail t c = c\<lparr>dc_details := dc_details c @ [t]\<rparr>"

definition pinned_dead :: "internet_report \<Rightarrow> string \<Rightarrow> internet_text doctor_check \<Rightarrow> internet_text doctor_check" where
  "pinned_dead r ipVersion c =
    (if ipVersion = ''v4'' \<and> \<not> ir_v4 r \<and> ir_v6 r \<or> ipVersion = ''v6'' \<and> \<not> ir_v6 r \<and> ir_v4 r
     then warn_if_ok (add_detail (PinnedDead ipVersion) c) else c)"

definition pinned_loses :: "internet_report \<Rightarrow> string \<Rightarrow> internet_text doctor_check \<Rightarrow> internet_text doctor_check" where
  "pinned_loses r ipVersion c =
    (if ipVersion = ''v4'' \<and> ir_v4 r \<and> ir_v6 r then warn_if_ok (add_detail PinnedV4Loses c)
     else if ipVersion = ''v6'' \<and> ir_v6 r \<and> ir_v4 r then warn_if_ok (add_detail PinnedV6Loses c)
     else c)"

definition offer :: "bool \<Rightarrow> remedy \<Rightarrow> 't doctor_check \<Rightarrow> 't doctor_check" where
  "offer works rem c = (if works \<and> dc_remedy c = None then c\<lparr>dc_remedy := Some rem\<rparr> else c)"

definition contradiction :: "internet_report \<Rightarrow> string \<Rightarrow> string \<Rightarrow> internet_text doctor_check \<Rightarrow> internet_text doctor_check" where
  "contradiction r ipVersion cur c =
    (if ipVersion = ''v4'' \<and> leansV6 cur
     then offer (ir_v4 r) (strategy_change PinIPv4 ''ipv4_only'') (add_detail (StrategyForbidden cur ''v4'') (c\<lparr>dc_status := ''warn''\<rparr>))
     else if ipVersion = ''v6'' \<and> leansV4 cur
     then offer (ir_v6 r) (strategy_change PinIPv6 ''ipv6_only'') (add_detail (StrategyForbidden cur ''v6'') (c\<lparr>dc_status := ''warn''\<rparr>))
     else c)"

definition internetCheck :: "internet_report \<Rightarrow> string \<Rightarrow> string \<Rightarrow> internet_text doctor_check" where
  "internetCheck r ipVersion strategy =
    (let cur = normalizeStrategy strategy;
         details = [familyLine ''IPv4'' (ir_v4 r) (ir_v4_detail r) (familyDisabled ''v4'' ipVersion cur),
                    familyLine ''IPv6'' (ir_v6 r) (ir_v6_detail r) (familyDisabled ''v6'' ipVersion cur), resolverLine r];
         c = row ''internet'' ''Internet connectivity'';
         summary = (if ir_v4 r \<and> ir_v6 r then OnlineBoth else if ir_v4 r then OnlineV4 else OnlineV6) in
     if \<not> ir_v4 r \<and> \<not> ir_v6 r then c ''fail'' NoInternet details None
     else (let rem = strategyRemedy (ir_v4 r) (ir_v6 r) cur;
               c1 = (case rem of
                 Some x \<Rightarrow> c ''warn'' summary (details @ [StrategyMismatch cur (reachableFamily (ir_v4 r) (ir_v6 r))]) rem
               | None \<Rightarrow> c ''ok'' summary details None)
           in contradiction r ipVersion cur (pinned_loses r ipVersion (pinned_dead r ipVersion c1))))"

section \<open>Connection quality\<close>

definition primaryUpstream :: "settings \<Rightarrow> dns_server" where
  "primaryUpstream s = (case dn_servers (st_dns s) of [] \<Rightarrow> \<lparr>ds_type = ''tls'', ds_address = ''8.8.8.8''\<rparr> | up # _ \<Rightarrow> up)"

definition stageDuration :: "quality_report \<Rightarrow> string \<Rightarrow> string" where
  "stageDuration r stage = (case find (\<lambda>s. qs_stage s = stage) (qr_stages r) of
     None \<Rightarrow> [] | Some s \<Rightarrow> FormatInt (qs_duration_ms s) @ '' ms'')"

definition connectionQualityCheck :: "quality_report \<Rightarrow> quality_text doctor_check" where
  "connectionQualityCheck r =
    (let c = (\<lambda>st summary. row ''connection_quality'' (titled ''Connection quality'' (qr_target r)) st summary
           (map QualityStageLine (qr_stages r)) None) in
     if \<not> qr_ok r then c ''fail'' (QualityFailed (qr_failed_stage r))
     else if qr_bottleneck r \<noteq> [] then c ''warn'' (QualityBottleneck (qr_bottleneck r) (stageDuration r (qr_bottleneck r)))
     else c ''ok'' QualityHealthy)"

section \<open>The network report\<close>

definition providerCheck :: "provider_result \<Rightarrow> provider_text doctor_check" where
  "providerCheck r =
    (let c = row (''provider:'' @ pv_name r) (titled ''Provider'' (pv_name r)); d = [ProviderEndpoint (pv_host r)]; kb = pv_bytes_read r div 1024 in
     if \<not> pv_tcp_ok r
     then c ''fail'' (if Contains (pv_err r) ''lookup '' \<or> Contains (pv_err r) ''no such host'' \<or> Contains (pv_err r) ''name resolution''
                      then ProviderUnresolved else ProviderBlocked) (d @ [ProviderError (pv_err r)]) None
     else if \<not> pv_tls_ok r then c ''warn'' ProviderTLS (d @ [ProviderError (''TLS: '' @ pv_err r)]) None
     else if pv_frozen r then c ''warn'' (ProviderFrozen kb) d None
     else c ''ok'' (ProviderReachable kb) d None)"

definition dnsIntegrityCheck :: "dns_report \<Rightarrow> dns_text doctor_check" where
  "dnsIntegrityCheck r =
    (let c = row ''dns_integrity'' ''DNS integrity'';
         part = (\<lambda>b issue t. if b then [(issue, t)] else []);
         found = part (dr_poisoned r \<noteq> []) ''poisoning'' (PoisonedNames (dr_poisoned r)) @
           part (dr_stub_ips r \<noteq> []) ''stub IPs'' (StubAddresses (dr_stub_ips r)) @
           part (dr_udp_hijacked r) ''UDP/53 hijack'' UDPIntercepted in
     if \<not> dr_doh_works r then c ''warn'' DoHBlocked [DoHError (dr_doh_err r)] None
     else if found \<noteq> [] then c ''warn'' (Tampered (map fst found)) (DoHWorks # map snd found) None
     else c ''ok'' DNSClean [DoHWorks] None)"

definition protocolsCheck :: "protocol_result list \<Rightarrow> protocol_text doctor_check" where
  "protocolsCheck rs =
    (let blocked = map po_name (filter (\<lambda>p. \<not> po_ok p) rs);
         c = (\<lambda>st summary. row ''protocols'' ''Transport reachability'' st summary (map (\<lambda>p. ProtocolLine (po_name p) (po_ok p) (po_detail p)) rs) None) in
     if blocked = [] then c ''ok'' AllTransports else c ''warn'' (BlockedTransports blocked))"

definition forwardingCheck :: "forwarding_report \<Rightarrow> forwarding_text doctor_check option" where
  "forwardingCheck r =
    (let c = row ''forwarded_traffic'' ''Docker / LAN forwarding''; present = (if fw_bridges r \<noteq> [] then [BridgesPresent (fw_bridges r)] else []) in
     if \<not> fw_linux r then None
     else if fw_ufw_active r \<and> fw_input_deny r \<and> fw_bridges r \<noteq> []
     then Some (c ''warn'' (ForwardingDropped (fw_bridges r))
       [UFWDenies (fw_policy_detail r), RedirectExplained, BridgesAffected (fw_bridges r), FixHostNetwork, FixAllow] None)
     else if fw_bridges r = [] then Some (c ''ok'' NoBridges present None)
     else if \<not> fw_ufw_active r then Some (c ''ok'' UFWInactive present None)
     else if \<not> fw_input_deny r then Some (c ''ok'' PolicyNotDeny present None)
     else Some (c ''ok'' NoConflict present None))"

section \<open>The verbs\<close>

record doctor_env =
  dx_dv :: daemon_env
  dx_net :: probe_net
  dx_fronts :: "string \<Rightarrow> string \<Rightarrow> front"
  dx_node :: node_env
  dx_quality :: "dns_server \<Rightarrow> quality_env"
  dx_dns :: dns_env
  dx_banner :: "string \<Rightarrow> string option \<times> (string + string)"
  dx_ufw :: "string option"
  dx_default_ufw :: "string option"
  dx_ifaces :: "(string \<times> bool) list option"

datatype doctor_fault =
    DoctorSettings "file_error + settings_error"
  | DoctorStore file_error
  | NoProfileToPing
  | NoNodesToPing
  | NoProfileToDiagnose
  | NodeNotFound string string
  | NoActiveNode
  | CannotDiagnoseGroup
  | NoCoreForNode proxy_error

definition ProbeURL :: string where "ProbeURL = ''https://www.gstatic.com/generate_204''"

text \<open>The endpoint and the budget in seconds.\<close>

definition probeParams :: "daemon_env \<Rightarrow> manager \<Rightarrow> string \<times> int" where
  "probeParams dv m = (case load_settings dv m of
     Inl _ \<Rightarrow> (ProbeURL, 45) | Inr s \<Rightarrow> (pr_url (st_latency_probe s), pr_budget_secs (st_latency_probe s)))"

text \<open>The running session's profile and whether it is a TUN session.\<close>

definition session_profile :: "manager \<Rightarrow> string \<times> bool" where
  "session_profile m = (case mg_active m of
     Some e \<Rightarrow> (case pe_profile e of Some name \<Rightarrow> (name, pe_tun e) | None \<Rightarrow> ([], False))
   | None \<Rightarrow> ([], False))"

definition activeProfileForDoctor :: "daemon_env \<Rightarrow> manager \<Rightarrow> file_error + user_profile option" where
  "activeProfileForDoctor dv m =
    (let load = (\<lambda>name. rbind (load_profile dv m name) (\<lambda>p. Inr (Some p))); name = fst (session_profile m) in
     if name \<noteq> [] then load name
     else rbind (ActiveProfileName (mg_fs m)) (\<lambda>n. if n = [] then Inr None else load n))"

definition tun_active :: "manager \<Rightarrow> bool" where
  "tun_active m = (case mg_active m of None \<Rightarrow> False | Some e \<Rightarrow> pe_tun e)"

definition nodeHealth :: "node_env \<Rightarrow> node \<Rightarrow> string \<Rightarrow> bool \<Rightarrow> node_text doctor_check option" where
  "nodeHealth nv n url tunExempt = (case SelectCore (nd_doc n) CoreSingBox (nd_core_override n) of
     Inl _ \<Rightarrow> None
   | Inr core \<Rightarrow> map_option (\<lambda>p. nodeHealthCheck (node_DisplayName n) (DiagnoseNode nv p core (nd_id n) url tunExempt)) (nd_doc n))"

text \<open>The rows of one node: its health when some core can dial it, and the camouflage row when it has a TLS front over TCP.\<close>

definition node_rows :: "doctor_env \<Rightarrow> string \<Rightarrow> bool \<Rightarrow> node \<Rightarrow> doctor_text doctor_check list option" where
  "node_rows dx url tunExempt n =
    (let health = (case nodeHealth (dx_node dx) n url tunExempt of None \<Rightarrow> [] | Some c \<Rightarrow> [map_row NodeText c]) in
     case nd_doc n of
       None \<Rightarrow> Some health
     | Some p \<Rightarrow> if HasCamouflage (Some p)
         then map_option (\<lambda>r. health @ [map_row FrontText (camouflageCheck (node_DisplayName n) r)]) (ProbeCamouflage (dx_fronts dx) p)
         else Some health)"

definition doctor :: "doctor_env \<Rightarrow> manager \<Rightarrow> doctor_fault + doctor_text doctor_check list option" where
  "doctor dx m = (case load_settings (dx_dv dx) m of
     Inl e \<Rightarrow> Inl (DoctorSettings e)
   | Inr s \<Rightarrow>
      (let prof = (case activeProfileForDoctor (dx_dv dx) m of Inl _ \<Rightarrow> None | Inr p \<Rightarrow> p);
           node = (case prof of None \<Rightarrow> None | Some p \<Rightarrow> (case ActiveNode p of None \<Rightarrow> None | Some n \<Rightarrow> if IsGroup n then None else Some n));
           up = primaryUpstream s;
           base = [map_row InternetText (internetCheck (ProbeInternet (dx_net dx)) (st_ip_version s) (dn_strategy (st_dns s))),
                   map_row ResolverText (resolverCheck (dx_net dx) s),
                   map_row QualityText (connectionQualityCheck (ProbeConnectionQuality (dx_quality dx up) up []))] in
       Inr (case node of
         None \<Rightarrow> Some base
       | Some n \<Rightarrow> map_option (\<lambda>rows. base @ rows) (node_rows dx (fst (probeParams (dx_dv dx) m)) (tun_active m) n))))"

definition doctorNodes :: "doctor_env \<Rightarrow> manager \<Rightarrow> doctor_fault + doctor_text doctor_check list option" where
  "doctorNodes dx m = (case activeProfileForDoctor (dx_dv dx) m of
     Inl e \<Rightarrow> Inl (DoctorStore e)
   | Inr None \<Rightarrow> Inr (Some [])
   | Inr (Some p) \<Rightarrow> Inr (map_option concat (those
       (map (\<lambda>n. if IsGroup n then Some [] else node_rows dx (fst (probeParams (dx_dv dx) m)) (tun_active m) n) (pf_nodes p)))))"

definition networkReport :: "doctor_env \<Rightarrow> doctor_text doctor_check list option" where
  "networkReport dx = map_option (\<lambda>ps. map (\<lambda>r. map_row ProviderText (providerCheck r)) ps @
     [map_row DNSText (dnsIntegrityCheck (ProbeDNSIntegrity (dx_dns dx))),
      map_row ProtocolText (protocolsCheck (ProbeProtocols (dx_net dx) (dx_banner dx)))]) (ProbeProviders (dx_fronts dx))"

definition forwardingReport :: "doctor_env \<Rightarrow> doctor_text doctor_check list" where
  "forwardingReport dx = (case forwardingCheck (ProbeForwarding (nv_goos (dx_node dx) = ''linux'') (dx_ufw dx) (dx_default_ufw dx) (dx_ifaces dx)) of None \<Rightarrow> [] | Some c \<Rightarrow> [map_row ForwardingText c])"

text \<open>The profile that \<^verbatim>\<open>test_latency\<close> and \<^verbatim>\<open>diagnose\<close> work on; \<open>missing\<close> is their reply when there is none.\<close>

definition probed_profile :: "doctor_fault \<Rightarrow> daemon_env \<Rightarrow> manager \<Rightarrow> doctor_fault + (string \<times> user_profile)" where
  "probed_profile missing dv m =
    (let load = (\<lambda>name. case load_profile dv m name of Inl e \<Rightarrow> Inl (DoctorStore e) | Inr p \<Rightarrow> Inr (name, p)); name = fst (session_profile m) in
     if name \<noteq> [] then load name
     else (case ActiveProfileName (mg_fs m) of Inl e \<Rightarrow> Inl (DoctorStore e) | Inr n \<Rightarrow> if n = [] then Inl missing else load n))"

definition probeNodeLatency :: "node_env \<Rightarrow> node \<Rightarrow> string \<Rightarrow> string \<Rightarrow> bool \<Rightarrow> int option" where
  "probeNodeLatency nv n stubSuffix url tunExempt = (case SelectCore (nd_doc n) CoreSingBox (nd_core_override n) of
     Inl _ \<Rightarrow> None
   | Inr core \<Rightarrow> (case nd_doc n of
       None \<Rightarrow> None
     | Some p \<Rightarrow> (case (if core = CoreXray then ProbeLatency nv p stubSuffix url else ProbeLatencySingBox nv p url tunExempt) of
         Inl _ \<Rightarrow> None | Inr ms \<Rightarrow> Some ms)))"

text \<open>A latency as the wire carries it: capped at 65535 milliseconds.\<close>

definition wire_latency :: "int \<Rightarrow> u16" where
  "wire_latency ms = word_of_int (min ms 65535)"

definition testLatency :: "doctor_env \<Rightarrow> string list option \<Rightarrow> manager \<Rightarrow> doctor_fault + (string \<times> u16 option) list" where
  "testLatency dx names m = (case probed_profile NoProfileToPing (dx_dv dx) m of
     Inl f \<Rightarrow> Inl f
   | Inr (_, p) \<Rightarrow>
      (let nodes = filter (\<lambda>n. \<not> IsGroup n) (case names of
             None \<Rightarrow> pf_nodes p
           | Some refs \<Rightarrow> List.map_filter (FindNode p) refs) in
       if nodes = [] then Inl NoNodesToPing
       else Inr (map (\<lambda>(i, n). (node_DisplayName n, map_option wire_latency
              (probeNodeLatency (dx_node dx) n (FormatUint 10 i @ ''-'' @ nd_id n) (fst (probeParams (dx_dv dx) m)) (snd (session_profile m)))))
            (enumerate 0 nodes))))"

definition diagnose :: "doctor_env \<Rightarrow> string option \<Rightarrow> manager \<Rightarrow> doctor_fault + (string \<times> diagnosis)" where
  "diagnose dx ref m = (case probed_profile NoProfileToDiagnose (dx_dv dx) m of
     Inl f \<Rightarrow> Inl f
   | Inr (name, p) \<Rightarrow>
      (case (if ref \<noteq> None \<and> ref \<noteq> Some []
             then (case FindNode p (the ref) of None \<Rightarrow> Inl (NodeNotFound (the ref) name) | Some n \<Rightarrow> Inr n)
             else (case ActiveNode p of None \<Rightarrow> Inl NoActiveNode | Some n \<Rightarrow> Inr n)) of
        Inl f \<Rightarrow> Inl f
      | Inr n \<Rightarrow>
         if IsGroup n then Inl CannotDiagnoseGroup
         else (case SelectCore (nd_doc n) CoreSingBox (nd_core_override n) of
           Inl e \<Rightarrow> Inl (NoCoreForNode e)
         | Inr core \<Rightarrow> (case nd_doc n of
             None \<Rightarrow> Inl (NoCoreForNode GroupHasNoProfile)
           | Some q \<Rightarrow> Inr (node_DisplayName n,
               DiagnoseNode (dx_node dx) q core (nd_id n) (fst (probeParams (dx_dv dx) m)) (snd (session_profile m)))))))"

section \<open>Verdicts\<close>

lemma row_sel [simp]:
  "dc_status (row i t st sm d rem) = st" "dc_remedy (row i t st sm d rem) = rem" "dc_summary (row i t st sm d rem) = sm"
  "dc_details (row i t st sm d rem) = d"
  by (simp_all add: row_def)

lemma map_row_sel [simp]: "dc_status (map_row f c) = dc_status c" "dc_remedy (map_row f c) = dc_remedy c"
  by (simp_all add: map_row_def)

definition sound_row :: "'t doctor_check \<Rightarrow> bool" where
  "sound_row c = (dc_status c \<in> {''ok'', ''warn'', ''fail''} \<and> (dc_remedy c \<noteq> None \<longrightarrow> dc_status c = ''warn''))"

lemma sound_map_row [simp]: "sound_row (map_row f c) = sound_row c"
  by (simp add: sound_row_def)

lemma sound_row_row: "sound_row (row i t st sm d rem) \<longleftrightarrow> st \<in> {''ok'', ''warn'', ''fail''} \<and> (rem \<noteq> None \<longrightarrow> st = ''warn'')"
  by (simp add: sound_row_def)

lemma sound_node [simp]: "sound_row (nodeHealthCheck name d)"
  by (simp add: nodeHealthCheck_def Let_def sound_row_row)

lemma sound_camouflage [simp]: "sound_row (camouflageCheck name r)"
  by (simp add: camouflageCheck_def Let_def sound_row_row)

lemma sound_resolver [simp]: "sound_row (resolverCheck pn s)"
  by (simp add: resolverCheck_def resolverCheckResult_def Let_def sound_row_row)

lemma sound_quality [simp]: "sound_row (connectionQualityCheck r)"
  by (simp add: connectionQualityCheck_def Let_def sound_row_row)

lemma internet_layers:
  "sound_row c \<Longrightarrow> sound_row (pinned_dead r ip c)" "sound_row c \<Longrightarrow> sound_row (pinned_loses r ip c)"
  "sound_row c \<Longrightarrow> sound_row (contradiction r ip cur c)"
  by (auto simp: sound_row_def pinned_dead_def pinned_loses_def contradiction_def warn_if_ok_def add_detail_def offer_def)

lemma sound_internet [simp]: "sound_row (internetCheck r ip strategy)"
  unfolding internetCheck_def Let_def
  by (auto intro!: internet_layers simp: sound_row_row split: option.splits)

lemma sound_nodeHealth: "nodeHealth nv n url tun = Some c \<Longrightarrow> sound_row c"
  by (auto simp: nodeHealth_def split: sum.splits)

lemma sound_node_rows: "node_rows dx url tun n = Some rows \<Longrightarrow> list_all sound_row rows"
  by (auto simp: node_rows_def Let_def dest: sound_nodeHealth split: option.splits if_splits)

lemma sound_doctor: "doctor dx m = Inr (Some rows) \<Longrightarrow> list_all sound_row rows"
  by (auto simp: doctor_def Let_def dest: sound_node_rows split: sum.splits option.splits if_splits)

lemma extract_distinct:
  assumes "distinct (map ds_address servers)" and "s \<in> set servers"
  shows "\<exists>pre post. List.extract (\<lambda>x. ds_address x = ds_address s) servers = Some (pre, s, post) \<and> servers = pre @ s # post"
proof -
  obtain pre post where split: "servers = pre @ s # post" using assms(2) by (meson split_list)
  with assms(1) have "ds_address s \<notin> ds_address ` set pre" by auto
  then have "\<forall>x \<in> set pre. ds_address x \<noteq> ds_address s" by (metis imageI)
  then have "List.extract (\<lambda>x. ds_address x = ds_address s) servers = Some (pre, s, post)"
    unfolding split by (simp add: extract_Some_iff)
  with split show ?thesis by blast
qed

lemma promoteResolver_distinct:
  assumes "distinct (map ds_address servers)" and "s \<in> set servers"
  shows "\<exists>rest. promoteResolver servers (ds_address s) = s # rest \<and> insert s (set rest) = set servers"
  using extract_distinct [OF assms] by (auto simp: promoteResolver_def)

abbreviation reaches :: "probe_net \<Rightarrow> dns_server \<Rightarrow> bool" where
  "reaches pn s \<equiv> dp_reachable (ProbeDNSUpstream pn (ds_type s) (ds_address s))"

lemma ProbeDNSUpstream_sel [simp]:
  "dp_address (ProbeDNSUpstream pn t a) = a" "dp_type (ProbeDNSUpstream pn t a) = t"
  by (simp_all add: ProbeDNSUpstream_def split: prod.split)

lemma find_probe:
  "find dp_reachable (ProbeResolvers pn ss) = map_option (\<lambda>s. ProbeDNSUpstream pn (ds_type s) (ds_address s)) (find (reaches pn) ss)"
  by (induction ss) (simp_all add: ProbeResolvers_def)

lemma anyReachable_find: "anyReachable (ProbeResolvers pn ss) = (find (reaches pn) ss \<noteq> None)"
  by (induction ss) (simp_all add: ProbeResolvers_def anyReachable_def)

lemma resolver_first_reachable:
  assumes "dn_servers (st_dns s) = a # ss" and "reaches pn a"
  shows "dc_status (resolverCheck pn s) = ''ok''" "dc_remedy (resolverCheck pn s) = None"
  using assms by (simp_all add: resolverCheck_def resolverCheckResult_def ProbeResolvers_def Let_def)

text \<open>The remedy of an unreachable primary, as a function of the servers.\<close>

lemma resolver_remedy_cases:
  assumes "dn_servers (st_dns s) = a # ss" and "dc_remedy (resolverCheck pn s) = Some rm" and "rm_dns_servers rm \<noteq> []"
  shows "(\<exists>b \<in> set ss. reaches pn b \<and> rm_dns_servers rm = promoteResolver (a # ss) (ds_address b)) \<or>
    (\<exists>c. reaches pn c \<and> rm_dns_servers rm = c # a # ss)"
proof -
  have tl: "map (\<lambda>s. ProbeDNSUpstream pn (ds_type s) (ds_address s)) ss = ProbeResolvers pn ss" by (simp add: ProbeResolvers_def)
  show ?thesis
  proof (cases "find (reaches pn) ss")
    case (Some b)
    then have b: "b \<in> set ss" "reaches pn b" by (auto simp: find_Some_iff)
    from assms Some have "rm_dns_servers rm = promoteResolver (a # ss) (ds_address b)"
      by (auto simp: resolverCheck_def resolverCheckResult_def Let_def ProbeResolvers_def [of pn "a # ss"] tl find_probe split: if_splits)
    with b show ?thesis by blast
  next
    case None
    with assms obtain c where c: "FirstReachableCandidate pn (map ds_address (a # ss)) = Some c" "rm_dns_servers rm = c # a # ss"
      by (auto simp: resolverCheck_def resolverCheckResult_def Let_def ProbeResolvers_def [of pn "a # ss"] tl find_probe anyReachable_find
            split: if_splits option.splits)
    then show ?thesis by (auto simp: FirstReachableCandidate_def find_Some_iff)
  qed
qed

section \<open>Properties\<close>

text \<open>
  C27. The resolver remedy works. When the configured upstreams have distinct addresses and the check proposes a new list of them,
  the list keeps every configured upstream, and the check over the new list is ok with nothing further to propose.
\<close>

theorem resolver_remedy_sound:
  assumes "dn_servers (st_dns s) \<noteq> []" and "distinct (map ds_address (dn_servers (st_dns s)))"
    and "dc_remedy (resolverCheck pn s) = Some rm" and "rm_dns_servers rm \<noteq> []"
  shows "let s' = s\<lparr>st_dns := (st_dns s)\<lparr>dn_servers := rm_dns_servers rm\<rparr>\<rparr> in
    set (dn_servers (st_dns s)) \<subseteq> set (rm_dns_servers rm) \<and>
    dc_status (resolverCheck pn s') = ''ok'' \<and> dc_remedy (resolverCheck pn s') = None"
proof -
  obtain a ss where as: "dn_servers (st_dns s) = a # ss" using assms(1) by (cases "dn_servers (st_dns s)") auto
  have "\<exists>b rest. rm_dns_servers rm = b # rest \<and> reaches pn b \<and> set (a # ss) \<subseteq> insert b (set rest)"
    using resolver_remedy_cases [OF as assms(3,4)]
  proof
    assume "\<exists>b \<in> set ss. reaches pn b \<and> rm_dns_servers rm = promoteResolver (a # ss) (ds_address b)"
    then obtain b where b: "b \<in> set (a # ss)" "reaches pn b" "rm_dns_servers rm = promoteResolver (a # ss) (ds_address b)" by auto
    with promoteResolver_distinct [of "a # ss" b] assms(2) as show ?thesis by (metis subset_refl)
  qed auto
  then obtain b rest where b: "rm_dns_servers rm = b # rest" "reaches pn b" "set (a # ss) \<subseteq> insert b (set rest)" by blast
  let ?s = "s\<lparr>st_dns := (st_dns s)\<lparr>dn_servers := rm_dns_servers rm\<rparr>\<rparr>"
  have "dn_servers (st_dns ?s) = b # rest" using b by simp
  from resolver_first_reachable [OF this b(2)] b(1,3) as show ?thesis unfolding Let_def by simp
qed

text \<open>A host where one plain resolver answers and only IPv6 connects.\<close>

definition sample_net :: probe_net where
  "sample_net = \<lparr>pn_dial = (\<lambda>network _. if network = ''tcp6'' then None else Some ''refused''), pn_families = (\<lambda>_. Inr []),
     pn_udp_query = (\<lambda>a _. if a = ''8.8.8.8:53'' then None else Some ''timeout''), pn_handshake = (\<lambda>_ _. None)\<rparr>"

definition sample_upstreams :: settings where
  "sample_upstreams = (DefaultSettings ''linux'')\<lparr>st_dns := (st_dns (DefaultSettings ''linux''))\<lparr>dn_servers :=
     [\<lparr>ds_type = ''udp'', ds_address = ''1.1.1.1''\<rparr>, \<lparr>ds_type = ''udp'', ds_address = ''8.8.8.8''\<rparr>], dn_via_tunnel := False\<rparr>\<rparr>"

theorem resolver_remedy_sound_witness:
  "case dc_remedy (resolverCheck sample_net sample_upstreams) of None \<Rightarrow> False | Some rm \<Rightarrow>
     dc_status (resolverCheck sample_net (sample_upstreams\<lparr>st_dns := (st_dns sample_upstreams)\<lparr>dn_servers := rm_dns_servers rm\<rparr>\<rparr>)) = ''ok''"
proof -
  have "\<exists>rm. dc_remedy (resolverCheck sample_net sample_upstreams) = Some rm \<and> rm_dns_servers rm \<noteq> []"
    by (simp add: resolverCheck_def resolverCheckResult_def ProbeResolvers_def ProbeDNSUpstream_def probeUDPResolver_def JoinHostPort_def
          sample_net_def sample_upstreams_def promoteResolver_def extract_Cons_code Let_def)
  then obtain rm where rm: "dc_remedy (resolverCheck sample_net sample_upstreams) = Some rm" "rm_dns_servers rm \<noteq> []" by blast
  have "dn_servers (st_dns sample_upstreams) \<noteq> []" "distinct (map ds_address (dn_servers (st_dns sample_upstreams)))"
    by (simp_all add: sample_upstreams_def)
  from resolver_remedy_sound [OF this rm] rm(1) show ?thesis by (simp add: Let_def)
qed

text \<open>
  The address-family remedy works on a dual-stack TUN. The check proposes a strategy only when exactly one family is reachable; with that
  strategy in the settings the session resolves for the reachable family first, and the check is ok with nothing further to propose.
\<close>

theorem internet_remedy_settles:
  assumes "ip \<noteq> ''v4''" and "ip \<noteq> ''v6''" and "dc_remedy (internetCheck r ip strategy) = Some rm"
  shows "let c = internetCheck r ip (rm_dns_strategy rm) in
    ir_v4 r \<noteq> ir_v6 r \<and> dc_status c = ''ok'' \<and> dc_remedy c = None \<and>
    dnsStrategy (rm_dns_strategy rm) ip = (if ir_v4 r then ''prefer_ipv4'' else ''prefer_ipv6'')"
  using assms by (cases "ir_v4 r"; cases "ir_v6 r")
    (auto simp: internetCheck_def strategyRemedy_def strategy_change_def Let_def pinned_dead_def pinned_loses_def contradiction_def
       normalizeStrategy_def leansV4_def leansV6_def dnsStrategy_def split: if_splits)

lemma sample_internet: "ir_v6 (ProbeInternet sample_net)" "\<not> ir_v4 (ProbeInternet sample_net)"
  by (simp_all add: ProbeInternet_def sample_net_def doctorV4Targets_def doctorV6Targets_def resolverFamilies_def Let_def)

theorem internet_remedy_settles_witness:
  "case dc_remedy (internetCheck (ProbeInternet sample_net) ''both'' ''ipv4_only'') of None \<Rightarrow> False | Some rm \<Rightarrow>
     dc_status (internetCheck (ProbeInternet sample_net) ''both'' (rm_dns_strategy rm)) = ''ok'' \<and>
     dnsStrategy (rm_dns_strategy rm) ''both'' = ''prefer_ipv6''"
proof -
  let ?r = "ProbeInternet sample_net"
  have rm: "dc_remedy (internetCheck ?r ''both'' ''ipv4_only'') = Some (strategy_change PreferIPv6 ''prefer_ipv6'')"
    using sample_internet by (simp add: internetCheck_def strategyRemedy_def Let_def pinned_dead_def pinned_loses_def contradiction_def
      normalizeStrategy_def leansV4_def)
  from internet_remedy_settles [OF _ _ rm] rm sample_internet show ?thesis by (simp add: Let_def)
qed

text \<open>
  On a pinned TUN the same remedy does nothing. When the TUN is pinned to IPv4 and only IPv6 is reachable, the check proposes to prefer IPv6;
  the session's strategy stays \<^verbatim>\<open>ipv4_only\<close> whatever the setting says, and the check over the changed settings still warns, now without a remedy.
\<close>

theorem internet_remedy_ignored:
  assumes "ir_v6 r" and "\<not> ir_v4 r" and "leansV4 (normalizeStrategy strategy)"
  shows "dc_remedy (internetCheck r ''v4'' strategy) = Some (strategy_change PreferIPv6 ''prefer_ipv6'') \<and>
    dnsStrategy ''prefer_ipv6'' ''v4'' = dnsStrategy strategy ''v4'' \<and>
    dc_status (internetCheck r ''v4'' ''prefer_ipv6'') = ''warn'' \<and> dc_remedy (internetCheck r ''v4'' ''prefer_ipv6'') = None"
  using assms by (simp add: internetCheck_def strategyRemedy_def Let_def pinned_dead_def pinned_loses_def contradiction_def
       warn_if_ok_def add_detail_def offer_def row_def dnsStrategy_def normalizeStrategy_def leansV4_def leansV6_def)

theorem internet_remedy_ignored_witness:
  "dc_remedy (internetCheck (ProbeInternet sample_net) ''v4'' ''prefer_ipv4'') = Some (strategy_change PreferIPv6 ''prefer_ipv6'') \<and>
    dnsStrategy ''prefer_ipv6'' ''v4'' = dnsStrategy ''prefer_ipv4'' ''v4''"
  using internet_remedy_ignored [of "ProbeInternet sample_net" "''prefer_ipv4''"] sample_internet
  by (simp add: leansV4_def normalizeStrategy_def)

text \<open>
  A broken transfer is reported as a healthy front. When the handshake succeeds and the peer then fails the transfer with any error other than
  a timeout, while the request is written or before the status line, the probe records the error and the row of the report is still ok.
\<close>

theorem camouflage_error_reported_ok:
  assumes "fo_dial f = None" and "fo_handshake f = None" and "\<forall>a s. fronts a s = f"
    and "hc_write (fo_conn f) = Some (IoError e) \<or> hc_write (fo_conn f) = None \<and> hc_line (fo_conn f) = Inl (IoError e)"
  shows "case ProbeCamouflage fronts p of None \<Rightarrow> False
    | Some r \<Rightarrow> cr_err r \<noteq> [] \<and> cr_http_status r = 0 \<and> dc_status (camouflageCheck name r) = ''ok''"
  using assms by (auto simp: ProbeCamouflage_def dialVerifyFetch_def fetchHTTP_def camouflageCheck_def Let_def)

theorem camouflage_error_reported_ok_witness:
  "case ProbeCamouflage (\<lambda>_ _. \<lparr>fo_dial = None, fo_handshake = None,
      fo_conn = \<lparr>hc_write = None, hc_line = Inl (IoError ''connection reset''), hc_reads = (\<lambda>_. (0, Some IoEOF))\<rparr>\<rparr>) sample_ss of
     None \<Rightarrow> False | Some r \<Rightarrow> dc_status (camouflageCheck ''Node'' r) = ''ok''"
proof -
  let ?f = "\<lparr>fo_dial = None, fo_handshake = None,
      fo_conn = \<lparr>hc_write = None, hc_line = Inl (IoError ''connection reset''), hc_reads = (\<lambda>_. (0, Some IoEOF))\<rparr>\<rparr> :: front"
  show ?thesis using camouflage_error_reported_ok [of ?f "\<lambda>_ _. ?f" "''connection reset''" "''Node''" sample_ss]
    by (auto split: option.splits)
qed

text \<open>
  Two upstreams at one address: when the first is blocked and the second answers, the remedy is the configured list itself, so taking it
  changes nothing.
\<close>

lemma promote_same_address_noop:
  assumes "dn_servers (st_dns s) = a # b # ss" and "ds_address b = ds_address a" and "\<not> dn_via_tunnel (st_dns s)"
    and "\<not> reaches pn a" and "reaches pn b"
  shows "map_option rm_dns_servers (dc_remedy (resolverCheck pn s)) = Some (dn_servers (st_dns s))"
  using assms by (simp add: resolverCheck_def resolverCheckResult_def ProbeResolvers_def promoteResolver_def extract_Cons_code Let_def)

end
