(* ===== verification/Engine_Traffic.thy ===== *)
theory Engine_Traffic
  imports Manager_Session "HOL-Library.AList"
begin

text \<open>
  Byte accounting of a session (\<^verbatim>\<open>daemon-go/internal/engine/instrument.go\<close>: \<^verbatim>\<open>TrafficCounter\<close> and the log filter; the verb
  \<^verbatim>\<open>traffic_apps\<close> and the per-second emitter of \<^verbatim>\<open>cmd/iron-link-daemon/manager.go\<close>).

  The counters are 64-bit words; \<^verbatim>\<open>int64\<close> and \<^verbatim>\<open>uint64\<close> share the bits. A Go map is an association list in the order its keys
  were created. A byte count is two atomic additions, the session total first and the bucket of the app and outcome second, and a bucket is
  resolved in two locked sections: \<open>traffic_step\<close> interleaves these four pieces of any number of connections.

  Main results: at every moment the session total is the sum over the apps' buckets and the counts on their way to one; the deltas of the
  emitter add up to the total.
\<close>

section \<open>Outcomes and buckets\<close>

abbreviation outcomeDirect :: string where "outcomeDirect \<equiv> ''direct''"
abbreviation outcomeProxy :: string where "outcomeProxy \<equiv> ''proxy''"
abbreviation outcomeBlocked :: string where "outcomeBlocked \<equiv> ''blocked''"
abbreviation outcomeDPI :: string where "outcomeDPI \<equiv> ''dpi''"
definition unattributedKey :: string where "unattributedKey = []"

definition routeOutcome :: "string \<Rightarrow> string" where
  "routeOutcome tag =
    (if tag = ''direct'' then outcomeDirect
     else if tag = ''block'' then outcomeBlocked
     else if tag = ''dpi'' \<or> tag = ''byedpi'' then outcomeDPI
     else outcomeProxy)"

definition outcomeOf :: "string option \<Rightarrow> string" where
  "outcomeOf matchOutbound = (case matchOutbound of None \<Rightarrow> outcomeProxy | Some tag \<Rightarrow> routeOutcome tag)"

datatype direction = Forward | Reverse

record routeBytes =
  rb_up :: u64
  rb_down :: u64

type_synonym appBytes = "(string \<times> routeBytes) list"

record traffic_counter =
  tc_up :: u64
  tc_down :: u64
  tc_apps :: "(string \<times> appBytes) list"

definition new_counter :: traffic_counter where
  "new_counter = \<lparr>tc_up = 0, tc_down = 0, tc_apps = []\<rparr>"

definition Totals :: "traffic_counter \<Rightarrow> u64 \<times> u64" where
  "Totals c = (tc_up c, tc_down c)"

text \<open>The key of the owning process: its path when one was resolved.\<close>

definition app_key :: "string option \<Rightarrow> string" where
  "app_key process = (case process of Some path \<Rightarrow> if path \<noteq> [] then path else unattributedKey | None \<Rightarrow> unattributedKey)"

definition appFor :: "string option \<Rightarrow> traffic_counter \<Rightarrow> traffic_counter \<times> string" where
  "appFor process c = (let key = app_key process in
     (if map_of (tc_apps c) key = None then c\<lparr>tc_apps := tc_apps c @ [(key, [])]\<rparr> else c, key))"

text \<open>The second locked section, on the app that \<open>appFor\<close> found.\<close>

definition bucket_entry :: "string \<Rightarrow> appBytes \<Rightarrow> appBytes" where
  "bucket_entry outcome a = (if map_of a outcome = None then a @ [(outcome, \<lparr>rb_up = 0, rb_down = 0\<rparr>)] else a)"

definition bucketFor :: "string \<Rightarrow> string \<Rightarrow> traffic_counter \<Rightarrow> traffic_counter" where
  "bucketFor key outcome c = c\<lparr>tc_apps := AList.map_entry key (bucket_entry outcome) (tc_apps c)\<rparr>"

definition counterFor :: "string option \<Rightarrow> string \<Rightarrow> traffic_counter \<Rightarrow> traffic_counter \<times> string \<times> string" where
  "counterFor process outcome c = (let (c1, key) = appFor process c in (bucketFor key outcome c1, key, outcome))"

fun add_bytes :: "direction \<Rightarrow> u64 \<Rightarrow> routeBytes \<Rightarrow> routeBytes" where
  "add_bytes Forward n rb = rb\<lparr>rb_up := rb_up rb + n\<rparr>"
| "add_bytes Reverse n rb = rb\<lparr>rb_down := rb_down rb + n\<rparr>"

fun add_total :: "direction \<Rightarrow> u64 \<Rightarrow> traffic_counter \<Rightarrow> traffic_counter" where
  "add_total Forward n c = c\<lparr>tc_up := tc_up c + n\<rparr>"
| "add_total Reverse n c = c\<lparr>tc_down := tc_down c + n\<rparr>"

definition add_bucket :: "direction \<Rightarrow> string \<Rightarrow> string \<Rightarrow> u64 \<Rightarrow> traffic_counter \<Rightarrow> traffic_counter" where
  "add_bucket d key outcome n c = c\<lparr>tc_apps := AList.map_entry key (AList.map_entry outcome (add_bytes d n)) (tc_apps c)\<rparr>"

section \<open>Snapshots\<close>

record app_bytes_snapshot =
  ab_path :: string
  ab_up :: u64
  ab_down :: u64
  ab_by_route :: "(string \<times> routeBytes) list"

text \<open>
  \<open>load path outcome\<close> is what the two atomic loads of a bucket return: buckets move while the snapshot runs, the keys are under the lock.
\<close>

definition AppTotals :: "(string \<Rightarrow> string \<Rightarrow> routeBytes) \<Rightarrow> traffic_counter \<Rightarrow> app_bytes_snapshot list" where
  "AppTotals load c = map (\<lambda>(path, a). let by = map (\<lambda>(outcome, _). (outcome, load path outcome)) a in
     \<lparr>ab_path = path, ab_up = sum_list (map (\<lambda>(_, rb). rb_up rb) by), ab_down = sum_list (map (\<lambda>(_, rb). rb_down rb) by),
      ab_by_route = by\<rparr>) (tc_apps c)"

definition stored :: "traffic_counter \<Rightarrow> string \<Rightarrow> string \<Rightarrow> routeBytes" where
  "stored c path outcome = (case map_of (tc_apps c) path of
     None \<Rightarrow> \<lparr>rb_up = 0, rb_down = 0\<rparr>
   | Some a \<Rightarrow> (case map_of a outcome of None \<Rightarrow> \<lparr>rb_up = 0, rb_down = 0\<rparr> | Some rb \<Rightarrow> rb))"

text \<open>The reply of \<^verbatim>\<open>traffic_apps\<close>; \<open>counters\<close> holds the counter of each session.\<close>

definition trafficApps :: "(nat \<Rightarrow> traffic_counter) \<Rightarrow> (string \<Rightarrow> string \<Rightarrow> routeBytes) \<Rightarrow> manager \<Rightarrow> app_bytes_snapshot list" where
  "trafficApps counters load m = (case mg_sess m of None \<Rightarrow> [] | Some k \<Rightarrow> AppTotals load (counters k))"

section \<open>The emitter\<close>

text \<open>One tick: the deltas since the last tick, broadcast while someone subscribes.\<close>

definition emitter_tick :: "u64 \<times> u64 \<Rightarrow> bool \<Rightarrow> u64 \<times> u64 \<Rightarrow> (u64 \<times> u64) \<times> (u64 \<times> u64) list" where
  "emitter_tick totals subscribed prev = (totals, if subscribed then [(fst totals - fst prev, snd totals - snd prev)] else [])"

fun emit :: "u64 \<times> u64 \<Rightarrow> ((u64 \<times> u64) \<times> bool) list \<Rightarrow> (u64 \<times> u64) list" where
  "emit prev [] = []"
| "emit prev ((totals, subscribed) # ticks) = (let (prev', evs) = emitter_tick totals subscribed prev in evs @ emit prev' ticks)"

section \<open>The log filter\<close>

definition processSearchMarkers :: "string list" where
  "processSearchMarkers = [''found process path: '', ''found package name: '', ''found user: '', ''found user id: '', ''failed to search process: '']"

definition isProcessSearchLine :: "string \<Rightarrow> bool" where
  "isProcessSearchLine message = list_ex (Contains message) processSearchMarkers"

text \<open>The line handed to the sink, if any.\<close>

definition WriteMessage :: "string \<Rightarrow> string \<Rightarrow> (string \<times> string) option" where
  "WriteMessage level message = (if isProcessSearchLine message then None else Some (level, message))"

section \<open>Connections\<close>

text \<open>
  \<open>tf_resolving\<close>: connections between the two locked sections of \<^verbatim>\<open>counterFor\<close>; \<open>tf_open\<close>: the buckets of the counted
  connections; \<open>tf_pending\<close>: counts that are in the session total and not yet in their bucket.
\<close>

record traffic_state =
  tf_counter :: traffic_counter
  tf_resolving :: "(string \<times> string) list"
  tf_open :: "(string \<times> string) list"
  tf_pending :: "(direction \<times> string \<times> string \<times> u64) list"

definition idle_traffic :: traffic_state where
  "idle_traffic = \<lparr>tf_counter = new_counter, tf_resolving = [], tf_open = [], tf_pending = []\<rparr>"

inductive traffic_step :: "traffic_state \<Rightarrow> traffic_state \<Rightarrow> bool" where
  find_app: "appFor process (tf_counter t) = (c, key) \<Longrightarrow>
    traffic_step t (t\<lparr>tf_counter := c, tf_resolving := (key, outcomeOf ob) # tf_resolving t\<rparr>)"
| find_bucket: "tf_resolving t = xs @ (key, outcome) # ys \<Longrightarrow>
    traffic_step t (t\<lparr>tf_counter := bucketFor key outcome (tf_counter t), tf_resolving := xs @ ys, tf_open := (key, outcome) # tf_open t\<rparr>)"
| count_total: "(key, outcome) \<in> set (tf_open t) \<Longrightarrow>
    traffic_step t (t\<lparr>tf_counter := add_total d n (tf_counter t), tf_pending := (d, key, outcome, n) # tf_pending t\<rparr>)"
| count_bucket: "tf_pending t = xs @ (d, key, outcome, n) # ys \<Longrightarrow>
    traffic_step t (t\<lparr>tf_counter := add_bucket d key outcome n (tf_counter t), tf_pending := xs @ ys\<rparr>)"

inductive traffic_reachable :: "traffic_state \<Rightarrow> bool" where
  start: "traffic_reachable idle_traffic"
| step: "traffic_reachable t \<Longrightarrow> traffic_step t u \<Longrightarrow> traffic_reachable u"

section \<open>Sums over the buckets\<close>

fun rb_of :: "direction \<Rightarrow> routeBytes \<Rightarrow> u64" where
  "rb_of Forward rb = rb_up rb"
| "rb_of Reverse rb = rb_down rb"

fun total_of :: "direction \<Rightarrow> traffic_counter \<Rightarrow> u64" where
  "total_of Forward c = tc_up c"
| "total_of Reverse c = tc_down c"

definition app_sum :: "direction \<Rightarrow> appBytes \<Rightarrow> u64" where
  "app_sum d a = sum_list (map (\<lambda>(_, rb). rb_of d rb) a)"

definition apps_sum :: "direction \<Rightarrow> (string \<times> appBytes) list \<Rightarrow> u64" where
  "apps_sum d apps = sum_list (map (\<lambda>(_, a). app_sum d a) apps)"

definition pending_sum :: "direction \<Rightarrow> (direction \<times> string \<times> string \<times> u64) list \<Rightarrow> u64" where
  "pending_sum d ps = sum_list (map (\<lambda>(d', _, _, n). if d' = d then n else 0) ps)"

lemma sum_map_entry:
  fixes f :: "'v \<Rightarrow> 'n :: ab_group_add"
  assumes "map_of al k = Some v"
  shows "sum_list (map (\<lambda>(_, v). f v) (AList.map_entry k g al)) = sum_list (map (\<lambda>(_, v). f v) al) + (f (g v) - f v)"
  using assms by (induction al) (auto simp: algebra_simps split: if_splits)

lemma map_of_map_entry_iff: "(map_of (AList.map_entry k g al) j = None) = (map_of al j = None)"
  by (induction al) auto

lemma map_of_map_entry: "map_of (AList.map_entry k g al) j = (if j = k then map_option g (map_of al j) else map_of al j)"
  by (induction al) auto

lemma keys_map_entry [simp]: "map fst (AList.map_entry k g al) = map fst al"
  by (induction al) auto

definition has_bucket :: "(string \<times> appBytes) list \<Rightarrow> string \<times> string \<Rightarrow> bool" where
  "has_bucket apps b = (case map_of apps (fst b) of None \<Rightarrow> False | Some a \<Rightarrow> map_of a (snd b) \<noteq> None)"

lemma app_sum_append [simp]: "app_sum d (a @ b) = app_sum d a + app_sum d b"
  by (simp add: app_sum_def)

lemma app_sum_bucket_entry [simp]: "app_sum d (bucket_entry outcome a) = app_sum d a"
  by (cases d) (simp_all add: bucket_entry_def app_sum_def)

lemma apps_sum_map_entry:
  "map_of apps key = Some a \<Longrightarrow> apps_sum d (AList.map_entry key g apps) = apps_sum d apps + (app_sum d (g a) - app_sum d a)"
  unfolding apps_sum_def by (rule sum_map_entry)

lemma map_entry_absent: "map_of al k = None \<Longrightarrow> AList.map_entry k g al = al"
  by (induction al) (auto split: if_splits)

lemma apps_sum_bucketFor: "apps_sum d (tc_apps (bucketFor key outcome c)) = apps_sum d (tc_apps c)"
  by (cases "map_of (tc_apps c) key") (simp_all add: bucketFor_def apps_sum_map_entry map_entry_absent)

lemma rb_of_add: "rb_of d (add_bytes d' n rb) = rb_of d rb + (if d' = d then n else 0)"
  by (cases d; cases d') simp_all

lemma apps_sum_add_bucket:
  assumes "has_bucket (tc_apps c) (key, outcome)"
  shows "apps_sum d (tc_apps (add_bucket d' key outcome n c)) = apps_sum d (tc_apps c) + (if d' = d then n else 0)"
proof -
  obtain a rb where a: "map_of (tc_apps c) key = Some a" and rb: "map_of a outcome = Some rb"
    using assms by (auto simp: has_bucket_def split: option.splits)
  have "app_sum d (AList.map_entry outcome (add_bytes d' n) a) = app_sum d a + (if d' = d then n else 0)"
    unfolding app_sum_def using sum_map_entry [OF rb, of "rb_of d" "add_bytes d' n"] by (simp add: rb_of_add)
  with a show ?thesis by (simp add: add_bucket_def apps_sum_map_entry)
qed

section \<open>The invariant\<close>

definition traffic_inv :: "traffic_state \<Rightarrow> bool" where
  "traffic_inv t = (let c = tf_counter t; apps = tc_apps c in
     distinct (map fst apps) \<and> list_all (\<lambda>(_, a). distinct (map fst a)) apps \<and>
     list_all (\<lambda>(key, _). map_of apps key \<noteq> None) (tf_resolving t) \<and>
     list_all (has_bucket apps) (tf_open t) \<and>
     list_all (\<lambda>(_, key, outcome, _). has_bucket apps (key, outcome)) (tf_pending t) \<and>
     (\<forall>d. total_of d c = apps_sum d apps + pending_sum d (tf_pending t)))"

text \<open>Every operation keeps the apps and buckets there are, and the keys distinct.\<close>

definition grows :: "(string \<times> appBytes) list \<Rightarrow> (string \<times> appBytes) list \<Rightarrow> bool" where
  "grows xs ys = ((\<forall>k. map_of xs k \<noteq> None \<longrightarrow> map_of ys k \<noteq> None) \<and> (\<forall>b. has_bucket xs b \<longrightarrow> has_bucket ys b))"

definition keyed :: "(string \<times> appBytes) list \<Rightarrow> bool" where
  "keyed apps = (distinct (map fst apps) \<and> list_all (\<lambda>(_, a). distinct (map fst a)) apps)"

lemma keyed_map_entry:
  assumes "keyed apps" and "\<And>a. distinct (map fst a) \<Longrightarrow> distinct (map fst (g a))"
  shows "keyed (AList.map_entry key g apps)"
proof -
  have "list_all (\<lambda>(_, a). distinct (map fst a)) (AList.map_entry key g apps)" if "list_all (\<lambda>(_, a). distinct (map fst a)) apps"
    using that assms(2) by (induction apps) auto
  with assms(1) show ?thesis by (simp add: keyed_def)
qed

lemma map_of_None_keys: "map_of al k = None \<longleftrightarrow> k \<notin> set (map fst al)"
  by (simp add: map_of_eq_None_iff)

lemma appFor_keyed: "keyed (tc_apps c) \<Longrightarrow> keyed (tc_apps (fst (appFor process c)))"
  by (auto simp: appFor_def keyed_def Let_def map_of_None_keys)

lemma bucketFor_keyed: "keyed (tc_apps c) \<Longrightarrow> keyed (tc_apps (bucketFor key outcome c))"
  by (auto simp: bucketFor_def bucket_entry_def map_of_None_keys intro!: keyed_map_entry)

lemma add_bucket_keyed: "keyed (tc_apps c) \<Longrightarrow> keyed (tc_apps (add_bucket d key outcome n c))"
  by (auto simp: add_bucket_def intro!: keyed_map_entry)

lemma grows_map_entry:
  assumes "\<And>a k. map_of a k \<noteq> None \<Longrightarrow> map_of (g a) k \<noteq> None"
  shows "grows apps (AList.map_entry key g apps)"
  using assms by (auto simp: grows_def has_bucket_def map_of_map_entry split: option.splits if_splits)

lemma appFor_grows: "grows (tc_apps c) (tc_apps (fst (appFor process c)))"
  by (auto simp: grows_def has_bucket_def appFor_def Let_def map_add_def split: option.splits)

lemma bucketFor_grows: "grows (tc_apps c) (tc_apps (bucketFor key outcome c))"
proof -
  have "grows (tc_apps c) (AList.map_entry key (bucket_entry outcome) (tc_apps c))"
    by (rule grows_map_entry) (auto simp: bucket_entry_def map_add_def split: option.splits)
  then show ?thesis by (simp add: bucketFor_def)
qed

lemma add_bucket_grows: "grows (tc_apps c) (tc_apps (add_bucket d key outcome n c))"
proof -
  have "grows (tc_apps c) (AList.map_entry key (AList.map_entry outcome (add_bytes d n)) (tc_apps c))"
    by (rule grows_map_entry) (auto simp: map_of_map_entry)
  then show ?thesis by (simp add: add_bucket_def)
qed

lemma add_total_apps [simp]: "tc_apps (add_total d n c) = tc_apps c"
  by (cases d) simp_all

lemma total_of_other [simp]:
  "total_of d (fst (appFor process c)) = total_of d c" "total_of d (bucketFor key outcome c) = total_of d c"
  "total_of d (add_bucket d' key outcome n c) = total_of d c"
  by (cases d; simp add: appFor_def bucketFor_def add_bucket_def Let_def)+

lemma total_of_add: "total_of d (add_total d' n c) = total_of d c + (if d' = d then n else 0)"
  by (cases d; cases d') simp_all

lemma appFor_finds: "appFor process c = (c', key) \<Longrightarrow> map_of (tc_apps c') key \<noteq> None"
  by (auto simp: appFor_def Let_def map_add_def split: if_splits option.splits)

lemma appFor_sum: "apps_sum d (tc_apps (fst (appFor process c))) = apps_sum d (tc_apps c)"
  by (simp add: appFor_def apps_sum_def app_sum_def Let_def)

lemma bucketFor_finds: "map_of (tc_apps c) key \<noteq> None \<Longrightarrow> has_bucket (tc_apps (bucketFor key outcome c)) (key, outcome)"
  by (auto simp: has_bucket_def bucketFor_def bucket_entry_def map_of_map_entry map_add_def split: option.splits)

text \<open>What the connections refer to exists; it keeps doing so when the counter grows.\<close>

definition refs_ok :: "(string \<times> appBytes) list \<Rightarrow> traffic_state \<Rightarrow> bool" where
  "refs_ok apps t = (list_all (\<lambda>(key, _). map_of apps key \<noteq> None) (tf_resolving t) \<and> list_all (has_bucket apps) (tf_open t) \<and>
     list_all (\<lambda>(_, key, outcome, _). has_bucket apps (key, outcome)) (tf_pending t))"

lemma refs_grow: "refs_ok xs t \<Longrightarrow> grows xs ys \<Longrightarrow> refs_ok ys t"
  unfolding refs_ok_def grows_def list_all_iff by fastforce

lemma traffic_inv_alt:
  "traffic_inv t = (keyed (tc_apps (tf_counter t)) \<and> refs_ok (tc_apps (tf_counter t)) t \<and>
     (\<forall>d. total_of d (tf_counter t) = apps_sum d (tc_apps (tf_counter t)) + pending_sum d (tf_pending t)))"
  by (simp add: traffic_inv_def keyed_def refs_ok_def Let_def)

lemma pending_sum_simps [simp]:
  "pending_sum d [] = 0" "pending_sum d ((d', key, outcome, n) # ps) = (if d' = d then n else 0) + pending_sum d ps"
  "pending_sum d (xs @ ys) = pending_sum d xs + pending_sum d ys"
  by (simp_all add: pending_sum_def)

lemma traffic_inv_step:
  assumes "traffic_step t u" and "traffic_inv t"
  shows "traffic_inv u"
  using assms(1)
proof cases
  case (find_app process c key ob)
  then have c: "c = fst (appFor process (tf_counter t))" by simp
  have "refs_ok (tc_apps c) t"
    using assms(2) appFor_grows refs_grow unfolding c traffic_inv_alt by blast
  then have "refs_ok (tc_apps c) u" using find_app appFor_finds [OF find_app(2)] by (simp add: refs_ok_def)
  moreover have "keyed (tc_apps c)" using assms(2) unfolding c traffic_inv_alt by (blast intro: appFor_keyed)
  moreover have "total_of d c = apps_sum d (tc_apps c) + pending_sum d (tf_pending t)" for d
    using assms(2) by (simp add: traffic_inv_alt c appFor_sum)
  ultimately show ?thesis unfolding traffic_inv_alt find_app(1) by simp
next
  case (find_bucket xs key outcome ys)
  have "refs_ok (tc_apps (bucketFor key outcome (tf_counter t))) t"
    using assms(2) bucketFor_grows refs_grow unfolding traffic_inv_alt by blast
  moreover have "has_bucket (tc_apps (bucketFor key outcome (tf_counter t))) (key, outcome)"
    using assms(2) find_bucket by (intro bucketFor_finds) (auto simp: traffic_inv_alt refs_ok_def)
  ultimately show ?thesis
    using assms(2) find_bucket by (simp add: traffic_inv_alt bucketFor_keyed apps_sum_bucketFor refs_ok_def)
next
  case (count_total key outcome d n)
  with assms(2) show ?thesis
    by (auto simp: traffic_inv_alt refs_ok_def total_of_add list_all_iff)
next
  case (count_bucket xs d key outcome n ys)
  have "refs_ok (tc_apps (add_bucket d key outcome n (tf_counter t))) t"
    using assms(2) add_bucket_grows refs_grow unfolding traffic_inv_alt by blast
  moreover have "has_bucket (tc_apps (tf_counter t)) (key, outcome)"
    using assms(2) count_bucket by (auto simp: traffic_inv_alt refs_ok_def)
  ultimately show ?thesis
    using assms(2) count_bucket by (auto simp: traffic_inv_alt add_bucket_keyed apps_sum_add_bucket refs_ok_def)
qed

lemma traffic_inv_reachable: "traffic_reachable t \<Longrightarrow> traffic_inv t"
proof (induction rule: traffic_reachable.induct)
  case start
  have "total_of d new_counter = 0" for d by (cases d) (simp_all add: new_counter_def)
  then show ?case by (simp add: traffic_inv_def idle_traffic_def apps_sum_def) (simp add: new_counter_def)
next
  case (step t u)
  then show ?case by (blast intro: traffic_inv_step)
qed

section \<open>Snapshots and deltas\<close>

lemma stored_eq:
  assumes "keyed (tc_apps c)" and "(path, a) \<in> set (tc_apps c)" and "(outcome, rb) \<in> set a"
  shows "stored c path outcome = rb"
proof -
  have "map_of (tc_apps c) path = Some a" using assms(1,2) by (simp add: keyed_def map_of_is_SomeI)
  moreover have "map_of a outcome = Some rb" using assms by (auto simp: keyed_def list_all_iff intro: map_of_is_SomeI)
  ultimately show ?thesis by (simp add: stored_def)
qed

lemma AppTotals_stored:
  assumes "keyed (tc_apps c)"
  shows "map ab_up (AppTotals (stored c) c) = map (\<lambda>(_, a). app_sum Forward a) (tc_apps c)"
    "map ab_down (AppTotals (stored c) c) = map (\<lambda>(_, a). app_sum Reverse a) (tc_apps c)"
  using stored_eq [OF assms]
  by (auto simp: AppTotals_def app_sum_def Let_def intro!: arg_cong [where f = sum_list])

lemma emit_sum:
  assumes "list_all snd ticks"
  shows "sum_list (map fst (emit prev ticks)) = fst (last (prev # map fst ticks)) - fst prev \<and>
    sum_list (map snd (emit prev ticks)) = snd (last (prev # map fst ticks)) - snd prev"
  using assms
proof (induction ticks arbitrary: prev)
  case (Cons t ticks)
  then show ?case by (cases t) (auto simp: emitter_tick_def)
qed simp

text \<open>An outcome is listed from the moment a connection takes it, before any byte.\<close>

lemma zero_byte_outcome_listed:
  "AppTotals load (fst (counterFor process outcome new_counter)) =
     [\<lparr>ab_path = app_key process, ab_up = rb_up (load (app_key process) outcome), ab_down = rb_down (load (app_key process) outcome),
       ab_by_route = [(outcome, load (app_key process) outcome)]\<rparr>] \<and>
   stored (fst (counterFor process outcome new_counter)) (app_key process) outcome = \<lparr>rb_up = 0, rb_down = 0\<rparr>"
  by (simp add: AppTotals_def counterFor_def appFor_def bucketFor_def bucket_entry_def new_counter_def stored_def Let_def)

section \<open>Properties\<close>

text \<open>
  C26. No byte is lost or counted twice. Whatever the interleaving of connections being opened and bytes being counted, each app is
  listed once, and the session's totals in both directions are the sums of the apps' totals and of the counts that have reached the session total
  and not yet their app; once no count is on its way, the session total is exactly the sum over the apps (modulo 2 ^ 64, as the counters wrap).
\<close>

theorem traffic_conserved:
  assumes "traffic_reachable t"
  shows "let c = tf_counter t; snapshot = AppTotals (stored c) c in
    distinct (map ab_path snapshot) \<and>
    fst (Totals c) = sum_list (map ab_up snapshot) + pending_sum Forward (tf_pending t) \<and>
    snd (Totals c) = sum_list (map ab_down snapshot) + pending_sum Reverse (tf_pending t)"
proof -
  let ?c = "tf_counter t"
  have inv: "keyed (tc_apps ?c)" "\<And>d. total_of d ?c = apps_sum d (tc_apps ?c) + pending_sum d (tf_pending t)"
    using traffic_inv_reachable [OF assms] by (simp_all add: traffic_inv_alt)
  have "map ab_path (AppTotals (stored ?c) ?c) = map fst (tc_apps ?c)" by (auto simp: AppTotals_def Let_def)
  with inv(1) have "distinct (map ab_path (AppTotals (stored ?c) ?c))" by (simp add: keyed_def)
  moreover have "apps_sum Forward (tc_apps ?c) = sum_list (map ab_up (AppTotals (stored ?c) ?c))"
    "apps_sum Reverse (tc_apps ?c) = sum_list (map ab_down (AppTotals (stored ?c) ?c))"
    by (simp_all only: AppTotals_stored [OF inv(1)] apps_sum_def)
  ultimately show ?thesis using inv(2) [of Forward] inv(2) [of Reverse] by (simp add: Let_def Totals_def)
qed

definition sample_traffic :: traffic_state where
  "sample_traffic =
     \<lparr>tf_counter = \<lparr>tc_up = 1500, tc_down = 0, tc_apps = [(''/usr/bin/curl'', [(''direct'', \<lparr>rb_up = 0, rb_down = 0\<rparr>)])]\<rparr>,
      tf_resolving = [], tf_open = [(''/usr/bin/curl'', ''direct'')], tf_pending = [(Forward, ''/usr/bin/curl'', ''direct'', 1500)]\<rparr>"

lemma sample_traffic_reachable: "traffic_reachable sample_traffic"
proof -
  let ?key = "''/usr/bin/curl''"
  let ?s1 = "idle_traffic\<lparr>tf_counter := new_counter\<lparr>tc_apps := [(?key, [])]\<rparr>, tf_resolving := [(?key, ''direct'')]\<rparr>"
  let ?s2 = "?s1\<lparr>tf_counter := bucketFor ?key ''direct'' (tf_counter ?s1), tf_resolving := [], tf_open := [(?key, ''direct'')]\<rparr>"
  have app: "appFor (Some ?key) (tf_counter idle_traffic) = (new_counter\<lparr>tc_apps := [(?key, [])]\<rparr>, ?key)"
    by (simp add: appFor_def app_key_def new_counter_def idle_traffic_def Let_def)
  have r1: "traffic_reachable ?s1"
    using traffic_reachable.step [OF traffic_reachable.start find_app [OF app, of "Some ''direct''"]]
    by (simp add: outcomeOf_def routeOutcome_def idle_traffic_def)
  have r2: "traffic_reachable ?s2"
    using traffic_reachable.step [OF r1 find_bucket [of ?s1 "[]" ?key "''direct''" "[]"]] by (simp add: idle_traffic_def)
  have "?s2\<lparr>tf_counter := add_total Forward 1500 (tf_counter ?s2), tf_pending := (Forward, ?key, ''direct'', 1500) # tf_pending ?s2\<rparr> = sample_traffic"
    by (simp add: sample_traffic_def idle_traffic_def new_counter_def bucketFor_def bucket_entry_def)
  with traffic_reachable.step [OF r2 count_total [of ?key "''direct''" ?s2 Forward 1500]] show ?thesis by simp
qed

theorem traffic_conserved_witness:
  "fst (Totals (tf_counter sample_traffic)) =
     sum_list (map ab_up (AppTotals (stored (tf_counter sample_traffic)) (tf_counter sample_traffic))) + 1500"
  using traffic_conserved [OF sample_traffic_reachable] by (simp add: Let_def) (simp add: sample_traffic_def)

text \<open>
  The traffic feed adds up. While someone subscribes, the deltas broadcast since the session started sum to the totals read at the last tick,
  wrap-around included, so a client that sums the events has the session's totals.
\<close>

theorem deltas_sum_to_totals:
  assumes "list_all snd ticks" and "ticks \<noteq> []"
  shows "(sum_list (map fst (emit (0, 0) ticks)), sum_list (map snd (emit (0, 0) ticks))) = fst (last ticks)"
  using emit_sum [OF assms(1), of "(0, 0)"] assms(2) by (simp add: last_map)

theorem deltas_sum_to_totals_witness:
  "(sum_list (map fst (emit (0, 0) [((7, 2), True), ((9, 2), True)])), sum_list (map snd (emit (0, 0) [((7, 2), True), ((9, 2), True)]))) = (9, 2)"
proof -
  let ?ticks = "[((7, 2), True), ((9, 2), True)] :: ((u64 \<times> u64) \<times> bool) list"
  have "(sum_list (map fst (emit (0, 0) ?ticks)), sum_list (map snd (emit (0, 0) ?ticks))) = fst (last ?ticks)"
    by (rule deltas_sum_to_totals) simp_all
  also have "fst (last ?ticks) = (9, 2)" by simp
  finally show ?thesis .
qed

end
