(* ===== verification/Daemon_Handle.thy ===== *)
theory Daemon_Handle
  imports Manager_Store Manager_Update Manager_Doctor Engine_Traffic
begin

text \<open>
  The request dispatcher (\<^verbatim>\<open>Handle\<close> in \<^verbatim>\<open>cmd/iron-link-daemon/manager.go\<close>) over the verbs of \<^verbatim>\<open>api/protocol.go\<close>: the one place where the session,
  the store, the updater, the diagnostics and the traffic counters meet. A reply carries the result of the verb it came from.

  \<open>Handle\<close> runs one request by itself; how the locked sections of several requests interleave is the subject of the components' step relations,
  and the refinement below says that every request is a run of the session's one.

  Main results: every verb of the protocol has a handler; queries and reading verbs change nothing; a request that names no session verb cannot start, stop or
  re-plan a session; after any sequence of requests the session invariant holds and every stored profile is well formed.
\<close>

section \<open>The protocol's verbs\<close>

definition store_commands :: "(string \<times> store_verb) list" where
  "store_commands =
    [(''list_profiles'', CmdListProfiles), (''create_profile'', CmdCreateProfile), (''delete_profile'', CmdDeleteProfile),
     (''set_active_profile'', CmdSetActiveProfile), (''list_nodes'', CmdListNodes), (''select_node'', CmdSelectNode),
     (''add_node'', CmdAddNode), (''remove_node'', CmdRemoveNode), (''set_node_prefs'', CmdSetNodePrefs),
     (''upsert_group'', CmdUpsertGroup), (''get_group'', CmdGetGroup), (''get_node'', CmdGetNode),
     (''list_subscriptions'', CmdListSubs), (''add_subscription'', CmdAddSub), (''refresh_subscriptions'', CmdRefreshSubs),
     (''remove_subscription'', CmdRemoveSub), (''update_subscription'', CmdUpdateSub), (''list_routing'', CmdListRouting),
     (''select_routing'', CmdSelectRouting), (''get_routing'', CmdGetRouting), (''upsert_routing'', CmdUpsertRouting),
     (''remove_routing'', CmdRemoveRouting)]"

text \<open>Everything \<^verbatim>\<open>protocol.go\<close> declares, in its order; \<^verbatim>\<open>subscribe\<close> never reaches the dispatcher.\<close>

definition protocol_commands :: "string list" where
  "protocol_commands =
    [''activate'', ''stop'', ''status'', ''switch_node'', ''test_latency'', ''subscribe''] @ map fst store_commands @
    [''routing_schema'', ''diagnose'', ''traffic_apps'', ''doctor'', ''doctor_nodes'', ''network_report'', ''forwarding_check'',
     ''get_settings'', ''set_settings'', ''check_update'', ''download_update'', ''apply_update'']"

section \<open>The daemon's state and surroundings\<close>

text \<open>\<open>wd_events\<close>: the subscription events broadcast; \<open>wd_transfers\<close>: the downloads started.\<close>

record served =
  wd_manager :: manager
  wd_updater :: updater
  wd_events :: "sub_event list"
  wd_transfers :: "(artifact \<times> update_dialer) list"

text \<open>What one request meets: the environments of the components, the outcomes of its locked sections, clocks and disk answers.\<close>

record handle_env =
  he_verbs :: verb_env
  he_oc :: outcomes
  he_oc' :: outcomes
  he_doctor :: doctor_env
  he_updater :: updater_env
  he_counters :: "nat \<Rightarrow> traffic_counter"
  he_bytes :: "string \<Rightarrow> string \<Rightarrow> routeBytes"
  he_now :: int
  he_clock :: "nat \<Rightarrow> int"
  he_rm :: bool
  he_dir_ok :: bool
  he_reads :: "bool \<times> bool"

datatype reply =
    Unimplemented string
  | SessionReply response
  | StoreReply "verb_error + store_reply"
  | LatenciesReply "doctor_fault + (string \<times> u16 option) list"
  | DiagnosisReply "doctor_fault + string \<times> diagnosis"
  | AppTrafficReply "app_bytes_snapshot list"
  | DoctorReply "doctor_fault + doctor_text doctor_check list option"
  | RoutingSchemaReply routing_schema
  | UpdateReply update_reply

section \<open>Dispatch\<close>

definition activate_of :: "verb_request \<Rightarrow> activate_request" where
  "activate_of req = \<lparr>rq_profile = vr_profile req, rq_node = vr_node req, rq_routing = vr_routing req, rq_tun = vr_tun req\<rparr>"

definition session_verb :: "(manager \<Rightarrow> manager \<times> response) \<Rightarrow> served \<Rightarrow> served \<times> reply" where
  "session_verb f w = (case f (wd_manager w) of (m, r) \<Rightarrow> (w\<lparr>wd_manager := m\<rparr>, SessionReply r))"

definition store_verb_of :: "handle_env \<Rightarrow> store_verb \<Rightarrow> verb_request \<Rightarrow> served \<Rightarrow> served \<times> reply" where
  "store_verb_of he v req w = (case handle_store (he_verbs he) (he_oc he) (he_oc' he) v req (wd_manager w) of
     (m, evs, r) \<Rightarrow> (w\<lparr>wd_manager := m, wd_events := wd_events w @ evs\<rparr>, StoreReply r))"

definition update_verb :: "(updater \<Rightarrow> updater \<times> update_reply) \<Rightarrow> served \<Rightarrow> served \<times> reply" where
  "update_verb f w = (case f (wd_updater w) of (u, r) \<Rightarrow> (w\<lparr>wd_updater := u\<rparr>, UpdateReply r))"

definition query_verb :: "(manager \<Rightarrow> reply) \<Rightarrow> served \<Rightarrow> served \<times> reply" where
  "query_verb f w = (w, f (wd_manager w))"

definition download_verb :: "handle_env \<Rightarrow> served \<Rightarrow> served \<times> reply" where
  "download_verb he w = (case downloadUpdate (he_updater he) (he_dir_ok he) (wd_manager w) (wd_manager w) (wd_updater w) of (u, job, r) \<Rightarrow>
     (w\<lparr>wd_updater := u, wd_transfers := wd_transfers w @ (case job of None \<Rightarrow> [] | Some j \<Rightarrow> [j])\<rparr>, UpdateReply r))"

text \<open>The cases of the switch, grouped by the component they call; no command occurs twice.\<close>

definition query_handlers :: "handle_env \<Rightarrow> verb_request \<Rightarrow> (string \<times> (manager \<Rightarrow> reply)) list" where
  "query_handlers he req = (let dv = ve_dv (he_verbs he); dx = he_doctor he in
    [(''status'', \<lambda>m. SessionReply (status (he_oc he) m)),
     (''test_latency'', \<lambda>m. LatenciesReply (testLatency dx (vr_nodes req) m)),
     (''diagnose'', \<lambda>m. DiagnosisReply (diagnose dx (vr_node req) m)),
     (''traffic_apps'', \<lambda>m. AppTrafficReply (trafficApps (he_counters he) (he_bytes he) m)),
     (''doctor'', \<lambda>m. DoctorReply (doctor dx m)),
     (''doctor_nodes'', \<lambda>m. DoctorReply (doctorNodes dx m)),
     (''network_report'', \<lambda>m. DoctorReply (Inr (networkReport dx))),
     (''forwarding_check'', \<lambda>m. DoctorReply (Inr (Some (forwardingReport dx)))),
     (''routing_schema'', \<lambda>m. RoutingSchemaReply (SchemaFor (dv_goos dv))),
     (''get_settings'', \<lambda>m. SessionReply (getSettings dv m))])"

definition session_handlers :: "handle_env \<Rightarrow> verb_request \<Rightarrow> (string \<times> (manager \<Rightarrow> manager \<times> response)) list" where
  "session_handlers he req = (let dv = ve_dv (he_verbs he) in
    [(''activate'', activate dv (he_oc he) (activate_of req)),
     (''stop'', stop (he_oc he) (vr_role req)),
     (''switch_node'', switchNode dv (he_oc he) (he_oc' he) (vr_node req)),
     (''set_settings'', setSettings dv (he_oc he) (vr_settings req))])"

definition update_handlers :: "handle_env \<Rightarrow> verb_request \<Rightarrow> (string \<times> (served \<Rightarrow> served \<times> reply)) list" where
  "update_handlers he req =
    [(''check_update'', \<lambda>w. update_verb (checkUpdate (he_updater he) (he_now he) (he_clock he) (he_rm he) (vr_force req) (wd_manager w) (wd_manager w)) w),
     (''download_update'', download_verb he),
     (''apply_update'', \<lambda>w. update_verb (applyUpdate (he_updater he) (he_reads he) (he_rm he) (wd_manager w)) w)]"

definition handlers :: "handle_env \<Rightarrow> verb_request \<Rightarrow> (string \<times> (served \<Rightarrow> served \<times> reply)) list" where
  "handlers he req = map (map_prod id query_verb) (query_handlers he req) @ map (map_prod id session_verb) (session_handlers he req) @
     map (map_prod id (\<lambda>v. store_verb_of he v req)) store_commands @ update_handlers he req"

definition Handle :: "handle_env \<Rightarrow> verb_request \<Rightarrow> served \<Rightarrow> served \<times> reply" where
  "Handle he req w = (case map_of (handlers he req) (vr_command req) of
     Some f \<Rightarrow> f w
   | None \<Rightarrow> (w, Unimplemented (vr_command req)))"

text \<open>The daemon from its start, which restores the last session, through requests served one after another.\<close>

definition boot_served :: "daemon_env \<Rightarrow> outcomes \<Rightarrow> store_fs \<Rightarrow> entry option \<Rightarrow> updater \<Rightarrow> served" where
  "boot_served dv oc fs settings u = \<lparr>wd_manager = restoreLastSession dv oc (newManager fs settings), wd_updater = u, wd_events = [], wd_transfers = []\<rparr>"

text \<open>The requests share the host and the printing of times with \<open>ve\<close>.\<close>

inductive served_reachable :: "verb_env \<Rightarrow> served \<Rightarrow> bool" for ve where
  boot: "stored_good ve (newManager fs settings) \<Longrightarrow> served_reachable ve (boot_served (ve_dv ve) oc fs settings u)"
| request: "served_reachable ve w \<Longrightarrow> env_ok (he_verbs he) \<Longrightarrow> ve_dv (he_verbs he) = ve_dv ve \<Longrightarrow> ve_fmt_time (he_verbs he) = ve_fmt_time ve \<Longrightarrow>
    served_reachable ve (fst (Handle he req w))"

section \<open>Which verb a request is\<close>

lemma handlers_commands:
  "map fst (handlers he req) =
    [''status'', ''test_latency'', ''diagnose'', ''traffic_apps'', ''doctor'', ''doctor_nodes'', ''network_report'', ''forwarding_check'', ''routing_schema'',
     ''get_settings'', ''activate'', ''stop'', ''switch_node'', ''set_settings''] @ map fst store_commands @ [''check_update'', ''download_update'', ''apply_update'']"
  by (simp add: handlers_def query_handlers_def session_handlers_def update_handlers_def Let_def)

lemma store_commands_distinct: "distinct (map fst store_commands)"
  by code_simp

lemma commands_distinct:
  "distinct ([''status'', ''test_latency'', ''diagnose'', ''traffic_apps'', ''doctor'', ''doctor_nodes'', ''network_report'', ''forwarding_check'', ''routing_schema'',
     ''get_settings'', ''activate'', ''stop'', ''switch_node'', ''set_settings''] @ map fst store_commands @ [''check_update'', ''download_update'', ''apply_update''])"
  by code_simp

lemma Handle_cases [consumes 0, case_names unknown query session stored update]:
  obtains (unknown) "vr_command req \<notin> fst ` set (handlers he req)" "Handle he req w = (w, Unimplemented (vr_command req))"
  | (query) f where "(vr_command req, f) \<in> set (query_handlers he req)" "Handle he req w = query_verb f w"
  | (session) f where "(vr_command req, f) \<in> set (session_handlers he req)" "Handle he req w = session_verb f w"
  | (stored) v where "(vr_command req, v) \<in> set store_commands" "Handle he req w = store_verb_of he v req w"
  | (update) f where "(vr_command req, f) \<in> set (update_handlers he req)" "Handle he req w = f w"
proof (cases "map_of (handlers he req) (vr_command req)")
  case None
  then have "Handle he req w = (w, Unimplemented (vr_command req))" by (simp add: Handle_def)
  moreover have "vr_command req \<notin> fst ` set (handlers he req)" using None by (simp add: map_of_eq_None_iff)
  ultimately show thesis using unknown by blast
next
  case (Some f)
  from map_of_SomeD [OF this] Some show thesis
    using query session stored update by (auto simp: handlers_def Handle_def map_prod_def)
qed

lemma Handle_of: "(vr_command req, f) \<in> set (handlers he req) \<Longrightarrow> Handle he req w = f w"
  using map_of_is_SomeI [of "handlers he req" "vr_command req" f] commands_distinct handlers_commands [of he req] by (simp add: Handle_def)

lemma Handle_query: "vr_command req \<in> fst ` set (query_handlers he req) \<Longrightarrow> fst (Handle he req w) = w"
proof -
  assume "vr_command req \<in> fst ` set (query_handlers he req)"
  then obtain f where "(vr_command req, f) \<in> set (query_handlers he req)" by force
  then have "(vr_command req, query_verb f) \<in> set (handlers he req)" by (force simp: handlers_def)
  from Handle_of [OF this] show ?thesis by (simp add: query_verb_def)
qed

lemma Handle_update:
  "vr_command req \<in> fst ` set (update_handlers he req) \<Longrightarrow> \<exists>f. (vr_command req, f) \<in> set (update_handlers he req) \<and> Handle he req w = f w"
  using Handle_of [of req _ he w] by (force simp: handlers_def)

lemma handlers_complete: "fst ` set (handlers he req) = set protocol_commands - {''subscribe''}"
proof -
  have "set ([''status'', ''test_latency'', ''diagnose'', ''traffic_apps'', ''doctor'', ''doctor_nodes'', ''network_report'', ''forwarding_check'', ''routing_schema'',
     ''get_settings'', ''activate'', ''stop'', ''switch_node'', ''set_settings''] @ map fst store_commands @ [''check_update'', ''download_update'', ''apply_update'']) =
    set protocol_commands - {''subscribe''}" by code_simp
  then show ?thesis using handlers_commands [of he req] by (metis list.set_map)
qed

section \<open>Requests and the session\<close>

lemma activate_run:
  assumes "session_reachable dv (m, P)"
  shows "session_reachable dv (fst (activate dv oc req m), P)"
proof (cases "prepareActivation (store_env dv m) req")
  case (Inr prep)
  have "session_reachable dv (m, PActivate prep # P)" by (rule session_reachable.step [OF assms session_step.prepare [OF Inr]])
  from session_reachable.step [OF this session_step.start [of prep _ dv m oc]] Inr show ?thesis by (simp add: activate_def)
qed (simp add: activate_def assms)

lemma switch_run:
  assumes "session_reachable dv (m, P)"
  shows "session_reachable dv (fst (switchNode dv oc oc' node m), P)"
proof (cases "node = None \<or> node = Some []")
  case False
  then obtain ref where ref: "node = Some ref" "ref \<noteq> []" by auto
  obtain m1 r where sw: "switch_locked oc ref m = (m1, r)" by fastforce
  then have one: "session_reachable dv (m1, P)" using session_reachable.step [OF assms session_step.switch [of dv m P oc ref]] by simp
  show ?thesis
  proof (cases r)
    case (Inr req)
    have "fst (switchNode dv oc oc' node m) = fst (activate dv oc' req m1)"
      using ref sw Inr by (auto simp: switchNode_def split: prod.splits response.splits)
    then show ?thesis using activate_run [OF one] by simp
  qed (use ref sw one in \<open>simp add: switchNode_def\<close>)
qed (use assms in \<open>auto simp: switchNode_def\<close>)

lemma session_handlers_run:
  assumes "(c, f) \<in> set (session_handlers he req)" and "session_reachable (ve_dv (he_verbs he)) (m, P)"
  shows "session_reachable (ve_dv (he_verbs he)) (fst (f m), P)"
  using assms(1) activate_run [OF assms(2)] switch_run [OF assms(2)] session_reachable.step [OF assms(2) session_step.stop]
    session_reachable.step [OF assms(2) session_step.settings]
  by (auto simp: session_handlers_def Let_def)

lemma ClearLastSession_frame: "fs_profiles (fst (ClearLastSession io fs)) = fs_profiles fs"
  by (simp add: ClearLastSession_def split: option.splits file_error.splits)

lemma stop_frame: "fs_profiles (mg_fs (fst (stop oc role m))) = fs_profiles (mg_fs m)"
  by (simp add: stop_def Let_def clear_session_def ClearLastSession_frame stopTrafficLocked_def session_fields)

lemma activate_frame: "fs_profiles (mg_fs (fst (activate dv oc req m))) = fs_profiles (mg_fs m)"
  using start_frame(1) by (simp add: activate_def split: sum.splits)

lemma switch_locked_frame: "fs_profiles (mg_fs (fst (switch_locked oc ref m))) = fs_profiles (mg_fs m)"
  by (simp add: switch_locked_def Let_def saveLastSessionLocked_def session_fields split: option.splits)

lemma switch_frame: "fs_profiles (mg_fs (fst (switchNode dv oc oc' node m))) = fs_profiles (mg_fs m)"
proof (cases "node = None \<or> node = Some []")
  case False
  then obtain ref where ref: "node = Some ref" "ref \<noteq> []" by auto
  obtain m1 r where sw: "switch_locked oc ref m = (m1, r)" by fastforce
  then have one: "fs_profiles (mg_fs m1) = fs_profiles (mg_fs m)" using switch_locked_frame [of oc ref m] by simp
  show ?thesis
  proof (cases r)
    case (Inr req)
    have "fst (switchNode dv oc oc' node m) = fst (activate dv oc' req m1)"
      using ref sw Inr by (auto simp: switchNode_def split: prod.splits response.splits)
    then show ?thesis using activate_frame one by simp
  qed (use ref sw one in \<open>simp add: switchNode_def\<close>)
qed (auto simp: switchNode_def)

lemma settings_frame: "fs_profiles (mg_fs (fst (setSettings dv oc req m))) = fs_profiles (mg_fs m)"
  by (simp add: setSettings_def split: option.splits sum.splits)

lemma session_handlers_frame:
  "(c, f) \<in> set (session_handlers he req) \<Longrightarrow> fs_profiles (mg_fs (fst (f m))) = fs_profiles (mg_fs m)"
  using stop_frame activate_frame switch_frame settings_frame by (auto simp: session_handlers_def Let_def)

lemma update_handlers_frame:
  "(c, f) \<in> set (update_handlers he req) \<Longrightarrow> wd_manager (fst (f w)) = wd_manager w \<and> wd_events (fst (f w)) = wd_events w"
  by (auto simp: update_handlers_def update_verb_def download_verb_def split: prod.splits)

lemma stored_good_profiles: "fs_profiles (mg_fs m') = fs_profiles (mg_fs m) \<Longrightarrow> stored_good ve m \<Longrightarrow> stored_good ve m'"
  using stored_good_entries [of ve m m'] by simp

lemma stored_good_env:
  "ve_dv ve' = ve_dv ve \<Longrightarrow> ve_fmt_time ve' = ve_fmt_time ve \<Longrightarrow> stored_good ve' m = stored_good ve m"
  by (simp add: stored_good_def profile_good_def)

lemma restore_run: "session_reachable dv (restoreLastSession dv oc (newManager fs settings), [])"
  using activate_run [OF session_reachable.boot, of dv oc _ fs settings] session_reachable.boot [of dv fs settings]
  by (simp add: restoreLastSession_def split: sum.splits option.splits)

lemma restore_frame: "fs_profiles (mg_fs (restoreLastSession dv oc m)) = fs_profiles (mg_fs m)"
  by (simp add: restoreLastSession_def activate_frame split: sum.splits option.splits)

lemma reconnect_decision_keeps: "sessionReconnectLocked oc name p m = (m1, rc) \<Longrightarrow> mg_sess m1 = mg_sess m"
  by (auto simp: sessionReconnectLocked_def relabelPlanLocked_def saveLastSessionLocked_def session_fields Let_def
      split: option.splits if_splits sum.splits prod.splits)

lemma store_keeps_session:
  assumes "handle_store ve oc oc' v req m = (m', evs, res)" and "v \<noteq> CmdSetNodePrefs"
  shows "mg_sess m' = mg_sess m"
  using assms(1)
proof (cases rule: handle_store_cases)
  case (files msg r)
  then show ?thesis by (simp add: file_verb_def)
next
  case (edit pre fn)
  have fn: "mg_sess m1 = mg_sess m" if "fn name p m = (m1, evs', x)" for name p m1 evs' x
    using profile_editor.moves [OF edit(1) that] reconnect_decision_keeps by blast
  show ?thesis
    using edit(2) by (cases rule: profile_editor.withProfile_cases [OF edit(1)]) (auto dest: fn)
qed (use assms(2) in simp_all)

text \<open>The store verbs that only read.\<close>

definition reading_commands :: "string set" where
  "reading_commands = {''list_profiles'', ''list_nodes'', ''get_group'', ''get_node'', ''list_subscriptions'', ''list_routing'', ''get_routing''}"

lemma reading_verb: "(c, v) \<in> set store_commands \<Longrightarrow> c \<in> reading_commands \<Longrightarrow> v \<in> read_verbs"
  by (auto simp: store_commands_def reading_commands_def read_verbs_def)

lemma reading_keeps:
  assumes "handle_store ve oc oc' v req m = (m', evs, res)" and "v \<in> read_verbs"
  shows "m' = m \<and> evs = []"
  using assms(1)
proof (cases rule: handle_store_cases)
  case (files msg r)
  then show ?thesis using assms(2) by (auto simp: read_verbs_def)
qed (use assms(2) in \<open>auto simp: read_verbs_def\<close>)

lemma Handle_reads:
  assumes "vr_command req \<in> reading_commands"
  shows "fst (Handle he req w) = w"
proof -
  have "reading_commands \<subseteq> fst ` set store_commands" by (simp add: reading_commands_def store_commands_def)
  with assms obtain v where v: "(vr_command req, v) \<in> set store_commands" by force
  then have "(vr_command req, store_verb_of he v req) \<in> set (handlers he req)" by (force simp: handlers_def)
  from Handle_of [OF this] reading_keeps [OF _ reading_verb [OF v assms]] show ?thesis by (auto simp: store_verb_of_def split: prod.splits)
qed

lemma prefs_command: "(c, CmdSetNodePrefs) \<in> set store_commands \<Longrightarrow> c = ''set_node_prefs''"
  by (simp add: store_commands_def)

section \<open>Properties\<close>

text \<open>
  Requests keep the daemon sound. From any well-formed store on, through the restore of the last session and any sequence of requests of any
  kind, with any answers of the disk, the network and the cores, the state of the session is one its step relation reaches, a running session has a
  complete context on a valid plan, and every stored profile that loads is well formed.
\<close>

theorem requests_keep_sound:
  assumes "served_reachable ve w"
  shows "(\<exists>P. session_reachable (ve_dv ve) (wd_manager w, P)) \<and> session_inv (wd_manager w) \<and> stored_good ve (wd_manager w)"
proof -
  have "(\<exists>P. session_reachable (ve_dv ve) (wd_manager w, P)) \<and> stored_good ve (wd_manager w)"
    using assms
  proof (induction rule: served_reachable.induct)
    case (boot fs settings oc u)
    then show ?case using restore_run stored_good_profiles [OF restore_frame boot] by (auto simp: boot_served_def intro!: exI [of _ "[]"])
  next
    case (request w he req)
    then obtain P where P: "session_reachable (ve_dv (he_verbs he)) (wd_manager w, P)" by auto
    have good: "stored_good (he_verbs he) (wd_manager w)" using request stored_good_env by blast
    show ?case
    proof (cases rule: Handle_cases [of req he w])
      case (session f)
      obtain m r where f: "f (wd_manager w) = (m, r)" by fastforce
      then have "wd_manager (fst (Handle he req w)) = m" using session(2) by (simp add: session_verb_def)
      then show ?thesis
        using session_handlers_run [OF session(1) P] session_handlers_frame [OF session(1), of "wd_manager w"] f request.IH request.hyps(3)
          stored_good_profiles [of m "wd_manager w" ve] by auto
    next
      case (stored v)
      obtain m evs r where h: "handle_store (he_verbs he) (he_oc he) (he_oc' he) v req (wd_manager w) = (m, evs, r)" by (metis prod_cases3)
      then have m: "wd_manager (fst (Handle he req w)) = m" using stored(2) by (simp add: store_verb_of_def)
      have "stored_good (he_verbs he) m"
        by (rule store_verbs_keep_profiles [OF h request.hyps(2) good])
      then show ?thesis
        using m store_verbs_refine_session [OF h P] stored_good_env [OF request.hyps(3,4)] request.hyps(3) by auto
    next
      case (update f)
      then show ?thesis using request.IH update_handlers_frame by simp
    qed (use request.IH in \<open>simp_all add: query_verb_def\<close>)
  qed
  then show ?thesis using session_reachable_ok by fastforce
qed

text \<open>
  C15. Requests stay in their component. A query and a store verb that reads change nothing. Only activating, stopping, switching and pinning a core may start, end or replace a
  session. Only the update verbs touch the updater and start a download, and they leave the manager as it is.
\<close>

theorem requests_framed:
  "(vr_command req \<in> fst ` set (query_handlers he req) \<union> {''list_profiles'', ''list_nodes'', ''get_group'', ''get_node'', ''list_subscriptions'',
        ''list_routing'', ''get_routing''} \<longrightarrow> fst (Handle he req w) = w) \<and>
   (vr_command req \<notin> {''activate'', ''stop'', ''switch_node'', ''set_node_prefs''} \<longrightarrow>
      mg_sess (wd_manager (fst (Handle he req w))) = mg_sess (wd_manager w)) \<and>
   (if vr_command req \<in> fst ` set (update_handlers he req) then wd_manager (fst (Handle he req w)) = wd_manager w
    else wd_updater (fst (Handle he req w)) = wd_updater w \<and> wd_transfers (fst (Handle he req w)) = wd_transfers w)"
proof (intro conjI impI)
  assume session: "vr_command req \<notin> {''activate'', ''stop'', ''switch_node'', ''set_node_prefs''}"
  show "mg_sess (wd_manager (fst (Handle he req w))) = mg_sess (wd_manager w)"
  proof (cases rule: Handle_cases [of req he w])
    case (session f)
    then have "f = setSettings (ve_dv (he_verbs he)) (he_oc he) (vr_settings req)"
      using \<open>vr_command req \<notin> _\<close> by (auto simp: session_handlers_def Let_def)
    then show ?thesis using session(2) by (auto simp: session_verb_def setSettings_def split: option.splits sum.splits)
  next
    case (stored v)
    then have "v \<noteq> CmdSetNodePrefs" using session prefs_command by auto
    then show ?thesis using stored(2) store_keeps_session by (auto simp: store_verb_of_def split: prod.splits)
  next
    case (update f)
    then show ?thesis using update_handlers_frame by simp
  qed (simp_all add: query_verb_def)
next
  show "if vr_command req \<in> fst ` set (update_handlers he req) then wd_manager (fst (Handle he req w)) = wd_manager w
    else wd_updater (fst (Handle he req w)) = wd_updater w \<and> wd_transfers (fst (Handle he req w)) = wd_transfers w"
  proof (cases "vr_command req \<in> fst ` set (update_handlers he req)")
    case True
    then show ?thesis using Handle_update [OF True, of w] update_handlers_frame by auto
  next
    case False
    show ?thesis
    proof (cases rule: Handle_cases [of req he w])
      case (update f)
      then show ?thesis using False by force
    qed (use False in \<open>auto simp: query_verb_def session_verb_def store_verb_of_def split: prod.splits\<close>)
  qed
next
  assume "vr_command req \<in> fst ` set (query_handlers he req) \<union> {''list_profiles'', ''list_nodes'', ''get_group'', ''get_node'', ''list_subscriptions'',
        ''list_routing'', ''get_routing''}"
  then show "fst (Handle he req w) = w" using Handle_query Handle_reads unfolding reading_commands_def by blast
qed

text \<open>
  The protocol is served completely. A request is answered as unimplemented exactly when its command is none of the verbs the protocol declares,
  or \<^verbatim>\<open>subscribe\<close>, which the server answers before the dispatcher.
\<close>

theorem verbs_dispatched:
  "snd (Handle he req w) = Unimplemented c \<longleftrightarrow> c = vr_command req \<and> c \<notin> set protocol_commands - {''subscribe''}"
proof (cases rule: Handle_cases [of req he w])
  case unknown
  then show ?thesis by (auto simp: handlers_complete)
next
  case (query f)
  then have "vr_command req \<in> set protocol_commands - {''subscribe''}" unfolding handlers_complete [of he req, symmetric] by (force simp: handlers_def)
  moreover have "f m \<noteq> Unimplemented c" for m using query(1) by (auto simp: query_handlers_def Let_def)
  ultimately show ?thesis using query(2) by (auto simp: query_verb_def)
next
  case (session f)
  then have "vr_command req \<in> set protocol_commands - {''subscribe''}" unfolding handlers_complete [of he req, symmetric] by (force simp: handlers_def)
  then show ?thesis using session(2) by (auto simp: session_verb_def split: prod.splits)
next
  case (stored v)
  then have "vr_command req \<in> set protocol_commands - {''subscribe''}" unfolding handlers_complete [of he req, symmetric] by (force simp: handlers_def)
  then show ?thesis using stored(2) by (auto simp: store_verb_of_def split: prod.splits)
next
  case (update f)
  then have "vr_command req \<in> set protocol_commands - {''subscribe''}" unfolding handlers_complete [of he req, symmetric] by (force simp: handlers_def)
  then show ?thesis using update by (auto simp: update_handlers_def update_verb_def download_verb_def split: prod.splits)
qed

section \<open>A first request\<close>

definition first_env :: "handle_env \<Rightarrow> handle_env" where
  "first_env he = he\<lparr>he_verbs := sample_verbs, he_oc := sample_outcomes, he_oc' := sample_outcomes\<rparr>"

definition empty_served :: "updater \<Rightarrow> served" where
  "empty_served u = boot_served (ve_dv sample_verbs) sample_outcomes empty_fs None u"

lemma empty_served_manager: "wd_manager (empty_served u) = newManager empty_fs None"
  by (simp add: empty_served_def boot_served_def restoreLastSession_def newManager_def LoadLastSession_def empty_fs_def read_file_def split: sum.splits)

lemma first_created: "wd_manager (fst (Handle (first_env he) sample_create (empty_served u))) = sample_created"
proof -
  have "(vr_command sample_create, CmdCreateProfile) \<in> set store_commands" by (simp add: sample_create_def store_commands_def)
  then have "(vr_command sample_create, store_verb_of (first_env he) CmdCreateProfile sample_create) \<in> set (handlers (first_env he) sample_create)"
    by (force simp: handlers_def)
  from Handle_of [OF this] show ?thesis
    using sample_creates by (simp add: store_verb_of_def first_env_def empty_served_manager del: handle_store.simps)
qed

theorem requests_keep_sound_witness:
  "\<forall>he u. served_reachable sample_verbs (fst (Handle (first_env he) sample_create (empty_served u))) \<and> session_inv sample_created \<and>
     stored_good sample_verbs sample_created"
proof (intro allI)
  fix he u
  have "served_reachable sample_verbs (empty_served u)"
    unfolding empty_served_def by (rule served_reachable.boot [OF empty_stored_good])
  then have "served_reachable sample_verbs (fst (Handle (first_env he) sample_create (empty_served u)))"
    by (rule served_reachable.request) (simp_all add: first_env_def sample_env_ok)
  with requests_keep_sound [OF this] show "served_reachable sample_verbs (fst (Handle (first_env he) sample_create (empty_served u))) \<and>
    session_inv sample_created \<and> stored_good sample_verbs sample_created" by (simp add: first_created)
qed

theorem requests_framed_witness:
  "\<forall>he u. wd_updater (fst (Handle (first_env he) sample_create (empty_served u))) = u \<and>
     mg_sess sample_created = None \<and> fst (Handle he (sample_create\<lparr>vr_command := ''status''\<rparr>) (empty_served u)) = empty_served u \<and>
     fst (Handle he (sample_create\<lparr>vr_command := ''list_nodes''\<rparr>) (empty_served u)) = empty_served u"
proof (intro allI conjI)
  fix he u
  show "fst (Handle he (sample_create\<lparr>vr_command := ''list_nodes''\<rparr>) (empty_served u)) = empty_served u"
    using requests_framed [of "sample_create\<lparr>vr_command := ''list_nodes''\<rparr>" he "empty_served u"] by simp
  note framed = requests_framed [of sample_create "first_env he" "empty_served u"]
  have "''create_profile'' \<notin> fst ` set (update_handlers (first_env he) sample_create)" by (simp add: update_handlers_def)
  with framed show "wd_updater (fst (Handle (first_env he) sample_create (empty_served u))) = u"
    by (simp add: sample_create_def empty_served_def boot_served_def)
  show "mg_sess sample_created = None"
    using framed first_created [of he u] by (simp add: sample_create_def empty_served_manager newManager_def)
  have "''status'' \<in> fst ` set (query_handlers he (sample_create\<lparr>vr_command := ''status''\<rparr>))" by (simp add: query_handlers_def Let_def)
  then show "fst (Handle he (sample_create\<lparr>vr_command := ''status''\<rparr>) (empty_served u)) = empty_served u"
    using requests_framed [of "sample_create\<lparr>vr_command := ''status''\<rparr>" he "empty_served u"] by simp
qed

end
