(* ===== verification/Ipc_Stream.thy ===== *)
theory Ipc_Stream
  imports Iron_Prelude "HOL-Library.AList" "HOL-Library.Sublist"
begin

text \<open>
  The control transport (\<^verbatim>\<open>daemon-go/internal/ipc\<close>): the length-prefixed frames of \<^verbatim>\<open>codec.go\<close>, the event
  hub of \<^verbatim>\<open>hub.go\<close> with its bounded, lossy subscriber channels, and the connection handling of
  \<^verbatim>\<open>server.go\<close>.

  A reader is the byte sequence the peer sends before it closes; a writer is a connection that takes
  \<open>wr_room\<close> more bytes before it breaks. The JSON text functions are parameters. Channels are event
  lists; the goroutines of several subscribers and of the broadcasting daemon interleave in
  \<open>server_step\<close>.

  Main results: a written frame reads back and leaves the rest of the stream; the prefix never wraps and a
  reader never takes more than one bounded frame; what is on the wire of a subscriber is its snapshot followed by
  events in broadcast order, a refinement of a bounded lossy queue.
\<close>

unbundle bit_operations_syntax

section \<open>Readers and writers\<close>

type_synonym byte = "8 word"

datatype frame_error =
    EndOfFile
  | UnexpectedEOF
  | EncodeFailed
  | TooLargeToSend nat
  | WriteFailed
  | TooLargeToRead "32 word"
  | DecodeFailed

text \<open>\<^verbatim>\<open>io.ReadFull\<close>: a clean end is reported only when not a single byte was read.\<close>

definition ReadFull :: "nat \<Rightarrow> byte list \<Rightarrow> (frame_error + byte list) \<times> byte list" where
  "ReadFull n s = (if n = 0 then (Inr [], s) else if s = [] then (Inl EndOfFile, [])
     else if length s < n then (Inl UnexpectedEOF, []) else (Inr (take n s), drop n s))"

record writer =
  wr_out :: "byte list"
  wr_room :: nat

definition Write :: "byte list \<Rightarrow> writer \<Rightarrow> writer \<times> bool" where
  "Write bs w = (w\<lparr>wr_out := wr_out w @ take (wr_room w) bs, wr_room := wr_room w - length bs\<rparr>, length bs \<le> wr_room w)"

definition PutUint32 :: "32 word \<Rightarrow> byte list" where
  "PutUint32 v = [ucast (drop_bit 24 v), ucast (drop_bit 16 v), ucast (drop_bit 8 v), ucast v]"

fun Uint32 :: "byte list \<Rightarrow> 32 word" where
  "Uint32 [a, b, c, d] = push_bit 24 (ucast a) OR push_bit 16 (ucast b) OR push_bit 8 (ucast c) OR ucast d"
| "Uint32 _ = 0"

lemma length_PutUint32 [simp]: "length (PutUint32 v) = 4"
  by (simp add: PutUint32_def)

lemma Uint32_Put [simp]: "Uint32 (PutUint32 v) = v"
  unfolding PutUint32_def Uint32.simps
proof (rule bit_word_eqI)
  fix n assume n: "n < LENGTH(32)"
  consider "n < 8" | "8 \<le> n" "n < 16" | "16 \<le> n" "n < 24" | "24 \<le> n" by linarith
  then show "bit (push_bit 24 (ucast (ucast (drop_bit 24 v) :: byte)) OR push_bit 16 (ucast (ucast (drop_bit 16 v) :: byte)) OR
      push_bit 8 (ucast (ucast (drop_bit 8 v) :: byte)) OR ucast (ucast v :: byte) :: 32 word) n = bit v n"
    using n by cases (auto simp: bit_simps)
qed

section \<open>Frames\<close>

definition MaxFrameLen :: nat where
  "MaxFrameLen = 16777216"

definition WriteFrame :: "('v \<Rightarrow> byte list option) \<Rightarrow> 'v \<Rightarrow> writer \<Rightarrow> writer \<times> frame_error option" where
  "WriteFrame marshal v w = (case marshal v of
     None \<Rightarrow> (w, Some EncodeFailed)
   | Some body \<Rightarrow>
       if MaxFrameLen < length body then (w, Some (TooLargeToSend (length body)))
       else (case Write (PutUint32 (word_of_nat (length body))) w of
         (w1, ok1) \<Rightarrow> if \<not> ok1 then (w1, Some WriteFailed)
           else (case Write body w1 of (w2, ok2) \<Rightarrow> (w2, if ok2 then None else Some WriteFailed))))"

definition ReadFrame :: "(byte list \<Rightarrow> 'v option) \<Rightarrow> byte list \<Rightarrow> (frame_error + 'v) \<times> byte list" where
  "ReadFrame unmarshal s = (case ReadFull 4 s of
     (Inl e, r) \<Rightarrow> (Inl e, r)
   | (Inr hdr, r) \<Rightarrow>
      (let n = Uint32 hdr in
       if MaxFrameLen < unat n then (Inl (TooLargeToRead n), r)
       else (case ReadFull (unat n) r of
         (Inl e, r') \<Rightarrow> (Inl e, r')
       | (Inr body, r') \<Rightarrow> (case unmarshal body of None \<Rightarrow> (Inl DecodeFailed, r') | Some v \<Rightarrow> (Inr v, r')))))"

text \<open>The bytes of one frame, for values that can be sent.\<close>

definition frame :: "('v \<Rightarrow> byte list option) \<Rightarrow> 'v \<Rightarrow> byte list" where
  "frame marshal v = (case marshal v of None \<Rightarrow> [] | Some body \<Rightarrow> PutUint32 (word_of_nat (length body)) @ body)"

definition sendable :: "('v \<Rightarrow> byte list option) \<Rightarrow> 'v \<Rightarrow> bool" where
  "sendable marshal v = (case marshal v of None \<Rightarrow> False | Some body \<Rightarrow> length body \<le> MaxFrameLen)"

lemma prefix_no_wrap: "n \<le> MaxFrameLen \<Longrightarrow> unat (word_of_nat n :: 32 word) = n"
  by (simp add: unsigned_of_nat take_bit_nat_eq_self MaxFrameLen_def)

lemma WriteFrame_ok:
  "WriteFrame marshal v w = (w', None) \<Longrightarrow>
    sendable marshal v \<and> wr_out w' = wr_out w @ frame marshal v"
  by (auto simp: WriteFrame_def sendable_def frame_def Write_def split: option.splits if_splits)

lemma WriteFrame_prefix:
  "WriteFrame marshal v w = (w', r) \<Longrightarrow> \<exists>n. wr_out w' = wr_out w @ take n (frame marshal v)"
proof (cases "marshal v")
  case (Some body)
  assume eq: "WriteFrame marshal v w = (w', r)"
  let ?hdr = "PutUint32 (word_of_nat (length body))"
  consider "w' = w" | "\<not> length ?hdr \<le> wr_room w" "wr_out w' = wr_out w @ take (wr_room w) ?hdr"
    | "length ?hdr \<le> wr_room w" "wr_out w' = wr_out w @ ?hdr @ take (wr_room w - 4) body"
    using eq Some by (auto simp: WriteFrame_def Write_def split: if_splits)
  then show ?thesis
  proof cases
    case 1 then show ?thesis by (intro exI [of _ 0]) simp
  next
    case 2 then show ?thesis using Some by (intro exI [of _ "wr_room w"]) (simp add: frame_def)
  next
    case 3 then show ?thesis using Some by (intro exI [of _ "wr_room w"]) (simp add: frame_def)
  qed
qed (auto simp: WriteFrame_def)

lemma ReadFrame_frame:
  assumes "marshal v = Some body" and "length body \<le> MaxFrameLen" and "unmarshal body = Some v'"
  shows "ReadFrame unmarshal (frame marshal v @ rest) = (Inr v', rest)"
proof -
  have "ReadFull 4 (PutUint32 (word_of_nat (length body)) @ body @ rest) = (Inr (PutUint32 (word_of_nat (length body))), body @ rest)"
    by (simp add: ReadFull_def) (simp add: PutUint32_def)
  moreover have "ReadFull (length body) (body @ rest) = (Inr body, rest)"
    by (simp add: ReadFull_def)
  ultimately show ?thesis
    using assms by (simp add: ReadFrame_def frame_def prefix_no_wrap)
qed

section \<open>What a subscriber is promised\<close>

text \<open>
  The contract of a subscription, independent of channels and frames: the events published since it began,
  those queued for it and those delivered. Publishing queues the event, or loses it when the queue is full.
\<close>

type_synonym 'e feed = "'e list \<times> 'e list \<times> 'e list"

inductive feed_step :: "nat \<Rightarrow> 'e feed \<Rightarrow> 'e feed \<Rightarrow> bool" for room where
  publish: "length q < room \<Longrightarrow> feed_step room (since, q, d) (since @ [e], q @ [e], d)"
| lose: "room \<le> length q \<Longrightarrow> feed_step room (since, q, d) (since @ [e], q, d)"
| deliver: "feed_step room (since, e # q, d) (since, q, d @ [e])"

definition feed_reachable :: "nat \<Rightarrow> 'e feed \<Rightarrow> bool" where
  "feed_reachable room f = (feed_step room)\<^sup>*\<^sup>* ([], [], []) f"

lemma feed_start: "feed_reachable room ([], [], [])"
  by (simp add: feed_reachable_def)

lemma feed_reachable_step: "feed_reachable room f \<Longrightarrow> feed_step room f f' \<Longrightarrow> feed_reachable room f'"
  by (simp add: feed_reachable_def)

lemma feed_ordered:
  assumes "feed_reachable room (since, q, d)"
  shows "subseq (d @ q) since \<and> length q \<le> room \<and> (length since \<le> room \<longrightarrow> d @ q = since)"
  using assms unfolding feed_reachable_def
proof (induction "(since, q, d)" arbitrary: since q d rule: rtranclp_induct)
  case base
  then show ?case by simp
next
  case (step f)
  obtain since0 q0 d0 where f: "f = (since0, q0, d0)" by (cases f) auto
  note IH = step(3) [OF f]
  from step(2) [unfolded f] show ?case
  proof cases
    case (publish e)
    have "subseq ((d0 @ q0) @ [e]) (since0 @ [e])" using IH by (intro list_emb_append_mono) auto
    with publish IH show ?thesis by auto
  next
    case (lose e)
    have "subseq (d0 @ q0) (since0 @ [e])" using IH list_emb_append2 [of "(=)"] by (metis list_emb_append_mono append_Nil2 list_emb_Nil)
    moreover have "\<not> length since0 < length q0"
      using IH list_emb_length [of "(=)" "d0 @ q0" since0] by simp
    ultimately show ?thesis using lose IH by auto
  next
    case (deliver e)
    with IH show ?thesis by auto
  qed
qed

locale lossy_queue =
  fixes offer :: "'e \<Rightarrow> 'q \<Rightarrow> 'q" and poll :: "'q \<Rightarrow> ('e \<times> 'q) option" and items :: "'q \<Rightarrow> 'e list" and room :: nat
  assumes items_offer: "items (offer e q) = (if length (items q) < room then items q @ [e] else items q)"
    and items_poll: "poll q = Some (e, q') \<Longrightarrow> items q = e # items q'"
begin

lemma offer_feed: "feed_reachable room (since, items q, d) \<Longrightarrow> feed_reachable room (since @ [e], items (offer e q), d)"
  by (erule feed_reachable_step) (auto simp: items_offer intro: feed_step.intros)

lemma poll_feed:
  "feed_reachable room (since, items q, d) \<Longrightarrow> poll q = Some (e, q') \<Longrightarrow> feed_reachable room (since, items q', d @ [e])"
  by (erule feed_reachable_step) (auto dest!: items_poll intro: feed_step.intros)

end

section \<open>The event hub\<close>

text \<open>A subscriber's channel is the list of its buffered events.\<close>

definition chan_buffer :: nat where
  "chan_buffer = 64"

definition send_or_drop :: "'e \<Rightarrow> 'e list \<Rightarrow> 'e list" where
  "send_or_drop ev ch = (if length ch < chan_buffer then ch @ [ev] else ch)"

fun receive :: "'e list \<Rightarrow> ('e \<times> 'e list) option" where
  "receive [] = None"
| "receive (ev # ch) = Some (ev, ch)"

interpretation chan: lossy_queue send_or_drop receive "\<lambda>ch. ch" chan_buffer
proof
  show "receive q = Some (e, q') \<Longrightarrow> q = e # q'" for q :: "'a list" and e q'
    by (cases q) auto
qed (simp add: send_or_drop_def)

record 'e hub =
  hb_subs :: "(nat \<times> 'e list) list"
  hb_next :: nat

definition NewHub :: "'e hub" where
  "NewHub = \<lparr>hb_subs = [], hb_next = 0\<rparr>"

definition subscribe :: "'e hub \<Rightarrow> 'e hub \<times> nat" where
  "subscribe h = (h\<lparr>hb_subs := AList.update (hb_next h) [] (hb_subs h), hb_next := hb_next h + 1\<rparr>, hb_next h)"

definition cancel :: "nat \<Rightarrow> 'e hub \<Rightarrow> 'e hub" where
  "cancel i h = h\<lparr>hb_subs := AList.delete i (hb_subs h)\<rparr>"

definition Broadcast :: "'e \<Rightarrow> 'e hub \<Rightarrow> 'e hub" where
  "Broadcast ev h = h\<lparr>hb_subs := map (\<lambda>(i, ch). (i, send_or_drop ev ch)) (hb_subs h)\<rparr>"

definition SubscriberCount :: "'e hub \<Rightarrow> nat" where
  "SubscriberCount h = length (hb_subs h)"

abbreviation channel :: "'e hub \<Rightarrow> nat \<Rightarrow> 'e list option" where
  "channel h \<equiv> map_of (hb_subs h)"

lemma channel_subscribe: "subscribe h = (h', i) \<Longrightarrow> channel h' = (channel h)(i \<mapsto> [])"
  by (auto simp: subscribe_def update_conv')

lemma channel_cancel: "channel (cancel i h) = (channel h)(i := None)"
  by (simp add: cancel_def delete_conv')

lemma channel_Broadcast: "channel (Broadcast ev h) i = map_option (send_or_drop ev) (channel h i)"
  by (simp add: Broadcast_def map_of_map)

section \<open>Connections\<close>

text \<open>
  A request that is not a subscription gets one reply frame; an unreadable one gets nothing. \<open>handler\<close> is the
  \<^verbatim>\<open>Handler\<close> the server was built with.
\<close>

datatype request_outcome = Ignored | Replied writer | Subscribes

definition handleConn :: "(byte list \<Rightarrow> 'q option) \<Rightarrow> ('r \<Rightarrow> byte list option) \<Rightarrow> ('q \<Rightarrow> bool) \<Rightarrow> ('q \<Rightarrow> 's \<Rightarrow> 's \<times> 'r) \<Rightarrow>
    byte list \<Rightarrow> writer \<Rightarrow> 's \<Rightarrow> 's \<times> request_outcome" where
  "handleConn unmarshal marshal is_subscribe handler input w st = (case fst (ReadFrame unmarshal input) of
     Inl _ \<Rightarrow> (st, Ignored)
   | Inr req \<Rightarrow> if is_subscribe req then (st, Subscribes)
       else (case handler req st of (st', resp) \<Rightarrow> (st', Replied (fst (WriteFrame marshal resp w)))))"

text \<open>
  A subscribe connection is opening until its snapshot is written, then it streams. It is named by its
  subscriber number. \<open>cn_since\<close> records the events broadcast since it subscribed and \<open>cn_first\<close> the snapshot;
  nothing reads them.
\<close>

datatype phase = Opening | Streaming | Closed

record 'e conn =
  cn_phase :: phase
  cn_wire :: writer
  cn_first :: "'e option"
  cn_since :: "'e list"

record 'e server =
  sv_hub :: "'e hub"
  sv_conns :: "nat \<Rightarrow> 'e conn option"

definition NewServer :: "'e server" where
  "NewServer = \<lparr>sv_hub = NewHub, sv_conns = (\<lambda>_. None)\<rparr>"

definition stream_open :: "nat \<Rightarrow> 'e server \<Rightarrow> 'e server" where
  "stream_open room s = (case subscribe (sv_hub s) of (h, i) \<Rightarrow>
     s\<lparr>sv_hub := h, sv_conns := (sv_conns s)(i \<mapsto> \<lparr>cn_phase = Opening, cn_wire = \<lparr>wr_out = [], wr_room = room\<rparr>,
        cn_first = None, cn_since = []\<rparr>)\<rparr>)"

definition stream_close :: "nat \<Rightarrow> 'e conn \<Rightarrow> 'e server \<Rightarrow> 'e server" where
  "stream_close i c s = s\<lparr>sv_hub := cancel i (sv_hub s), sv_conns := (sv_conns s)(i \<mapsto> c\<lparr>cn_phase := Closed\<rparr>)\<rparr>"

definition stream_snapshot :: "('e \<Rightarrow> byte list option) \<Rightarrow> 'e \<Rightarrow> nat \<Rightarrow> 'e conn \<Rightarrow> 'e server \<Rightarrow> 'e server" where
  "stream_snapshot marshal snap i c s = (case WriteFrame marshal snap (cn_wire c) of (w, r) \<Rightarrow>
     (let c' = c\<lparr>cn_wire := w, cn_first := Some snap\<rparr> in
      if r = None then s\<lparr>sv_conns := (sv_conns s)(i \<mapsto> c'\<lparr>cn_phase := Streaming\<rparr>)\<rparr> else stream_close i c' s))"

text \<open>One turn of the loop that finds an event in the channel.\<close>

definition stream_event :: "('e \<Rightarrow> byte list option) \<Rightarrow> nat \<Rightarrow> 'e conn \<Rightarrow> 'e server \<Rightarrow> 'e server" where
  "stream_event marshal i c s = (case channel (sv_hub s) i of
     None \<Rightarrow> s
   | Some ch \<Rightarrow> (case receive ch of
       None \<Rightarrow> s
     | Some (ev, ch') \<Rightarrow>
        (let s' = s\<lparr>sv_hub := (sv_hub s)\<lparr>hb_subs := AList.update i ch' (hb_subs (sv_hub s))\<rparr>\<rparr> in
         case WriteFrame marshal ev (cn_wire c) of (w, r) \<Rightarrow>
           if r = None then s'\<lparr>sv_conns := (sv_conns s')(i \<mapsto> c\<lparr>cn_wire := w\<rparr>)\<rparr> else stream_close i (c\<lparr>cn_wire := w\<rparr>) s')))"

definition server_broadcast :: "'e \<Rightarrow> 'e server \<Rightarrow> 'e server" where
  "server_broadcast ev s = s\<lparr>sv_hub := Broadcast ev (sv_hub s),
     sv_conns := (\<lambda>i. map_option (\<lambda>c. if cn_phase c = Closed then c else c\<lparr>cn_since := cn_since c @ [ev]\<rparr>) (sv_conns s i))\<rparr>"

inductive server_step :: "('e \<Rightarrow> byte list option) \<Rightarrow> 'e server \<Rightarrow> 'e server \<Rightarrow> bool" for marshal where
  opens: "server_step marshal s (stream_open room s)"
| snapshot: "sv_conns s i = Some c \<Longrightarrow> cn_phase c = Opening \<Longrightarrow> server_step marshal s (stream_snapshot marshal snap i c s)"
| event: "sv_conns s i = Some c \<Longrightarrow> cn_phase c = Streaming \<Longrightarrow> server_step marshal s (stream_event marshal i c s)"
| gone: "sv_conns s i = Some c \<Longrightarrow> cn_phase c = Streaming \<Longrightarrow> server_step marshal s (stream_close i c s)"
| broadcast: "server_step marshal s (server_broadcast ev s)"

inductive server_reachable :: "('e \<Rightarrow> byte list option) \<Rightarrow> 'e server \<Rightarrow> bool" for marshal where
  start: "server_reachable marshal NewServer"
| step: "server_reachable marshal s \<Longrightarrow> server_step marshal s s' \<Longrightarrow> server_reachable marshal s'"

definition frames :: "('e \<Rightarrow> byte list option) \<Rightarrow> 'e list \<Rightarrow> byte list" where
  "frames marshal vs = concat (map (frame marshal) vs)"

definition conn_ok :: "('e \<Rightarrow> byte list option) \<Rightarrow> 'e list option \<Rightarrow> 'e conn \<Rightarrow> bool" where
  "conn_ok marshal ch c = (\<exists>q d. feed_reachable chan_buffer (cn_since c, q, d) \<and> (case cn_phase c of
     Opening \<Rightarrow> ch = Some q \<and> d = [] \<and> wr_out (cn_wire c) = []
   | Streaming \<Rightarrow> ch = Some q \<and> (\<exists>snap. cn_first c = Some snap \<and> list_all (sendable marshal) (snap # d) \<and>
       wr_out (cn_wire c) = frames marshal (snap # d))
   | Closed \<Rightarrow> ch = None \<and> (\<exists>snap. cn_first c = Some snap \<and> prefix (wr_out (cn_wire c)) (frames marshal (snap # d)))))"

definition server_ok :: "('e \<Rightarrow> byte list option) \<Rightarrow> 'e server \<Rightarrow> bool" where
  "server_ok marshal s = ((\<forall>i c. sv_conns s i = Some c \<longrightarrow> i < hb_next (sv_hub s) \<and> conn_ok marshal (channel (sv_hub s) i) c))"

lemma conn_ok_broadcast:
  assumes "conn_ok marshal ch c"
  shows "conn_ok marshal (map_option (send_or_drop ev) ch) (if cn_phase c = Closed then c else c\<lparr>cn_since := cn_since c @ [ev]\<rparr>)"
  using assms by (cases "cn_phase c") (auto simp: conn_ok_def intro: chan.offer_feed)

lemma conn_ok_snapshot:
  assumes "conn_ok marshal ch c" and "cn_phase c = Opening" and "WriteFrame marshal snap (cn_wire c) = (w, r)"
  shows "r = None \<Longrightarrow> conn_ok marshal ch (c\<lparr>cn_wire := w, cn_first := Some snap, cn_phase := Streaming\<rparr>)"
    and "conn_ok marshal None (c\<lparr>cn_wire := w, cn_first := Some snap, cn_phase := Closed\<rparr>)"
proof -
  obtain n where "wr_out w = wr_out (cn_wire c) @ take n (frame marshal snap)"
    using WriteFrame_prefix [OF assms(3)] by blast
  then show "conn_ok marshal None (c\<lparr>cn_wire := w, cn_first := Some snap, cn_phase := Closed\<rparr>)"
    using assms(1,2) by (auto simp: conn_ok_def frames_def take_is_prefix) blast
qed (use assms WriteFrame_ok in \<open>fastforce simp: conn_ok_def frames_def\<close>)

lemma conn_ok_event:
  assumes "conn_ok marshal (Some ch) c" and "cn_phase c = Streaming" and "receive ch = Some (ev, ch')"
    and "WriteFrame marshal ev (cn_wire c) = (w, r)"
  shows "r = None \<Longrightarrow> conn_ok marshal (Some ch') (c\<lparr>cn_wire := w\<rparr>)"
    and "conn_ok marshal None (c\<lparr>cn_wire := w, cn_phase := Closed\<rparr>)"
proof -
  obtain d snap where d: "feed_reachable chan_buffer (cn_since c, ch, d)" "cn_first c = Some snap"
      "list_all (sendable marshal) (snap # d)" "wr_out (cn_wire c) = frames marshal (snap # d)"
    using assms(1,2) by (auto simp: conn_ok_def)
  note feed = chan.poll_feed [OF d(1) assms(3)]
  obtain n where n: "wr_out w = wr_out (cn_wire c) @ take n (frame marshal ev)"
    using WriteFrame_prefix [OF assms(4)] by blast
  show "conn_ok marshal None (c\<lparr>cn_wire := w, cn_phase := Closed\<rparr>)"
    unfolding conn_ok_def
    by (rule exI [of _ ch'], rule exI [of _ "d @ [ev]"]) (use d n feed in \<open>simp add: frames_def take_is_prefix\<close>)
  show "conn_ok marshal (Some ch') (c\<lparr>cn_wire := w\<rparr>)" if "r = None"
    unfolding conn_ok_def
    by (rule exI [of _ ch'], rule exI [of _ "d @ [ev]"])
      (use d feed assms(2) WriteFrame_ok [OF assms(4) [unfolded that]] in \<open>simp add: frames_def\<close>)
qed

lemma conn_ok_gone: "conn_ok marshal ch c \<Longrightarrow> cn_phase c = Streaming \<Longrightarrow> conn_ok marshal None (c\<lparr>cn_phase := Closed\<rparr>)"
  by (fastforce simp: conn_ok_def)

lemma hb_next_frame [simp]: "hb_next (cancel i h) = hb_next h" "hb_next (Broadcast ev h) = hb_next h"
  by (simp_all add: cancel_def Broadcast_def)

lemma server_ok_close:
  assumes "server_ok marshal s" and "sv_conns s i \<noteq> None" and "conn_ok marshal None (c\<lparr>cn_phase := Closed\<rparr>)"
  shows "server_ok marshal (stream_close i c s)"
  using assms by (auto simp: server_ok_def stream_close_def channel_cancel)

lemma server_step_ok:
  assumes "server_step marshal s s'" and "server_ok marshal s"
  shows "server_ok marshal s'"
  using assms(1)
proof cases
  case (opens room)
  have "conn_ok marshal (Some []) \<lparr>cn_phase = Opening, cn_wire = \<lparr>wr_out = [], wr_room = room\<rparr>, cn_first = None, cn_since = []\<rparr>"
    by (simp add: conn_ok_def feed_start)
  then show ?thesis
    using assms(2) opens by (auto simp: server_ok_def stream_open_def subscribe_def update_conv' less_Suc_eq)
next
  case (snapshot i c snap)
  obtain w r where w: "WriteFrame marshal snap (cn_wire c) = (w, r)" by fastforce
  have ok: "conn_ok marshal (channel (sv_hub s) i) c" "i < hb_next (sv_hub s)"
    using assms(2) snapshot by (auto simp: server_ok_def)
  note c' = conn_ok_snapshot [OF ok(1) snapshot(3) w]
  show ?thesis
  proof (cases "r = None")
    case True
    then show ?thesis using assms(2) snapshot(1) w ok(2) c'(1) by (auto simp: server_ok_def stream_snapshot_def)
  next
    case False
    then show ?thesis using assms(2) snapshot(1,2) w c'(2) by (auto simp: stream_snapshot_def intro!: server_ok_close)
  qed
next
  case (event i c)
  have ok: "conn_ok marshal (channel (sv_hub s) i) c" "i < hb_next (sv_hub s)"
    using assms(2) event by (auto simp: server_ok_def)
  then obtain ch where ch: "channel (sv_hub s) i = Some ch" using event(3) by (auto simp: conn_ok_def)
  show ?thesis
  proof (cases "receive ch")
    case None
    then show ?thesis using assms(2) event(1) ch by (simp add: stream_event_def)
  next
    case (Some p)
    obtain ev ch' where p: "p = (ev, ch')" by (cases p)
    obtain w r where w: "WriteFrame marshal ev (cn_wire c) = (w, r)" by fastforce
    let ?s = "s\<lparr>sv_hub := (sv_hub s)\<lparr>hb_subs := AList.update i ch' (hb_subs (sv_hub s))\<rparr>\<rparr>"
    note c' = conn_ok_event [OF ok(1) [unfolded ch] event(3) Some [unfolded p] w]
    show ?thesis
      using assms(2) event(1,2) ch Some p w c' ok(2)
      by (auto simp: stream_event_def stream_close_def server_ok_def channel_cancel update_conv' Let_def)
  qed
next
  case (gone i c)
  then have "conn_ok marshal (channel (sv_hub s) i) c" using assms(2) by (simp add: server_ok_def)
  then have "conn_ok marshal None (c\<lparr>cn_phase := Closed\<rparr>)" using gone(3) by (rule conn_ok_gone)
  then show ?thesis using assms(2) gone(1,2) by (simp add: server_ok_close)
next
  case (broadcast ev)
  then show ?thesis
    using assms(2) by (auto simp: server_ok_def server_broadcast_def channel_Broadcast intro: conn_ok_broadcast split del: if_split)
qed

lemma server_reachable_ok: "server_reachable marshal s \<Longrightarrow> server_ok marshal s"
  by (induction rule: server_reachable.induct) (auto simp: server_step_ok, simp add: server_ok_def NewServer_def)

section \<open>The peer's reader\<close>

lemma ReadFull_consumes: "ReadFull n s = (Inr bs, r) \<Longrightarrow> length s = n + length r \<and> length bs = n"
  by (auto simp: ReadFull_def split: if_splits)

lemma ReadFrame_consumes: "ReadFrame unmarshal s = (Inr v, r) \<Longrightarrow> length r + 4 \<le> length s"
  by (auto simp: ReadFrame_def Let_def dest!: ReadFull_consumes split: prod.splits sum.splits option.splits if_splits)

text \<open>All frames of a byte stream up to the first one that cannot be read.\<close>

function read_frames :: "(byte list \<Rightarrow> 'v option) \<Rightarrow> byte list \<Rightarrow> 'v list" where
  "read_frames unmarshal s = (case ReadFrame unmarshal s of (Inr v, r) \<Rightarrow> v # read_frames unmarshal r | (Inl _, _) \<Rightarrow> [])"
  by pat_completeness auto
termination
  by (relation "measure (\<lambda>(u, s). length s)") (auto dest: ReadFrame_consumes [OF sym])

declare read_frames.simps [simp del]

lemma read_frames_Nil: "read_frames unmarshal [] = []"
  by (simp add: read_frames.simps ReadFrame_def ReadFull_def)

lemma read_frames_frames:
  assumes "\<forall>v body. marshal v = Some body \<longrightarrow> unmarshal body = Some v" and "list_all (sendable marshal) vs"
  shows "read_frames unmarshal (frames marshal vs) = vs"
  using assms(2)
proof (induction vs)
  case Nil
  then show ?case by (simp add: frames_def read_frames_Nil)
next
  case (Cons v vs)
  then obtain body where "marshal v = Some body" "length body \<le> MaxFrameLen"
    by (auto simp: sendable_def split: option.splits)
  then have "ReadFrame unmarshal (frame marshal v @ frames marshal vs) = (Inr v, frames marshal vs)"
    using assms(1) by (intro ReadFrame_frame) auto
  with Cons show ?case by (subst read_frames.simps) (simp add: frames_def)
qed

lemma ReadFull_rest: "ReadFull n s = (x, r) \<Longrightarrow> length s \<le> length r + n"
  by (auto simp: ReadFull_def split: if_splits)

lemma ReadFull_EndOfFile: "fst (ReadFull n s) = Inl EndOfFile \<longleftrightarrow> 0 < n \<and> s = []"
  by (simp add: ReadFull_def)

lemma ReadFull_split: "ReadFull n s = (Inr bs, r) \<Longrightarrow> s = bs @ r \<and> length bs = n"
  by (auto simp: ReadFull_def split: if_splits)

section \<open>Properties\<close>

text \<open>
  Frame round trip. A frame that was written without an error reads back as the value that was sent, and
  the reader leaves exactly what follows it, so frames can be read one after the other; the text encoding is
  assumed to be read back by the decoder.
\<close>

theorem frame_roundtrip:
  assumes "WriteFrame marshal v w = (w', None)" and "\<forall>v body. marshal v = Some body \<longrightarrow> unmarshal body = Some v"
  shows "\<exists>fr. wr_out w' = wr_out w @ fr \<and> ReadFrame unmarshal (fr @ rest) = (Inr v, rest)"
proof -
  have w: "sendable marshal v" "wr_out w' = wr_out w @ frame marshal v" using WriteFrame_ok [OF assms(1)] by auto
  then obtain body where "marshal v = Some body" "length body \<le> MaxFrameLen"
    by (auto simp: sendable_def split: option.splits)
  then have "ReadFrame unmarshal (frame marshal v @ rest) = (Inr v, rest)"
    using assms(2) by (intro ReadFrame_frame) auto
  with w(2) show ?thesis by blast
qed

theorem frame_roundtrip_witness:
  "\<exists>fr. wr_out (fst (WriteFrame Some [7, 9] \<lparr>wr_out = [1], wr_room = 10\<rparr>)) = [1] @ fr \<and> ReadFrame Some (fr @ [5]) = (Inr [7, 9], [5])"
proof -
  have "WriteFrame Some [7, 9] \<lparr>wr_out = [1], wr_room = 10\<rparr> =
      (fst (WriteFrame Some [7, 9] \<lparr>wr_out = [1], wr_room = 10\<rparr>), None)"
    by (simp add: WriteFrame_def Write_def MaxFrameLen_def)
  from frame_roundtrip [OF this, of Some "[5]"] show ?thesis by simp
qed

text \<open>
  Bounds of a frame. The 32-bit prefix never wraps: it is the exact length of the body. One call of the
  writer adds, and one call of the reader takes, at most the prefix and \<open>MaxFrameLen\<close> bytes; a prefix above the
  limit is rejected with nothing but the prefix taken.
\<close>

theorem frame_bounds:
  "(\<forall>body. length body \<le> MaxFrameLen \<longrightarrow> unat (Uint32 (PutUint32 (word_of_nat (length body)))) = length body) \<and>
   length (wr_out (fst (WriteFrame marshal v w))) \<le> length (wr_out w) + 4 + MaxFrameLen \<and>
   length s \<le> length (snd (ReadFrame unmarshal s)) + 4 + MaxFrameLen \<and>
   (\<forall>n. fst (ReadFrame unmarshal s) = Inl (TooLargeToRead n) \<longrightarrow> length s = length (snd (ReadFrame unmarshal s)) + 4 \<and> MaxFrameLen < unat n)"
proof (intro conjI)
  show "length (wr_out (fst (WriteFrame marshal v w))) \<le> length (wr_out w) + 4 + MaxFrameLen"
    by (auto simp: WriteFrame_def Write_def split: option.splits)
  show "length s \<le> length (snd (ReadFrame unmarshal s)) + 4 + MaxFrameLen"
    by (auto simp: ReadFrame_def Let_def dest!: ReadFull_rest ReadFull_consumes split: prod.splits sum.splits option.splits)
  show "\<forall>n. fst (ReadFrame unmarshal s) = Inl (TooLargeToRead n) \<longrightarrow> length s = length (snd (ReadFrame unmarshal s)) + 4 \<and> MaxFrameLen < unat n"
    by (auto simp: ReadFrame_def ReadFull_def Let_def split: prod.splits sum.splits option.splits if_splits)
qed (simp add: prefix_no_wrap)

theorem frame_bounds_witness:
  "unat (Uint32 (PutUint32 (word_of_nat (length [7::nat, 9])))) = 2 \<and>
   fst (ReadFrame (Some :: byte list \<Rightarrow> _) [2, 0, 0, 0, 1]) = Inl (TooLargeToRead 0x02000000) \<and>
   length (snd (ReadFrame (Some :: byte list \<Rightarrow> _) [2, 0, 0, 0, 1])) = 1"
proof -
  have "fst (ReadFrame (Some :: byte list \<Rightarrow> _) [2, 0, 0, 0, 1]) = Inl (TooLargeToRead 0x02000000)"
    by (simp add: ReadFrame_def ReadFull_def MaxFrameLen_def)
  with frame_bounds [where marshal = "Some :: byte list \<Rightarrow> _" and v = "[]" and w = "\<lparr>wr_out = [], wr_room = 0\<rparr>"
      and unmarshal = "Some :: byte list \<Rightarrow> _" and s = "[2, 0, 0, 0, 1]"]
  show ?thesis by auto
qed

text \<open>
  When a reader reports a clean end. \<^verbatim>\<open>io.EOF\<close> is reported for an empty stream, but also for a frame that is
  cut off right after its prefix, although the comment of \<^verbatim>\<open>ReadFrame\<close> reserves it for a peer that closes
  between frames.
\<close>

theorem read_eof_iff:
  "fst (ReadFrame unmarshal s) = Inl EndOfFile \<longleftrightarrow>
    s = [] \<or> length s = 4 \<and> 0 < unat (Uint32 s) \<and> unat (Uint32 s) \<le> MaxFrameLen"
proof (cases "ReadFull 4 s")
  case (Pair x r)
  show ?thesis
  proof (cases x)
    case (Inl e)
    then show ?thesis using Pair ReadFull_EndOfFile [of 4 s] by (auto simp: ReadFrame_def ReadFull_def split: if_splits)
  next
    case (Inr hdr)
    then have s: "s = hdr @ r" "length hdr = 4" using ReadFull_split Pair by blast+
    have "fst (ReadFrame unmarshal s) = Inl EndOfFile \<longleftrightarrow> unat (Uint32 hdr) \<le> MaxFrameLen \<and> fst (ReadFull (unat (Uint32 hdr)) r) = Inl EndOfFile"
      using Pair Inr by (auto simp: ReadFrame_def Let_def split: prod.splits sum.splits option.splits)
    then show ?thesis using s by (auto simp: ReadFull_EndOfFile)
  qed
qed

text \<open>
  C31. What a subscriber sees. In every state the server can reach, whatever the interleaving of broadcasts,
  new and vanishing subscribers and writes, the wire of a streaming connection holds the snapshot followed
  by events published since it subscribed, in that order and without repetition; with its channel it
  refines the bounded lossy feed: events are lost only while 64 are queued, so none is lost
  while at most 64 were published.
\<close>

theorem stream_refines_feed:
  assumes "server_reachable marshal s" and "sv_conns s i = Some c" and "cn_phase c = Streaming"
    and "\<forall>v body. marshal v = Some body \<longrightarrow> unmarshal body = Some v"
  shows "\<exists>snap q d. cn_first c = Some snap \<and> channel (sv_hub s) i = Some q \<and>
    read_frames unmarshal (wr_out (cn_wire c)) = snap # d \<and> feed_reachable chan_buffer (cn_since c, q, d) \<and>
    subseq (d @ q) (cn_since c) \<and> (length (cn_since c) \<le> 64 \<longrightarrow> d @ q = cn_since c)"
proof -
  have "conn_ok marshal (channel (sv_hub s) i) c"
    using server_reachable_ok [OF assms(1)] assms(2) by (simp add: server_ok_def)
  then obtain q d snap where *: "feed_reachable chan_buffer (cn_since c, q, d)" "channel (sv_hub s) i = Some q"
      "cn_first c = Some snap" "list_all (sendable marshal) (snap # d)" "wr_out (cn_wire c) = frames marshal (snap # d)"
    using assms(3) by (auto simp: conn_ok_def)
  show ?thesis
    using * read_frames_frames [OF assms(4) *(4)] feed_ordered [OF *(1)]
    by (intro exI [of _ snap] exI [of _ q] exI [of _ d]) (simp add: chan_buffer_def)
qed

section \<open>A concrete stream\<close>

definition sample_stream :: "byte list server" where
  "sample_stream = (let s1 = stream_open 100 NewServer; s2 = stream_snapshot Some [1] 0 (the (sv_conns s1 0)) s1;
     s3 = server_broadcast [3] (server_broadcast [2] s2) in stream_event Some 0 (the (sv_conns s3 0)) s3)"

lemmas stream_evaluation = stream_open_def stream_snapshot_def stream_event_def server_broadcast_def NewServer_def NewHub_def
  subscribe_def Broadcast_def send_or_drop_def chan_buffer_def WriteFrame_def Write_def MaxFrameLen_def PutUint32_def

lemma sample_stream_reachable: "server_reachable Some sample_stream"
  unfolding sample_stream_def Let_def
  by (intro server_reachable.step [OF _ event] server_reachable.step [OF _ broadcast] server_reachable.step [OF _ snapshot]
      server_reachable.step [OF server_reachable.start opens]) (simp_all add: stream_evaluation)

lemma sample_stream_conn: "sv_conns sample_stream 0 =
    Some \<lparr>cn_phase = Streaming, cn_wire = \<lparr>wr_out = [0, 0, 0, 1, 1, 0, 0, 0, 1, 2], wr_room = 90\<rparr>, cn_first = Some [1], cn_since = [[2], [3]]\<rparr>"
    "channel (sv_hub sample_stream) 0 = Some [[3]]"
  by (simp_all add: sample_stream_def Let_def stream_evaluation)

theorem stream_refines_feed_witness:
  "read_frames Some [0, 0, 0, 1, 1, 0, 0, 0, 1, 2] = [[1], [2]] \<and> channel (sv_hub sample_stream) 0 = Some [[3]]"
  using stream_refines_feed [OF sample_stream_reachable sample_stream_conn(1), of Some]
  by (auto simp: sample_stream_conn(2) Cons_eq_append_conv)

end
