(* ===== verification/Daemon_Wire.thy ===== *)
theory Daemon_Wire
  imports Daemon_Handle Ipc_Stream
begin

text \<open>
  The wire of the control protocol (\<^verbatim>\<open>daemon-go/internal/api/protocol.go\<close>): how a request document decodes, the flat event union and the events the
  components put into it; and the daemon behind its socket, which takes whatever bytes a client sends.

  The text syntax of JSON is a parameter. A document decodes by the rules of \<^verbatim>\<open>encoding/json\<close>; a raw message keeps a present null.

  Main results: an event survives encoding and decoding, so no two kinds of event share a member with different meanings; no bytes on the socket
  make the daemon unsound.
\<close>

section \<open>Requests\<close>

definition zero_settings :: settings where
  "zero_settings = \<lparr>st_log_level = [], st_ip_version = [], st_dns = \<lparr>dn_servers = [], dn_strategy = [], dn_via_tunnel = False\<rparr>,
     st_lan_bypass = \<lparr>lb_enabled = False, lb_cidrs = []\<rparr>, st_restore_on_start = False, st_subscription_user_agent = [], st_socks_port = 0,
     st_tun = \<lparr>tn_mtu = 0, tn_stack = [], tn_strict_route = False\<rparr>, st_latency_probe = \<lparr>pr_url = [], pr_budget_secs = 0\<rparr>,
     st_auto_update = False, st_update_via_tunnel = False, st_update_via_direct = False\<rparr>"

definition dec_text :: "string \<Rightarrow> json obj \<Rightarrow> string option decoded" where
  "dec_text k = dec_field (dec_ptr dec_string) None k"

definition dec_flag :: "string \<Rightarrow> json obj \<Rightarrow> bool option decoded" where
  "dec_flag k = dec_field (dec_ptr dec_bool) None k"

definition dec_request :: "json \<Rightarrow> verb_request decoded" where
  "dec_request = dec_struct (\<lambda>ob.
     rbind (dec_field dec_string [] ''command'' ob) (\<lambda>command.
     rbind (dec_text ''profile'' ob) (\<lambda>profile.
     rbind (dec_text ''routing'' ob) (\<lambda>routing.
     rbind (dec_flag ''tun'' ob) (\<lambda>tun.
     rbind (dec_text ''node'' ob) (\<lambda>node.
     rbind (dec_text ''role'' ob) (\<lambda>role.
     rbind (dec_field (dec_ptr (dec_list dec_string)) None ''nodes'' ob) (\<lambda>nodes.
     rbind (dec_text ''url'' ob) (\<lambda>url.
     rbind (dec_text ''name'' ob) (\<lambda>name.
     rbind (dec_flag ''allow_invalid_certs'' ob) (\<lambda>certs.
     rbind (dec_text ''format'' ob) (\<lambda>fmt.
     rbind (dec_text ''sub'' ob) (\<lambda>sub.
     rbind (dec_flag ''enabled'' ob) (\<lambda>enabled.
     rbind (dec_field (dec_ptr (dec_uint 32)) None ''update_interval_sec'' ob) (\<lambda>interval.
     rbind (dec_text ''core_override'' ob) (\<lambda>core.
     rbind (dec_field (dec_ptr (UnmarshalSettings zero_settings)) None ''settings'' ob) (\<lambda>settings.
     rbind (dec_field dec_bool False ''force'' ob) (\<lambda>force.
     Inr \<lparr>vr_command = command, vr_profile = profile, vr_tun = tun, vr_role = role, vr_nodes = nodes, vr_settings = settings, vr_force = force,
          vr_node = node, vr_url = url, vr_name = name, vr_sub = sub, vr_routing = routing, vr_core_override = core,
          vr_allow_invalid_certs = certs, vr_enabled = enabled, vr_update_interval_sec = map_option of_nat interval, vr_format = fmt,
          vr_group = jfield ob ''group'', vr_routing_config = jfield ob ''routing_config''\<rparr>))))))))))))))))))"

section \<open>Events\<close>

record wire_event =
  we_event :: string
  we_entries :: "core_entry list"
  we_active :: "persisted_entry option"
  we_live :: "string option"
  we_live_id :: "string option"
  we_routing_warnings :: "string list"
  we_up :: "u64 option"
  we_down :: "u64 option"
  we_level :: string
  we_message :: string
  we_role :: "string option"
  we_stage :: string
  we_sub_id :: string
  we_added :: int
  we_removed :: int
  we_total :: int
  we_format :: string
  we_version :: string
  we_notes_url :: string
  we_kind :: string
  we_download_received :: int
  we_download_total :: int
  we_state :: string

definition zero_event :: "string \<Rightarrow> wire_event" where
  "zero_event tag = \<lparr>we_event = tag, we_entries = [], we_active = None, we_live = None, we_live_id = None, we_routing_warnings = [], we_up = None,
     we_down = None, we_level = [], we_message = [], we_role = None, we_stage = [], we_sub_id = [], we_added = 0, we_removed = 0, we_total = 0,
     we_format = [], we_version = [], we_notes_url = [], we_kind = [], we_download_received = 0, we_download_total = 0, we_state = []\<rparr>"

definition enc_core_entry :: "core_entry \<Rightarrow> json" where
  "enc_core_entry c = JObj [(''role'', JStr (ce_role c)), (''state'', JStr (ce_state c)), (''uptime_secs'', enc_nat (ce_uptime_secs c))]"

definition dec_core_entry :: "json \<Rightarrow> core_entry decoded" where
  "dec_core_entry = dec_struct (\<lambda>ob.
     rbind (dec_field dec_string [] ''role'' ob) (\<lambda>r.
     rbind (dec_field dec_string [] ''state'' ob) (\<lambda>s.
     rbind (dec_field (dec_uint 64) 0 ''uptime_secs'' ob) (\<lambda>n. Inr \<lparr>ce_role = r, ce_state = s, ce_uptime_secs = n\<rparr>))))"

text \<open>The members of the union; one with the zero value is absent.\<close>

definition nonzero :: "bool \<Rightarrow> json \<Rightarrow> json option" where
  "nonzero zero v = (if zero then None else Some v)"

definition members :: "(string \<times> json option) list \<Rightarrow> json obj" where
  "members kvs = List.map_filter (\<lambda>(k, v). map_option (Pair k) v) kvs"

definition event_members :: "wire_event \<Rightarrow> (string \<times> json option) list" where
  "event_members e = [
     (''event'', Some (JStr (we_event e))),
     (''entries'', nonzero (we_entries e = []) (JArr (map enc_core_entry (we_entries e)))),
     (''active'', map_option enc_persisted (we_active e)),
     (''active_node_live'', map_option JStr (we_live e)),
     (''active_node_live_id'', map_option JStr (we_live_id e)),
     (''routing_warnings'', nonzero (we_routing_warnings e = []) (enc_strings (we_routing_warnings e))),
     (''up'', map_option (\<lambda>n. JInt (uint n)) (we_up e)),
     (''down'', map_option (\<lambda>n. JInt (uint n)) (we_down e)),
     (''level'', nonzero (we_level e = []) (JStr (we_level e))),
     (''message'', nonzero (we_message e = []) (JStr (we_message e))),
     (''role'', map_option JStr (we_role e)),
     (''stage'', nonzero (we_stage e = []) (JStr (we_stage e))),
     (''sub_id'', nonzero (we_sub_id e = []) (JStr (we_sub_id e))),
     (''added'', nonzero (we_added e = 0) (JInt (we_added e))),
     (''removed'', nonzero (we_removed e = 0) (JInt (we_removed e))),
     (''total'', nonzero (we_total e = 0) (JInt (we_total e))),
     (''format'', nonzero (we_format e = []) (JStr (we_format e))),
     (''version'', nonzero (we_version e = []) (JStr (we_version e))),
     (''notes_url'', nonzero (we_notes_url e = []) (JStr (we_notes_url e))),
     (''kind'', nonzero (we_kind e = []) (JStr (we_kind e))),
     (''download_received'', nonzero (we_download_received e = 0) (JInt (we_download_received e))),
     (''download_total'', nonzero (we_download_total e = 0) (JInt (we_download_total e))),
     (''state'', nonzero (we_state e = []) (JStr (we_state e)))]"

definition enc_event :: "wire_event \<Rightarrow> json" where
  "enc_event e = JObj (members (event_members e))"

definition dec_u64 :: "json \<Rightarrow> u64 decoded" where
  "dec_u64 j = rbind (dec_uint 64 j) (\<lambda>n. Inr (of_nat n))"

definition dec_event :: "json \<Rightarrow> wire_event decoded" where
  "dec_event = dec_struct (\<lambda>ob.
     rbind (dec_field dec_string [] ''event'' ob) (\<lambda>x_event.
     rbind (dec_field (dec_list dec_core_entry) [] ''entries'' ob) (\<lambda>x_entries.
     rbind (dec_field (dec_ptr dec_persisted) None ''active'' ob) (\<lambda>x_active.
     rbind (dec_field (dec_ptr dec_string) None ''active_node_live'' ob) (\<lambda>x_live.
     rbind (dec_field (dec_ptr dec_string) None ''active_node_live_id'' ob) (\<lambda>x_live_id.
     rbind (dec_field (dec_list dec_string) [] ''routing_warnings'' ob) (\<lambda>x_routing_warnings.
     rbind (dec_field (dec_ptr dec_u64) None ''up'' ob) (\<lambda>x_up.
     rbind (dec_field (dec_ptr dec_u64) None ''down'' ob) (\<lambda>x_down.
     rbind (dec_field dec_string [] ''level'' ob) (\<lambda>x_level.
     rbind (dec_field dec_string [] ''message'' ob) (\<lambda>x_message.
     rbind (dec_field (dec_ptr dec_string) None ''role'' ob) (\<lambda>x_role.
     rbind (dec_field dec_string [] ''stage'' ob) (\<lambda>x_stage.
     rbind (dec_field dec_string [] ''sub_id'' ob) (\<lambda>x_sub_id.
     rbind (dec_field (dec_int 64) 0 ''added'' ob) (\<lambda>x_added.
     rbind (dec_field (dec_int 64) 0 ''removed'' ob) (\<lambda>x_removed.
     rbind (dec_field (dec_int 64) 0 ''total'' ob) (\<lambda>x_total.
     rbind (dec_field dec_string [] ''format'' ob) (\<lambda>x_format.
     rbind (dec_field dec_string [] ''version'' ob) (\<lambda>x_version.
     rbind (dec_field dec_string [] ''notes_url'' ob) (\<lambda>x_notes_url.
     rbind (dec_field dec_string [] ''kind'' ob) (\<lambda>x_kind.
     rbind (dec_field (dec_int 64) 0 ''download_received'' ob) (\<lambda>x_download_received.
     rbind (dec_field (dec_int 64) 0 ''download_total'' ob) (\<lambda>x_download_total.
     rbind (dec_field dec_string [] ''state'' ob) (\<lambda>x_state.
     Inr \<lparr>we_event = x_event, we_entries = x_entries, we_active = x_active, we_live = x_live, we_live_id = x_live_id,
          we_routing_warnings = x_routing_warnings, we_up = x_up, we_down = x_down, we_level = x_level, we_message = x_message,
          we_role = x_role, we_stage = x_stage, we_sub_id = x_sub_id, we_added = x_added, we_removed = x_removed,
          we_total = x_total, we_format = x_format, we_version = x_version, we_notes_url = x_notes_url, we_kind = x_kind,
          we_download_received = x_download_received, we_download_total = x_download_total, we_state = x_state\<rparr>))))))))))))))))))))))))"

text \<open>A member that decodes to the value it was encoded from.\<close>

lemma jfield_members:
  "distinct (map (ToLower \<circ> fst) kvs) \<Longrightarrow> (k, v) \<in> set kvs \<Longrightarrow> jfield (members kvs) k = v"
proof (induction kvs)
  case (Cons kv kvs)
  obtain k' v' where kv: "kv = (k', v')" by fastforce
  have other: "jfield (members l) k'' = None" if "ToLower k'' \<notin> set (map (ToLower \<circ> fst) l)" for l k''
    using that by (induction l) (auto simp: members_def List.map_filter_def jfield_Cons split: option.splits)
  have step: "members (kv # kvs) = (case v' of None \<Rightarrow> [] | Some x \<Rightarrow> [(k', x)]) @ members kvs"
    by (simp add: kv members_def split: option.splits)
  show ?case
  proof (cases "(k, v) \<in> set kvs")
    case True
    then have "ToLower k \<in> set (map (ToLower \<circ> fst) kvs)" by force
    moreover have "ToLower k' \<notin> set (map (ToLower \<circ> fst) kvs)" using Cons.prems(1) kv by simp
    ultimately have "ToLower k' \<noteq> ToLower k" by metis
    with True show ?thesis using Cons by (auto simp: step jfield_append jfield_Cons split: option.splits)
  next
    case False
    then have "k = k'" "v = v'" using Cons.prems(2) kv by auto
    moreover have "ToLower k' \<notin> set (map (ToLower \<circ> fst) kvs)" using Cons.prems(1) kv by simp
    ultimately show ?thesis using other [of k' kvs] by (auto simp: step jfield_append jfield_Cons split: option.splits)
  qed
qed simp

lemma event_keys: "distinct (map (ToLower \<circ> fst) (event_members e))"
proof -
  have "map (ToLower \<circ> fst) (event_members e) = map ToLower [''event'', ''entries'', ''active'', ''active_node_live'', ''active_node_live_id'', ''routing_warnings'', ''up'', ''down'', ''level'', ''message'', ''role'', ''stage'', ''sub_id'', ''added'', ''removed'', ''total'', ''format'', ''version'', ''notes_url'', ''kind'', ''download_received'', ''download_total'', ''state'']"
    by (simp add: event_members_def)
  moreover have "distinct \<dots>" by code_simp
  ultimately show ?thesis by metis
qed

lemma event_fields:
  "jfield (members (event_members e)) ''event'' = Some (JStr (we_event e))"
  "jfield (members (event_members e)) ''entries'' = nonzero (we_entries e = []) (JArr (map enc_core_entry (we_entries e)))"
  "jfield (members (event_members e)) ''active'' = map_option enc_persisted (we_active e)"
  "jfield (members (event_members e)) ''active_node_live'' = map_option JStr (we_live e)"
  "jfield (members (event_members e)) ''active_node_live_id'' = map_option JStr (we_live_id e)"
  "jfield (members (event_members e)) ''routing_warnings'' = nonzero (we_routing_warnings e = []) (enc_strings (we_routing_warnings e))"
  "jfield (members (event_members e)) ''up'' = map_option (\<lambda>n. JInt (uint n)) (we_up e)"
  "jfield (members (event_members e)) ''down'' = map_option (\<lambda>n. JInt (uint n)) (we_down e)"
  "jfield (members (event_members e)) ''level'' = nonzero (we_level e = []) (JStr (we_level e))"
  "jfield (members (event_members e)) ''message'' = nonzero (we_message e = []) (JStr (we_message e))"
  "jfield (members (event_members e)) ''role'' = map_option JStr (we_role e)"
  "jfield (members (event_members e)) ''stage'' = nonzero (we_stage e = []) (JStr (we_stage e))"
  "jfield (members (event_members e)) ''sub_id'' = nonzero (we_sub_id e = []) (JStr (we_sub_id e))"
  "jfield (members (event_members e)) ''added'' = nonzero (we_added e = 0) (JInt (we_added e))"
  "jfield (members (event_members e)) ''removed'' = nonzero (we_removed e = 0) (JInt (we_removed e))"
  "jfield (members (event_members e)) ''total'' = nonzero (we_total e = 0) (JInt (we_total e))"
  "jfield (members (event_members e)) ''format'' = nonzero (we_format e = []) (JStr (we_format e))"
  "jfield (members (event_members e)) ''version'' = nonzero (we_version e = []) (JStr (we_version e))"
  "jfield (members (event_members e)) ''notes_url'' = nonzero (we_notes_url e = []) (JStr (we_notes_url e))"
  "jfield (members (event_members e)) ''kind'' = nonzero (we_kind e = []) (JStr (we_kind e))"
  "jfield (members (event_members e)) ''download_received'' = nonzero (we_download_received e = 0) (JInt (we_download_received e))"
  "jfield (members (event_members e)) ''download_total'' = nonzero (we_download_total e = 0) (JInt (we_download_total e))"
  "jfield (members (event_members e)) ''state'' = nonzero (we_state e = []) (JStr (we_state e))"
  by (rule jfield_members [OF event_keys], simp add: event_members_def)+

definition event_ok :: "wire_event \<Rightarrow> bool" where
  "event_ok e = (list_all (\<lambda>c. ce_uptime_secs c < 2 ^ 64) (we_entries e) \<and>
     list_all (\<lambda>i. - (2 ^ 63) \<le> i \<and> i < 2 ^ 63) [we_added e, we_removed e, we_total e, we_download_received e, we_download_total e])"

lemma ToLower_entry_fields [simp]:
  "ToLower ''role'' = ''role''" "ToLower ''state'' = ''state''" "ToLower ''uptime_secs'' = ''uptime_secs''"
  by code_simp+

lemma dec_enc_core_entry: "ce_uptime_secs c < 2 ^ 64 \<Longrightarrow> dec_core_entry (enc_core_entry c) = Inr c"
  by (simp add: dec_core_entry_def enc_core_entry_def codec_simps)

lemma dec_member:
  "jfield ob k = Some (JStr s) \<Longrightarrow> dec_field dec_string [] k ob = Inr s"
  "jfield ob k = nonzero (s = []) (JStr s) \<Longrightarrow> dec_field dec_string [] k ob = Inr s"
  "jfield ob k = map_option JStr x \<Longrightarrow> dec_field (dec_ptr dec_string) None k ob = Inr x"
  "jfield ob k = map_option enc_persisted p \<Longrightarrow> dec_field (dec_ptr dec_persisted) None k ob = Inr p"
  "jfield ob k = nonzero (ss = []) (enc_strings ss) \<Longrightarrow> dec_field (dec_list dec_string) [] k ob = Inr ss"
  "jfield ob k = map_option (\<lambda>n. JInt (uint n)) w \<Longrightarrow> dec_field (dec_ptr dec_u64) None k ob = Inr w"
  "jfield ob k = nonzero (i = 0) (JInt i) \<Longrightarrow> - (2 ^ 63) \<le> i \<Longrightarrow> i < 2 ^ 63 \<Longrightarrow> dec_field (dec_int 64) 0 k ob = Inr i"
  "jfield ob k = nonzero (es = []) (JArr (map enc_core_entry es)) \<Longrightarrow> list_all (\<lambda>c. ce_uptime_secs c < 2 ^ 64) es \<Longrightarrow>
     dec_field (dec_list dec_core_entry) [] k ob = Inr es"
proof -
  have ptr: "dec_ptr dec_persisted (enc_persisted a) = Inr (Some a)" for a
  proof -
    obtain ob where "enc_persisted a = JObj ob" by (simp add: enc_persisted_def)
    with dec_enc_persisted [of a] show ?thesis by simp
  qed
  have word: "dec_u64 (JInt (uint n)) = Inr n" for n :: u64
    using uint_bounded [of n] by (simp add: dec_u64_def)
  show "jfield ob k = map_option enc_persisted p \<Longrightarrow> dec_field (dec_ptr dec_persisted) None k ob = Inr p"
    by (cases p) (simp_all add: dec_field_def ptr)
  show "jfield ob k = map_option (\<lambda>n. JInt (uint n)) w \<Longrightarrow> dec_field (dec_ptr dec_u64) None k ob = Inr w"
    by (cases w) (simp_all add: dec_field_def word)
  show "jfield ob k = nonzero (es = []) (JArr (map enc_core_entry es)) \<Longrightarrow> list_all (\<lambda>c. ce_uptime_secs c < 2 ^ 64) es \<Longrightarrow>
     dec_field (dec_list dec_core_entry) [] k ob = Inr es"
    by (simp add: dec_field_def nonzero_def) (use traverse_map_Inr [of es dec_core_entry enc_core_entry] dec_enc_core_entry in \<open>auto simp: list_all_iff\<close>)
qed (auto simp: dec_field_def nonzero_def dec_int.simps split: option.splits)

lemmas event_decoding =
  dec_member(1) [OF event_fields(1)] dec_member(8) [OF event_fields(2)] dec_member(4) [OF event_fields(3)]
  dec_member(3) [OF event_fields(4)] dec_member(3) [OF event_fields(5)] dec_member(5) [OF event_fields(6)]
  dec_member(6) [OF event_fields(7)] dec_member(6) [OF event_fields(8)] dec_member(2) [OF event_fields(9)]
  dec_member(2) [OF event_fields(10)] dec_member(3) [OF event_fields(11)] dec_member(2) [OF event_fields(12)]
  dec_member(2) [OF event_fields(13)] dec_member(7) [OF event_fields(14)] dec_member(7) [OF event_fields(15)]
  dec_member(7) [OF event_fields(16)] dec_member(2) [OF event_fields(17)] dec_member(2) [OF event_fields(18)]
  dec_member(2) [OF event_fields(19)] dec_member(2) [OF event_fields(20)] dec_member(7) [OF event_fields(21)]
  dec_member(7) [OF event_fields(22)] dec_member(2) [OF event_fields(23)]

lemma event_roundtrip: "event_ok e \<Longrightarrow> dec_event (enc_event e) = Inr e"
  by (simp add: dec_event_def enc_event_def event_ok_def event_decoding)

section \<open>The events of the components\<close>

text \<open>\<open>warn\<close> is the text of a routing warning.\<close>

definition wire_of_state :: "(routing_warning \<Rightarrow> string) \<Rightarrow> state_event \<Rightarrow> wire_event" where
  "wire_of_state warn ev = (zero_event ''state'')\<lparr>we_entries := ev_entries ev, we_active := ev_active ev, we_live := fst (ev_live ev),
     we_live_id := snd (ev_live ev), we_routing_warnings := map warn (ev_routing_warnings ev)\<rparr>"

definition wire_of_sub :: "sub_event \<Rightarrow> wire_event" where
  "wire_of_sub ev = (zero_event ''subscription_updated'')\<lparr>we_sub_id := su_sub_id ev, we_added := int (su_added ev), we_removed := int (su_removed ev),
     we_total := int (su_total ev), we_format := su_format ev\<rparr>"

fun wire_of_update :: "update_event \<Rightarrow> wire_event" where
  "wire_of_update (UpdateAvailable version notes kind) =
    (zero_event ''update_available'')\<lparr>we_version := version, we_notes_url := notes, we_kind := kind\<rparr>"
| "wire_of_update (UpdateProgress received total_bytes state) =
    (zero_event ''update_progress'')\<lparr>we_download_received := received, we_download_total := total_bytes, we_state := state\<rparr>"

definition wire_of_traffic :: "u64 \<times> u64 \<Rightarrow> wire_event" where
  "wire_of_traffic d = (zero_event ''traffic'')\<lparr>we_up := Some (fst d), we_down := Some (snd d)\<rparr>"

text \<open>\<^verbatim>\<open>logSink\<close>: a line of the core's log.\<close>

definition logSink :: "string \<Rightarrow> string \<Rightarrow> wire_event" where
  "logSink level message = (zero_event ''log'')\<lparr>we_level := level, we_message := message\<rparr>"

text \<open>What a client reads back is the event that was sent: the union loses nothing, zero counters and an idle state included.\<close>

lemma traffic_event_read: "dec_event (enc_event (wire_of_traffic d)) = Inr (wire_of_traffic d)"
  by (rule event_roundtrip) (simp add: event_ok_def wire_of_traffic_def zero_event_def)

lemma log_event_read: "dec_event (enc_event (logSink level message)) = Inr (logSink level message)"
  by (rule event_roundtrip) (simp add: event_ok_def logSink_def zero_event_def)

lemma sub_event_read:
  assumes "su_added ev < 2 ^ 63" and "su_removed ev < 2 ^ 63" and "su_total ev < 2 ^ 63"
  shows "dec_event (enc_event (wire_of_sub ev)) = Inr (wire_of_sub ev)"
  by (rule event_roundtrip) (use assms in \<open>simp add: event_ok_def wire_of_sub_def zero_event_def\<close>)

lemma wire_of_sub_inj: "wire_of_sub a = wire_of_sub b \<Longrightarrow> a = b"
  by (simp add: wire_of_sub_def zero_event_def)

lemma wire_of_update_inj: "wire_of_update a = wire_of_update b \<Longrightarrow> a = b"
  by (cases a; cases b) (simp_all add: zero_event_def)

section \<open>The daemon behind its socket\<close>

definition unmarshal_request :: "(byte list \<Rightarrow> json option) \<Rightarrow> byte list \<Rightarrow> verb_request option" where
  "unmarshal_request parse body = (case parse body of
     None \<Rightarrow> None | Some j \<Rightarrow> (case dec_request j of Inl e \<Rightarrow> None | Inr req \<Rightarrow> Some req))"

definition serve_conn :: "(byte list \<Rightarrow> json option) \<Rightarrow> (reply \<Rightarrow> byte list option) \<Rightarrow> handle_env \<Rightarrow> byte list \<Rightarrow> writer \<Rightarrow> served \<Rightarrow> served \<times> request_outcome" where
  "serve_conn parse marshal he = handleConn (unmarshal_request parse) marshal (\<lambda>req. vr_command req = ''subscribe'') (Handle he)"

text \<open>Connections one after another, with any bytes.\<close>

inductive exposed_reachable :: "verb_env \<Rightarrow> served \<Rightarrow> bool" for ve where
  boot: "stored_good ve (newManager fs settings) \<Longrightarrow> exposed_reachable ve (boot_served (ve_dv ve) oc fs settings u)"
| connection: "exposed_reachable ve w \<Longrightarrow> env_ok (he_verbs he) \<Longrightarrow> ve_dv (he_verbs he) = ve_dv ve \<Longrightarrow> ve_fmt_time (he_verbs he) = ve_fmt_time ve \<Longrightarrow>
    exposed_reachable ve (fst (serve_conn parse marshal he input wr w))"

lemma serve_conn_state:
  "fst (serve_conn parse marshal he input wr w) = w \<or>
   (\<exists>req. fst (ReadFrame (unmarshal_request parse) input) = Inr req \<and> fst (serve_conn parse marshal he input wr w) = fst (Handle he req w))"
  by (simp add: serve_conn_def handleConn_def split: sum.splits prod.splits)

lemma exposed_served: "exposed_reachable ve w \<Longrightarrow> served_reachable ve w"
proof (induction rule: exposed_reachable.induct)
  case (connection w he parse marshal input wr)
  have "served_reachable ve (fst (Handle he req w))" if "fst (ReadFrame (unmarshal_request parse) input) = Inr req" for req
    by (rule served_reachable.request [OF connection.IH connection.hyps(2,3,4)])
  then show ?case using serve_conn_state [of parse marshal he input wr w] connection.IH by auto
qed (rule served_reachable.boot)

section \<open>Properties\<close>

text \<open>
  C4. No bytes make the daemon unsound. From any well-formed store on, through the restore of the last session and any sequence of connections
  that send anything at all, framed or not, decodable or not, with any answers of the disk, the network and the cores, the state of the session is one its step
  relation reaches, a running session has a complete context on a valid plan, and every stored profile that loads is well formed.
\<close>

theorem any_bytes_keep_sound:
  assumes "exposed_reachable ve w"
  shows "(\<exists>P. session_reachable (ve_dv ve) (wd_manager w, P)) \<and> session_inv (wd_manager w) \<and> stored_good ve (wd_manager w)"
  using requests_keep_sound [OF exposed_served [OF assms]] .

definition create_text :: "byte list \<Rightarrow> json option" where
  "create_text body = (if body = [99] then Some (JObj [(''command'', JStr ''create_profile''), (''profile'', JStr ''main'')]) else None)"

lemma create_decodes: "dec_request (JObj [(''command'', JStr ''create_profile''), (''profile'', JStr ''main'')]) = Inr sample_create"
proof -
  let ?ob = "[(''command'', JStr ''create_profile''), (''profile'', JStr ''main'')]"
  have absent: "list_all (\<lambda>k. jfield ?ob k = None) [''routing'', ''tun'', ''node'', ''role'', ''nodes'', ''url'', ''name'', ''allow_invalid_certs'', ''format'', ''sub'', ''enabled'', ''update_interval_sec'', ''core_override'', ''settings'', ''force'', ''group'', ''routing_config'']"
    by code_simp
  moreover have "jfield ?ob ''command'' = Some (JStr ''create_profile'')" "jfield ?ob ''profile'' = Some (JStr ''main'')" by code_simp+
  ultimately show ?thesis by (simp add: dec_request_def dec_text_def dec_flag_def dec_field_def sample_create_def)
qed

theorem any_bytes_keep_sound_witness:
  "\<forall>he u marshal wr. fst (serve_conn create_text marshal (first_env he) [0, 0, 0, 1, 99] wr (empty_served u)) =
       fst (Handle (first_env he) sample_create (empty_served u)) \<and>
     session_inv sample_created \<and> stored_good sample_verbs sample_created"
proof (intro allI)
  fix he u marshal wr
  have read: "fst (ReadFrame (unmarshal_request create_text) [0, 0, 0, 1, 99]) = Inr sample_create"
    using create_decodes by (simp add: ReadFrame_def ReadFull_def unmarshal_request_def create_text_def MaxFrameLen_def Let_def)
  have "exposed_reachable sample_verbs (empty_served u)"
    unfolding empty_served_def by (rule exposed_reachable.boot [OF empty_stored_good])
  then have "exposed_reachable sample_verbs (fst (serve_conn create_text marshal (first_env he) [0, 0, 0, 1, 99] wr (empty_served u)))"
    by (rule exposed_reachable.connection) (simp_all add: first_env_def sample_env_ok)
  moreover have "fst (serve_conn create_text marshal (first_env he) [0, 0, 0, 1, 99] wr (empty_served u)) =
      fst (Handle (first_env he) sample_create (empty_served u))"
    using read by (simp add: serve_conn_def handleConn_def sample_create_def split: prod.splits)
  ultimately show "fst (serve_conn create_text marshal (first_env he) [0, 0, 0, 1, 99] wr (empty_served u)) =
       fst (Handle (first_env he) sample_create (empty_served u)) \<and> session_inv sample_created \<and> stored_good sample_verbs sample_created"
    using any_bytes_keep_sound [of sample_verbs] by (metis first_created)
qed

end
