(* ===== verification/Daemon_Reply.thy ===== *)
theory Daemon_Reply
  imports Daemon_Wire
begin

text \<open>
  The reply of a request as it leaves the daemon (\<^verbatim>\<open>Response\<close> and the rows it carries, \<^verbatim>\<open>daemon-go/internal/api/protocol.go\<close>): a flat union tagged
  by its status, in which a member with the zero value is absent. The wording of errors, warnings and diagnoses is a parameter.

  Main results: every verb answers with the status the protocol gives it, or with an error; a client that sends back the settings it read changes
  nothing.
\<close>

section \<open>The rows\<close>

text \<open>The wording of what the components report as values.\<close>

record reply_texts =
  tx_failure :: "failure \<Rightarrow> string"
  tx_verb :: "verb_error \<Rightarrow> string"
  tx_doctor_fault :: "doctor_fault \<Rightarrow> string"
  tx_update :: "update_fault \<Rightarrow> string"
  tx_warning :: "routing_warning \<Rightarrow> string"
  tx_check :: "doctor_text \<Rightarrow> string"
  tx_remedy :: "remedy_text \<Rightarrow> string"
  tx_probe :: "probe_error \<Rightarrow> string"

definition text_unless_empty :: "string \<Rightarrow> json option" where
  "text_unless_empty s = nonzero (s = []) (JStr s)"

definition flag_when_set :: "bool \<Rightarrow> json option" where
  "flag_when_set b = nonzero (\<not> b) (JBool True)"

definition nat_unless_zero :: "nat \<Rightarrow> json option" where
  "nat_unless_zero n = nonzero (n = 0) (enc_nat n)"

definition list_unless_empty :: "('a \<Rightarrow> json) \<Rightarrow> 'a list \<Rightarrow> json option" where
  "list_unless_empty enc xs = nonzero (xs = []) (JArr (map enc xs))"

definition enc_condition_spec :: "api_condition_spec \<Rightarrow> json" where
  "enc_condition_spec c = JObj [(''key'', JStr (acs_key c)), (''kind'', JStr (acs_kind c)), (''hint'', JStr (acs_hint c)), (''supported'', JBool (acs_supported c))]"

definition enc_routing_schema :: "routing_schema \<Rightarrow> json" where
  "enc_routing_schema s = JObj [(''conditions'', JArr (map enc_condition_spec (sch_conditions s))), (''targets'', enc_strings (sch_targets s)),
     (''rule_set_formats'', enc_strings (sch_rule_set_formats s))]"

definition enc_routing_info :: "routing_info \<Rightarrow> json" where
  "enc_routing_info r = JObj [(''id'', JStr (gi_id r)), (''name'', JStr (gi_name r)), (''rules'', enc_nat (gi_rules r)),
     (''rule_sets'', enc_nat (gi_rule_sets r)), (''active'', JBool (gi_active r))]"

definition enc_stage_info :: "reply_texts \<Rightarrow> stage_result \<Rightarrow> json" where
  "enc_stage_info tx s = JObj (members [(''stage'', Some (JStr (sx_stage s))), (''ok'', Some (JBool (sx_ok s))),
     (''duration_ms'', Some (JInt (sx_duration_ms s))), (''error'', text_unless_empty (case sx_err s of None \<Rightarrow> [] | Some e \<Rightarrow> tx_probe tx e))])"

text \<open>The stages are appended to a nil slice, so a diagnosis without stages has a null.\<close>

definition enc_diagnosis :: "reply_texts \<Rightarrow> string \<times> diagnosis \<Rightarrow> json" where
  "enc_diagnosis tx d = JObj (members [(''node'', Some (JStr (fst d))), (''ok'', Some (JBool (dg_ok (snd d)))),
     (''failed_stage'', text_unless_empty (dg_failed_stage (snd d))),
     (''stages'', Some (if dg_stages (snd d) = [] then JNull else JArr (map (enc_stage_info tx) (dg_stages (snd d)))))])"

definition enc_route_bytes :: "routeBytes \<Rightarrow> json" where
  "enc_route_bytes b = JObj [(''up'', JInt (uint (rb_up b))), (''down'', JInt (uint (rb_down b)))]"

text \<open>A map is written in the order of its keys.\<close>

definition enc_app_traffic :: "app_bytes_snapshot \<Rightarrow> json" where
  "enc_app_traffic a = JObj (members [(''path'', Some (JStr (ab_path a))), (''up'', Some (JInt (uint (ab_up a)))), (''down'', Some (JInt (uint (ab_down a)))),
     (''by_route'', nonzero (ab_by_route a = []) (JObj (map (map_prod id enc_route_bytes) (sort_key fst (ab_by_route a)))))])"

definition enc_remedy :: "reply_texts \<Rightarrow> remedy \<Rightarrow> json" where
  "enc_remedy tx r = JObj (members [(''summary'', Some (JStr (tx_remedy tx (rm_summary r)))), (''dns_strategy'', text_unless_empty (rm_dns_strategy r)),
     (''dns_servers'', list_unless_empty enc_dns_server (rm_dns_servers r)), (''dns_via_tunnel'', map_option JBool (rm_dns_via_tunnel r))])"

definition enc_doctor_check :: "reply_texts \<Rightarrow> doctor_text doctor_check \<Rightarrow> json" where
  "enc_doctor_check tx c = JObj (members [(''id'', Some (JStr (dc_id c))), (''title'', Some (JStr (dc_title c))), (''status'', Some (JStr (dc_status c))),
     (''summary'', Some (JStr (tx_check tx (dc_summary c)))), (''details'', list_unless_empty (\<lambda>t. JStr (tx_check tx t)) (dc_details c)),
     (''remedy'', map_option (enc_remedy tx) (dc_remedy c))])"

definition enc_node_info :: "node_info \<Rightarrow> json" where
  "enc_node_info n = JObj (members [(''id'', Some (JStr (ni_id n))), (''name'', Some (JStr (ni_name n))), (''sub_id'', map_option JStr (ni_sub_id n)),
     (''core_override'', map_option JStr (ni_core_override n)), (''protocol'', Some (JStr (ni_protocol n))), (''transport'', Some (JStr (ni_transport n))),
     (''security'', Some (JStr (ni_security n))), (''port'', nonzero (ni_port n = 0) (JInt (uint (ni_port n)))), (''active'', Some (JBool (ni_active n))),
     (''eligible_cores'', Some (enc_strings (ni_eligible_cores n))), (''kind'', text_unless_empty (ni_kind n)),
     (''members'', list_unless_empty JStr (ni_members n))])"

definition enc_subscription_info :: "subscription_info \<Rightarrow> json" where
  "enc_subscription_info s = JObj (members [(''id'', Some (JStr (sn_id s))), (''name'', Some (JStr (sn_name s))), (''url'', Some (JStr (sn_url s))),
     (''enabled'', Some (JBool (sn_enabled s))), (''allow_invalid_certs'', Some (JBool (sn_allow_invalid_certs s))),
     (''last_updated'', Some (JStr (sn_last_updated s))), (''node_count'', Some (enc_nat (sn_node_count s))), (''format'', Some (JStr (sn_format s))),
     (''update_interval_sec'', Some (JInt (uint (sn_update_interval_sec s)))), (''last_error'', text_unless_empty (sn_last_error s))])"

definition enc_refresh_info :: "refresh_info \<Rightarrow> json" where
  "enc_refresh_info r = JObj (members [(''name'', Some (JStr (ri_name r))), (''count'', Some (enc_nat (ri_count r))), (''added'', Some (enc_nat (ri_added r))),
     (''removed'', Some (enc_nat (ri_removed r))), (''skipped'', flag_when_set (ri_skipped r)), (''error'', text_unless_empty (ri_error r)),
     (''format'', text_unless_empty (ri_format r)), (''entries'', nat_unless_zero (ri_entries r)), (''duplicates'', nat_unless_zero (ri_duplicates r)),
     (''unrecognized'', nat_unless_zero (ri_unrecognized r))])"

text \<open>Of the signed artifact a client sees everything but the locations.\<close>

definition enc_update_artifact :: "artifact \<Rightarrow> json" where
  "enc_update_artifact a = JObj [(''os'', JStr (af_os a)), (''arch'', JStr (af_arch a)), (''kind'', JStr (af_kind a)), (''name'', JStr (af_name a)),
     (''size'', JInt (af_size a)), (''sha256'', JStr (af_sha256 a))]"

definition enc_update_status :: "update_status \<Rightarrow> json" where
  "enc_update_status s = JObj (members [(''checked_at'', text_unless_empty (us_checked_at s)), (''current_version'', Some (JStr (us_current_version s))),
     (''available'', Some (JBool (us_available s))), (''stale'', flag_when_set (us_stale s)), (''latest_version'', text_unless_empty (us_latest_version s)),
     (''notes_url'', text_unless_empty (us_notes_url s)), (''artifact'', map_option enc_update_artifact (us_artifact s)),
     (''download_state'', text_unless_empty (us_download_state s)), (''download_received'', nonzero (us_download_received s = 0) (JInt (us_download_received s))),
     (''download_total'', nonzero (us_download_total s = 0) (JInt (us_download_total s))), (''setup_path'', text_unless_empty (us_setup_path s)),
     (''transport'', text_unless_empty (us_transport s))])"

definition enc_latency :: "string \<times> u16 option \<Rightarrow> json" where
  "enc_latency r = JObj [(''node'', JStr (fst r)), (''latency_ms'', enc_ptr (\<lambda>n. JInt (uint n)) (snd r))]"

section \<open>The union\<close>

record wire_response =
  wr_status :: string
  wr_message :: string
  wr_role :: "string option"
  wr_entries :: "core_entry list"
  wr_active :: "persisted_entry option"
  wr_live :: "string option"
  wr_live_id :: "string option"
  wr_routing_warnings :: "string list"
  wr_daemon_version :: string
  wr_node :: string
  wr_latencies :: "(string \<times> u16 option) list"
  wr_profiles :: "string list"
  wr_active_profile :: "string option"
  wr_nodes :: "node_info list"
  wr_subscriptions :: "subscription_info list"
  wr_refreshed :: "refresh_info list"
  wr_routing :: "routing_info list"
  wr_routing_config :: "json option"
  wr_group_config :: "json option"
  wr_node_config :: "json option"
  wr_routing_schema :: "routing_schema option"
  wr_diagnosis :: "(string \<times> diagnosis) option"
  wr_apps :: "app_bytes_snapshot list"
  wr_checks :: "doctor_text doctor_check list"
  wr_settings :: "settings option"
  wr_needs_reactivation :: bool
  wr_update_status :: "update_status option"

definition zero_response :: "string \<Rightarrow> wire_response" where
  "zero_response tag = \<lparr>wr_status = tag, wr_message = [], wr_role = None, wr_entries = [], wr_active = None, wr_live = None, wr_live_id = None,
     wr_routing_warnings = [], wr_daemon_version = [], wr_node = [], wr_latencies = [], wr_profiles = [], wr_active_profile = None, wr_nodes = [],
     wr_subscriptions = [], wr_refreshed = [], wr_routing = [], wr_routing_config = None, wr_group_config = None, wr_node_config = None,
     wr_routing_schema = None, wr_diagnosis = None, wr_apps = [], wr_checks = [], wr_settings = None, wr_needs_reactivation = False,
     wr_update_status = None\<rparr>"

definition response_members :: "reply_texts \<Rightarrow> wire_response \<Rightarrow> (string \<times> json option) list" where
  "response_members tx r = [
     (''status'', Some (JStr (wr_status r))),
     (''message'', text_unless_empty (wr_message r)),
     (''role'', map_option JStr (wr_role r)),
     (''entries'', list_unless_empty enc_core_entry (wr_entries r)),
     (''active'', map_option enc_persisted (wr_active r)),
     (''active_node_live'', map_option JStr (wr_live r)),
     (''active_node_live_id'', map_option JStr (wr_live_id r)),
     (''routing_warnings'', list_unless_empty JStr (wr_routing_warnings r)),
     (''daemon_version'', text_unless_empty (wr_daemon_version r)),
     (''node'', text_unless_empty (wr_node r)),
     (''latencies'', list_unless_empty enc_latency (wr_latencies r)),
     (''profiles'', list_unless_empty JStr (wr_profiles r)),
     (''active_profile'', map_option JStr (wr_active_profile r)),
     (''nodes'', list_unless_empty enc_node_info (wr_nodes r)),
     (''subscriptions'', list_unless_empty enc_subscription_info (wr_subscriptions r)),
     (''refreshed'', list_unless_empty enc_refresh_info (wr_refreshed r)),
     (''routing'', list_unless_empty enc_routing_info (wr_routing r)),
     (''routing_config'', wr_routing_config r),
     (''group_config'', wr_group_config r),
     (''node_config'', wr_node_config r),
     (''routing_schema'', map_option enc_routing_schema (wr_routing_schema r)),
     (''diagnosis'', map_option (enc_diagnosis tx) (wr_diagnosis r)),
     (''apps'', list_unless_empty enc_app_traffic (wr_apps r)),
     (''checks'', list_unless_empty (enc_doctor_check tx) (wr_checks r)),
     (''settings'', map_option MarshalSettings (wr_settings r)),
     (''needs_reactivation'', flag_when_set (wr_needs_reactivation r)),
     (''update_status'', map_option enc_update_status (wr_update_status r))]"

definition enc_response :: "reply_texts \<Rightarrow> wire_response \<Rightarrow> json" where
  "enc_response tx r = JObj (members (response_members tx r))"

section \<open>From a reply to the union\<close>

definition errResp :: "string \<Rightarrow> wire_response" where
  "errResp msg = (zero_response ''error'')\<lparr>wr_message := msg\<rparr>"

text \<open>\<open>None\<close>: the handler does not return (a nil dereference, or a probe whose peer never ends). \<open>status\<close> and \<open>stop\<close> share the idle reply and differ
  in what they add.\<close>

fun session_response :: "reply_texts \<Rightarrow> string \<Rightarrow> string \<Rightarrow> response \<Rightarrow> wire_response option" where
  "session_response tx version command (RError f) = (if f = NilDereference then None else Some (errResp (tx_failure tx f)))"
| "session_response tx version command (Activated es) = Some ((zero_response ''activated'')\<lparr>wr_entries := es\<rparr>)"
| "session_response tx version command Idle = Some (if command = ''status'' then (zero_response ''idle'')\<lparr>wr_daemon_version := version\<rparr>
     else (zero_response ''idle'')\<lparr>wr_message := ''nothing is running''\<rparr>)"
| "session_response tx version command Stopped = Some (zero_response ''stopped'')"
| "session_response tx version command (Switched name) = Some ((zero_response ''switched'')\<lparr>wr_node := name\<rparr>)"
| "session_response tx version command (Running si) = Some ((zero_response ''running'')\<lparr>wr_daemon_version := version, wr_entries := si_entries si,
     wr_active := si_active si, wr_routing_warnings := map (tx_warning tx) (si_routing_warnings si), wr_live := fst (si_live si), wr_live_id := snd (si_live si)\<rparr>)"
| "session_response tx version command (SettingsReply s needs) = Some ((zero_response ''settings'')\<lparr>wr_settings := Some s, wr_needs_reactivation := needs\<rparr>)"

fun store_response :: "store_reply \<Rightarrow> wire_response" where
  "store_response (ProfilesReply names active) = (zero_response ''profiles'')\<lparr>wr_profiles := names, wr_active_profile := active\<rparr>"
| "store_response (OkReply node msg) = (zero_response ''ok'')\<lparr>wr_node := node, wr_message := msg\<rparr>"
| "store_response (NodesReply ns) = (zero_response ''nodes'')\<lparr>wr_nodes := ns\<rparr>"
| "store_response (GroupConfigReply j) = (zero_response ''group_config'')\<lparr>wr_group_config := Some j\<rparr>"
| "store_response (NodeConfigReply j) = (zero_response ''node_config'')\<lparr>wr_node_config := Some j\<rparr>"
| "store_response (SubscriptionsReply ss) = (zero_response ''subscriptions'')\<lparr>wr_subscriptions := ss\<rparr>"
| "store_response (RefreshedReply msg rs) = (zero_response ''refreshed'')\<lparr>wr_message := msg, wr_refreshed := rs\<rparr>"
| "store_response (RoutingReply rs) = (zero_response ''routing'')\<lparr>wr_routing := rs\<rparr>"
| "store_response (RoutingConfigReply j) = (zero_response ''routing_config'')\<lparr>wr_routing_config := Some j\<rparr>"

fun wire_reply :: "reply_texts \<Rightarrow> string \<Rightarrow> string \<Rightarrow> reply \<Rightarrow> wire_response option" where
  "wire_reply tx version command (Unimplemented verb) = Some (errResp (''unimplemented verb: '' @ verb))"
| "wire_reply tx version command (SessionReply r) = session_response tx version command r"
| "wire_reply tx version command (StoreReply (Inl e)) = (if e = Panics then None else Some (errResp (tx_verb tx e)))"
| "wire_reply tx version command (StoreReply (Inr r)) = Some (store_response r)"
| "wire_reply tx version command (LatenciesReply (Inl f)) = Some (errResp (tx_doctor_fault tx f))"
| "wire_reply tx version command (LatenciesReply (Inr ls)) = Some ((zero_response ''latencies'')\<lparr>wr_latencies := ls\<rparr>)"
| "wire_reply tx version command (DiagnosisReply (Inl f)) = Some (errResp (tx_doctor_fault tx f))"
| "wire_reply tx version command (DiagnosisReply (Inr d)) = Some ((zero_response ''diagnosis'')\<lparr>wr_diagnosis := Some d\<rparr>)"
| "wire_reply tx version command (AppTrafficReply apps) = Some ((zero_response ''app_traffic'')\<lparr>wr_apps := apps\<rparr>)"
| "wire_reply tx version command (DoctorReply (Inl f)) = Some (errResp (tx_doctor_fault tx f))"
| "wire_reply tx version command (DoctorReply (Inr rows)) = map_option (\<lambda>cs. (zero_response ''doctor_report'')\<lparr>wr_checks := cs\<rparr>) rows"
| "wire_reply tx version command (RoutingSchemaReply s) = Some ((zero_response ''routing_schema'')\<lparr>wr_routing_schema := Some s\<rparr>)"
| "wire_reply tx version command (UpdateReply (Inl f)) = Some (errResp (tx_update tx f))"
| "wire_reply tx version command (UpdateReply (Inr s)) = Some ((zero_response ''update_status'')\<lparr>wr_update_status := Some s\<rparr>)"

section \<open>Which status answers which verb\<close>

definition verb_statuses :: "(string \<times> string list) list" where
  "verb_statuses =
    [(''status'', [''running'', ''idle'']), (''activate'', [''activated'']), (''stop'', [''stopped'', ''idle'']), (''switch_node'', [''switched'']),
     (''test_latency'', [''latencies'']), (''diagnose'', [''diagnosis'']), (''traffic_apps'', [''app_traffic'']), (''doctor'', [''doctor_report'']),
     (''doctor_nodes'', [''doctor_report'']), (''network_report'', [''doctor_report'']), (''forwarding_check'', [''doctor_report'']),
     (''routing_schema'', [''routing_schema'']), (''get_settings'', [''settings'']), (''set_settings'', [''settings'']),
     (''list_profiles'', [''profiles'']), (''create_profile'', [''ok'']), (''delete_profile'', [''ok'']), (''set_active_profile'', [''ok'']),
     (''list_nodes'', [''nodes'']), (''select_node'', [''ok'']), (''add_node'', [''ok'']), (''remove_node'', [''ok'']), (''set_node_prefs'', [''ok'']),
     (''upsert_group'', [''ok'']), (''get_group'', [''group_config'']), (''get_node'', [''node_config'']), (''list_subscriptions'', [''subscriptions'']),
     (''add_subscription'', [''refreshed'']), (''refresh_subscriptions'', [''refreshed'']), (''remove_subscription'', [''ok'']),
     (''update_subscription'', [''ok'']), (''list_routing'', [''routing'']), (''select_routing'', [''ok'']), (''get_routing'', [''routing_config'']),
     (''upsert_routing'', [''ok'']), (''remove_routing'', [''ok'']), (''check_update'', [''update_status'']), (''download_update'', [''update_status'']),
     (''apply_update'', [''update_status''])]"

definition statuses :: "string \<Rightarrow> string list" where
  "statuses command = (case map_of verb_statuses command of None \<Rightarrow> [] | Some tags \<Rightarrow> tags)"

lemma errResp_status [simp]: "wr_status (errResp msg) = ''error''"
  by (simp add: errResp_def zero_response_def)

lemma zero_response_status [simp]: "wr_status (zero_response tag) = tag"
  by (simp add: zero_response_def)

text \<open>What a transaction on a profile replies is what its edit replies.\<close>

lemma withProfile_reply:
  assumes "withProfile ve req fn m = (m', evs, Inr r)"
  obtains name p m1 evs1 p' where "fn name p m = (m1, evs1, Inr (p', r))"
  using assms by (auto simp: withProfile_def split: sum.splits prod.splits option.splits)

lemma edits_reply: "withProfile ve req (edits f) m = (m', evs, Inr r) \<Longrightarrow> \<exists>p p'. f p = Inr (p', r)"
  by (erule withProfile_reply) (auto simp: edits_def)

lemma file_verb_reply: "file_verb msg r m = (m', evs, Inr x) \<Longrightarrow> x = OkReply [] msg"
  by (auto simp: file_verb_def split: option.splits)

fun store_status :: "store_verb \<Rightarrow> string" where
  "store_status CmdListProfiles = ''profiles''"
| "store_status CmdListNodes = ''nodes''"
| "store_status CmdGetGroup = ''group_config''"
| "store_status CmdGetNode = ''node_config''"
| "store_status CmdListSubs = ''subscriptions''"
| "store_status CmdAddSub = ''refreshed''"
| "store_status CmdRefreshSubs = ''refreshed''"
| "store_status CmdListRouting = ''routing''"
| "store_status CmdGetRouting = ''routing_config''"
| "store_status _ = ''ok''"

lemma store_commands_statuses: "list_all (\<lambda>(c, v). statuses c = [store_status v]) store_commands"
  by code_simp

lemmas edit_replies = select_node_edit_def add_node_edit_def remove_node_edit_def upsert_group_edit_def remove_subscription_edit_def
  update_subscription_edit_def select_routing_edit_def upsert_routing_edit_def remove_routing_edit_def

lemma edit_is_ok:
  assumes "withProfile ve req (edits f) m = (m', evs, Inr r)" and "\<And>p p'. f p = Inr (p', r) \<Longrightarrow> \<exists>node msg. r = OkReply node msg"
  shows "wr_status (store_response r) = ''ok''"
  using edits_reply [OF assms(1)] assms(2) by fastforce

lemma node_prefs_ok:
  assumes "set_node_prefs_locked ve oc req m = (m', evs, Inr (r, rc))"
  shows "wr_status (store_response r) = ''ok''"
  using assms unfolding set_node_prefs_locked_def
  by (elim withProfile_reply) (auto simp: node_prefs_edit_def pin_core_def rbind_eq_Inr_iff split: sum.splits prod.splits if_splits)

lemma refreshed_status:
  assumes "withProfile ve req fn m = (m', evs, Inr r)" and "fn = refresh_edit ve only \<or> fn = add_subscription_edit ve rq name format"
  shows "wr_status (store_response r) = ''refreshed''"
  using assms by (elim withProfile_reply) (auto simp: refresh_edit_def add_subscription_edit_def Let_def split: option.splits sum.splits prod.splits if_splits)

lemma store_verb_status:
  assumes "handle_store ve oc oc' v req m = (m', evs, Inr r)"
  shows "wr_status (store_response r) = store_status v"
proof (cases v)
  case CmdSetNodePrefs
  then show ?thesis using assms by (auto simp: setNodePrefs_def split: if_splits prod.splits sum.splits option.splits dest: node_prefs_ok)
next
  case CmdAddSub
  then show ?thesis using assms
    by (auto simp: addSubscription_def Let_def split: if_splits option.splits dest: refreshed_status [OF _ disjI2 [OF refl]])
next
  case CmdRefreshSubs
  then show ?thesis using assms by (auto simp: refreshSubscriptions_def dest: refreshed_status [OF _ disjI1 [OF refl]])
next
  case CmdUpsertGroup
  then show ?thesis using assms
    by (auto simp: upsertGroup_def upsert_group_edit_def rbind_eq_Inr_iff split: if_splits option.splits sum.splits prod.splits elim!: edit_is_ok)
next
  case CmdUpsertRouting
  then show ?thesis using assms
    by (auto simp: upsertRouting_def upsert_routing_edit_def rbind_eq_Inr_iff Let_def split: if_splits option.splits sum.splits prod.splits elim!: edit_is_ok)
next
  case CmdUpdateSub
  then show ?thesis using assms
    by (auto simp: updateSubscription_def update_subscription_edit_def Let_def split: if_splits option.splits elim!: edit_is_ok)
next
  case CmdAddNode
  then show ?thesis using assms
    by (auto simp: addNode_def add_node_edit_def Let_def split: if_splits sum.splits elim!: edit_is_ok)
next
  case CmdGetRouting
  then show ?thesis using assms by (auto simp: getRouting_def rbind_eq_Inr_iff Let_def split: if_split_asm) (auto split: sum.split_asm)
qed (use assms in \<open>auto simp: listProfiles_def listNodes_def getGroup_def getNode_def listSubscriptions_def listRouting_def createProfile_def
    deleteProfile_def setActiveProfile_def selectNode_def removeNode_def removeSubscription_def selectRouting_def removeRouting_def rbind_eq_Inr_iff Let_def
    select_node_edit_def remove_node_edit_def remove_subscription_edit_def select_routing_edit_def remove_routing_edit_def
    dest!: file_verb_reply elim!: edit_is_ok split: if_splits option.splits sum.splits\<close>)

lemma activate_status:
  "session_response tx version c (snd (activate dv oc rq m)) = Some r \<Longrightarrow> wr_status r \<in> {''activated'', ''error''}"
  by (auto simp: activate_def startActivationLocked_def Let_def split: sum.splits if_splits)

lemma stop_status:
  "session_response tx version c (snd (stop oc role m)) = Some r \<Longrightarrow> wr_status r \<in> {''stopped'', ''idle'', ''error''}"
  by (auto simp: stop_def Let_def split: if_splits)

lemma settings_status:
  "session_response tx version c (snd (setSettings dv oc s m)) = Some r \<Longrightarrow> wr_status r \<in> {''settings'', ''error''}"
  "session_response tx version c (getSettings dv m) = Some r \<Longrightarrow> wr_status r \<in> {''settings'', ''error''}"
  by (auto simp: setSettings_def getSettings_def split: option.splits sum.splits if_splits)

lemma status_status: "session_response tx version c (status oc m) = Some r \<Longrightarrow> wr_status r \<in> {''running'', ''idle''}"
  by (auto simp: status_def split: if_splits)

lemma activate_cases: obtains (up) m2 es where "activate dv oc rq m = (m2, Activated es)" | (refused) m2 f where "activate dv oc rq m = (m2, RError f)"
proof (cases "snd (activate dv oc rq m)")
qed (use that in \<open>auto simp: activate_def startActivationLocked_def Let_def prod_eq_iff split: sum.splits if_splits\<close>)

lemma switch_status:
  assumes "session_response tx version c (snd (switchNode dv oc oc' node m)) = Some r"
  shows "wr_status r \<in> {''switched'', ''error''}"
proof (cases "node = None \<or> node = Some []")
  case True
  then show ?thesis using assms by (auto simp: switchNode_def)
next
  case False
  then obtain ref where ref: "node = Some ref" "ref \<noteq> []" by auto
  obtain m1 out where l: "switch_locked oc ref m = (m1, out)" by fastforce
  show ?thesis
  proof (cases out)
    case (Inl resp)
    then have "resp \<in> range RError \<union> range Switched" using l by (auto simp: switch_locked_def Let_def split: if_splits option.splits)
    then show ?thesis using assms ref l Inl by (auto simp: switchNode_def split: if_splits)
  next
    case (Inr rq)
    show ?thesis by (cases rule: activate_cases [of dv oc' rq m1]) (use assms ref l Inr in \<open>auto simp: switchNode_def split: if_splits\<close>)
  qed
qed

lemmas session_statuses = activate_status stop_status settings_status status_status switch_status

lemma result_statuses:
  "wire_reply tx version c (LatenciesReply x1) = Some r \<Longrightarrow> wr_status r \<in> {''latencies'', ''error''}"
  "wire_reply tx version c (DiagnosisReply x2) = Some r \<Longrightarrow> wr_status r \<in> {''diagnosis'', ''error''}"
  "wire_reply tx version c (DoctorReply x3) = Some r \<Longrightarrow> wr_status r \<in> {''doctor_report'', ''error''}"
  "wire_reply tx version c (UpdateReply x4) = Some r \<Longrightarrow> wr_status r \<in> {''update_status'', ''error''}"
  by (cases x1, auto) (cases x2, auto, cases x3, auto, cases x4, auto)

lemma statuses_table:
  "statuses ''status'' = [''running'', ''idle'']" "statuses ''test_latency'' = [''latencies'']" "statuses ''diagnose'' = [''diagnosis'']"
  "statuses ''traffic_apps'' = [''app_traffic'']" "statuses ''doctor'' = [''doctor_report'']" "statuses ''doctor_nodes'' = [''doctor_report'']"
  "statuses ''network_report'' = [''doctor_report'']" "statuses ''forwarding_check'' = [''doctor_report'']"
  "statuses ''routing_schema'' = [''routing_schema'']" "statuses ''get_settings'' = [''settings'']" "statuses ''set_settings'' = [''settings'']"
  "statuses ''activate'' = [''activated'']" "statuses ''stop'' = [''stopped'', ''idle'']" "statuses ''switch_node'' = [''switched'']"
  "statuses ''check_update'' = [''update_status'']" "statuses ''download_update'' = [''update_status'']" "statuses ''apply_update'' = [''update_status'']"
  by code_simp+

lemma query_status:
  assumes "(c, f) \<in> set (query_handlers he req)" and "wire_reply tx version c (f m) = Some r"
  shows "wr_status r = ''error'' \<or> wr_status r \<in> set (statuses c)"
  using assms by (auto simp: query_handlers_def Let_def statuses_table dest!: session_statuses result_statuses)

lemma session_verb_reply: "snd (session_verb f w) = SessionReply (snd (f (wd_manager w)))"
  by (simp add: session_verb_def split: prod.splits)

lemma session_verb_status:
  assumes "(c, f) \<in> set (session_handlers he req)" and "wire_reply tx version c (snd (session_verb f w)) = Some r"
  shows "wr_status r = ''error'' \<or> wr_status r \<in> set (statuses c)"
  using assms by (auto simp: session_handlers_def session_verb_reply Let_def statuses_table dest!: session_statuses)

lemma update_verb_status:
  assumes "(c, f) \<in> set (update_handlers he req)" and "wire_reply tx version c (snd (f w)) = Some r"
  shows "wr_status r = ''error'' \<or> wr_status r \<in> set (statuses c)"
  using assms by (auto simp: update_handlers_def update_verb_def download_verb_def statuses_table split: prod.splits dest!: result_statuses)

lemma stored_verb_status:
  assumes "(c, v) \<in> set store_commands" and "wire_reply tx version c (snd (store_verb_of he v req w)) = Some r"
  shows "wr_status r = ''error'' \<or> wr_status r \<in> set (statuses c)"
proof -
  obtain m evs res where h: "handle_store (he_verbs he) (he_oc he) (he_oc' he) v req (wd_manager w) = (m, evs, res)" by (metis prod_cases3)
  have "statuses c = [store_status v]" using store_commands_statuses assms(1) by (auto simp: list_all_iff)
  then show ?thesis using assms(2) h store_verb_status [of "he_verbs he" "he_oc he" "he_oc' he" v req "wd_manager w" m evs]
    by (cases res) (auto simp: store_verb_of_def simp del: handle_store.simps split: if_splits)
qed

section \<open>Reading and writing back\<close>

text \<open>What a client finds in the reply of a request.\<close>

definition read_member :: "reply_texts \<Rightarrow> string \<Rightarrow> string \<Rightarrow> reply \<Rightarrow> string \<Rightarrow> json option" where
  "read_member tx version command r k = Option.bind (wire_reply tx version command r) (\<lambda>resp. jfield (members (response_members tx resp)) k)"

lemma response_keys: "distinct (map (ToLower \<circ> fst) (response_members tx r))"
proof -
  have "map (ToLower \<circ> fst) (response_members tx r) = map ToLower [''status'', ''message'', ''role'', ''entries'', ''active'', ''active_node_live'', ''active_node_live_id'', ''routing_warnings'', ''daemon_version'', ''node'', ''latencies'', ''profiles'', ''active_profile'', ''nodes'', ''subscriptions'', ''refreshed'', ''routing'', ''routing_config'', ''group_config'', ''node_config'', ''routing_schema'', ''diagnosis'', ''apps'', ''checks'', ''settings'', ''needs_reactivation'', ''update_status'']"
    by (simp add: response_members_def)
  moreover have "distinct \<dots>" by code_simp
  ultimately show ?thesis by metis
qed

lemma response_fields:
  "jfield (members (response_members tx r)) ''status'' = Some (JStr (wr_status r))"
  "jfield (members (response_members tx r)) ''settings'' = map_option MarshalSettings (wr_settings r)"
  "jfield (members (response_members tx r)) ''routing_config'' = wr_routing_config r"
  by (rule jfield_members [OF response_keys], simp add: response_members_def)+

definition write_request :: "string \<Rightarrow> string \<Rightarrow> json \<Rightarrow> string option \<Rightarrow> json" where
  "write_request command k j profile = JObj (members [(''command'', Some (JStr command)), (k, Some j), (''profile'', map_option JStr profile)])"

lemma dec_ptr_settings: "settings_in_range s \<Longrightarrow> dec_ptr (UnmarshalSettings c) (MarshalSettings s) = Inr (Some s)"
proof -
  obtain ob where "MarshalSettings s = JObj ob" by (simp add: MarshalSettings_def)
  then show "settings_in_range s \<Longrightarrow> ?thesis" using Unmarshal_Marshal_settings [of s c] by simp
qed

text \<open>The members a request does not have.\<close>

lemma request_absent:
  "list_all (\<lambda>k. jfield [(''command'', x), (''settings'', y)] k = None) [''profile'', ''routing'', ''tun'', ''node'', ''role'', ''nodes'', ''url'', ''name'', ''allow_invalid_certs'', ''format'', ''sub'', ''enabled'', ''update_interval_sec'', ''core_override'', ''force'', ''group'', ''routing_config'']"
  "list_all (\<lambda>k. jfield [(''command'', x), (''routing_config'', y)] k = None) [''profile'', ''routing'', ''tun'', ''node'', ''role'', ''nodes'', ''url'', ''name'', ''allow_invalid_certs'', ''format'', ''sub'', ''enabled'', ''update_interval_sec'', ''core_override'', ''force'', ''group'', ''settings'']"
  "list_all (\<lambda>k. jfield [(''command'', x), (''routing_config'', y), (''profile'', z)] k = None) [''routing'', ''tun'', ''node'', ''role'', ''nodes'', ''url'', ''name'', ''allow_invalid_certs'', ''format'', ''sub'', ''enabled'', ''update_interval_sec'', ''core_override'', ''force'', ''group'', ''settings'']"
  by code_simp+

lemma request_present:
  "jfield [(''command'', x), (''settings'', y)] ''command'' = Some x" "jfield [(''command'', x), (''settings'', y)] ''settings'' = Some y"
  "jfield [(''command'', x), (''routing_config'', y)] ''command'' = Some x" "jfield [(''command'', x), (''routing_config'', y)] ''routing_config'' = Some y"
  "jfield [(''command'', x), (''routing_config'', y), (''profile'', z)] ''command'' = Some x"
  "jfield [(''command'', x), (''routing_config'', y), (''profile'', z)] ''routing_config'' = Some y"
  "jfield [(''command'', x), (''routing_config'', y), (''profile'', z)] ''profile'' = Some z"
  by code_simp+

lemma settings_request_decodes:
  assumes "settings_in_range s"
  obtains req where "dec_request (write_request ''set_settings'' ''settings'' (MarshalSettings s) None) = Inr req" "vr_command req = ''set_settings''" "vr_settings req = Some s"
  using request_absent(1) [of "JStr ''set_settings''" "MarshalSettings s"] dec_ptr_settings [OF assms, of zero_settings]
  by (simp add: dec_request_def dec_text_def dec_flag_def dec_field_def write_request_def members_def List.map_filter_def request_present)

lemma routing_request_decodes:
  obtains req where "dec_request (write_request ''upsert_routing'' ''routing_config'' j profile) = Inr req" "vr_command req = ''upsert_routing''"
    "vr_routing_config req = Some j" "vr_profile req = profile"
  using request_absent(2) [of "JStr ''upsert_routing''" j] request_absent(3) [of "JStr ''upsert_routing''" j "JStr (the profile)"]
  by (cases profile)
    (simp_all add: dec_request_def dec_text_def dec_flag_def dec_field_def write_request_def members_def List.map_filter_def request_present)

lemma atomicWrite_file: "(\<And>d. old \<noteq> Some (EDir d)) \<Longrightarrow> atomicWrite True old j = Inr (EFile (Some j))"
  by (cases old; cases "the old") (auto simp: atomicWrite_def)

lemma settings_saved_again:
  assumes "load_settings dv m = Inr s" and "ValidateSettings (dv_addr_ok dv) (dv_prefix_ok dv) (dv_url_parse dv) (DefaultSettings (dv_goos dv)) = None" and "oc_io oc"
  obtains m' where "setSettings dv oc (Some s) m = (m', SettingsReply s False)" "load_settings dv m' = Inr s" "m' = m\<lparr>mg_settings := mg_settings m'\<rparr>"
proof -
  have valid: "ValidateSettings (dv_addr_ok dv) (dv_prefix_ok dv) (dv_url_parse dv) s = None"
    using assms(1,2) by (auto simp: LoadSettings_def split: sum.splits file_error.splits option.splits)
  have "mg_settings m \<noteq> Some (EDir d)" for d
    using assms(1) by (auto simp: LoadSettings_def read_file_def)
  then obtain f where f: "SaveSettings (dv_addr_ok dv) (dv_prefix_ok dv) (dv_url_parse dv) (oc_io oc) s (mg_settings m) = Inr f"
    using valid assms(3) by (simp add: SaveSettings_def atomicWrite_file)
  from that [of "m\<lparr>mg_settings := Some f\<rparr>"] show thesis
    using assms(1) f settings_roundtrip [OF f, of "dv_goos dv"] by (simp add: setSettings_def engineRelevantChanged_def)
qed

lemma loaded_normal: "LoadProfile iter pt ni fs name = Inr p \<Longrightarrow> pf_schema_version p = SchemaVersion"
  by (auto simp: LoadProfile_def rbind_eq_Inr_iff normalize_version split: option.splits if_splits)

lemma profile_saved_again:
  assumes "load_profile (ve_dv ve) m name = Inr p" and "profile_good ve p" and "env_ok ve" and "ve_io ve"
  obtains fs' where "SaveProfile (ve_fmt_time ve) (ve_io ve) name p (mg_fs m) = (fs', None)"
    "\<And>other. load_profile (ve_dv ve) (m\<lparr>mg_fs := fs'\<rparr>) other = load_profile (ve_dv ve) m other"
proof -
  have name: "ValidateName name = None" and no_dir: "\<And>d. profile_entry (mg_fs m) name \<noteq> Some (EDir d)"
    using assms(1) by (auto simp: LoadProfile_def read_file_def split: option.splits)
  obtain j where "MarshalProfile (ve_fmt_time ve) (normalize p) = Inr j"
    using Unmarshal_Marshal_profile [of "dv_json_iter (ve_dv ve)" "normalize p" "dv_parse_time (ve_dv ve)" "ve_fmt_time ve"] assms(2,3)
    by (auto simp: profile_good_def env_ok_def storable_normalize normalize_subscriptions)
  then obtain fs' where fs': "SaveProfile (ve_fmt_time ve) (ve_io ve) name p (mg_fs m) = (fs', None)"
    using name no_dir assms(4) by (simp add: SaveProfile_def atomicWrite_file)
  have "load_profile (ve_dv ve) (m\<lparr>mg_fs := fs'\<rparr>) name = Inr p"
    using saved_loads [OF _ _ _ fs', of "dv_json_iter (ve_dv ve)" "dv_parse_time (ve_dv ve)" "dv_newid (ve_dv ve)"] assms(2,3) loaded_normal [OF assms(1)]
    by (simp add: profile_good_def env_ok_def)
  then have "load_profile (ve_dv ve) (m\<lparr>mg_fs := fs'\<rparr>) other = load_profile (ve_dv ve) m other" for other
    using LoadProfile_entry [OF SaveProfile_frame(1) [OF fs'], of other] assms(1) by (cases "other = name") auto
  with fs' that show thesis by blast
qed

text \<open>Writing a routing config over itself leaves the profile as it is.\<close>

lemma replace_first_same: "x \<in> set xs \<Longrightarrow> distinct (map f xs) \<Longrightarrow> replace_first (\<lambda>y. f y = f x) x xs = Some xs"
  by (induction xs) (auto simp: image_iff)

lemma upsert_same:
  assumes "profile_inv p" and "rc \<in> set (pf_routing_configs p)"
  shows "upsert_routing_edit ve rc p = Inr (p, OkReply [] (''routing upserted: '' @ rc_name rc))"
proof -
  have same: "rc_id r = rc_id rc" if "r \<in> set (pf_routing_configs p)" "rc_name r = rc_name rc" for r
    using that assms distinct_map inj_onD [of rc_name "set (pf_routing_configs p)" r rc] by (auto simp: profile_inv_def)
  have name_ok: "ValidateName (rc_name rc) = None" using assms by (simp add: profile_inv_def)
  have no_clash: "\<not> list_ex (\<lambda>r. rc_id r \<noteq> rc_id rc \<and> rc_name r = rc_name rc) (pf_routing_configs p)"
    using same by (auto simp: list_ex_iff)
  have "distinct (map rc_id (pf_routing_configs p))" using assms(1) by (simp add: profile_inv_def)
  then have "ReplaceRoutingByID (rc_id rc) rc p = Inr p"
    unfolding ReplaceRoutingByID_def
    using name_ok no_clash replace_first_same [of rc "pf_routing_configs p" rc_id] assms(2) by simp
  then show ?thesis using assms(2) by (auto simp: upsert_routing_edit_def store_result_def list_ex_iff Let_def)
qed

lemma sent_config:
  "((case MarshalConfig rc of Inl e \<Rightarrow> Inl (RoutingEncodeFailed e) | Inr j \<Rightarrow> Inr (RoutingConfigReply j)) = Inr r) = (\<exists>j. MarshalConfig rc = Inr j \<and> r = RoutingConfigReply j)"
  by (cases "MarshalConfig rc") auto

lemma routing_reply:
  "wire_reply tx version c (StoreReply res) = Some r \<Longrightarrow> wr_routing_config r = Some j \<Longrightarrow> res = Inr (RoutingConfigReply j)"
proof -
  have "wr_routing_config (store_response reply) = Some j \<Longrightarrow> reply = RoutingConfigReply j" for reply
    by (cases reply) (auto simp: zero_response_def)
  then show "wire_reply tx version c (StoreReply res) = Some r \<Longrightarrow> wr_routing_config r = Some j \<Longrightarrow> res = Inr (RoutingConfigReply j)"
    by (cases res) (auto simp: errResp_def zero_response_def split: if_splits)
qed

section \<open>Properties\<close>

text \<open>
  C18. Every verb answers in the terms of the protocol: whatever the request and the state, a reply carries one of the statuses of its verb or is an
  error; an unknown verb always gets an error.
\<close>

theorem reply_of_verb:
  assumes "wire_reply tx version (vr_command req) (snd (Handle he req w)) = Some r"
  shows "read_member tx version (vr_command req) (snd (Handle he req w)) ''status'' = Some (JStr (wr_status r)) \<and>
    (wr_status r = ''error'' \<or> wr_status r \<in> set (statuses (vr_command req)))"
proof
  show "read_member tx version (vr_command req) (snd (Handle he req w)) ''status'' = Some (JStr (wr_status r))"
    using assms by (simp add: read_member_def response_fields)
  show "wr_status r = ''error'' \<or> wr_status r \<in> set (statuses (vr_command req))"
    using assms
  proof (cases rule: Handle_cases [of req he w])
    case (query f)
    then show ?thesis using assms query_status [OF query(1)] by (simp add: query_verb_def)
  qed (use assms session_verb_status stored_verb_status update_verb_status in auto)
qed

text \<open>
  C16. Sending the settings back as they were read changes nothing: the document of a \<^verbatim>\<open>get_settings\<close> reply decodes in a \<^verbatim>\<open>set_settings\<close> request to
  the settings in force, and if the file can be written the daemon accepts it, asks for no reactivation and keeps the same settings.
\<close>

theorem settings_written_back:
  assumes "vr_command req = ''get_settings''" and "read_member tx version ''get_settings'' (snd (Handle he req w)) ''settings'' = Some j"
    and "ve_dv (he_verbs he) = dv" and "ve_dv (he_verbs he') = dv" and "oc_io (he_oc he')"
    and "ValidateSettings (dv_addr_ok dv) (dv_prefix_ok dv) (dv_url_parse dv) (DefaultSettings (dv_goos dv)) = None"
  shows "\<exists>req' s. dec_request (write_request ''set_settings'' ''settings'' j None) = Inr req' \<and> load_settings dv (wd_manager w) = Inr s \<and>
    snd (Handle he' req' w) = SessionReply (SettingsReply s False) \<and> load_settings dv (wd_manager (fst (Handle he' req' w))) = Inr s"
proof -
  have "Handle he req w = query_verb (\<lambda>m. SessionReply (getSettings dv m)) w"
    by (rule Handle_of) (simp add: handlers_def query_handlers_def assms Let_def)
  then obtain s where s: "load_settings dv (wd_manager w) = Inr s" "j = MarshalSettings s"
    using assms(2) by (auto simp: query_verb_def getSettings_def read_member_def response_fields errResp_def zero_response_def split: sum.splits if_splits)
  have "settings_in_range s"
    using s(1) assms(6) ValidateSettings_range by (auto simp: LoadSettings_def split: sum.splits file_error.splits option.splits)
  then obtain req' where req': "dec_request (write_request ''set_settings'' ''settings'' j None) = Inr req'" "vr_command req' = ''set_settings''" "vr_settings req' = Some s"
    using settings_request_decodes s(2) by metis
  obtain m' where "setSettings dv (he_oc he') (Some s) (wd_manager w) = (m', SettingsReply s False)" "load_settings dv m' = Inr s"
    using settings_saved_again [OF s(1) assms(6,5)] by metis
  moreover have "Handle he' req' w = session_verb (setSettings dv (he_oc he') (Some s)) w"
    by (rule Handle_of) (simp add: handlers_def session_handlers_def assms req' Let_def)
  ultimately show ?thesis using req'(1) s(1) by (auto simp: session_verb_def)
qed

text \<open>
  C17. Sending a routing config back as it was read changes nothing: on well-formed profiles the document of a \<^verbatim>\<open>get_routing\<close> reply, put into an
  \<^verbatim>\<open>upsert_routing\<close> request for the same profile, is accepted, and every profile loads as before.
\<close>

theorem routing_written_back:
  assumes "vr_command req = ''get_routing''" and "read_member tx version ''get_routing'' (snd (Handle he req w)) ''routing_config'' = Some j"
    and "stored_good (he_verbs he) (wd_manager w)" and "he_verbs he' = he_verbs he" and "env_ok (he_verbs he)" and "ve_io (he_verbs he)"
  shows "\<exists>req' msg. dec_request (write_request ''upsert_routing'' ''routing_config'' j (vr_profile req)) = Inr req' \<and>
    snd (Handle he' req' w) = StoreReply (Inr (OkReply [] msg)) \<and>
    (\<forall>name. load_profile (ve_dv (he_verbs he)) (wd_manager (fst (Handle he' req' w))) name = load_profile (ve_dv (he_verbs he)) (wd_manager w) name)"
proof -
  let ?ve = "he_verbs he" and ?m = "wd_manager w"
  have "Handle he req w = store_verb_of he CmdGetRouting req w"
    by (rule Handle_of) (force simp: handlers_def store_commands_def assms)
  then have "snd (snd (getRouting ?ve req ?m)) = Inr (RoutingConfigReply j)"
    using assms(2) by (auto simp: store_verb_of_def read_member_def response_fields bind_eq_Some_conv split: prod.splits dest: routing_reply)
  then obtain name p rc where p: "resolveProfileName req ?m = Inr name" "load_profile (ve_dv ?ve) ?m name = Inr p"
    and rc: "FindRouting p (given (vr_routing req)) = Some rc" "MarshalConfig rc = Inr j"
    by (auto simp: getRouting_def Let_def resolved_profile_def find_routing_def rbind_eq_Inr_iff sent_config split: if_splits option.splits) (auto split: sum.split_asm)
  have good: "profile_good ?ve p" using assms(3) p(2) by (auto simp: stored_good_def)
  have rc_in: "rc \<in> set (pf_routing_configs p)" using rc(1) by (auto simp: FindRouting_def find_Some_iff)
  then have "UnmarshalConfig (ve_newids ?ve 0 0) j = Inr rc"
    using Unmarshal_Marshal_config [of rc "ve_newids ?ve 0 0"] rc(2) good by (auto simp: profile_good_def profile_storable_def)
  moreover obtain req' where req': "dec_request (write_request ''upsert_routing'' ''routing_config'' j (vr_profile req)) = Inr req'"
    "vr_command req' = ''upsert_routing''" "vr_routing_config req' = Some j" "vr_profile req' = vr_profile req"
    by (rule routing_request_decodes)
  moreover obtain fs' where "SaveProfile (ve_fmt_time ?ve) (ve_io ?ve) name p (mg_fs ?m) = (fs', None)"
    and same: "\<And>other. load_profile (ve_dv ?ve) (?m\<lparr>mg_fs := fs'\<rparr>) other = load_profile (ve_dv ?ve) ?m other"
    using profile_saved_again [OF p(2) good assms(5,6)] by metis
  moreover have "resolveProfileName req' ?m = Inr name" using p(1) unfolding resolveProfileName_def req'(4) .
  ultimately have "upsertRouting ?ve req' ?m = (?m\<lparr>mg_fs := fs'\<rparr>, [], Inr (OkReply [] (''routing upserted: '' @ rc_name rc)))"
    using p(2) upsert_same [OF _ rc_in, of ?ve] good by (simp add: upsertRouting_def withProfile_def edits_def profile_good_def)
  moreover have "Handle he' req' w = store_verb_of he' CmdUpsertRouting req' w"
    by (rule Handle_of) (force simp: handlers_def store_commands_def req')
  ultimately show ?thesis using req'(1) same assms(4) by (auto simp: store_verb_of_def)
qed

section \<open>Instances\<close>

lemma first_reply:
  "snd (Handle (first_env he) sample_create (empty_served u)) = StoreReply (Inr (OkReply [] ''profile created: main''))"
proof -
  have "Handle (first_env he) sample_create (empty_served u) = store_verb_of (first_env he) CmdCreateProfile sample_create (empty_served u)"
    by (rule Handle_of) (force simp: handlers_def store_commands_def sample_create_def)
  then show ?thesis using sample_creates by (simp add: store_verb_of_def first_env_def empty_served_manager del: handle_store.simps)
qed

theorem reply_of_verb_witness:
  "\<forall>tx version he u. read_member tx version ''create_profile'' (snd (Handle (first_env he) sample_create (empty_served u))) ''status'' = Some (JStr ''ok'')"
proof (intro allI)
  fix tx version he u
  have verb: "vr_command sample_create = ''create_profile''" by (simp add: sample_create_def)
  show "read_member tx version ''create_profile'' (snd (Handle (first_env he) sample_create (empty_served u))) ''status'' = Some (JStr ''ok'')"
    using reply_of_verb [of tx version sample_create "first_env he" "empty_served u" "store_response (OkReply [] ''profile created: main'')"]
    unfolding verb first_reply by simp
qed

text \<open>A host on which the default settings are valid.\<close>

definition valid_env :: "handle_env \<Rightarrow> handle_env" where
  "valid_env he = (first_env he)\<lparr>he_verbs := sample_verbs\<lparr>ve_dv := sample_daemon\<lparr>dv_url_parse := sample_url_parse\<rparr>\<rparr>\<rparr>"

theorem settings_written_back_witness:
  "\<forall>tx version he u. \<exists>j req'.
     read_member tx version ''get_settings'' (snd (Handle (valid_env he) (sample_create\<lparr>vr_command := ''get_settings''\<rparr>) (empty_served u))) ''settings'' = Some j \<and>
     dec_request (write_request ''set_settings'' ''settings'' j None) = Inr req' \<and>
     snd (Handle (valid_env he) req' (empty_served u)) = SessionReply (SettingsReply (DefaultSettings ''linux'') False)"
proof (intro allI)
  fix tx version he u
  let ?dv = "sample_daemon\<lparr>dv_url_parse := sample_url_parse\<rparr>" and ?req = "sample_create\<lparr>vr_command := ''get_settings''\<rparr>"
  have loads: "load_settings ?dv (wd_manager (empty_served u)) = Inr (DefaultSettings ''linux'')"
    by (simp add: empty_served_manager newManager_def LoadSettings_def read_file_def sample_daemon_def)
  have "Handle (valid_env he) ?req (empty_served u) = query_verb (\<lambda>m. SessionReply (getSettings ?dv m)) (empty_served u)"
    by (rule Handle_of) (simp add: handlers_def query_handlers_def valid_env_def sample_verbs_def Let_def)
  then have read: "read_member tx version ''get_settings'' (snd (Handle (valid_env he) ?req (empty_served u))) ''settings'' = Some (MarshalSettings (DefaultSettings ''linux''))"
    using loads by (simp add: query_verb_def getSettings_def read_member_def response_fields)
  have "ValidateSettings (dv_addr_ok ?dv) (dv_prefix_ok ?dv) (dv_url_parse ?dv) (DefaultSettings (dv_goos ?dv)) = None"
    by (rule DefaultSettings_valid) (simp_all add: sample_daemon_def sample_url_ok)
  from settings_written_back [OF _ read _ _ _ this, of "valid_env he"] loads read
  show "\<exists>j req'. read_member tx version ''get_settings'' (snd (Handle (valid_env he) ?req (empty_served u))) ''settings'' = Some j \<and>
     dec_request (write_request ''set_settings'' ''settings'' j None) = Inr req' \<and>
     snd (Handle (valid_env he) req' (empty_served u)) = SessionReply (SettingsReply (DefaultSettings ''linux'') False)"
    by (auto simp: valid_env_def first_env_def sample_verbs_def sample_outcomes_def)
qed

definition ask_routing :: verb_request where
  "ask_routing = sample_create\<lparr>vr_command := ''get_routing'', vr_routing := Some ''default''\<rparr>"

definition created_served :: "updater \<Rightarrow> served" where
  "created_served u = (empty_served u)\<lparr>wd_manager := sample_created\<rparr>"

lemma created_loads: "load_profile (ve_dv sample_verbs) sample_created ''main'' = Inr (NewProfile ''r'' ''main'')"
proof -
  obtain fs' where fs': "SaveProfile (\<lambda>_. []) True ''main'' (NewProfile ''r'' ''main'') empty_fs = (fs', None)" using save_new_ok by blast
  have "CreateProfile (\<lambda>_. []) True ''r'' ''main'' empty_fs = (fs', None)"
    using fs' by (simp add: CreateProfile_def ValidateName_def name_char_def) (simp add: empty_fs_def obj_simps)
  then have fs: "mg_fs sample_created = fs'"
    by (simp add: sample_created_def createProfile_def sample_create_def given_def sample_verbs_def file_verb_def newManager_def)
  show ?thesis
    using saved_loads [OF visits_id NewProfile_storable _ fs'] fs by (simp add: sample_verbs_def sample_daemon_def NewProfile_def)
qed

theorem routing_written_back_witness:
  "\<forall>tx version he u. \<exists>j req' msg.
     read_member tx version ''get_routing'' (snd (Handle (first_env he) ask_routing (created_served u))) ''routing_config'' = Some j \<and>
     dec_request (write_request ''upsert_routing'' ''routing_config'' j (Some ''main'')) = Inr req' \<and>
     snd (Handle (first_env he) req' (created_served u)) = StoreReply (Inr (OkReply [] msg))"
proof (intro allI)
  fix tx version he u
  obtain j where j: "MarshalConfig (NewDefault ''r'') = Inr j"
    using Unmarshal_Marshal_config [OF config_ok_NewDefault [of "''r''"], of "[]"] by auto
  have "Handle (first_env he) ask_routing (created_served u) = store_verb_of (first_env he) CmdGetRouting ask_routing (created_served u)"
    by (rule Handle_of) (force simp: handlers_def store_commands_def ask_routing_def)
  moreover have "getRouting sample_verbs ask_routing sample_created = (sample_created, [], Inr (RoutingConfigReply j))"
    using created_loads j by (simp add: getRouting_def ask_routing_def sample_create_def given_def resolved_profile_def resolveProfileName_def find_routing_def
        FindRouting_def NewProfile_def NewDefault_def)
  ultimately have read: "read_member tx version ''get_routing'' (snd (Handle (first_env he) ask_routing (created_served u))) ''routing_config'' = Some j"
    by (simp add: store_verb_of_def first_env_def created_served_def read_member_def response_fields)
  have good: "stored_good (he_verbs (first_env he)) (wd_manager (created_served u))"
    using store_verbs_keep_profiles [OF sample_creates sample_env_ok empty_stored_good] by (simp add: first_env_def created_served_def)
  from routing_written_back [OF _ read good, of "first_env he"] read
  show "\<exists>j req' msg. read_member tx version ''get_routing'' (snd (Handle (first_env he) ask_routing (created_served u))) ''routing_config'' = Some j \<and>
     dec_request (write_request ''upsert_routing'' ''routing_config'' j (Some ''main'')) = Inr req' \<and>
     snd (Handle (first_env he) req' (created_served u)) = StoreReply (Inr (OkReply [] msg))"
    using sample_env_ok by (auto simp: ask_routing_def sample_create_def first_env_def sample_verbs_def)
qed

end
