(* ===== verification/Daemon_Loops.thy ===== *)
theory Daemon_Loops
  imports Manager_Update
begin

text \<open>
  The daemon's background loops: \<^verbatim>\<open>updateLoop\<close> (\<^verbatim>\<open>manager_update.go\<close>) and \<^verbatim>\<open>subscriptionLoop\<close> (\<^verbatim>\<open>manager_subscriptions.go\<close>). Both wait for an initial
  delay with jitter, work once, then work at every tick, until the context is cancelled.

  A loop consumes what wakes it, in order: a timer, with what that round meets, or the cancellation. Between two rounds anything else may change the
  state the loop shares with the verbs (\<open>ut_between\<close>, \<open>sk_between\<close>).

  Main result: over the whole life of the loop, and across a restart that finds the persisted attempt clock, two automatic update checks are never
  closer than nine tenths of a day.
\<close>

section \<open>Loops\<close>

datatype 't wake = Cancelled | Fired 't

text \<open>The state when the wakes are used up, and whether the loop has returned.\<close>

fun ticking :: "('t \<Rightarrow> 's \<Rightarrow> 's) \<Rightarrow> 't wake list \<Rightarrow> 's \<Rightarrow> 's \<times> bool" where
  "ticking work [] s = (s, False)"
| "ticking work (Cancelled # ws) s = (s, True)"
| "ticking work (Fired t # ws) s = ticking work ws (work t s)"

text \<open>\<open>rand n\<close> is what \<^verbatim>\<open>rand.N(n)\<close> draws.\<close>

definition initial_wait :: "(int \<Rightarrow> int) \<Rightarrow> int \<Rightarrow> int" where
  "initial_wait rand delay = delay + rand delay"

definition updateInitialDelay :: int where "updateInitialDelay = 60 * time_Second"
definition subscriptionInitialDelay :: int where "subscriptionInitialDelay = 30 * time_Second"

section \<open>Update checks\<close>

text \<open>One round: the clock when the interval is compared and when the attempt is noted, the readings inside the check, the draw of the next jitter.\<close>

record update_tick =
  ut_since :: int
  ut_now :: int
  ut_clock :: "nat \<Rightarrow> int"
  ut_rand :: "int \<Rightarrow> int"
  ut_rm :: bool
  ut_manager :: manager
  ut_between :: "updater \<Rightarrow> updater"

definition update_round :: "updater_env \<Rightarrow> update_tick \<Rightarrow> int \<times> updater \<Rightarrow> int \<times> updater" where
  "update_round ud t st =
    update_attempt ud (ut_rand t) (ut_since t) (ut_now t) (ut_clock t) (ut_rm t) (ut_manager t) (fst st, ut_between t (snd st))"

definition updateLoop :: "updater_env \<Rightarrow> (int \<Rightarrow> int) \<Rightarrow> int \<Rightarrow> update_tick wake list \<Rightarrow> updater \<Rightarrow> (int \<times> updater) \<times> bool" where
  "updateLoop ud rand now wakes u = ticking (update_round ud) wakes (jitterInterval rand updateCheckInterval, seedUpdateAttemptClock ud now u)"

section \<open>Subscription sweeps\<close>

record sweep_tick =
  sk_env :: "nat \<Rightarrow> verb_env"
  sk_oc :: "nat \<Rightarrow> outcomes"
  sk_oc' :: "nat \<Rightarrow> outcomes"
  sk_stopped :: "nat \<Rightarrow> bool \<times> bool"
  sk_between :: "manager \<Rightarrow> manager"
  sk_retry_between :: "subscription_retry obj \<Rightarrow> subscription_retry obj"

text \<open>\<open>None\<close>: the daemon has crashed in a sweep.\<close>

definition sweep_round :: "sweep_tick \<Rightarrow> (manager \<times> subscription_retry obj) option \<Rightarrow> (manager \<times> subscription_retry obj) option" where
  "sweep_round t st = (case st of None \<Rightarrow> None
   | Some (m, retry) \<Rightarrow> sweepSubscriptions (sk_env t) (sk_oc t) (sk_oc' t) (sk_stopped t) (sk_between t m) (sk_retry_between t retry))"

definition subscriptionLoop :: "sweep_tick wake list \<Rightarrow> manager \<Rightarrow> subscription_retry obj \<Rightarrow> (manager \<times> subscription_retry obj) option \<times> bool" where
  "subscriptionLoop wakes m retry = ticking sweep_round wakes (Some (m, retry))"

section \<open>Cancellation and waits\<close>

text \<open>A loop returns at the first cancellation and does nothing after it.\<close>

lemma ticking_returns: "ticking work (map Fired ts @ Cancelled # ws) s = (fold work ts s, True)"
  by (induction ts arbitrary: s) simp_all

lemma ticking_waits: "snd (ticking work ws s) \<longleftrightarrow> Cancelled \<in> set ws"
proof (induction ws arbitrary: s)
  case (Cons w ws)
  then show ?case by (cases w) simp_all
qed simp

lemma initial_wait_bounds: "0 \<le> rand delay \<Longrightarrow> rand delay < delay \<Longrightarrow> delay \<le> initial_wait rand delay \<and> initial_wait rand delay < 2 * delay"
  by (simp add: initial_wait_def)

lemma sweep_from_retries: "sweep_from env oc oc' stopped name ua k subs m retry = Some (m', retry') \<Longrightarrow> retries_ok retry \<Longrightarrow> retries_ok retry'"
proof (induction env oc oc' stopped name ua k subs m retry rule: sweep_from.induct)
  case (2 env oc oc' stopped name ua k sub subs m retry)
  from "2.prems" show ?case
    by (auto simp: Let_def landSubscriptionFetch_def split: if_splits option.splits
        intro!: "2.IH" dest: land_retries_ok)
qed simp

lemma sweep_retries: "sweepSubscriptions env oc oc' stopped m retry = Some (m', retry') \<Longrightarrow> retries_ok retry \<Longrightarrow> retries_ok retry'"
  by (auto simp: sweepSubscriptions_def split: prod.splits dest: due_ok sweep_from_retries)

lemma ticking_invariant:
  assumes "\<And>t s. Fired t \<in> set ws \<Longrightarrow> I s \<Longrightarrow> I (work t s)" and "I s"
  shows "I (fst (ticking work ws s))"
  using assms
proof (induction ws arbitrary: s)
  case (Cons w ws)
  show ?case
  proof (cases w)
    case (Fired t)
    have "I (work t s)" using Cons.prems Fired by (metis list.set_intros(1))
    then show ?thesis using Cons.IH Cons.prems(1) Fired by (metis list.set_intros(2) ticking.simps(3))
  qed (simp add: Cons.prems(2))
qed simp

text \<open>The backoff entries stay in range through every round.\<close>

lemma loop_retries:
  assumes "\<And>t r. Fired t \<in> set wakes \<Longrightarrow> retries_ok r \<Longrightarrow> retries_ok (sk_retry_between t r)" and "retries_ok retry"
  shows "case fst (subscriptionLoop wakes m retry) of None \<Rightarrow> True | Some (m', retry') \<Rightarrow> retries_ok retry'"
  unfolding subscriptionLoop_def
proof (rule ticking_invariant)
  fix t and st :: "(manager \<times> subscription_retry obj) option"
  assume t: "Fired t \<in> set wakes" and ok: "case st of None \<Rightarrow> True | Some (m, r) \<Rightarrow> retries_ok r"
  show "case sweep_round t st of None \<Rightarrow> True | Some (m, r) \<Rightarrow> retries_ok r"
  proof (cases st)
    case (Some p)
    obtain m r where p: "p = (m, r)" by fastforce
    then have "retries_ok (sk_retry_between t r)" using assms(1) [OF t] ok Some by simp
    then show ?thesis
      using sweep_retries Some p by (auto simp: sweep_round_def split: option.splits)
  qed (simp add: sweep_round_def)
qed (use assms(2) in simp)

section \<open>Spacing of the update checks\<close>

definition attempts_now :: "updater_env \<Rightarrow> update_tick \<Rightarrow> int \<times> updater \<Rightarrow> bool" where
  "attempts_now ud t st = (let u = ut_between t (snd st) in
     \<not> (up_last_attempt u \<noteq> zero_time \<and> time_Sub (ut_since t) (up_last_attempt u) < fst st) \<and>
     snd (tryUpdateCheck ud (ut_now t) (ut_clock t) (ut_rm t) (ut_manager t) u))"

text \<open>The times of the automatic checks, in order.\<close>

fun check_times :: "updater_env \<Rightarrow> update_tick list \<Rightarrow> int \<times> updater \<Rightarrow> int list" where
  "check_times ud [] st = []"
| "check_times ud (t # ts) st = (if attempts_now ud t st then [ut_now t] else []) @ check_times ud ts (update_round ud t st)"

text \<open>Clocks move forward from \<open>from\<close> on; what happens between rounds only moves the attempt clock forward; the draws are in range.\<close>

fun rounds_ok :: "int \<Rightarrow> update_tick list \<Rightarrow> bool" where
  "rounds_ok from [] = True"
| "rounds_ok from (t # ts) = (from \<le> ut_since t \<and> ut_since t \<le> ut_now t \<and> (\<forall>n > 0. 0 \<le> ut_rand t n \<and> ut_rand t n < n) \<and>
     (\<forall>u. up_last_attempt u \<le> up_last_attempt (ut_between t u)) \<and> rounds_ok (ut_now t) ts)"

definition due_ok_range :: "int \<Rightarrow> bool" where
  "due_ok_range due = (updateCheckInterval * 9 \<le> due * 10)"

lemma jitter_range: "(\<forall>n > 0. 0 \<le> rand n \<and> rand n < n) \<Longrightarrow> due_ok_range (jitterInterval rand updateCheckInterval)"
  by (simp add: due_ok_range_def jitterInterval_def updateCheckInterval_def)

lemma runUpdateCheck_last: "up_last_attempt (runUpdateCheck ud tr clock rm u) = up_last_attempt u"
  by (auto simp: runUpdateCheck_def hub_broadcast_def land_check_def discardStagedUpdateLocked_def remove_file_def Let_def split: prod.splits sum.splits)

lemma round_effect:
  assumes "update_round ud t st = (due', u')"
  shows "if attempts_now ud t st then up_last_attempt u' = ut_now t \<and> due' = jitterInterval (ut_rand t) updateCheckInterval
    else up_last_attempt u' = up_last_attempt (ut_between t (snd st)) \<and> due' = fst st"
  using assms
  by (auto simp: update_round_def update_attempt_def attempts_now_def tryUpdateCheck_def runUpdateCheck_last noteUpdateAttempt_def Let_def
      split: if_splits prod.splits option.splits)

lemma attempt_late:
  assumes "attempts_now ud t (due, u)" and "due_ok_range due" and "zero_time < up_last_attempt (ut_between t u)"
  shows "updateCheckInterval * 9 \<le> (ut_since t - up_last_attempt (ut_between t u)) * 10"
proof -
  have "due \<le> time_Sub (ut_since t) (up_last_attempt (ut_between t u))" using assms(1,3) by (auto simp: attempts_now_def Let_def)
  then have "due \<le> ut_since t - up_last_attempt (ut_between t u)" by (simp add: time_Sub_def)
  with assms(2) show ?thesis by (simp add: due_ok_range_def)
qed

lemma check_times_spaced:
  assumes "rounds_ok from ts" and "due_ok_range due" and "zero_time < from" and "zero_time < prior" and "prior \<le> up_last_attempt u"
  shows "sorted_wrt (\<lambda>a b. updateCheckInterval * 9 \<le> (b - a) * 10) (prior # check_times ud ts (due, u))"
  using assms
proof (induction ts arbitrary: "from" due u prior)
  case (Cons t ts)
  obtain due' u' where r: "update_round ud t (due, u) = (due', u')" by fastforce
  have last: "prior \<le> up_last_attempt (ut_between t u)" using Cons.prems by (auto intro: order_trans)
  have rest: "rounds_ok (ut_now t) ts" "zero_time < ut_now t" using Cons.prems by auto
  show ?case
  proof (cases "attempts_now ud t (due, u)")
    case True
    then have u': "up_last_attempt u' = ut_now t" "due_ok_range due'" using round_effect [OF r] jitter_range Cons.prems(1) by auto
    have gap: "updateCheckInterval * 9 \<le> (ut_now t - prior) * 10"
      using attempt_late [OF True Cons.prems(2)] last Cons.prems(1,4) by simp
    have "sorted_wrt (\<lambda>a b. updateCheckInterval * 9 \<le> (b - a) * 10) (ut_now t # check_times ud ts (due', u'))"
      by (rule Cons.IH [OF rest(1) u'(2) rest(2) rest(2)]) (simp add: u')
    moreover from this gap have "updateCheckInterval * 9 \<le> (b - prior) * 10" if "b \<in> set (check_times ud ts (due', u'))" for b
      using that by (fastforce simp: updateCheckInterval_def)
    ultimately show ?thesis using True r gap by simp
  next
    case False
    then have "prior \<le> up_last_attempt u'" "due' = due" using round_effect [OF r] last by auto
    then have "sorted_wrt (\<lambda>a b. updateCheckInterval * 9 \<le> (b - a) * 10) (prior # check_times ud ts (due', u'))"
      using Cons.IH [OF rest(1) _ rest(2) Cons.prems(4)] Cons.prems(2) by blast
    then show ?thesis using False r by simp
  qed
qed simp

lemma check_times_first:
  assumes "rounds_ok from ts" and "due_ok_range due" and "zero_time < from"
  shows "sorted_wrt (\<lambda>a b. updateCheckInterval * 9 \<le> (b - a) * 10) (check_times ud ts (due, u))"
  using assms
proof (induction ts arbitrary: "from" due u)
  case (Cons t ts)
  obtain due' u' where r: "update_round ud t (due, u) = (due', u')" by fastforce
  have rest: "rounds_ok (ut_now t) ts" "zero_time < ut_now t" using Cons.prems by auto
  show ?case
  proof (cases "attempts_now ud t (due, u)")
    case True
    then have "up_last_attempt u' = ut_now t" "due_ok_range due'" using round_effect [OF r] jitter_range Cons.prems(1) by auto
    then show ?thesis using check_times_spaced [OF rest(1) _ rest(2) rest(2), of due' u' ud] True r by simp
  next
    case False
    then show ?thesis using Cons.IH [OF rest(1) Cons.prems(2) rest(2), of u'] round_effect [OF r] r by simp
  qed
qed simp

section \<open>Properties\<close>

text \<open>
  C40. Automatic update checks are spaced. Whatever wakes the loop, whatever forced checks note in between, and whatever the checks answer, two
  automatic checks of one daemon are never closer than nine tenths of a day; nor is the first one after a restart to the attempt its predecessor
  left on disk. The loop ends at its cancellation.
\<close>

theorem update_checks_spaced:
  assumes "rounds_ok from ts" and "zero_time < from" and "\<forall>n > 0. 0 \<le> rand n \<and> rand n < n"
  shows "let st = (jitterInterval rand updateCheckInterval, seedUpdateAttemptClock ud now u); times = check_times ud ts st in
    updateLoop ud rand now (map Fired ts @ Cancelled # ws) u = (fold (update_round ud) ts st, True) \<and>
    sorted_wrt (\<lambda>a b. updateCheckInterval * 9 \<le> (b - a) * 10) times \<and>
    (\<forall>t b. LastAttempt (dv_parse_time (ud_dv ud)) (up_seq u) = Some t \<and> zero_time < t \<and> t \<le> now \<and> up_last_attempt u = zero_time \<and> b \<in> set times \<longrightarrow>
      updateCheckInterval * 9 \<le> (b - t) * 10)"
proof -
  let ?st = "(jitterInterval rand updateCheckInterval, seedUpdateAttemptClock ud now u)"
  note due = jitter_range [OF assms(3)]
  have "updateCheckInterval * 9 \<le> (b - t) * 10"
    if "LastAttempt (dv_parse_time (ud_dv ud)) (up_seq u) = Some t" "zero_time < t" "t \<le> now" "up_last_attempt u = zero_time" "b \<in> set (check_times ud ts ?st)" for t b
  proof -
    have "up_last_attempt (seedUpdateAttemptClock ud now u) = t" using that(1-4) by (simp add: seedUpdateAttemptClock_def)
    then show ?thesis using check_times_spaced [OF assms(1) due assms(2) that(2), of "seedUpdateAttemptClock ud now u" ud] that(5) by simp
  qed
  then show ?thesis
    using check_times_first [OF assms(1) due assms(2), of ud] by (auto simp: updateLoop_def ticking_returns Let_def)
qed

definition quiet_tick :: "int \<Rightarrow> update_tick" where
  "quiet_tick at = \<lparr>ut_since = at, ut_now = at, ut_clock = (\<lambda>_. at), ut_rand = (\<lambda>_. 0), ut_rm = True, ut_manager = sample_boot, ut_between = (\<lambda>u. u)\<rparr>"

theorem update_checks_spaced_witness:
  "sorted_wrt (\<lambda>a b. updateCheckInterval * 9 \<le> (b - a) * 10)
    (check_times sample_updater [quiet_tick (zero_time + 1), quiet_tick (zero_time + 2)]
      (jitterInterval (\<lambda>_. 0) updateCheckInterval, seedUpdateAttemptClock sample_updater (zero_time + 1) sample_staged))"
  using update_checks_spaced [of "zero_time + 1" "[quiet_tick (zero_time + 1), quiet_tick (zero_time + 2)]" "\<lambda>_. 0" sample_updater "zero_time + 1" sample_staged]
  by (simp add: quiet_tick_def Let_def)

end
