(* ===== verification/Host_Paths.thy ===== *)
theory Host_Paths
  imports Sub_Links Engine_Probe
begin

text \<open>
  Where the daemon lives on the host: the control socket and who may connect to it (\<^verbatim>\<open>daemon-go/internal/ipc/listen_unix.go\<close>), the config
  root (\<^verbatim>\<open>store/store.go\<close>), the privilege a TUN needs (\<^verbatim>\<open>engine/elevation_other.go\<close>) and identifiers (\<^verbatim>\<open>uuid/uuid.go\<close>).

  \<open>host\<close> is what the process sees of its host: environment, effective ids, home directories. SHA-1 and the random bytes are arguments.

  Main results: exactly the invoking user, the members of the service group or the owner of the process, and root, may connect; a daemon
  started with \<^verbatim>\<open>sudo\<close> listens where the invoking user's client looks, provided the user's runtime directory exists.
\<close>

section \<open>Paths\<close>

text \<open>\<^verbatim>\<open>filepath.Clean\<close> and \<^verbatim>\<open>filepath.Join\<close> on Unix.\<close>

fun clean_elements :: "bool \<Rightarrow> string list \<Rightarrow> string list \<Rightarrow> string list" where
  "clean_elements rooted stack [] = rev stack"
| "clean_elements rooted stack (e # es) =
    (if e = [] \<or> e = ''.'' then clean_elements rooted stack es
     else if e = ''..'' then
       (if stack \<noteq> [] \<and> hd stack \<noteq> ''..'' then clean_elements rooted (tl stack) es
        else if rooted then clean_elements rooted stack es
        else clean_elements rooted (e # stack) es)
     else clean_elements rooted (e # stack) es)"

fun slashed :: "string list \<Rightarrow> string" where
  "slashed [] = []"
| "slashed [e] = e"
| "slashed (e # es) = e @ ''/'' @ slashed es"

definition Clean :: "string \<Rightarrow> string" where
  "Clean path =
    (let rooted = HasPrefix path ''/''; body = slashed (clean_elements rooted [] (Split path (CHR ''/''))) in
     if rooted then CHR ''/'' # body else if body = [] then ''.'' else body)"

definition Join :: "string list \<Rightarrow> string" where
  "Join elements = (let es = filter (\<lambda>e. e \<noteq> []) elements in if es = [] then [] else Clean (slashed es))"

section \<open>The host\<close>

record host =
  ho_env :: "string \<Rightarrow> string"
  ho_euid :: int
  ho_egid :: int
  ho_goos :: string
  ho_home :: string
  ho_config_dir :: "string + string"
  ho_is_dir :: "string \<Rightarrow> bool"
  ho_home_of :: "string \<Rightarrow> string option"

definition configRoot :: "host \<Rightarrow> string" where
  "configRoot h =
    (if ho_env h ''IRON_LINK_CONFIG_DIR'' \<noteq> [] then ho_env h ''IRON_LINK_CONFIG_DIR''
     else if ho_goos h = ''darwin'' then Join [ho_home h, ''Library'', ''Application Support'', ''iron-link'']
     else if ho_env h ''XDG_CONFIG_HOME'' \<noteq> [] then Join [ho_env h ''XDG_CONFIG_HOME'', ''iron-link'']
     else Join [ho_home h, ''.config'', ''iron-link''])"

definition resolveAddr :: "host \<Rightarrow> string" where
  "resolveAddr h =
    (let uid = ho_env h ''SUDO_UID''; rd = Join [''/run/user'', uid] in
     if ho_env h ''IRON_LINK_SOCKET'' \<noteq> [] then ho_env h ''IRON_LINK_SOCKET''
     else if ho_euid h = 0 \<and> uid \<noteq> [] \<and> ho_is_dir h rd then Join [rd, ''iron-link.sock'']
     else if ho_env h ''XDG_RUNTIME_DIR'' \<noteq> [] then Join [ho_env h ''XDG_RUNTIME_DIR'', ''iron-link.sock'']
     else Join [configRoot h, ''iron-link.sock''])"

definition sudoUserConfigDir :: "host \<Rightarrow> string option" where
  "sudoUserConfigDir h = (let uid = ho_env h ''SUDO_UID'' in
     if uid = [] then None
     else (case ho_home_of h uid of
        None \<Rightarrow> None
      | Some home \<Rightarrow> if home = [] then None
          else if ho_goos h = ''darwin'' then Some (Join [home, ''Library'', ''Application Support'', ''iron-link''])
          else Some (Join [home, ''.config'', ''iron-link''])))"

definition DefaultDir :: "host \<Rightarrow> string + string" where
  "DefaultDir h =
    (if ho_env h ''IRON_LINK_CONFIG_DIR'' \<noteq> [] then Inr (ho_env h ''IRON_LINK_CONFIG_DIR'')
     else (case (if ho_euid h = 0 then sudoUserConfigDir h else None) of
        Some dir \<Rightarrow> Inr dir
      | None \<Rightarrow> (case ho_config_dir h of Inl e \<Rightarrow> Inl (''resolve config dir: '' @ e) | Inr base \<Rightarrow> Inr (Join [base, ''iron-link'']))))"

definition EnsureTUNPrivilege :: "host \<Rightarrow> string option" where
  "EnsureTUNPrivilege h = (if ho_euid h = 0 then None
     else Some ''TUN mode needs root: start the daemon with sudo. Proxy (SOCKS) mode works without root.'')"

section \<open>The control socket\<close>

definition sudoIDs :: "host \<Rightarrow> (int \<times> int) option" where
  "sudoIDs h = (let us = ho_env h ''SUDO_UID''; gs = ho_env h ''SUDO_GID'' in
     if us = [] \<or> gs = [] then None
     else (case (Atoi us, Atoi gs) of (Some u, Some g) \<Rightarrow> Some (u, g) | _ \<Rightarrow> None))"

text \<open>Permission bits, with octal 600 = 384 and 660 = 432.\<close>

definition socketMode :: "int \<Rightarrow> int \<Rightarrow> bool \<Rightarrow> 9 word" where
  "socketMode euid egid underSudo = (if euid = 0 \<and> \<not> underSudo \<and> egid \<noteq> 0 then 432 else 384)"

record socket =
  sk_owner :: int
  sk_group :: int
  sk_mode :: "9 word"

text \<open>Errors of the system calls; a remove that finds nothing is no error.\<close>

record listen_env =
  le_mkdir :: "string option"
  le_remove :: "string option"
  le_listen :: "string option"
  le_created_mode :: "9 word"
  le_chmod :: "string option"
  le_chown :: "string option"

text \<open>\<^verbatim>\<open>chown(2)\<close> takes 32-bit ids; the all-ones id leaves the field as it is.\<close>

definition chown_id :: "int \<Rightarrow> int \<Rightarrow> int" where
  "chown_id new old = (let i = new mod 2 ^ 32 in if i = 2 ^ 32 - 1 then old else i)"

text \<open>The socket left in the file system, and the listener's error: closing a listener unlinks its socket.\<close>

definition Listen :: "host \<Rightarrow> listen_env \<Rightarrow> socket option \<Rightarrow> socket option \<times> string option" where
  "Listen h le stale =
    (case le_mkdir le of Some e \<Rightarrow> (stale, Some e)
     | None \<Rightarrow> (case le_remove le of Some e \<Rightarrow> (stale, Some e)
     | None \<Rightarrow> (case le_listen le of Some e \<Rightarrow> (None, Some e)
     | None \<Rightarrow>
        (let s = \<lparr>sk_owner = ho_euid h, sk_group = ho_egid h, sk_mode = le_created_mode le\<rparr>; ids = sudoIDs h in
         case le_chmod le of Some e \<Rightarrow> (None, Some e)
         | None \<Rightarrow>
            (let s1 = s\<lparr>sk_mode := socketMode (ho_euid h) (ho_egid h) (ids \<noteq> None)\<rparr> in
             case ids of
               Some (uid, gid) \<Rightarrow>
                 if ho_euid h = 0
                 then (case le_chown le of
                     Some e \<Rightarrow> (None, Some (''chown control socket to invoking user '' @ FormatInt uid @ '':'' @ FormatInt gid @ '': '' @ e))
                   | None \<Rightarrow> (Some (s1\<lparr>sk_owner := chown_id uid (ho_euid h), sk_group := chown_id gid (ho_egid h)\<rparr>), None))
                 else (Some s1, None)
             | None \<Rightarrow> (Some s1, None))))))"

text \<open>The kernel's rule for connecting: write permission in the one class the user falls into; root always.\<close>

definition may_connect :: "int \<Rightarrow> int set \<Rightarrow> socket \<Rightarrow> bool" where
  "may_connect uid groups s =
    (uid = 0 \<or> (if uid = sk_owner s then bit (sk_mode s) 7 else if sk_group s \<in> groups then bit (sk_mode s) 4 else bit (sk_mode s) 1))"

section \<open>Identifiers\<close>

unbundle bit_operations_syntax

definition hex_byte :: "8 word \<Rightarrow> string" where
  "hex_byte b = [digit_char (unat b div 16), digit_char (unat b mod 16)]"

definition stamp_bytes :: "8 word \<Rightarrow> 8 word list \<Rightarrow> 8 word list" where
  "stamp_bytes version b = b[6 := (b ! 6 AND 0x0f) OR version, 8 := (b ! 8 AND 0x3f) OR 0x80]"

definition format :: "8 word list \<Rightarrow> 8 word \<Rightarrow> string" where
  "format b version = (let h = concat (map hex_byte (stamp_bytes version b)) in
     take 8 h @ ''-'' @ take 4 (drop 8 h) @ ''-'' @ take 4 (drop 12 h) @ ''-'' @ take 4 (drop 16 h) @ ''-'' @ drop 20 h)"

text \<open>\<open>random\<close>: sixteen bytes; \<open>sha1\<close>: twenty.\<close>

definition New :: "8 word list \<Rightarrow> string" where
  "New random = format random 0x40"

definition FromName :: "(string \<Rightarrow> 8 word list) \<Rightarrow> string \<Rightarrow> string" where
  "FromName sha1 name = format (take 16 (sha1 (''iron-link:'' @ name))) 0x50"

section \<open>Shape of identifiers\<close>

lemma length_hex: "length (concat (map hex_byte bs)) = 2 * length bs"
  by (induction bs) (simp_all add: hex_byte_def)

lemma length_stamp [simp]: "length (stamp_bytes v b) = length b"
  by (simp add: stamp_bytes_def)

lemma length_format: "length b = 16 \<Longrightarrow> length (format b v) = 36"
  by (simp add: format_def Let_def length_hex)

text \<open>No identifier collides with a tag the engine reserves.\<close>

lemma format_not_reserved:
  assumes "length b = 16"
  shows "format b v \<notin> {[], ''proxy'', ''direct'', ''block'', ''dns-internal''}"
  using length_format [OF assms, of v] by auto

lemma digit_char_inj:
  assumes "m < 16" and "n < 16" and "digit_char m = digit_char n"
  shows "m = n"
proof -
  have "digit_val (digit_char m) = Some m" "digit_val (digit_char n) = Some n"
    by (rule digit_val_char, use assms(1,2) in linarith)+
  with assms(3) show ?thesis by (metis option.inject)
qed

lemma hex_byte_inj: "hex_byte a = hex_byte b \<longleftrightarrow> a = b"
proof
  assume "hex_byte a = hex_byte b"
  moreover have "unat a div 16 < 16" "unat b div 16 < 16"
    using unsigned_less [of a, where ?'a = nat] unsigned_less [of b, where ?'a = nat] by simp_all
  ultimately have "unat a div 16 = unat b div 16" "unat a mod 16 = unat b mod 16"
    by (auto simp: hex_byte_def intro!: digit_char_inj)
  then have "unat a = unat b" by (metis div_mult_mod_eq)
  then show "a = b" by (simp only: word_unat_eq_iff)
qed simp

lemma hex_inj: "length bs = length cs \<Longrightarrow> concat (map hex_byte bs) = concat (map hex_byte cs) \<longleftrightarrow> bs = cs"
proof (induction bs cs rule: list_induct2)
  case (Cons b bs c cs)
  have "length (hex_byte b) = length (hex_byte c)" by (simp add: hex_byte_def)
  with Cons show ?case by (simp add: hex_byte_inj)
qed simp

lemma regroup: "take 8 h @ take 4 (drop 8 h) @ take 4 (drop 12 h) @ take 4 (drop 16 h) @ drop 20 h = h"
proof -
  have cut: "take 4 (drop n h) @ drop (n + 4) h = drop n h" for n using append_take_drop_id [of 4 "drop n h"] by (simp add: add.commute)
  have "take 4 (drop 16 h) @ drop 20 h = drop 16 h" "take 4 (drop 12 h) @ drop 16 h = drop 12 h" "take 4 (drop 8 h) @ drop 12 h = drop 8 h"
    using cut [of 16] cut [of 12] cut [of 8] by simp_all
  then show ?thesis by (simp only: append_take_drop_id)
qed

lemma format_inj:
  assumes "length b = 16" and "length c = 16" and "format b v = format c v"
  shows "stamp_bytes v b = stamp_bytes v c"
proof -
  let ?h = "concat (map hex_byte (stamp_bytes v b))" and ?k = "concat (map hex_byte (stamp_bytes v c))"
  have "length ?h = 32" "length ?k = 32" using assms(1,2) by (simp_all add: length_hex)
  with assms(3) have "take 8 ?h = take 8 ?k \<and> take 4 (drop 8 ?h) = take 4 (drop 8 ?k) \<and> take 4 (drop 12 ?h) = take 4 (drop 12 ?k) \<and>
      take 4 (drop 16 ?h) = take 4 (drop 16 ?k) \<and> drop 20 ?h = drop 20 ?k"
    unfolding format_def Let_def by (simp add: append_eq_append_conv del: take_map drop_map)
  then have "?h = ?k" by (metis regroup)
  then show ?thesis using hex_inj assms(1,2) by simp
qed

section \<open>Properties\<close>

text \<open>Who the socket is for.\<close>

definition admitted :: "host \<Rightarrow> int \<Rightarrow> int set \<Rightarrow> bool" where
  "admitted h u groups = (u = 0 \<or>
     (if ho_euid h = 0
      then (case sudoIDs h of Some (uid, gid) \<Rightarrow> u = chown_id uid 0 | None \<Rightarrow> ho_egid h \<noteq> 0 \<and> ho_egid h \<in> groups)
      else u = ho_euid h))"

lemma mode_bits [simp]:
  "bit (384 :: 9 word) 7" "\<not> bit (384 :: 9 word) 4" "\<not> bit (384 :: 9 word) (Suc 0)"
  "bit (432 :: 9 word) 7" "bit (432 :: 9 word) 4" "\<not> bit (432 :: 9 word) (Suc 0)"
  by code_simp+

lemma Listen_fails: "Listen h le stale = (sock, Some e) \<Longrightarrow> sock = None \<or> sock = stale"
  by (auto simp: Listen_def Let_def split: option.splits if_splits)

lemma Listen_returns: "Listen h le stale = (sock, None) \<Longrightarrow> sock \<noteq> None"
  by (auto simp: Listen_def Let_def split: option.splits if_splits)

lemma Listen_socket:
  assumes "Listen h le stale = (Some s, None)"
  shows "sk_mode s = socketMode (ho_euid h) (ho_egid h) (sudoIDs h \<noteq> None)"
    and "sk_owner s = (case sudoIDs h of Some (uid, gid) \<Rightarrow> if ho_euid h = 0 then chown_id uid 0 else ho_euid h | None \<Rightarrow> ho_euid h)"
    and "sudoIDs h = None \<Longrightarrow> sk_group s = ho_egid h"
  using assms by (auto simp: Listen_def Let_def split: option.splits if_splits)

lemma Listen_admits: "Listen h le stale = (Some s, None) \<Longrightarrow> may_connect u groups s = admitted h u groups"
  by (cases "sudoIDs h") (auto simp: may_connect_def admitted_def Listen_socket socketMode_def)

section \<open>Where a sudo daemon and the user's client meet\<close>

definition runtime_dir :: "nat \<Rightarrow> string" where
  "runtime_dir uid = ''/run/user/'' @ FormatUint 10 uid"

lemma FormatUint_digits: "c \<in> set (FormatUint 10 n) \<Longrightarrow> \<exists>d < 10. c = digit_char d"
proof (induction n rule: less_induct)
  case (less n)
  show ?case
  proof (cases "n < 10")
    case True
    with less.prems show ?thesis by (subst (asm) FormatUint.simps) auto
  next
    case False
    with less.prems have "c \<in> set (FormatUint 10 (n div 10)) \<or> c = digit_char (n mod 10)"
      by (subst (asm) FormatUint.simps) auto
    moreover have "n div 10 < n" "n mod 10 < 10" using False by simp_all
    ultimately show ?thesis using less.IH by blast
  qed
qed

lemma digit_plain: "d < 10 \<Longrightarrow> digit_char d \<notin> {CHR ''/'', CHR ''.'', CHR ''-'', CHR ''+''}"
proof -
  assume "d < 10"
  then have "digit_val (digit_char d) = Some d" by (intro digit_val_char) simp
  moreover have "digit_val (CHR ''/'') = None" "digit_val (CHR ''.'') = None" "digit_val (CHR ''-'') = None" "digit_val (CHR ''+'') = None"
    by code_simp+
  ultimately show ?thesis by auto
qed

lemma FormatUint_chars: "c \<in> set (FormatUint 10 n) \<Longrightarrow> c \<notin> {CHR ''/'', CHR ''.'', CHR ''-'', CHR ''+''}"
proof -
  assume "c \<in> set (FormatUint 10 n)"
  then obtain d where "d < 10" "c = digit_char d" using FormatUint_digits by blast
  then show ?thesis using digit_plain [of d] by simp
qed

lemma FormatUint_plain:
  "CHR ''/'' \<notin> set (FormatUint 10 n)" "FormatUint 10 n \<noteq> ''.''" "FormatUint 10 n \<noteq> ''..''"
  using FormatUint_chars [of "CHR ''/''" n] FormatUint_chars [of "CHR ''.''" n] by auto

lemma Atoi_FormatUint: "n < 2 ^ 63 \<Longrightarrow> Atoi (FormatUint 10 n) = Some (int n)"
proof -
  assume n: "n < 2 ^ 63"
  obtain c r where cr: "FormatUint 10 n = c # r" by (meson FormatUint_not_Nil list.exhaust)
  then have "c \<noteq> CHR ''-''" "c \<noteq> CHR ''+''" using FormatUint_chars [of c n] by auto
  moreover have "ParseUint (c # r) 10 64 = Some n" using n ParseUint_FormatUint [of 10 n 64] cr by simp
  ultimately show ?thesis using n cr by (simp add: Atoi_def)
qed

lemma Join_runtime: "Join [''/run/user'', FormatUint 10 uid] = runtime_dir uid"
  using FormatUint_plain [of uid]
  by (simp add: Join_def Clean_def runtime_dir_def HasPrefix_def Split_absent Let_def)

lemma chown_plain: "0 \<le> i \<Longrightarrow> i < 2 ^ 32 - 1 \<Longrightarrow> chown_id i old = i"
  by (simp add: chown_id_def Let_def)

section \<open>Properties\<close>

text \<open>
  C14. The socket is the authentication. Whenever listening succeeds, those who may connect are root and exactly: the user who invoked \<^verbatim>\<open>sudo\<close>, when the
  daemon is root under \<^verbatim>\<open>sudo\<close>; the members of the service's group, when it is root with a group of its own; the daemon's own user otherwise. When
  listening fails, no socket of this run is left.
\<close>

theorem socket_access:
  "case Listen h le stale of
     (sock, Some e) \<Rightarrow> sock \<in> {None, stale}
   | (None, None) \<Rightarrow> False
   | (Some s, None) \<Rightarrow> may_connect u groups s = admitted h u groups"
proof (cases "Listen h le stale")
  case (Pair sock err)
  then show ?thesis
    using Listen_fails [of h le stale sock] Listen_returns [of h le stale sock] Listen_admits [of h le stale _ u groups]
    by (cases err; cases sock) auto
qed

text \<open>
  A daemon under \<^verbatim>\<open>sudo\<close> and the user's client meet. When the invoking user's runtime directory exists, the root daemon's socket path is the one the
  user's own client computes from its \<^verbatim>\<open>XDG_RUNTIME_DIR\<close>, and the socket is that user's.
\<close>

theorem sudo_socket_agrees:
  assumes "ho_euid daemon = 0" and "ho_env daemon ''SUDO_UID'' = FormatUint 10 uid" and "ho_is_dir daemon (runtime_dir uid)"
    and "ho_env daemon ''SUDO_GID'' = FormatUint 10 gid" and "uid < 2 ^ 32 - 1" and "gid < 2 ^ 32 - 1"
    and "ho_env client ''XDG_RUNTIME_DIR'' = runtime_dir uid" and "ho_euid client = int uid" and "uid \<noteq> 0"
    and "ho_env daemon ''IRON_LINK_SOCKET'' = ho_env client ''IRON_LINK_SOCKET''"
    and "Listen daemon le stale = (Some s, None)"
  shows "resolveAddr daemon = resolveAddr client \<and> may_connect (ho_euid client) groups s"
proof
  have "runtime_dir uid \<noteq> []" by (simp add: runtime_dir_def)
  then show "resolveAddr daemon = resolveAddr client"
    using assms by (simp add: resolveAddr_def Let_def Join_runtime)
  have "sudoIDs daemon = Some (int uid, int gid)"
    using assms(2,4-6) by (simp add: sudoIDs_def Let_def Atoi_FormatUint)
  then have "admitted daemon (ho_euid client) groups"
    using assms(1,5,8) by (simp add: admitted_def chown_plain)
  with Listen_admits [OF assms(11)] show "may_connect (ho_euid client) groups s" by simp
qed

definition user_1000 :: host where
  "user_1000 = \<lparr>ho_env = (\<lambda>_. [])(''XDG_RUNTIME_DIR'' := ''/run/user/1000''), ho_euid = 1000, ho_egid = 1000, ho_goos = ''linux'',
     ho_home = ''/home/u'', ho_config_dir = Inr ''/home/u/.config'', ho_is_dir = (\<lambda>d. d = ''/run/user/1000''), ho_home_of = (\<lambda>_. None)\<rparr>"

definition sudo_1000 :: host where
  "sudo_1000 = \<lparr>ho_env = (\<lambda>_. [])(''SUDO_UID'' := ''1000'', ''SUDO_GID'' := ''1000''), ho_euid = 0, ho_egid = 0, ho_goos = ''linux'',
     ho_home = ''/root'', ho_config_dir = Inr ''/root/.config'', ho_is_dir = (\<lambda>d. d = ''/run/user/1000''),
     ho_home_of = (\<lambda>u. if u = ''1000'' then Some ''/home/u'' else None)\<rparr>"

definition quiet_listen :: listen_env where
  "quiet_listen = \<lparr>le_mkdir = None, le_remove = None, le_listen = None, le_created_mode = 493, le_chmod = None, le_chown = None\<rparr>"

theorem sudo_socket_agrees_witness:
  "resolveAddr sudo_1000 = resolveAddr user_1000 \<and> may_connect 1000 {1000} \<lparr>sk_owner = 1000, sk_group = 1000, sk_mode = 384\<rparr>"
proof -
  have f: "FormatUint 10 1000 = ''1000''" by (simp add: FormatUint.simps digit_char_def; code_simp)
  then have "runtime_dir 1000 = ''/run/user/1000''" by (simp add: runtime_dir_def)
  moreover have "sudoIDs sudo_1000 = Some (1000, 1000)"
    using Atoi_FormatUint [of 1000] f by (simp add: sudoIDs_def sudo_1000_def)
  then have "Listen sudo_1000 quiet_listen None = (Some \<lparr>sk_owner = 1000, sk_group = 1000, sk_mode = 384\<rparr>, None)"
    by (simp add: Listen_def quiet_listen_def sudo_1000_def socketMode_def chown_id_def)
  moreover note f
  ultimately show ?thesis
    using sudo_socket_agrees [of sudo_1000 1000 1000 user_1000 quiet_listen None "\<lparr>sk_owner = 1000, sk_group = 1000, sk_mode = 384\<rparr>" "{1000}"]
    by (simp add: sudo_1000_def user_1000_def)
qed

text \<open>
  Without that runtime directory they part: the settings of a \<^verbatim>\<open>sudo\<close> daemon are the invoking user's, but its socket is under root's home, while the
  user's client looks beside the settings.
\<close>

theorem sudo_socket_strays:
  "let daemon = sudo_1000\<lparr>ho_is_dir := (\<lambda>_. False)\<rparr>; client = user_1000\<lparr>ho_env := (\<lambda>_. [])\<rparr> in
   DefaultDir daemon = Inr ''/home/u/.config/iron-link'' \<and>
   resolveAddr daemon = ''/root/.config/iron-link/iron-link.sock'' \<and>
   resolveAddr client = ''/home/u/.config/iron-link/iron-link.sock''"
  by code_simp

end
