(* ===== verification/Host_Service.thy ===== *)
theory Host_Service
  imports Host_Paths Manager_Session
begin

text \<open>
  The daemon process (\<^verbatim>\<open>cmd/iron-link-daemon/main.go\<close>), its accept loop (\<^verbatim>\<open>ipc/server.go\<close>) and its life as a Windows service
  (\<^verbatim>\<open>service_windows.go\<close>, \<^verbatim>\<open>service_other.go\<close>).

  The service control manager and the registry are reached through the package \<^verbatim>\<open>golang.org/x/sys/windows/svc/mgr\<close>: a record of functions over a
  state the code never looks into, with \<open>scm_lawful\<close> the documented behaviour it relies on. Handles are left out: they are closed on every path. The
  running process is a \<open>daemon\<close>: the manager, the work between two of its locked sections, and how far \<^verbatim>\<open>run\<close> has come.

  Main results: an installation that reports success left one complete registration, and one that fails on a fresh host left none unless deleting it failed too; waiting for the
  service to stop ends; the service answers for its exit code; and two ways in which a session outlives the daemon.
\<close>

section \<open>Entry\<close>

text \<open>\<open>settings\<close>: the build settings the toolchain recorded, \<open>None\<close> when it recorded none.\<close>

fun vcs_revision :: "(string \<times> string) list \<Rightarrow> string option" where
  "vcs_revision [] = None"
| "vcs_revision ((k, v) # rest) = (if k = ''vcs.revision'' \<and> v \<noteq> [] then Some (take 12 v) else vcs_revision rest)"

definition versionString :: "string \<Rightarrow> (string \<times> string) list option \<Rightarrow> string" where
  "versionString stamp build =
    ''iron-link-daemon '' @ (if stamp = ''dev'' then (case Option.bind build vcs_revision of
       None \<Rightarrow> stamp | Some revision \<Rightarrow> ''dev ('' @ revision @ '')'') else stamp)"

datatype service_command =
    Install "string list"
  | Uninstall
  | Start
  | StopService

datatype entry_point =
    PrintVersion
  | Command service_command
  | ServiceLoop
  | Foreground
  | UnknownCommand string
  | ServiceModeError string

definition handleServiceCommand :: "string list \<Rightarrow> entry_point" where
  "handleServiceCommand args =
    (if hd args = ''install'' then Command (Install (tl args))
     else if hd args = ''uninstall'' then Command Uninstall
     else if hd args = ''start'' then Command Start
     else if hd args = ''stop'' then Command StopService
     else UnknownCommand (hd args))"

text \<open>\<open>service\<close>: whether the process was started by the service manager, or why that cannot be told.\<close>

definition maybeRunWindows :: "bool \<Rightarrow> string list \<Rightarrow> string + bool \<Rightarrow> entry_point" where
  "maybeRunWindows windows args service =
    (if \<not> windows then Foreground
     else if args \<noteq> [] then handleServiceCommand args
     else (case service of
        Inl e \<Rightarrow> ServiceModeError (''detect service mode: '' @ e)
      | Inr inService \<Rightarrow> if inService then ServiceLoop else Foreground))"

definition main_entry :: "bool \<Rightarrow> string list \<Rightarrow> string + bool \<Rightarrow> entry_point" where
  "main_entry windows args service =
    (if args \<noteq> [] \<and> hd args \<in> {''--version'', ''-version'', ''version''} then PrintVersion
     else maybeRunWindows windows args service)"

fun flagValue :: "string list \<Rightarrow> string \<Rightarrow> string" where
  "flagValue (a # b # args) name = (if a = name then b else flagValue (b # args) name)"
| "flagValue _ name = []"

section \<open>The service manager\<close>

datatype start_type = StartAutomatic | StartManual | StartDisabled

datatype svc_state = Stopped | StartPending | StopPending | Running | OtherState

record service_config =
  cf_binary :: string
  cf_start :: start_type
  cf_delayed :: bool
  cf_display :: string
  cf_description :: string
  cf_error_normal :: bool
  cf_account :: string

text \<open>A registered service; restart actions by their delay in seconds.\<close>

record service =
  sv_config :: service_config
  sv_env :: "string list option"
  sv_recovery :: "(nat list \<times> nat) option"
  sv_noncrash :: bool

type_synonym 's effect = "'s \<Rightarrow> 's \<times> string option"

record 's scm_api =
  ap_escape :: "string \<Rightarrow> string"
  ap_connect :: "'s \<Rightarrow> string option"
  ap_open :: "'s \<Rightarrow> string option"
  ap_config :: "'s \<Rightarrow> string + service_config"
  ap_update :: "service_config \<Rightarrow> 's effect"
  ap_create :: "service_config \<Rightarrow> 's effect"
  ap_delete :: "'s effect"
  ap_recovery :: "nat list \<Rightarrow> nat \<Rightarrow> 's effect"
  ap_noncrash :: "bool \<Rightarrow> 's effect"
  ap_set_env :: "string list \<Rightarrow> 's effect"
  ap_start :: "'s effect"
  ap_stop :: "'s \<Rightarrow> 's \<times> (string + svc_state)"

text \<open>An effect, its error wrapped; the next one only when there was none.\<close>

definition wrapped :: "string \<Rightarrow> 's effect \<Rightarrow> 's effect" where
  "wrapped prefix f s = (case f s of (s', None) \<Rightarrow> (s', None) | (s', Some e) \<Rightarrow> (s', Some (prefix @ e)))"

definition then_effect :: "'s effect \<Rightarrow> 's effect \<Rightarrow> 's effect" where
  "then_effect f g s = (case f s of (s', None) \<Rightarrow> g s' | (s', Some e) \<Rightarrow> (s', Some e))"

text \<open>An effect whose failure is undone by another, itself best effort.\<close>

definition or_undo :: "'s effect \<Rightarrow> 's effect \<Rightarrow> 's effect" where
  "or_undo f undo s = (case f s of (s', None) \<Rightarrow> (s', None) | (s', Some e) \<Rightarrow> (fst (undo s'), Some e))"

definition recovery_delays :: "nat list" where
  "recovery_delays = [5, 30, 60]"

definition hardenService :: "'s scm_api \<Rightarrow> 's effect" where
  "hardenService api =
    then_effect (wrapped ''set recovery actions: '' (ap_recovery api recovery_delays 86400))
      (wrapped ''set recovery on non-crash failures: '' (ap_noncrash api True))"

definition serviceEnv :: "string \<Rightarrow> string \<Rightarrow> string list" where
  "serviceEnv override configDir = (''IRON_LINK_CONFIG_DIR='' @ configDir) #
     (if override \<noteq> [] then [''IRON_LINK_UPDATE_URL='' @ override] else [])"

definition fresh_config :: "string \<Rightarrow> service_config" where
  "fresh_config exe = \<lparr>cf_binary = exe, cf_start = StartAutomatic, cf_delayed = True, cf_display = ''iron-link daemon'',
     cf_description = ''iron-link proxy/VPN daemon (embedded sing-box + xray).'', cf_error_normal = True, cf_account = []\<rparr>"

definition refresh_service :: "'s scm_api \<Rightarrow> string \<Rightarrow> string list \<Rightarrow> 's effect" where
  "refresh_service api exe env s = (case ap_config api s of
     Inl e \<Rightarrow> (s, Some (''read service config: '' @ e))
   | Inr cfg \<Rightarrow>
       then_effect (wrapped ''update service config: ''
           (ap_update api (cfg\<lparr>cf_binary := ap_escape api exe, cf_start := StartAutomatic, cf_delayed := True\<rparr>)))
         (then_effect (hardenService api) (ap_set_env api env)) s)"

definition create_service :: "'s scm_api \<Rightarrow> string \<Rightarrow> string list \<Rightarrow> 's effect" where
  "create_service api exe env =
    then_effect (ap_create api (fresh_config exe))
      (then_effect (or_undo (wrapped ''set service environment: '' (ap_set_env api env)) (ap_delete api))
        (or_undo (hardenService api) (ap_delete api)))"

definition install_dir :: "host \<Rightarrow> string list \<Rightarrow> string + string" where
  "install_dir h args = (let configDir = flagValue args ''--config-dir'' in if configDir = [] then DefaultDir h else Inr configDir)"

definition installService :: "'s scm_api \<Rightarrow> host \<Rightarrow> string + string \<Rightarrow> string list \<Rightarrow> 's effect" where
  "installService api h executable args s = (case executable of
     Inl e \<Rightarrow> (s, Some e)
   | Inr exe \<Rightarrow> (case install_dir h args of
       Inl e \<Rightarrow> (s, Some e)
     | Inr configDir \<Rightarrow>
         (let env = serviceEnv (ho_env h ''IRON_LINK_UPDATE_URL'') configDir in
          case ap_connect api s of
            Some e \<Rightarrow> (s, Some e)
          | None \<Rightarrow> if ap_open api s = None then refresh_service api exe env s else create_service api exe env s)))"

definition not_installed :: string where
  "not_installed = ''service \"iron-link\" is not installed''"

definition openService :: "'s scm_api \<Rightarrow> 's \<Rightarrow> string option" where
  "openService api s = (case ap_connect api s of Some e \<Rightarrow> Some e | None \<Rightarrow> if ap_open api s = None then None else Some not_installed)"

definition uninstallService :: "'s scm_api \<Rightarrow> 's effect" where
  "uninstallService api s = (case openService api s of
     Some e \<Rightarrow> (s, Some e)
   | None \<Rightarrow>
       (let s1 = (case ap_config api s of Inl e \<Rightarrow> s | Inr cfg \<Rightarrow> fst (ap_update api (cfg\<lparr>cf_start := StartDisabled\<rparr>) s));
            s2 = fst (ap_stop api s1) in
        ap_delete api s2))"

definition startService :: "'s scm_api \<Rightarrow> 's effect" where
  "startService api s = (case openService api s of Some e \<Rightarrow> (s, Some e) | None \<Rightarrow> ap_start api s)"

text \<open>\<open>now i\<close> and \<open>query i\<close>: the clock in milliseconds and the answer to a query in round \<open>i\<close>.\<close>

partial_function (option) await_stopped :: "(nat \<Rightarrow> int) \<Rightarrow> (nat \<Rightarrow> string + svc_state) \<Rightarrow> int \<Rightarrow> nat \<Rightarrow> svc_state \<Rightarrow> string option option" where
  "await_stopped now query deadline i state =
    (if state = Stopped then Some None
     else if now i > deadline then Some (Some ''timed out waiting for \"iron-link\" to stop'')
     else (case query i of Inl e \<Rightarrow> Some (Some e) | Inr state' \<Rightarrow> await_stopped now query deadline (Suc i) state'))"

definition stopService :: "'s scm_api \<Rightarrow> int \<Rightarrow> (nat \<Rightarrow> int) \<Rightarrow> (nat \<Rightarrow> string + svc_state) \<Rightarrow> 's \<Rightarrow> string option option" where
  "stopService api t now query s = (case openService api s of
     Some e \<Rightarrow> Some (Some e)
   | None \<Rightarrow> (case snd (ap_stop api s) of
       Inl e \<Rightarrow> Some (Some e)
     | Inr state \<Rightarrow> await_stopped now query (t + 15000) 0 state))"

section \<open>The service loop\<close>

text \<open>What \<^verbatim>\<open>Execute\<close> receives, in order: requests of the service manager, and the return of \<^verbatim>\<open>run\<close>.\<close>

datatype svc_event =
    Interrogate svc_state
  | StopRequest
  | ShutdownRequest
  | OtherRequest
  | RunReturned "string option"

fun await_run :: "svc_event list \<Rightarrow> nat option" where
  "await_run [] = None"
| "await_run (RunReturned r # es) = Some 0"
| "await_run (_ # es) = await_run es"

fun serve_requests :: "svc_event list \<Rightarrow> svc_state list \<times> nat option" where
  "serve_requests [] = ([], None)"
| "serve_requests (Interrogate current # es) = (case serve_requests es of (out, code) \<Rightarrow> (current # out, code))"
| "serve_requests (OtherRequest # es) = serve_requests es"
| "serve_requests (StopRequest # es) = ([StopPending], await_run es)"
| "serve_requests (ShutdownRequest # es) = ([StopPending], await_run es)"
| "serve_requests (RunReturned r # es) = ([], Some (if r = None then 0 else 1))"

text \<open>The states reported and the exit code, \<open>None\<close> while the loop still waits.\<close>

definition Execute :: "svc_event list \<Rightarrow> svc_state list \<times> nat option" where
  "Execute es = (case serve_requests es of (out, code) \<Rightarrow> (StartPending # Running # out, code))"

section \<open>The running daemon\<close>

datatype 'c accepted = Accepted 'c | ListenerClosed | AcceptError string

text \<open>The connections handed to a goroutine of their own, and the result; \<open>None\<close> while it waits for the next connection.\<close>

fun Serve :: "'c accepted list \<Rightarrow> 'c list \<times> string option option" where
  "Serve [] = ([], None)"
| "Serve (Accepted c # as) = (case Serve as of (cs, r) \<Rightarrow> (c # cs, r))"
| "Serve (ListenerClosed # as) = ([], Some None)"
| "Serve (AcceptError e # as) = ([], Some (Some e))"

datatype phase =
    Serving
  | ShutDown
  | Exited "string option"

record daemon =
  dm_manager :: manager
  dm_pending :: "pending list"
  dm_phase :: phase

text \<open>The start of \<^verbatim>\<open>run\<close>: open the store, listen, build the manager.\<close>

definition run_start :: "host \<Rightarrow> listen_env \<Rightarrow> socket option \<Rightarrow> store_fs \<Rightarrow> entry option \<Rightarrow> daemon" where
  "run_start h le stale fs settings = \<lparr>dm_manager = newManager fs settings, dm_pending = [],
     dm_phase = (case DefaultDir h of
        Inl e \<Rightarrow> Exited (Some e)
      | Inr dir \<Rightarrow> (case snd (Listen h le stale) of Some e \<Rightarrow> Exited (Some e) | None \<Rightarrow> Serving))\<rparr>"

text \<open>The two arms of the final select, and the return after a shutdown.\<close>

definition run_cancelled :: "daemon \<Rightarrow> daemon" where
  "run_cancelled d = d\<lparr>dm_manager := shutdown (dm_manager d), dm_phase := ShutDown\<rparr>"

definition run_served :: "string option \<Rightarrow> daemon \<Rightarrow> daemon" where
  "run_served err d = d\<lparr>dm_phase := Exited err\<rparr>"

text \<open>
  The listener is closed by a deferred call, when \<^verbatim>\<open>run\<close> returns: until then connections are accepted and verbs run.
\<close>

inductive daemon_step :: "daemon_env \<Rightarrow> daemon \<Rightarrow> daemon \<Rightarrow> bool" for dv where
  work: "dm_phase d \<in> {Serving, ShutDown} \<Longrightarrow> session_step dv (dm_manager d, dm_pending d) (m, P) \<Longrightarrow>
    daemon_step dv d (d\<lparr>dm_manager := m, dm_pending := P\<rparr>)"
| cancel: "dm_phase d = Serving \<Longrightarrow> daemon_step dv d (run_cancelled d)"
| leave: "dm_phase d = ShutDown \<Longrightarrow> daemon_step dv d (d\<lparr>dm_phase := Exited None\<rparr>)"
| served: "dm_phase d = Serving \<Longrightarrow> snd (Serve (conns :: nat accepted list)) = Some err \<Longrightarrow> daemon_step dv d (run_served err d)"

inductive daemon_reachable :: "daemon_env \<Rightarrow> daemon \<Rightarrow> bool" for dv where
  start: "daemon_reachable dv (run_start h le stale fs settings)"
| step: "daemon_reachable dv d \<Longrightarrow> daemon_step dv d d' \<Longrightarrow> daemon_reachable dv d'"

section \<open>What the service manager promises\<close>

text \<open>
  \<open>view\<close> reads the registration of \<^verbatim>\<open>iron-link\<close>, a service marked for deletion counting as gone. A write that fails may be done in part, but neither
  registers nor removes the service. \<^verbatim>\<open>CreateService\<close> quotes the path, and fails when the name is taken.
\<close>

definition effect_law :: "('s \<Rightarrow> service option) \<Rightarrow> 's effect \<Rightarrow> (service \<Rightarrow> service) \<Rightarrow> bool" where
  "effect_law view f g = (\<forall>s s' e. f s = (s', e) \<longrightarrow>
     (if e = None then view s' = map_option g (view s) else view s' = None \<longleftrightarrow> view s = None))"

definition created :: "'s scm_api \<Rightarrow> service_config \<Rightarrow> service" where
  "created api c = \<lparr>sv_config = c\<lparr>cf_binary := ap_escape api (cf_binary c)\<rparr>, sv_env = None, sv_recovery = None, sv_noncrash = False\<rparr>"

definition scm_lawful :: "'s scm_api \<Rightarrow> ('s \<Rightarrow> service option) \<Rightarrow> bool" where
  "scm_lawful api view = (
     (\<forall>s. ap_open api s = None \<longrightarrow> view s \<noteq> None) \<and>
     (\<forall>s c. ap_config api s = Inr c \<longrightarrow> map_option sv_config (view s) = Some c) \<and>
     (\<forall>c. effect_law view (ap_update api c) (\<lambda>sv. sv\<lparr>sv_config := c\<rparr>)) \<and>
     (\<forall>ds reset. effect_law view (ap_recovery api ds reset) (\<lambda>sv. sv\<lparr>sv_recovery := Some (ds, reset)\<rparr>)) \<and>
     (\<forall>on. effect_law view (ap_noncrash api on) (\<lambda>sv. sv\<lparr>sv_noncrash := on\<rparr>)) \<and>
     (\<forall>env. effect_law view (ap_set_env api env) (\<lambda>sv. sv\<lparr>sv_env := Some env\<rparr>)) \<and>
     (\<forall>c s s' e. ap_create api c s = (s', e) \<longrightarrow>
        (if e = None then view s = None \<and> view s' = Some (created api c) else view s' = view s)) \<and>
     (\<forall>s s' e. ap_delete api s = (s', e) \<longrightarrow> (if e = None then view s' = None else view s' = view s)))"

lemma effect_law_wrapped: "effect_law view f g \<Longrightarrow> effect_law view (wrapped p f) g"
  by (fastforce simp: effect_law_def wrapped_def split: prod.splits option.splits if_splits)

lemma effect_law_then: "effect_law view f g \<Longrightarrow> effect_law view f' g' \<Longrightarrow> effect_law view (then_effect f f') (\<lambda>sv. g' (g sv))"
  unfolding effect_law_def
proof (intro allI impI)
  fix s s' e
  assume f: "\<forall>s s' e. f s = (s', e) \<longrightarrow> (if e = None then view s' = map_option g (view s) else (view s' = None) = (view s = None))"
    and f': "\<forall>s s' e. f' s = (s', e) \<longrightarrow> (if e = None then view s' = map_option g' (view s) else (view s' = None) = (view s = None))"
    and run: "then_effect f f' s = (s', e)"
  obtain s1 e1 where one: "f s = (s1, e1)" by (cases "f s")
  show "if e = None then view s' = map_option (\<lambda>sv. g' (g sv)) (view s) else (view s' = None) = (view s = None)"
  proof (cases e1)
    case None
    then have "f' s1 = (s', e)" using run one by (simp add: then_effect_def)
    with f' have "if e = None then view s' = map_option g' (view s1) else (view s' = None) = (view s1 = None)" by blast
    moreover have "view s1 = map_option g (view s)" using f one None by fastforce
    ultimately show ?thesis by (auto simp: option.map_comp comp_def split: if_splits)
  next
    case (Some x)
    then have "s' = s1" "e = Some x" using run one by (simp_all add: then_effect_def)
    with f one Some show ?thesis by (metis option.distinct(1))
  qed
qed

lemma harden_law:
  assumes "scm_lawful api view"
  shows "effect_law view (hardenService api) (\<lambda>sv. sv\<lparr>sv_recovery := Some (recovery_delays, 86400), sv_noncrash := True\<rparr>)"
proof -
  have "effect_law view (ap_recovery api recovery_delays 86400) (\<lambda>sv. sv\<lparr>sv_recovery := Some (recovery_delays, 86400)\<rparr>)"
    and "effect_law view (ap_noncrash api True) (\<lambda>sv. sv\<lparr>sv_noncrash := True\<rparr>)"
    using assms by (simp_all add: scm_lawful_def)
  from effect_law_then [OF effect_law_wrapped [OF this(1)] effect_law_wrapped [OF this(2)]]
  show ?thesis by (simp add: hardenService_def)
qed

text \<open>A complete registration.\<close>

definition registered :: "'s scm_api \<Rightarrow> string \<Rightarrow> string list \<Rightarrow> service \<Rightarrow> bool" where
  "registered api exe env sv = (cf_binary (sv_config sv) = ap_escape api exe \<and> cf_start (sv_config sv) = StartAutomatic \<and>
     cf_delayed (sv_config sv) \<and> sv_env sv = Some env \<and> sv_recovery sv = Some (recovery_delays, 86400) \<and> sv_noncrash sv)"

lemma refresh_registers:
  assumes law: "scm_lawful api view" and run: "refresh_service api exe env s = (s', e)"
  shows "if e = None then \<exists>sv. view s' = Some sv \<and> registered api exe env sv else (view s' = None) = (view s = None)"
proof (cases "ap_config api s")
  case (Inl x)
  then show ?thesis using run by (auto simp: refresh_service_def)
next
  case (Inr cfg)
  let ?cfg = "cfg\<lparr>cf_binary := ap_escape api exe, cf_start := StartAutomatic, cf_delayed := True\<rparr>"
  have "effect_law view (ap_update api ?cfg) (\<lambda>sv. sv\<lparr>sv_config := ?cfg\<rparr>)"
    and "effect_law view (ap_set_env api env) (\<lambda>sv. sv\<lparr>sv_env := Some env\<rparr>)"
    using law by (simp_all add: scm_lawful_def)
  from effect_law_then [OF effect_law_wrapped [OF this(1)] effect_law_then [OF harden_law [OF law] this(2)]]
  have "if e = None then view s' = map_option (\<lambda>sv. sv\<lparr>sv_config := ?cfg, sv_recovery := Some (recovery_delays, 86400), sv_noncrash := True,
      sv_env := Some env\<rparr>) (view s) else (view s' = None) = (view s = None)"
    using run Inr unfolding effect_law_def refresh_service_def by simp
  moreover obtain sv where "view s = Some sv" using law Inr unfolding scm_lawful_def by fastforce
  ultimately show ?thesis by (auto simp: registered_def split: if_splits)
qed

text \<open>Between \<open>s\<close> and \<open>s'\<close> an entry was created, and the call that was to delete it again failed.\<close>

definition undo_failed :: "'s scm_api \<Rightarrow> ('s \<Rightarrow> service option) \<Rightarrow> 's \<Rightarrow> 's \<Rightarrow> bool" where
  "undo_failed api view s s' = (view s = None \<and> (\<exists>t x. view t \<noteq> None \<and> ap_delete api t = (s', Some x)))"

lemma undo_left:
  assumes "scm_lawful api view" and "view s = None"
  shows "view (fst (ap_delete api t)) = None \<or> undo_failed api view s (fst (ap_delete api t))"
proof (cases "ap_delete api t")
  case (Pair t' x)
  with assms(1) have "if x = None then view t' = None else view t' = view t" unfolding scm_lawful_def by blast
  with Pair assms(2) show ?thesis by (cases x) (auto simp: undo_failed_def)
qed

lemma create_registers:
  assumes law: "scm_lawful api view" and run: "create_service api exe env s = (s', e)"
  shows "if e = None then \<exists>sv. view s' = Some sv \<and> registered api exe env sv else view s' = view s \<or> undo_failed api view s s'"
proof -
  note gone = undo_left [OF law, of s]
  obtain s1 e1 where c: "ap_create api (fresh_config exe) s = (s1, e1)" by (cases "ap_create api (fresh_config exe) s")
  then have c1: "if e1 = None then view s = None \<and> view s1 = Some (created api (fresh_config exe)) else view s1 = view s"
    using law unfolding scm_lawful_def by blast
  obtain s2 e2 where w: "wrapped ''set service environment: '' (ap_set_env api env) s1 = (s2, e2)"
    by (cases "wrapped ''set service environment: '' (ap_set_env api env) s1")
  have "effect_law view (ap_set_env api env) (\<lambda>sv. sv\<lparr>sv_env := Some env\<rparr>)" using law by (simp add: scm_lawful_def)
  from effect_law_wrapped [OF this] w have w2: "e2 = None \<Longrightarrow> view s2 = map_option (\<lambda>sv. sv\<lparr>sv_env := Some env\<rparr>) (view s1)"
    unfolding effect_law_def by fastforce
  obtain s3 e3 where h: "hardenService api s2 = (s3, e3)" by (cases "hardenService api s2")
  then have h3: "e3 = None \<Longrightarrow> view s3 = map_option (\<lambda>sv. sv\<lparr>sv_recovery := Some (recovery_delays, 86400), sv_noncrash := True\<rparr>) (view s2)"
    using harden_law [OF law] unfolding effect_law_def by fastforce
  show ?thesis
    using run c c1 w w2 h h3 gone
    by (cases e1; cases e2; cases e3)
       (auto simp: create_service_def then_effect_def or_undo_def registered_def created_def fresh_config_def)
qed

section \<open>Waiting for the service\<close>

lemma await_stopped_returns:
  assumes "\<And>i. now i + 300 \<le> now (Suc i)"
  shows "\<exists>r. await_stopped now query deadline i state = Some r \<and> (r = None \<longrightarrow> state = Stopped \<or> (\<exists>j. query j = Inr Stopped))"
proof (induction "nat (deadline + 300 - now i)" arbitrary: i state rule: less_induct)
  case less
  show ?case
  proof (cases "state = Stopped \<or> now i > deadline")
    case True
    then show ?thesis by (subst await_stopped.simps) auto
  next
    case False
    then have "nat (deadline + 300 - now (Suc i)) < nat (deadline + 300 - now i)" using assms [of i] by simp
    then have rest: "\<exists>r. await_stopped now query deadline (Suc i) state' = Some r \<and> (r = None \<longrightarrow> state' = Stopped \<or> (\<exists>j. query j = Inr Stopped))"
      for state' using less by blast
    show ?thesis
    proof (cases "query i")
      case (Inl e)
      then show ?thesis using False by (subst await_stopped.simps) simp
    next
      case (Inr state')
      then have "await_stopped now query deadline i state = await_stopped now query deadline (Suc i) state'"
        using False by (subst await_stopped.simps) simp
      with rest [of state'] Inr show ?thesis by auto
    qed
  qed
qed

section \<open>The daemon while it serves\<close>

lemma serving_reachable: "daemon_reachable dv d \<Longrightarrow> dm_phase d = Serving \<Longrightarrow> session_reachable dv (dm_manager d, dm_pending d)"
proof (induction rule: daemon_reachable.induct)
  case (start h le stale fs settings)
  then show ?case by (simp add: run_start_def session_reachable.boot)
next
  case (step d d')
  from step.hyps(2) step.IH step.prems show ?case
    by cases (auto simp: run_cancelled_def run_served_def intro: session_reachable.step)
qed

lemma reachable_serving:
  "session_reachable dv s \<Longrightarrow> \<exists>d. daemon_reachable dv d \<and> dm_phase d = Serving \<and> (dm_manager d, dm_pending d) = s"
proof (induction rule: session_reachable.induct)
  case (boot fs settings)
  have "dm_phase (run_start user_1000 quiet_listen None fs settings) = Serving"
    by (simp add: run_start_def DefaultDir_def Listen_def sudoIDs_def user_1000_def quiet_listen_def)
  then show ?case using daemon_reachable.start [of dv user_1000 quiet_listen None fs settings] by (fastforce simp: run_start_def)
next
  case (step s s')
  then obtain d where d: "daemon_reachable dv d" "dm_phase d = Serving" "(dm_manager d, dm_pending d) = s" by blast
  obtain m P where s': "s' = (m, P)" by fastforce
  let ?d = "d\<lparr>dm_manager := m, dm_pending := P\<rparr>"
  have "daemon_step dv d ?d" using d step.hyps(2) s' by (intro daemon_step.work) simp_all
  with d(1) have "daemon_reachable dv ?d" by (rule daemon_reachable.step)
  with d(2) s' show ?case by (intro exI [of _ ?d]) simp
qed

lemma await_run_iff: "await_run es = Some c \<longleftrightarrow> c = 0 \<and> (\<exists>r. RunReturned r \<in> set es)"
  by (induction es rule: await_run.induct) auto

lemma Execute_code: "snd (Execute es) = snd (serve_requests es)"
  by (simp add: Execute_def split: prod.splits)

lemma serve_requests_returned: "snd (serve_requests es) = Some c \<Longrightarrow> \<exists>r. RunReturned r \<in> set es"
  by (induction es rule: serve_requests.induct) (auto simp: await_run_iff split: prod.splits)

lemma serve_requests_first:
  "set pre \<inter> range RunReturned = {} \<Longrightarrow> snd (serve_requests (pre @ RunReturned r # post)) =
     Some (if r = None \<or> StopRequest \<in> set pre \<or> ShutdownRequest \<in> set pre then 0 else 1)"
proof (induction pre)
  case (Cons x pre)
  then show ?case by (cases x) (auto simp: await_run_iff split: prod.splits)
qed simp

section \<open>Properties\<close>

text \<open>
  C37. Installing is complete or leaves the host as it was. When \<^verbatim>\<open>installService\<close> reports success, whether the service was there before or not, its
  registration is complete: the quoted path, delayed automatic start, the environment with the config directory, the three restart delays, and restarts
  after an exit with an error. When it fails, the service is registered exactly if it was before, with one exception: the code ignores the error of the
  call that deletes the entry it has just created, so an entry stays behind exactly when that call failed too.
\<close>

theorem install_complete_or_absent:
  assumes "scm_lawful api view" and "installService api h (Inr exe) args s = (s', e)"
  shows "if e = None
    then \<exists>dir sv. install_dir h args = Inr dir \<and> view s' = Some sv \<and>
      registered api exe (serviceEnv (ho_env h ''IRON_LINK_UPDATE_URL'') dir) sv
    else (view s' = None) = (view s = None) \<or>
      (view s = None \<and> (\<exists>t x. view t \<noteq> None \<and> ap_delete api t = (s', Some x)))"
proof (cases "install_dir h args")
  case (Inl x)
  then show ?thesis using assms(2) by (auto simp: installService_def)
next
  case (Inr dir)
  let ?env = "serviceEnv (ho_env h ''IRON_LINK_UPDATE_URL'') dir"
  consider x where "ap_connect api s = Some x" | "ap_connect api s = None" "ap_open api s = None" | "ap_connect api s = None" "ap_open api s \<noteq> None"
    by blast
  then show ?thesis
  proof cases
    case 1
    then show ?thesis using assms(2) Inr by (auto simp: installService_def)
  next
    case 2
    then have "refresh_service api exe ?env s = (s', e)" using assms(2) Inr by (simp add: installService_def)
    from refresh_registers [OF assms(1) this] Inr show ?thesis by simp
  next
    case 3
    then have "create_service api exe ?env s = (s', e)" using assms(2) Inr by (auto simp: installService_def Let_def)
    from create_registers [OF assms(1) this] Inr show ?thesis by (auto simp: undo_failed_def split: if_splits)
  qed
qed

text \<open>A service manager of one service, whose calls never fail.\<close>

definition plain_scm :: "service option scm_api" where
  "plain_scm = \<lparr>ap_escape = (\<lambda>p. CHR 0x22 # p @ [CHR 0x22]), ap_connect = (\<lambda>_. None), ap_open = (\<lambda>s. if s = None then Some ''absent'' else None),
     ap_config = (\<lambda>s. case s of None \<Rightarrow> Inl ''absent'' | Some sv \<Rightarrow> Inr (sv_config sv)),
     ap_update = (\<lambda>c s. (map_option (\<lambda>sv. sv\<lparr>sv_config := c\<rparr>) s, None)),
     ap_create = (\<lambda>c s. if s = None then (Some \<lparr>sv_config = c\<lparr>cf_binary := CHR 0x22 # cf_binary c @ [CHR 0x22]\<rparr>, sv_env = None, sv_recovery = None,
       sv_noncrash = False\<rparr>, None) else (s, Some ''exists'')),
     ap_delete = (\<lambda>_. (None, None)),
     ap_recovery = (\<lambda>ds n s. (map_option (\<lambda>sv. sv\<lparr>sv_recovery := Some (ds, n)\<rparr>) s, None)),
     ap_noncrash = (\<lambda>on s. (map_option (\<lambda>sv. sv\<lparr>sv_noncrash := on\<rparr>) s, None)),
     ap_set_env = (\<lambda>env s. (map_option (\<lambda>sv. sv\<lparr>sv_env := Some env\<rparr>) s, None)),
     ap_start = (\<lambda>s. (s, None)), ap_stop = (\<lambda>s. (s, Inr StopPending))\<rparr>"

lemma plain_scm_lawful: "scm_lawful plain_scm (\<lambda>s. s)"
  by (auto simp: scm_lawful_def plain_scm_def effect_law_def created_def split: option.splits if_splits)

theorem install_complete_or_absent_witness:
  "\<exists>s' sv. installService plain_scm user_1000 (Inr ''d.exe'') [''--config-dir'', ''c''] None = (s', None) \<and> s' = Some sv \<and>
     registered plain_scm ''d.exe'' [''IRON_LINK_CONFIG_DIR=c''] sv"
proof -
  obtain s' e where run: "installService plain_scm user_1000 (Inr ''d.exe'') [''--config-dir'', ''c''] None = (s', e)" by fastforce
  moreover have "e = None"
    using run by (simp add: installService_def install_dir_def plain_scm_def create_service_def then_effect_def or_undo_def wrapped_def
      hardenService_def split: option.splits)
  ultimately show ?thesis
    using install_complete_or_absent [OF plain_scm_lawful run]
    by (auto simp: install_dir_def serviceEnv_def user_1000_def)
qed

text \<open>
  Waiting for the service to stop ends. On a clock that each round of the wait moves by the 300 ms it sleeps, \<^verbatim>\<open>stopService\<close> returns, whatever
  the service manager answers; and it reports success only when the service was seen stopped.
\<close>

theorem stop_wait_ends:
  assumes "\<And>i. now i + 300 \<le> now (Suc i)"
  shows "\<exists>r. stopService api t now query s = Some r \<and>
    (r = None \<longrightarrow> snd (ap_stop api s) = Inr Stopped \<or> (\<exists>j. query j = Inr Stopped))"
proof (cases "snd (ap_stop api s)")
  case (Inr state)
  then show ?thesis
    using await_stopped_returns [of now query "t + 15000" 0 state, OF assms] by (auto simp: stopService_def split: option.splits)
qed (auto simp: stopService_def split: option.splits)

theorem stop_wait_ends_witness:
  "\<exists>r. stopService plain_scm 0 (\<lambda>i. 300 * int i) (\<lambda>_. Inr StopPending) None = Some r \<and> r \<noteq> None"
  using stop_wait_ends [of "\<lambda>i. 300 * int i" plain_scm 0 "\<lambda>_. Inr StopPending" None] by (auto simp: plain_scm_def)

text \<open>
  C38. The service answers for its exit. \<^verbatim>\<open>Execute\<close> reports an exit only once \<^verbatim>\<open>run\<close> has returned, after a stop request too; the code is 1, and the
  service manager restarts the daemon, exactly when \<^verbatim>\<open>run\<close> failed by itself, before any request to stop.
\<close>

theorem service_exit_code:
  "snd (Execute es) = Some c \<longleftrightarrow>
    (\<exists>pre r post. es = pre @ RunReturned r # post \<and> set pre \<inter> range RunReturned = {} \<and>
      c = (if r = None \<or> StopRequest \<in> set pre \<or> ShutdownRequest \<in> set pre then 0 else 1))"
proof -
  have "\<exists>pre r post. es = pre @ RunReturned r # post \<and> set pre \<inter> range RunReturned = {}" if "\<exists>r. RunReturned r \<in> set es"
  proof -
    from that have "\<exists>x \<in> set es. x \<in> range RunReturned" by blast
    from split_list_first_propE [OF this] show ?thesis by (metis disjoint_iff imageE)
  qed
  then have first: "\<exists>pre r post. es = pre @ RunReturned r # post \<and> set pre \<inter> range RunReturned = {}" if "snd (Execute es) = Some c"
    using that serve_requests_returned [of es c] by (simp add: Execute_code)
  have code: "snd (Execute (pre @ RunReturned r # post)) = Some (if r = None \<or> StopRequest \<in> set pre \<or> ShutdownRequest \<in> set pre then 0 else 1)"
    if "set pre \<inter> range RunReturned = {}" for pre r post
    using serve_requests_first [OF that] by (simp only: Execute_code)
  show ?thesis
  proof
    assume c: "snd (Execute es) = Some c"
    from first [OF c] obtain pre r post where es: "es = pre @ RunReturned r # post" "set pre \<inter> range RunReturned = {}" by blast
    then have "c = (if r = None \<or> StopRequest \<in> set pre \<or> ShutdownRequest \<in> set pre then 0 else 1)"
      using c code [OF es(2), of r post] by (simp only: option.inject)
    with es show "\<exists>pre r post. es = pre @ RunReturned r # post \<and> set pre \<inter> range RunReturned = {} \<and>
      c = (if r = None \<or> StopRequest \<in> set pre \<or> ShutdownRequest \<in> set pre then 0 else 1)" by blast
  qed (use code in blast)
qed

text \<open>
  A session can outlive the daemon, in two ways. When accepting a connection fails, \<^verbatim>\<open>run\<close> returns without closing the session. And an activation
  that was being prepared when the daemon was told to stop starts its session after the shutdown has closed the old one; the exit is then a clean one.
\<close>

theorem session_outlives_daemon:
  "(\<exists>d e. daemon_reachable sample_daemon d \<and> dm_phase d = Exited (Some e) \<and> mg_sess (dm_manager d) \<noteq> None) \<and>
   (\<exists>d. daemon_reachable sample_daemon d \<and> dm_phase d = Exited None \<and> mg_sess (dm_manager d) \<noteq> None)"
proof
  obtain d where d: "daemon_reachable sample_daemon d" "dm_phase d = Serving" "dm_manager d = sample_running"
    using reachable_serving [OF sample_running_reachable] by auto
  have "daemon_step sample_daemon d (run_served (Some ''accept'') d)"
    by (rule daemon_step.served [OF d(2), where conns = "[AcceptError ''accept'']"]) simp
  with d(1) have "daemon_reachable sample_daemon (run_served (Some ''accept'') d)" by (rule daemon_reachable.step)
  then show "\<exists>d e. daemon_reachable sample_daemon d \<and> dm_phase d = Exited (Some e) \<and> mg_sess (dm_manager d) \<noteq> None"
    using d(3) sample_running_sess(1)
    by (intro exI [of _ "run_served (Some ''accept'') d"] exI [of _ "''accept''"]) (simp add: run_served_def)
next
  obtain prep where p: "prepareActivation (store_env sample_daemon sample_boot) sample_request = Inr prep" using sample_prepared by blast
  have "session_reachable sample_daemon (sample_boot, [])" unfolding sample_boot_def by (rule session_reachable.boot)
  then have "session_reachable sample_daemon (sample_boot, [PActivate prep])"
    using session_step.prepare [OF p] by (rule session_reachable.step)
  from reachable_serving [OF this] obtain d where d: "daemon_reachable sample_daemon d" "dm_phase d = Serving"
    "dm_manager d = sample_boot" "dm_pending d = [PActivate prep]" by auto
  let ?d1 = "run_cancelled d" and ?d2 = "d\<lparr>dm_phase := ShutDown, dm_manager := sample_running, dm_pending := []\<rparr>"
  have "mg_sess sample_boot = None" by (simp add: sample_boot_def newManager_def)
  then have d1: "?d1 = d\<lparr>dm_phase := ShutDown\<rparr>" using d(3) by (simp add: run_cancelled_def shutdown_def)
  have start: "fst (startActivationLocked sample_outcomes prep sample_boot) = sample_running"
    using p by (simp add: sample_running_def activate_def)
  have "session_step sample_daemon (sample_boot, [PActivate prep]) (sample_running, [])"
    using session_step.start [of prep "[PActivate prep]" sample_daemon sample_boot sample_outcomes] start by simp
  then have "daemon_step sample_daemon ?d1 ?d2"
    using daemon_step.work [of ?d1 sample_daemon sample_running "[]"] d d1 by simp
  then have "daemon_reachable sample_daemon ?d2"
    using daemon_reachable.step [OF d(1) daemon_step.cancel [OF d(2)]] by (blast intro: daemon_reachable.step)
  then have "daemon_reachable sample_daemon (?d2\<lparr>dm_phase := Exited None\<rparr>)"
    by (rule daemon_reachable.step) (rule daemon_step.leave, simp)
  then show "\<exists>d. daemon_reachable sample_daemon d \<and> dm_phase d = Exited None \<and> mg_sess (dm_manager d) \<noteq> None"
    using sample_running_sess(1) by (intro exI [of _ "?d2\<lparr>dm_phase := Exited None\<rparr>"]) simp
qed

end
