(* ===== verification/Engine_Dns.thy ===== *)
theory Engine_Dns
  imports Engine_Probe Ipc_Stream
begin

text \<open>
  The resolver's wire (\<^verbatim>\<open>engine/quality.go\<close>, \<^verbatim>\<open>engine/netreport.go\<close>): the one query the connection-quality probe sends through the configured
  upstream, over UDP, over TLS with its two-byte length frames, or over HTTPS with JSON answers.

  The message format is the package \<^verbatim>\<open>golang.org/x/net/dns/dnsmessage\<close>: naming, packing and unpacking are arguments (\<open>dns_format\<close>). The network
  is one exchange (\<open>dns_net\<close>): the error of each step, the datagram or the bytes the server sends before it closes.

  Main results: over TLS the query is framed as RFC 7858 says and the probe reads exactly the message an RFC frame carries, whatever follows on
  the stream, and fails when the stream ends inside it; the measured stage succeeds exactly when an address record came back.
\<close>

section \<open>Messages\<close>

record dns_query =
  dq_id :: "16 word"
  dq_recursion :: bool
  dq_name :: string
  dq_type :: "16 word"
  dq_class :: "16 word"

datatype dns_body = AResource "byte list" | OtherResource

record dns_answer =
  an_type :: "16 word"
  an_body :: dns_body

record dns_format =
  df_name :: "string \<Rightarrow> string option"
  df_pack :: "dns_query \<Rightarrow> string + byte list"
  df_unpack :: "byte list \<Rightarrow> string + dns_answer list"

abbreviation TypeA :: "16 word" where "TypeA \<equiv> 1"
abbreviation ClassINET :: "16 word" where "ClassINET \<equiv> 1"

text \<open>\<open>nanos\<close>: the clock, whose low sixteen bits are the query's id.\<close>

definition buildDNSQuery :: "dns_format \<Rightarrow> int \<Rightarrow> string \<Rightarrow> string + byte list" where
  "buildDNSQuery df nanos host =
    (let fqdn = (if HasSuffix host ''.'' then host else host @ ''.'') in
     case df_name df fqdn of
       Some e \<Rightarrow> Inl e
     | None \<Rightarrow> df_pack df \<lparr>dq_id = word_of_int nanos, dq_recursion = True, dq_name = fqdn, dq_type = TypeA, dq_class = ClassINET\<rparr>)"

fun a_records :: "dns_answer list \<Rightarrow> byte list list" where
  "a_records [] = []"
| "a_records (a # as) = (if an_type a \<noteq> TypeA then a_records as
     else (case an_body a of AResource ip \<Rightarrow> ip # a_records as | OtherResource \<Rightarrow> a_records as))"

definition parseDNSAnswer :: "dns_format \<Rightarrow> byte list \<Rightarrow> string + byte list list" where
  "parseDNSAnswer df buf = (case df_unpack df buf of Inl e \<Rightarrow> Inl e | Inr as \<Rightarrow> Inr (a_records as))"

section \<open>The exchange\<close>

text \<open>
  \<open>dn_handshake\<close> takes the name the certificate must carry, none for an upstream that is not verified. \<open>dn_stream\<close> is what arrives after the request
  and \<open>dn_broken\<close> the error when it ends early. The HTTPS answer is decoded by \<^verbatim>\<open>encoding/json\<close>: the records' types and texts.
\<close>

record dns_net =
  dn_dial :: "string \<Rightarrow> string \<Rightarrow> string option"
  dn_handshake :: "string option \<Rightarrow> string option"
  dn_write :: "byte list \<Rightarrow> string option"
  dn_datagram :: "byte list \<Rightarrow> string + byte list"
  dn_stream :: "byte list \<Rightarrow> byte list"
  dn_broken :: string
  dn_https :: "string \<Rightarrow> string \<Rightarrow> string \<Rightarrow> string \<Rightarrow> string + (int \<times> string) list"
  dn_parse_ip :: "string \<Rightarrow> byte list option"

text \<open>A read into a buffer of 1500 bytes drops the rest of a longer datagram.\<close>

definition udpQuery :: "dns_format \<Rightarrow> dns_net \<Rightarrow> int \<Rightarrow> string \<Rightarrow> string \<Rightarrow> string + byte list list" where
  "udpQuery df dn nanos ip host = (case dn_dial dn ip ''53'' of
     Some e \<Rightarrow> Inl e
   | None \<Rightarrow> (case buildDNSQuery df nanos host of
       Inl e \<Rightarrow> Inl e
     | Inr q \<Rightarrow> (case dn_write dn q of
         Some e \<Rightarrow> Inl e
       | None \<Rightarrow> (case dn_datagram dn q of Inl e \<Rightarrow> Inl e | Inr m \<Rightarrow> parseDNSAnswer df (take 1500 m)))))"

definition PutUint16 :: "16 word \<Rightarrow> byte list" where
  "PutUint16 v = [ucast (drop_bit 8 v), ucast v]"

fun Uint16 :: "byte list \<Rightarrow> 16 word" where
  "Uint16 [a, b] = push_bit 8 (ucast a) OR ucast b"
| "Uint16 _ = 0"

definition dot_frame :: "byte list \<Rightarrow> byte list" where
  "dot_frame q = PutUint16 (of_nat (length q)) @ q"

definition read_dot :: "byte list \<Rightarrow> (frame_error + byte list) \<times> byte list" where
  "read_dot s = (case ReadFull 2 s of
     (Inl e, s') \<Rightarrow> (Inl e, s')
   | (Inr rl, s') \<Rightarrow> ReadFull (unat (Uint16 rl)) s')"

definition dotQuery :: "dns_format \<Rightarrow> dns_net \<Rightarrow> int \<Rightarrow> string \<Rightarrow> string \<Rightarrow> string + byte list list" where
  "dotQuery df dn nanos ip host = (case dn_dial dn ip ''853'' of
     Some e \<Rightarrow> Inl e
   | None \<Rightarrow> (case dn_handshake dn (map_of resolverHostnames ip) of
       Some e \<Rightarrow> Inl e
     | None \<Rightarrow> (case buildDNSQuery df nanos host of
         Inl e \<Rightarrow> Inl e
       | Inr q \<Rightarrow> (case dn_write dn (dot_frame q) of
           Some e \<Rightarrow> Inl e
         | None \<Rightarrow> (case fst (read_dot (dn_stream dn (dot_frame q))) of
             Inl e \<Rightarrow> Inl (dn_broken dn)
           | Inr resp \<Rightarrow> parseDNSAnswer df resp)))))"

text \<open>The body of an HTTPS query is an argument of the exchange; the records of type A are kept.\<close>

definition doh_request :: "string \<Rightarrow> string \<Rightarrow> string \<times> string" where
  "doh_request hostname host =
    (if hostname = ''dns.google'' then (''https://dns.google/resolve?name='' @ host @ ''&type=A'', [])
     else (''https://'' @ hostname @ ''/dns-query?name='' @ host @ ''&type=A'', ''application/dns-json''))"

definition dohUpstreamQuery :: "dns_net \<Rightarrow> string \<Rightarrow> string \<Rightarrow> string + byte list list" where
  "dohUpstreamQuery dn ip host = (case map_of resolverHostnames ip of
     None \<Rightarrow> Inl (''DoH upstream '' @ ip @ '' is not a recognized public resolver'')
   | Some hostname \<Rightarrow> (case doh_request hostname host of (url, accept) \<Rightarrow>
       (case dn_https dn ip hostname url accept of
          Inl e \<Rightarrow> Inl e
        | Inr answers \<Rightarrow> Inr (List.map_filter (dn_parse_ip dn) (map snd (filter (\<lambda>(t, _). t = 1) answers))))))"

definition timedResolve :: "dns_format \<Rightarrow> dns_net \<Rightarrow> int \<Rightarrow> dns_server \<Rightarrow> string \<Rightarrow> string + byte list list" where
  "timedResolve df dn nanos up host =
    (if ds_type up = ''https'' then dohUpstreamQuery dn (ds_address up) host
     else if ds_type up = ''tls'' then dotQuery df dn nanos (ds_address up) host
     else udpQuery df dn nanos (ds_address up) host)"

text \<open>The DNS stage of the probe on this exchange; \<open>show\<close> prints an address.\<close>

definition dns_stage :: "(byte list \<Rightarrow> string) \<Rightarrow> dns_format \<Rightarrow> dns_net \<Rightarrow> int \<Rightarrow> int \<Rightarrow> dns_server \<Rightarrow> string \<Rightarrow> quality_env \<Rightarrow> quality_stage" where
  "dns_stage print df dn nanos ms up host qe =
    measureDNS (qe\<lparr>qe_dns := (ms, map_sum (\<lambda>e. e) (map print) (timedResolve df dn nanos up host))\<rparr>) up"

section \<open>Frames\<close>

lemma length_PutUint16 [simp]: "length (PutUint16 v) = 2"
  by (simp add: PutUint16_def)

lemma Uint16_Put [simp]: "Uint16 (PutUint16 v) = v"
  unfolding PutUint16_def Uint16.simps
  by (rule bit_word_eqI) (auto simp: bit_simps)

text \<open>
  The framing of the protocol itself (RFC 7858, after RFC 1035): two bytes, the high one first, hold the length of the message that follows. A message
  of 2 \<open>^\<close> 16 bytes or more has no frame.
\<close>

definition rfc_framed :: "byte list \<Rightarrow> byte list \<Rightarrow> bool" where
  "rfc_framed m bs = (\<exists>hi lo. bs = hi # lo # m \<and> 256 * unat hi + unat lo = length m)"

lemma unat_Uint16: "unat (Uint16 [a, b]) = 256 * unat a + unat b"
proof -
  have "push_bit 8 (ucast a) OR ucast b = push_bit 8 (ucast a :: 16 word) + ucast b"
    by (rule disjunctive_add [symmetric]) (auto simp: bit_simps dest: bit_imp_le_length)
  moreover have "unat (push_bit 8 (ucast a :: 16 word)) = 256 * unat a"
    using unsigned_less [where ?'b = 8 and ?'a = nat, of a] by (simp add: push_bit_eq_mult unat_word_ariths unsigned_ucast_eq take_bit_nat_eq_self)
  ultimately show ?thesis
    using unsigned_less [where ?'b = 8 and ?'a = nat, of a] unsigned_less [where ?'b = 8 and ?'a = nat, of b] by (simp add: unat_word_ariths unsigned_ucast_eq take_bit_nat_eq_self)
qed

lemma dot_frame_framed: "length q < 2 ^ 16 \<Longrightarrow> rfc_framed q (dot_frame q)"
  using unat_Uint16 [of "ucast (drop_bit 8 (of_nat (length q) :: 16 word))" "ucast (of_nat (length q) :: 16 word)"] Uint16_Put [of "of_nat (length q)"]
  by (simp add: rfc_framed_def dot_frame_def PutUint16_def unat_of_nat)

lemma read_dot_framed:
  assumes "rfc_framed m fr"
  shows "read_dot (fr @ rest) = (Inr m, rest)"
  using assms by (auto simp: rfc_framed_def read_dot_def ReadFull_def unat_Uint16 simp del: Uint16.simps)

lemma read_dot_short:
  assumes "rfc_framed m (s @ c # cs)"
  shows "\<exists>e. fst (read_dot s) = Inl e"
  using assms
  by (cases s; cases "tl s") (auto simp: rfc_framed_def read_dot_def ReadFull_def unat_Uint16 simp del: Uint16.simps)

text \<open>
  What the package documents of a query's size: a name has at most 255 bytes, and the packed message is a header of twelve bytes, the name with its
  closing zero and four bytes of type and class.
\<close>

definition pack_bounded :: "dns_format \<Rightarrow> bool" where
  "pack_bounded df = ((\<forall>n. df_name df n = None \<longrightarrow> length n \<le> 255) \<and>
     (\<forall>d bs. df_pack df d = Inr bs \<longrightarrow> length bs \<le> 12 + (length (dq_name d) + 1) + 4))"

lemma query_fits:
  assumes "pack_bounded df" and "buildDNSQuery df nanos host = Inr q"
  shows "length q < 2 ^ 16"
proof -
  obtain n d where "df_name df n = None" "df_pack df d = Inr q" "dq_name d = n"
    using assms(2) by (auto simp: buildDNSQuery_def Let_def split: option.splits)
  moreover from this have "length n \<le> 255" and "length q \<le> 12 + (length (dq_name d) + 1) + 4" using assms(1) unfolding pack_bounded_def by blast+
  ultimately have "length q \<le> 12 + (255 + 1) + 4" by simp
  then show ?thesis by simp
qed

lemma a_records_iff: "ip \<in> set (a_records as) \<longleftrightarrow> (\<exists>a \<in> set as. an_type a = TypeA \<and> an_body a = AResource ip)"
  by (induction as) (auto split: dns_body.splits)

lemma a_records_Cons_iff: "(\<exists>ip ips. a_records as = ip # ips) \<longleftrightarrow> (\<exists>a ip. a \<in> set as \<and> an_type a = TypeA \<and> an_body a = AResource ip)"
  using a_records_iff [of _ as] by (metis list.set_intros(1) neq_Nil_conv list.set_cases)

lemma dns_stage_ok: "qs_ok (dns_stage print df dn nanos ms up host qe) \<longleftrightarrow> (\<exists>ip ips. timedResolve df dn nanos up host = Inr (ip # ips))"
  by (cases "timedResolve df dn nanos up host")
     (auto simp: dns_stage_def measureDNS_def broken_def graded_def neq_Nil_conv)

section \<open>Properties\<close>

text \<open>
  C39. DNS over TLS speaks the framing of RFC 7858. There are bytes that frame the packed query as the RFC says, and the outcome is decided by what a
  server sends back for exactly those: when it sends an RFC frame of a message, whatever follows it, the probe decodes exactly that message, and
  its DNS stage succeeds exactly when the message carries an address record; when the stream ends inside the frame the query fails as
  broken. The query fits its frame because names and packed queries are bounded as the message package documents; an answer of 2 \<open>^\<close> 16 bytes or more
  has no frame.
\<close>

theorem dot_exchange:
  assumes "ds_type up = ''tls''" and "dn_dial dn (ds_address up) ''853'' = None"
    and "dn_handshake dn (map_of resolverHostnames (ds_address up)) = None" and "pack_bounded df" and "buildDNSQuery df nanos host = Inr q"
    and "\<And>bs. rfc_framed q bs \<Longrightarrow> dn_write dn bs = None"
  shows "\<exists>bs. rfc_framed q bs \<and>
    (\<forall>m fr trailing. rfc_framed m fr \<and> dn_stream dn bs = fr @ trailing \<longrightarrow>
       timedResolve df dn nanos up host = parseDNSAnswer df m \<and>
       (qs_ok (dns_stage print df dn nanos ms up host qe) \<longleftrightarrow>
         (\<exists>as. df_unpack df m = Inr as \<and> (\<exists>a ip. a \<in> set as \<and> an_type a = TypeA \<and> an_body a = AResource ip)))) \<and>
    (\<forall>m c cs. rfc_framed m (dn_stream dn bs @ c # cs) \<longrightarrow>
       timedResolve df dn nanos up host = Inl (dn_broken dn) \<and> \<not> qs_ok (dns_stage print df dn nanos ms up host qe))"
proof (intro exI [of _ "dot_frame q"] conjI allI impI)
  show fits: "rfc_framed q (dot_frame q)" using assms(4,5) by (intro dot_frame_framed query_fits)
  then have run: "timedResolve df dn nanos up host = (case fst (read_dot (dn_stream dn (dot_frame q))) of
      Inl e \<Rightarrow> Inl (dn_broken dn) | Inr resp \<Rightarrow> parseDNSAnswer df resp)"
    using assms(1-3,5,6) by (simp add: timedResolve_def dotQuery_def)
  {
    fix m fr trailing
    assume "rfc_framed m fr \<and> dn_stream dn (dot_frame q) = fr @ trailing"
    then have "read_dot (dn_stream dn (dot_frame q)) = (Inr m, trailing)" by (metis read_dot_framed)
    with run show r: "timedResolve df dn nanos up host = parseDNSAnswer df m" by simp
    show "qs_ok (dns_stage print df dn nanos ms up host qe) \<longleftrightarrow>
        (\<exists>as. df_unpack df m = Inr as \<and> (\<exists>a ip. a \<in> set as \<and> an_type a = TypeA \<and> an_body a = AResource ip))"
      unfolding dns_stage_ok r by (auto simp: parseDNSAnswer_def a_records_Cons_iff split: sum.splits)
  next
    fix m c cs
    assume "rfc_framed m (dn_stream dn (dot_frame q) @ c # cs)"
    with run show b: "timedResolve df dn nanos up host = Inl (dn_broken dn)" using read_dot_short by fastforce
    then show "\<not> qs_ok (dns_stage print df dn nanos ms up host qe)" by (simp add: dns_stage_ok)
  }
qed

text \<open>A format whose every message packs to one byte, and a server that answers the frame of that byte with the frame of another.\<close>

definition byte_format :: dns_format where
  "byte_format = \<lparr>df_name = (\<lambda>n. if length n \<le> 255 then None else Some ''long''), df_pack = (\<lambda>_. Inr [7]),
     df_unpack = (\<lambda>m. if m = [9] then Inr [\<lparr>an_type = 5, an_body = OtherResource\<rparr>, \<lparr>an_type = TypeA, an_body = AResource [1, 1, 1, 1]\<rparr>] else Inl ''bad'')\<rparr>"

definition byte_net :: dns_net where
  "byte_net = \<lparr>dn_dial = (\<lambda>_ _. None), dn_handshake = (\<lambda>_. None), dn_write = (\<lambda>_. None), dn_datagram = (\<lambda>_. Inl ''closed''),
     dn_stream = (\<lambda>bs. if bs = [0, 1, 7] then [0, 1, 9, 0, 0] else []), dn_broken = ''EOF'',
     dn_https = (\<lambda>_ _ _ _. Inl ''closed''), dn_parse_ip = (\<lambda>_. None)\<rparr>"

lemma framed_byte: "rfc_framed [x] bs \<longleftrightarrow> bs = [0, 1, x]"
proof
  assume "rfc_framed [x] bs"
  then obtain hi lo where bs: "bs = [hi, lo, x]" and l: "256 * unat hi + unat lo = 1" by (auto simp: rfc_framed_def)
  from l have "unat hi = unat (0 :: byte)" by simp
  moreover with l have "unat lo = unat (1 :: byte)" by simp
  ultimately have "hi = 0" "lo = 1" by (simp_all only: word_unat_eq_iff)
  with bs show "bs = [0, 1, x]" by simp
qed (simp add: rfc_framed_def)

theorem dot_exchange_witness:
  "timedResolve byte_format byte_net 0 \<lparr>ds_type = ''tls'', ds_address = ''8.8.8.8''\<rparr> ''h'' = Inr [[1, 1, 1, 1]]"
proof -
  have "pack_bounded byte_format" by (simp add: pack_bounded_def byte_format_def)
  moreover have "buildDNSQuery byte_format 0 ''h'' = Inr [7]" by (simp add: buildDNSQuery_def byte_format_def Let_def)
  moreover have "rfc_framed [9] [0, 1, 9]" by (simp add: framed_byte)
  moreover have "dn_stream byte_net [0, 1, 7] = [0, 1, 9] @ [0, 0]" by (simp add: byte_net_def)
  moreover have "dn_dial byte_net a p = None" "dn_handshake byte_net n = None" "dn_write byte_net bs = None" for a p n bs
    by (simp_all add: byte_net_def)
  ultimately have "timedResolve byte_format byte_net 0 \<lparr>ds_type = ''tls'', ds_address = ''8.8.8.8''\<rparr> ''h'' = parseDNSAnswer byte_format [9]"
    using dot_exchange [of "\<lparr>ds_type = ''tls'', ds_address = ''8.8.8.8''\<rparr>" byte_net byte_format 0 "''h''" "[7]"] by (auto simp: framed_byte)
  then show ?thesis by (simp add: parseDNSAnswer_def byte_format_def)
qed

end
