(* ===== verification/Update_Dir.thy ===== *)
theory Update_Dir
  imports Iron_Prelude
begin

text \<open>
  The protected download directory on Windows (\<^verbatim>\<open>daemon-go/internal/update/dir_windows.go\<close>).

  The daemon runs as SYSTEM or an administrator beside ordinary users who may act between any two of its system calls. A path
  names an object; an object is a directory or not, may be a reparse point, has an owner and an access list. The calls of
  \<^verbatim>\<open>createProtectedDir\<close> and \<^verbatim>\<open>checkExistingDir\<close> are the steps of \<open>protect_step\<close>, one system call each; \<open>user_step\<close> is
  what an ordinary user can do to the objects in between: anything to his own, and to an object owned by SYSTEM or the administrators only what an
  inherited access list of \<^verbatim>\<open>%ProgramData%\<close> grants, which includes turning an empty directory into a reparse point.

  Main results: when no directory with a weaker list was left behind by an older build, a run that succeeds ends in a real directory
  that users cannot touch, and stays there; a stamp never reaches an object of an ordinary user. A left-behind directory can be
  turned into a junction between the check and the stamp.
\<close>

section \<open>Objects\<close>

datatype principal = LocalSystem | BuiltinAdministrators | OrdinaryUser string

text \<open>\<open>UpdatesDACL\<close> is the list of \<^verbatim>\<open>updatesDirSDDL\<close>: full control for SYSTEM and administrators, read and execute for users, not inherited.\<close>

datatype dacl = UpdatesDACL | InheritedDACL

record win_object =
  wo_directory :: bool
  wo_reparse :: bool
  wo_owner :: principal
  wo_dacl :: dacl

record win_fs =
  wf_objects :: "nat \<Rightarrow> win_object option"
  wf_names :: "string \<Rightarrow> nat option"

fun privileged :: "principal \<Rightarrow> bool" where
  "privileged (OrdinaryUser u) = False"
| "privileged _ = True"

definition privileged_at :: "win_fs \<Rightarrow> nat \<Rightarrow> bool" where
  "privileged_at w i = (case wf_objects w i of None \<Rightarrow> False | Some ob \<Rightarrow> privileged (wo_owner ob))"

datatype dir_error =
    NoProgramData
  | SystemCallFailed
  | NotADirectory
  | IsReparsePoint
  | WrongOwner principal

section \<open>The system calls\<close>

definition new_directory :: "principal \<Rightarrow> win_object" where
  "new_directory who = \<lparr>wo_directory = True, wo_reparse = False, wo_owner = who, wo_dacl = UpdatesDACL\<rparr>"

definition CreateDirectory :: "principal \<Rightarrow> string \<Rightarrow> nat \<Rightarrow> win_fs \<Rightarrow> win_fs" where
  "CreateDirectory who path i w = w\<lparr>wf_objects := (wf_objects w)(i \<mapsto> new_directory who), wf_names := (wf_names w)(path \<mapsto> i)\<rparr>"

definition check_attributes :: "win_object \<Rightarrow> dir_error option" where
  "check_attributes ob = (if \<not> wo_directory ob then Some NotADirectory else if wo_reparse ob then Some IsReparsePoint else None)"

definition check_owner :: "win_object \<Rightarrow> dir_error option" where
  "check_owner ob = (if wo_owner ob \<noteq> LocalSystem \<and> wo_owner ob \<noteq> BuiltinAdministrators then Some (WrongOwner (wo_owner ob)) else None)"

definition SetSecurityInfo :: "nat \<Rightarrow> win_fs \<Rightarrow> win_fs" where
  "SetSecurityInfo i w = w\<lparr>wf_objects := (wf_objects w)(i := map_option (\<lambda>ob. ob\<lparr>wo_dacl := UpdatesDACL\<rparr>) (wf_objects w i))\<rparr>"

text \<open>Where one call of \<^verbatim>\<open>createProtectedDir\<close> stands; the number is the object its handle pins.\<close>

datatype protect_pc =
    Creating
  | Opening
  | CheckingAttributes nat
  | CheckingOwner nat
  | Stamping nat
  | Protected
  | Refused dir_error

fun running :: "protect_pc \<Rightarrow> bool" where
  "running Protected = False"
| "running (Refused e) = False"
| "running _ = True"

inductive protect_step :: "principal \<Rightarrow> string \<Rightarrow> win_fs \<Rightarrow> protect_pc \<Rightarrow> win_fs \<Rightarrow> protect_pc \<Rightarrow> bool" for who path where
  call_fails: "running pc \<Longrightarrow> protect_step who path w pc w (Refused SystemCallFailed)"
| created: "wf_names w path = None \<Longrightarrow> wf_objects w i = None \<Longrightarrow>
    protect_step who path w Creating (CreateDirectory who path i w) Protected"
| already_exists: "wf_names w path = Some i \<Longrightarrow> protect_step who path w Creating w Opening"
| opened: "wf_names w path = Some i \<Longrightarrow> wf_objects w i = Some ob \<Longrightarrow> protect_step who path w Opening w (CheckingAttributes i)"
| bad_attributes: "wf_objects w i = Some ob \<Longrightarrow> check_attributes ob = Some e \<Longrightarrow>
    protect_step who path w (CheckingAttributes i) w (Refused e)"
| good_attributes: "wf_objects w i = Some ob \<Longrightarrow> check_attributes ob = None \<Longrightarrow>
    protect_step who path w (CheckingAttributes i) w (CheckingOwner i)"
| bad_owner: "wf_objects w i = Some ob \<Longrightarrow> check_owner ob = Some e \<Longrightarrow> protect_step who path w (CheckingOwner i) w (Refused e)"
| good_owner: "wf_objects w i = Some ob \<Longrightarrow> check_owner ob = None \<Longrightarrow> protect_step who path w (CheckingOwner i) w (Stamping i)"
| stamped: "protect_step who path w (Stamping i) (SetSecurityInfo i w) Protected"

section \<open>The directory\<close>

definition parent_path :: "string \<Rightarrow> string" where
  "parent_path programData = programData @ [CHR 0x5C] @ ''iron-link''"

definition updates_path :: "string \<Rightarrow> string" where
  "updates_path programData = parent_path programData @ [CHR 0x5C] @ ''updates''"

text \<open>\<^verbatim>\<open>UpdatesDir\<close> protects the parent and then the directory; the environment variable may be unset, and names a clean path.\<close>

datatype updates_pc =
    Start
  | InParent protect_pc
  | InUpdates protect_pc
  | UpdatesReady string
  | UpdatesFailed dir_error

inductive UpdatesDir_step :: "principal \<Rightarrow> string \<Rightarrow> win_fs \<Rightarrow> updates_pc \<Rightarrow> win_fs \<Rightarrow> updates_pc \<Rightarrow> bool" for who programData where
  unset: "programData = [] \<Longrightarrow> UpdatesDir_step who programData w Start w (UpdatesFailed NoProgramData)"
| set: "programData \<noteq> [] \<Longrightarrow> UpdatesDir_step who programData w Start w (InParent Creating)"
| parent: "protect_step who (parent_path programData) w pc w' pc' \<Longrightarrow> UpdatesDir_step who programData w (InParent pc) w' (InParent pc')"
| parent_failed: "UpdatesDir_step who programData w (InParent (Refused e)) w (UpdatesFailed e)"
| parent_done: "UpdatesDir_step who programData w (InParent Protected) w (InUpdates Creating)"
| child: "protect_step who (updates_path programData) w pc w' pc' \<Longrightarrow> UpdatesDir_step who programData w (InUpdates pc) w' (InUpdates pc')"
| child_failed: "UpdatesDir_step who programData w (InUpdates (Refused e)) w (UpdatesFailed e)"
| child_done: "UpdatesDir_step who programData w (InUpdates Protected) w (UpdatesReady (updates_path programData))"

section \<open>Ordinary users\<close>

text \<open>
  An object of SYSTEM or the administrators keeps its owner, kind and list, and its name; it may become or cease to be a reparse point
  unless it carries the protected list. Users make no object of a privileged owner and give none a new name.
\<close>

definition user_step :: "win_fs \<Rightarrow> win_fs \<Rightarrow> bool" where
  "user_step w w' =
    ((\<forall>i ob. wf_objects w i = Some ob \<longrightarrow> privileged (wo_owner ob) \<longrightarrow>
        (\<exists>r. wf_objects w' i = Some (ob\<lparr>wo_reparse := r\<rparr>) \<and> (wo_dacl ob = UpdatesDACL \<longrightarrow> r = wo_reparse ob))) \<and>
     (\<forall>i. privileged_at w' i \<longrightarrow> privileged_at w i) \<and>
     (\<forall>q i. wf_names w q = Some i \<longrightarrow> privileged_at w i \<longrightarrow> wf_names w' q = Some i) \<and>
     (\<forall>q i. wf_names w' q = Some i \<longrightarrow> privileged_at w' i \<longrightarrow> wf_names w q = Some i))"

inductive updates_run :: "principal \<Rightarrow> string \<Rightarrow> win_fs \<Rightarrow> win_fs \<Rightarrow> updates_pc \<Rightarrow> bool" for who programData w0 where
  begin_run: "updates_run who programData w0 w0 Start"
| daemon: "updates_run who programData w0 w pc \<Longrightarrow> UpdatesDir_step who programData w pc w' pc' \<Longrightarrow> updates_run who programData w0 w' pc'"
| user: "updates_run who programData w0 w pc \<Longrightarrow> user_step w w' \<Longrightarrow> updates_run who programData w0 w' pc"

inductive_cases protect_stepE: "protect_step who path w pc w' pc'"

section \<open>Guarded directories\<close>

definition sound_object :: "win_object \<Rightarrow> bool" where
  "sound_object ob = (wo_directory ob \<and> \<not> wo_reparse ob \<and> privileged (wo_owner ob))"

definition guards :: "win_fs \<Rightarrow> string \<Rightarrow> nat \<Rightarrow> bool" where
  "guards w q i = (wf_names w q = Some i \<and> (\<exists>ob. wf_objects w i = Some ob \<and> sound_object ob \<and> wo_dacl ob = UpdatesDACL))"

definition guarded :: "win_fs \<Rightarrow> string \<Rightarrow> bool" where
  "guarded w q = (\<exists>i. guards w q i)"

text \<open>A privileged object at the path already has the protected list: nothing weaker was left behind.\<close>

definition no_weak :: "win_fs \<Rightarrow> string \<Rightarrow> bool" where
  "no_weak w q = (\<forall>i ob. wf_names w q = Some i \<longrightarrow> wf_objects w i = Some ob \<longrightarrow> privileged (wo_owner ob) \<longrightarrow> wo_dacl ob = UpdatesDACL)"

lemma user_step_privileged:
  assumes "user_step w w'" and "wf_objects w' i = Some ob'" and "privileged (wo_owner ob')"
  shows "\<exists>ob. wf_objects w i = Some ob \<and> privileged (wo_owner ob) \<and> wo_dacl ob' = wo_dacl ob \<and> wo_directory ob' = wo_directory ob \<and>
    (wo_dacl ob = UpdatesDACL \<longrightarrow> ob' = ob)"
proof -
  have "privileged_at w' i" using assms(2,3) by (simp add: privileged_at_def)
  then have "privileged_at w i" using assms(1) unfolding user_step_def by blast
  then obtain ob where ob: "wf_objects w i = Some ob" "privileged (wo_owner ob)" by (auto simp: privileged_at_def split: option.splits)
  then obtain r where "wf_objects w' i = Some (ob\<lparr>wo_reparse := r\<rparr>)" "wo_dacl ob = UpdatesDACL \<longrightarrow> r = wo_reparse ob"
    using assms(1) unfolding user_step_def by blast
  with assms(2) ob show ?thesis by auto
qed

lemma user_step_name:
  "user_step w w' \<Longrightarrow> wf_names w' q = Some i \<Longrightarrow> privileged_at w' i \<Longrightarrow> wf_names w q = Some i"
  "user_step w w' \<Longrightarrow> wf_names w q = Some i \<Longrightarrow> privileged_at w i \<Longrightarrow> wf_names w' q = Some i"
  unfolding user_step_def by blast+

lemma guards_stable:
  assumes "user_step w w'" and "guards w q i"
  shows "guards w' q i"
proof -
  obtain ob where ob: "wf_names w q = Some i" "wf_objects w i = Some ob" "sound_object ob" "wo_dacl ob = UpdatesDACL"
    using assms(2) by (auto simp: guards_def)
  then obtain r where "wf_objects w' i = Some (ob\<lparr>wo_reparse := r\<rparr>)" "r = wo_reparse ob"
    using assms(1) unfolding user_step_def sound_object_def by blast
  then have "wf_objects w' i = Some (ob\<lparr>wo_reparse := wo_reparse ob\<rparr>)" by simp
  moreover have "wf_names w' q = Some i"
    using user_step_name(2) [OF assms(1) ob(1)] ob(2,3) by (simp add: privileged_at_def sound_object_def)
  ultimately show ?thesis using ob by (simp add: guards_def)
qed

lemma guarded_stable: "user_step w w' \<Longrightarrow> guarded w q \<Longrightarrow> guarded w' q"
  unfolding guarded_def by (blast intro: guards_stable)

lemma no_weak_stable:
  assumes "user_step w w'" and "no_weak w q"
  shows "no_weak w' q"
  unfolding no_weak_def
proof (intro allI impI)
  fix i ob' assume h: "wf_names w' q = Some i" "wf_objects w' i = Some ob'" "privileged (wo_owner ob')"
  then have "wf_names w q = Some i" using user_step_name(1) [OF assms(1)] by (simp add: privileged_at_def)
  with user_step_privileged [OF assms(1) h(2,3)] assms(2) show "wo_dacl ob' = UpdatesDACL" by (auto simp: no_weak_def)
qed

text \<open>What a running call knows of the object its handle pins.\<close>

definition pinned_ok :: "win_fs \<Rightarrow> string \<Rightarrow> nat \<Rightarrow> bool" where
  "pinned_ok w q i = (\<forall>ob. wf_objects w i = Some ob \<longrightarrow> privileged (wo_owner ob) \<longrightarrow> wf_names w q = Some i \<and> wo_dacl ob = UpdatesDACL)"

fun protect_inv :: "win_fs \<Rightarrow> string \<Rightarrow> protect_pc \<Rightarrow> bool" where
  "protect_inv w q (CheckingAttributes i) = pinned_ok w q i"
| "protect_inv w q (CheckingOwner i) =
    (pinned_ok w q i \<and> (\<forall>ob. wf_objects w i = Some ob \<longrightarrow> privileged (wo_owner ob) \<longrightarrow> sound_object ob))"
| "protect_inv w q (Stamping i) = guards w q i"
| "protect_inv w q Protected = guarded w q"
| "protect_inv w q _ = True"

lemma pinned_stable:
  assumes "user_step w w'" and "pinned_ok w q i"
  shows "pinned_ok w' q i"
  unfolding pinned_ok_def
proof (intro allI impI)
  fix ob' assume h: "wf_objects w' i = Some ob'" "privileged (wo_owner ob')"
  obtain ob where ob: "wf_objects w i = Some ob" "privileged (wo_owner ob)" "wo_dacl ob' = wo_dacl ob"
    using user_step_privileged [OF assms(1) h] by blast
  then have "wf_names w q = Some i" "wo_dacl ob = UpdatesDACL" using assms(2) by (auto simp: pinned_ok_def)
  with ob user_step_name(2) [OF assms(1)] show "wf_names w' q = Some i \<and> wo_dacl ob' = UpdatesDACL" by (simp add: privileged_at_def)
qed

lemma protect_inv_stable:
  assumes "user_step w w'" and "protect_inv w q pc"
  shows "protect_inv w' q pc"
proof (cases pc)
  case (CheckingOwner i)
  have "sound_object ob'" if h: "wf_objects w' i = Some ob'" "privileged (wo_owner ob')" for ob'
    using user_step_privileged [OF assms(1) h] assms(2) unfolding CheckingOwner protect_inv.simps pinned_ok_def by metis
  with CheckingOwner assms pinned_stable show ?thesis by auto
qed (use assms pinned_stable guards_stable guarded_stable in auto)

lemma check_owner_None: "check_owner ob = None \<longleftrightarrow> privileged (wo_owner ob)"
  by (cases "wo_owner ob") (simp_all add: check_owner_def)

lemma check_attributes_None: "check_attributes ob = None \<longleftrightarrow> wo_directory ob \<and> \<not> wo_reparse ob"
  by (simp add: check_attributes_def)

lemma protect_step_inv:
  assumes "protect_step who q w pc w' pc'" and "privileged who" and "no_weak w q" and "protect_inv w q pc"
  shows "protect_inv w' q pc'"
  using assms(1)
proof cases
  case (created i)
  then show ?thesis using assms(2) by (auto simp: guarded_def guards_def CreateDirectory_def new_directory_def sound_object_def)
next
  case (opened i ob)
  then show ?thesis using assms(3) by (auto simp: pinned_ok_def no_weak_def)
next
  case (good_attributes i ob)
  then show ?thesis using assms(4) by (auto simp: check_attributes_None sound_object_def)
next
  case (good_owner i ob)
  then show ?thesis using assms(4) by (auto simp: check_owner_None guards_def pinned_ok_def)
next
  case (stamped i)
  then show ?thesis using assms(4) by (auto simp: SetSecurityInfo_def guarded_def guards_def sound_object_def)
qed auto

lemma protect_step_no_weak:
  assumes "protect_step who p w pc w' pc'" and "no_weak w q"
  shows "no_weak w' q"
  using assms by cases (auto simp: no_weak_def CreateDirectory_def SetSecurityInfo_def new_directory_def split: if_splits)

lemma protect_step_guards:
  assumes "protect_step who p w pc w' pc'" and "p \<noteq> q" and "guards w q i"
  shows "guards w' q i"
  using assms by cases (auto simp: guards_def CreateDirectory_def SetSecurityInfo_def sound_object_def)

lemma protect_step_guarded: "protect_step who p w pc w' pc' \<Longrightarrow> p \<noteq> q \<Longrightarrow> guarded w q \<Longrightarrow> guarded w' q"
  unfolding guarded_def by (blast intro: protect_step_guards)

lemma paths_differ: "parent_path d \<noteq> updates_path d"
  by (simp add: updates_path_def)

fun updates_inv :: "string \<Rightarrow> win_fs \<Rightarrow> updates_pc \<Rightarrow> bool" where
  "updates_inv d w (InParent pc) = protect_inv w (parent_path d) pc"
| "updates_inv d w (InUpdates pc) = (guarded w (parent_path d) \<and> protect_inv w (updates_path d) pc)"
| "updates_inv d w (UpdatesReady p) = (p = updates_path d \<and> guarded w (parent_path d) \<and> guarded w (updates_path d))"
| "updates_inv d w _ = True"

abbreviation clean_start :: "string \<Rightarrow> win_fs \<Rightarrow> bool" where
  "clean_start d w \<equiv> no_weak w (parent_path d) \<and> no_weak w (updates_path d)"

lemma UpdatesDir_step_inv:
  assumes "UpdatesDir_step who d w pc w' pc'" and "privileged who" and "clean_start d w" and "updates_inv d w pc"
  shows "clean_start d w' \<and> updates_inv d w' pc'"
  using assms(1)
proof cases
  case (parent p p')
  then show ?thesis
    using assms(2-4) protect_step_inv [OF parent(3)] protect_step_no_weak [OF parent(3)] by auto
next
  case (child p p')
  then have "guarded w' (parent_path d)"
    using assms(4) protect_step_guarded [OF child(3), of "parent_path d"] paths_differ [of d] by simp
  with child show ?thesis
    using assms(2-4) protect_step_inv [OF child(3)] protect_step_no_weak [OF child(3)] by auto
qed (use assms in auto)

lemma updates_run_inv:
  assumes "updates_run who d w0 w pc" and "privileged who" and "clean_start d w0"
  shows "clean_start d w \<and> updates_inv d w pc"
  using assms(1)
proof (induction rule: updates_run.induct)
  case (user w pc w')
  have "updates_inv d w' pc"
    using user protect_inv_stable guarded_stable by (cases pc) auto
  with user no_weak_stable show ?case by blast
next
  case (daemon w pc w' pc')
  then show ?case using UpdatesDir_step_inv assms(2) by blast
qed (use assms(3) in simp)

text \<open>The access list that the daemon writes lands only on objects of SYSTEM or the administrators.\<close>

lemma stamp_spares_users:
  assumes "protect_step who q w pc w' pc'" and "wf_objects w i = Some ob" and "protect_inv w q pc" and "\<not> privileged (wo_owner ob)"
  shows "wf_objects w' i = Some ob"
  using assms by cases (auto simp: CreateDirectory_def SetSecurityInfo_def guards_def sound_object_def)

section \<open>Properties\<close>

text \<open>
  C24. The download directory is out of the users' hands. Whatever ordinary users do between the daemon's system calls, when \<^verbatim>\<open>UpdatesDir\<close>
  returns a path, started without a weaker directory of SYSTEM or the administrators at either place, then both the directory and its parent
  are real directories, no reparse points, of a privileged owner and with the protected access list, and they stay so whatever users do next.
\<close>

theorem updates_dir_guarded:
  assumes "updates_run who d w0 w (UpdatesReady p)" and "privileged who" and "no_weak w0 (parent_path d)" and "no_weak w0 (updates_path d)"
  shows "p = updates_path d \<and> guarded w (parent_path d) \<and> guarded w p \<and> (\<forall>w'. user_step\<^sup>*\<^sup>* w w' \<longrightarrow> guarded w' (parent_path d) \<and> guarded w' p)"
proof -
  have g: "p = updates_path d" "guarded w (parent_path d)" "guarded w (updates_path d)"
    using updates_run_inv [OF assms(1,2)] assms(3,4) by simp_all
  have "guarded w' q" if "user_step\<^sup>*\<^sup>* w w'" "guarded w q" for w' q
    using that by (induction rule: rtranclp_induct) (simp_all add: guarded_stable)
  with g show ?thesis by simp
qed

text \<open>A first start: neither directory exists.\<close>

definition empty_winfs :: win_fs where
  "empty_winfs = \<lparr>wf_objects = (\<lambda>_. None), wf_names = (\<lambda>_. None)\<rparr>"

theorem updates_dir_guarded_witness:
  "\<exists>w. updates_run LocalSystem ''C:'' empty_winfs w (UpdatesReady (updates_path ''C:'')) \<and> guarded w (updates_path ''C:'')"
proof -
  let ?w1 = "CreateDirectory LocalSystem (parent_path ''C:'') 0 empty_winfs"
  let ?w2 = "CreateDirectory LocalSystem (updates_path ''C:'') 1 ?w1"
  note go = updates_run.daemon
  have "updates_run LocalSystem ''C:'' empty_winfs empty_winfs (InParent Creating)"
    by (rule go [OF updates_run.begin_run]) (simp add: UpdatesDir_step.set)
  then have "updates_run LocalSystem ''C:'' empty_winfs ?w1 (InParent Protected)"
    by (rule go) (rule UpdatesDir_step.parent, rule protect_step.created, simp_all add: empty_winfs_def)
  then have "updates_run LocalSystem ''C:'' empty_winfs ?w1 (InUpdates Creating)" by (rule go) (rule UpdatesDir_step.parent_done)
  then have "updates_run LocalSystem ''C:'' empty_winfs ?w2 (InUpdates Protected)"
    by (rule go) (rule UpdatesDir_step.child, rule protect_step.created,
        simp_all add: empty_winfs_def CreateDirectory_def paths_differ [symmetric])
  then have run: "updates_run LocalSystem ''C:'' empty_winfs ?w2 (UpdatesReady (updates_path ''C:''))"
    by (rule go) (rule UpdatesDir_step.child_done)
  have "no_weak empty_winfs q" for q by (simp add: no_weak_def empty_winfs_def)
  with run updates_dir_guarded [OF run] show ?thesis by auto
qed

text \<open>What an older build may have left: the parent directory, of SYSTEM and empty, with the access list it inherited.\<close>

definition left_behind :: win_fs where
  "left_behind = \<lparr>wf_objects = [0 \<mapsto> (new_directory LocalSystem)\<lparr>wo_dacl := InheritedDACL\<rparr>], wf_names = [parent_path ''C:'' \<mapsto> 0]\<rparr>"

text \<open>
  A directory left behind can be swapped under the check. When an older build left an empty directory of SYSTEM with the inherited access list,
  a user can turn it into a reparse point between the daemon's check of its attributes and the stamp of the protected list: the
  daemon's handle still pins the object, \<^verbatim>\<open>UpdatesDir\<close> succeeds, and the parent of the path it returns is a junction of the user's choosing.
\<close>

theorem left_behind_becomes_junction:
  "\<exists>w ob. updates_run LocalSystem ''C:'' left_behind w (UpdatesReady (updates_path ''C:'')) \<and>
     wf_names w (parent_path ''C:'') = Some 0 \<and> wf_objects w 0 = Some ob \<and> wo_reparse ob"
proof -
  let ?d = "''C:''" and ?ob = "(new_directory LocalSystem)\<lparr>wo_dacl := InheritedDACL\<rparr>"
  let ?w1 = "left_behind\<lparr>wf_objects := (wf_objects left_behind)(0 \<mapsto> ?ob\<lparr>wo_reparse := True\<rparr>)\<rparr>"
  let ?w2 = "SetSecurityInfo 0 ?w1"
  let ?w3 = "CreateDirectory LocalSystem (updates_path ?d) 1 ?w2"
  note go = updates_run.daemon
  have ob: "wf_objects left_behind 0 = Some ?ob" and name: "wf_names left_behind (parent_path ?d) = Some 0" by (simp_all add: left_behind_def)
  have "updates_run LocalSystem ?d left_behind left_behind (InParent Creating)"
    by (rule go [OF updates_run.begin_run]) (simp add: UpdatesDir_step.set)
  then have "updates_run LocalSystem ?d left_behind left_behind (InParent Opening)"
    by (rule go) (rule UpdatesDir_step.parent, rule protect_step.already_exists, rule name)
  then have "updates_run LocalSystem ?d left_behind left_behind (InParent (CheckingAttributes 0))"
    by (rule go) (rule UpdatesDir_step.parent, rule protect_step.opened, rule name, rule ob)
  then have "updates_run LocalSystem ?d left_behind left_behind (InParent (CheckingOwner 0))"
    by (rule go) (rule UpdatesDir_step.parent, rule protect_step.good_attributes, rule ob, simp add: new_directory_def check_attributes_def)
  moreover have "user_step left_behind ?w1"
    unfolding user_step_def privileged_at_def by (auto simp: left_behind_def new_directory_def split: if_splits)
  ultimately have "updates_run LocalSystem ?d left_behind ?w1 (InParent (CheckingOwner 0))" by (rule updates_run.user)
  then have "updates_run LocalSystem ?d left_behind ?w1 (InParent (Stamping 0))"
    by (rule go) (rule UpdatesDir_step.parent, rule protect_step.good_owner, simp, simp add: new_directory_def check_owner_def)
  then have "updates_run LocalSystem ?d left_behind ?w2 (InParent Protected)"
    by (rule go) (rule UpdatesDir_step.parent, rule protect_step.stamped)
  then have "updates_run LocalSystem ?d left_behind ?w2 (InUpdates Creating)" by (rule go) (rule UpdatesDir_step.parent_done)
  then have "updates_run LocalSystem ?d left_behind ?w3 (InUpdates Protected)"
    by (rule go) (rule UpdatesDir_step.child, rule protect_step.created,
      simp_all add: SetSecurityInfo_def left_behind_def paths_differ [of ?d, symmetric])
  then have "updates_run LocalSystem ?d left_behind ?w3 (UpdatesReady (updates_path ?d))"
    by (rule go) (rule UpdatesDir_step.child_done)
  moreover have "wf_names ?w3 (parent_path ?d) = Some 0" using name paths_differ [of ?d] by (simp add: CreateDirectory_def SetSecurityInfo_def)
  moreover have "wf_objects ?w3 0 = Some (?ob\<lparr>wo_reparse := True, wo_dacl := UpdatesDACL\<rparr>)"
    by (simp add: CreateDirectory_def SetSecurityInfo_def)
  ultimately show ?thesis by (intro exI conjI) (assumption | simp)+
qed

end
