(* ===== verification/Engine_Run.thy ===== *)
theory Engine_Run
  imports Engine_Plan
begin

text \<open>
  The running data plane (\<^verbatim>\<open>daemon-go/internal/engine\<close>: \<^verbatim>\<open>session.go\<close>, \<^verbatim>\<open>engine.go\<close>, \<^verbatim>\<open>backend.go\<close>, \<^verbatim>\<open>bridge.go\<close>,
  \<^verbatim>\<open>xray_backend.go\<close>, \<^verbatim>\<open>dialmark.go\<close>, the live queries of \<^verbatim>\<open>plan.go\<close> and the single-node configs of \<^verbatim>\<open>compile.go\<close> and
  \<^verbatim>\<open>config.go\<close>): start and stop of the two cores, the bridge from a sing-box outbound to an xray node, and the selector.

  The cores are not modelled. What a call into one answers is an argument (\<open>start_env\<close>, \<open>close_env\<close>), and \<open>plant\<close> keeps the handles
  that are live and the installed bypass. How xray picks an outbound is the parameter \<open>pick\<close>, with the documented rule
  \<open>routes_by_inbound_tag\<close> as a hypothesis.

  Main results: a start that fails leaves nothing behind and a close releases all of a session; every xray-routed member of a compiled
  plan reaches the outbound compiled from its own node, over TCP and UDP.
\<close>

section \<open>Start and stop\<close>

datatype handle = XrayInstance nat | BoxInstance nat

text \<open>The live handles, the next fresh number, and the box whose interface bind the probe dials use.\<close>

record plant =
  pt_live :: "handle list"
  pt_next :: nat
  pt_bypass :: "nat option"

text \<open>Answers of the cores to a start: an error or nothing; \<open>se_monitor\<close>: the box has an interface monitor.\<close>

record start_env =
  se_load_xray :: "string option"
  se_new_xray :: "string option"
  se_start_xray :: "string option"
  se_box_options :: "string option"
  se_new_box :: "string option"
  se_start_box :: "string option"
  se_monitor :: bool

datatype start_error = BuildXrayErr string | BuildBoxErr string | StartBoxErr string

record session =
  ss_box :: "nat option"
  ss_backends :: "nat list"

definition open_handle :: "(nat \<Rightarrow> handle) \<Rightarrow> plant \<Rightarrow> plant \<times> nat" where
  "open_handle h pl = (pl\<lparr>pt_live := h (pt_next pl) # pt_live pl, pt_next := pt_next pl + 1\<rparr>, pt_next pl)"

definition release :: "handle \<Rightarrow> plant \<Rightarrow> plant" where
  "release h pl = pl\<lparr>pt_live := removeAll h (pt_live pl)\<rparr>"

definition BuildXray :: "start_env \<Rightarrow> plant \<Rightarrow> plant \<times> (string + nat)" where
  "BuildXray se pl = (case se_load_xray se of
     Some e \<Rightarrow> (pl, Inl e)
   | None \<Rightarrow> (case se_new_xray se of
       Some e \<Rightarrow> (pl, Inl e)
     | None \<Rightarrow> (let (pl1, x) = open_handle XrayInstance pl in
         case se_start_xray se of
           Some e \<Rightarrow> (release (XrayInstance x) pl1, Inl e)
         | None \<Rightarrow> (pl1, Inr x))))"

definition BuildBox :: "start_env \<Rightarrow> plant \<Rightarrow> plant \<times> (string + nat)" where
  "BuildBox se pl = (case se_box_options se of
     Some e \<Rightarrow> (pl, Inl e)
   | None \<Rightarrow> (case se_new_box se of
       Some e \<Rightarrow> (pl, Inl e)
     | None \<Rightarrow> (let (pl1, b) = open_handle BoxInstance pl in (pl1, Inr b))))"

definition closeBackends :: "nat list \<Rightarrow> plant \<Rightarrow> plant" where
  "closeBackends backends pl = foldl (\<lambda>pl x. release (XrayInstance x) pl) pl backends"

definition SetTunBypass :: "nat option \<Rightarrow> plant \<Rightarrow> plant" where
  "SetTunBypass fn pl = pl\<lparr>pt_bypass := fn\<rparr>"

definition ClearTunBypass :: "plant \<Rightarrow> plant" where
  "ClearTunBypass pl = pl\<lparr>pt_bypass := None\<rparr>"

definition StartWithOptions :: "start_env \<Rightarrow> plant \<Rightarrow> plant \<times> (start_error + session)" where
  "StartWithOptions se pl = (case BuildXray se pl of
     (pl1, Inl e) \<Rightarrow> (pl1, Inl (BuildXrayErr e))
   | (pl1, Inr x) \<Rightarrow> (case BuildBox se pl1 of
       (pl2, Inl e) \<Rightarrow> (closeBackends [x] pl2, Inl (BuildBoxErr e))
     | (pl2, Inr b) \<Rightarrow> (case se_start_box se of
         Some e \<Rightarrow> (closeBackends [x] (release (BoxInstance b) pl2), Inl (StartBoxErr e))
       | None \<Rightarrow> (SetTunBypass (if se_monitor se then Some b else None) pl2, Inr \<lparr>ss_box = Some b, ss_backends = [x]\<rparr>))))"

text \<open>Errors a close may report; a handle is released all the same.\<close>

record close_env =
  ce_box :: "string option"
  ce_backend :: "nat \<Rightarrow> string option"

definition Close :: "close_env \<Rightarrow> session \<Rightarrow> plant \<Rightarrow> plant \<times> session \<times> string list" where
  "Close ce s pl =
    (let pl1 = ClearTunBypass pl;
         (pl2, e1) = (case ss_box s of
            None \<Rightarrow> (pl1, [])
          | Some b \<Rightarrow> (release (BoxInstance b) pl1, case ce_box ce of None \<Rightarrow> [] | Some e \<Rightarrow> [''close sing-box: '' @ e]))
     in (closeBackends (ss_backends s) pl2, s\<lparr>ss_box := None, ss_backends := []\<rparr>,
         e1 @ concat (map (\<lambda>x. case ce_backend ce x of None \<Rightarrow> [] | Some e \<Rightarrow> [''close '' @ OutboundType @ '' backend: '' @ e]) (ss_backends s))))"

text \<open>Off Linux a probe's dial is bound to the physical interface when a bypass is installed.\<close>

definition bypassControl :: "(nat \<Rightarrow> string option) \<Rightarrow> plant \<Rightarrow> string option" where
  "bypassControl bind pl = (case pt_bypass pl of None \<Rightarrow> None | Some b \<Rightarrow> bind b)"

section \<open>The selector\<close>

datatype live_outbound =
    Selector "string list" string
  | OtherGroup string
  | PlainOutbound

type_synonym outbounds = "string \<Rightarrow> live_outbound option"

datatype select_error = NotRunning | NoSelector | NotASelector | NotAMember string

text \<open>\<open>box\<close> is the running box's outbounds, \<open>None\<close> when the pointer is nil.\<close>

definition SelectOutbound :: "string \<Rightarrow> outbounds option \<Rightarrow> select_error + outbounds" where
  "SelectOutbound tag box = (case box of
     None \<Rightarrow> Inl NotRunning
   | Some obs \<Rightarrow> (case obs SelectorTag of
       None \<Rightarrow> Inl NoSelector
     | Some (Selector members now) \<Rightarrow>
         if tag \<in> set members then Inr (obs(SelectorTag \<mapsto> Selector members tag)) else Inl (NotAMember tag)
     | Some _ \<Rightarrow> Inl NotASelector))"

definition SelectedOutbound :: "outbounds option \<Rightarrow> string option" where
  "SelectedOutbound box = (case box of
     None \<Rightarrow> None
   | Some obs \<Rightarrow> (case obs SelectorTag of Some (Selector members now) \<Rightarrow> Some now | _ \<Rightarrow> None))"

text \<open>What the current pick of a group is: a selector is a group too.\<close>

fun group_now :: "live_outbound \<Rightarrow> string option" where
  "group_now (Selector members now) = Some now"
| "group_now (OtherGroup now) = Some now"
| "group_now PlainOutbound = None"

text \<open>The second load of the box may find it closed: \<open>box2\<close>.\<close>

definition LiveOutbound :: "outbounds option \<Rightarrow> outbounds option \<Rightarrow> string option" where
  "LiveOutbound box box2 = (case SelectedOutbound box of
     None \<Rightarrow> None
   | Some selected \<Rightarrow> (case box2 of
       None \<Rightarrow> Some selected
     | Some obs \<Rightarrow> (case obs selected of
         None \<Rightarrow> Some selected
       | Some ob \<Rightarrow> (case group_now ob of
           None \<Rightarrow> Some selected
         | Some now \<Rightarrow> if now \<noteq> [] then Some now else Some selected))))"

section \<open>The bridge\<close>

record backendOutbound =
  bo_type :: string
  bo_tag :: string
  bo_node_id :: string

text \<open>The constructor registered for the backend's outbound type, on the entry's own options.\<close>

definition backend_outbound :: "json obj \<Rightarrow> backendOutbound option" where
  "backend_outbound ob = (if jget ob ''type'' = Some (JStr OutboundType)
     then Some \<lparr>bo_type = OutboundType, bo_tag = (case jget ob ''tag'' of Some (JStr t) \<Rightarrow> t | _ \<Rightarrow> []),
                bo_node_id = (case jget ob ''node_id'' of Some (JStr i) \<Rightarrow> i | _ \<Rightarrow> [])\<rparr>
     else None)"

datatype xray_address = DomainAddress string | IPAddress "8 word list"
datatype xray_destination = TCPDestination xray_address u16 | UDPDestination xray_address u16

record socksaddr =
  sa_fqdn :: string
  sa_addr :: "8 word list"
  sa_port :: u16

definition toXray :: "string \<Rightarrow> socksaddr \<Rightarrow> xray_destination" where
  "toXray network dest = (let addr = (if sa_fqdn dest \<noteq> [] then DomainAddress (sa_fqdn dest) else IPAddress (sa_addr dest)) in
     if network = ''udp'' then UDPDestination addr (sa_port dest) else TCPDestination addr (sa_port dest))"

text \<open>A call into xray: the inbound tag on its context, and the destination of a stream.\<close>

record xray_call =
  xc_inbound :: string
  xc_dest :: "xray_destination option"

definition xray_DialContext :: "string \<Rightarrow> string \<Rightarrow> socksaddr \<Rightarrow> xray_call" where
  "xray_DialContext nodeID network dest = \<lparr>xc_inbound = nodeID, xc_dest = Some (toXray network dest)\<rparr>"

definition DialContext :: "backendOutbound \<Rightarrow> string \<Rightarrow> socksaddr \<Rightarrow> xray_call" where
  "DialContext bo network dest = xray_DialContext (bo_node_id bo) network dest"

definition xray_ListenPacket :: "string \<Rightarrow> xray_call" where
  "xray_ListenPacket nodeID = \<lparr>xc_inbound = nodeID, xc_dest = None\<rparr>"

definition ListenPacket :: "backendOutbound \<Rightarrow> xray_call" where
  "ListenPacket bo = xray_ListenPacket (bo_node_id bo)"

section \<open>Single-node configs\<close>

definition singBoxTUNConfig :: "string \<Rightarrow> string \<Rightarrow> json obj" where
  "singBoxTUNConfig goos tunName =
    [(''log'', JObj [(''level'', JStr ''info'')]),
     (''dns'', JObj [(''strategy'', JStr ''prefer_ipv4''),
        (''servers'', JArr [JObj [(''tag'', JStr ''dns-google''), (''type'', JStr ''tls''), (''server'', JStr ''8.8.8.8'')],
                          JObj [(''tag'', JStr ''local''), (''type'', JStr ''tls''), (''server'', JStr ''1.1.1.1'')]]),
        (''rules'', JArr [JObj [(''query_type'', enc_strings [''A'', ''AAAA'']), (''server'', JStr ''dns-google'')]])]),
     (''inbounds'', JArr [JObj ([(''type'', JStr ''tun''), (''tag'', JStr ''tun-in'')] @
        (if tunName \<noteq> [] then [(''interface_name'', JStr tunName)] else []) @
        [(''address'', enc_strings [''172.18.0.1/30'', ''fdfe:dcba:9876::1/126'']), (''mtu'', JInt 1500), (''auto_route'', JBool True)] @
        (if goos = ''linux'' then [(''auto_redirect'', JBool True)] else []) @
        [(''strict_route'', JBool True), (''stack'', JStr ''mixed''), (''route_exclude_address'', enc_strings [''192.168.0.0/16''])])]),
     (''outbounds'', JArr [JObj [(''type'', JStr OutboundType), (''tag'', JStr ''proxy'')], JObj [(''type'', JStr ''direct''), (''tag'', JStr ''direct'')]]),
     (''route'', JObj [(''auto_detect_interface'', JBool True), (''default_domain_resolver'', JStr ''dns-google''), (''final'', JStr ''proxy''),
        (''rules'', JArr [JObj [(''action'', JStr ''sniff'')],
                        JObj [(''protocol'', enc_strings [''dns'']), (''action'', JStr ''hijack-dns'')]])])]"

definition singBoxSocksConfig :: "string \<Rightarrow> int \<Rightarrow> json obj" where
  "singBoxSocksConfig host port =
    [(''log'', JObj [(''level'', JStr ''warn'')]),
     (''inbounds'', JArr [JObj [(''type'', JStr ''socks''), (''tag'', JStr ''socks-in''), (''listen'', JStr host), (''listen_port'', JInt port)]]),
     (''outbounds'', JArr [JObj [(''type'', JStr OutboundType), (''tag'', JStr ''proxy'')], JObj [(''type'', JStr ''direct''), (''tag'', JStr ''direct'')]]),
     (''route'', JObj [(''final'', JStr ''proxy''), (''rules'', JArr [JObj [(''action'', JStr ''sniff'')]])])]"

definition NodeTUNConfigs :: "string \<Rightarrow> string \<Rightarrow> profile \<Rightarrow> string \<Rightarrow> plan_error + (json obj \<times> json obj)" where
  "NodeTUNConfigs goos env p tunName =
     rbind (CompileXrayClient env p ''@il-xray-node-tun'') (\<lambda>xray. Inr (singBoxTUNConfig goos tunName, xray))"

definition NodeSocksConfigs :: "string \<Rightarrow> profile \<Rightarrow> string \<Rightarrow> int \<Rightarrow> plan_error + (json obj \<times> json obj)" where
  "NodeSocksConfigs env p host port =
     rbind (CompileXrayClient env p ''@il-xray-node-socks'') (\<lambda>xray. Inr (singBoxSocksConfig host port, xray))"

section \<open>Life cycle\<close>

definition fresh_plant :: "plant \<Rightarrow> bool" where
  "fresh_plant pl = (\<forall>n. XrayInstance n \<in> set (pt_live pl) \<or> BoxInstance n \<in> set (pt_live pl) \<longrightarrow> n < pt_next pl)"

lemma fresh_handles:
  assumes "fresh_plant pl" and "pt_next pl \<le> n"
  shows "XrayInstance n \<notin> set (pt_live pl)" "BoxInstance n \<notin> set (pt_live pl)"
  using assms by (auto simp: fresh_plant_def)

lemma removeAll_fresh:
  "fresh_plant pl \<Longrightarrow> pt_next pl \<le> n \<Longrightarrow> removeAll (XrayInstance n) (pt_live pl) = pt_live pl"
  "fresh_plant pl \<Longrightarrow> pt_next pl \<le> n \<Longrightarrow> removeAll (BoxInstance n) (pt_live pl) = pt_live pl"
  by (simp_all add: fresh_handles removeAll_id)

lemmas lifecycle_defs = StartWithOptions_def BuildXray_def BuildBox_def open_handle_def release_def closeBackends_def SetTunBypass_def
  ClearTunBypass_def Let_def

lemma start_cases:
  assumes "fresh_plant pl"
  shows "case StartWithOptions se pl of
     (pl', Inl e) \<Rightarrow> pt_live pl' = pt_live pl \<and> pt_bypass pl' = pt_bypass pl
   | (pl', Inr s) \<Rightarrow> \<exists>x b. s = \<lparr>ss_box = Some b, ss_backends = [x]\<rparr> \<and> pt_live pl' = BoxInstance b # XrayInstance x # pt_live pl \<and>
       pt_next pl \<le> x \<and> pt_next pl \<le> b \<and> pt_bypass pl' = (if se_monitor se then Some b else None)"
  using removeAll_fresh [OF assms] by (simp add: lifecycle_defs split: option.split)

lemma start_fresh: "fresh_plant pl \<Longrightarrow> fresh_plant (fst (StartWithOptions se pl))"
  by (auto simp: lifecycle_defs fresh_plant_def split: option.split)

lemma release_many:
  "pt_live (closeBackends xs pl) = filter (\<lambda>h. h \<notin> XrayInstance ` set xs) (pt_live pl)"
  "pt_bypass (closeBackends xs pl) = pt_bypass pl"
  by (induction xs arbitrary: pl) (auto simp: closeBackends_def release_def removeAll_filter_not_eq intro!: filter_cong)

section \<open>Dispatch\<close>

text \<open>
  The documented rule of xray's router for configs of this shape: the first rule that lists the inbound tag names the outbound; without
  one the first outbound is taken.
\<close>

definition rule_matches :: "string \<Rightarrow> json \<Rightarrow> bool" where
  "rule_matches tag rule = (case rule of
     JObj f \<Rightarrow> (case jget f ''inboundTag'' of Some (JArr ts) \<Rightarrow> JStr tag \<in> set ts | _ \<Rightarrow> False)
   | _ \<Rightarrow> False)"

definition rule_target :: "json \<Rightarrow> json option" where
  "rule_target rule = (case rule of JObj f \<Rightarrow> jget f ''outboundTag'' | _ \<Rightarrow> None)"

definition first_match :: "json list \<Rightarrow> json list \<Rightarrow> string \<Rightarrow> json option" where
  "first_match rules obs tag = (case find (rule_matches tag) rules of
     None \<Rightarrow> Some (hd obs)
   | Some rule \<Rightarrow> find (\<lambda>ob. outbound_tag ob = rule_target rule) obs)"

definition routes_by_inbound_tag :: "(json obj \<Rightarrow> string \<Rightarrow> json option) \<Rightarrow> bool" where
  "routes_by_inbound_tag pick = (\<forall>cfg r rules obs tag.
     jget cfg ''routing'' = Some (JObj r) \<longrightarrow> jget r ''rules'' = Some (JArr rules) \<longrightarrow> jget cfg ''outbounds'' = Some (JArr obs) \<longrightarrow>
     distinct (map outbound_tag obs) \<longrightarrow> pick cfg tag = first_match rules obs tag)"

lemma rule_simps [simp]:
  "rule_matches tag (xray_node_rule i) = (tag = i)" "rule_matches tag xray_dns_rule = (tag = ''dns-internal'')"
  "rule_target (xray_node_rule i) = Some (JStr i)" "rule_target xray_dns_rule = Some (JStr ''direct'')"
  by (auto simp: rule_matches_def rule_target_def xray_node_rule_def xray_dns_rule_def obj_simps)

lemma find_node_rule:
  "find (rule_matches i) (map (\<lambda>(i, _). xray_node_rule i) nodes) = (if i \<in> fst ` set nodes then Some (xray_node_rule i) else None)"
  by (induction nodes) auto

lemma find_node_outbound:
  assumes "traverse (\<lambda>(i, p). xray_node_outbound i p) nodes = Inr obs" and "(i, p) \<in> set nodes" and "distinct (map fst nodes)"
  shows "\<exists>ob. xray_node_outbound i p = Inr ob \<and> find (\<lambda>ob. outbound_tag ob = Some (JStr i)) obs = Some ob"
  using assms
proof (induction nodes arbitrary: obs)
  case (Cons n nodes)
  obtain k q where n: "n = (k, q)" by (cases n)
  from Cons.prems(1) obtain ob rest where ob: "xray_node_outbound k q = Inr ob" "obs = ob # rest"
      "traverse (\<lambda>(i, p). xray_node_outbound i p) nodes = Inr rest"
    by (auto simp: n rbind_eq_Inr_iff)
  have tag: "outbound_tag ob = Some (JStr k)" using xray_node_outbound_marked [OF ob(1)] by simp
  show ?case
  proof (cases "i = k")
    case True
    with Cons.prems(2,3) have "p = q" by (force simp: n)
    with True ob tag show ?thesis by simp
  next
    case False
    with Cons.prems Cons.IH [OF ob(3)] ob tag show ?thesis by (auto simp: n)
  qed
qed simp

lemma find_append_Some: "find P xs = Some x \<Longrightarrow> find P (xs @ ys) = Some x"
  by (induction xs) auto

lemma compiled_dispatch:
  assumes "routes_by_inbound_tag pick" and "compileXrayClientNodes env nodes stub = Inr cfg"
    and "distinct (map fst nodes)" and "''direct'' \<notin> fst ` set nodes"
  shows "\<And>i p. (i, p) \<in> set nodes \<Longrightarrow> i \<noteq> ''dns-internal'' \<Longrightarrow> \<exists>ob. xray_node_outbound i p = Inr ob \<and> pick cfg i = Some ob"
    and "\<And>i. i \<notin> fst ` set nodes \<Longrightarrow> i \<noteq> ''dns-internal'' \<Longrightarrow>
      \<exists>ob. xray_node_outbound (fst (hd nodes)) (snd (hd nodes)) = Inr ob \<and> pick cfg i = Some ob"
proof -
  obtain obs where h: "nodes \<noteq> []" "traverse (\<lambda>(i, p). xray_node_outbound i p) nodes = Inr obs"
    "jget cfg ''outbounds'' = Some (JArr (obs @ [xray_direct_outbound]))"
    "jget cfg ''routing'' = Some (JObj [(''domainStrategy'', JStr ''AsIs''),
       (''rules'', JArr (xray_dns_rule # map (\<lambda>(i, _). xray_node_rule i) nodes))])"
    by (rule compileXray_Inr [OF assms(2)])
  have tags: "map outbound_tag obs = map (\<lambda>i. Some (JStr i)) (map fst nodes)"
    using xray_outbounds_marked [OF h(2)] by (simp add: case_prod_unfold o_def)
  have direct: "outbound_tag xray_direct_outbound = Some (JStr ''direct'')"
    by (simp add: xray_direct_outbound_def outbound_tag_def obj_simps)
  have "distinct (map outbound_tag (obs @ [xray_direct_outbound]))"
    using assms(3,4) by (auto simp: tags direct distinct_map inj_on_def)
  then have pick: "pick cfg tag = first_match (xray_dns_rule # map (\<lambda>(i, _). xray_node_rule i) nodes) (obs @ [xray_direct_outbound]) tag" for tag
    using assms(1) h(3,4) unfolding routes_by_inbound_tag_def by (simp add: obj_simps)
  show "\<exists>ob. xray_node_outbound i p = Inr ob \<and> pick cfg i = Some ob" if "(i, p) \<in> set nodes" "i \<noteq> ''dns-internal''" for i p
  proof -
    have "i \<in> fst ` set nodes" using that(1) by force
    with that find_node_outbound [OF h(2) that(1) assms(3)] show ?thesis
      by (auto simp: pick first_match_def find_node_rule find_append_Some)
  qed
  show "\<exists>ob. xray_node_outbound (fst (hd nodes)) (snd (hd nodes)) = Inr ob \<and> pick cfg i = Some ob"
    if "i \<notin> fst ` set nodes" "i \<noteq> ''dns-internal''" for i
    using that h(1,2) by (cases nodes) (auto simp: pick first_match_def find_node_rule rbind_eq_Inr_iff)
qed

text \<open>The single-node configs leave \<^verbatim>\<open>node_id\<close> out: the empty inbound tag reaches the one node as the default outbound.\<close>

lemma single_node_reached:
  assumes "routes_by_inbound_tag pick" and "NodeTUNConfigs goos env p tunName = Inr (sb, xr)"
  shows "\<exists>bo ob. backend_outbound [(''type'', JStr OutboundType), (''tag'', JStr ''proxy'')] = Some bo \<and>
    JObj [(''type'', JStr OutboundType), (''tag'', JStr ''proxy'')] \<in> (case jget sb ''outbounds'' of Some (JArr obs) \<Rightarrow> set obs | _ \<Rightarrow> {}) \<and>
    xray_node_outbound singleNodeTag p = Inr ob \<and> pick xr (xc_inbound (DialContext bo network dest)) = Some ob"
proof -
  from assms(2) have c: "compileXrayClientNodes env [(singleNodeTag, p)] ''@il-xray-node-tun'' = Inr xr" and sb: "sb = singBoxTUNConfig goos tunName"
    by (auto simp: NodeTUNConfigs_def CompileXrayClient_def rbind_eq_Inr_iff)
  from compiled_dispatch(2) [OF assms(1) c, of "[]"] show ?thesis
    by (auto simp: sb singBoxTUNConfig_def backend_outbound_def DialContext_def xray_DialContext_def obj_simps)
qed

text \<open>
  A node whose id is the tag of xray's own DNS would be sent to the direct outbound: plans do not reserve that id, and the ids the daemon makes
  are UUIDs.
\<close>

lemma dns_tag_goes_direct:
  assumes "routes_by_inbound_tag pick" and "compileXrayClientNodes env nodes stub = Inr cfg"
    and "distinct (map fst nodes)" and "''direct'' \<notin> fst ` set nodes"
  shows "pick cfg ''dns-internal'' = Some xray_direct_outbound"
proof -
  obtain obs where h: "traverse (\<lambda>(i, p). xray_node_outbound i p) nodes = Inr obs"
    "jget cfg ''outbounds'' = Some (JArr (obs @ [xray_direct_outbound]))"
    "jget cfg ''routing'' = Some (JObj [(''domainStrategy'', JStr ''AsIs''),
       (''rules'', JArr (xray_dns_rule # map (\<lambda>(i, _). xray_node_rule i) nodes))])"
    by (rule compileXray_Inr [OF assms(2)])
  have tags: "map outbound_tag obs = map (\<lambda>i. Some (JStr i)) (map fst nodes)"
    using xray_outbounds_marked [OF h(1)] by (simp add: case_prod_unfold o_def)
  have direct: "outbound_tag xray_direct_outbound = Some (JStr ''direct'')"
    by (simp add: xray_direct_outbound_def outbound_tag_def obj_simps)
  have "outbound_tag ` set obs = (\<lambda>i. Some (JStr i)) ` fst ` set nodes" using arg_cong [OF tags, of set] by (simp add: image_image)
  then have "Some (JStr ''direct'') \<notin> outbound_tag ` set obs" using assms(4) by auto
  then have "find (\<lambda>ob. outbound_tag ob = Some (JStr ''direct'')) (obs @ [xray_direct_outbound]) = Some xray_direct_outbound"
    by (induction obs) (auto simp: direct)
  moreover have "distinct (map outbound_tag (obs @ [xray_direct_outbound]))"
    using assms(3,4) by (auto simp: tags direct distinct_map inj_on_def)
  ultimately show ?thesis
    using assms(1) h(2,3) unfolding routes_by_inbound_tag_def by (simp add: obj_simps first_match_def)
qed

text \<open>A successful switch is what the queries report; a refused one leaves the box as it was.\<close>

lemma select_reported:
  assumes "SelectOutbound tag box = Inr obs"
  shows "SelectedOutbound (Some obs) = Some tag" and "obs(SelectorTag := None) = (the box)(SelectorTag := None)"
    and "tag \<noteq> SelectorTag \<Longrightarrow> LiveOutbound (Some obs) (Some obs) =
      (case obs tag of Some ob \<Rightarrow> (case group_now ob of Some now \<Rightarrow> if now \<noteq> [] then Some now else Some tag | None \<Rightarrow> Some tag) | None \<Rightarrow> Some tag)"
  using assms by (auto simp: SelectOutbound_def SelectedOutbound_def LiveOutbound_def split: option.splits live_outbound.splits if_splits)

text \<open>
  Traffic routed to an xray member leaves through that very node, over streams and datagrams, whatever other nodes share the instance.
\<close>

lemma bridge_reaches_own_node:
  assumes "routes_by_inbound_tag pick" and "plan_configs env p tun inbound stub = Inr (sb, xr)"
    and "n \<in> set (sp_xray_nodes p)" and "nn_id n \<noteq> ''dns-internal''" and "''direct'' \<notin> nn_id ` set (sp_xray_nodes p)"
  shows "\<exists>obs bo out. jget sb ''outbounds'' = Some (JArr (map JObj obs)) \<and> xray_member n \<in> set obs \<and>
    backend_outbound (xray_member n) = Some bo \<and> xray_node_outbound (nn_id n) (nn_profile n) = Inr out \<and>
    pick xr (xc_inbound (DialContext bo network dest)) = Some out \<and> pick xr (xc_inbound (ListenPacket bo)) = Some out"
proof -
  obtain obs where v: "validate p = None" and obs: "planOutbounds p = Inr obs" "jget sb ''outbounds'' = Some (JArr (map JObj obs))"
    and xr: "xrayConfig env p stub = Inr xr"
    using plan_configs_Inr [OF assms(2)] by blast
  let ?nodes = "map (\<lambda>n. (nn_id n, nn_profile n)) (sp_xray_nodes p)"
  have c: "compileXrayClientNodes env ?nodes stub = Inr xr"
    using xr assms(3) by (auto simp: xrayConfig_def split: if_splits)
  have "distinct (map fst ?nodes)" using v by (auto simp: validate_None plan_ok_def memberTags_def nodeTags_def o_def)
  moreover have "''direct'' \<notin> fst ` set ?nodes" using assms(5) by (auto simp: image_image)
  ultimately obtain out where "xray_node_outbound (nn_id n) (nn_profile n) = Inr out" "pick xr (nn_id n) = Some out"
    using compiled_dispatch(1) [OF assms(1) c, of "nn_id n" "nn_profile n"] assms(3,4) by auto
  moreover have "xray_member n \<in> set obs" using obs(1) assms(3) by (auto simp: planOutbounds_def rbind_eq_Inr_iff)
  ultimately show ?thesis
    using obs(2) by (auto simp: backend_outbound_def xray_member_def DialContext_def xray_DialContext_def ListenPacket_def
        xray_ListenPacket_def obj_simps)
qed

section \<open>Properties\<close>

text \<open>
  C19. Sessions leak nothing. A start that fails at any point leaves the live instances and the installed bypass as they were; a session that
  started owns one box and one xray instance, and closing it, whatever errors the cores report on the way, leaves exactly the instances there were
  before, no bypass, and a session whose second close does nothing and reports nothing.
\<close>

theorem session_lifecycle_clean:
  assumes "fresh_plant pl"
  shows "case StartWithOptions se pl of
     (pl', Inl e) \<Rightarrow> pt_live pl' = pt_live pl \<and> pt_bypass pl' = pt_bypass pl
   | (pl', Inr s) \<Rightarrow> length (pt_live pl') = length (pt_live pl) + 2 \<and>
       (case Close ce s pl' of (pl'', s'', errs) \<Rightarrow> pt_live pl'' = pt_live pl \<and> pt_bypass pl'' = None \<and>
          Close ce' s'' pl'' = (pl'', s'', []))"
proof (cases "StartWithOptions se pl")
  case (Pair pl' r)
  show ?thesis
  proof (cases r)
    case (Inl e)
    with start_cases [OF assms, of se] Pair show ?thesis by simp
  next
    case (Inr s)
    with start_cases [OF assms, of se] Pair obtain x b where s: "s = \<lparr>ss_box = Some b, ss_backends = [x]\<rparr>"
        "pt_live pl' = BoxInstance b # XrayInstance x # pt_live pl" "pt_next pl \<le> x" "pt_next pl \<le> b" by auto
    with removeAll_fresh [OF assms] Pair Inr show ?thesis
      by (simp add: Close_def release_def closeBackends_def ClearTunBypass_def Let_def)
  qed
qed

theorem session_lifecycle_clean_witness:
  "let pl = \<lparr>pt_live = [], pt_next = 0, pt_bypass = None\<rparr>;
       se = \<lparr>se_load_xray = None, se_new_xray = None, se_start_xray = None, se_box_options = None, se_new_box = None,
             se_start_box = Some ''operation not permitted'', se_monitor = True\<rparr> in
   pt_live (fst (StartWithOptions se pl)) = [] \<and> pt_bypass (fst (StartWithOptions se pl)) = None"
proof -
  let ?pl = "\<lparr>pt_live = [], pt_next = 0, pt_bypass = None\<rparr> :: plant"
  let ?se = "\<lparr>se_load_xray = None, se_new_xray = None, se_start_xray = None, se_box_options = None, se_new_box = None,
             se_start_box = Some ''operation not permitted'', se_monitor = True\<rparr> :: start_env"
  have "fresh_plant ?pl" by (simp add: fresh_plant_def)
  moreover have "snd (StartWithOptions ?se ?pl) = Inl (StartBoxErr ''operation not permitted'')" by (simp add: lifecycle_defs)
  then obtain pl' where st: "StartWithOptions ?se ?pl = (pl', Inl (StartBoxErr ''operation not permitted''))" by (metis prod.collapse)
  ultimately have "pt_live pl' = pt_live ?pl \<and> pt_bypass pl' = pt_bypass ?pl"
    using session_lifecycle_clean [of ?pl, where se = ?se] by (simp only: st prod.case sum.case)
  with st show ?thesis by (simp add: Let_def)
qed

end
