(* ===== verification/Engine_Packets.thy ===== *)
theory Engine_Packets
  imports Engine_Run
begin

text \<open>
  Connections over the running bridge (\<^verbatim>\<open>daemon-go/internal/engine\<close>: the packet half of \<^verbatim>\<open>backend.go\<close> and \<^verbatim>\<open>xray_backend.go\<close>, \<^verbatim>\<open>ProxyDialContext\<close> of
  \<^verbatim>\<open>plan.go\<close>). Closing the packet connection that xray returns does not end its dispatch; cancelling the dispatch context does. The backend ties the
  two together, and the interface demands it of every backend.

  The locale \<open>packet_backend\<close> is that demand; the xray backend is its instance. Main result: whatever is opened and closed, in any order and as often as
  a client likes, the dispatches that are alive are those of the connections that are open, and each is cancelled at most once.
\<close>

section \<open>What a backend owes\<close>

text \<open>\<open>held\<close> are the dispatches a state keeps alive, \<open>key\<close> the one of a connection. A listen can fail, a close can report an error.\<close>

locale packet_backend =
  fixes listen :: "'a \<Rightarrow> 's \<Rightarrow> 's \<times> ('e + 'c)"
    and close :: "'c \<Rightarrow> 's \<Rightarrow> 's"
    and held :: "'s \<Rightarrow> nat set"
    and key :: "'c \<Rightarrow> nat"
    and issued :: "'s \<Rightarrow> 'c \<Rightarrow> bool"
    and ok :: "'s \<Rightarrow> bool"
  assumes listen_fails: "ok s \<Longrightarrow> listen a s = (s', Inl e) \<Longrightarrow> ok s' \<and> held s' = held s"
    and listen_opens: "ok s \<Longrightarrow> listen a s = (s', Inr c) \<Longrightarrow> ok s' \<and> issued s' c \<and> key c \<notin> held s \<and> held s' = insert (key c) (held s)"
    and close_ends: "ok s \<Longrightarrow> issued s c \<Longrightarrow> ok (close c s) \<and> held (close c s) = held s - {key c}"
begin

text \<open>Opens and closes in any order, with the connections that are open; one can be closed again.\<close>

inductive traffic :: "'s \<Rightarrow> 's \<times> 'c list \<Rightarrow> bool" for s0 where
  start: "traffic s0 (s0, [])"
| opened: "traffic s0 (s, cs) \<Longrightarrow> listen a s = (s', Inr c) \<Longrightarrow> traffic s0 (s', c # cs)"
| failed: "traffic s0 (s, cs) \<Longrightarrow> listen a s = (s', Inl e) \<Longrightarrow> traffic s0 (s', cs)"
| closed: "traffic s0 (s, cs) \<Longrightarrow> issued s c \<Longrightarrow> traffic s0 (close c s, filter (\<lambda>d. key d \<noteq> key c) cs)"

lemma held_is_open:
  assumes "traffic s0 t" and "ok s0" and "held s0 = {}"
  shows "ok (fst t) \<and> held (fst t) = key ` set (snd t)"
  using assms
proof (induction rule: traffic.induct)
  case (opened s cs a s' c)
  then show ?case using listen_opens by auto
next
  case (failed s cs a s' e)
  then show ?case using listen_fails by auto
next
  case (closed s cs c)
  then show ?case using close_ends [of s c] by auto
qed simp

text \<open>Nothing is left once everything is closed.\<close>

lemma all_closed: "traffic s0 (s, []) \<Longrightarrow> ok s0 \<Longrightarrow> held s0 = {} \<Longrightarrow> held s = {}"
  using held_is_open by fastforce

end

section \<open>The xray backend\<close>

text \<open>The live dispatch contexts, the next one, and the cancellations that ran, in order.\<close>

record dispatches =
  dp_live :: "nat list"
  dp_next :: nat
  dp_cancelled :: "nat list"

text \<open>\<^verbatim>\<open>cancelPacketConn\<close>: xray's connection with the context it was dialled on, and the call that dialled it.\<close>

record cancelPacketConn =
  pk_ctx :: nat
  pk_call :: xray_call

definition cancel :: "nat \<Rightarrow> dispatches \<Rightarrow> dispatches" where
  "cancel n s = s\<lparr>dp_live := removeAll n (dp_live s), dp_cancelled := dp_cancelled s @ [n]\<rparr>"

text \<open>\<open>fails\<close> is the error of xray's dial, if any.\<close>

definition ListenPacket_conn :: "string \<times> string option \<Rightarrow> dispatches \<Rightarrow> dispatches \<times> (string + cancelPacketConn)" where
  "ListenPacket_conn a s = (case a of (nodeID, fails) \<Rightarrow>
     let n = dp_next s; s1 = s\<lparr>dp_live := n # dp_live s, dp_next := n + 1\<rparr> in
     case fails of
       Some e \<Rightarrow> (cancel n s1, Inl e)
     | None \<Rightarrow> (s1, Inr \<lparr>pk_ctx = n, pk_call = xray_ListenPacket nodeID\<rparr>))"

text \<open>The \<^verbatim>\<open>sync.Once\<close> has fired when the context is among the cancelled ones.\<close>

definition Close_conn :: "cancelPacketConn \<Rightarrow> dispatches \<Rightarrow> dispatches" where
  "Close_conn c s = (if pk_ctx c \<in> set (dp_cancelled s) then s else cancel (pk_ctx c) s)"

definition dispatches_ok :: "dispatches \<Rightarrow> bool" where
  "dispatches_ok s = (distinct (dp_cancelled s) \<and> set (dp_live s) \<inter> set (dp_cancelled s) = {} \<and>
     (\<forall>n \<in> set (dp_live s) \<union> set (dp_cancelled s). n < dp_next s))"

definition handed_out :: "dispatches \<Rightarrow> cancelPacketConn \<Rightarrow> bool" where
  "handed_out s c = (pk_ctx c \<in> set (dp_live s) \<union> set (dp_cancelled s))"

lemmas packet_defs = ListenPacket_conn_def Close_conn_def cancel_def dispatches_ok_def handed_out_def

lemma listen_cases:
  assumes "dispatches_ok s" and "ListenPacket_conn a s = (s', r)"
  obtains (refused) e where "r = Inl e" "dispatches_ok s'" "set (dp_live s') = set (dp_live s)"
  | (granted) c where "r = Inr c" "dispatches_ok s'" "pk_ctx c = dp_next s" "dp_live s' = dp_next s # dp_live s"
proof -
  have fresh: "dp_next s \<notin> set (dp_live s)" "dp_next s \<notin> set (dp_cancelled s)" using assms(1) by (auto simp: dispatches_ok_def)
  have below: "\<forall>n \<in> set (dp_live s) \<union> set (dp_cancelled s). n < Suc (dp_next s)" using assms(1) by (auto simp: dispatches_ok_def intro: less_SucI)
  obtain nodeID fails where a: "a = (nodeID, fails)" by fastforce
  show thesis
  proof (cases fails)
    case None
    then show thesis using granted assms fresh below a by (auto simp: ListenPacket_conn_def dispatches_ok_def Let_def)
  next
    case (Some e)
    then show thesis using refused assms fresh below a by (auto simp: ListenPacket_conn_def cancel_def dispatches_ok_def Let_def)
  qed
qed

lemma close_keeps:
  assumes "dispatches_ok s" and "handed_out s c"
  shows "dispatches_ok (Close_conn c s) \<and> set (dp_live (Close_conn c s)) = set (dp_live s) - {pk_ctx c}"
  using assms by (cases "pk_ctx c \<in> set (dp_cancelled s)") (auto simp: packet_defs)

interpretation xray_packets: packet_backend ListenPacket_conn Close_conn "\<lambda>s. set (dp_live s)" pk_ctx handed_out dispatches_ok
proof
  fix s s' a e assume "dispatches_ok s" "ListenPacket_conn a s = (s', Inl e)"
  then show "dispatches_ok s' \<and> set (dp_live s') = set (dp_live s)" by (rule listen_cases) auto
next
  fix s s' a c assume h: "dispatches_ok s" "ListenPacket_conn a s = (s', Inr c)"
  have fresh: "dp_next s \<notin> set (dp_live s)" using h(1) by (auto simp: dispatches_ok_def)
  show "dispatches_ok s' \<and> handed_out s' c \<and> pk_ctx c \<notin> set (dp_live s) \<and> set (dp_live s') = insert (pk_ctx c) (set (dp_live s))"
    by (rule listen_cases [OF h]) (simp_all add: fresh handed_out_def)
qed (rule close_keeps)

text \<open>A connection keeps its right to be closed.\<close>

lemma handed_out_stays:
  "handed_out s c \<Longrightarrow> handed_out (Close_conn d s) c" "handed_out s c \<Longrightarrow> handed_out (fst (ListenPacket_conn a s)) c"
  by (auto simp: packet_defs Let_def split: option.splits prod.splits)

text \<open>Every packet connection is dispatched under its node's tag, and no cancellation runs twice.\<close>

lemma packet_conns_reclaimed:
  assumes "xray_packets.traffic \<lparr>dp_live = [], dp_next = 0, dp_cancelled = []\<rparr> (s, cs)"
  shows "set (dp_live s) = pk_ctx ` set cs" and "distinct (dp_cancelled s)"
  using xray_packets.held_is_open [OF assms] by (simp_all add: dispatches_ok_def)

section \<open>Dialling through the session\<close>

text \<open>\<open>dial\<close> is what the outbound of the running box answers; the network that is asked for does not matter, the dial is TCP.\<close>

definition ProxyDialContext :: "(live_outbound \<Rightarrow> string \<Rightarrow> string \<Rightarrow> string + 'c) \<Rightarrow> outbounds option \<Rightarrow> string \<Rightarrow> string \<Rightarrow> (select_error + string) + 'c" where
  "ProxyDialContext dial box network addr = (case box of
     None \<Rightarrow> Inl (Inl NotRunning)
   | Some obs \<Rightarrow> (case obs SelectorTag of
       None \<Rightarrow> Inl (Inl NoSelector)
     | Some ob \<Rightarrow> (case dial ob ''tcp'' addr of Inl e \<Rightarrow> Inl (Inr e) | Inr c \<Rightarrow> Inr c)))"

text \<open>After a selection the dial goes through the selector with that member picked; on a closed session it fails, it does not leave the host unproxied.\<close>

lemma proxy_dial_selected:
  assumes "SelectOutbound tag (Some obs) = Inr obs'"
  shows "\<exists>members. ProxyDialContext dial (Some obs') network addr = (case dial (Selector members tag) ''tcp'' addr of Inl e \<Rightarrow> Inl (Inr e) | Inr c \<Rightarrow> Inr c)"
  using assms by (auto simp: SelectOutbound_def ProxyDialContext_def split: option.splits live_outbound.splits if_splits)

lemma proxy_dial_closed: "ProxyDialContext dial None network addr = Inl (Inl NotRunning)"
  by (simp add: ProxyDialContext_def)

end
