(* ===== verification/Engine_Validation.thy ===== *)
theory Engine_Validation
  imports Engine_Packets Manager_Doctor
begin

text \<open>
  The configs that validate the data plane without a node (\<^verbatim>\<open>daemon-go/internal/engine/config.go\<close>) and the throughput probe
  (\<^verbatim>\<open>DownloadThroughXray\<close> of \<^verbatim>\<open>instrument.go\<close>).

  Main results: the TUN pair whose xray dials by itself carries the mark that keeps it out of the TUN, and differs from a real node's pair in nothing but
  the xray side; the throughput probe leaves no core behind, however it ends.
\<close>

section \<open>Validation configs\<close>

definition xray_stub :: "string \<Rightarrow> (string \<times> json) list \<Rightarrow> json obj" where
  "xray_stub listen stream =
    [(''log'', JObj [(''loglevel'', JStr ''warning'')]),
     (''inbounds'', JArr [JObj [(''listen'', JStr listen), (''protocol'', JStr ''socks''), (''settings'', JObj [(''udp'', JBool False)])]]),
     (''outbounds'', JArr [JObj ([(''protocol'', JStr ''freedom''), (''tag'', JStr ''direct'')] @ stream)])]"

definition FreedomValidationConfigs :: "string \<Rightarrow> string \<Rightarrow> json obj \<times> json obj" where
  "FreedomValidationConfigs goos tunName = (singBoxTUNConfig goos tunName,
     xray_stub ''@il-xray-stub-tun'' [(''streamSettings'', JObj [(''sockopt'', JObj [(''mark'', JInt AutoRedirectOutputMark)])])])"

text \<open>The interface name is always written here, the empty one too.\<close>

definition DirectTunValidationConfig :: "string \<Rightarrow> string \<Rightarrow> json obj \<times> json obj" where
  "DirectTunValidationConfig goos tunName =
    ([(''log'', JObj [(''level'', JStr ''info'')]),
      (''dns'', JObj [(''strategy'', JStr ''prefer_ipv4''),
         (''servers'', JArr [JObj [(''tag'', JStr ''dns-google''), (''type'', JStr ''tls''), (''server'', JStr ''8.8.8.8'')],
                           JObj [(''tag'', JStr ''local''), (''type'', JStr ''tls''), (''server'', JStr ''1.1.1.1'')]]),
         (''rules'', JArr [JObj [(''query_type'', enc_strings [''A'', ''AAAA'']), (''server'', JStr ''dns-google'')]])]),
      (''inbounds'', JArr [JObj ([(''type'', JStr ''tun''), (''tag'', JStr ''tun-in''), (''interface_name'', JStr tunName),
         (''address'', enc_strings [''172.18.0.1/30'', ''fdfe:dcba:9876::1/126'']), (''mtu'', JInt 1500), (''auto_route'', JBool True)] @
         (if goos = ''linux'' then [(''auto_redirect'', JBool True)] else []) @
         [(''strict_route'', JBool True), (''stack'', JStr ''mixed''), (''route_exclude_address'', enc_strings [''192.168.0.0/16''])])]),
      (''outbounds'', JArr [JObj [(''type'', JStr ''direct''), (''tag'', JStr ''direct'')]]),
      (''route'', JObj [(''auto_detect_interface'', JBool True), (''default_domain_resolver'', JStr ''dns-google''), (''final'', JStr ''direct''),
         (''rules'', JArr [JObj [(''action'', JStr ''sniff'')],
                         JObj [(''protocol'', enc_strings [''dns'']), (''action'', JStr ''hijack-dns'')]])])],
     xray_stub ''@il-xray-stub-direct'' [])"

definition SocksValidationConfigs :: "string \<Rightarrow> int \<Rightarrow> json obj \<times> json obj" where
  "SocksValidationConfigs host port = (singBoxSocksConfig host port, xray_stub ''@il-xray-stub-socks'' [])"

text \<open>What a config routes to by default, and the tags it emits.\<close>

definition member_of :: "json \<Rightarrow> string \<Rightarrow> json option" where
  "member_of j k = (case j of JObj ob \<Rightarrow> jget ob k | _ \<Rightarrow> None)"

definition emitted_tags :: "json obj \<Rightarrow> json set" where
  "emitted_tags cfg = (case jget cfg ''outbounds'' of Some (JArr obs) \<Rightarrow> {t. \<exists>ob \<in> set obs. member_of ob ''tag'' = Some t} | _ \<Rightarrow> {})"

definition final_tag :: "json obj \<Rightarrow> json option" where
  "final_tag cfg = Option.bind (jget cfg ''route'') (\<lambda>r. member_of r ''final'')"

lemma validation_routes_resolve:
  "\<exists>t \<in> emitted_tags (fst (FreedomValidationConfigs goos tun)). final_tag (fst (FreedomValidationConfigs goos tun)) = Some t"
  "\<exists>t \<in> emitted_tags (fst (DirectTunValidationConfig goos tun)). final_tag (fst (DirectTunValidationConfig goos tun)) = Some t"
  "\<exists>t \<in> emitted_tags (fst (SocksValidationConfigs host port)). final_tag (fst (SocksValidationConfigs host port)) = Some t"
  by (auto simp: emitted_tags_def final_tag_def member_of_def FreedomValidationConfigs_def DirectTunValidationConfig_def SocksValidationConfigs_def
      singBoxTUNConfig_def singBoxSocksConfig_def obj_simps)

text \<open>The freedom pair is the pair of a real node with another xray config: what it validates is the side both share.\<close>

lemma freedom_shares_tun: "NodeTUNConfigs goos env p tun = Inr (sb, xr) \<Longrightarrow> fst (FreedomValidationConfigs goos tun) = sb"
  by (auto simp: NodeTUNConfigs_def FreedomValidationConfigs_def rbind_eq_Inr_iff)

lemma socks_shares_inbound: "NodeSocksConfigs env p host port = Inr (sb, xr) \<Longrightarrow> fst (SocksValidationConfigs host port) = sb"
  by (auto simp: NodeSocksConfigs_def SocksValidationConfigs_def rbind_eq_Inr_iff)

lemma direct_without_backend:
  "backend_outbound ob = None" if "jget (fst (DirectTunValidationConfig goos tun)) ''outbounds'' = Some (JArr obs)" "JObj ob \<in> set obs"
  using that by (auto simp: DirectTunValidationConfig_def backend_outbound_def OutboundType_def obj_simps)

section \<open>The throughput probe\<close>

datatype download_fault =
    DownloadCompile plan_error
  | DownloadBuild string
  | DownloadWarmup string
  | DownloadRequest string
  | DownloadFetch string

text \<open>The warm-up: a failed try counts only when the deadline has passed, and a tunnel that never warmed up is measured all the same.\<close>

fun download_warm_up :: "core_probe \<Rightarrow> nat \<Rightarrow> nat \<Rightarrow> string option" where
  "download_warm_up cp k 0 = None"
| "download_warm_up cp k (Suc left) = (case cp_get cp k of
     None \<Rightarrow> None
   | Some e \<Rightarrow> if cp_expired cp k then Some e else download_warm_up cp (Suc k) left)"

text \<open>
  The answers of the measured request: an error in making it, then an error or the bytes that arrived; the error of the copy is dropped. The result is the
  number of bytes, the time and the error. \<open>cp\<close> are the GETs of the probe URL through the new core.
\<close>

definition DownloadThroughXray ::
  "string \<Rightarrow> start_env \<Rightarrow> core_probe \<Rightarrow> string option \<Rightarrow> string + int \<Rightarrow> profile \<Rightarrow> string \<Rightarrow> plant \<Rightarrow> plant \<times> (int \<times> int \<times> download_fault option)" where
  "DownloadThroughXray env se cp new_request fetch p stubSuffix pl =
    (case CompileXrayClient env p (''@il-dl-'' @ stubSuffix) of
       Inl e \<Rightarrow> (pl, 0, 0, Some (DownloadCompile e))
     | Inr cfg \<Rightarrow> (case BuildXray se pl of
         (pl1, Inl e) \<Rightarrow> (pl1, 0, 0, Some (DownloadBuild e))
       | (pl1, Inr x) \<Rightarrow> (release (XrayInstance x) pl1,
           case download_warm_up cp 0 warmupTries of
             Some e \<Rightarrow> (0, 0, Some (DownloadWarmup e))
           | None \<Rightarrow> (case new_request of
               Some e \<Rightarrow> (0, 0, Some (DownloadRequest e))
             | None \<Rightarrow> (case fetch of
                 Inl e \<Rightarrow> (0, cp_elapsed cp, Some (DownloadFetch e))
               | Inr n \<Rightarrow> (n, cp_elapsed cp, None))))))"

lemma download_leaves_nothing:
  assumes "fresh_plant pl"
  shows "pt_live (fst (DownloadThroughXray env se cp rq fetch p stub pl)) = pt_live pl \<and> pt_bypass (fst (DownloadThroughXray env se cp rq fetch p stub pl)) = pt_bypass pl"
  using removeAll_fresh [OF assms]
  by (auto simp: DownloadThroughXray_def BuildXray_def open_handle_def release_def Let_def split: sum.split option.split)

text \<open>Where a latency probe gives up after two failed warm-ups, the throughput probe goes on, unless its time is up.\<close>

lemma download_tolerates_cold_start:
  assumes "cp_get cp 0 = Some e" and "cp_get cp 1 = Some e'" and "\<not> cp_expired cp 0"
  shows "probeThrough cp = Inl (WarmupErr e')"
    and "download_warm_up cp 0 warmupTries = (if cp_expired cp 1 then Some e' else None)"
  using assms by (simp_all add: probeThrough_def numeral_2_eq_2)

text \<open>The stream it opens is dispatched to the node the core was built for.\<close>

lemma download_reaches_node:
  assumes "routes_by_inbound_tag pick" and "CompileXrayClient env p stub = Inr cfg"
  shows "\<exists>ob. xray_node_outbound singleNodeTag p = Inr ob \<and>
    pick cfg (xc_inbound (DialContext \<lparr>bo_type = OutboundType, bo_tag = ''dl'', bo_node_id = singleNodeTag\<rparr> ''tcp'' dest)) = Some ob"
  using compiled_dispatch(1) [OF assms(1), of env "[(singleNodeTag, p)]" stub cfg singleNodeTag p] assms(2)
  by (simp add: CompileXrayClient_def DialContext_def xray_DialContext_def)

end
