(* ===== verification/Spec2Isabelle.thy ===== *)
theory Spec2Isabelle
  imports Daemon_Reply Daemon_Loops Host_Service Engine_Dns Update_Dir Engine_Validation
begin

text \<open>
  Verification of the iron-link daemon (\<^verbatim>\<open>daemon-go/\<close>): a proxy client that embeds two cores,
  sing-box and xray. It stores profiles of proxy nodes, routing configs and groups; an activation
  loads a profile, chooses a core for every node, builds one session plan and compiles it into the
  two cores' configs. Beside that it keeps its settings, diagnoses connections, counts traffic and checks for signed updates.

  \<^bold>\<open>Parts, theories and sources\<close> (paths under \<^verbatim>\<open>daemon-go/\<close>), in dependency order:

  \<^item> \<open>Iron_Prelude\<close>: results and early returns, Go maps with string keys (locale \<open>go_map\<close>), the
    parts of \<^verbatim>\<open>strings\<close> and \<^verbatim>\<open>strconv\<close> the sources use, JSON documents and the decoding rules of
    \<^verbatim>\<open>encoding/json\<close>.
  \<^item> \<open>Routing_Model\<close> (\<^verbatim>\<open>internal/routing\<close>): targets, rules, configs, their codecs. A rule survives
    encoding and decoding, and conditions the daemon does not know are carried verbatim.
  \<^item> \<open>Proxy_Stream\<close>, \<open>Proxy_Protocols\<close>, \<open>Proxy_Profiles\<close> (\<^verbatim>\<open>internal/proxy\<close>): security and transport
    blocks, eight protocols with stored bodies and outbound builders. The locale \<open>profile_impl\<close> is
    the contract of the \<^verbatim>\<open>Profile\<close> interface, interpreted on each protocol and on their union.
  \<^item> \<open>Proxy_Select\<close> (\<^verbatim>\<open>proxy/selection.go\<close>): the core choice; the chosen core can emit the node.
  \<^item> \<open>Proxy_Links\<close> (\<^verbatim>\<open>ParseURL\<close> and the link parsers of the protocol files): a parsed link is a
    node some core can dial and that survives storage.
  \<^item> \<open>Store_Profile\<close> (\<^verbatim>\<open>store/profile.go\<close>): the profile with every mutator; the locale \<open>selectable\<close>
    states what removing and selecting keep, interpreted for nodes and for routings; reachable
    profiles keep their selections on existing entries and their routing names unique, and only an edit that takes another's URL ends the
    uniqueness of subscription URLs.
  \<^item> \<open>Store_Codec\<close>, \<open>Store_Files\<close> (\<^verbatim>\<open>store/profile.go\<close>, \<^verbatim>\<open>store/store.go\<close>): the document's codec, the
    files with read and write failures. What is saved loads back; the active profile is listed.
  \<^item> \<open>Store_Settings\<close> (\<^verbatim>\<open>store/settings.go\<close>, \<^verbatim>\<open>api/settings.go\<close>): decoding over the defaults, validation.
  \<^item> \<open>Engine_Session\<close>, \<open>Engine_Route\<close>, \<open>Engine_Plan\<close> (\<^verbatim>\<open>engine/plan.go\<close>, \<^verbatim>\<open>tunables.go\<close>, \<^verbatim>\<open>route.go\<close>,
    \<^verbatim>\<open>compile.go\<close>): the plan, its validation and its compilation. Compiled configs name only
    outbounds they emit and list exactly the members of the plan, DNS is hijacked before the private-network exemption, every xray outbound
    carries the mark that keeps it out of the TUN.
  \<^item> \<open>Engine_Run\<close> (\<^verbatim>\<open>engine/session.go\<close>, \<^verbatim>\<open>engine.go\<close>, \<^verbatim>\<open>backend.go\<close>, \<^verbatim>\<open>bridge.go\<close>, \<^verbatim>\<open>xray_backend.go\<close>, \<^verbatim>\<open>dialmark.go\<close>, the
    live queries of \<^verbatim>\<open>plan.go\<close>): the running cores. A failed start and a close leave nothing behind, and traffic for an
    xray-routed member leaves through that member's own outbound.
  \<^item> \<open>Engine_Packets\<close> (the packet half of \<^verbatim>\<open>backend.go\<close> and \<^verbatim>\<open>xray_backend.go\<close>, \<^verbatim>\<open>ProxyDialContext\<close>): connections over the bridge. The live dispatches
    are those of the open connections, and each is cancelled at most once.
  \<^item> \<open>Engine_Validation\<close> (\<^verbatim>\<open>config.go\<close>, \<^verbatim>\<open>DownloadThroughXray\<close>): the configs that validate the data plane without a node share its sing-box side with a
    real node; the throughput probe leaves no core behind.
  \<^item> \<open>Manager_Plan\<close> (\<^verbatim>\<open>cmd/iron-link-daemon/manager.go\<close>, \<^verbatim>\<open>manager_settings.go\<close>): \<^verbatim>\<open>buildPlan\<close> and
    \<^verbatim>\<open>prepareActivation\<close>. Every plan built is one the compiler accepts, exactly when its routing asks only for targets the
    compiler supports (the store also accepts a DPI bypass); unresolvable routing targets fall back to the selector with a warning.
  \<^item> \<open>Update_Check\<close> (\<^verbatim>\<open>internal/update\<close>): manifests, verification, the trust state on disk and the
    policy gates. The locale \<open>trust_store\<close> is the contract of \<^verbatim>\<open>SeqStore\<close>, interpreted on
    \<^verbatim>\<open>FileSeqStore\<close>; along checks that run one after the other the anti-downgrade floor never falls and a
    retired key never returns.
  \<^item> \<open>Update_Download\<close> (\<^verbatim>\<open>update/download.go\<close>): the installer's transfer, rename, sweep and re-check. The locale
    \<open>installer_stage\<close> is what the daemon relies on, interpreted on \<^verbatim>\<open>Download\<close> and \<^verbatim>\<open>VerifyFile\<close>; only a file
    of the declared size and hash lands, under a plain name, and the rename loop ends.
  \<^item> \<open>Manager_Session\<close> (\<^verbatim>\<open>manager.go\<close>, \<^verbatim>\<open>manager_settings.go\<close>, the reconnect decisions of
    \<^verbatim>\<open>manager_subscriptions.go\<close>): activation, stop, switch, restore and reconnect as atomic sections
    under the manager's lock, with a step relation for every interleaving of them. Reachable daemons
    have a consistent session, a reconnect never replaces a newer session, a restart comes back with
    the recorded one.
  \<^item> \<open>Ipc_Stream\<close> (\<^verbatim>\<open>internal/ipc\<close>): frames, the event hub, subscribe streams. The locale
    \<open>lossy_queue\<close> is the contract of a bounded channel; the step relation of the server refines it,
    and the length prefix of a frame never wraps.
  \<^item> \<open>Sub_Links\<close>, \<open>Sub_Parse\<close>, \<open>Sub_Clash\<close>, \<open>Sub_Cores\<close> (\<^verbatim>\<open>internal/subscription/parse*.go\<close>): links
    assembled from subscription entries (locale \<open>base64_alphabet\<close>, interpreted on both alphabets),
    the collection of nodes and groups, and the dialects (share links, SIP008, clash, sing-box, xray)
    as interpretations of the locale \<open>dialect\<close>. A parsed body has only dialable nodes, accounts for
    every link and keeps the members of its groups.
  \<^item> \<open>Sub_Apply\<close> (\<^verbatim>\<open>subscription.go\<close>): fetching, and landing a fetch in the profile. Identities survive a
    refresh, other subscriptions are untouched, node ids stay unique.
  \<^item> \<open>Manager_Store\<close> (\<^verbatim>\<open>manager_store.go\<close>): the store verbs. The locale \<open>profile_editor\<close> is what the
    load-edit-save transaction \<^verbatim>\<open>withProfile\<close> expects of an edit, interpreted on every edit. Profiles on
    disk stay well formed, failing verbs change nothing, and each verb is a run of the session's steps.
  \<^item> \<open>Manager_Subs\<close> (\<^verbatim>\<open>manager_subscriptions.go\<close>): due times, failure backoff, sweeps and landings,
    interleaved with everything else the daemon does.
  \<^item> \<open>Manager_Update\<close> (\<^verbatim>\<open>manager_update.go\<close>): the check schedule, the cached verdict, the download state machine and
    the update verbs, with a step relation for the interleavings of checks, transfers and applies. A staged file is always the
    one the verdict describes and verifies on disk; each decision to announce a version is broadcast
    once; the settings govern every connection; two checks at once can lower the floor, but never below one recorded while no check was under way.
  \<^item> \<open>Engine_Probe\<close> (\<^verbatim>\<open>engine/doctor.go\<close>, \<^verbatim>\<open>diagnose.go\<close>, \<^verbatim>\<open>validate.go\<close>, \<^verbatim>\<open>quality.go\<close>, \<^verbatim>\<open>netreport.go\<close>,
    \<^verbatim>\<open>doctor_forwarding*.go\<close>, \<^verbatim>\<open>probe_singbox.go\<close>, the probes of \<^verbatim>\<open>instrument.go\<close>): the diagnostic probes over a
    network that answers each of their calls. The fetch loop ends, and reports name the stage that failed or is slow.
  \<^item> \<open>Manager_Doctor\<close> (\<^verbatim>\<open>manager_doctor.go\<close>, \<^verbatim>\<open>manager_netreport.go\<close>, \<^verbatim>\<open>manager_forwarding.go\<close>, the latency and diagnosis
    verbs of \<^verbatim>\<open>manager.go\<close>): verdicts and remedies. Remedies come only with a warning, and taking the resolver or the
    address-family one settles its check, except on a TUN pinned to the other family and for two upstreams at one address.
  \<^item> \<open>Engine_Traffic\<close> (\<^verbatim>\<open>engine/instrument.go\<close>, the emitter and \<^verbatim>\<open>traffic_apps\<close> of \<^verbatim>\<open>manager.go\<close>): byte counters with a step
    relation for the interleavings of their updates. No byte is lost between the session's total and the apps'.
  \<^item> \<open>Engine_Dns\<close> (the transports of \<^verbatim>\<open>quality.go\<close>): the resolver query over UDP, TLS and HTTPS. DNS over TLS speaks the framing of RFC 7858,
    stated independently of the code.
  \<^item> \<open>Update_Dir\<close> (\<^verbatim>\<open>update/dir_windows.go\<close>): the protected download directory, one step per system call, against ordinary users who act in
    between. The directory ends up out of their hands, unless an older build left a weaker one behind.
  \<^item> \<open>Host_Paths\<close> (\<^verbatim>\<open>ipc/listen_unix.go\<close>, \<^verbatim>\<open>DefaultDir\<close> of \<^verbatim>\<open>store/store.go\<close>, \<^verbatim>\<open>engine/elevation_other.go\<close>, \<^verbatim>\<open>uuid/uuid.go\<close>): the control
    socket, the config root and identifiers. The socket admits exactly those it is meant for; a daemon under \<^verbatim>\<open>sudo\<close> and the user's client meet when
    the user's runtime directory exists.
  \<^item> \<open>Daemon_Handle\<close> (\<^verbatim>\<open>Handle\<close> of \<^verbatim>\<open>manager.go\<close>, the verbs of \<^verbatim>\<open>api/protocol.go\<close>): the dispatcher over all components. Every request is a run of the
    session's steps, keeps the stored profiles well formed and stays in its component; every verb has a handler.
  \<^item> \<open>Daemon_Wire\<close> (\<^verbatim>\<open>Request\<close> and \<^verbatim>\<open>Event\<close> of \<^verbatim>\<open>api/protocol.go\<close>, \<^verbatim>\<open>handleConn\<close> of \<^verbatim>\<open>ipc/server.go\<close>): how a request document decodes, the event union,
    and the daemon behind its socket. An event survives the wire; no bytes a client sends make the daemon unsound.
  \<^item> \<open>Daemon_Reply\<close> (\<^verbatim>\<open>Response\<close> of \<^verbatim>\<open>api/protocol.go\<close>): the reply union with its rows. Every verb answers with the status the protocol gives it or with
    an error; settings and routing configs that a client sends back as it read them change nothing.
  \<^item> \<open>Daemon_Loops\<close> (\<^verbatim>\<open>updateLoop\<close>, \<^verbatim>\<open>subscriptionLoop\<close>): the timed loops. Automatic update checks are spaced, across restarts too.
  \<^item> \<open>Host_Service\<close> (\<^verbatim>\<open>main.go\<close>, \<^verbatim>\<open>service_windows.go\<close>, \<^verbatim>\<open>Serve\<close> of \<^verbatim>\<open>ipc/server.go\<close>): the process and the Windows service, the service manager
    being a parameter with its laws. An installation is complete or absent, unless undoing it failed too; the wait for a stop ends, the exit code answers for the run; a session can
    outlive the daemon.

  This theory composes planning and dispatch: from the node stored in a profile to the outbound its traffic leaves through.

  \<^bold>\<open>How state and effects correspond to the code.\<close> A struct is a record, a tagged union a datatype,
  \<^verbatim>\<open>uint16\<close>, \<^verbatim>\<open>uint32\<close> and \<^verbatim>\<open>uint64\<close> are words, \<^verbatim>\<open>(T, error)\<close> is a sum with the error on the left.
  A mutator takes and returns the record; a file operation takes the outcome of the system call as
  an argument and returns the files together with an optional error. Go strings are byte strings. Struct
  members match keys up to the case of ASCII letters and the last of two equal keys wins; an absent slice is the empty list. No
  definition uses fuel: every recursion is structural or has a termination proof, but for the read loop of the camouflage probe and the wait
  for a service to stop, which are a \<open>partial_function\<close> each, whose result \<open>None\<close> would be a loop that never ends; both are proved to return.

  \<^bold>\<open>What is an argument.\<close> Code outside the repository is a parameter of the definitions that call it:
  \<^verbatim>\<open>url.Parse\<close>, the JSON and time text syntax, the iteration order of Go maps, minisign, semver, fresh
  identifiers, the clock, the HTTP transport, YAML, regular expressions, the option decoders of the two
  cores, the DNS message format, the Windows service manager and what a call into a running core answers. Where a theorem needs documented behaviour of one of them
  (printing and parsing a time are inverse), it is a hypothesis of that theorem, and the witness
  after it instantiates the parameter.

  \<^bold>\<open>What is not modelled.\<close> What happens inside the two cores; the text
  syntax of JSON and the wording of errors, warnings and diagnoses; the named-pipe listener and the log file of the
  service, socket options and token queries, each one call of the operating system or of a third-party package; the graphical client. They have no logic of
  the daemon's own.
\<close>

section \<open>From a stored node to its egress\<close>

text \<open>The xray members of a plan are stored nodes, with their own profiles.\<close>

lemma embed_nodes_origin:
  assumes "embed_nodes a ns nats xrs = Inr (N, X)" and "m \<in> set X"
  shows "m \<in> set xrs \<or> (\<exists>n \<in> set ns. nd_id n = nn_id m \<and> nd_doc n = Some (nn_profile m))"
  using assms
proof (induction a ns nats xrs rule: embed_nodes.induct)
  case (2 a n ns nats xrs)
  then show ?case
    by (fastforce simp: Let_def dest: SelectCore_profile split: if_splits sum.splits option.splits)
qed simp

lemma compile_plan_Inr:
  "compile_plan env tun plan port = Inr c \<Longrightarrow> \<exists>inbound stub. plan_configs (en_xray_log env) plan tun inbound stub = Inr c"
  by (auto simp: compile_plan_def PlanTUNConfigs_def PlanSocksConfigs_def split: sum.splits if_splits)

lemma relabel_Inr: "((case r of Inl e \<Rightarrow> Inl (f e) | Inr p \<Rightarrow> Inr p) = Inr x) = (r = Inr x)"
  by (cases r) auto

lemma prepared_from_store:
  assumes "prepareActivation env req = Inr a"
  shows "\<exists>prof node rc plan ws tun inbound stub. en_load_profile env (ac_profile_name a) = Inr prof \<and> buildPlan prof node rc = Inr (plan, ws) \<and>
    sp_xray_nodes (ac_plan a) = sp_xray_nodes plan \<and>
    plan_configs (en_xray_log env) (ac_plan a) tun inbound stub = Inr (ac_sb_cfg a, ac_xray_cfg a)"
proof -
  obtain name prof node rc plan ws s sb xr where h: "en_load_profile env name = Inr prof" "buildPlan prof node rc = Inr (plan, ws)"
    and c: "compile_plan env (rq_tun req = Some True) (plan\<lparr>sp_cache_path := en_cache_path env,
        sp_tunables := Some (tunablesFromSettings s)\<rparr>) (st_socks_port s) = Inr (sb, xr)"
    and a: "ac_profile_name a = name" "ac_plan a = plan\<lparr>sp_cache_path := en_cache_path env, sp_tunables := Some (tunablesFromSettings s)\<rparr>"
      "ac_sb_cfg a = sb" "ac_xray_cfg a = xr"
    using assms by (auto simp: prepareActivation_def rbind_eq_Inr_iff Let_def relabel_Inr)
  from compile_plan_Inr [OF c] h a show ?thesis by fastforce
qed

text \<open>
  C3. From storage to egress. When an activation was prepared, every xray-routed member of its session is a node of the stored profile; the
  sing-box config has a bridge entry for it, and under xray's documented routing the streams and the datagrams of that bridge leave through the
  outbound compiled from the very profile stored for that node, in a TUN and in a SOCKS session, whatever other nodes share the instance.
\<close>

theorem activation_egress:
  assumes "routes_by_inbound_tag pick" and "prepareActivation env req = Inr a" and "en_load_profile env (ac_profile_name a) = Inr prof"
    and "''direct'' \<notin> nd_id ` set (pf_nodes prof)" and "''dns-internal'' \<notin> nd_id ` set (pf_nodes prof)"
    and "n \<in> set (sp_xray_nodes (ac_plan a))"
  shows "\<exists>stored q obs bo out. stored \<in> set (pf_nodes prof) \<and> nd_id stored = nn_id n \<and> nd_doc stored = Some q \<and>
    jget (ac_sb_cfg a) ''outbounds'' = Some (JArr (map JObj obs)) \<and> xray_member n \<in> set obs \<and> backend_outbound (xray_member n) = Some bo \<and>
    xray_node_outbound (nd_id stored) q = Inr out \<and> pick (ac_xray_cfg a) (xc_inbound (DialContext bo network dest)) = Some out \<and>
    pick (ac_xray_cfg a) (xc_inbound (ListenPacket bo)) = Some out"
proof -
  obtain prof' node rc plan ws tun inbound stub where p: "en_load_profile env (ac_profile_name a) = Inr prof'"
    and b': "buildPlan prof' node rc = Inr (plan, ws)" and xs: "sp_xray_nodes (ac_plan a) = sp_xray_nodes plan"
    and c: "plan_configs (en_xray_log env) (ac_plan a) tun inbound stub = Inr (ac_sb_cfg a, ac_xray_cfg a)"
    using prepared_from_store [OF assms(2)] by blast
  have b: "buildPlan prof node rc = Inr (plan, ws)" using b' p assms(3) by simp
  have origin: "\<exists>s \<in> set (pf_nodes prof). nd_id s = nn_id m \<and> nd_doc s = Some (nn_profile m)" if "m \<in> set (sp_xray_nodes (ac_plan a))" for m
    by (rule buildPlan_Inr [OF b]) (use embed_nodes_origin [of _ _ "[]" "[]"] that xs in force)
  have "''direct'' \<notin> nn_id ` set (sp_xray_nodes (ac_plan a))" "nn_id n \<noteq> ''dns-internal''"
    using origin assms(4-6) by force+
  moreover obtain s where "s \<in> set (pf_nodes prof)" "nd_id s = nn_id n" "nd_doc s = Some (nn_profile n)" using origin assms(6) by blast
  ultimately show ?thesis using bridge_reaches_own_node [OF assms(1) c assms(6)] by metis
qed

text \<open>A profile with one node pinned to xray, and the documented router.\<close>

definition pinned_profile :: user_profile where
  "pinned_profile = (NewProfile ''r'' ''main'')\<lparr>pf_nodes := [(NewNode ''b'' sample_ss None)\<lparr>nd_core_override := Some CoreXray\<rparr>]\<rparr>"

definition pinned_env :: activation_env where
  "pinned_env = sample_env\<lparr>en_load_profile := (\<lambda>_. Inr pinned_profile)\<rparr>"

definition pinned_request :: activate_request where
  "pinned_request = \<lparr>rq_profile = None, rq_node = Some ''b'', rq_routing = None, rq_tun = Some True\<rparr>"

definition documented_pick :: "json obj \<Rightarrow> string \<Rightarrow> json option" where
  "documented_pick cfg tag = (case (jget cfg ''routing'', jget cfg ''outbounds'') of
     (Some (JObj r), Some (JArr obs)) \<Rightarrow> (case jget r ''rules'' of Some (JArr rules) \<Rightarrow> first_match rules obs tag | _ \<Rightarrow> None)
   | _ \<Rightarrow> None)"

lemma pinned_select: "SelectCore (Some sample_ss) CoreSingBox (Some CoreXray) = Inr CoreXray"
  by code_simp

lemma pinned_prepared:
  "\<exists>a. prepareActivation pinned_env pinned_request = Inr a \<and> ac_profile_name a = ''main'' \<and> map nn_id (sp_xray_nodes (ac_plan a)) = [''b'']"
proof -
  let ?n = "(NewNode ''b'' sample_ss None)\<lparr>nd_core_override := Some CoreXray\<rparr>" and ?rc = "Some (NewDefault ''r'')"
  let ?s = "DefaultSettings ''linux''"
  obtain ob where ob: "XrayOutbound sample_ss = Inr (Some ob)"
    using any_impl.xray_total [of sample_ss] by (auto simp: sample_ss_def shadowsocks_dialableBy_def)
  have node: "request_node pinned_profile ''main'' pinned_request = Inr ?n"
    by (simp add: request_node_def pinned_request_def FindNode_def FindNodeByID_def pinned_profile_def NewNode_def)
  have routing: "request_routing pinned_profile ''main'' pinned_request = Inr ?rc"
    by (simp add: request_routing_def pinned_request_def ActiveRouting_def pinned_profile_def NewProfile_def NewDefault_def)
  obtain plan ws where b: "buildPlan pinned_profile ?n ?rc = Inr (plan, ws)" "map nn_id (sp_xray_nodes plan) = [''b'']"
    by (simp add: buildPlan_def pinned_profile_def NewNode_def IsGroup_def Let_def pinned_select ob
      groups_in_play_def routing_targets_def NewDefault_def add_target_group_def)
  let ?plan = "plan\<lparr>sp_cache_path := en_cache_path pinned_env, sp_tunables := Some (tunablesFromSettings ?s)\<rparr>"
  have act: "profile_activatable pinned_profile"
    by (simp add: profile_activatable_def pinned_profile_def NewNode_def NewProfile_def NewDefault_def routing_supported_def target_supported_def)
  have "compile_plan pinned_env True ?plan (st_socks_port ?s) \<noteq> Inl (PlanError e)" for e
    by (rule prepared_plan_compiles [OF act _ request_node_mem [OF node] _ b(1)])
       (simp_all add: DefaultSettings_def pinned_profile_def NewProfile_def)
  then obtain c where "compile_plan pinned_env True ?plan (st_socks_port ?s) = Inr c"
    by (cases "compile_plan pinned_env True ?plan (st_socks_port ?s)") (auto simp: compile_plan_def pinned_env_def sample_env_def split: sum.splits)
  with node routing b show ?thesis
    by (cases c) (simp add: prepareActivation_def request_profile_def Let_def pinned_request_def, simp add: pinned_env_def sample_env_def)
qed

theorem activation_egress_witness:
  "\<exists>a n q bo out. prepareActivation pinned_env pinned_request = Inr a \<and> sp_xray_nodes (ac_plan a) = [n] \<and> nn_id n = ''b'' \<and>
     backend_outbound (xray_member n) = Some bo \<and> xray_node_outbound ''b'' q = Inr out \<and>
     documented_pick (ac_xray_cfg a) (xc_inbound (ListenPacket bo)) = Some out"
proof -
  obtain a n where a: "prepareActivation pinned_env pinned_request = Inr a" "ac_profile_name a = ''main''" "sp_xray_nodes (ac_plan a) = [n]"
      "nn_id n = ''b''"
    using pinned_prepared by (auto simp: map_eq_Cons_conv)
  have r: "routes_by_inbound_tag documented_pick" by (simp add: routes_by_inbound_tag_def documented_pick_def)
  have p: "en_load_profile pinned_env (ac_profile_name a) = Inr pinned_profile" by (simp add: pinned_env_def)
  have "''direct'' \<notin> nd_id ` set (pf_nodes pinned_profile)" "''dns-internal'' \<notin> nd_id ` set (pf_nodes pinned_profile)"
    "n \<in> set (sp_xray_nodes (ac_plan a))"
    using a(3) by (simp_all add: pinned_profile_def NewNode_def)
  from activation_egress [OF r a(1) p this] a show ?thesis by metis
qed

end
